(* ===== verification/Prelude.thy ===== *)
theory Prelude
  imports Main "HOL-Library.AList" "HOL-Library.Word" "HOL-Library.Multiset"
begin

text \<open>
  Shared ground of the development: how Go maps, Go sets and the few functions of Go's
  standard library (package \<open>strings\<close>, package \<open>sort\<close>) the sources use are modelled, with
  the lemmas every component needs about them.

  \<^item> A Go map that the code ranges over is an association list with distinct keys; the
    order of the list stands for the (unspecified) order of the range loop, so a theorem
    about every list is a theorem about every iteration order.  A map that is only looked up
    is a HOL map.
  \<^item> \<open>map[K]struct{}\<close>, Go's set, is a list without duplicates.
  \<^item> A Go \<open>error\<close> that is only tested for \<open>nil\<close> or for its text is a \<open>string option\<close>.
\<close>

named_theorems go_simps "unfolding of the small wrappers that every component uses"

type_synonym ('k, 'v) gmap = "('k \<times> 'v) list"

abbreviation gput :: "'k \<Rightarrow> 'v \<Rightarrow> ('k, 'v) gmap \<Rightarrow> ('k, 'v) gmap" where
  "gput k v m \<equiv> AList.update k v m"

abbreviation gdel :: "'k \<Rightarrow> ('k, 'v) gmap \<Rightarrow> ('k, 'v) gmap" where
  "gdel k m \<equiv> AList.delete k m"

abbreviation gkeys :: "('k, 'v) gmap \<Rightarrow> 'k list" where
  "gkeys m \<equiv> map fst m"

lemma gmap_put_get [simp]: "map_of (gput k v m) = (map_of m)(k \<mapsto> v)"
  by (simp add: update_conv')

lemma gmap_del_get [simp]: "map_of (gdel k m) = (map_of m)(k := None)"
  by (simp add: delete_conv')

lemma set_gdel: "set (gdel k m) = {e \<in> set m. fst e \<noteq> k}"
  by (auto simp: AList.delete_eq)

lemma gmap_in_set:
  "distinct (gkeys m) \<Longrightarrow> (k, v) \<in> set m \<longleftrightarrow> map_of m k = Some v"
  by (rule map_of_eq_Some_iff[symmetric])

lemma gmap_put_elem: "e \<in> set (gput k v m) \<Longrightarrow> e = (k, v) \<or> e \<in> set m"
  by (induction m) (auto split: if_splits)

subsection \<open>Results\<close>

text \<open>A Go call that returns a value, returns an error, or panics.\<close>

datatype 'a go = Returns 'a | Fails string | Panics

fun go_bind :: "'a go \<Rightarrow> ('a \<Rightarrow> 'b go) \<Rightarrow> 'b go" where
  "go_bind (Returns a) f = f a"
| "go_bind (Fails e) f = Fails e"
| "go_bind Panics f = Panics"

lemma go_bind_eq_Returns [simp]:
  "go_bind r f = Returns b \<longleftrightarrow> (\<exists>a. r = Returns a \<and> f a = Returns b)"
  by (cases r) auto

text \<open>Checks made one after the other: the first that fails decides.\<close>

definition fail_if :: "bool \<Rightarrow> 'e \<Rightarrow> 'e option" where
  "fail_if b e = (if b then Some e else None)"

fun first_fail :: "'e option list \<Rightarrow> 'e option" where
  "first_fail [] = None"
| "first_fail (c # cs) = (case c of None \<Rightarrow> first_fail cs | Some e \<Rightarrow> Some e)"

lemma fail_if_None [simp]: "fail_if b e = None \<longleftrightarrow> \<not> b"
  by (simp add: fail_if_def)

lemma first_fail_None [simp]: "first_fail cs = None \<longleftrightarrow> (\<forall>c\<in>set cs. c = None)"
  by (induction cs) (auto split: option.split)

declare first_fail.simps(2) [simp del]

subsection \<open>Package strings\<close>

text \<open>\<open>strings.Contains(s, sub)\<close>.\<close>

fun strings_contains :: "string \<Rightarrow> string \<Rightarrow> bool" where
  "strings_contains [] sub = (sub = [])"
| "strings_contains (c # cs) sub =
     (take (length sub) (c # cs) = sub \<or> strings_contains cs sub)"

lemma strings_contains_iff: "strings_contains s sub \<longleftrightarrow> (\<exists>us vs. s = us @ sub @ vs)"
proof (induction s)
  case Nil
  then show ?case by auto
next
  case (Cons c cs)
  have "take (length sub) (c # cs) = sub \<longleftrightarrow> (\<exists>vs. c # cs = sub @ vs)"
    by (metis append_eq_conv_conj append_take_drop_id)
  moreover have "(\<exists>us vs. c # cs = us @ sub @ vs) \<longleftrightarrow>
      (\<exists>vs. c # cs = sub @ vs) \<or> (\<exists>us vs. cs = us @ sub @ vs)"
    by (auto simp: Cons_eq_append_conv)
  ultimately show ?case using Cons.IH by simp
qed

lemma strings_contains_self [simp]: "strings_contains s s"
  unfolding strings_contains_iff by (rule exI[of _ "[]"], rule exI[of _ "[]"]) simp

text \<open>\<open>strings.HasSuffix(s, suf)\<close>.\<close>

definition strings_has_suffix :: "string \<Rightarrow> string \<Rightarrow> bool" where
  "strings_has_suffix s suf \<longleftrightarrow>
     length suf \<le> length s \<and> drop (length s - length suf) s = suf"

lemma strings_has_suffix_append [simp]: "strings_has_suffix (s @ suf) suf"
  by (simp add: strings_has_suffix_def)

text \<open>\<open>strings.HasPrefix\<close>, \<open>strings.TrimPrefix\<close>, \<open>strings.TrimSuffix\<close>.\<close>

definition strings_has_prefix :: "string \<Rightarrow> string \<Rightarrow> bool" where
  "strings_has_prefix s pre \<longleftrightarrow> take (length pre) s = pre"

definition strings_trim_prefix :: "string \<Rightarrow> string \<Rightarrow> string" where
  "strings_trim_prefix s pre = (if strings_has_prefix s pre then drop (length pre) s else s)"

definition strings_trim_suffix :: "string \<Rightarrow> string \<Rightarrow> string" where
  "strings_trim_suffix s suf = (if strings_has_suffix s suf then take (length s - length suf) s else s)"

text \<open>
  \<open>strings.Split(s, sep)\<close> for a non-empty separator: cut at the leftmost occurrence, then
  continue after it.  The first argument counts the characters of a separator still to skip.
\<close>

fun split_from :: "string \<Rightarrow> nat \<Rightarrow> string \<Rightarrow> string \<Rightarrow> string list" where
  "split_from sep n acc [] = [rev acc]"
| "split_from sep (Suc n) acc (c # cs) = split_from sep n acc cs"
| "split_from sep 0 acc (c # cs) =
     (if take (length sep) (c # cs) = sep
      then rev acc # split_from sep (length sep - 1) [] cs
      else split_from sep 0 (c # acc) cs)"

definition strings_split :: "string \<Rightarrow> string \<Rightarrow> string list" where
  "strings_split s sep = split_from sep 0 [] s"

lemma split_from_skip: "length xs = n \<Longrightarrow> split_from sep n [] (xs @ ys) = split_from sep 0 [] ys"
  by (induction xs arbitrary: n) auto

lemma split_from_clean:
  "hd sep \<notin> set s \<Longrightarrow> sep \<noteq> [] \<Longrightarrow> split_from sep 0 acc s = [rev acc @ s]"
proof (induction s arbitrary: acc)
  case Nil
  then show ?case by simp
next
  case (Cons c cs)
  have "take (length sep) (c # cs) \<noteq> sep"
    using Cons.prems by (cases sep) auto
  then show ?case using Cons by simp
qed

lemma split_from_hit:
  assumes "hd sep \<notin> set s" and "sep \<noteq> []"
  shows "split_from sep 0 acc (s @ sep @ t) = (rev acc @ s) # split_from sep 0 [] t"
  using assms
proof (induction s arbitrary: acc)
  case Nil
  obtain x xs where sep: "sep = x # xs" using Nil.prems by (cases sep) auto
  then have "split_from sep 0 acc (sep @ t) = rev acc # split_from sep (length xs) [] (xs @ t)"
    by simp
  also have "split_from sep (length xs) [] (xs @ t) = split_from sep 0 [] t"
    by (rule split_from_skip) simp
  finally show ?case by simp
next
  case (Cons c cs)
  have "take (length sep) (c # (cs @ sep @ t)) \<noteq> sep"
    using Cons.prems by (cases sep) auto
  then show ?case using Cons by simp
qed

lemma strings_split_clean:
  "hd sep \<notin> set s \<Longrightarrow> sep \<noteq> [] \<Longrightarrow> strings_split s sep = [s]"
  by (simp add: strings_split_def split_from_clean)

lemma strings_split_hit:
  "hd sep \<notin> set s \<Longrightarrow> sep \<noteq> [] \<Longrightarrow> strings_split (s @ sep @ t) sep = s # strings_split t sep"
  using split_from_hit[of sep s "[]" t] by (simp add: strings_split_def)

lemma strings_split_not_Nil [simp]: "strings_split s sep \<noteq> []"
proof -
  have "split_from sep n acc xs \<noteq> []" for n acc xs
    by (induction sep n acc xs rule: split_from.induct) auto
  then show ?thesis by (simp add: strings_split_def)
qed

text \<open>Joining the pieces with the separator gives the string back.\<close>

fun strings_join :: "string list \<Rightarrow> string \<Rightarrow> string" where
  "strings_join [] sep = []"
| "strings_join [s] sep = s"
| "strings_join (s # t # ts) sep = s @ sep @ strings_join (t # ts) sep"

lemma split_from_not_Nil [simp]: "split_from sep n acc xs \<noteq> []"
  by (induction sep n acc xs rule: split_from.induct) auto

lemma strings_join_Cons [simp]: "ts \<noteq> [] \<Longrightarrow> strings_join (s # ts) sep = s @ sep @ strings_join ts sep"
  by (cases ts) auto

lemma join_split_from:
  "sep \<noteq> [] \<Longrightarrow> n \<le> length s \<Longrightarrow> (0 < n \<longrightarrow> acc = []) \<Longrightarrow>
     strings_join (split_from sep n acc s) sep = rev acc @ drop n s"
proof (induction sep n acc s rule: split_from.induct)
  case (3 sep acc c cs)
  show ?case
  proof (cases "take (length sep) (c # cs) = sep")
    case True
    then have len: "length sep - 1 \<le> length cs" and sep: "length sep = Suc (length sep - 1)"
      using 3(3) by (cases sep; auto dest: arg_cong[of _ _ length])+
    have "c # cs = sep @ drop (length sep) (c # cs)"
      using True by (metis append_take_drop_id)
    also have "drop (length sep) (c # cs) = drop (length sep - 1) cs"
      by (subst sep) simp
    finally have cut: "c # cs = sep @ drop (length sep - 1) cs" .
    have "strings_join (split_from sep 0 acc (c # cs)) sep =
        rev acc @ sep @ strings_join (split_from sep (length sep - 1) [] cs) sep"
      using True by simp
    also have "\<dots> = rev acc @ c # cs"
      using 3(1)[OF True 3(3) len] cut by simp
    finally show ?thesis by simp
  next
    case False
    then show ?thesis using 3(2)[OF False 3(3)] by simp
  qed
qed auto

lemma strings_join_split: "sep \<noteq> [] \<Longrightarrow> strings_join (strings_split s sep) sep = s"
  using join_split_from[of sep 0 s "[]"] by (simp add: strings_split_def)

text \<open>\<open>strings.ToLower\<close> on the ASCII range.\<close>

definition char_to_lower :: "char \<Rightarrow> char" where
  "char_to_lower c =
     (let n = (of_char c :: nat) in if 65 \<le> n \<and> n \<le> 90 then char_of (n + 32) else c)"

definition strings_to_lower :: "string \<Rightarrow> string" where
  "strings_to_lower s = map char_to_lower s"

subsection \<open>Package strconv\<close>

text \<open>\<open>strconv.Itoa\<close> and \<open>strconv.Atoi\<close>: an optional sign, one decimal digit at least, and a
  value that fits an \<open>int\<close> of 64 bits; anything else is an error.\<close>

fun nat_digits :: "nat \<Rightarrow> string" where
  "nat_digits n = (if n < 10 then [char_of (48 + n)]
     else nat_digits (n div 10) @ [char_of (48 + n mod 10)])"

definition strconv_itoa :: "int \<Rightarrow> string" where
  "strconv_itoa i = (if i < 0 then CHR ''-'' # nat_digits (nat (- i)) else nat_digits (nat i))"

definition char_digit :: "char \<Rightarrow> nat option" where
  "char_digit c = (let n = of_char c :: nat in if 48 \<le> n \<and> n \<le> 57 then Some (n - 48) else None)"

fun parse_digits :: "nat \<Rightarrow> string \<Rightarrow> nat option" where
  "parse_digits acc [] = Some acc"
| "parse_digits acc (c # cs) =
     (case char_digit c of None \<Rightarrow> None | Some d \<Rightarrow> parse_digits (acc * 10 + d) cs)"

definition strconv_atoi :: "string \<Rightarrow> int option" where
  "strconv_atoi s =
     (let (neg, ds) = (case s of [] \<Rightarrow> (False, [])
            | c # cs \<Rightarrow> if c = CHR ''-'' then (True, cs) else if c = CHR ''+'' then (False, cs) else (False, s))
      in if ds = [] then None
         else case parse_digits 0 ds of
             None \<Rightarrow> None
           | Some n \<Rightarrow>
               let i = (if neg then - int n else int n)
               in if - (2 ^ 63) \<le> i \<and> i < 2 ^ 63 then Some i else None)"

declare nat_digits.simps [simp del]

lemma char_digit_char_of [simp]: "d < 10 \<Longrightarrow> char_digit (char_of (48 + d)) = Some d"
  by (simp add: char_digit_def Let_def)

lemma parse_digits_append:
  "parse_digits acc (xs @ ys) =
     (case parse_digits acc xs of None \<Rightarrow> None | Some n \<Rightarrow> parse_digits n ys)"
  by (induction acc xs rule: parse_digits.induct) (auto split: option.split)

lemma parse_nat_digits: "parse_digits 0 (nat_digits n) = Some n"
proof (induction n rule: nat_digits.induct)
  case (1 n)
  show ?case
  proof (cases "n < 10")
    case True
    then show ?thesis by (simp add: nat_digits.simps[of n])
  next
    case False
    then show ?thesis
      using 1 by (simp add: nat_digits.simps[of n] parse_digits_append)
  qed
qed

lemma nat_digits_head: "\<exists>(d::nat) cs. d < 10 \<and> nat_digits n = char_of (48 + d) # cs"
proof (induction n rule: nat_digits.induct)
  case (1 n)
  show ?case
  proof (cases "n < 10")
    case True
    then show ?thesis by (auto simp: nat_digits.simps[of n])
  next
    case False
    then obtain d :: nat and cs where "d < 10" "nat_digits (n div 10) = char_of (48 + d) # cs" using 1 by blast
    with False show ?thesis by (auto simp: nat_digits.simps[of n])
  qed
qed

lemma atoi_itoa:
  assumes "- (2 ^ 63) \<le> i" and "i < 2 ^ 63"
  shows "strconv_atoi (strconv_itoa i) = Some i"
proof -
  have digit: "char_of (48 + d) \<noteq> CHR ''-'' \<and> char_of (48 + d) \<noteq> CHR ''+''" if "d < 10" for d :: nat
  proof -
    have "of_char (char_of (48 + d) :: char) = (48 + d :: nat)" using that by simp
    moreover have "of_char CHR ''-'' \<noteq> (48 + d :: nat)" "of_char CHR ''+'' \<noteq> (48 + d :: nat)"
      by simp_all
    ultimately show ?thesis by metis
  qed
  obtain d :: nat and cs where d: "d < 10" "nat_digits (nat \<bar>i\<bar>) = char_of (48 + d) # cs"
    using nat_digits_head by blast
  show ?thesis
  proof (cases "i < 0")
    case True
    then show ?thesis
      using d assms parse_nat_digits[of "nat \<bar>i\<bar>"] by (simp add: strconv_itoa_def strconv_atoi_def)
  next
    case False
    then show ?thesis
      using d digit[OF d(1)] assms parse_nat_digits[of "nat \<bar>i\<bar>"]
      by (simp add: strconv_itoa_def strconv_atoi_def)
  qed
qed

lemma atoi_range: "strconv_atoi s = Some i \<Longrightarrow> - (2 ^ 63) \<le> i \<and> i < 2 ^ 63"
  by (auto simp: strconv_atoi_def Let_def split: option.splits if_splits prod.splits)

subsection \<open>Package sort\<close>

text \<open>
  \<open>sort.Slice(xs, less)\<close> promises a permutation of its argument in which no later element is
  \<open>less\<close> than an earlier one.  It does not promise to be stable, so the model takes the
  sorting function as an argument and theorems ask only for this contract.
\<close>

definition sort_slice_ok :: "('a \<Rightarrow> 'a \<Rightarrow> bool) \<Rightarrow> ('a list \<Rightarrow> 'a list) \<Rightarrow> bool" where
  "sort_slice_ok lt srt \<longleftrightarrow>
     (\<forall>xs. mset (srt xs) = mset xs \<and> sorted_wrt (\<lambda>x y. \<not> lt y x) (srt xs))"

text \<open>Insertion sort, what \<open>sort.Slice\<close> runs on short slices.\<close>

fun insort_less :: "('a \<Rightarrow> 'a \<Rightarrow> bool) \<Rightarrow> 'a \<Rightarrow> 'a list \<Rightarrow> 'a list" where
  "insort_less lt x [] = [x]"
| "insort_less lt x (y # ys) = (if lt y x then y # insort_less lt x ys else x # y # ys)"

definition insertion_sort :: "('a \<Rightarrow> 'a \<Rightarrow> bool) \<Rightarrow> 'a list \<Rightarrow> 'a list" where
  "insertion_sort lt xs = foldr (insort_less lt) xs []"

lemma mset_insort_less [simp]: "mset (insort_less lt x ys) = add_mset x (mset ys)"
  by (induction ys) auto

lemma set_insort_less [simp]: "set (insort_less lt x ys) = insert x (set ys)"
  by (induction ys) auto

lemma sorted_insort_less:
  assumes tr: "\<And>x y z. \<not> lt y x \<Longrightarrow> \<not> lt z y \<Longrightarrow> \<not> lt z x"
    and asym: "\<And>x y. lt y x \<Longrightarrow> \<not> lt x y"
  shows "sorted_wrt (\<lambda>x y. \<not> lt y x) ys \<Longrightarrow>
     sorted_wrt (\<lambda>x y. \<not> lt y x) (insort_less lt x ys)"
proof (induction ys)
  case Nil
  then show ?case by simp
next
  case (Cons y ys)
  have "\<not> lt z x" if "\<not> lt y x" "z \<in> set ys" for z
    using tr[OF that(1)] Cons.prems that(2) by auto
  moreover have "\<not> lt x y" if "lt y x"
    using asym[OF that] .
  ultimately show ?case using Cons by auto
qed

lemma insertion_sort_ok:
  assumes "\<And>x y z. \<not> lt y x \<Longrightarrow> \<not> lt z y \<Longrightarrow> \<not> lt z x" "\<And>x y. lt y x \<Longrightarrow> \<not> lt x y"
  shows "sort_slice_ok lt (insertion_sort lt)"
proof -
  have "mset (insertion_sort lt xs) = mset xs \<and>
      sorted_wrt (\<lambda>x y. \<not> lt y x) (insertion_sort lt xs)" for xs
  proof (induction xs)
    case Nil
    then show ?case by (simp add: insertion_sort_def)
  next
    case (Cons x xs)
    then show ?case
      using sorted_insort_less[of lt, OF assms] by (simp add: insertion_sort_def)
  qed
  then show ?thesis by (simp add: sort_slice_ok_def)
qed

lemma sort_slice_ok_set: "sort_slice_ok lt srt \<Longrightarrow> set (srt xs) = set xs"
  by (metis sort_slice_ok_def set_mset_mset)

lemma sort_slice_ok_length: "sort_slice_ok lt srt \<Longrightarrow> length (srt xs) = length xs"
  by (metis sort_slice_ok_def size_mset)

subsection \<open>Lists\<close>

lemma last_n_suffix:
  "n \<le> length xs \<Longrightarrow> length (drop (length xs - n) xs) = n"
  by simp

lemma distinct_map_insertI: "distinct xs \<Longrightarrow> distinct (List.insert x xs)"
  by (rule distinct_insert[THEN iffD2])

lemma filter_eq_takeWhile_rev: "(\<And>x. x \<in> set xs \<Longrightarrow> P x) \<Longrightarrow> takeWhile P (rev xs) = rev xs"
  by (induction xs) (auto simp: takeWhile_append)

subsection \<open>Machine words\<close>

lemma unat_less_64 [simp]: "unat (w :: 64 word) < 18446744073709551616"
  using unsigned_less[of w, where ?'a = nat] by (simp del: unsigned_less)

lemma unat_less_32 [simp]: "unat (w :: 32 word) < 4294967296"
  using unsigned_less[of w, where ?'a = nat] by (simp del: unsigned_less)

lemma unat_ucast_32_64 [simp]: "unat (ucast (w :: 32 word) :: 64 word) = unat w"
  using unat_less_32[of w] by (simp add: unsigned_ucast_eq take_bit_nat_eq_self del: unat_less_32)

lemma unat_diff_wrap_64:
  fixes a b :: "64 word"
  assumes "a < b"
  shows "unat (a - b) = 2 ^ 64 - (unat b - unat a)"
proof -
  have "unat a < unat b" using assms by (simp add: word_less_nat_alt)
  then show ?thesis
    using unat_less_64[of a] unat_less_64[of b] by (simp add: unat_sub_if' )
qed

subsection \<open>Association lists\<close>

lemma map_of_mapk: "map_of (map (\<lambda>(a, b). (a, f a b)) m) k = map_option (f k) (map_of m k)"
  by (induction m) auto

lemma map_of_filter_key [simp]:
  "map_of (filter (\<lambda>e. fst e \<in> S) m) k = (if k \<in> S then map_of m k else None)"
  by (induction m) auto

lemma distinct_by_count: "(\<And>j. length (filter ((=) j) xs) \<le> 1) \<Longrightarrow> distinct xs"
proof (induction xs)
  case (Cons x xs)
  have "x \<notin> set xs"
    using Cons.prems[of x] by (auto simp: filter_empty_conv)
  moreover have "length (filter ((=) j) xs) \<le> 1" for j
    using Cons.prems[of j] by (simp split: if_splits)
  ultimately show ?case using Cons.IH by simp
qed simp

subsection \<open>Refinement\<close>

text \<open>
  A component refines a specification when each of its operations, in a state of its
  invariant, acts on the abstraction of the state as the operation of the specification.
\<close>

locale refinement =
  fixes step :: "'op \<Rightarrow> 's \<Rightarrow> 's"
    and spec :: "'op \<Rightarrow> 'a \<Rightarrow> 'a"
    and abs :: "'s \<Rightarrow> 'a"
    and ok :: "'s \<Rightarrow> bool"
  assumes ok_step: "ok s \<Longrightarrow> ok (step x s)"
    and abs_step: "ok s \<Longrightarrow> abs (step x s) = spec x (abs s)"
begin

lemma ok_run: "ok s \<Longrightarrow> ok (fold step xs s)"
  by (induction xs arbitrary: s) (auto intro: ok_step)

lemma abs_run: "ok s \<Longrightarrow> abs (fold step xs s) = fold spec xs (abs s)"
  by (induction xs arbitrary: s) (simp_all add: abs_step ok_step)

end

end
