(* ===== verification/AutoProv_Types.thy ===== *)
theory AutoProv_Types
  imports Prelude
begin

text \<open>
  The data of the AutoProv service (\<open>src/autoprov\<close>): the keys and objects it reads from its
  caches (the fields of the edge-cloud objects that the service uses), the cache record of
  \<open>autoprov_caches.go\<close>, and the predicates of the edge-cloud library the service calls, which
  are not part of this repository and so are parameters collected in the record \<open>ext\<close>.
\<close>

subsection \<open>Keys\<close>

record app_key =
  app_org :: string
  app_name :: string
  app_version :: string

record cloudlet_key =
  cl_org :: string
  cl_name :: string
  cl_fed_org :: string

record cluster_inst_key =
  ci_cluster :: string
  ci_cloudlet :: cloudlet_key
  ci_org :: string

record app_inst_key =
  ai_app :: app_key
  ai_cluster_inst :: cluster_inst_key

record policy_key =
  pk_org :: string
  pk_name :: string

abbreviation inst_cloudlet :: "app_inst_key \<Rightarrow> cloudlet_key" where
  "inst_cloudlet k \<equiv> ci_cloudlet (ai_cluster_inst k)"

subsection \<open>Objects\<close>

datatype maintenance_state =
    Normal_Operation | Failover_Requested | Failover_Done | Failover_Error
  | Other_Maintenance nat

datatype liveness = Liveness_Static | Liveness_Dynamic | Liveness_Autoprov | Liveness_Other nat

record app =
  a_key :: app_key
  a_policy :: string            \<comment> \<open>\<open>AutoProvPolicy\<close>\<close>
  a_policies :: "string list"   \<comment> \<open>\<open>AutoProvPolicies\<close>\<close>
  a_deployment :: string
  a_flavor :: string            \<comment> \<open>\<open>DefaultFlavor.Name\<close>\<close>

record app_inst =
  inst_key :: app_inst_key
  inst_liveness :: liveness
  inst_state :: nat

record cloudlet =
  c_key :: cloudlet_key
  c_maintenance :: maintenance_state
  c_state :: nat

record cloudlet_info =
  info_cloudlet :: cloudlet_key
  info_state :: nat
  info_cl_maintenance :: maintenance_state

record policy =
  p_key :: policy_key
  p_min :: nat                  \<comment> \<open>\<open>MinActiveInstances\<close>, an uint32\<close>
  p_max :: nat                  \<comment> \<open>\<open>MaxInstances\<close>, an uint32\<close>
  p_cloudlets :: "cloudlet_key list"
  p_deploy_client_count :: "32 word"
  p_deploy_interval_count :: "32 word"
  p_undeploy_client_count :: "32 word"
  p_undeploy_interval_count :: "32 word"

datatype action = Create | Delete | Other_Action nat

datatype reason = Reason_Demand | Reason_MinMax | Reason_Orphaned

record alert =
  al_labels :: "string \<rightharpoonup> string"
  al_annotations :: "string \<rightharpoonup> string"
  al_state :: string
  al_value :: int               \<comment> \<open>\<open>Value\<close>, a float64, truncated by \<open>uint32(alert.Value)\<close>\<close>

text \<open>Reading a Go map with a missing key gives the zero value, here the empty string.\<close>

definition tag :: "(string \<rightharpoonup> string) \<Rightarrow> string \<Rightarrow> string" where
  "tag m k = (case m k of None \<Rightarrow> '''' | Some v \<Rightarrow> v)"

subsection \<open>autoprov\_caches.go: CacheData\<close>

record caches =
  app_cache :: "app_key \<rightharpoonup> app"
  app_inst_cache :: "app_inst_key \<rightharpoonup> app_inst"
  app_inst_refs_cache :: "app_key \<rightharpoonup> string list"   \<comment> \<open>the keys of \<open>refs.Insts\<close>\<close>
  policy_cache :: "policy_key \<rightharpoonup> policy"
  cloudlet_cache :: "cloudlet_key \<rightharpoonup> cloudlet"
  cloudlet_info_cache :: "cloudlet_key \<rightharpoonup> cloudlet_info"
  free_clusters :: "cloudlet_key \<Rightarrow> string \<Rightarrow> string \<Rightarrow> cluster_inst_key option"
  alert_cache :: "alert list"

definition empty_caches :: caches where
  "empty_caches = \<lparr>app_cache = Map.empty, app_inst_cache = Map.empty,
     app_inst_refs_cache = Map.empty, policy_cache = Map.empty, cloudlet_cache = Map.empty,
     cloudlet_info_cache = Map.empty, free_clusters = (\<lambda>_ _ _. None), alert_cache = []\<rparr>"

subsection \<open>The edge-cloud library\<close>

text \<open>
  The functions of the edge-cloud library (\<open>cloudcommon\<close>, \<open>edgeproto\<close>) the service calls.
  Nothing is assumed of them here; a theorem that needs more says so.
\<close>

record ext =
  x_cloudlet_online :: "cloudlet \<Rightarrow> bool"            \<comment> \<open>\<open>AutoProvCloudletOnline\<close>\<close>
  x_info_online :: "cloudlet_info \<Rightarrow> bool"           \<comment> \<open>\<open>AutoProvCloudletInfoOnline\<close>\<close>
  x_inst_online :: "app_inst \<Rightarrow> cloudlet_info \<Rightarrow> cloudlet \<Rightarrow> bool"
  x_inst_going_online :: "app_inst \<Rightarrow> cloudlet_info \<Rightarrow> cloudlet \<Rightarrow> bool"
  x_app_policies :: "app \<Rightarrow> string list"             \<comment> \<open>the keys of \<open>App.GetAutoProvPolicies()\<close>\<close>
  x_parse_key :: "string \<Rightarrow> app_inst_key"            \<comment> \<open>\<open>AppInstKeyStringParse\<close>\<close>
  x_exists_error :: "app_inst_key \<Rightarrow> string"         \<comment> \<open>\<open>key.ExistsError().Error()\<close>\<close>
  x_being_created :: "string \<Rightarrow> bool"                \<comment> \<open>\<open>IsAppInstBeingCreatedError\<close>\<close>
  x_being_deleted :: "string \<Rightarrow> bool"                \<comment> \<open>\<open>IsAppInstBeingDeletedError\<close>\<close>
  x_min_met_error :: string                          \<comment> \<open>\<open>AutoProvMinAlreadyMetError\<close>\<close>
  x_autocluster_name :: string                       \<comment> \<open>\<open>AutoProvClusterName\<close>\<close>
  x_mobiledgex_org :: string                         \<comment> \<open>\<open>OrganizationMobiledgeX\<close>\<close>

end
