(* ===== verification/AutoProv_Retry.thy ===== *)
theory AutoProv_Retry
  imports AutoProv_Types
begin

text \<open>
  \<open>src/autoprov/autoprov_retry.go\<close> and \<open>src/autoprov/autoprov_deploy.go\<close>: the retry tracker
  (the App + Cloudlet pairs on which the last deployment failed) and the API call wrapper that
  feeds it.  The tracker's contract towards the min-max checker is the locale
  \<open>failure_tracker\<close>: what \<open>hasFailure\<close> answers after any history of deployment results.
\<close>

subsection \<open>ignoreDeployError\<close>

definition ignore_deploy_error :: "ext \<Rightarrow> app_inst_key \<Rightarrow> string option \<Rightarrow> bool" where
  "ignore_deploy_error x key err =
     (case err of
        None \<Rightarrow> True
      | Some e \<Rightarrow>
          (if x_being_created x e \<or> x_being_deleted x e then True
           else if strings_contains e (x_exists_error x key)
              \<or> strings_contains e (x_min_met_error x)
              \<or> strings_contains e ''AppInst against App which is being deleted''
           then True else False))"

subsection \<open>RetryTracker\<close>

text \<open>\<open>allFailures\<close>, a Go set of AppInst keys.\<close>

type_synonym retry_tracker = "app_inst_key list"

definition new_retry_tracker :: retry_tracker where
  "new_retry_tracker = []"

definition retry_lookup :: "app_inst_key \<Rightarrow> app_inst_key" where
  "retry_lookup key =
     key\<lparr>ai_cluster_inst := (ai_cluster_inst key)\<lparr>ci_org := '''', ci_cluster := ''''\<rparr>\<rparr>"

definition register_deploy_result ::
    "ext \<Rightarrow> app_inst_key \<Rightarrow> string option \<Rightarrow> retry_tracker \<Rightarrow> retry_tracker" where
  "register_deploy_result x key err fs =
     (let lookup = retry_lookup key in
      if ignore_deploy_error x key err then removeAll lookup fs
      else List.insert lookup fs)"

text \<open>\<open>doRetry\<close>: the emptied set and the Apps handed to the min-max workers, in order.\<close>

fun do_retry :: "retry_tracker \<Rightarrow> retry_tracker \<times> app_key list" where
  "do_retry [] = ([], [])"
| "do_retry (k # fs) = (let (fs', work) = do_retry fs in (removeAll k fs', ai_app k # work))"

definition has_failure :: "retry_tracker \<Rightarrow> app_key \<Rightarrow> cloudlet_key \<Rightarrow> bool" where
  "has_failure fs a c \<longleftrightarrow>
     \<lparr>ai_app = a,
      ai_cluster_inst = \<lparr>ci_cluster = '''', ci_cloudlet = c, ci_org = ''''\<rparr>\<rparr> \<in> set fs"

lemma retry_lookup_eq_iff:
  "retry_lookup key = \<lparr>ai_app = a, ai_cluster_inst = \<lparr>ci_cluster = '''', ci_cloudlet = c, ci_org = ''''\<rparr>\<rparr>
     \<longleftrightarrow> ai_app key = a \<and> inst_cloudlet key = c"
  by (cases key; cases "ai_cluster_inst key") (auto simp: retry_lookup_def)

lemma has_failure_register:
  "has_failure (register_deploy_result x key err fs) a c =
     (if ai_app key = a \<and> inst_cloudlet key = c then \<not> ignore_deploy_error x key err
      else has_failure fs a c)"
  using retry_lookup_eq_iff[of key a c]
  by (auto simp: has_failure_def register_deploy_result_def Let_def)

lemma has_failure_Nil [simp]: "\<not> has_failure [] a c"
  by (simp add: has_failure_def)

lemma do_retry_clears: "fst (do_retry fs) = []"
  by (induction fs) (auto simp: split_beta Let_def)

lemma do_retry_work: "snd (do_retry fs) = map ai_app fs"
  by (induction fs) (auto simp: split_beta Let_def)

lemma distinct_register [simp]:
  "distinct fs \<Longrightarrow> distinct (register_deploy_result x key err fs)"
  by (simp add: register_deploy_result_def Let_def distinct_removeAll)

subsection \<open>The contract of the tracker\<close>

locale failure_tracker =
  fixes has :: "'s \<Rightarrow> 'a \<Rightarrow> 'c \<Rightarrow> bool"
    and register :: "'k \<Rightarrow> 'e \<Rightarrow> 's \<Rightarrow> 's"
    and clear :: "'s \<Rightarrow> 's"
    and site :: "'k \<Rightarrow> 'a \<times> 'c"
    and ignored :: "'k \<Rightarrow> 'e \<Rightarrow> bool"
  assumes has_register:
      "has (register k e s) a c = (if site k = (a, c) then \<not> ignored k e else has s a c)"
    and has_clear: "\<not> has (clear s) a c"
begin

text \<open>A history of results is registered from the left.\<close>

definition registers :: "('k \<times> 'e) list \<Rightarrow> 's \<Rightarrow> 's" where
  "registers rs s = fold (\<lambda>(k, e). register k e) rs s"

lemma registers_simps [simp]:
  "registers [] s = s"
  "registers ((k, e) # rs) s = registers rs (register k e s)"
  by (simp_all add: registers_def)

lemma registers_append: "registers (rs @ rs') s = registers rs' (registers rs s)"
  by (simp add: registers_def)

lemma has_registers_other:
  "(\<forall>(k, e) \<in> set rs. site k \<noteq> (a, c)) \<Longrightarrow> has (registers rs s) a c = has s a c"
  by (induction rs arbitrary: s) (auto simp: has_register)

text \<open>Only the last result for a site counts.\<close>

lemma has_registers_last:
  assumes "site k = (a, c)" and "\<forall>(k', e') \<in> set rs'. site k' \<noteq> (a, c)"
  shows "has (registers (rs @ (k, e) # rs') s) a c \<longleftrightarrow> \<not> ignored k e"
  using assms by (simp add: registers_append has_registers_other has_register)

lemma has_after_clear:
  assumes "has (registers rs (clear s)) a c"
  shows "\<exists>(k, e) \<in> set rs. site k = (a, c) \<and> \<not> ignored k e"
  using assms
proof (induction rs rule: rev_induct)
  case Nil
  then show ?case by (simp add: has_clear)
next
  case (snoc r rs)
  obtain k e where r: "r = (k, e)" by (cases r)
  show ?case
  proof (cases "site k = (a, c)")
    case True
    then show ?thesis using snoc.prems r by (auto simp: registers_append has_register)
  next
    case False
    then have "has (registers rs (clear s)) a c"
      using snoc.prems r by (simp add: registers_append has_register)
    then show ?thesis using snoc.IH by auto
  qed
qed

end

interpretation rt: failure_tracker has_failure "register_deploy_result x"
  "\<lambda>fs. fst (do_retry fs)" "\<lambda>k. (ai_app k, inst_cloudlet k)" "ignore_deploy_error x"
  for x
  by unfold_locales (auto simp: has_failure_register do_retry_clears)

subsection \<open>autoprov\_deploy.go: goAppInstApi\<close>

text \<open>
  The Controller's answer to an API call is a parameter \<open>run\<close> (\<open>runAppInstApi\<close> dials the
  Controller and drains the reply stream; its result is the error).  The wrapper refuses other
  actions, records an event for every successful call, and registers the result with the retry
  tracker when the reason is the min-max policy.
\<close>

record api_state =
  api_failures :: retry_tracker
  api_events :: "(string \<times> app_inst_key) list"

type_synonym api_run = "app_inst_key \<Rightarrow> action \<Rightarrow> reason \<Rightarrow> string \<Rightarrow> string option"

definition go_app_inst_api ::
    "ext \<Rightarrow> api_run \<Rightarrow> app_inst_key \<Rightarrow> action \<Rightarrow> reason \<Rightarrow> string \<Rightarrow> api_state
       \<Rightarrow> string option \<times> api_state" where
  "go_app_inst_api x run inst act reason pname st =
     (if act \<noteq> Create \<and> act \<noteq> Delete then (Some ''invalid action'', st)
      else
        let event_name = (if act = Delete then ''AutoProv delete AppInst''
                          else ''AutoProv create AppInst'');
            err = run inst act reason pname;
            st1 = (if err = None
                   then st\<lparr>api_events := api_events st @ [(event_name, inst)]\<rparr> else st);
            st2 = (if reason = Reason_MinMax
                   then st1\<lparr>api_failures := register_deploy_result x inst err (api_failures st1)\<rparr>
                   else st1)
        in (err, st2))"

lemma go_app_inst_api_failures:
  assumes "act = Create \<or> act = Delete"
  shows "api_failures (snd (go_app_inst_api x run inst act reason pname st)) =
     (if reason = Reason_MinMax
      then register_deploy_result x inst (run inst act reason pname) (api_failures st)
      else api_failures st)"
  using assms by (auto simp: go_app_inst_api_def Let_def)

lemma go_app_inst_api_err:
  "act = Create \<or> act = Delete \<Longrightarrow>
     fst (go_app_inst_api x run inst act reason pname st) = run inst act reason pname"
  by (auto simp: go_app_inst_api_def Let_def)

subsection \<open>Properties\<close>

definition demo_retry_key :: "string \<Rightarrow> app_inst_key" where
  "demo_retry_key cluster = \<lparr>ai_app = \<lparr>app_org = ''dev'', app_name = ''a'', app_version = ''1''\<rparr>,
     ai_cluster_inst = \<lparr>ci_cluster = cluster,
       ci_cloudlet = \<lparr>cl_org = ''oper'', cl_name = ''site'', cl_fed_org = ''''\<rparr>, ci_org = ''dev''\<rparr>\<rparr>"

definition demo_retry_ext :: ext where
  "demo_retry_ext = \<lparr>x_cloudlet_online = (\<lambda>_. True), x_info_online = (\<lambda>_. True),
     x_inst_online = (\<lambda>_ _ _. True), x_inst_going_online = (\<lambda>_ _ _. False),
     x_app_policies = a_policies, x_parse_key = demo_retry_key,
     x_exists_error = (\<lambda>_. ''already exists''), x_being_created = (\<lambda>_. False),
     x_being_deleted = (\<lambda>_. False), x_min_met_error = ''minimum already met'',
     x_autocluster_name = ''autocluster-autoprov'', x_mobiledgex_org = ''MobiledgeX''\<rparr>"

text \<open>
  Note (retry\_tracks\_last\_result): a Cloudlet is black-listed for an App exactly when the last
  deployment result registered for that pair, whatever the cluster, is an error that is not one
  of the ignored ones; results of other Apps or Cloudlets in between do not matter.
\<close>

theorem retry_tracks_last_result:
  assumes "ai_app k = a" and "inst_cloudlet k = c"
    and "\<forall>(k', e')\<in>set later. (ai_app k', inst_cloudlet k') \<noteq> (a, c)"
  shows "has_failure (fold (\<lambda>(k, e). register_deploy_result x k e) (earlier @ (k, e) # later) fs) a c
     \<longleftrightarrow> \<not> ignore_deploy_error x k e"
  using rt.has_registers_last[of k a c later x earlier e fs] assms
  by (simp add: rt.registers_def)

theorem retry_tracks_last_result_witness:
  "has_failure (fold (\<lambda>(k, e). register_deploy_result demo_retry_ext k e)
      ([(demo_retry_key ''c1'', None)] @ (demo_retry_key ''c2'', Some ''no space'') #
       [((demo_retry_key ''c3'')\<lparr>ai_app := \<lparr>app_org = ''dev'', app_name = ''b'', app_version = ''1''\<rparr>\<rparr>, None)]) [])
     (ai_app (demo_retry_key ''c'')) (inst_cloudlet (demo_retry_key ''c''))"
proof -
  have "\<not> ignore_deploy_error demo_retry_ext (demo_retry_key ''c2'') (Some ''no space'')"
    by (simp add: ignore_deploy_error_def demo_retry_ext_def)
  then show ?thesis
    by (subst retry_tracks_last_result) (simp_all add: demo_retry_key_def)
qed

text \<open>
  Note (retry\_requeues\_and\_clears): a retry forgets every failure and hands every App that had
  one back to the min-max workers, and no other App.
\<close>

theorem retry_requeues_and_clears:
  assumes "set fs = retry_lookup ` ks"
  shows "(\<forall>a c. \<not> has_failure (fst (do_retry fs)) a c) \<and>
    (\<forall>a. a \<in> set (snd (do_retry fs)) \<longleftrightarrow> (\<exists>c. has_failure fs a c))"
proof -
  have "(\<exists>c. has_failure fs a c) \<longleftrightarrow> a \<in> ai_app ` set fs" for a
    using retry_lookup_eq_iff
    by (auto simp: has_failure_def assms image_iff) (metis app_inst_key.select_convs(1))+
  then show ?thesis by (simp add: rt.has_clear do_retry_work)
qed

theorem retry_requeues_and_clears_witness:
  "ai_app (demo_retry_key ''c'') \<in> set (snd (do_retry [retry_lookup (demo_retry_key ''c'')]))"
  using retry_requeues_and_clears[of "[retry_lookup (demo_retry_key ''c'')]" "{demo_retry_key ''c''}"]
  by (auto simp: has_failure_def retry_lookup_def demo_retry_key_def)

end
