(* ===== verification/AutoProv_Aggr.thy ===== *)
theory AutoProv_Aggr
  imports AutoProv_Retry
begin

text \<open>
  \<open>src/autoprov/autoprov_aggr.go\<close>: the aggregator that reads the client counts of every App
  and Cloudlet once per interval and deploys an AppInst where the demand met a policy's
  threshold for enough consecutive intervals.  Counters keep the width they have in the code
  (uint64 counts and interval numbers, uint32 thresholds), because their subtraction wraps.
\<close>

subsection \<open>State\<close>

record cloudlet_stats =
  cs_count :: "64 word"
  cs_last_count :: "64 word"
  cs_interval :: "64 word"

record policy_tracker =
  pt_client_count :: "32 word"
  pt_interval_count :: "32 word"
  pt_trackers :: "cloudlet_key \<rightharpoonup> 32 word"   \<comment> \<open>\<open>deployIntervalsMet\<close> by cloudlet\<close>

record app_stats =
  as_policies :: "(string, policy_tracker) gmap"
  as_cloudlets :: "cloudlet_key \<rightharpoonup> cloudlet_stats"

record aggr =
  ag_interval_sec :: int
  ag_offset_sec :: int
  ag_running :: bool            \<comment> \<open>\<open>stop\<close> is a live channel and the thread runs\<close>
  ag_stats :: "(app_key, app_stats) gmap"
  ag_interval :: "64 word"

definition new_auto_prov_aggr :: "int \<Rightarrow> int \<Rightarrow> aggr" where
  "new_auto_prov_aggr interval_sec offset_sec =
     \<lparr>ag_interval_sec = interval_sec, ag_offset_sec = offset_sec, ag_running = False,
      ag_stats = [], ag_interval = 0\<rparr>"

subsection \<open>Start, Stop, UpdateSettings\<close>

definition aggr_start :: "aggr \<Rightarrow> aggr" where
  "aggr_start s = (if ag_running s then s else s\<lparr>ag_running := True\<rparr>)"

text \<open>\<open>close(s.stop)\<close> on a nil channel panics: \<open>None\<close>.\<close>

definition aggr_stop :: "aggr \<Rightarrow> aggr option" where
  "aggr_stop s = (if ag_running s then Some (s\<lparr>ag_running := False\<rparr>) else None)"

text \<open>\<open>s.allStats != nil\<close> always holds for an aggregator made by \<open>NewAutoProvAggr\<close>.\<close>

definition aggr_update_settings :: "int \<Rightarrow> int \<Rightarrow> aggr \<Rightarrow> aggr option" where
  "aggr_update_settings interval_sec offset_sec s =
     (if ag_interval_sec s = interval_sec \<and> ag_offset_sec s = offset_sec then Some s
      else case aggr_stop s of
        None \<Rightarrow> None
      | Some s1 \<Rightarrow>
          Some (aggr_start (s1\<lparr>ag_interval_sec := interval_sec, ag_offset_sec := offset_sec\<rparr>)))"

subsection \<open>runIter\<close>

text \<open>One parsed \<open>auto-prov-counts\<close> row; \<open>None\<close> is a row without values or one that fails to parse.\<close>

type_synonym ap_row = "(app_key \<times> cloudlet_key \<times> 64 word) option"

text \<open>Aggregate the rows by App and Cloudlet: \<open>appStats[ap.CloudletKey] += ap.Count\<close>.\<close>

fun aggregate_rows ::
    "ap_row list \<Rightarrow> (app_key, (cloudlet_key, 64 word) gmap) gmap
       \<Rightarrow> (app_key, (cloudlet_key, 64 word) gmap) gmap" where
  "aggregate_rows [] stats = stats"
| "aggregate_rows (None # rows) stats = aggregate_rows rows stats"
| "aggregate_rows (Some (a, c, n) # rows) stats =
     (let app_stats = (case map_of stats a of None \<Rightarrow> [] | Some m \<Rightarrow> m);
          old = (case map_of app_stats c of None \<Rightarrow> 0 | Some v \<Rightarrow> v)
      in aggregate_rows rows (gput a (gput c (old + n) app_stats) stats))"

text \<open>The loop body over the policies of one App: the new tracker and whether it says deploy.\<close>

definition track_policy ::
    "cloudlet_key \<Rightarrow> bool \<Rightarrow> 64 word \<Rightarrow> policy_tracker \<Rightarrow> policy_tracker \<times> bool" where
  "track_policy ckey reset delta ap =
     (case pt_trackers ap ckey of
        None \<Rightarrow> (ap, False)
      | Some met \<Rightarrow>
          let met1 = (if reset then 0 else met);
              met2 = (if ucast (pt_client_count ap) \<le> delta then met1 + 1 else 0)
          in (ap\<lparr>pt_trackers := (pt_trackers ap)(ckey \<mapsto> met2)\<rparr>, pt_interval_count ap \<le> met2))"

fun track_policies ::
    "cloudlet_key \<Rightarrow> bool \<Rightarrow> 64 word \<Rightarrow> (string, policy_tracker) gmap
       \<Rightarrow> (string, policy_tracker) gmap \<times> bool" where
  "track_policies ckey reset delta [] = ([], False)"
| "track_policies ckey reset delta ((name, ap) # aps) =
     (let (ap', d) = track_policy ckey reset delta ap;
          (aps', ds) = track_policies ckey reset delta aps
      in ((name, ap') # aps', d \<or> ds))"

text \<open>One Cloudlet of one App: \<open>True\<close> as second result means \<open>s.deploy(ctx, &app, &ckey)\<close>.\<close>

definition iter_cloudlet ::
    "64 word \<Rightarrow> bool \<Rightarrow> cloudlet_key \<Rightarrow> 64 word \<Rightarrow> app_stats \<Rightarrow> app_stats \<times> bool" where
  "iter_cloudlet interval init ckey cnt st =
     (let cstats = (case as_cloudlets st ckey of
            None \<Rightarrow> \<lparr>cs_count = 0, cs_last_count = 0, cs_interval = interval - 1\<rparr>
          | Some c \<Rightarrow> c)
      in if init
         then (st\<lparr>as_cloudlets := (as_cloudlets st)
                 (ckey \<mapsto> cstats\<lparr>cs_count := cnt, cs_interval := interval\<rparr>)\<rparr>, False)
         else
           let reset = (interval - 1 \<noteq> cs_interval cstats);
               (aps, do_deploy) = track_policies ckey reset (cnt - cs_count cstats) (as_policies st)
           in (st\<lparr>as_policies := aps,
                  as_cloudlets := (as_cloudlets st)
                    (ckey \<mapsto> cstats\<lparr>cs_last_count := cs_count cstats, cs_count := cnt,
                                     cs_interval := interval\<rparr>)\<rparr>, do_deploy))"

fun iter_cloudlets ::
    "64 word \<Rightarrow> bool \<Rightarrow> (cloudlet_key, 64 word) gmap \<Rightarrow> app_stats
       \<Rightarrow> app_stats \<times> cloudlet_key list" where
  "iter_cloudlets interval init [] st = (st, [])"
| "iter_cloudlets interval init ((c, n) # cs) st =
     (let (st1, d) = iter_cloudlet interval init c n st;
          (st2, ds) = iter_cloudlets interval init cs st1
      in (st2, if d then c # ds else ds))"

fun iter_apps ::
    "caches \<Rightarrow> 64 word \<Rightarrow> bool \<Rightarrow> (app_key, (cloudlet_key, 64 word) gmap) gmap
       \<Rightarrow> (app_key, app_stats) gmap \<Rightarrow> (app_key, app_stats) gmap \<times> (app_key \<times> cloudlet_key) list" where
  "iter_apps ca interval init [] all = (all, [])"
| "iter_apps ca interval init ((a, cs) # stats) all =
     (case map_of all a of
        None \<Rightarrow> iter_apps ca interval init stats all
      | Some st \<Rightarrow>
          (case app_cache ca a of
             None \<Rightarrow> iter_apps ca interval init stats all
           | Some app \<Rightarrow>
               let (st', ds) = iter_cloudlets interval init cs st;
                   (all', ds') = iter_apps ca interval init stats (gput a st' all)
               in (all', map (Pair (a_key app)) ds @ ds')))"

text \<open>
  \<open>influx\<close> stands for the credentials, the client and the query: an error, or the parsed rows.
  The result carries the deployments started, in order.
\<close>

definition run_iter ::
    "caches \<Rightarrow> (bool \<Rightarrow> int \<Rightarrow> string + ap_row list) \<Rightarrow> bool \<Rightarrow> aggr
       \<Rightarrow> string + aggr \<times> (app_key \<times> cloudlet_key) list" where
  "run_iter ca influx init s =
     (case influx init (ag_interval_sec s) of
        Inl e \<Rightarrow> Inl e
      | Inr rows \<Rightarrow>
          let stats = aggregate_rows rows [];
              interval = ag_interval s + 1;
              (all, deploys) = iter_apps ca interval init stats (ag_stats s)
          in Inr (s\<lparr>ag_stats := all, ag_interval := (if init then interval - 1 else interval)\<rparr>,
                  deploys))"

text \<open>\<open>deploy\<close>: the AppInst the Controller is asked to create.\<close>

definition auto_prov_inst :: "ext \<Rightarrow> app_key \<Rightarrow> cloudlet_key \<Rightarrow> app_inst_key" where
  "auto_prov_inst x a c =
     \<lparr>ai_app = a, ai_cluster_inst =
        \<lparr>ci_cluster = x_autocluster_name x, ci_cloudlet = c, ci_org = x_mobiledgex_org x\<rparr>\<rparr>"

definition aggr_deploy ::
    "ext \<Rightarrow> api_run \<Rightarrow> app_key \<Rightarrow> cloudlet_key \<Rightarrow> api_state \<Rightarrow> string option \<times> api_state" where
  "aggr_deploy x run a c st =
     go_app_inst_api x run (auto_prov_inst x a c) Create Reason_Demand '''' st"

subsection \<open>DeleteApp, UpdateApp, UpdatePolicy\<close>

definition aggr_delete_app :: "app_key \<Rightarrow> aggr \<Rightarrow> aggr" where
  "aggr_delete_app k s = s\<lparr>ag_stats := gdel k (ag_stats s)\<rparr>"

definition update_policy_tracker :: "policy_tracker \<Rightarrow> policy \<Rightarrow> policy_tracker" where
  "update_policy_tracker ap p =
     \<lparr>pt_client_count = p_deploy_client_count p,
      pt_interval_count = p_deploy_interval_count p,
      pt_trackers = (\<lambda>c. if c \<in> set (p_cloudlets p)
                         then Some (case pt_trackers ap c of None \<Rightarrow> 0 | Some t \<Rightarrow> t) else None)\<rparr>"

definition empty_policy_tracker :: policy_tracker where
  "empty_policy_tracker =
     \<lparr>pt_client_count = 0, pt_interval_count = 0, pt_trackers = Map.empty\<rparr>"

text \<open>The policy names on an App, \<open>inAP\<close>.\<close>

definition in_ap :: "app \<Rightarrow> string list" where
  "in_ap app = remdups ((if a_policy app \<noteq> '''' then [a_policy app] else []) @ a_policies app)"

fun add_policies ::
    "caches \<Rightarrow> string \<Rightarrow> string list \<Rightarrow> (string, policy_tracker) gmap
       \<Rightarrow> (string, policy_tracker) gmap" where
  "add_policies ca org [] aps = aps"
| "add_policies ca org (name # names) aps =
     (if map_of aps name \<noteq> None then add_policies ca org names aps
      else case policy_cache ca \<lparr>pk_org = org, pk_name = name\<rparr> of
        None \<Rightarrow> add_policies ca org names aps
      | Some p \<Rightarrow>
          add_policies ca org names
            (gput name (update_policy_tracker empty_policy_tracker p) aps))"

definition aggr_update_app :: "caches \<Rightarrow> app_key \<Rightarrow> aggr \<Rightarrow> aggr" where
  "aggr_update_app ca k s =
     (case app_cache ca k of
        None \<Rightarrow> s\<lparr>ag_stats := gdel k (ag_stats s)\<rparr>
      | Some app \<Rightarrow>
          if in_ap app = [] then s\<lparr>ag_stats := gdel (a_key app) (ag_stats s)\<rparr>
          else
            let st = (case map_of (ag_stats s) (a_key app) of
                  None \<Rightarrow> \<lparr>as_policies = [], as_cloudlets = Map.empty\<rparr> | Some st \<Rightarrow> st);
                kept = filter (\<lambda>e. fst e \<in> set (in_ap app)) (as_policies st);
                aps = add_policies ca (app_org k) (in_ap app) kept
            in s\<lparr>ag_stats := gput (a_key app) (st\<lparr>as_policies := aps\<rparr>) (ag_stats s)\<rparr>)"

definition aggr_update_policy :: "caches \<Rightarrow> policy_key \<Rightarrow> aggr \<Rightarrow> aggr" where
  "aggr_update_policy ca k s =
     (case policy_cache ca k of
        None \<Rightarrow> s
      | Some p \<Rightarrow>
          s\<lparr>ag_stats := map (\<lambda>(a, st).
              (a, if app_org a \<noteq> pk_org (p_key p) then st
                  else st\<lparr>as_policies := map (\<lambda>(name, ap).
                      (name, if name = pk_name (p_key p) then update_policy_tracker ap p else ap))
                    (as_policies st)\<rparr>)) (ag_stats s)\<rparr>)"

subsection \<open>Lemmas: one interval\<close>

text \<open>Setting the counter of one Cloudlet in a tracker that tracks it.\<close>

definition set_met :: "cloudlet_key \<Rightarrow> 32 word \<Rightarrow> policy_tracker \<Rightarrow> policy_tracker" where
  "set_met c v ap =
     (if pt_trackers ap c = None then ap else ap\<lparr>pt_trackers := (pt_trackers ap)(c \<mapsto> v)\<rparr>)"

lemma track_policies_fst:
  "fst (track_policies c r d aps) = map (\<lambda>(n, ap). (n, fst (track_policy c r d ap))) aps"
  by (induction aps) (auto simp: split_beta Let_def)

lemma track_policies_snd:
  "snd (track_policies c r d aps) \<longleftrightarrow> (\<exists>(n, ap) \<in> set aps. snd (track_policy c r d ap))"
  by (induction aps) (auto simp: split_beta Let_def)

lemma track_policy_set_met:
  "track_policy c False d (set_met c m ap) =
     (set_met c (if ucast (pt_client_count ap) \<le> d then m + 1 else 0) ap,
      pt_trackers ap c \<noteq> None \<and>
      pt_interval_count ap \<le> (if ucast (pt_client_count ap) \<le> d then m + 1 else 0))"
  by (auto simp: track_policy_def set_met_def Let_def split: option.splits)

lemma set_met_same: "pt_trackers ap c \<in> {None, Some v} \<Longrightarrow> set_met c v ap = ap"
  by (cases ap) (auto simp: set_met_def)

lemma set_met_fields [simp]:
  "pt_client_count (set_met c v ap) = pt_client_count ap"
  "pt_interval_count (set_met c v ap) = pt_interval_count ap"
  "pt_trackers (set_met c v ap) c = map_option (\<lambda>_. v) (pt_trackers ap c)"
  by (auto simp: set_met_def split: option.splits)

subsection \<open>Consecutive intervals\<close>

text \<open>
  Observing one Cloudlet in the intervals after \<open>i\<close>, with the deploy decision of each.
  The abstract view of a counter: the increments of the observed absolute counts, and how
  many of the last ones in a row reach the threshold.
\<close>

fun observe ::
    "cloudlet_key \<Rightarrow> 64 word \<Rightarrow> 64 word list \<Rightarrow> app_stats \<Rightarrow> app_stats \<times> bool list" where
  "observe c i [] st = (st, [])"
| "observe c i (n # ns) st =
     (let (st1, d) = iter_cloudlet (i + 1) False c n st;
          (st2, ds) = observe c (i + 1) ns st1
      in (st2, d # ds))"

fun increments :: "64 word \<Rightarrow> 64 word list \<Rightarrow> 64 word list" where
  "increments c0 [] = []"
| "increments c0 (n # ns) = (n - c0) # increments n ns"

definition streak :: "64 word \<Rightarrow> 64 word \<Rightarrow> 64 word list \<Rightarrow> nat" where
  "streak thr c0 ns = length (takeWhile (\<lambda>d. thr \<le> d) (rev (increments c0 ns)))"

lemma observe_snoc:
  "observe c i (ns @ [n]) st =
     (let (st1, ds) = observe c i ns st;
          (st2, d) = iter_cloudlet (i + of_nat (length ns) + 1) False c n st1
      in (st2, ds @ [d]))"
  by (induction ns arbitrary: i st) (auto simp: split_beta Let_def algebra_simps)

lemma increments_snoc: "increments c0 (ns @ [n]) = increments c0 ns @ [n - last (c0 # ns)]"
  by (induction ns arbitrary: c0) auto

lemma streak_snoc:
  "streak thr c0 (ns @ [n]) = (if thr \<le> n - last (c0 # ns) then Suc (streak thr c0 ns) else 0)"
  by (simp add: streak_def increments_snoc)

lemma streak_Nil [simp]: "streak thr c0 [] = 0"
  by (simp add: streak_def)

lemma length_increments [simp]: "length (increments c0 ns) = length ns"
  by (induction ns arbitrary: c0) auto

lemma streak_le: "streak thr c0 ns \<le> length ns"
  unfolding streak_def
  by (metis length_increments length_rev length_takeWhile_le)

lemma track_policy_streak:
  fixes c :: cloudlet_key and ap :: policy_tracker
  defines "thr \<equiv> ucast (pt_client_count ap)"
  shows "track_policy c False (n - last (c0 # ns)) (set_met c (of_nat (streak thr c0 ns)) ap) =
     (set_met c (of_nat (streak thr c0 (ns @ [n]))) ap,
      pt_trackers ap c \<noteq> None \<and> pt_interval_count ap \<le> of_nat (streak thr c0 (ns @ [n])))"
  unfolding track_policy_set_met thr_def[symmetric] streak_snoc
  by (simp add: add.commute)

text \<open>Where the counters stand after any run of consecutive intervals.\<close>

definition run_state :: "cloudlet_key \<Rightarrow> 64 word \<Rightarrow> 64 word list \<Rightarrow> app_stats \<Rightarrow> cloudlet_stats \<Rightarrow> bool" where
  "run_state c i ns st cs \<longleftrightarrow>
     (\<exists>cs'. as_cloudlets (fst (observe c i ns st)) c = Some cs' \<and>
        cs_interval cs' = i + of_nat (length ns) \<and> cs_count cs' = last (cs_count cs # ns)) \<and>
     as_policies (fst (observe c i ns st)) =
       map (\<lambda>(m, ap). (m, set_met c
           (of_nat (streak (ucast (pt_client_count ap)) (cs_count cs) ns)) ap)) (as_policies st)"

lemma run_state_step:
  assumes "run_state c i ns st cs"
  shows "run_state c i (ns @ [n]) st cs \<and>
    (last (snd (observe c i (ns @ [n]) st)) \<longleftrightarrow>
    (\<exists>(name, ap) \<in> set (as_policies st). pt_trackers ap c \<noteq> None \<and>
       pt_interval_count ap \<le> of_nat (streak (ucast (pt_client_count ap)) (cs_count cs) (ns @ [n]))))"
proof -
  obtain st1 ds where o: "observe c i ns st = (st1, ds)" by (cases "observe c i ns st")
  obtain cs1 where cs1: "as_cloudlets st1 c = Some cs1" "cs_interval cs1 = i + of_nat (length ns)"
    "cs_count cs1 = last (cs_count cs # ns)"
    using assms o by (auto simp: run_state_def)
  have pol: "as_policies st1 = map (\<lambda>(m, ap). (m, set_met c
        (of_nat (streak (ucast (pt_client_count ap)) (cs_count cs) ns)) ap)) (as_policies st)"
    using assms o by (simp add: run_state_def)
  let ?j = "i + of_nat (length ns) + 1"
  let ?tp = "track_policies c False (n - cs_count cs1) (as_policies st1)"
  have step: "iter_cloudlet ?j False c n st1 =
      (st1\<lparr>as_policies := fst ?tp,
           as_cloudlets := (as_cloudlets st1)(c \<mapsto> cs1\<lparr>cs_last_count := cs_count cs1,
             cs_count := n, cs_interval := ?j\<rparr>)\<rparr>, snd ?tp)"
    by (simp add: iter_cloudlet_def Let_def cs1(1,2) split_beta)
  have obs: "observe c i (ns @ [n]) st =
      (fst (iter_cloudlet ?j False c n st1), ds @ [snd (iter_cloudlet ?j False c n st1)])"
    by (simp add: observe_snoc o Let_def split_beta)
  have fst_tp: "fst ?tp = map (\<lambda>(m, ap). (m, set_met c
        (of_nat (streak (ucast (pt_client_count ap)) (cs_count cs) (ns @ [n]))) ap)) (as_policies st)"
    unfolding track_policies_fst pol map_map cs1(3)
    by (rule map_cong[OF refl]) (auto simp only: o_def split_beta track_policy_streak fst_conv snd_conv)
  have snd_tp: "snd ?tp \<longleftrightarrow> (\<exists>(name, ap) \<in> set (as_policies st). pt_trackers ap c \<noteq> None \<and>
       pt_interval_count ap \<le> of_nat (streak (ucast (pt_client_count ap)) (cs_count cs) (ns @ [n])))"
    unfolding track_policies_snd pol set_map bex_simps split_beta fst_conv snd_conv cs1(3)
      track_policy_streak by auto
  show ?thesis
    unfolding run_state_def obs step fst_conv snd_conv
    by (auto simp: fst_tp snd_tp add.commute add.left_commute split_beta)
qed

lemma run_state_observe:
  assumes "as_cloudlets st c = Some cs" and "cs_interval cs = i"
    and "\<forall>(m, ap) \<in> set (as_policies st). pt_trackers ap c \<in> {None, Some 0}"
  shows "run_state c i ns st cs"
proof (induction ns rule: rev_induct)
  case Nil
  have "map (\<lambda>(m, ap). (m, set_met c 0 ap)) (as_policies st) = as_policies st"
    using assms(3) by (intro map_idI) (auto simp: set_met_same)
  then show ?case using assms(1,2) by (simp add: run_state_def)
next
  case (snoc n ns)
  then show ?case using run_state_step by blast
qed

subsection \<open>Properties\<close>

text \<open>
  C16 (demand streak): a Cloudlet observed in consecutive intervals is deployed to in the last
  of them exactly when, for some policy that tracks it, the number of last intervals in a row
  whose client increment reached the policy's threshold is at least the policy's interval
  count.
\<close>

theorem aggr_deploys_on_streak:
  assumes "as_cloudlets st c = Some cs" and "cs_interval cs = i"
    and "\<forall>(m, ap) \<in> set (as_policies st). pt_trackers ap c \<in> {None, Some 0}"
    and "Suc (length ns) < 2 ^ 32"
  shows "last (snd (observe c i (ns @ [n]) st)) \<longleftrightarrow>
    (\<exists>(name, ap) \<in> set (as_policies st). pt_trackers ap c \<noteq> None \<and>
       unat (pt_interval_count ap) \<le> streak (ucast (pt_client_count ap)) (cs_count cs) (ns @ [n]))"
proof -
  have eq: "pt_interval_count ap \<le> of_nat (streak thr (cs_count cs) (ns @ [n])) \<longleftrightarrow>
      unat (pt_interval_count ap) \<le> streak thr (cs_count cs) (ns @ [n])" for ap thr
  proof -
    have "streak thr (cs_count cs) (ns @ [n]) < 2 ^ 32"
      using streak_le[of thr "cs_count cs" "ns @ [n]"] assms(4) by simp
    then show ?thesis by (simp add: word_le_nat_alt unat_of_nat)
  qed
  show ?thesis
    using run_state_step[OF run_state_observe[OF assms(1-3), of ns], of n] by (simp only: eq)
qed

definition demo_cloudlet :: cloudlet_key where
  "demo_cloudlet = \<lparr>cl_org = ''oper'', cl_name = ''site1'', cl_fed_org = ''''\<rparr>"

definition demo_tracker :: policy_tracker where
  "demo_tracker = \<lparr>pt_client_count = 20, pt_interval_count = 2,
     pt_trackers = [demo_cloudlet \<mapsto> 0]\<rparr>"

definition demo_stats :: app_stats where
  "demo_stats = \<lparr>as_policies = [(''p'', demo_tracker)],
     as_cloudlets = [demo_cloudlet \<mapsto> \<lparr>cs_count = 100, cs_last_count = 0, cs_interval = 4\<rparr>]\<rparr>"

theorem aggr_deploys_on_streak_witness:
  "last (snd (observe demo_cloudlet 4 ([130] @ [150]) demo_stats)) \<longleftrightarrow>
    (\<exists>(name, ap) \<in> set (as_policies demo_stats). pt_trackers ap demo_cloudlet \<noteq> None \<and>
       unat (pt_interval_count ap) \<le> streak (ucast (pt_client_count ap)) 100 ([130] @ [150]))"
  using aggr_deploys_on_streak[of demo_stats demo_cloudlet
      "\<lparr>cs_count = 100, cs_last_count = 0, cs_interval = 4\<rparr>" 4 "[130]" 150]
  by (simp add: demo_stats_def demo_tracker_def)

lemma iter_cloudlet_tracked:
  assumes "as_cloudlets st c = Some cs"
  shows "iter_cloudlet i False c n st =
    (let tp = track_policies c (i - 1 \<noteq> cs_interval cs) (n - cs_count cs) (as_policies st)
     in (st\<lparr>as_policies := fst tp, as_cloudlets := (as_cloudlets st)(c \<mapsto>
           cs\<lparr>cs_last_count := cs_count cs, cs_count := n, cs_interval := i\<rparr>)\<rparr>, snd tp))"
  using assms by (simp add: iter_cloudlet_def Let_def split_beta)

text \<open>
  Note (missed interval): when a Cloudlet had no data in the previous interval, the streak starts
  again, so after this interval every policy that tracks it counts at most one met interval.
\<close>

theorem aggr_missed_interval_resets:
  assumes "as_cloudlets st c = Some cs" and "cs_interval cs \<noteq> i - 1"
    and "(name, ap) \<in> set (as_policies (fst (iter_cloudlet i False c n st)))"
    and "pt_trackers ap c = Some met"
  shows "met \<le> 1"
  using assms(2-) unfolding iter_cloudlet_tracked[OF assms(1)] Let_def
  by (auto simp: track_policies_fst track_policy_def Let_def split: option.splits if_splits)

theorem aggr_missed_interval_resets_witness:
  "\<exists>met. pt_trackers (fst (track_policy demo_cloudlet True (130 - 100)
       (demo_tracker\<lparr>pt_trackers := [demo_cloudlet \<mapsto> 7]\<rparr>))) demo_cloudlet = Some met \<and> met \<le> 1"
proof -
  let ?tr = "demo_tracker\<lparr>pt_trackers := [demo_cloudlet \<mapsto> 7]\<rparr>"
  let ?st = "demo_stats\<lparr>as_policies := [(''p'', ?tr)]\<rparr>"
  let ?cs = "\<lparr>cs_count = 100, cs_last_count = 0, cs_interval = 4\<rparr>"
  have cl: "as_cloudlets ?st demo_cloudlet = Some ?cs" by (simp add: demo_stats_def)
  have ps: "as_policies (fst (iter_cloudlet 9 False demo_cloudlet 130 ?st)) =
      [(''p'', fst (track_policy demo_cloudlet True (130 - 100) ?tr))]"
    unfolding iter_cloudlet_tracked[OF cl] Let_def by (simp add: track_policies_fst split_beta)
  have "pt_trackers (fst (track_policy demo_cloudlet True (130 - 100) ?tr)) demo_cloudlet = Some 1"
    by (simp add: track_policy_def demo_tracker_def)
  then show ?thesis
    using aggr_missed_interval_resets[OF cl, of 9 "''p''"
        "fst (track_policy demo_cloudlet True (130 - 100) ?tr)" 130 1] ps
    by simp
qed

text \<open>
  Note (counter reset): the increment is the difference of two uint64 counters, so a counter that
  went down (a DME that restarted) wraps around to a huge increment and counts as met demand
  for every policy, whatever its threshold.
\<close>

theorem aggr_counter_reset_counts_as_demand:
  assumes "as_cloudlets st c = Some cs" and "cs_interval cs = i - 1"
    and "n < cs_count cs" and "unat (cs_count cs) - unat n \<le> 2 ^ 63"
    and "(name, ap) \<in> set (as_policies st)" and "pt_trackers ap c = Some met"
  shows "(name, set_met c (met + 1) ap) \<in> set (as_policies (fst (iter_cloudlet i False c n st)))"
proof -
  let ?d = "n - cs_count cs"
  have "2 ^ 63 \<le> unat ?d"
    using assms(4) unat_diff_wrap_64[OF assms(3)] by simp
  then have thr: "ucast (pt_client_count ap) \<le> ?d"
    using unat_less_32[of "pt_client_count ap"]
    by (simp add: word_le_nat_alt del: unat_less_32)
  have "fst (track_policy c False ?d ap) = set_met c (met + 1) ap"
    using assms(6) thr by (simp add: track_policy_def set_met_def Let_def)
  then show ?thesis
    using assms(2,5) unfolding iter_cloudlet_tracked[OF assms(1)] Let_def
    by (force simp: track_policies_fst)
qed

theorem aggr_counter_reset_counts_as_demand_witness:
  "(''p'', set_met demo_cloudlet (0 + 1) demo_tracker) \<in>
     set (as_policies (fst (iter_cloudlet 5 False demo_cloudlet 3 demo_stats)))"
  by (rule aggr_counter_reset_counts_as_demand[of demo_stats demo_cloudlet
        "\<lparr>cs_count = 100, cs_last_count = 0, cs_interval = 4\<rparr>"])
    (simp_all add: demo_stats_def demo_tracker_def)

subsection \<open>Whole iterations\<close>

definition tracks :: "app_stats \<Rightarrow> cloudlet_key \<Rightarrow> bool" where
  "tracks st c \<longleftrightarrow> (\<exists>e \<in> set (as_policies st). c \<in> dom (pt_trackers (snd e)))"

lemma track_policy_dom [simp]:
  "dom (pt_trackers (fst (track_policy c r d ap))) = dom (pt_trackers ap)"
  by (auto simp: track_policy_def Let_def split: option.splits)

lemma track_policy_deploy: "snd (track_policy c r d ap) \<Longrightarrow> c \<in> dom (pt_trackers ap)"
  by (auto simp: track_policy_def split: option.splits)

lemma iter_cloudlet_policies:
  "as_policies (fst (iter_cloudlet i init c n st)) =
     (if init then as_policies st
      else map (\<lambda>(m, ap). (m, fst (track_policy c
             (i - 1 \<noteq> (case as_cloudlets st c of None \<Rightarrow> i - 1 | Some cs \<Rightarrow> cs_interval cs))
             (n - (case as_cloudlets st c of None \<Rightarrow> 0 | Some cs \<Rightarrow> cs_count cs)) ap))) (as_policies st))"
  by (auto simp: iter_cloudlet_def Let_def split_beta track_policies_fst split: option.splits)

lemma iter_cloudlet_tracks [simp]:
  "tracks (fst (iter_cloudlet i init c n st)) c' \<longleftrightarrow> tracks st c'"
  by (simp add: tracks_def iter_cloudlet_policies split_beta)

lemma iter_cloudlet_deploy:
  "snd (iter_cloudlet i init c n st) \<Longrightarrow> \<not> init \<and> tracks st c"
  unfolding iter_cloudlet_def Let_def split_beta tracks_def
  by (simp add: track_policies_snd split_beta split: if_splits)
    (meson track_policy_deploy domD)

lemma iter_cloudlets_tracks [simp]:
  "tracks (fst (iter_cloudlets i init cs st)) c' \<longleftrightarrow> tracks st c'"
proof (induction cs arbitrary: st)
  case (Cons e cs)
  obtain c n where "e = (c, n)" by (cases e)
  then show ?case
    using Cons.IH[of "fst (iter_cloudlet i init c n st)"] by (simp add: Let_def split_beta)
qed simp

lemma iter_cloudlets_deploy:
  "c \<in> set (snd (iter_cloudlets i init cs st)) \<Longrightarrow> \<not> init \<and> c \<in> fst ` set cs \<and> tracks st c"
proof (induction cs arbitrary: st)
  case (Cons e cs)
  obtain c' n where e: "e = (c', n)" by (cases e)
  let ?st = "fst (iter_cloudlet i init c' n st)"
  have "c \<in> set (snd (iter_cloudlets i init cs ?st)) \<or>
      c = c' \<and> snd (iter_cloudlet i init c' n st)"
    using Cons.prems by (auto simp: e Let_def split_beta split: if_splits)
  then show ?case
    using Cons.IH[of ?st] iter_cloudlet_deploy[of i init c' n st] by (auto simp: e)
qed simp

lemma iter_cloudlets_init_policies:
  "as_policies (fst (iter_cloudlets i True cs st)) = as_policies st"
proof (induction cs arbitrary: st)
  case (Cons e cs)
  obtain c n where "e = (c, n)" by (cases e)
  then show ?case
    using Cons.IH[of "fst (iter_cloudlet i True c n st)"]
    by (simp add: Let_def split_beta iter_cloudlet_policies)
qed simp

lemma iter_apps_Cons:
  "iter_apps ca i init ((a, cs) # stats) all =
    (if map_of all a \<noteq> None \<and> app_cache ca a \<noteq> None
     then let r = iter_cloudlets i init cs (the (map_of all a));
              r' = iter_apps ca i init stats (gput a (fst r) all)
          in (fst r', map (Pair (a_key (the (app_cache ca a)))) (snd r) @ snd r')
     else iter_apps ca i init stats all)"
  by (auto simp: Let_def split_beta split: option.splits)

lemma iter_apps_deploy:
  assumes "\<And>k app. app_cache ca k = Some app \<Longrightarrow> a_key app = k"
    and "(a, c) \<in> set (snd (iter_apps ca i init stats all))"
  shows "\<not> init \<and> app_cache ca a \<noteq> None \<and> (\<exists>st. map_of all a = Some st \<and> tracks st c)"
  using assms(2)
proof (induction stats arbitrary: all)
  case (Cons e stats)
  obtain b cs where e: "e = (b, cs)" by (cases e)
  show ?case
  proof (cases "map_of all b \<noteq> None \<and> app_cache ca b \<noteq> None")
    case False
    then show ?thesis using Cons by (auto simp only: e iter_apps_Cons if_False)
  next
    case True
    then obtain st app where st: "map_of all b = Some st" "app_cache ca b = Some app" by auto
    let ?r = "iter_cloudlets i init cs st"
    have "snd (iter_apps ca i init (e # stats) all) =
        map (Pair b) (snd ?r) @ snd (iter_apps ca i init stats (gput b (fst ?r) all))"
      using st assms(1)[OF st(2)] by (simp add: e iter_apps_Cons Let_def del: iter_apps.simps)
    then have "(a, c) \<in> set (snd (iter_apps ca i init stats (gput b (fst ?r) all))) \<or>
        a = b \<and> c \<in> set (snd ?r)"
      using Cons.prems by auto
    then show ?thesis
      using Cons.IH[of "gput b (fst ?r) all"] iter_cloudlets_deploy[of c i init cs st] st
      by (auto split: if_splits)
  qed
qed simp

lemma iter_apps_init_policies:
  "map_option as_policies (map_of (fst (iter_apps ca i True stats all)) a) =
     map_option as_policies (map_of all a)"
proof (induction stats arbitrary: all)
  case (Cons e stats)
  obtain b cs where e: "e = (b, cs)" by (cases e)
  show ?case
    using Cons.IH by (auto simp only: e iter_apps_Cons Let_def fst_conv) (auto simp: iter_cloudlets_init_policies)
qed simp

lemma iter_apps_init_deploys: "snd (iter_apps ca i True stats all) = []"
proof (induction stats arbitrary: all)
  case (Cons e stats)
  obtain b cs where e: "e = (b, cs)" by (cases e)
  have "snd (iter_cloudlets i True cs st) = []" for st
    using iter_cloudlets_deploy[of _ i True cs st] by (cases "snd (iter_cloudlets i True cs st)") auto
  then show ?case
    using Cons.IH by (simp only: e iter_apps_Cons Let_def snd_conv) auto
qed simp

text \<open>
  Note (initial iteration): the iteration that runs once at start only records counts: it
  deploys nothing, it is not an interval, and it leaves every policy tracker as it was.
\<close>

theorem aggr_init_only_records:
  assumes "run_iter ca influx True s = Inr (s', deploys)"
  shows "deploys = [] \<and> ag_interval s' = ag_interval s \<and>
    (\<forall>a. map_option as_policies (map_of (ag_stats s') a) =
         map_option as_policies (map_of (ag_stats s) a))"
proof -
  obtain rows where rows: "influx True (ag_interval_sec s) = Inr rows"
    using assms by (auto simp: run_iter_def split: sum.splits)
  let ?r = "iter_apps ca (ag_interval s + 1) True (aggregate_rows rows []) (ag_stats s)"
  have "s' = s\<lparr>ag_stats := fst ?r, ag_interval := ag_interval s\<rparr>" "deploys = snd ?r"
    using assms rows by (auto simp: run_iter_def Let_def split_beta)
  then show ?thesis by (simp add: iter_apps_init_policies iter_apps_init_deploys)
qed

theorem aggr_init_only_records_witness:
  "\<exists>s' deploys. run_iter empty_caches (\<lambda>_ _. Inr []) True (new_auto_prov_aggr 300 0) = Inr (s', deploys) \<and>
     deploys = [] \<and> ag_interval s' = 0"
proof -
  let ?s = "new_auto_prov_aggr 300 0"
  obtain s' d where r: "run_iter empty_caches (\<lambda>_ _. Inr []) True ?s = Inr (s', d)"
    by (simp add: run_iter_def Let_def)
  then show ?thesis
    using aggr_init_only_records[OF r] by (simp add: new_auto_prov_aggr_def)
qed

definition demo_run_app :: app where
  "demo_run_app = \<lparr>a_key = \<lparr>app_org = ''dev'', app_name = ''a'', app_version = ''1''\<rparr>,
     a_policy = '''', a_policies = [''p''], a_deployment = ''docker'', a_flavor = ''small''\<rparr>"

definition demo_run_caches :: caches where
  "demo_run_caches = empty_caches\<lparr>app_cache := [a_key demo_run_app \<mapsto> demo_run_app]\<rparr>"

definition demo_run_aggr :: aggr where
  "demo_run_aggr = (new_auto_prov_aggr 300 0)\<lparr>ag_stats := [(a_key demo_run_app,
     \<lparr>as_policies = [(''p'', \<lparr>pt_client_count = 5, pt_interval_count = 1,
        pt_trackers = [demo_cloudlet \<mapsto> 0]\<rparr>)], as_cloudlets = Map.empty\<rparr>)]\<rparr>"

text \<open>
  Note (who is deployed): an iteration deploys only Apps it still knows, and only to Cloudlets
  that one of the App's tracked policies lists.
\<close>

theorem aggr_deploys_only_tracked:
  assumes "\<And>k app. app_cache ca k = Some app \<Longrightarrow> a_key app = k"
    and "run_iter ca influx init s = Inr (s', deploys)" and "(a, c) \<in> set deploys"
  shows "\<not> init \<and> app_cache ca a \<noteq> None \<and>
    (\<exists>st. map_of (ag_stats s) a = Some st \<and> tracks st c)"
proof -
  obtain rows where rows: "influx init (ag_interval_sec s) = Inr rows"
    using assms(2) by (auto simp: run_iter_def split: sum.splits)
  have "(a, c) \<in> set (snd (iter_apps ca (ag_interval s + 1) init
      (aggregate_rows rows []) (ag_stats s)))"
    using assms(2,3) rows by (auto simp: run_iter_def Let_def split_beta)
  from iter_apps_deploy[OF assms(1) this] show ?thesis by simp
qed

theorem aggr_deploys_only_tracked_witness:
  "\<exists>s' deploys st. run_iter demo_run_caches
       (\<lambda>_ _. Inr [None, Some (a_key demo_run_app, demo_cloudlet, 7)]) False demo_run_aggr = Inr (s', deploys) \<and>
     (a_key demo_run_app, demo_cloudlet) \<in> set deploys \<and>
     map_of (ag_stats demo_run_aggr) (a_key demo_run_app) = Some st \<and> tracks st demo_cloudlet"
proof -
  let ?r = "run_iter demo_run_caches (\<lambda>_ _. Inr [None, Some (a_key demo_run_app, demo_cloudlet, 7)])
      False demo_run_aggr"
  obtain s' where r: "?r = Inr (s', [(a_key demo_run_app, demo_cloudlet)])"
    by (simp add: run_iter_def iter_cloudlet_def track_policy_def demo_run_caches_def demo_run_app_def
        demo_run_aggr_def empty_caches_def new_auto_prov_aggr_def)
  have keys: "a_key app = k" if "app_cache demo_run_caches k = Some app" for k app
    using that by (auto simp: demo_run_caches_def empty_caches_def split: if_splits)
  have "(a_key demo_run_app, demo_cloudlet) \<in> set [(a_key demo_run_app, demo_cloudlet)]" by simp
  from aggr_deploys_only_tracked[OF keys r this] r show ?thesis by auto
qed

subsection \<open>Updates of Apps, policies and settings\<close>

lemma map_of_add_policies:
  "map_of (add_policies ca org names aps) name =
     (case map_of aps name of
        Some ap \<Rightarrow> Some ap
      | None \<Rightarrow> if name \<in> set names
                then map_option (update_policy_tracker empty_policy_tracker)
                       (policy_cache ca \<lparr>pk_org = org, pk_name = name\<rparr>)
                else None)"
  by (induction ca org names aps rule: add_policies.induct) (auto split: option.splits)

lemma set_in_ap:
  "name \<in> set (in_ap app) \<longleftrightarrow> (name = a_policy app \<and> name \<noteq> '''') \<or> name \<in> set (a_policies app)"
  by (auto simp: in_ap_def)

text \<open>The trackers of an App, empty when the App has no stats.\<close>

definition app_trackers :: "aggr \<Rightarrow> app_key \<Rightarrow> (string \<rightharpoonup> policy_tracker)" where
  "app_trackers s a =
     (case map_of (ag_stats s) a of None \<Rightarrow> Map.empty | Some st \<Rightarrow> map_of (as_policies st))"

lemma app_trackers_update_policy:
  "app_trackers (aggr_update_policy ca k s) a name =
     (case policy_cache ca k of
        None \<Rightarrow> app_trackers s a name
      | Some p \<Rightarrow>
          if app_org a = pk_org (p_key p) \<and> name = pk_name (p_key p)
          then map_option (\<lambda>ap. update_policy_tracker ap p) (app_trackers s a name)
          else app_trackers s a name)"
  by (auto simp: app_trackers_def aggr_update_policy_def map_of_mapk option.map_ident split: option.splits)

text \<open>
  Note (policies of an App): after \<open>UpdateApp\<close> of an App with policies, the App tracks exactly
  those of its policies that it tracked before, with their counters, or that are in the
  policy cache, with zero counters; other Apps are untouched.
\<close>

theorem aggr_update_app_policies:
  assumes "app_cache ca a = Some app" and "a_key app = a" and "in_ap app \<noteq> []"
  shows "app_trackers (aggr_update_app ca a s) b name =
    (if b \<noteq> a then app_trackers s b name
     else if name \<notin> set (in_ap app) then None
     else case app_trackers s a name of
        Some ap \<Rightarrow> Some ap
      | None \<Rightarrow> map_option (update_policy_tracker empty_policy_tracker)
                  (policy_cache ca \<lparr>pk_org = app_org a, pk_name = name\<rparr>))"
  using assms
  by (auto simp: app_trackers_def aggr_update_app_def Let_def map_of_add_policies
      map_of_filter_key split: option.splits)

definition demo_app :: app where
  "demo_app = \<lparr>a_key = \<lparr>app_org = ''dev'', app_name = ''game'', app_version = ''1.0''\<rparr>,
     a_policy = '''', a_policies = [''p''], a_deployment = ''kubernetes'', a_flavor = ''small''\<rparr>"

definition demo_policy :: policy where
  "demo_policy = \<lparr>p_key = \<lparr>pk_org = ''dev'', pk_name = ''p''\<rparr>, p_min = 1, p_max = 2,
     p_cloudlets = [demo_cloudlet], p_deploy_client_count = 20, p_deploy_interval_count = 2,
     p_undeploy_client_count = 0, p_undeploy_interval_count = 0\<rparr>"

definition demo_caches :: caches where
  "demo_caches = empty_caches\<lparr>app_cache := [a_key demo_app \<mapsto> demo_app],
     policy_cache := [p_key demo_policy \<mapsto> demo_policy]\<rparr>"

theorem aggr_update_app_policies_witness:
  "app_trackers (aggr_update_app demo_caches (a_key demo_app) (new_auto_prov_aggr 300 0))
     (a_key demo_app) ''p'' = Some demo_tracker"
proof -
  have "in_ap demo_app = [''p'']" by (simp add: in_ap_def demo_app_def)
  then show ?thesis
    using aggr_update_app_policies[of demo_caches "a_key demo_app" demo_app
        "new_auto_prov_aggr 300 0" "a_key demo_app" "''p''"]
    by (simp add: demo_caches_def app_trackers_def new_auto_prov_aggr_def
        demo_app_def demo_policy_def update_policy_tracker_def empty_policy_tracker_def
        demo_tracker_def fun_eq_iff)
qed

text \<open>
  Note (policy update keeps streaks): \<open>UpdatePolicy\<close> gives every App of the policy's
  organization that tracks it the new thresholds, keeps the counters of the Cloudlets that stay
  on the policy, starts new Cloudlets at zero and forgets removed ones; it changes nothing else.
\<close>

theorem aggr_update_policy_keeps_streaks:
  assumes "policy_cache ca k = Some p" and "p_key p = k"
    and "app_trackers s a name = Some ap"
  shows "\<exists>ap'. app_trackers (aggr_update_policy ca k s) a name = Some ap' \<and>
    (if app_org a = pk_org k \<and> name = pk_name k
     then pt_client_count ap' = p_deploy_client_count p \<and>
          pt_interval_count ap' = p_deploy_interval_count p \<and>
          dom (pt_trackers ap') = set (p_cloudlets p) \<and>
          (\<forall>c \<in> set (p_cloudlets p). pt_trackers ap' c =
             (case pt_trackers ap c of None \<Rightarrow> Some 0 | Some met \<Rightarrow> Some met))
     else ap' = ap)"
  using assms
  by (auto simp: app_trackers_update_policy update_policy_tracker_def split: option.splits if_splits)

theorem aggr_update_policy_keeps_streaks_witness:
  "\<exists>ap'. app_trackers (aggr_update_policy demo_caches (p_key demo_policy)
      (new_auto_prov_aggr 300 0\<lparr>ag_stats := [(a_key demo_app, demo_stats)]\<rparr>))
      (a_key demo_app) ''p'' = Some ap' \<and> dom (pt_trackers ap') = {demo_cloudlet}"
proof -
  let ?s = "new_auto_prov_aggr 300 0\<lparr>ag_stats := [(a_key demo_app, demo_stats)]\<rparr>"
  have t: "app_trackers ?s (a_key demo_app) ''p'' = Some demo_tracker"
    by (simp add: app_trackers_def demo_stats_def)
  have p: "policy_cache demo_caches (p_key demo_policy) = Some demo_policy"
    by (simp add: demo_caches_def)
  show ?thesis
    using aggr_update_policy_keeps_streaks[OF p refl t]
    by (auto simp: demo_policy_def demo_app_def)
qed

lemma app_trackers_update_policies_None:
  "app_trackers s a name = None \<Longrightarrow>
     app_trackers (fold (\<lambda>(ca, k). aggr_update_policy ca k) us s) a name = None"
proof (induction us arbitrary: s)
  case (Cons u us)
  obtain ca k where u: "u = (ca, k)" by (cases u)
  have "app_trackers (aggr_update_policy ca k s) a name = None"
    using Cons.prems by (auto simp: app_trackers_update_policy split: option.splits)
  then show ?case using Cons.IH u by simp
qed simp

text \<open>
  Note (policy after App): when an App arrives before the policy it names, no number of later
  policy updates makes the aggregator track that policy, so demand never deploys the App until
  the App itself is updated again; with the policy in the cache first, it is tracked.
\<close>

theorem aggr_policy_after_app_untracked:
  assumes "app_cache ca a = Some app" and "a_key app = a" and "name \<in> set (in_ap app)"
    and "app_trackers s a name = None"
    and "k = \<lparr>pk_org = app_org a, pk_name = name\<rparr>" and "policy_cache ca k = None"
  shows "app_trackers (fold (\<lambda>(ca', k'). aggr_update_policy ca' k') us (aggr_update_app ca a s)) a name
      = None
    \<and> app_trackers (aggr_update_app (ca\<lparr>policy_cache := (policy_cache ca)(k \<mapsto> p)\<rparr>) a s) a name \<noteq> None"
proof
  have "in_ap app \<noteq> []" using assms(3) by auto
  then have "app_trackers (aggr_update_app ca a s) a name = None"
    using assms by (auto simp: app_trackers_def aggr_update_app_def Let_def map_of_add_policies
        map_of_filter_key split: option.splits)
  then show "app_trackers (fold (\<lambda>(ca', k'). aggr_update_policy ca' k') us (aggr_update_app ca a s))
      a name = None"
    by (rule app_trackers_update_policies_None)
  show "app_trackers (aggr_update_app (ca\<lparr>policy_cache := (policy_cache ca)(k \<mapsto> p)\<rparr>) a s) a name \<noteq> None"
    using assms \<open>in_ap app \<noteq> []\<close>
    by (auto simp: app_trackers_def aggr_update_app_def Let_def map_of_add_policies
        map_of_filter_key split: option.splits)
qed

theorem aggr_policy_after_app_untracked_witness:
  "app_trackers (aggr_update_policy demo_caches (p_key demo_policy)
       (aggr_update_app (demo_caches\<lparr>policy_cache := Map.empty\<rparr>) (a_key demo_app)
          (new_auto_prov_aggr 300 0))) (a_key demo_app) ''p'' = None"
  using aggr_policy_after_app_untracked[of "demo_caches\<lparr>policy_cache := Map.empty\<rparr>"
      "a_key demo_app" demo_app "''p''" "new_auto_prov_aggr 300 0"
      "\<lparr>pk_org = ''dev'', pk_name = ''p''\<rparr>" "[(demo_caches, p_key demo_policy)]"]
  by (simp add: demo_caches_def demo_app_def set_in_ap app_trackers_def new_auto_prov_aggr_def)

text \<open>
  Note (settings): new interval settings restart a running aggregator with its statistics kept;
  on an aggregator that is not running the stop of a nil channel panics.
\<close>

theorem aggr_update_settings_restarts:
  "aggr_update_settings i off s =
     (if ag_running s \<or> (ag_interval_sec s = i \<and> ag_offset_sec s = off)
      then Some (s\<lparr>ag_interval_sec := i, ag_offset_sec := off\<rparr>) else None)"
  by (cases s) (auto simp: aggr_update_settings_def aggr_stop_def aggr_start_def)

end
