(* ===== verification/AutoProv_MinMax.thy ===== *)
theory AutoProv_MinMax
  imports AutoProv_Aggr
begin

text \<open>
  The App checker of \<open>src/autoprov/autoprov_minmax.go\<close>: given the caches, decide which AppInsts
  of one App to delete (above a policy's maximum, or orphaned) and on which Cloudlets to create
  new ones (below a policy's minimum).  The effects the code starts as goroutines are returned
  as values; \<open>AutoProv_Workers\<close> runs them.
\<close>

subsection \<open>Lookups\<close>

definition inst_online_or_going :: "ext \<Rightarrow> caches \<Rightarrow> app_inst_key \<Rightarrow> bool" where
  "inst_online_or_going x ca key =
     (case cloudlet_info_cache ca (inst_cloudlet key) of
        None \<Rightarrow> False
      | Some info \<Rightarrow>
          (case cloudlet_cache ca (inst_cloudlet key) of
             None \<Rightarrow> False
           | Some cl \<Rightarrow>
               (case app_inst_cache ca key of
                  None \<Rightarrow> False
                | Some inst \<Rightarrow> x_inst_online x inst info cl \<or> x_inst_going_online x inst info cl)))"

definition cloudlet_online :: "ext \<Rightarrow> caches \<Rightarrow> cloudlet_key \<Rightarrow> bool" where
  "cloudlet_online x ca key =
     (case cloudlet_info_cache ca key of
        None \<Rightarrow> False
      | Some info \<Rightarrow>
          (case cloudlet_cache ca key of
             None \<Rightarrow> False
           | Some cl \<Rightarrow> x_cloudlet_online x cl \<and> x_info_online x info))"

definition is_auto_prov_inst :: "caches \<Rightarrow> app_inst_key \<Rightarrow> bool" where
  "is_auto_prov_inst ca key =
     (case app_inst_cache ca key of
        None \<Rightarrow> False
      | Some inst \<Rightarrow> inst_liveness inst = Liveness_Autoprov)"

subsection \<open>chooseDelete and sortPotentialCreate\<close>

definition choose_delete :: "app_inst_key list \<Rightarrow> int \<Rightarrow> app_inst_key list" where
  "choose_delete potential cnt =
     (if cnt \<le> 0 then []
      else let n = (if int (length potential) \<le> cnt then int (length potential) else cnt)
           in drop (nat (int (length potential) - n)) potential)"

text \<open>\<open>HasItType\<close>: 0 or 1, ordered.\<close>

record site =
  st_cloudlet :: cloudlet_key
  st_free :: nat

definition site_increment :: "64 word \<Rightarrow> app_stats \<Rightarrow> cloudlet_key \<Rightarrow> 64 word" where
  "site_increment interval stats c =
     (case as_cloudlets stats c of
        None \<Rightarrow> 0
      | Some cs \<Rightarrow> if cs_interval cs = interval then cs_count cs - cs_last_count cs else 0)"

definition site_less :: "aggr \<Rightarrow> app_key \<Rightarrow> site \<Rightarrow> site \<Rightarrow> bool" where
  "site_less ag a p1 p2 =
     (if st_free p1 \<noteq> st_free p2 then st_free p2 < st_free p1
      else case map_of (ag_stats ag) a of
        None \<Rightarrow> False
      | Some stats \<Rightarrow>
          site_increment (ag_interval ag) stats (st_cloudlet p2)
            < site_increment (ag_interval ag) stats (st_cloudlet p1))"

definition sort_potential_create ::
    "((site \<Rightarrow> site \<Rightarrow> bool) \<Rightarrow> site list \<Rightarrow> site list) \<Rightarrow> aggr \<Rightarrow> app_key \<Rightarrow> site list \<Rightarrow> site list" where
  "sort_potential_create srt ag a potential =
     (if length potential \<le> 1 then potential else srt (site_less ag a) potential)"

subsection \<open>checkPolicy\<close>

text \<open>The counts and candidates gathered by the loop over the policy's Cloudlets.\<close>

record scan =
  sc_delete :: "app_inst_key list"
  sc_create :: "site list"
  sc_online :: nat
  sc_total :: nat

fun scan_insts :: "ext \<Rightarrow> caches \<Rightarrow> app_inst_key list \<Rightarrow> scan \<Rightarrow> scan" where
  "scan_insts x ca [] sc = sc"
| "scan_insts x ca (k # ks) sc =
     scan_insts x ca ks
       (sc\<lparr>sc_total := sc_total sc + 1,
           sc_online := (if inst_online_or_going x ca k then sc_online sc + 1 else sc_online sc),
           sc_delete := (if is_auto_prov_inst ca k then sc_delete sc @ [k] else sc_delete sc)\<rparr>)"

definition scan_cloudlet ::
    "ext \<Rightarrow> caches \<Rightarrow> retry_tracker \<Rightarrow> (cloudlet_key, app_inst_key list) gmap \<Rightarrow> app
       \<Rightarrow> cloudlet_key \<Rightarrow> scan \<Rightarrow> scan" where
  "scan_cloudlet x ca fs insts app c sc =
     (case map_of insts c of
        None \<Rightarrow>
          if \<not> cloudlet_online x ca c then sc
          else if has_failure fs (a_key app) c then sc
          else sc\<lparr>sc_create := sc_create sc @
                 [\<lparr>st_cloudlet = c,
                   st_free = (if free_clusters ca c (a_deployment app) (a_flavor app) \<noteq> None
                              then 1 else 0)\<rparr>]\<rparr>
      | Some ks \<Rightarrow> scan_insts x ca ks sc)"

definition scan_policy ::
    "ext \<Rightarrow> caches \<Rightarrow> retry_tracker \<Rightarrow> (cloudlet_key, app_inst_key list) gmap \<Rightarrow> app
       \<Rightarrow> cloudlet_key list \<Rightarrow> scan" where
  "scan_policy x ca fs insts app cs =
     fold (scan_cloudlet x ca fs insts app) cs
       \<lparr>sc_delete = [], sc_create = [], sc_online = 0, sc_total = 0\<rparr>"

text \<open>
  What one policy asks for: AppInsts to delete, and, unless the maximum is reached, the sorted
  sites to create on, the number of create workers to spawn, and whether the failover requests
  are told that there are not enough sites.
\<close>

record policy_plan =
  pp_policy :: string
  pp_min :: nat
  pp_deletes :: "app_inst_key list"
  pp_not_enough :: bool
  pp_sites :: "site list"
  pp_workers :: nat

definition check_policy ::
    "ext \<Rightarrow> caches \<Rightarrow> retry_tracker \<Rightarrow> ((site \<Rightarrow> site \<Rightarrow> bool) \<Rightarrow> site list \<Rightarrow> site list) \<Rightarrow> aggr
       \<Rightarrow> (cloudlet_key, app_inst_key list) gmap \<Rightarrow> app \<Rightarrow> string
       \<Rightarrow> (cloudlet_key list \<times> policy_plan) option" where
  "check_policy x ca fs srt ag insts app pname =
     (case policy_cache ca \<lparr>pk_org = app_org (a_key app), pk_name = pname\<rparr> of
        None \<Rightarrow> None
      | Some p \<Rightarrow>
          let sc = scan_policy x ca fs insts app (p_cloudlets p);
              deletes = (if 0 < p_max p
                         then choose_delete (sc_delete sc) (int (sc_total sc) - int (p_max p))
                         else [])
          in if 0 < p_max p \<and> p_max p \<le> sc_total sc
             then Some (p_cloudlets p,
                    \<lparr>pp_policy = pname, pp_min = p_min p, pp_deletes = deletes,
                     pp_not_enough = False, pp_sites = [], pp_workers = 0\<rparr>)
             else
               let need = int (p_min p) - int (sc_online sc);
                   sites = sort_potential_create srt ag (a_key app) (sc_create sc)
               in Some (p_cloudlets p,
                    \<lparr>pp_policy = pname, pp_min = p_min p, pp_deletes = deletes,
                     pp_not_enough = (int (length sites) < need), pp_sites = sites,
                     pp_workers = nat (min need (int (length sites)))\<rparr>))"

subsection \<open>Check\<close>

definition group_insts ::
    "ext \<Rightarrow> string list \<Rightarrow> (cloudlet_key, app_inst_key list) gmap" where
  "group_insts x strs =
     fold (\<lambda>s m. let key = x_parse_key x s;
                     ks = (case map_of m (inst_cloudlet key) of None \<Rightarrow> [] | Some ks \<Rightarrow> ks)
                 in gput (inst_cloudlet key) (List.insert key ks) m) strs []"

fun check_policies ::
    "ext \<Rightarrow> caches \<Rightarrow> retry_tracker \<Rightarrow> ((site \<Rightarrow> site \<Rightarrow> bool) \<Rightarrow> site list \<Rightarrow> site list) \<Rightarrow> aggr
       \<Rightarrow> (cloudlet_key, app_inst_key list) gmap \<Rightarrow> app \<Rightarrow> string list
       \<Rightarrow> cloudlet_key list \<times> policy_plan list" where
  "check_policies x ca fs srt ag insts app [] = ([], [])"
| "check_policies x ca fs srt ag insts app (p # ps) =
     (let (cs, plans) = check_policies x ca fs srt ag insts app ps in
      case check_policy x ca fs srt ag insts app p of
        None \<Rightarrow> (cs, plans)
      | Some (cs', plan) \<Rightarrow> (cs' @ cs, plan # plans))"

definition orphans ::
    "caches \<Rightarrow> (cloudlet_key, app_inst_key list) gmap \<Rightarrow> cloudlet_key list \<Rightarrow> app_inst_key list" where
  "orphans ca insts policy_cloudlets =
     concat (map (\<lambda>(c, ks). if c \<in> set policy_cloudlets then []
                            else filter (is_auto_prov_inst ca) ks) insts)"

text \<open>The whole check of one App: the plans of its policies, and the orphans to delete.\<close>

definition app_check ::
    "ext \<Rightarrow> caches \<Rightarrow> retry_tracker \<Rightarrow> ((site \<Rightarrow> site \<Rightarrow> bool) \<Rightarrow> site list \<Rightarrow> site list) \<Rightarrow> aggr
       \<Rightarrow> app_key \<Rightarrow> policy_plan list \<times> app_inst_key list" where
  "app_check x ca fs srt ag a =
     (case app_cache ca a of
        None \<Rightarrow> ([], [])
      | Some app \<Rightarrow>
          (case app_inst_refs_cache ca a of
             None \<Rightarrow> ([], [])
           | Some refs \<Rightarrow>
               let insts = group_insts x refs;
                   (cs, plans) = check_policies x ca fs srt ag insts app (x_app_policies x app)
               in (plans, orphans ca insts cs)))"

subsection \<open>Lemmas: choosing\<close>

lemma length_choose_delete:
  "length (choose_delete ks n) = nat (min n (int (length ks)))"
  by (auto simp: choose_delete_def Let_def min_def)

lemma choose_delete_suffix: "\<exists>pre. ks = pre @ choose_delete ks n"
  by (auto simp: choose_delete_def Let_def) (metis append_take_drop_id)+

lemma set_choose_delete: "set (choose_delete ks n) \<subseteq> set ks"
  by (metis choose_delete_suffix set_append sup_ge2)

lemma distinct_choose_delete: "distinct ks \<Longrightarrow> distinct (choose_delete ks n)"
  by (metis choose_delete_suffix distinct_append)

lemma site_less_order:
  "\<not> site_less ag a y x \<Longrightarrow> \<not> site_less ag a z y \<Longrightarrow> \<not> site_less ag a z x"
  "site_less ag a y x \<Longrightarrow> \<not> site_less ag a x y"
  by (auto simp: site_less_def not_less split: option.splits if_splits)

lemma insertion_sort_sites: "sort_slice_ok (site_less ag a) (insertion_sort (site_less ag a))"
  by (rule insertion_sort_ok) (fact site_less_order)+

lemma sort_potential_create_perm:
  assumes "sort_slice_ok (site_less ag a) (srt (site_less ag a))"
  shows "mset (sort_potential_create srt ag a sites) = mset sites"
  using assms by (simp add: sort_potential_create_def sort_slice_ok_def)

lemma sort_potential_create_set_length:
  assumes "sort_slice_ok (site_less ag a) (srt (site_less ag a))"
  shows "set (sort_potential_create srt ag a sites) = set sites"
    and "length (sort_potential_create srt ag a sites) = length sites"
  using sort_potential_create_perm[of ag a srt sites, OF assms]
  by (metis set_mset_mset, metis size_mset)

subsection \<open>Lemmas: the scan\<close>

text \<open>The AppInsts on the policy's Cloudlets, and the Cloudlets with none.\<close>

definition policy_insts :: "(cloudlet_key, app_inst_key list) gmap \<Rightarrow> cloudlet_key list \<Rightarrow> app_inst_key list" where
  "policy_insts insts cs = concat (map (\<lambda>c. case map_of insts c of None \<Rightarrow> [] | Some ks \<Rightarrow> ks) cs)"

definition creatable ::
    "ext \<Rightarrow> caches \<Rightarrow> retry_tracker \<Rightarrow> (cloudlet_key, app_inst_key list) gmap \<Rightarrow> app \<Rightarrow> cloudlet_key \<Rightarrow> bool" where
  "creatable x ca fs insts app c \<longleftrightarrow>
     map_of insts c = None \<and> cloudlet_online x ca c \<and> \<not> has_failure fs (a_key app) c"

lemma scan_insts_eq:
  "scan_insts x ca ks sc =
     sc\<lparr>sc_total := sc_total sc + length ks,
        sc_online := sc_online sc + length (filter (inst_online_or_going x ca) ks),
        sc_delete := sc_delete sc @ filter (is_auto_prov_inst ca) ks\<rparr>"
  by (induction ks arbitrary: sc) auto

lemma scan_fold:
  "fold (scan_cloudlet x ca fs insts app) cs sc =
     sc\<lparr>sc_total := sc_total sc + length (policy_insts insts cs),
        sc_online := sc_online sc + length (filter (inst_online_or_going x ca) (policy_insts insts cs)),
        sc_delete := sc_delete sc @ filter (is_auto_prov_inst ca) (policy_insts insts cs),
        sc_create := sc_create sc @ map (\<lambda>c. \<lparr>st_cloudlet = c,
           st_free = (if free_clusters ca c (a_deployment app) (a_flavor app) \<noteq> None then 1 else 0)\<rparr>)
           (filter (creatable x ca fs insts app) cs)\<rparr>"
  by (induction cs arbitrary: sc)
    (auto simp: scan_cloudlet_def scan_insts_eq policy_insts_def creatable_def split: option.splits)

lemma scan_policy_eq:
  "scan_policy x ca fs insts app cs =
     \<lparr>sc_delete = filter (is_auto_prov_inst ca) (policy_insts insts cs),
      sc_create = map (\<lambda>c. \<lparr>st_cloudlet = c,
         st_free = (if free_clusters ca c (a_deployment app) (a_flavor app) \<noteq> None then 1 else 0)\<rparr>)
         (filter (creatable x ca fs insts app) cs),
      sc_online = length (filter (inst_online_or_going x ca) (policy_insts insts cs)),
      sc_total = length (policy_insts insts cs)\<rparr>"
  by (simp add: scan_policy_def scan_fold)

text \<open>The plan of a policy, in terms of the AppInsts on its Cloudlets.\<close>

lemma check_policy_eq:
  fixes x fs srt ag insts
  assumes "policy_cache ca \<lparr>pk_org = app_org (a_key app), pk_name = pname\<rparr> = Some p"
  defines "ks \<equiv> policy_insts insts (p_cloudlets p)"
  defines "sites \<equiv> sort_potential_create srt ag (a_key app)
      (map (\<lambda>c. \<lparr>st_cloudlet = c,
         st_free = (if free_clusters ca c (a_deployment app) (a_flavor app) \<noteq> None then 1 else 0)\<rparr>)
         (filter (creatable x ca fs insts app) (p_cloudlets p)))"
  defines "online \<equiv> length (filter (inst_online_or_going x ca) ks)"
  shows "check_policy x ca fs srt ag insts app pname = Some (p_cloudlets p,
    (if 0 < p_max p \<and> p_max p \<le> length ks
     then \<lparr>pp_policy = pname, pp_min = p_min p,
           pp_deletes = choose_delete (filter (is_auto_prov_inst ca) ks)
             (int (length ks) - int (p_max p)),
           pp_not_enough = False, pp_sites = [], pp_workers = 0\<rparr>
     else \<lparr>pp_policy = pname, pp_min = p_min p, pp_deletes = [],
           pp_not_enough = (online + length sites < p_min p),
           pp_sites = sites, pp_workers = min (p_min p - online) (length sites)\<rparr>))"
proof -
  have "nat (min (int (p_min p) - int online) (int (length sites))) =
      min (p_min p - online) (length sites)"
    by linarith
  then show ?thesis
    using assms(1) unfolding check_policy_def ks_def sites_def online_def
    by (auto simp: Let_def scan_policy_eq choose_delete_def)
qed

lemma check_policy_cases:
  assumes "check_policy x ca fs srt ag insts app pname = Some (cs, plan)"
  obtains p where "policy_cache ca \<lparr>pk_org = app_org (a_key app), pk_name = pname\<rparr> = Some p"
    and "cs = p_cloudlets p"
  using assms check_policy_eq[of ca app pname _ x fs srt ag insts]
  by (cases "policy_cache ca \<lparr>pk_org = app_org (a_key app), pk_name = pname\<rparr>")
    (auto simp: check_policy_def)

subsection \<open>Properties of a policy's plan\<close>

text \<open>
  C17 (maximum): a policy whose maximum is set and reached starts no create worker, has no site to
  create on and reports nothing to the failover requests.  A plan deletes only auto-provisioned
  AppInsts of the App that sit on the policy's Cloudlets, none below the maximum, never so many that
  fewer than the maximum stay, and, when enough of them are auto-provisioned, exactly down to the
  maximum.
\<close>

theorem check_policy_max:
  assumes "policy_cache ca \<lparr>pk_org = app_org (a_key app), pk_name = pname\<rparr> = Some p"
    and "check_policy x ca fs srt ag insts app pname = Some (cs, plan)"
  defines "ks \<equiv> policy_insts insts (p_cloudlets p)"
  shows "(0 < p_max p \<and> p_max p \<le> length ks \<longrightarrow>
        pp_workers plan = 0 \<and> pp_sites plan = [] \<and> \<not> pp_not_enough plan)
    \<and> set (pp_deletes plan) \<subseteq> {k \<in> set ks. is_auto_prov_inst ca k}
    \<and> (p_max p = 0 \<or> length ks \<le> p_max p \<longrightarrow> pp_deletes plan = [])
    \<and> (0 < p_max p \<and> pp_deletes plan \<noteq> [] \<longrightarrow> p_max p \<le> length ks - length (pp_deletes plan))
    \<and> (0 < p_max p \<and> length ks - p_max p \<le> length (filter (is_auto_prov_inst ca) ks)
        \<longrightarrow> length ks - length (pp_deletes plan) \<le> p_max p)"
proof -
  note eq = check_policy_eq[OF assms(1), of x fs srt ag insts, folded ks_def]
  have len: "length (pp_deletes plan) = (if 0 < p_max p \<and> p_max p \<le> length ks
      then min (length ks - p_max p) (length (filter (is_auto_prov_inst ca) ks)) else 0)"
    using assms(2) unfolding eq by (auto simp: length_choose_delete)
  have "set (pp_deletes plan) \<subseteq> {k \<in> set ks. is_auto_prov_inst ca k}"
    using assms(2) set_choose_delete[of "filter (is_auto_prov_inst ca) ks"]
    unfolding eq by (fastforce split: if_splits)
  moreover have "p_max p = 0 \<or> length ks \<le> p_max p \<longrightarrow> pp_deletes plan = []"
  proof
    assume "p_max p = 0 \<or> length ks \<le> p_max p"
    then have "length (pp_deletes plan) = 0" unfolding len by auto
    then show "pp_deletes plan = []" by simp
  qed
  moreover have "0 < p_max p \<and> p_max p \<le> length ks \<longrightarrow>
        pp_workers plan = 0 \<and> pp_sites plan = [] \<and> \<not> pp_not_enough plan"
    using assms(2) unfolding eq by auto
  moreover have "0 < p_max p \<and> pp_deletes plan \<noteq> [] \<longrightarrow> p_max p \<le> length ks - length (pp_deletes plan)"
    using len by (cases "pp_deletes plan = []") (auto simp: min_def split: if_splits)
  moreover have "0 < p_max p \<and> length ks - p_max p \<le> length (filter (is_auto_prov_inst ca) ks)
        \<longrightarrow> length ks - length (pp_deletes plan) \<le> p_max p"
    using len by (auto simp: min_def)
  ultimately show ?thesis by blast
qed

text \<open>
  Note (delete or create): a plan never both deletes and creates, and when the maximum is set and
  reached it creates nothing.
\<close>

theorem check_policy_delete_or_create:
  assumes "check_policy x ca fs srt ag insts app pname = Some (cs, plan)"
  shows "pp_deletes plan = [] \<or> (pp_workers plan = 0 \<and> pp_sites plan = [])"
  using assms
proof (rule check_policy_cases)
  fix p
  assume "policy_cache ca \<lparr>pk_org = app_org (a_key app), pk_name = pname\<rparr> = Some p"
  from check_policy_eq[OF this, of x fs srt ag insts] assms show ?thesis
    by (auto split: if_splits)
qed

text \<open>
  Note (minimum): below the maximum, a plan spawns exactly as many create workers as are missing
  to the minimum, or one per possible site when there are not enough, in which case the failover
  requests are told; the sites are exactly the policy's online Cloudlets without an AppInst of
  the App and without a failed deployment, each as often as the policy lists it.
\<close>

theorem check_policy_min:
  assumes "policy_cache ca \<lparr>pk_org = app_org (a_key app), pk_name = pname\<rparr> = Some p"
    and "check_policy x ca fs srt ag insts app pname = Some (cs, plan)"
    and "sort_slice_ok (site_less ag (a_key app)) (srt (site_less ag (a_key app)))"
  defines "ks \<equiv> policy_insts insts (p_cloudlets p)"
  defines "online \<equiv> length (filter (inst_online_or_going x ca) ks)"
  assumes "p_max p = 0 \<or> length ks < p_max p"
  shows "mset (map st_cloudlet (pp_sites plan)) =
      mset (filter (creatable x ca fs insts app) (p_cloudlets p))
    \<and> pp_workers plan = min (p_min p - online) (length (pp_sites plan))
    \<and> (pp_not_enough plan \<longleftrightarrow> online + length (pp_sites plan) < p_min p)"
proof -
  note eq = check_policy_eq[OF assms(1), of x fs srt ag insts, folded ks_def]
  let ?cand = "map (\<lambda>c. \<lparr>st_cloudlet = c,
         st_free = (if free_clusters ca c (a_deployment app) (a_flavor app) \<noteq> None then 1 else 0)\<rparr>)
         (filter (creatable x ca fs insts app) (p_cloudlets p))"
  have plan: "pp_sites plan = sort_potential_create srt ag (a_key app) ?cand"
    "pp_workers plan = min (p_min p - online) (length (pp_sites plan))"
    "pp_not_enough plan \<longleftrightarrow> online + length (pp_sites plan) < p_min p"
    using assms(2,6) unfolding eq online_def by (auto split: if_splits)
  have "mset (map st_cloudlet (pp_sites plan)) = image_mset st_cloudlet (mset ?cand)"
    unfolding plan(1) using sort_potential_create_perm[of ag "a_key app" srt ?cand] assms(3) by simp
  also have "\<dots> = mset (map st_cloudlet ?cand)" by (rule mset_map[symmetric])
  also have "map st_cloudlet ?cand = filter (creatable x ca fs insts app) (p_cloudlets p)"
    by (simp add: o_def)
  finally show ?thesis using plan(2,3) by blast
qed

subsection \<open>Concrete data for the witnesses\<close>

definition demo_ext :: ext where
  "demo_ext = \<lparr>x_cloudlet_online = (\<lambda>c. c_maintenance c = Normal_Operation),
     x_info_online = (\<lambda>i. info_state i = 2),
     x_inst_online = (\<lambda>i _ _. inst_state i = 5), x_inst_going_online = (\<lambda>i _ _. inst_state i = 4),
     x_app_policies = in_ap,
     x_parse_key = (\<lambda>s. \<lparr>ai_app = a_key demo_app,
        ai_cluster_inst = \<lparr>ci_cluster = s, ci_cloudlet = demo_cloudlet, ci_org = ''''\<rparr>\<rparr>),
     x_exists_error = (\<lambda>_. ''AppInst key exists''), x_being_created = (\<lambda>_. False),
     x_being_deleted = (\<lambda>_. False), x_min_met_error = ''min already met'',
     x_autocluster_name = ''autocluster'', x_mobiledgex_org = ''MobiledgeX''\<rparr>"

definition demo_cloudlet2 :: cloudlet_key where
  "demo_cloudlet2 = \<lparr>cl_org = ''oper'', cl_name = ''site2'', cl_fed_org = ''''\<rparr>"

text \<open>One App with one policy over two online Cloudlets, and an offline AppInst on the first.\<close>

definition demo_mm_policy :: policy where
  "demo_mm_policy = demo_policy\<lparr>p_min := 1, p_max := 1, p_cloudlets := [demo_cloudlet, demo_cloudlet2]\<rparr>"

definition demo_inst :: "string \<Rightarrow> app_inst" where
  "demo_inst s = \<lparr>inst_key = x_parse_key demo_ext s, inst_liveness = Liveness_Autoprov, inst_state = 0\<rparr>"

definition demo_mm_caches :: caches where
  "demo_mm_caches = demo_caches\<lparr>
     policy_cache := [p_key demo_policy \<mapsto> demo_mm_policy],
     app_inst_cache := [x_parse_key demo_ext ''c1'' \<mapsto> demo_inst ''c1'',
                        x_parse_key demo_ext ''c2'' \<mapsto> demo_inst ''c2''],
     cloudlet_cache := [
       demo_cloudlet \<mapsto> \<lparr>c_key = demo_cloudlet, c_maintenance = Normal_Operation, c_state = 5\<rparr>,
       demo_cloudlet2 \<mapsto> \<lparr>c_key = demo_cloudlet2, c_maintenance = Normal_Operation, c_state = 5\<rparr>],
     cloudlet_info_cache := [
       demo_cloudlet \<mapsto> \<lparr>info_cloudlet = demo_cloudlet, info_state = 2, info_cl_maintenance = Normal_Operation\<rparr>,
       demo_cloudlet2 \<mapsto> \<lparr>info_cloudlet = demo_cloudlet2, info_state = 2, info_cl_maintenance = Normal_Operation\<rparr>]\<rparr>"

abbreviation demo_insts :: "string list \<Rightarrow> (cloudlet_key, app_inst_key list) gmap" where
  "demo_insts ss \<equiv> [(demo_cloudlet, map (x_parse_key demo_ext) ss)]"

lemma demo_policy_lookup:
  "policy_cache demo_mm_caches \<lparr>pk_org = app_org (a_key demo_app), pk_name = ''p''\<rparr> = Some demo_mm_policy"
  by (simp add: demo_mm_caches_def demo_policy_def demo_app_def)

lemma demo_policy_insts [simp]:
  "policy_insts [(demo_cloudlet, ks)] (p_cloudlets demo_mm_policy) = ks"
  by (simp add: policy_insts_def demo_mm_policy_def demo_cloudlet_def demo_cloudlet2_def)

lemma demo_mm_policy_bounds [simp]: "p_max demo_mm_policy = 1" "p_min demo_mm_policy = 1"
  by (simp_all add: demo_mm_policy_def)

lemma demo_auto_prov [simp]:
  "is_auto_prov_inst demo_mm_caches (x_parse_key demo_ext ''c1'')"
  "is_auto_prov_inst demo_mm_caches (x_parse_key demo_ext ''c2'')"
  by (simp_all add: is_auto_prov_inst_def demo_mm_caches_def demo_ext_def demo_inst_def)

theorem check_policy_max_witness:
  "\<exists>cs plan. check_policy demo_ext demo_mm_caches [] insertion_sort (new_auto_prov_aggr 300 0)
      (demo_insts [''c1'', ''c2'']) demo_app ''p'' = Some (cs, plan)
    \<and> p_max demo_mm_policy = 1 \<and> length (pp_deletes plan) = 1 \<and> pp_workers plan = 0 \<and> pp_sites plan = []"
proof -
  obtain cs plan where c: "check_policy demo_ext demo_mm_caches [] insertion_sort
      (new_auto_prov_aggr 300 0) (demo_insts [''c1'', ''c2'']) demo_app ''p'' = Some (cs, plan)"
    using check_policy_eq[OF demo_policy_lookup] by blast
  then show ?thesis
    using check_policy_max[OF demo_policy_lookup c] by (cases "pp_deletes plan = []") auto
qed

theorem check_policy_delete_or_create_witness:
  "\<exists>cs plan. check_policy demo_ext demo_mm_caches [] insertion_sort (new_auto_prov_aggr 300 0)
      (demo_insts [''c1'', ''c2'']) demo_app ''p'' = Some (cs, plan)
    \<and> (pp_deletes plan = [] \<or> (pp_workers plan = 0 \<and> pp_sites plan = []))"
proof -
  obtain cs plan where c: "check_policy demo_ext demo_mm_caches [] insertion_sort
      (new_auto_prov_aggr 300 0) (demo_insts [''c1'', ''c2'']) demo_app ''p'' = Some (cs, plan)"
    using check_policy_eq[OF demo_policy_lookup] by blast
  then show ?thesis using check_policy_delete_or_create[OF c] by blast
qed

lemma demo_creatable:
  "creatable demo_ext demo_mm_caches [] [] demo_app c \<longleftrightarrow> c \<in> {demo_cloudlet, demo_cloudlet2}"
  by (auto simp: creatable_def cloudlet_online_def demo_ext_def demo_mm_caches_def
      demo_caches_def empty_caches_def demo_cloudlet_def demo_cloudlet2_def split: option.splits)

theorem check_policy_min_witness:
  "\<exists>cs plan. check_policy demo_ext demo_mm_caches [] insertion_sort (new_auto_prov_aggr 300 0)
      [] demo_app ''p'' = Some (cs, plan)
    \<and> mset (map st_cloudlet (pp_sites plan)) = {#demo_cloudlet, demo_cloudlet2#}
    \<and> pp_workers plan = 1 \<and> \<not> pp_not_enough plan"
proof -
  obtain cs plan where c: "check_policy demo_ext demo_mm_caches [] insertion_sort
      (new_auto_prov_aggr 300 0) [] demo_app ''p'' = Some (cs, plan)"
    using check_policy_eq[OF demo_policy_lookup] by blast
  have ks: "policy_insts [] (p_cloudlets demo_mm_policy) = []"
    by (simp add: policy_insts_def)
  then have "p_max demo_mm_policy = 0 \<or>
      length (policy_insts [] (p_cloudlets demo_mm_policy)) < p_max demo_mm_policy"
    by simp
  note min = check_policy_min[OF demo_policy_lookup c insertion_sort_sites this]
  have "filter (creatable demo_ext demo_mm_caches [] [] demo_app) (p_cloudlets demo_mm_policy) =
      [demo_cloudlet, demo_cloudlet2]"
    by (simp add: demo_creatable demo_mm_policy_def)
  then have sites: "mset (map st_cloudlet (pp_sites plan)) = mset [demo_cloudlet, demo_cloudlet2]"
    using min by simp
  then have "length (pp_sites plan) = 2"
    using mset_eq_length by fastforce
  then show ?thesis
    using min c sites by (simp add: ks)
qed

subsection \<open>Orphans\<close>

definition group_step ::
    "ext \<Rightarrow> string \<Rightarrow> (cloudlet_key, app_inst_key list) gmap \<Rightarrow> (cloudlet_key, app_inst_key list) gmap" where
  "group_step x s m =
     (let key = x_parse_key x s;
          ks = (case map_of m (inst_cloudlet key) of None \<Rightarrow> [] | Some ks \<Rightarrow> ks)
      in gput (inst_cloudlet key) (List.insert key ks) m)"

lemma group_insts_snoc: "group_insts x (strs @ [s]) = group_step x s (group_insts x strs)"
  by (simp add: group_insts_def group_step_def Let_def)

definition insts_of :: "(cloudlet_key, app_inst_key list) gmap \<Rightarrow> cloudlet_key \<Rightarrow> app_inst_key set" where
  "insts_of m c = (case map_of m c of None \<Rightarrow> {} | Some ks \<Rightarrow> set ks)"

lemma insts_of_group:
  "insts_of (group_insts x strs) c = {k \<in> x_parse_key x ` set strs. inst_cloudlet k = c}"
proof (induction strs rule: rev_induct)
  case Nil
  then show ?case by (simp add: group_insts_def insts_of_def)
next
  case (snoc s strs)
  have "insts_of (group_step x s m) c =
      (if inst_cloudlet (x_parse_key x s) = c then insert (x_parse_key x s) (insts_of m c)
       else insts_of m c)" for m
    by (auto simp: group_step_def insts_of_def Let_def split: option.splits)
  then show ?case using snoc.IH by (auto simp: group_insts_snoc)
qed

lemma distinct_group: "distinct (gkeys (group_insts x strs))"
  by (induction strs rule: rev_induct)
    (simp_all add: group_insts_def distinct_update Let_def)

lemma orphans_iff:
  assumes "distinct (gkeys insts)"
  shows "k \<in> set (orphans ca insts cs) \<longleftrightarrow>
    is_auto_prov_inst ca k \<and> (\<exists>c. c \<notin> set cs \<and> k \<in> insts_of insts c)"
proof -
  have "k \<in> set (orphans ca insts cs) \<longleftrightarrow>
      is_auto_prov_inst ca k \<and> (\<exists>c ks. (c, ks) \<in> set insts \<and> c \<notin> set cs \<and> k \<in> set ks)"
    unfolding orphans_def set_concat set_map by (auto split: if_splits)
  moreover have "k \<in> insts_of insts c \<longleftrightarrow> (\<exists>ks. (c, ks) \<in> set insts \<and> k \<in> set ks)" for c
    by (cases "map_of insts c") (auto simp: insts_of_def gmap_in_set[OF assms])
  ultimately show ?thesis by blast
qed

text \<open>The Cloudlets of the App's policies that the policy cache holds.\<close>

definition policy_cloudlets :: "ext \<Rightarrow> caches \<Rightarrow> app \<Rightarrow> cloudlet_key set" where
  "policy_cloudlets x ca app =
     (\<Union>name \<in> set (x_app_policies x app).
        case policy_cache ca \<lparr>pk_org = app_org (a_key app), pk_name = name\<rparr> of
          None \<Rightarrow> {} | Some p \<Rightarrow> set (p_cloudlets p))"

lemma check_policy_None_iff:
  "check_policy x ca fs srt ag insts app name = None \<longleftrightarrow>
     policy_cache ca \<lparr>pk_org = app_org (a_key app), pk_name = name\<rparr> = None"
  by (auto simp: check_policy_def Let_def split: option.splits)

lemma check_policies_cloudlets:
  "set (fst (check_policies x ca fs srt ag insts app names)) =
     (\<Union>name \<in> set names.
        case policy_cache ca \<lparr>pk_org = app_org (a_key app), pk_name = name\<rparr> of
          None \<Rightarrow> {} | Some p \<Rightarrow> set (p_cloudlets p))"
proof (induction names)
  case (Cons name names)
  show ?case
  proof (cases "check_policy x ca fs srt ag insts app name")
    case None
    then have "policy_cache ca \<lparr>pk_org = app_org (a_key app), pk_name = name\<rparr> = None"
      by (simp only: check_policy_None_iff)
    then show ?thesis using Cons None by (simp add: split_beta Let_def)
  next
    case (Some r)
    obtain cs plan where r: "r = (cs, plan)" by (cases r)
    obtain p where p: "policy_cache ca \<lparr>pk_org = app_org (a_key app), pk_name = name\<rparr> = Some p"
      "cs = p_cloudlets p"
      using check_policy_cases[OF Some[unfolded r]] by blast
    then show ?thesis using Cons Some r by (simp add: split_beta Let_def)
  qed
qed simp

text \<open>
  Note (orphans): the check of an App whose references are known deletes as orphans exactly the
  referenced AppInsts that are auto-provisioned and sit on a Cloudlet that no policy of the App
  in the policy cache lists.
\<close>

theorem app_check_orphans:
  assumes "app_cache ca a = Some app" and "app_inst_refs_cache ca a = Some refs"
  shows "set (snd (app_check x ca fs srt ag a)) =
    {k \<in> x_parse_key x ` set refs. is_auto_prov_inst ca k \<and>
        inst_cloudlet k \<notin> policy_cloudlets x ca app}"
proof -
  let ?m = "group_insts x refs"
  let ?r = "check_policies x ca fs srt ag ?m app (x_app_policies x app)"
  have "snd (app_check x ca fs srt ag a) = orphans ca ?m (fst ?r)"
    using assms by (simp add: app_check_def Let_def split_beta)
  moreover have "set (fst ?r) = policy_cloudlets x ca app"
    by (simp add: check_policies_cloudlets policy_cloudlets_def)
  ultimately have "k \<in> set (snd (app_check x ca fs srt ag a)) \<longleftrightarrow>
      is_auto_prov_inst ca k \<and> (\<exists>c. c \<notin> policy_cloudlets x ca app \<and>
        k \<in> x_parse_key x ` set refs \<and> inst_cloudlet k = c)" for k
    by (simp add: orphans_iff[OF distinct_group] insts_of_group)
  then show ?thesis by blast
qed

theorem app_check_orphans_witness:
  "set (snd (app_check demo_ext
      (demo_mm_caches\<lparr>app_inst_refs_cache := [a_key demo_app \<mapsto> [''c1'']],
         policy_cache := [p_key demo_policy \<mapsto> demo_mm_policy\<lparr>p_cloudlets := [demo_cloudlet2]\<rparr>]\<rparr>)
      [] insertion_sort (new_auto_prov_aggr 300 0) (a_key demo_app))) = {x_parse_key demo_ext ''c1''}"
proof -
  let ?ca = "demo_mm_caches\<lparr>app_inst_refs_cache := [a_key demo_app \<mapsto> [''c1'']],
         policy_cache := [p_key demo_policy \<mapsto> demo_mm_policy\<lparr>p_cloudlets := [demo_cloudlet2]\<rparr>]\<rparr>"
  have app: "app_cache ?ca (a_key demo_app) = Some demo_app"
    by (simp add: demo_mm_caches_def demo_caches_def)
  have refs: "app_inst_refs_cache ?ca (a_key demo_app) = Some [''c1'']" by simp
  have "is_auto_prov_inst ?ca k = is_auto_prov_inst demo_mm_caches k" for k
    by (simp add: is_auto_prov_inst_def)
  moreover have "inst_cloudlet (x_parse_key demo_ext ''c1'') \<notin> policy_cloudlets demo_ext ?ca demo_app"
    by (simp add: policy_cloudlets_def demo_ext_def in_ap_def demo_app_def demo_policy_def
        demo_cloudlet_def demo_cloudlet2_def)
  ultimately show ?thesis
    unfolding app_check_orphans[OF app refs] by (simp add: Collect_conv_if)
qed

text \<open>
  Note (missing policies): when none of the App's policies is in the policy cache, for example
  because the notify stream has not delivered them yet, every auto-provisioned AppInst of the
  App is an orphan and is deleted.
\<close>

theorem app_check_missing_policies_orphan_all:
  assumes "app_cache ca a = Some app" and "app_inst_refs_cache ca a = Some refs"
    and "\<forall>name \<in> set (x_app_policies x app).
      policy_cache ca \<lparr>pk_org = app_org (a_key app), pk_name = name\<rparr> = None"
  shows "set (snd (app_check x ca fs srt ag a)) =
      {k \<in> x_parse_key x ` set refs. is_auto_prov_inst ca k}
    \<and> fst (app_check x ca fs srt ag a) = []"
proof
  let ?m = "group_insts x refs"
  have "check_policy x ca fs srt ag ?m app name = None" if "name \<in> set (x_app_policies x app)" for name
    using assms(3) that by (simp only: check_policy_None_iff)
  then have none: "check_policies x ca fs srt ag ?m app names = ([], [])"
    if "set names \<subseteq> set (x_app_policies x app)" for names
    using that by (induction names) auto
  have check: "app_check x ca fs srt ag a = ([], orphans ca ?m [])"
    using assms(1,2) none[of "x_app_policies x app"] by (simp add: app_check_def Let_def)
  have "set (orphans ca ?m []) = {k \<in> x_parse_key x ` set refs. is_auto_prov_inst ca k}"
    by (auto simp: orphans_iff[OF distinct_group] insts_of_group)
  with check show "set (snd (app_check x ca fs srt ag a)) =
      {k \<in> x_parse_key x ` set refs. is_auto_prov_inst ca k}" by simp
  from check show "fst (app_check x ca fs srt ag a) = []" by simp
qed

theorem app_check_missing_policies_orphan_all_witness:
  "set (snd (app_check demo_ext
      (demo_mm_caches\<lparr>app_inst_refs_cache := [a_key demo_app \<mapsto> [''c1'']], policy_cache := Map.empty\<rparr>)
      [] insertion_sort (new_auto_prov_aggr 300 0) (a_key demo_app))) = {x_parse_key demo_ext ''c1''}"
proof -
  let ?ca = "demo_mm_caches\<lparr>app_inst_refs_cache := [a_key demo_app \<mapsto> [''c1'']],
       policy_cache := Map.empty\<rparr>"
  have app: "app_cache ?ca (a_key demo_app) = Some demo_app"
    by (simp add: demo_mm_caches_def demo_caches_def)
  have refs: "app_inst_refs_cache ?ca (a_key demo_app) = Some [''c1'']" by simp
  have auto: "is_auto_prov_inst ?ca k = is_auto_prov_inst demo_mm_caches k" for k
    by (simp add: is_auto_prov_inst_def)
  show ?thesis
    using app_check_missing_policies_orphan_all[OF app refs, of demo_ext "[]" insertion_sort
        "new_auto_prov_aggr 300 0"]
    by (simp add: auto Collect_conv_if)
qed

text \<open>Three Cloudlets, two offline AppInsts on the first, minimum 2 and maximum 3.\<close>

definition demo_site :: "string \<Rightarrow> cloudlet_key" where
  "demo_site n = \<lparr>cl_org = ''oper'', cl_name = n, cl_fed_org = ''''\<rparr>"

definition demo_over_policy :: policy where
  "demo_over_policy = \<lparr>p_key = p_key demo_policy, p_min = 2, p_max = 3,
     p_cloudlets = [demo_cloudlet, demo_site ''a'', demo_site ''b''],
     p_deploy_client_count = 0, p_deploy_interval_count = 0,
     p_undeploy_client_count = 0, p_undeploy_interval_count = 0\<rparr>"

definition demo_over_caches :: caches where
  "demo_over_caches = demo_mm_caches\<lparr>policy_cache := [p_key demo_policy \<mapsto> demo_over_policy],
     cloudlet_cache := (\<lambda>c. Some \<lparr>c_key = c, c_maintenance = Normal_Operation, c_state = 5\<rparr>),
     cloudlet_info_cache := (\<lambda>c. Some \<lparr>info_cloudlet = c, info_state = 2,
        info_cl_maintenance = Normal_Operation\<rparr>)\<rparr>"

lemma demo_over_bounds [simp]: "p_max demo_over_policy = 3" "p_min demo_over_policy = 2"
  by (simp_all add: demo_over_policy_def)

lemma demo_sites_distinct [simp]:
  "demo_site ''a'' \<noteq> demo_cloudlet" "demo_site ''b'' \<noteq> demo_cloudlet"
  by (simp_all add: demo_cloudlet_def demo_site_def)

lemma demo_over_insts: "policy_insts [(demo_cloudlet, ks)] (p_cloudlets demo_over_policy) = ks"
  by (simp add: policy_insts_def demo_over_policy_def)

lemma demo_over_offline:
  "\<not> inst_online_or_going demo_ext demo_over_caches (x_parse_key demo_ext ''c1'')"
  "\<not> inst_online_or_going demo_ext demo_over_caches (x_parse_key demo_ext ''c2'')"
  by (simp_all add: inst_online_or_going_def demo_ext_def demo_inst_def demo_over_caches_def demo_mm_caches_def)

lemma demo_over_creatable:
  "filter (creatable demo_ext demo_over_caches [] [(demo_cloudlet, ks)] demo_app)
     (p_cloudlets demo_over_policy) = [demo_site ''a'', demo_site ''b'']"
  by (simp add: creatable_def cloudlet_online_def demo_ext_def demo_over_policy_def demo_over_caches_def)

text \<open>
  Note (minimum above maximum): the creations for the minimum are not bounded by the maximum.
  With two offline AppInsts, a minimum of 2 and a maximum of 3, the plan spawns two create
  workers, which would give four AppInsts on the policy's Cloudlets.
\<close>

theorem check_policy_creates_above_max:
  "\<exists>cs plan. check_policy demo_ext demo_over_caches [] insertion_sort ag
       (demo_insts [''c1'', ''c2'']) demo_app ''p'' = Some (cs, plan)
   \<and> p_min demo_over_policy \<le> p_max demo_over_policy
   \<and> p_max demo_over_policy <
       length (policy_insts (demo_insts [''c1'', ''c2'']) (p_cloudlets demo_over_policy))
         + pp_workers plan"
proof -
  let ?ins = "demo_insts [''c1'', ''c2'']"
  have pol: "policy_cache demo_over_caches \<lparr>pk_org = app_org (a_key demo_app), pk_name = ''p''\<rparr> =
      Some demo_over_policy"
    by (simp add: demo_over_caches_def demo_policy_def demo_app_def)
  show ?thesis
    unfolding check_policy_eq[OF pol]
    by (simp add: demo_over_insts demo_over_offline demo_over_creatable
        sort_potential_create_set_length(2)[of _ _ insertion_sort, OF insertion_sort_sites])
qed

end
