(* ===== verification/AutoProv_Workers.thy ===== *)
theory AutoProv_Workers
  imports AutoProv_MinMax
begin

text \<open>
  The create workers that \<open>checkPolicy\<close> (\<open>src/autoprov/autoprov_minmax.go\<close>) spawns to meet a
  policy's minimum.  First the loop of one worker, run one worker after the other
  (\<open>worker_loop\<close>, \<open>run_workers\<close>); then the workers as they run, interleaved, over the shared
  cursor of \<open>potentialCreateSites\<close>, as a step relation.  \<open>getNext\<close> does not take the struct's
  mutex, so each of its accesses to the cursor is a step of its own: the comparison with the number
  of sites, the read for the index (which panics, ending the process, when the cursor has moved to
  the end since), and the load and the store of \<open>s.next++\<close>.
\<close>

subsection \<open>getNext\<close>

record create_sites =
  cs_sites :: "site list"
  cs_next :: nat

definition get_next :: "create_sites \<Rightarrow> site option \<times> create_sites" where
  "get_next s =
     (if cs_next s < length (cs_sites s)
      then (Some (cs_sites s ! cs_next s), s\<lparr>cs_next := cs_next s + 1\<rparr>)
      else (None, s))"

subsection \<open>One worker\<close>

datatype fo_msg =
    Fo_Created app_inst_key string nat
  | Fo_Failed app_inst_key string nat string
  | Fo_Not_Enough app_key string nat

text \<open>The loop of a worker; it ends because every turn takes a site.\<close>

function worker_loop ::
    "ext \<Rightarrow> api_run \<Rightarrow> app_key \<Rightarrow> string \<Rightarrow> nat \<Rightarrow> create_sites \<Rightarrow> api_state
       \<Rightarrow> fo_msg list \<times> create_sites \<times> api_state" where
  "worker_loop x run a pname pmin s st =
     (case get_next s of
        (None, s') \<Rightarrow> ([], s', st)
      | (Some site, s') \<Rightarrow>
          let inst = auto_prov_inst x a (st_cloudlet site);
              (err, st') = go_app_inst_api x run inst Create Reason_MinMax pname st
          in case err of
               None \<Rightarrow> ([Fo_Created inst pname pmin], s', st')
             | Some e \<Rightarrow>
                 if ignore_deploy_error x inst (Some e) then ([], s', st')
                 else let (ms, s'', st'') = worker_loop x run a pname pmin s' st'
                      in (Fo_Failed inst pname pmin e # ms, s'', st''))"
  by pat_completeness auto
termination
  by (relation "measure (\<lambda>(x, run, a, pname, pmin, s, st). length (cs_sites s) - cs_next s)")
    (auto simp: get_next_def split: if_splits)

declare worker_loop.simps [simp del]

fun run_workers ::
    "ext \<Rightarrow> api_run \<Rightarrow> app_key \<Rightarrow> string \<Rightarrow> nat \<Rightarrow> nat \<Rightarrow> create_sites \<Rightarrow> api_state
       \<Rightarrow> fo_msg list \<times> create_sites \<times> api_state" where
  "run_workers x run a pname pmin 0 s st = ([], s, st)"
| "run_workers x run a pname pmin (Suc n) s st =
     (let (ms, s', st') = worker_loop x run a pname pmin s st;
          (ms', s'', st'') = run_workers x run a pname pmin n s' st'
      in (ms @ ms', s'', st''))"

subsection \<open>Interleaved workers\<close>

datatype outcome = Created | Ignored | Failed

datatype worker_pc =
    W_Fetch                  \<comment> \<open>at \<open>createSites.getNext()\<close>, before \<open>s.next < len(s.sites)\<close>\<close>
  | W_Index                  \<comment> \<open>before \<open>s.sites[s.next]\<close>\<close>
  | W_Load site              \<comment> \<open>before the load of \<open>s.next++\<close>\<close>
  | W_Store site nat         \<comment> \<open>before the store of \<open>s.next++\<close>, with the value loaded\<close>
  | W_Call site              \<comment> \<open>at \<open>goAppInstApi\<close>\<close>
  | W_Stop                   \<comment> \<open>left the loop with \<open>err == nil\<close>\<close>
  | W_Exhausted              \<comment> \<open>left the loop with \<open>site == nil\<close>\<close>

record workers =
  wk_next :: nat
  wk_pc :: "nat \<Rightarrow> worker_pc"
  wk_calls :: "(nat \<times> site \<times> outcome) list"
  wk_panicked :: bool

definition workers_init :: workers where
  "workers_init = \<lparr>wk_next = 0, wk_pc = (\<lambda>_. W_Fetch), wk_calls = [], wk_panicked = False\<rparr>"

abbreviation goes_on :: "nat \<Rightarrow> workers \<Rightarrow> nat \<Rightarrow> bool" where
  "goes_on n w i \<equiv> i < n \<and> \<not> wk_panicked w"

inductive wstep :: "site list \<Rightarrow> nat \<Rightarrow> workers \<Rightarrow> workers \<Rightarrow> bool"
  for sites :: "site list" and n :: nat where
  check: "goes_on n w i \<Longrightarrow> wk_pc w i = W_Fetch \<Longrightarrow> wk_next w < length sites \<Longrightarrow>
     wstep sites n w (w\<lparr>wk_pc := (wk_pc w)(i := W_Index)\<rparr>)"
| exhausted: "goes_on n w i \<Longrightarrow> wk_pc w i = W_Fetch \<Longrightarrow> \<not> wk_next w < length sites \<Longrightarrow>
     wstep sites n w (w\<lparr>wk_pc := (wk_pc w)(i := W_Exhausted)\<rparr>)"
| index: "goes_on n w i \<Longrightarrow> wk_pc w i = W_Index \<Longrightarrow> wk_next w < length sites \<Longrightarrow>
     wstep sites n w (w\<lparr>wk_pc := (wk_pc w)(i := W_Load (sites ! wk_next w))\<rparr>)"
| panic: "goes_on n w i \<Longrightarrow> wk_pc w i = W_Index \<Longrightarrow> \<not> wk_next w < length sites \<Longrightarrow>
     wstep sites n w (w\<lparr>wk_panicked := True\<rparr>)"
| load: "goes_on n w i \<Longrightarrow> wk_pc w i = W_Load s \<Longrightarrow>
     wstep sites n w (w\<lparr>wk_pc := (wk_pc w)(i := W_Store s (wk_next w))\<rparr>)"
| store: "goes_on n w i \<Longrightarrow> wk_pc w i = W_Store s m \<Longrightarrow>
     wstep sites n w (w\<lparr>wk_next := m + 1, wk_pc := (wk_pc w)(i := W_Call s)\<rparr>)"
| success: "goes_on n w i \<Longrightarrow> wk_pc w i = W_Call s \<Longrightarrow> r = Created \<or> r = Ignored \<Longrightarrow>
     wstep sites n w (w\<lparr>wk_pc := (wk_pc w)(i := W_Stop), wk_calls := wk_calls w @ [(i, s, r)]\<rparr>)"
| failure: "goes_on n w i \<Longrightarrow> wk_pc w i = W_Call s \<Longrightarrow>
     wstep sites n w (w\<lparr>wk_pc := (wk_pc w)(i := W_Fetch), wk_calls := wk_calls w @ [(i, s, Failed)]\<rparr>)"

inductive wreach :: "site list \<Rightarrow> nat \<Rightarrow> workers \<Rightarrow> bool"
  for sites :: "site list" and n :: nat where
  start: "wreach sites n workers_init"
| step: "wreach sites n w \<Longrightarrow> wstep sites n w w' \<Longrightarrow> wreach sites n w'"

subsection \<open>Lemmas: sequential workers\<close>

fun is_created :: "fo_msg \<Rightarrow> bool" where
  "is_created (Fo_Created k p m) = True"
| "is_created _ = False"

lemma worker_loop_created:
  "length (filter is_created (fst (worker_loop x run a pname pmin s st))) \<le> 1"
proof (induction x run a pname pmin s st rule: worker_loop.induct)
  case (1 x run a pname pmin s st)
  obtain s' and o1 where g: "get_next s = (o1, s')" by (cases "get_next s")
  show ?case
  proof (cases o1)
    case None
    then show ?thesis using g by (simp add: worker_loop.simps[of x run a pname pmin s])
  next
    case (Some site)
    let ?inst = "auto_prov_inst x a (st_cloudlet site)"
    obtain err st' where api: "go_app_inst_api x run ?inst Create Reason_MinMax pname st = (err, st')"
      by (cases "go_app_inst_api x run ?inst Create Reason_MinMax pname st")
    show ?thesis
    proof (cases "\<exists>e. err = Some e \<and> \<not> ignore_deploy_error x ?inst (Some e)")
      case False
      then show ?thesis
        using g Some api
        by (auto simp: worker_loop.simps[of x run a pname pmin s] Let_def split: option.splits)
    next
      case True
      then obtain e where e: "err = Some e" "\<not> ignore_deploy_error x ?inst (Some e)" by blast
      have "length (filter is_created (fst (worker_loop x run a pname pmin s' st'))) \<le> 1"
        by (rule "1.IH"[OF g[symmetric] Some refl refl api[symmetric] e])
      then show ?thesis
        using g Some api e by (simp add: worker_loop.simps[of x run a pname pmin s] split_beta)
    qed
  qed
qed

lemma run_workers_created:
  "length (filter is_created (fst (run_workers x run a pname pmin n s st))) \<le> n"
proof (induction n arbitrary: s st)
  case (Suc n)
  obtain ms s' st' where w: "worker_loop x run a pname pmin s st = (ms, s', st')"
    by (cases "worker_loop x run a pname pmin s st") auto
  have "length (filter is_created ms) \<le> 1"
    using worker_loop_created[of x run a pname pmin s st] w by simp
  then show ?case using Suc.IH[of s' st'] w by (simp add: split_beta Let_def)
qed simp

subsection \<open>Lemmas: interleaved workers\<close>

inductive_cases wstepE: "wstep sites n w w'"

definition successes :: "workers \<Rightarrow> nat \<Rightarrow> nat" where
  "successes w i = length (filter (\<lambda>(j, s, r). j = i \<and> r \<noteq> Failed) (wk_calls w))"

text \<open>
  A worker has left the loop after its success and not before, and every site in play comes from
  the list.
\<close>

fun pc_ok :: "site list \<Rightarrow> nat \<Rightarrow> worker_pc \<Rightarrow> bool" where
  "pc_ok sites succ (W_Load s) \<longleftrightarrow> succ = 0 \<and> s \<in> set sites"
| "pc_ok sites succ (W_Store s m) \<longleftrightarrow> succ = 0 \<and> s \<in> set sites"
| "pc_ok sites succ (W_Call s) \<longleftrightarrow> succ = 0 \<and> s \<in> set sites"
| "pc_ok sites succ W_Stop \<longleftrightarrow> succ = 1"
| "pc_ok sites succ _ \<longleftrightarrow> succ = 0"

definition workers_inv :: "site list \<Rightarrow> nat \<Rightarrow> workers \<Rightarrow> bool" where
  "workers_inv sites n w \<longleftrightarrow>
     (\<forall>i. pc_ok sites (successes w i) (wk_pc w i)) \<and>
     (\<forall>e \<in> set (wk_calls w). fst e < n \<and> fst (snd e) \<in> set sites)"

lemma workers_inv_init: "workers_inv sites n workers_init"
  by (simp add: workers_inv_def workers_init_def successes_def)

lemma successes_append [simp]:
  "successes (w\<lparr>wk_pc := p, wk_calls := wk_calls w @ [(j, s, r)]\<rparr>) i =
     successes w i + (if j = i \<and> r \<noteq> Failed then 1 else 0)"
  by (simp add: successes_def)

lemma successes_pc [simp]:
  "successes (w\<lparr>wk_pc := p\<rparr>) i = successes w i"
  "successes (w\<lparr>wk_next := m\<rparr>) i = successes w i"
  "successes (w\<lparr>wk_panicked := b\<rparr>) i = successes w i"
  by (simp_all add: successes_def)

lemma workers_inv_step:
  assumes "wstep sites n w w'" and inv: "workers_inv sites n w"
  shows "workers_inv sites n w'"
proof -
  have pc: "pc_ok sites (successes w j) (wk_pc w j)" for j
    using inv by (simp add: workers_inv_def)
  have calls: "\<forall>e \<in> set (wk_calls w). fst e < n \<and> fst (snd e) \<in> set sites"
    using inv by (simp add: workers_inv_def)
  from assms(1) show ?thesis
    by (cases rule: wstep.cases; use pc calls in \<open>auto simp: workers_inv_def\<close>)
      (metis pc pc_ok.simps)+
qed

lemma workers_inv_reach: "wreach sites n w \<Longrightarrow> workers_inv sites n w"
  by (induction rule: wreach.induct) (auto simp: workers_inv_init intro: workers_inv_step)

subsection \<open>Termination of every schedule\<close>

text \<open>
  A store may move the cursor back, to one more than a value loaded before.  Each value \<open>m\<close> below
  the number of sites that is still to be stored therefore weighs more than all workers together
  at the cursor \<open>m + 1\<close>; a worker that has not loaded yet weighs as much as the value it would
  load now.  Steps that leave this weight alone bring a worker nearer to its store while sites are
  left, and nearer to the end of its loop when none is.
\<close>

fun pc_rank :: "nat \<Rightarrow> nat \<Rightarrow> nat \<Rightarrow> worker_pc \<Rightarrow> nat" where
  "pc_rank b l c W_Stop = 0"
| "pc_rank b l c W_Exhausted = 0"
| "pc_rank b l c (W_Store s m) = b ^ (l - m)"
| "pc_rank b l c _ = b ^ (l - c)"

definition total_rank :: "site list \<Rightarrow> nat \<Rightarrow> workers \<Rightarrow> nat" where
  "total_rank sites n w = (\<Sum>i<n. pc_rank (Suc n) (length sites) (wk_next w) (wk_pc w i))"

fun pc_weight :: "bool \<Rightarrow> worker_pc \<Rightarrow> nat" where
  "pc_weight left W_Stop = 0"
| "pc_weight left W_Exhausted = 0"
| "pc_weight left W_Fetch = (if left then 3 else 1)"
| "pc_weight left (W_Call s) = (if left then 4 else 2)"
| "pc_weight left (W_Store s m) = (if left then 0 else 3)"
| "pc_weight left (W_Load s) = (if left then 1 else 4)"
| "pc_weight left W_Index = (if left then 2 else 5)"

definition total_weight :: "site list \<Rightarrow> nat \<Rightarrow> workers \<Rightarrow> nat" where
  "total_weight sites n w = (\<Sum>i<n. pc_weight (wk_next w < length sites) (wk_pc w i))"

definition worker_measures :: "site list \<Rightarrow> nat \<Rightarrow> (workers \<times> workers) set" where
  "worker_measures sites n =
     measures [\<lambda>w. if wk_panicked w then 0 else 1, total_rank sites n,
               \<lambda>w. if wk_next w < length sites then 1 else 0, total_weight sites n]"

lemma sum_less_at:
  fixes f g :: "nat \<Rightarrow> nat"
  assumes "i < n" and "f i < g i" and "\<And>j. j < n \<Longrightarrow> j \<noteq> i \<Longrightarrow> f j \<le> g j"
  shows "(\<Sum>j<n. f j) < (\<Sum>j<n. g j)"
proof (rule sum_strict_mono_ex1)
  show "\<forall>j\<in>{..<n}. f j \<le> g j" using assms by (metis lessThan_iff less_imp_le order_refl)
  show "\<exists>j\<in>{..<n}. f j < g j" using assms(1,2) by auto
qed simp

lemma pc_rank_le: "pc_rank b l c pc \<le> b ^ (l - c) + pc_rank b l c' pc"
  by (cases pc) auto

text \<open>A step that leaves the cursor alone and moves one worker.\<close>

lemma local_step_decreases:
  assumes "i < n" and "wk_next w' = wk_next w" and "wk_pc w' = (wk_pc w)(i := pc)"
    and "wk_panicked w' = wk_panicked w"
    and "pc_rank (Suc n) (length sites) (wk_next w) pc \<le> pc_rank (Suc n) (length sites) (wk_next w) (wk_pc w i)"
    and "pc_weight (wk_next w < length sites) pc < pc_weight (wk_next w < length sites) (wk_pc w i)"
  shows "(w', w) \<in> worker_measures sites n"
proof -
  have "total_rank sites n w' \<le> total_rank sites n w"
    unfolding total_rank_def using assms by (intro sum_mono) auto
  moreover have "total_weight sites n w' < total_weight sites n w"
    unfolding total_weight_def using assms by (intro sum_less_at[of i]) auto
  ultimately show ?thesis using assms(2,4) by (auto simp: worker_measures_def)
qed

text \<open>A store below the number of sites outweighs whatever it adds to the others.\<close>

lemma store_rank_less:
  assumes i: "i < n" and m: "m < length sites" and pc: "wk_pc w i = W_Store s m"
    and w': "wk_next w' = m + 1" "wk_pc w' = (wk_pc w)(i := W_Call s)"
  shows "total_rank sites n w' < total_rank sites n w"
proof -
  let ?l = "length sites" and ?b = "Suc n"
  let ?r = "\<lambda>c j. pc_rank ?b ?l c (wk_pc w j)"
  let ?e = "?b ^ (?l - (m + 1))"
  have big: "?b ^ (?l - m) = ?b * ?e" using m by (simp add: Suc_diff_Suc flip: power_Suc)
  have split: "(\<Sum>j<n. g j) = g i + (\<Sum>j\<in>{..<n} - {i}. g j)" for g :: "nat \<Rightarrow> nat"
    using i by (simp add: sum.remove[of _ i])
  have "total_rank sites n w' = ?e + (\<Sum>j\<in>{..<n} - {i}. ?r (m + 1) j)"
    unfolding total_rank_def split using w' by simp
  also have "\<dots> \<le> ?e + (\<Sum>j\<in>{..<n} - {i}. ?e + ?r (wk_next w) j)"
    by (intro add_left_mono sum_mono pc_rank_le)
  also have "\<dots> = n * ?e + (\<Sum>j\<in>{..<n} - {i}. ?r (wk_next w) j)"
    using i by (cases n) (simp_all add: sum.distrib)
  also have "\<dots> < ?b ^ (?l - m) + (\<Sum>j\<in>{..<n} - {i}. ?r (wk_next w) j)"
    unfolding big by simp
  also have "\<dots> = total_rank sites n w"
    unfolding total_rank_def split using pc by simp
  finally show ?thesis .
qed

lemma store_decreases:
  assumes i: "i < n" and pc: "wk_pc w i = W_Store s m"
    and w': "w' = w\<lparr>wk_next := m + 1, wk_pc := (wk_pc w)(i := W_Call s)\<rparr>"
  shows "(w', w) \<in> worker_measures sites n"
proof (cases "m < length sites")
  case True
  then show ?thesis using store_rank_less[OF i True pc, of w'] w' by (simp add: worker_measures_def)
next
  case False
  have le: "pc_rank (Suc n) (length sites) (m + 1) p \<le> pc_rank (Suc n) (length sites) c p" for p c
    using False by (cases p) auto
  have "total_rank sites n w' \<le> total_rank sites n w"
    unfolding total_rank_def
    using le[of _ "wk_next w"] w' pc False by (intro sum_mono) auto
  moreover have "total_weight sites n w' < total_weight sites n w" if "\<not> wk_next w < length sites"
    unfolding total_weight_def using i that False pc w' by (intro sum_less_at[of i]) auto
  ultimately show ?thesis using False w' by (auto simp: worker_measures_def)
qed

lemma wstep_decreases:
  assumes "wstep sites n w w'"
  shows "(w', w) \<in> worker_measures sites n"
  using assms
proof (cases rule: wstep.cases)
  case (check i)
  then show ?thesis by (intro local_step_decreases[of i]) auto
next
  case (exhausted i)
  then show ?thesis by (intro local_step_decreases[of i]) auto
next
  case (index i)
  then show ?thesis by (intro local_step_decreases[of i]) auto
next
  case (panic i)
  then show ?thesis by (simp add: worker_measures_def)
next
  case (load i s)
  then show ?thesis by (intro local_step_decreases[of i]) auto
next
  case (store i s m)
  then show ?thesis by (intro store_decreases[of i]) auto
next
  case (success i s r)
  then show ?thesis by (intro local_step_decreases[of i]) auto
next
  case (failure i s)
  then show ?thesis by (intro local_step_decreases[of i]) auto
qed

subsection \<open>Properties of the create workers\<close>

text \<open>
  C31 (at most one creation each): in every interleaving, each of the spawned workers creates
  at most one AppInst, on a site of the list, so a policy check never creates more AppInsts than
  it spawned workers.
\<close>

theorem workers_create_at_most_one:
  assumes "wreach sites n w"
  shows "successes w i \<le> 1
    \<and> length (filter (\<lambda>(i, s, r). r \<noteq> Failed) (wk_calls w)) \<le> n
    \<and> (\<forall>(i, s, r) \<in> set (wk_calls w). s \<in> set sites)"
proof -
  have inv: "workers_inv sites n w" using assms by (rule workers_inv_reach)
  have one: "successes w j \<le> 1" for j
  proof -
    have "pc_ok sites (successes w j) (wk_pc w j)"
      using inv by (simp add: workers_inv_def)
    then show ?thesis by (cases "wk_pc w j") auto
  qed
  let ?ok = "filter (\<lambda>(i, s, r). r \<noteq> Failed) (wk_calls w)"
  have "distinct (map fst ?ok)"
  proof -
    have "filter (\<lambda>e. j = fst e) ?ok = filter (\<lambda>(k, s, r). k = j \<and> r \<noteq> Failed) (wk_calls w)" for j
      unfolding filter_filter by (rule filter_cong) auto
    then have "length (filter ((=) j) (map fst ?ok)) \<le> 1" for j
      using one[of j] by (simp add: filter_map o_def successes_def)
    then show ?thesis by (rule distinct_by_count)
  qed
  moreover have "set (map fst ?ok) \<subseteq> {..<n}"
    using inv by (auto simp: workers_inv_def)
  ultimately have "length (map fst ?ok) \<le> n"
    by (metis card_lessThan card_mono distinct_card finite_lessThan)
  then show ?thesis
    using one inv by (auto simp: workers_inv_def)
qed

text \<open>
  C32 (workers end): every step of every interleaving decreases a well-founded measure, although a
  store of \<open>s.next++\<close> may set the cursor back, so the workers always end; and when none can move
  and no index was out of range, each has left its loop, either after the one creation that
  succeeded (or whose error is ignored) or, having none, because it found the cursor at the end.
\<close>

theorem workers_terminate:
  "wf {(w', w). wstep sites n w w'}
   \<and> (wreach sites n w \<and> (\<forall>w'. \<not> wstep sites n w w') \<and> \<not> wk_panicked w \<longrightarrow>
        (\<forall>i < n. wk_pc w i = W_Stop \<and> successes w i = 1 \<or> wk_pc w i = W_Exhausted \<and> successes w i = 0))"
proof
  show "wf {(w', w). wstep sites n w w'}"
    by (rule wf_subset[of "worker_measures sites n"]) (auto simp: worker_measures_def dest: wstep_decreases)
  show "wreach sites n w \<and> (\<forall>w'. \<not> wstep sites n w w') \<and> \<not> wk_panicked w \<longrightarrow>
        (\<forall>i < n. wk_pc w i = W_Stop \<and> successes w i = 1 \<or> wk_pc w i = W_Exhausted \<and> successes w i = 0)"
  proof (intro impI allI, elim conjE)
    fix i
    assume r: "wreach sites n w" and stuck: "\<forall>w'. \<not> wstep sites n w w'"
      and "\<not> wk_panicked w" and "i < n"
    then have i: "goes_on n w i" by simp
    have "wk_pc w i = W_Stop \<or> wk_pc w i = W_Exhausted"
    proof (cases "wk_pc w i")
      case W_Fetch
      then show ?thesis using stuck wstep.check[OF i W_Fetch] wstep.exhausted[OF i W_Fetch] by blast
    next
      case W_Index
      then show ?thesis using stuck wstep.index[OF i W_Index] wstep.panic[OF i W_Index] by blast
    next
      case (W_Load s)
      then show ?thesis using stuck wstep.load[OF i W_Load] by blast
    next
      case (W_Store s m)
      then show ?thesis using stuck wstep.store[OF i W_Store] by blast
    next
      case (W_Call s)
      then show ?thesis using stuck wstep.failure[OF i W_Call] by blast
    qed simp_all
    moreover have "pc_ok sites (successes w i) (wk_pc w i)"
      using workers_inv_reach[OF r] by (simp add: workers_inv_def)
    ultimately show "wk_pc w i = W_Stop \<and> successes w i = 1 \<or> wk_pc w i = W_Exhausted \<and> successes w i = 0"
      by auto
  qed
qed

text \<open>
  A run of two workers over two sites: both read the first site before either advances the
  cursor.
\<close>

abbreviation two_workers ::
    "nat \<Rightarrow> worker_pc \<Rightarrow> worker_pc \<Rightarrow> (nat \<times> site \<times> outcome) list \<Rightarrow> bool \<Rightarrow> workers" where
  "two_workers c p q calls b \<equiv>
     \<lparr>wk_next = c, wk_pc = (\<lambda>_. W_Fetch)(0 := p, 1 := q), wk_calls = calls, wk_panicked = b\<rparr>"

definition race_end :: "site \<Rightarrow> workers" where
  "race_end s = two_workers 2 W_Stop W_Exhausted [(0, s, Created), (1, s, Failed)] False"

lemma two_workers_start: "wreach sites 2 (two_workers 0 W_Fetch W_Fetch [] False)"
proof -
  have init: "two_workers 0 W_Fetch W_Fetch [] False = workers_init"
    by (simp add: workers_init_def fun_eq_iff)
  show ?thesis unfolding init by (rule wreach.start)
qed

lemma race_run: "wreach [s1, s2] 2 (race_end s1)"
proof -
  let ?st = "\<lambda>n p q c. two_workers n p q c False"
  let ?R = "wreach [s1, s2] 2"
  have 0: "?R (?st 0 W_Index W_Fetch [])"
    using wreach.step[OF two_workers_start wstep.check[of 0]] by (simp add: fun_upd_twist)
  have 1: "?R (?st 0 W_Index W_Index [])"
    using wreach.step[OF 0 wstep.check[of 1]] by (simp add: fun_upd_twist)
  have 2: "?R (?st 0 (W_Load s1) W_Index [])"
    using wreach.step[OF 1 wstep.index[of 0]] by (simp add: fun_upd_twist)
  have 3: "?R (?st 0 (W_Load s1) (W_Load s1) [])"
    using wreach.step[OF 2 wstep.index[of 1]] by (simp add: fun_upd_twist)
  have 4: "?R (?st 0 (W_Store s1 0) (W_Load s1) [])"
    using wreach.step[OF 3 wstep.load[of 0 _ _ s1]] by (simp add: fun_upd_twist)
  have 5: "?R (?st 1 (W_Call s1) (W_Load s1) [])"
    using wreach.step[OF 4 wstep.store[of 0 _ _ s1 0]] by (simp add: fun_upd_twist)
  have 6: "?R (?st 1 (W_Call s1) (W_Store s1 1) [])"
    using wreach.step[OF 5 wstep.load[of 1 _ _ s1]] by (simp add: fun_upd_twist)
  have 7: "?R (?st 2 (W_Call s1) (W_Call s1) [])"
    using wreach.step[OF 6 wstep.store[of 1 _ _ s1 1]] by (simp add: fun_upd_twist numeral_2_eq_2)
  have 8: "?R (?st 2 W_Stop (W_Call s1) [(0, s1, Created)])"
    using wreach.step[OF 7 wstep.success[of 0 _ _ s1 Created]] by (simp add: fun_upd_twist)
  have 9: "?R (?st 2 W_Stop W_Fetch [(0, s1, Created), (1, s1, Failed)])"
    using wreach.step[OF 8 wstep.failure[of 1 _ _ s1]] by (simp add: fun_upd_twist)
  have "?R (?st 2 W_Stop W_Exhausted [(0, s1, Created), (1, s1, Failed)])"
    using wreach.step[OF 9 wstep.exhausted[of 1]] by (simp add: fun_upd_twist)
  then show ?thesis by (simp add: race_end_def)
qed

lemma race_end_stuck: "\<not> wstep [s1, s2] 2 (race_end s1) w'"
  by (auto elim!: wstepE simp: race_end_def less_2_cases_iff split: if_splits)

theorem workers_create_at_most_one_witness:
  "\<forall>t. successes (race_end t) 0 \<le> 1 \<and>
     length (filter (\<lambda>(i, s, r). r \<noteq> Failed) (wk_calls (race_end t))) \<le> 2"
  using workers_create_at_most_one[OF race_run, of _ 0] by blast

theorem workers_terminate_witness:
  "\<forall>s. wk_pc (race_end s) 1 = W_Exhausted \<and> successes (race_end s) 0 = 1 \<and> successes (race_end s) 1 = 0"
proof
  fix s
  have "wk_pc (race_end s) i = W_Stop \<and> successes (race_end s) i = 1
      \<or> wk_pc (race_end s) i = W_Exhausted \<and> successes (race_end s) i = 0" if "i < 2" for i
    using workers_terminate[of "[s, s]" 2 "race_end s"] race_run[of s s] race_end_stuck[of s s] that
    by (simp add: race_end_def)
  from this[of 0] this[of 1]
  show "wk_pc (race_end s) 1 = W_Exhausted \<and> successes (race_end s) 0 = 1 \<and> successes (race_end s) 1 = 0"
    by (simp add: race_end_def)
qed

text \<open>
  Note (race on the cursor): \<open>getNext\<close> does not lock \<open>potentialCreateSites.mux\<close>.  There is a run
  of two workers over two sites in which both call the Controller for the first site, the second
  call fails, and both workers end although the second site was never tried.
\<close>

theorem workers_race_skips_site:
  "\<exists>w. wreach [s1, s2] 2 w \<and> (\<nexists>w'. wstep [s1, s2] 2 w w')
     \<and> wk_calls w = [(0, s1, Created), (1, s1, Failed)]
     \<and> wk_pc w 0 = W_Stop \<and> wk_pc w 1 = W_Exhausted"
proof -
  have "wk_pc (race_end s1) 0 = W_Stop \<and> wk_pc (race_end s1) 1 = W_Exhausted"
    and "wk_calls (race_end s1) = [(0, s1, Created), (1, s1, Failed)]"
    by (simp_all add: race_end_def)
  then show ?thesis using race_run[of s1 s2] race_end_stuck[of s1 s2] by blast
qed

text \<open>
  Note (index out of range): with two sites and two workers, one can find a site left, be
  overtaken by the other that takes both, and then index past the end, a panic that ends the
  process.
\<close>

theorem workers_race_panics: "\<exists>w. wreach [s1, s2] 2 w \<and> wk_panicked w"
proof -
  let ?st = "\<lambda>n p c. two_workers n p W_Index c False"
  let ?R = "wreach [s1, s2] 2"
  have 0: "?R (?st 0 W_Fetch [])"
    using wreach.step[OF two_workers_start wstep.check[of 1]] by (simp add: fun_upd_twist)
  have 1: "?R (?st 0 W_Index [])"
    using wreach.step[OF 0 wstep.check[of 0]] by (simp add: fun_upd_twist)
  have 2: "?R (?st 0 (W_Load s1) [])"
    using wreach.step[OF 1 wstep.index[of 0]] by (simp add: fun_upd_twist)
  have 3: "?R (?st 0 (W_Store s1 0) [])"
    using wreach.step[OF 2 wstep.load[of 0 _ _ s1]] by (simp add: fun_upd_twist)
  have 4: "?R (?st 1 (W_Call s1) [])"
    using wreach.step[OF 3 wstep.store[of 0 _ _ s1 0]] by (simp add: fun_upd_twist)
  have 5: "?R (?st 1 W_Fetch [(0, s1, Failed)])"
    using wreach.step[OF 4 wstep.failure[of 0 _ _ s1]] by (simp add: fun_upd_twist)
  have 6: "?R (?st 1 W_Index [(0, s1, Failed)])"
    using wreach.step[OF 5 wstep.check[of 0]] by (simp add: fun_upd_twist)
  have 7: "?R (?st 1 (W_Load s2) [(0, s1, Failed)])"
    using wreach.step[OF 6 wstep.index[of 0]] by (simp add: fun_upd_twist)
  have 8: "?R (?st 1 (W_Store s2 1) [(0, s1, Failed)])"
    using wreach.step[OF 7 wstep.load[of 0 _ _ s2]] by (simp add: fun_upd_twist)
  have 9: "?R (?st 2 (W_Call s2) [(0, s1, Failed)])"
    using wreach.step[OF 8 wstep.store[of 0 _ _ s2 1]] by (simp add: fun_upd_twist numeral_2_eq_2)
  have "?R (two_workers 2 (W_Call s2) W_Index [(0, s1, Failed)] True)"
    using wreach.step[OF 9 wstep.panic[of 1]] by simp
  then show ?thesis by (intro exI conjI) (assumption, simp)
qed

end
