(* ===== verification/AutoProv_Failover.thy ===== *)
theory AutoProv_Failover
  imports AutoProv_Workers
begin

text \<open>
  The min-max checker itself (\<open>MinMaxChecker\<close> of \<open>src/autoprov/autoprov_minmax.go\<close>): its
  callbacks on cache changes, the table of pending failover requests, and \<open>CheckApp\<close>, the work
  item that checks one App and answers the failover requests that waited for it.  Calls of
  \<open>workers.NeedsWork\<close> and \<open>autoProvInfoCache.Update\<close> are recorded in order.  The three reverse
  lookups (\<open>AutoProvPolicyByCloudletKey\<close>, \<open>AppByAutoProvPolicy\<close>,
  \<open>AppInstLookup2ByCloudletKey\<close>) are generated code of the edge-cloud library, so their
  operations are a parameter.
\<close>

subsection \<open>State\<close>

record ('p, 'a, 'i) indexes =
  ix_policy_updated :: "policy option \<Rightarrow> policy \<Rightarrow> 'p \<Rightarrow> 'p"
  ix_policy_deleted :: "policy \<Rightarrow> 'p \<Rightarrow> 'p"
  ix_policy_find :: "'p \<Rightarrow> cloudlet_key \<Rightarrow> policy_key list"
  ix_app_updated :: "app option \<Rightarrow> app \<Rightarrow> 'a \<Rightarrow> 'a \<times> policy_key list"
  ix_app_deleted :: "app \<Rightarrow> 'a \<Rightarrow> 'a"
  ix_app_find :: "'a \<Rightarrow> policy_key \<Rightarrow> app_key list"
  ix_inst_updated :: "app_inst_key \<Rightarrow> cloudlet_key \<Rightarrow> 'i \<Rightarrow> 'i"
  ix_inst_deleted :: "app_inst_key \<Rightarrow> cloudlet_key \<Rightarrow> 'i \<Rightarrow> 'i"
  ix_inst_find :: "'i \<Rightarrow> cloudlet_key \<Rightarrow> app_inst_key list"

record auto_prov_info =
  pi_key :: cloudlet_key
  pi_maintenance :: maintenance_state
  pi_completed :: "fo_msg list"
  pi_errors :: "fo_msg list"

record failover_req =
  fr_info :: auto_prov_info
  fr_apps :: "app_key list"

record ('p, 'a, 'i) checker =
  ck_requests :: "(cloudlet_key, failover_req) gmap"
  ck_policies :: 'p
  ck_apps :: 'a
  ck_insts :: 'i
  ck_work :: "app_key list"
  ck_replies :: "auto_prov_info list"

definition needs_work :: "app_key list \<Rightarrow> ('p, 'a, 'i) checker \<Rightarrow> ('p, 'a, 'i) checker" where
  "needs_work ks s = s\<lparr>ck_work := ck_work s @ ks\<rparr>"

definition send_info :: "auto_prov_info \<Rightarrow> ('p, 'a, 'i) checker \<Rightarrow> ('p, 'a, 'i) checker" where
  "send_info i s = s\<lparr>ck_replies := ck_replies s @ [i]\<rparr>"

subsection \<open>Callbacks\<close>

definition updated_policy ::
    "('p, 'a, 'i) indexes \<Rightarrow> policy option \<Rightarrow> policy \<Rightarrow> ('p, 'a, 'i) checker \<Rightarrow> ('p, 'a, 'i) checker" where
  "updated_policy ix old new s =
     needs_work (ix_app_find ix (ck_apps s) (p_key new))
       (s\<lparr>ck_policies := ix_policy_updated ix old new (ck_policies s)\<rparr>)"

definition deleted_policy ::
    "('p, 'a, 'i) indexes \<Rightarrow> policy \<Rightarrow> ('p, 'a, 'i) checker \<Rightarrow> ('p, 'a, 'i) checker" where
  "deleted_policy ix old s = s\<lparr>ck_policies := ix_policy_deleted ix old (ck_policies s)\<rparr>"

definition updated_app ::
    "('p, 'a, 'i) indexes \<Rightarrow> app option \<Rightarrow> app \<Rightarrow> ('p, 'a, 'i) checker \<Rightarrow> ('p, 'a, 'i) checker" where
  "updated_app ix old new s =
     (let (apps, changed) = ix_app_updated ix old new (ck_apps s);
          s1 = s\<lparr>ck_apps := apps\<rparr>
      in if changed \<noteq> [] then needs_work [a_key new] s1 else s1)"

definition deleted_app ::
    "('p, 'a, 'i) indexes \<Rightarrow> app \<Rightarrow> ('p, 'a, 'i) checker \<Rightarrow> ('p, 'a, 'i) checker" where
  "deleted_app ix old s = s\<lparr>ck_apps := ix_app_deleted ix old (ck_apps s)\<rparr>"

text \<open>\<open>cloudletNeedsCheck\<close>: the set of Apps a change of the Cloudlet concerns.\<close>

definition cloudlet_needs_check ::
    "('p, 'a, 'i) indexes \<Rightarrow> ('p, 'a, 'i) checker \<Rightarrow> cloudlet_key \<Rightarrow> app_key list" where
  "cloudlet_needs_check ix s c =
     remdups (concat (map (ix_app_find ix (ck_apps s)) (ix_policy_find ix (ck_policies s) c))
              @ map ai_app (ix_inst_find ix (ck_insts s) c))"

definition updated_cloudlet_info ::
    "ext \<Rightarrow> ('p, 'a, 'i) indexes \<Rightarrow> cloudlet_info option \<Rightarrow> cloudlet_info
       \<Rightarrow> ('p, 'a, 'i) checker \<Rightarrow> ('p, 'a, 'i) checker" where
  "updated_cloudlet_info x ix old new s =
     (if (case old of None \<Rightarrow> False | Some o' \<Rightarrow> x_info_online x o' = x_info_online x new) then s
      else needs_work (cloudlet_needs_check ix s (info_cloudlet new)) s)"

definition handle_failover_req ::
    "cloudlet \<Rightarrow> app_key list option \<Rightarrow> ('p, 'a, 'i) checker \<Rightarrow> ('p, 'a, 'i) checker" where
  "handle_failover_req cl apps s =
     (if c_maintenance cl \<noteq> Failover_Requested then s
      else if apps = None \<or> apps = Some []
      then send_info \<lparr>pi_key = c_key cl, pi_maintenance = Failover_Done,
                      pi_completed = [], pi_errors = []\<rparr> s
      else
        (case map_of (ck_requests s) (c_key cl) of
           None \<Rightarrow>
             s\<lparr>ck_requests := gput (c_key cl)
                 \<lparr>fr_info = \<lparr>pi_key = c_key cl, pi_maintenance = Normal_Operation,
                             pi_completed = [], pi_errors = []\<rparr>,
                  fr_apps = the apps\<rparr> (ck_requests s)\<rparr>
         | Some req \<Rightarrow>
             s\<lparr>ck_requests := gput (c_key cl)
                 (req\<lparr>fr_apps := fold List.insert (the apps) (fr_apps req)\<rparr>) (ck_requests s)\<rparr>))"

definition updated_cloudlet ::
    "ext \<Rightarrow> ('p, 'a, 'i) indexes \<Rightarrow> cloudlet option \<Rightarrow> cloudlet
       \<Rightarrow> ('p, 'a, 'i) checker \<Rightarrow> ('p, 'a, 'i) checker" where
  "updated_cloudlet x ix old new s =
     (case old of
        None \<Rightarrow> s
      | Some o' \<Rightarrow>
          if x_cloudlet_online x o' = x_cloudlet_online x new
          then handle_failover_req new None s
          else let apps = cloudlet_needs_check ix s (c_key new)
               in needs_work apps (handle_failover_req new (Some apps) s))"

definition is_auto_prov_app :: "caches \<Rightarrow> app_key \<Rightarrow> bool" where
  "is_auto_prov_app ca k =
     (case app_cache ca k of
        None \<Rightarrow> False
      | Some app \<Rightarrow> a_policy app \<noteq> '''' \<or> 0 < length (a_policies app))"

definition updated_app_inst ::
    "ext \<Rightarrow> ('p, 'a, 'i) indexes \<Rightarrow> caches \<Rightarrow> app_inst option \<Rightarrow> app_inst
       \<Rightarrow> ('p, 'a, 'i) checker \<Rightarrow> ('p, 'a, 'i) checker" where
  "updated_app_inst x ix ca old new s =
     (let k = inst_key new; c = inst_cloudlet k in
      if \<not> is_auto_prov_app ca (ai_app k) then s
      else
        let s1 = s\<lparr>ck_insts := ix_inst_updated ix k c (ck_insts s)\<rparr> in
        case old of
          None \<Rightarrow> needs_work [ai_app k] s1
        | Some o' \<Rightarrow>
            (case cloudlet_info_cache ca c of
               None \<Rightarrow> s1
             | Some info \<Rightarrow>
                 (case cloudlet_cache ca c of
                    None \<Rightarrow> s1
                  | Some cl \<Rightarrow>
                      if x_inst_online x o' info cl = x_inst_online x new info cl then s1
                      else needs_work [ai_app k] s1)))"

definition deleted_app_inst ::
    "('p, 'a, 'i) indexes \<Rightarrow> caches \<Rightarrow> app_inst_key \<Rightarrow> ('p, 'a, 'i) checker \<Rightarrow> ('p, 'a, 'i) checker" where
  "deleted_app_inst ix ca k s =
     (if \<not> is_auto_prov_app ca (ai_app k) then s
      else needs_work [ai_app k] (s\<lparr>ck_insts := ix_inst_deleted ix k (inst_cloudlet k) (ck_insts s)\<rparr>))"

definition updated_app_inst_refs ::
    "caches \<Rightarrow> app_key \<Rightarrow> ('p, 'a, 'i) checker \<Rightarrow> ('p, 'a, 'i) checker" where
  "updated_app_inst_refs ca k s = (if \<not> is_auto_prov_app ca k then s else needs_work [k] s)"

subsection \<open>failoverReq\<close>

definition add_completed :: "fo_msg \<Rightarrow> failover_req \<Rightarrow> failover_req" where
  "add_completed m r = r\<lparr>fr_info := (fr_info r)\<lparr>pi_completed := pi_completed (fr_info r) @ [m]\<rparr>\<rparr>"

definition add_error :: "fo_msg \<Rightarrow> failover_req \<Rightarrow> failover_req" where
  "add_error m r = r\<lparr>fr_info := (fr_info r)\<lparr>pi_errors := pi_errors (fr_info r) @ [m]\<rparr>\<rparr>"

definition add_msg :: "fo_msg \<Rightarrow> failover_req \<Rightarrow> failover_req" where
  "add_msg m r = (if is_created m then add_completed m r else add_error m r)"

text \<open>\<open>appDone\<close>: the second result says that all Apps have been processed.\<close>

definition app_done :: "app_key \<Rightarrow> failover_req \<Rightarrow> failover_req \<times> bool" where
  "app_done k r =
     (if k \<notin> set (fr_apps r) then (r, False)
      else let apps = removeAll k (fr_apps r) in (r\<lparr>fr_apps := apps\<rparr>, length apps = 0))"

definition final_info :: "failover_req \<Rightarrow> auto_prov_info" where
  "final_info r =
     (fr_info r)\<lparr>pi_maintenance :=
        (if length (pi_errors (fr_info r)) = 0 then Failover_Done else Failover_Error)\<rparr>"

subsection \<open>CheckApp\<close>

text \<open>Running what the check asked for, one effect after the other.\<close>

fun run_deletes ::
    "ext \<Rightarrow> api_run \<Rightarrow> reason \<Rightarrow> string \<Rightarrow> app_inst_key list \<Rightarrow> api_state \<Rightarrow> api_state" where
  "run_deletes x run reason pname [] st = st"
| "run_deletes x run reason pname (k # ks) st =
     run_deletes x run reason pname ks (snd (go_app_inst_api x run k Delete reason pname st))"

fun run_plans ::
    "ext \<Rightarrow> api_run \<Rightarrow> app_key \<Rightarrow> policy_plan list \<Rightarrow> api_state \<Rightarrow> fo_msg list \<times> api_state" where
  "run_plans x run a [] st = ([], st)"
| "run_plans x run a (p # ps) st =
     (let st1 = run_deletes x run Reason_MinMax (pp_policy p) (pp_deletes p) st;
          ne = (if pp_not_enough p then [Fo_Not_Enough a (pp_policy p) (pp_min p)] else []);
          (ms, _, st2) = run_workers x run a (pp_policy p) (pp_min p) (pp_workers p)
             \<lparr>cs_sites = pp_sites p, cs_next = 0\<rparr> st1;
          (ms', st3) = run_plans x run a ps st2
      in (ne @ ms @ ms', st3))"

text \<open>
  The requests that waited for the App get the messages of its check; those it was the last App
  of leave the table and are answered.
\<close>

fun finish_reqs ::
    "app_key \<Rightarrow> fo_msg list \<Rightarrow> (cloudlet_key \<times> failover_req) list
       \<Rightarrow> (cloudlet_key, failover_req) gmap \<Rightarrow> (cloudlet_key, failover_req) gmap \<times> auto_prov_info list" where
  "finish_reqs k ms [] table = (table, [])"
| "finish_reqs k ms ((c, r) # rs) table =
     (let (r', finished) = app_done k (fold add_msg ms r) in
      if \<not> finished then finish_reqs k ms rs (gput c r' table)
      else let (table', is) = finish_reqs k ms rs (gdel (pi_key (fr_info r')) table)
           in (table', final_info r' # is))"

definition check_app ::
    "ext \<Rightarrow> caches \<Rightarrow> api_run \<Rightarrow> ((site \<Rightarrow> site \<Rightarrow> bool) \<Rightarrow> site list \<Rightarrow> site list) \<Rightarrow> aggr \<Rightarrow> app_key
       \<Rightarrow> ('p, 'a, 'i) checker \<times> api_state \<Rightarrow> ('p, 'a, 'i) checker \<times> api_state" where
  "check_app x ca run srt ag k sa =
     (let (s, st) = sa;
          reqs = filter (\<lambda>(c, r). k \<in> set (fr_apps r)) (ck_requests s);
          (plans, orph) = app_check x ca (api_failures st) srt ag k;
          (ms, st1) = run_plans x run k plans st;
          st2 = run_deletes x run Reason_Orphaned '''' orph st1;
          (table, replies) = finish_reqs k ms reqs (ck_requests s)
      in (s\<lparr>ck_requests := table, ck_replies := ck_replies s @ replies\<rparr>, st2))"

subsection \<open>Steps\<close>

text \<open>Any callback with any cache contents, and any run of \<open>CheckApp\<close>.\<close>

inductive ck_step ::
    "ext \<Rightarrow> ('p, 'a, 'i) indexes \<Rightarrow> ('p, 'a, 'i) checker \<times> api_state \<Rightarrow> ('p, 'a, 'i) checker \<times> api_state \<Rightarrow> bool"
  for x :: ext and ix :: "('p, 'a, 'i) indexes" where
  policy_updated: "ck_step x ix (s, st) (updated_policy ix po p s, st)"
| policy_deleted: "ck_step x ix (s, st) (deleted_policy ix p s, st)"
| app_updated: "ck_step x ix (s, st) (updated_app ix ao a s, st)"
| app_deleted: "ck_step x ix (s, st) (deleted_app ix a s, st)"
| info_updated: "ck_step x ix (s, st) (updated_cloudlet_info x ix io i s, st)"
| cloudlet_updated: "ck_step x ix (s, st) (updated_cloudlet x ix co c s, st)"
| inst_updated: "ck_step x ix (s, st) (updated_app_inst x ix ca no n s, st)"
| inst_deleted: "ck_step x ix (s, st) (deleted_app_inst ix ca k s, st)"
| refs_updated: "ck_step x ix (s, st) (updated_app_inst_refs ca k s, st)"
| checked: "ck_step x ix sa (check_app x ca run srt ag k sa)"

definition new_checker :: "'p \<Rightarrow> 'a \<Rightarrow> 'i \<Rightarrow> ('p, 'a, 'i) checker" where
  "new_checker p a i = \<lparr>ck_requests = [], ck_policies = p, ck_apps = a, ck_insts = i,
     ck_work = [], ck_replies = []\<rparr>"

inductive ck_reach ::
    "ext \<Rightarrow> ('p, 'a, 'i) indexes \<Rightarrow> ('p, 'a, 'i) checker \<times> api_state \<Rightarrow> bool"
  for x :: ext and ix :: "('p, 'a, 'i) indexes" where
  start: "ck_reach x ix (new_checker p a i, \<lparr>api_failures = [], api_events = []\<rparr>)"
| step: "ck_reach x ix sa \<Longrightarrow> ck_step x ix sa sa' \<Longrightarrow> ck_reach x ix sa'"

subsection \<open>Requests and their answers\<close>

definition good_reply :: "auto_prov_info \<Rightarrow> bool" where
  "good_reply i \<longleftrightarrow>
     pi_maintenance i = (if pi_errors i = [] then Failover_Done else Failover_Error)"

definition good_request :: "cloudlet_key \<times> failover_req \<Rightarrow> bool" where
  "good_request e \<longleftrightarrow> pi_key (fr_info (snd e)) = fst e \<and> fr_apps (snd e) \<noteq> [] \<and>
     distinct (fr_apps (snd e))"

definition checker_ok :: "('p, 'a, 'i) checker \<Rightarrow> bool" where
  "checker_ok s \<longleftrightarrow> distinct (gkeys (ck_requests s)) \<and>
     list_all good_request (ck_requests s) \<and> list_all good_reply (ck_replies s)"

named_theorems fo_simps "effect of the small updates on the checker"

lemma needs_work_sel [fo_simps]:
  "ck_requests (needs_work ks s) = ck_requests s" "ck_replies (needs_work ks s) = ck_replies s"
  by (simp_all add: needs_work_def)

lemma send_info_sel [fo_simps]:
  "ck_requests (send_info i s) = ck_requests s" "ck_replies (send_info i s) = ck_replies s @ [i]"
  by (simp_all add: send_info_def)

lemma fold_add_msg [simp]:
  "fr_apps (fold add_msg ms r) = fr_apps r"
  "pi_key (fr_info (fold add_msg ms r)) = pi_key (fr_info r)"
  "pi_completed (fr_info (fold add_msg ms r)) = pi_completed (fr_info r) @ filter is_created ms"
  "pi_errors (fr_info (fold add_msg ms r)) =
     pi_errors (fr_info r) @ filter (\<lambda>m. \<not> is_created m) ms"
  by (induction ms arbitrary: r) (auto simp: add_msg_def add_completed_def add_error_def)

lemma app_done_fr_info [simp]: "fr_info (fst (app_done k r)) = fr_info r"
  by (simp add: app_done_def Let_def)

lemma fr_apps_app_done [simp]: "fr_apps (fst (app_done k r)) = removeAll k (fr_apps r)"
  by (auto simp: app_done_def Let_def removeAll_id)

lemma app_done_finished [simp]:
  "snd (app_done k r) \<longleftrightarrow> k \<in> set (fr_apps r) \<and> removeAll k (fr_apps r) = []"
  by (simp add: app_done_def Let_def)

lemma final_info_key [simp]: "pi_key (final_info r) = pi_key (fr_info r)"
  by (simp add: final_info_def)

lemma final_info_good [simp]: "good_reply (final_info r)"
  by (simp add: final_info_def good_reply_def)

text \<open>What \<open>finish_reqs\<close> leaves of one request and what it answers for it.\<close>

definition finished_req :: "app_key \<Rightarrow> failover_req \<Rightarrow> bool" where
  "finished_req k r \<longleftrightarrow> k \<in> set (fr_apps r) \<and> removeAll k (fr_apps r) = []"

definition processed :: "app_key \<Rightarrow> fo_msg list \<Rightarrow> failover_req \<Rightarrow> failover_req" where
  "processed k ms r = fst (app_done k (fold add_msg ms r))"

lemma processed_sel [simp]:
  "fr_apps (processed k ms r) = removeAll k (fr_apps r)"
  "pi_key (fr_info (processed k ms r)) = pi_key (fr_info r)"
  "pi_completed (fr_info (processed k ms r)) = pi_completed (fr_info r) @ filter is_created ms"
  "pi_errors (fr_info (processed k ms r)) =
     pi_errors (fr_info r) @ filter (\<lambda>m. \<not> is_created m) ms"
  by (simp_all add: processed_def)

lemma finish_reqs_Cons:
  "finish_reqs k ms ((c, r) # rs) table =
     (if finished_req k r
      then (fst (finish_reqs k ms rs (gdel (pi_key (fr_info r)) table)),
            final_info (processed k ms r) # snd (finish_reqs k ms rs (gdel (pi_key (fr_info r)) table)))
      else finish_reqs k ms rs (gput c (processed k ms r) table))"
proof -
  have "app_done k (fold add_msg ms r) = (processed k ms r, finished_req k r)"
    using app_done_finished[of k "fold add_msg ms r"]
    by (cases "app_done k (fold add_msg ms r)") (simp add: finished_req_def processed_def)
  then show ?thesis by (simp add: case_prod_unfold Let_def)
qed

declare finish_reqs.simps(2) [simp del]

lemma finish_reqs_table:
  assumes "distinct (gkeys rs)" and "\<forall>e\<in>set rs. pi_key (fr_info (snd e)) = fst e"
  shows "map_of (fst (finish_reqs k ms rs table)) c =
    (case map_of rs c of
       None \<Rightarrow> map_of table c
     | Some r \<Rightarrow> if finished_req k r then None else Some (processed k ms r))"
  using assms
proof (induction rs arbitrary: table)
  case Nil
  then show ?case by simp
next
  case (Cons e rs)
  obtain d r where e: "e = (d, r)" by (cases e)
  have "map_of rs d = None" using Cons.prems(1) e by (simp add: map_of_eq_None_iff)
  moreover have "pi_key (fr_info r) = d" using Cons.prems(2) e by simp
  ultimately show ?case
    using Cons.IH Cons.prems by (auto simp: e finish_reqs_Cons split: option.split)
qed

lemma finish_reqs_distinct:
  "distinct (gkeys table) \<Longrightarrow> distinct (gkeys (fst (finish_reqs k ms rs table)))"
proof (induction rs arbitrary: table)
  case (Cons e rs)
  then show ?case
    by (cases e) (simp add: finish_reqs_Cons distinct_update distinct_delete)
qed simp

lemma finish_reqs_replies:
  "snd (finish_reqs k ms rs table) =
     map (\<lambda>e. final_info (processed k ms (snd e))) (filter (\<lambda>e. finished_req k (snd e)) rs)"
  by (induction rs arbitrary: table) (auto simp: finish_reqs_Cons)

subsection \<open>One run of CheckApp\<close>

text \<open>The messages the check of an App adds to the requests that wait for it.\<close>

definition check_msgs ::
    "ext \<Rightarrow> caches \<Rightarrow> api_run \<Rightarrow> ((site \<Rightarrow> site \<Rightarrow> bool) \<Rightarrow> site list \<Rightarrow> site list) \<Rightarrow> aggr \<Rightarrow> app_key
       \<Rightarrow> api_state \<Rightarrow> fo_msg list" where
  "check_msgs x ca run srt ag k st =
     fst (run_plans x run k (fst (app_check x ca (api_failures st) srt ag k)) st)"

lemma check_app_cases:
  obtains ms st' where "ms = check_msgs x ca run srt ag k st" and "check_app x ca run srt ag k (s, st) =
    (s\<lparr>ck_requests := fst (finish_reqs k ms
          (filter (\<lambda>e. k \<in> set (fr_apps (snd e))) (ck_requests s)) (ck_requests s)),
       ck_replies := ck_replies s @ snd (finish_reqs k ms
          (filter (\<lambda>e. k \<in> set (fr_apps (snd e))) (ck_requests s)) (ck_requests s))\<rparr>, st')"
proof -
  have "(\<lambda>(c, r). k \<in> set (fr_apps r)) = (\<lambda>e :: cloudlet_key \<times> failover_req. k \<in> set (fr_apps (snd e)))"
    by auto
  then show thesis
    using that by (auto simp: check_app_def check_msgs_def case_prod_unfold Let_def)
qed

lemma map_of_filter_val:
  "distinct (gkeys m) \<Longrightarrow> map_of (filter (\<lambda>e. P (snd e)) m) c =
     (case map_of m c of None \<Rightarrow> None | Some v \<Rightarrow> if P v then Some v else None)"
  by (induction m) (auto simp: map_of_eq_None_iff image_iff split: option.splits
        dest: map_of_SomeD)

lemma processed_other [simp]: "k \<notin> set (fr_apps r) \<Longrightarrow> \<not> finished_req k r"
  by (simp add: finished_req_def)

lemma check_app_table:
  assumes ok: "checker_ok s"
  obtains ms where "ms = check_msgs x ca run srt ag k st" and "\<And>c. map_of (ck_requests (fst (check_app x ca run srt ag k (s, st)))) c =
      (case map_of (ck_requests s) c of
         None \<Rightarrow> None
       | Some r \<Rightarrow> if k \<notin> set (fr_apps r) then Some r
                   else if finished_req k r then None else Some (processed k ms r))"
    and "ck_replies (fst (check_app x ca run srt ag k (s, st))) = ck_replies s @
      map (\<lambda>e. final_info (processed k ms (snd e)))
        (filter (\<lambda>e. finished_req k (snd e)) (ck_requests s))"
    and "distinct (gkeys (ck_requests (fst (check_app x ca run srt ag k (s, st)))))"
proof -
  let ?rs = "filter (\<lambda>e. k \<in> set (fr_apps (snd e))) (ck_requests s)"
  obtain ms st' where msgs: "ms = check_msgs x ca run srt ag k st" and step: "check_app x ca run srt ag k (s, st) =
      (s\<lparr>ck_requests := fst (finish_reqs k ms ?rs (ck_requests s)),
         ck_replies := ck_replies s @ snd (finish_reqs k ms ?rs (ck_requests s))\<rparr>, st')"
    by (rule check_app_cases)
  have d: "distinct (gkeys (ck_requests s))" and good: "list_all good_request (ck_requests s)"
    using ok by (simp_all add: checker_ok_def)
  have d': "distinct (gkeys ?rs)" using d by (rule distinct_map_filter)
  have keys: "\<forall>e\<in>set ?rs. pi_key (fr_info (snd e)) = fst e"
    using good by (auto simp: list_all_iff good_request_def)
  have table: "map_of (ck_requests (fst (check_app x ca run srt ag k (s, st)))) c =
      (case map_of (ck_requests s) c of
         None \<Rightarrow> None
       | Some r \<Rightarrow> if k \<notin> set (fr_apps r) then Some r
                   else if finished_req k r then None else Some (processed k ms r))" for c
    unfolding step fst_conv
    using finish_reqs_table[OF d' keys, of k ms "ck_requests s" c]
      map_of_filter_val[OF d, of "\<lambda>r. k \<in> set (fr_apps r)" c]
    by (cases "map_of (ck_requests s) c") (simp_all split: if_splits)
  have eq: "filter (\<lambda>e. finished_req k (snd e)) ?rs = filter (\<lambda>e. finished_req k (snd e)) (ck_requests s)"
    by (auto simp: finished_req_def intro: filter_cong)
  have replies: "ck_replies (fst (check_app x ca run srt ag k (s, st))) = ck_replies s @
      map (\<lambda>e. final_info (processed k ms (snd e)))
        (filter (\<lambda>e. finished_req k (snd e)) (ck_requests s))"
    unfolding step fst_conv by (simp add: finish_reqs_replies del: filter_filter) (simp only: eq)
  have "distinct (gkeys (ck_requests (fst (check_app x ca run srt ag k (s, st)))))"
    by (simp add: step finish_reqs_distinct d)
  with msgs table replies show thesis by (rule that)
qed

lemma check_app_ok:
  assumes "checker_ok s"
  shows "checker_ok (fst (check_app x ca run srt ag k (s, st)))"
proof -
  let ?s' = "fst (check_app x ca run srt ag k (s, st))"
  have good: "list_all good_request (ck_requests s)" "list_all good_reply (ck_replies s)"
      "distinct (gkeys (ck_requests s))"
    using assms by (simp_all add: checker_ok_def)
  obtain ms where t: "\<And>c. map_of (ck_requests ?s') c =
      (case map_of (ck_requests s) c of
         None \<Rightarrow> None
       | Some r \<Rightarrow> if k \<notin> set (fr_apps r) then Some r
                   else if finished_req k r then None else Some (processed k ms r))"
    and r: "ck_replies ?s' = ck_replies s @ map (\<lambda>e. final_info (processed k ms (snd e)))
        (filter (\<lambda>e. finished_req k (snd e)) (ck_requests s))"
    and d: "distinct (gkeys (ck_requests ?s'))"
    by (rule check_app_table[OF assms, of x ca run srt ag k st]) blast
  have "good_request (c, q)" if "(c, q) \<in> set (ck_requests ?s')" for c q
  proof -
    have new: "map_of (ck_requests ?s') c = Some q"
      using that d by (simp add: map_of_eq_Some_iff)
    then obtain q0 where old: "map_of (ck_requests s) c = Some q0"
      using t by (cases "map_of (ck_requests s) c") auto
    then have "good_request (c, q0)"
      using good(1) by (auto simp: list_all_iff dest: map_of_SomeD)
    then show ?thesis
      using new old t[of c] by (auto simp: good_request_def finished_req_def distinct_removeAll split: if_splits)
  qed
  then show ?thesis using d r good(2) by (auto simp: checker_ok_def list_all_iff)
qed

subsection \<open>The callbacks keep the table well-formed\<close>

lemma handle_failover_req_ok:
  assumes "checker_ok s" and "\<And>as. apps = Some as \<Longrightarrow> distinct as"
  shows "checker_ok (handle_failover_req cl apps s)"
proof -
  have grow: "distinct (fold List.insert as bs)" if "distinct bs" for as bs :: "app_key list"
    using that by (induction as arbitrary: bs) auto
  have grow_set: "set (fold List.insert as bs) = set as \<union> set bs" for as bs :: "app_key list"
    by (induction as arbitrary: bs) auto
  have ne: "fold List.insert as bs \<noteq> []" if "bs \<noteq> []" for as bs :: "app_key list"
    using grow_set[of as bs] that by auto
  have put: "list_all good_request (gput k v m)"
    if "list_all good_request m" "good_request (k, v)" for k v and m :: "(cloudlet_key, failover_req) gmap"
    using that gmap_put_elem[of _ k v m] by (auto simp: list_all_iff)
  have old: "good_request (c_key cl, r)" if "map_of (ck_requests s) (c_key cl) = Some r" for r
    using assms(1) map_of_SomeD[OF that] by (auto simp: checker_ok_def list_all_iff)
  have put_ok: "checker_ok (s\<lparr>ck_requests := gput (c_key cl) v (ck_requests s)\<rparr>)"
    if "good_request (c_key cl, v)" for v
    using assms(1) that by (simp add: checker_ok_def distinct_update put)
  consider (other) "c_maintenance cl \<noteq> Failover_Requested"
    | (none) "c_maintenance cl = Failover_Requested" "apps = None \<or> apps = Some []"
    | (new) as where "c_maintenance cl = Failover_Requested" "apps = Some as" "as \<noteq> []"
        "map_of (ck_requests s) (c_key cl) = None"
    | (more) as r where "c_maintenance cl = Failover_Requested" "apps = Some as" "as \<noteq> []"
        "map_of (ck_requests s) (c_key cl) = Some r"
    by (cases apps; cases "map_of (ck_requests s) (c_key cl)") blast+
  then show ?thesis
  proof cases
    case other
    then show ?thesis using assms(1) by (simp add: handle_failover_req_def)
  next
    case none
    then show ?thesis
      using assms(1) by (auto simp: handle_failover_req_def checker_ok_def fo_simps good_reply_def)
  next
    case new
    then show ?thesis
      using put_ok assms(2) by (simp add: handle_failover_req_def good_request_def)
  next
    case more
    have "good_request (c_key cl, r\<lparr>fr_apps := fold List.insert as (fr_apps r)\<rparr>)"
      using old[OF more(4)] grow ne by (simp add: good_request_def)
    then show ?thesis using put_ok more by (simp add: handle_failover_req_def)
  qed
qed

lemma checker_ok_needs_work [simp]: "checker_ok (needs_work ks s) = checker_ok s"
  by (simp add: checker_ok_def fo_simps)

lemma checker_ok_indexes [simp]:
  "checker_ok (s\<lparr>ck_policies := p\<rparr>) = checker_ok s"
  "checker_ok (s\<lparr>ck_apps := a\<rparr>) = checker_ok s"
  "checker_ok (s\<lparr>ck_insts := i\<rparr>) = checker_ok s"
  by (simp_all add: checker_ok_def)

lemma updated_cloudlet_ok: "checker_ok s \<Longrightarrow> checker_ok (updated_cloudlet x ix co c s)"
  by (auto simp: updated_cloudlet_def Let_def cloudlet_needs_check_def
      intro!: handle_failover_req_ok split: option.split)

inductive_cases ck_stepE: "ck_step x ix sa sa'"

lemma ck_step_ok: "ck_step x ix sa sa' \<Longrightarrow> checker_ok (fst sa) \<Longrightarrow> checker_ok (fst sa')"
proof (induction rule: ck_step.induct)
  case (checked sa ca run srt ag k)
  then show ?case by (cases sa) (simp add: check_app_ok)
qed (auto simp: updated_policy_def deleted_policy_def updated_app_def deleted_app_def Let_def
      updated_cloudlet_info_def updated_cloudlet_ok updated_app_inst_def deleted_app_inst_def
      updated_app_inst_refs_def split: prod.split option.split)

lemma ck_reach_ok: "ck_reach x ix sa \<Longrightarrow> checker_ok (fst sa)"
  by (induction rule: ck_reach.induct) (auto simp: new_checker_def checker_ok_def dest: ck_step_ok)

subsection \<open>One Cloudlet's request through a run of CheckApp\<close>

lemma answers_of_one:
  assumes "checker_ok s"
  shows "filter (\<lambda>i. pi_key i = c) (map (\<lambda>e. final_info (processed k ms (snd e)))
      (filter (\<lambda>e. finished_req k (snd e)) (ck_requests s))) =
    (case map_of (ck_requests s) c of
       None \<Rightarrow> []
     | Some r \<Rightarrow> if finished_req k r then [final_info (processed k ms r)] else [])"
proof -
  have "filter (\<lambda>i. pi_key i = c) (map (\<lambda>e. final_info (processed k ms (snd e)))
      (filter (\<lambda>e. finished_req k (snd e)) m)) =
    (case map_of m c of
       None \<Rightarrow> []
     | Some r \<Rightarrow> if finished_req k r then [final_info (processed k ms r)] else [])"
    if "distinct (gkeys m)" "list_all good_request m" for m
    using that
  proof (induction m)
    case (Cons e m)
    obtain d r where e: "e = (d, r)" by (cases e)
    have "pi_key (fr_info r) = d" using Cons.prems e by (simp add: good_request_def)
    moreover have "map_of m d = None" using Cons.prems e by (simp add: map_of_eq_None_iff)
    ultimately show ?case using Cons.IH Cons.prems by (auto simp: e split: option.splits)
  qed simp
  then show ?thesis using assms by (simp add: checker_ok_def)
qed

lemma check_app_one:
  assumes "checker_ok s"
  obtains ms new where "ms = check_msgs x ca run srt ag k st" and
    "map_of (ck_requests (fst (check_app x ca run srt ag k (s, st)))) c =
      (case map_of (ck_requests s) c of
         None \<Rightarrow> None
       | Some r \<Rightarrow> if k \<notin> set (fr_apps r) then Some r
                   else if finished_req k r then None else Some (processed k ms r))"
    and "ck_replies (fst (check_app x ca run srt ag k (s, st))) = ck_replies s @ new"
    and "filter (\<lambda>i. pi_key i = c) new =
      (case map_of (ck_requests s) c of
         None \<Rightarrow> []
       | Some r \<Rightarrow> if finished_req k r then [final_info (processed k ms r)] else [])"
proof (rule check_app_table[OF assms, of x ca run srt ag k st])
  fix ms
  assume m: "ms = check_msgs x ca run srt ag k st"
    and t: "\<And>c. map_of (ck_requests (fst (check_app x ca run srt ag k (s, st)))) c =
      (case map_of (ck_requests s) c of
         None \<Rightarrow> None
       | Some r \<Rightarrow> if k \<notin> set (fr_apps r) then Some r
                   else if finished_req k r then None else Some (processed k ms r))"
    and r: "ck_replies (fst (check_app x ca run srt ag k (s, st))) = ck_replies s @
      map (\<lambda>e. final_info (processed k ms (snd e)))
        (filter (\<lambda>e. finished_req k (snd e)) (ck_requests s))"
  show thesis by (rule that[OF m t r answers_of_one[OF assms]])
qed

text \<open>
  A run of the checker while the request of a Cloudlet is pending: checks of Apps, which are
  recorded, and any other callbacks, apart from an update of the Cloudlet itself that asks for
  failover again.
\<close>

inductive other_callback ::
    "ext \<Rightarrow> ('p, 'a, 'i) indexes \<Rightarrow> cloudlet_key \<Rightarrow> ('p, 'a, 'i) checker \<Rightarrow> ('p, 'a, 'i) checker \<Rightarrow> bool"
  for x :: ext and ix :: "('p, 'a, 'i) indexes" and c :: cloudlet_key where
  "other_callback x ix c s (updated_policy ix po p s)"
| "other_callback x ix c s (deleted_policy ix p s)"
| "other_callback x ix c s (updated_app ix ao a s)"
| "other_callback x ix c s (deleted_app ix a s)"
| "other_callback x ix c s (updated_cloudlet_info x ix io i s)"
| "c_key cl \<noteq> c \<or> c_maintenance cl \<noteq> Failover_Requested \<Longrightarrow>
     other_callback x ix c s (updated_cloudlet x ix co cl s)"
| "other_callback x ix c s (updated_app_inst x ix ca no n s)"
| "other_callback x ix c s (deleted_app_inst ix ca k s)"
| "other_callback x ix c s (updated_app_inst_refs ca k s)"

inductive fo_run ::
    "ext \<Rightarrow> ('p, 'a, 'i) indexes \<Rightarrow> cloudlet_key \<Rightarrow> ('p, 'a, 'i) checker \<times> api_state \<Rightarrow> app_key list
       \<Rightarrow> ('p, 'a, 'i) checker \<times> api_state \<Rightarrow> bool"
  for x :: ext and ix :: "('p, 'a, 'i) indexes" and c :: cloudlet_key
    and sa :: "('p, 'a, 'i) checker \<times> api_state" where
  start: "fo_run x ix c sa [] sa"
| check: "fo_run x ix c sa ks sa' \<Longrightarrow> fo_run x ix c sa (ks @ [k]) (check_app x ca run srt ag k sa')"
| callback: "fo_run x ix c sa ks (s, st) \<Longrightarrow> other_callback x ix c s s' \<Longrightarrow> fo_run x ix c sa ks (s', st)"

text \<open>What is left of the request, and its answers, after checks of the Apps \<open>ks\<close>.\<close>

definition waiting_for :: "app_key list \<Rightarrow> failover_req \<Rightarrow> app_key list" where
  "waiting_for ks r = filter (\<lambda>k. k \<notin> set ks) (fr_apps r)"

definition request_after ::
    "cloudlet_key \<Rightarrow> failover_req \<Rightarrow> ('p, 'a, 'i) checker \<Rightarrow> app_key list \<Rightarrow> ('p, 'a, 'i) checker \<Rightarrow> bool" where
  "request_after c r s ks s' \<longleftrightarrow> (\<exists>new. ck_replies s' = ck_replies s @ new \<and>
     (if waiting_for ks r = []
      then map_of (ck_requests s') c = None \<and> length (filter (\<lambda>i. pi_key i = c) new) = 1
      else (\<exists>r'. map_of (ck_requests s') c = Some r' \<and> fr_apps r' = waiting_for ks r) \<and>
           filter (\<lambda>i. pi_key i = c) new = []))"

lemma other_callback_step: "other_callback x ix c s s' \<Longrightarrow> ck_step x ix (s, st) (s', st)"
  by (induction rule: other_callback.induct) (rule ck_step.intros)+

lemma updated_cloudlet_other:
  assumes "c_key cl \<noteq> c \<or> c_maintenance cl \<noteq> Failover_Requested"
  shows "map_of (ck_requests (updated_cloudlet x ix co cl s)) c = map_of (ck_requests s) c \<and>
    (\<exists>new. ck_replies (updated_cloudlet x ix co cl s) = ck_replies s @ new \<and> filter (\<lambda>i. pi_key i = c) new = [])"
  using assms
  by (auto simp: updated_cloudlet_def handle_failover_req_def fo_simps Let_def split: option.split)

lemma other_callback_keeps:
  assumes "other_callback x ix c s s'"
  shows "map_of (ck_requests s') c = map_of (ck_requests s) c \<and>
    (\<exists>new. ck_replies s' = ck_replies s @ new \<and> filter (\<lambda>i. pi_key i = c) new = [])"
  using assms
proof (induction rule: other_callback.induct)
  case (6 cl s co)
  then show ?case by (rule updated_cloudlet_other)
qed (auto simp: updated_policy_def deleted_policy_def updated_app_def deleted_app_def updated_cloudlet_info_def
    updated_app_inst_def deleted_app_inst_def updated_app_inst_refs_def fo_simps Let_def case_prod_unfold
    split: option.split)

lemma request_after_callback:
  assumes "request_after c r s0 ks s" and "other_callback x ix c s s'"
  shows "request_after c r s0 ks s'"
proof -
  obtain new' where "map_of (ck_requests s') c = map_of (ck_requests s) c"
    and "ck_replies s' = ck_replies s @ new'" "filter (\<lambda>i. pi_key i = c) new' = []"
    using other_callback_keeps[OF assms(2)] by blast
  moreover obtain new where "ck_replies s = ck_replies s0 @ new"
    and "if waiting_for ks r = []
      then map_of (ck_requests s) c = None \<and> length (filter (\<lambda>i. pi_key i = c) new) = 1
      else (\<exists>r'. map_of (ck_requests s) c = Some r' \<and> fr_apps r' = waiting_for ks r) \<and>
           filter (\<lambda>i. pi_key i = c) new = []"
    using assms(1) unfolding request_after_def by blast
  ultimately show ?thesis
    unfolding request_after_def by (intro exI[of _ "new @ new'"]) (simp split: if_splits)
qed

lemma waiting_for_snoc: "waiting_for (ks @ [k]) r = removeAll k (waiting_for ks r)"
  by (auto simp: waiting_for_def removeAll_filter_not_eq intro: filter_cong)

lemma request_after_check:
  assumes "request_after c r s0 ks s" and "checker_ok s"
  shows "request_after c r s0 (ks @ [k]) (fst (check_app x ca run srt ag k (s, st)))"
proof -
  let ?s' = "fst (check_app x ca run srt ag k (s, st))"
  obtain ms new' where t: "map_of (ck_requests ?s') c =
      (case map_of (ck_requests s) c of
         None \<Rightarrow> None
       | Some r \<Rightarrow> if k \<notin> set (fr_apps r) then Some r
                   else if finished_req k r then None else Some (processed k ms r))"
    and n: "ck_replies ?s' = ck_replies s @ new'"
    and f: "filter (\<lambda>i. pi_key i = c) new' = (case map_of (ck_requests s) c of
         None \<Rightarrow> []
       | Some r \<Rightarrow> if finished_req k r then [final_info (processed k ms r)] else [])"
    by (rule check_app_one[OF assms(2), where c = c])
  obtain new where o: "ck_replies s = ck_replies s0 @ new"
    and i: "if waiting_for ks r = []
      then map_of (ck_requests s) c = None \<and> length (filter (\<lambda>i. pi_key i = c) new) = 1
      else (\<exists>r'. map_of (ck_requests s) c = Some r' \<and> fr_apps r' = waiting_for ks r) \<and>
           filter (\<lambda>i. pi_key i = c) new = []"
    using assms(1) unfolding request_after_def by blast
  have all: "ck_replies ?s' = ck_replies s0 @ new @ new'" using n o by simp
  show ?thesis
  proof (cases "waiting_for ks r = []")
    case True
    then show ?thesis using i t f all
      unfolding request_after_def by (intro exI[of _ "new @ new'"]) (simp add: waiting_for_snoc)
  next
    case False
    then obtain r' where r': "map_of (ck_requests s) c = Some r'" "fr_apps r' = waiting_for ks r"
      and none: "filter (\<lambda>i. pi_key i = c) new = []"
      using i by auto
    show ?thesis using False r' none t f all
      unfolding request_after_def
      by (intro exI[of _ "new @ new'"]) (auto simp: waiting_for_snoc finished_req_def removeAll_id)
  qed
qed

lemma fo_run_after:
  assumes "fo_run x ix c sa ks sa'" and "checker_ok (fst sa)" and "map_of (ck_requests (fst sa)) c = Some r"
  shows "checker_ok (fst sa') \<and> request_after c r (fst sa) ks (fst sa')"
  using assms(1)
proof (induction rule: fo_run.induct)
  case start
  have "fr_apps r \<noteq> []"
    using assms(2,3) by (auto simp: checker_ok_def list_all_iff good_request_def dest: map_of_SomeD)
  then show ?case using assms(2,3) by (simp add: request_after_def waiting_for_def)
next
  case (check ks sa' k ca run srt ag)
  obtain s st where sa': "sa' = (s, st)" by (cases sa')
  show ?case
    using check.IH request_after_check[of c r "fst sa" ks s k x ca run srt ag st]
    by (auto simp: sa' check_app_ok)
next
  case (callback ks s st s')
  then show ?case
    using request_after_callback[OF _ callback.hyps(2)] ck_step_ok[OF other_callback_step[OF callback.hyps(2)]]
    by auto
qed

subsection \<open>Properties\<close>

definition demo_indexes :: "(policy_key list, app_key list, app_inst_key list) indexes" where
  "demo_indexes = \<lparr>ix_policy_updated = (\<lambda>_ p ps. List.insert (p_key p) ps),
     ix_policy_deleted = (\<lambda>p ps. removeAll (p_key p) ps), ix_policy_find = (\<lambda>ps _. ps),
     ix_app_updated = (\<lambda>_ a ks. (List.insert (a_key a) ks, map (\<lambda>n. \<lparr>pk_org = '''', pk_name = n\<rparr>) (a_policies a))),
     ix_app_deleted = (\<lambda>a ks. removeAll (a_key a) ks), ix_app_find = (\<lambda>ks _. ks),
     ix_inst_updated = (\<lambda>k _ is. List.insert k is), ix_inst_deleted = (\<lambda>k _ is. removeAll k is),
     ix_inst_find = (\<lambda>is c. filter (\<lambda>k. inst_cloudlet k = c) is)\<rparr>"

definition demo_fo_ext :: ext where
  "demo_fo_ext = demo_ext\<lparr>x_cloudlet_online := (\<lambda>c. c_maintenance c = Normal_Operation)\<rparr>"

definition demo_fo_cloudlet :: "maintenance_state \<Rightarrow> cloudlet" where
  "demo_fo_cloudlet m = \<lparr>c_key = \<lparr>cl_org = ''o'', cl_name = ''c'', cl_fed_org = ''''\<rparr>,
     c_maintenance = m, c_state = 5\<rparr>"

definition demo_fo_app :: "string \<Rightarrow> app_key" where
  "demo_fo_app n = \<lparr>app_org = ''dev'', app_name = n, app_version = ''1''\<rparr>"

definition demo_fo_state :: "(policy_key list, app_key list, app_inst_key list) checker \<times> api_state" where
  "demo_fo_state =
     (updated_cloudlet demo_fo_ext demo_indexes (Some (demo_fo_cloudlet Normal_Operation))
        (demo_fo_cloudlet Failover_Requested)
        (new_checker [\<lparr>pk_org = ''dev'', pk_name = ''p''\<rparr>] [demo_fo_app ''a'', demo_fo_app ''b''] []),
      \<lparr>api_failures = [], api_events = []\<rparr>)"

lemmas demo_fo_simps = demo_fo_state_def demo_indexes_def demo_fo_ext_def demo_fo_cloudlet_def
  demo_fo_app_def updated_cloudlet_def handle_failover_req_def cloudlet_needs_check_def
  new_checker_def needs_work_def send_info_def Let_def

lemma demo_fo_reach: "ck_reach demo_fo_ext demo_indexes demo_fo_state"
  unfolding demo_fo_state_def by (rule ck_reach.step[OF ck_reach.start ck_step.cloudlet_updated])

lemma demo_fo_pending:
  "map_of (ck_requests (fst demo_fo_state)) \<lparr>cl_org = ''o'', cl_name = ''c'', cl_fed_org = ''''\<rparr> =
   Some \<lparr>fr_info = \<lparr>pi_key = \<lparr>cl_org = ''o'', cl_name = ''c'', cl_fed_org = ''''\<rparr>,
     pi_maintenance = Normal_Operation, pi_completed = [], pi_errors = []\<rparr>,
     fr_apps = [demo_fo_app ''a'', demo_fo_app ''b'']\<rparr>"
  by (simp add: demo_fo_simps)

text \<open>
  C30 (failover\_table\_invariant): in every state the checker can reach, a pending failover
  request is stored under its own Cloudlet, waits for at least one App and for no App twice, and
  every answer sent so far says \<open>FAILOVER_DONE\<close> exactly when it carries no error and
  \<open>FAILOVER_ERROR\<close> otherwise.
\<close>

theorem failover_table_invariant:
  assumes "ck_reach x ix sa"
  shows "distinct (gkeys (ck_requests (fst sa))) \<and>
    (\<forall>(c, r)\<in>set (ck_requests (fst sa)). pi_key (fr_info r) = c \<and> fr_apps r \<noteq> [] \<and> distinct (fr_apps r)) \<and>
    (\<forall>i\<in>set (ck_replies (fst sa)).
       pi_maintenance i = (if pi_errors i = [] then Failover_Done else Failover_Error))"
  using ck_reach_ok[OF assms]
  by (auto simp: checker_ok_def list_all_iff good_request_def good_reply_def)

theorem failover_table_invariant_witness:
  "distinct (gkeys (ck_requests (fst demo_fo_state))) \<and> length (ck_requests (fst demo_fo_state)) = 1"
  using failover_table_invariant[OF demo_fo_reach] by (simp add: demo_fo_simps)

text \<open>
  C4 (failover\_answered\_once): a pending request is answered exactly once, and not before every
  App it waits for has been checked.  Let checks of Apps, in any order, under any cache contents and
  any behaviour of the controller, and any other callbacks of the checker run in between, each as one
  step.  As long as Apps of the request are unchecked it stays in the table, waiting for exactly
  those, and no answer for its Cloudlet is sent; once all have been checked it has left the table
  and exactly one answer has been sent.  Only an update of the Cloudlet itself that asks for
  failover again is left out: it may answer early, see the Note failover\_done\_while\_pending.
\<close>

theorem failover_answered_once:
  assumes "ck_reach x ix sa" and "map_of (ck_requests (fst sa)) c = Some r"
    and "fo_run x ix c sa ks sa'"
  shows "\<exists>new. ck_replies (fst sa') = ck_replies (fst sa) @ new \<and>
    (if set (fr_apps r) \<subseteq> set ks
     then map_of (ck_requests (fst sa')) c = None \<and> length (filter (\<lambda>i. pi_key i = c) new) = 1
     else (\<exists>r'. map_of (ck_requests (fst sa')) c = Some r' \<and>
                fr_apps r' = filter (\<lambda>k. k \<notin> set ks) (fr_apps r)) \<and>
          (\<forall>i\<in>set new. pi_key i \<noteq> c))"
proof -
  have w: "waiting_for ks r = [] \<longleftrightarrow> set (fr_apps r) \<subseteq> set ks"
    by (auto simp: waiting_for_def filter_empty_conv)
  have "request_after c r (fst sa) ks (fst sa')"
    using fo_run_after[OF assms(3) ck_reach_ok[OF assms(1)] assms(2)] by simp
  from this[unfolded request_after_def w filter_empty_conv] show ?thesis
    by (simp only: waiting_for_def)
qed

text \<open>The two Apps of the request are checked; the Cloudlet's request is answered at the second one only.\<close>

abbreviation demo_fo_check ::
    "string \<Rightarrow> (policy_key list, app_key list, app_inst_key list) checker \<times> api_state
       \<Rightarrow> (policy_key list, app_key list, app_inst_key list) checker \<times> api_state" where
  "demo_fo_check n \<equiv> check_app demo_fo_ext empty_caches (\<lambda>_ _ _ _. None) insertion_sort
     (new_auto_prov_aggr 1 1) (demo_fo_app n)"

theorem failover_answered_once_witness:
  "filter (\<lambda>i. pi_key i = \<lparr>cl_org = ''o'', cl_name = ''c'', cl_fed_org = ''''\<rparr>)
     (ck_replies (fst (demo_fo_check ''b'' demo_fo_state))) = [] \<and>
   length (filter (\<lambda>i. pi_key i = \<lparr>cl_org = ''o'', cl_name = ''c'', cl_fed_org = ''''\<rparr>)
     (ck_replies (fst (demo_fo_check ''a'' (demo_fo_check ''b'' demo_fo_state))))) = 1"
proof -
  let ?c = "\<lparr>cl_org = ''o'', cl_name = ''c'', cl_fed_org = ''''\<rparr>"
  note one = fo_run.check[OF fo_run.start, of demo_fo_ext demo_indexes ?c demo_fo_state "demo_fo_app ''b''"]
  note two = fo_run.check[OF one, where k = "demo_fo_app ''a''"]
  have none: "ck_replies (fst demo_fo_state) = []" by (simp add: demo_fo_simps)
  have "filter (\<lambda>i. pi_key i = ?c) (ck_replies (fst (demo_fo_check ''b'' demo_fo_state))) = []"
    using failover_answered_once[OF demo_fo_reach demo_fo_pending one]
    by (fastforce simp: none demo_fo_app_def filter_empty_conv)
  moreover have "length (filter (\<lambda>i. pi_key i = ?c)
      (ck_replies (fst (demo_fo_check ''a'' (demo_fo_check ''b'' demo_fo_state))))) = 1"
    using failover_answered_once[OF demo_fo_reach demo_fo_pending two]
    by (fastforce simp: none)
  ultimately show ?thesis by blast
qed

text \<open>
  Note (check\_app\_updates\_request): what one \<open>CheckApp\<close> does to a pending request.  A request that
  does not wait for the App is untouched and not answered; a request that also waits for other
  Apps keeps waiting for those, collects the messages of the check (creations and errors
  apart) and is not answered; a request that waited for this App alone is answered with
  everything it collected, under its own Cloudlet, and leaves the table.
\<close>

theorem check_app_updates_request:
  assumes "ck_reach x ix (s, st)" and "map_of (ck_requests s) c = Some r"
    and "check_app x ca run srt ag k (s, st) = (s', st')"
    and "ms = check_msgs x ca run srt ag k st"
  shows "\<exists>new. ck_replies s' = ck_replies s @ new \<and>
    (if k \<notin> set (fr_apps r)
     then map_of (ck_requests s') c = Some r \<and> (\<forall>i\<in>set new. pi_key i \<noteq> c)
     else if removeAll k (fr_apps r) \<noteq> []
     then (\<exists>r'. map_of (ck_requests s') c = Some r' \<and> fr_apps r' = removeAll k (fr_apps r) \<and>
             pi_completed (fr_info r') = pi_completed (fr_info r) @ filter is_created ms \<and>
             pi_errors (fr_info r') = pi_errors (fr_info r) @ filter (\<lambda>m. \<not> is_created m) ms) \<and>
          (\<forall>i\<in>set new. pi_key i \<noteq> c)
     else map_of (ck_requests s') c = None \<and>
          (\<exists>i. filter (\<lambda>i. pi_key i = c) new = [i] \<and>
             pi_completed i = pi_completed (fr_info r) @ filter is_created ms \<and>
             pi_errors i = pi_errors (fr_info r) @ filter (\<lambda>m. \<not> is_created m) ms))"
proof -
  have ok: "checker_ok s" using ck_reach_ok[OF assms(1)] by simp
  obtain new where t: "map_of (ck_requests s') c =
       (if k \<notin> set (fr_apps r) then Some r
        else if finished_req k r then None else Some (processed k ms r))"
    and n: "ck_replies s' = ck_replies s @ new"
    and f: "filter (\<lambda>i. pi_key i = c) new =
       (if finished_req k r then [final_info (processed k ms r)] else [])"
    by (rule check_app_one[OF ok, where c = c and x = x and ca = ca and run = run and srt = srt
          and ag = ag and k = k and st = st])
      (simp add: assms(2-4))
  show ?thesis
    using t f by (intro exI[of _ new] conjI n)
      (auto simp: finished_req_def filter_empty_conv final_info_def)
qed

theorem check_app_updates_request_witness:
  "\<exists>s' st'. check_app demo_fo_ext empty_caches (\<lambda>_ _ _ _. None) insertion_sort
      (new_auto_prov_aggr 1 1) (demo_fo_app ''b'') demo_fo_state = (s', st') \<and>
    (\<exists>r'. map_of (ck_requests s') \<lparr>cl_org = ''o'', cl_name = ''c'', cl_fed_org = ''''\<rparr> = Some r' \<and>
       fr_apps r' = [demo_fo_app ''a''])"
proof -
  let ?run = "check_app demo_fo_ext empty_caches (\<lambda>_ _ _ _. None) insertion_sort
      (new_auto_prov_aggr 1 1) (demo_fo_app ''b'') demo_fo_state"
  obtain s' st' where r: "?run = (s', st')" by (cases ?run)
  have "ck_reach demo_fo_ext demo_indexes (fst demo_fo_state, snd demo_fo_state)"
    using demo_fo_reach by simp
  from check_app_updates_request[OF this demo_fo_pending _ refl, of _ _ _ _ _ s' st'] r
  show ?thesis by (fastforce simp: demo_fo_app_def)
qed

text \<open>
  Note (failover\_done\_while\_pending): as the code is written, a later update of a Cloudlet whose
  failover request is pending, with no change of its online status, answers the request with
  \<open>FAILOVER_DONE\<close> and no result at once, although none of its Apps has been checked; the
  request stays in the table, to be answered a second time.
\<close>

theorem failover_done_while_pending:
  "let s = fst demo_fo_state;
       cl = demo_fo_cloudlet Failover_Requested;
       s' = updated_cloudlet demo_fo_ext demo_indexes (Some cl) (cl\<lparr>c_state := 6\<rparr>) s
   in ck_reach demo_fo_ext demo_indexes (s', snd demo_fo_state) \<and>
      ck_replies s = [] \<and>
      map (\<lambda>i. (pi_key i, pi_maintenance i, pi_completed i)) (ck_replies s') =
        [(c_key cl, Failover_Done, [])] \<and>
      map_option fr_apps (map_of (ck_requests s') (c_key cl)) =
        Some [demo_fo_app ''a'', demo_fo_app ''b'']"
proof -
  have "ck_reach demo_fo_ext demo_indexes
     (updated_cloudlet demo_fo_ext demo_indexes (Some (demo_fo_cloudlet Failover_Requested))
        (demo_fo_cloudlet Failover_Requested\<lparr>c_state := 6\<rparr>) (fst demo_fo_state), snd demo_fo_state)"
    by (rule ck_reach.step[OF _ ck_step.cloudlet_updated]) (simp add: demo_fo_reach)
  then show ?thesis unfolding Let_def by (simp add: demo_fo_simps)
qed

end
