(* ===== verification/AutoProv_Alerts.thy ===== *)
theory AutoProv_Alerts
  imports AutoProv_Retry
begin

text \<open>
  Alerts in the AutoProv service: the dispatch of \<open>src/autoprov/alerthandler.go\<close>, the cluster
  autoscaling of \<open>src/autoprov/autoscale.go\<close>, and the rules of \<open>src/autoprov/autorules\<close> that
  raise those alerts.  The names of alerts, labels and annotations are constants of the
  edge-cloud library and so a parameter, as is the answer of the Controller to
  \<open>UpdateClusterInst\<close>.
\<close>

record alert_names =
  an_cluster_autoscale :: string
  an_autoscale_up :: string
  an_autoscale_down :: string
  an_auto_undeploy :: string
  an_node_count :: string
  an_low_cpu_node_count :: string
  an_min_nodes :: string
  tag_app_org :: string
  tag_app_name :: string
  tag_app_version :: string
  tag_cluster :: string
  tag_cluster_org :: string
  tag_cloudlet :: string
  tag_cloudlet_org :: string

subsection \<open>alerthandler.go\<close>

text \<open>What \<open>alertChanged\<close> starts: nothing, work for the autoscale workers, or the undeploy thread.\<close>

datatype alert_effect = No_Effect | Autoscale_Work alert | Undeploy_Thread alert

definition alert_copy :: "alert \<Rightarrow> alert" where
  "alert_copy a = a\<lparr>al_labels := (\<lambda>k. case al_labels a k of None \<Rightarrow> al_labels a k | Some v \<Rightarrow> Some v),
     al_annotations := (\<lambda>k. case al_annotations a k of None \<Rightarrow> al_annotations a k | Some v \<Rightarrow> Some v)\<rparr>"

definition alert_changed :: "alert_names \<Rightarrow> alert option \<Rightarrow> alert_effect" where
  "alert_changed an new =
     (case new of
        None \<Rightarrow> No_Effect
      | Some al \<Rightarrow>
          (case al_labels al ''alertname'' of
             None \<Rightarrow> No_Effect
           | Some name \<Rightarrow>
               if name = an_cluster_autoscale an \<or> name = an_autoscale_up an
                  \<or> name = an_autoscale_down an
               then Autoscale_Work al
               else if name = an_auto_undeploy an then Undeploy_Thread (alert_copy al)
               else No_Effect))"

definition alert_cluster_inst :: "alert_names \<Rightarrow> alert \<Rightarrow> cluster_inst_key" where
  "alert_cluster_inst an al =
     \<lparr>ci_cluster = tag (al_labels al) (tag_cluster an),
      ci_cloudlet = \<lparr>cl_org = tag (al_labels al) (tag_cloudlet_org an),
                     cl_name = tag (al_labels al) (tag_cloudlet an), cl_fed_org = ''''\<rparr>,
      ci_org = tag (al_labels al) (tag_cluster_org an)\<rparr>"

definition auto_undeploy ::
    "ext \<Rightarrow> api_run \<Rightarrow> alert_names \<Rightarrow> alert \<Rightarrow> api_state \<Rightarrow> api_state" where
  "auto_undeploy x run an al st =
     (if al_state al \<noteq> ''firing'' then st
      else snd (go_app_inst_api x run
        \<lparr>ai_app = \<lparr>app_org = tag (al_labels al) (tag_app_org an),
                   app_name = tag (al_labels al) (tag_app_name an),
                   app_version = tag (al_labels al) (tag_app_version an)\<rparr>,
         ai_cluster_inst = alert_cluster_inst an al\<rparr>
        Delete Reason_Demand '''' st))"

subsection \<open>autoscale.go\<close>

datatype scale_error = Bad_Node_Count string | Bad_Low_Cpu string | Bad_Min_Nodes string

text \<open>
  Node counts are Go \<open>int\<close>s of 64 bits that \<open>uint32(..)\<close> cuts to 32; \<open>go_int\<close> is the
  wrap-around of a 64-bit result.
\<close>

definition go_int :: "int \<Rightarrow> int" where
  "go_int i = sint (word_of_int i :: 64 word)"

definition get_cluster_inst_to_scale ::
    "alert_names \<Rightarrow> string \<Rightarrow> alert \<Rightarrow> scale_error + cluster_inst_key \<times> 32 word" where
  "get_cluster_inst_to_scale an name al =
     (let inst = alert_cluster_inst an al in
      if name = an_cluster_autoscale an then Inr (inst, word_of_int (al_value al))
      else
        let nodecount_str = tag (al_annotations al) (an_node_count an) in
        case strconv_atoi nodecount_str of
          None \<Rightarrow> Inl (Bad_Node_Count nodecount_str)
        | Some nodecount \<Rightarrow>
            if name = an_autoscale_up an then Inr (inst, word_of_int (go_int (nodecount + 1)))
            else
              let low_str = tag (al_annotations al) (an_low_cpu_node_count an) in
              case strconv_atoi low_str of
                None \<Rightarrow> Inl (Bad_Low_Cpu low_str)
              | Some lowcount \<Rightarrow>
                  let min_str = tag (al_annotations al) (an_min_nodes an) in
                  case strconv_atoi min_str of
                    None \<Rightarrow> Inl (Bad_Min_Nodes min_str)
                  | Some min_nodes \<Rightarrow>
                      let new_count = go_int (nodecount - lowcount);
                          new_count' = (if new_count < min_nodes then min_nodes else new_count)
                      in Inr (inst, word_of_int new_count'))"

text \<open>
  \<open>scaleClusterInst\<close>: the answer of the Controller (dialling, the call and the stream) is a
  parameter; an event is logged when it is not an error.
\<close>

record scale_state =
  sc_calls :: "(cluster_inst_key \<times> 32 word) list"
  sc_events :: "(string \<times> string \<times> cluster_inst_key \<times> string) list"
  sc_queue :: nat   \<comment> \<open>how often the key was handed back to the workers\<close>

type_synonym scale_run = "cluster_inst_key \<Rightarrow> 32 word \<Rightarrow> string option"

definition scale_cluster_inst ::
    "scale_run \<Rightarrow> string \<Rightarrow> cluster_inst_key \<times> 32 word \<Rightarrow> scale_state \<Rightarrow> string option \<times> scale_state" where
  "scale_cluster_inst run name inst s =
     (let s1 = s\<lparr>sc_calls := sc_calls s @ [inst]\<rparr>;
          err = run (fst inst) (snd inst)
      in (err, if err = None
               then s1\<lparr>sc_events := sc_events s1 @
                      [(name @ '' ClusterInst'', ci_org (fst inst), fst inst,
                        strconv_itoa (int (unat (snd inst))))]\<rparr>
               else s1))"

definition run_auto_scale ::
    "alert_names \<Rightarrow> (cluster_inst_key \<Rightarrow> string) \<Rightarrow> scale_run \<Rightarrow> alert option \<Rightarrow> scale_state \<Rightarrow> scale_state" where
  "run_auto_scale an not_found run alert s =
     (case alert of
        None \<Rightarrow> s
      | Some al \<Rightarrow>
          if al_state al \<noteq> ''firing'' then s
          else
            let name = tag (al_labels al) ''alertname'' in
            case get_cluster_inst_to_scale an name al of
              Inl _ \<Rightarrow> s
            | Inr cinst \<Rightarrow>
                let (err, s1) = scale_cluster_inst run name cinst s in
                if err \<noteq> None \<and> err \<noteq> Some (not_found (fst cinst))
                then s1\<lparr>sc_queue := sc_queue s1 + 1\<rparr> else s1)"

subsection \<open>autorules\<close>

record undeploy_rule =
  ru_alert :: string
  ru_expr :: string
  ru_for :: int            \<comment> \<open>nanoseconds, a signed 64-bit \<open>time.Duration\<close>\<close>

text \<open>\<open>GetAutoUndeployRules\<close>; the deploy interval is a float64 setting, here truncated to seconds.\<close>

definition get_auto_undeploy_rules ::
    "alert_names \<Rightarrow> int \<Rightarrow> app_key \<Rightarrow> policy \<Rightarrow> (string \<times> string \<times> undeploy_rule list) option" where
  "get_auto_undeploy_rules an interval_sec a p =
     (if p_undeploy_client_count p = 0 then None
      else Some (''autoprov-feature'', pk_org (p_key p),
        [\<lparr>ru_alert = an_auto_undeploy an,
          ru_expr = ''envoy_cluster_upstream_cx_active{'' @
            tag_app_name an @ ''=\"'' @ app_name a @ ''\",'' @
            tag_app_version an @ ''=\"'' @ app_version a @ ''\",'' @
            tag_app_org an @ ''=\"'' @ app_org a @
            ''\"} <= '' @ strconv_itoa (int (unat (p_undeploy_client_count p))),
          ru_for = go_int (1000000000 *
            go_int (int (unat (p_undeploy_interval_count p)) * interval_sec))\<rparr>]))"

text \<open>\<open>GetAutoScaleRules\<close>: the arguments of the template; the rendering is the template library's.\<close>

record auto_scale_args =
  asa_policy :: string
  asa_averaging :: string
  asa_stabilization :: string

definition stabilization_window :: "32 word \<Rightarrow> 32 word \<Rightarrow> 32 word \<Rightarrow> 32 word" where
  "stabilization_window stab trigger default_window =
     (if stab = 0 then (if trigger = 0 then default_window else trigger) else stab)"

definition get_auto_scale_rules ::
    "(auto_scale_args \<Rightarrow> string + string) \<Rightarrow> 32 word \<Rightarrow> string \<Rightarrow> 32 word \<Rightarrow> 32 word \<Rightarrow> int \<Rightarrow> string + string" where
  "get_auto_scale_rules render default_window name stab trigger averaging =
     (case render
         \<lparr>asa_policy = name, asa_averaging = ''['' @ strconv_itoa averaging @ ''s]'',
          asa_stabilization = ''['' @
            strconv_itoa (int (unat (stabilization_window stab trigger default_window))) @ ''s]''\<rparr> of
        Inl e \<Rightarrow> Inl e
      | Inr rules \<Rightarrow> Inr rules)"

subsection \<open>Properties\<close>

definition demo_names :: alert_names where
  "demo_names = \<lparr>an_cluster_autoscale = ''AlertClusterAutoScale'', an_autoscale_up = ''AutoScaleUp'',
     an_autoscale_down = ''AutoScaleDown'', an_auto_undeploy = ''AutoProvUndeploy'',
     an_node_count = ''nodecount'', an_low_cpu_node_count = ''lowcpunodecount'', an_min_nodes = ''minnodes'',
     tag_app_org = ''apporg'', tag_app_name = ''app'', tag_app_version = ''appver'',
     tag_cluster = ''cluster'', tag_cluster_org = ''clusterorg'', tag_cloudlet = ''cloudlet'',
     tag_cloudlet_org = ''cloudletorg''\<rparr>"

definition demo_alert :: "string \<Rightarrow> alert" where
  "demo_alert name = \<lparr>al_labels = [''alertname'' \<mapsto> name, ''cluster'' \<mapsto> ''k1'', ''clusterorg'' \<mapsto> ''dev''],
     al_annotations = [''nodecount'' \<mapsto> ''5'', ''lowcpunodecount'' \<mapsto> ''4'', ''minnodes'' \<mapsto> ''2''],
     al_state = ''firing'', al_value = 3\<rparr>"

lemma go_int_id: "- (2 ^ 63) \<le> i \<Longrightarrow> i < 2 ^ 63 \<Longrightarrow> go_int i = i"
  by (simp add: go_int_def int_word_sint)

lemma demo_atoi: "strconv_atoi ''5'' = Some 5" "strconv_atoi ''4'' = Some 4" "strconv_atoi ''2'' = Some 2"
  by (simp_all add: strconv_atoi_def char_digit_def)

text \<open>
  Note (autoscale\_down\_count): a scale-down alert for a cluster of \<open>n\<close> nodes of which \<open>low\<close> are
  idle asks for \<open>n - low\<close> nodes, but never for fewer than the policy's minimum; the 64-bit and
  32-bit conversions of the code lose nothing when the annotations are 32-bit counts.
\<close>

theorem autoscale_down_count:
  assumes "name \<noteq> an_cluster_autoscale an" and "name \<noteq> an_autoscale_up an"
    and "strconv_atoi (tag (al_annotations al) (an_node_count an)) = Some n"
    and "strconv_atoi (tag (al_annotations al) (an_low_cpu_node_count an)) = Some low"
    and "strconv_atoi (tag (al_annotations al) (an_min_nodes an)) = Some m"
    and "0 \<le> n" "n < 2 ^ 32" "0 \<le> low" "low < 2 ^ 32" "0 \<le> m" "m < 2 ^ 32"
  shows "\<exists>nodes. get_cluster_inst_to_scale an name al = Inr (alert_cluster_inst an al, nodes) \<and>
    int (unat nodes) = max (n - low) m"
proof -
  have "go_int (n - low) = n - low" using assms(6-9) by (intro go_int_id) auto
  then have eq: "get_cluster_inst_to_scale an name al =
      Inr (alert_cluster_inst an al, word_of_int (max (n - low) m))"
    using assms(1-5) by (simp add: get_cluster_inst_to_scale_def Let_def max_def)
  have "0 \<le> max (n - low) m" "max (n - low) m < 2 ^ 32" using assms(6-11) by auto
  then have "int (unat (word_of_int (max (n - low) m) :: 32 word)) = max (n - low) m"
    by (simp add: uint_word_of_int_eq take_bit_int_eq_self)
  then show ?thesis using eq by blast
qed

theorem autoscale_down_count_witness:
  "\<exists>nodes. get_cluster_inst_to_scale demo_names ''AutoScaleDown'' (demo_alert ''AutoScaleDown'') =
      Inr (alert_cluster_inst demo_names (demo_alert ''AutoScaleDown''), nodes) \<and>
     int (unat nodes) = 2"
  using autoscale_down_count[of "''AutoScaleDown''" demo_names "demo_alert ''AutoScaleDown''" 5 4 2]
  by (simp add: demo_names_def demo_alert_def tag_def demo_atoi)

text \<open>
  The worker runs the key again as long as it is handed back; \<open>tries\<close> lists what each attempt
  finds in the alert cache and how the Controller answers it.
\<close>

fun autoscale_tries ::
    "alert_names \<Rightarrow> (cluster_inst_key \<Rightarrow> string) \<Rightarrow> (alert option \<times> scale_run) list \<Rightarrow> scale_state \<Rightarrow> scale_state" where
  "autoscale_tries an nf [] s = s"
| "autoscale_tries an nf ((al, run) # tries) s =
     (let s1 = run_auto_scale an nf run al s in
      if sc_queue s1 = sc_queue s then s1 else autoscale_tries an nf tries s1)"

lemma run_auto_scale_firing:
  assumes "al_state al = ''firing''"
    and "get_cluster_inst_to_scale an (tag (al_labels al) ''alertname'') al = Inr inst"
  shows "sc_queue (run_auto_scale an nf run (Some al) s) = sc_queue s +
      (if run (fst inst) (snd inst) \<in> {None, Some (nf (fst inst))} then 0 else 1)"
    and "sc_calls (run_auto_scale an nf run (Some al) s) = sc_calls s @ [inst]"
    and "length (sc_events (run_auto_scale an nf run (Some al) s)) = length (sc_events s) +
      (if run (fst inst) (snd inst) = None then 1 else 0)"
  using assms by (simp_all add: run_auto_scale_def scale_cluster_inst_def Let_def)

text \<open>
  Note (autoscale\_retries\_until\_done): while an alert is firing, the scaling call is repeated as
  long as it fails, with the same ClusterInst and node count, and stops after the first answer
  that is a success or says that the ClusterInst is gone; only a success is logged as an event.
\<close>

theorem autoscale_retries_until_done:
  assumes "al_state al = ''firing''"
    and "get_cluster_inst_to_scale an (tag (al_labels al) ''alertname'') al = Inr inst"
    and "\<forall>run\<in>set fails. run (fst inst) (snd inst) \<notin> {None, Some (nf (fst inst))}"
    and "ok (fst inst) (snd inst) \<in> {None, Some (nf (fst inst))}"
  shows "let s' = autoscale_tries an nf (map (Pair (Some al)) (fails @ ok # rest)) s in
    sc_calls s' = sc_calls s @ replicate (length fails + 1) inst \<and>
    length (sc_events s') = length (sc_events s) + (if ok (fst inst) (snd inst) = None then 1 else 0)"
  using assms(3)
proof (induction fails arbitrary: s)
  case Nil
  then show ?case
    using assms(4) run_auto_scale_firing[OF assms(1,2), of nf ok s] by (simp add: Let_def)
next
  case (Cons run fails)
  let ?s1 = "run_auto_scale an nf run (Some al) s"
  have "run (fst inst) (snd inst) \<notin> {None, Some (nf (fst inst))}" using Cons.prems by simp
  then have "sc_queue ?s1 \<noteq> sc_queue s" "sc_calls ?s1 = sc_calls s @ [inst]"
      "length (sc_events ?s1) = length (sc_events s)"
    using run_auto_scale_firing[OF assms(1,2), of nf run s] by auto
  then show ?case using Cons.IH[of ?s1] Cons.prems by (simp add: Let_def)
qed

theorem autoscale_retries_until_done_witness:
  "\<exists>inst. sc_calls (autoscale_tries demo_names (\<lambda>_. ''not found'')
      (map (Pair (Some (demo_alert ''AutoScaleUp'')))
        ([\<lambda>_ _. Some ''busy'', \<lambda>_ _. Some ''busy''] @ (\<lambda>_ _. None) # []))
      \<lparr>sc_calls = [], sc_events = [], sc_queue = 0\<rparr>) = [inst, inst, inst]"
proof -
  let ?al = "demo_alert ''AutoScaleUp''"
  obtain inst where inst: "get_cluster_inst_to_scale demo_names (tag (al_labels ?al) ''alertname'') ?al = Inr inst"
    by (simp add: get_cluster_inst_to_scale_def Let_def demo_names_def demo_alert_def tag_def demo_atoi)
  have firing: "al_state ?al = ''firing''" by (simp add: demo_alert_def)
  show ?thesis
    using autoscale_retries_until_done[OF firing inst, of
        "[\<lambda>_ _. Some ''busy'', \<lambda>_ _. Some ''busy'']" "\<lambda>_. ''not found''" "\<lambda>_ _. None" "[]"
        "\<lparr>sc_calls = [], sc_events = [], sc_queue = 0\<rparr>"]
    by (auto simp: Let_def numeral_3_eq_3 eval_nat_numeral)
qed

end
