(* ===== verification/VMPool_Spec.thy ===== *)
theory VMPool_Spec
  imports Prelude
begin

text \<open>
  The VM pool of the vmpool platform, \<open>src/crm-platforms/vmpool/vmpool-vmspec.go\<close>: the choice of
  a free VM for a spec, and the marking of VMs for allocation and release.  What the two
  markings promise to their callers is the locale \<open>vm_marker\<close>, interpreted here on both.
  \<open>vmspec.GetVMSpec\<close>, of the edge-cloud library, is a parameter.
\<close>

subsection \<open>Data\<close>

datatype vm_state = VM_Free | VM_In_Progress | VM_In_Use | VM_Other nat

record flavor_info =
  fl_name :: string
  fl_ram :: "64 word"
  fl_vcpus :: "64 word"
  fl_disk :: "64 word"
  fl_props :: "string \<rightharpoonup> string"

record vm =
  vm_name :: string
  vm_external_ip :: string
  vm_internal_ip :: string
  vm_group :: string
  vm_internal_name :: string
  vm_state :: vm_state
  vm_flavor :: "flavor_info option"   \<comment> \<open>a Go pointer, possibly nil\<close>
  vm_updated_at :: int

record vm_spec =
  sp_internal_name :: string
  sp_external_network :: bool
  sp_internal_network :: bool
  sp_flavor :: flavor_info            \<comment> \<open>name, RAM, VCPUs, disk and resource map of the wanted flavor\<close>

text \<open>\<open>vmspec.GetVMSpec\<close>: the name of the flavor to use, or an error.\<close>

type_synonym get_vm_spec = "flavor_info \<Rightarrow> flavor_info list \<Rightarrow> string + string"

subsection \<open>getFlavorBasedVM\<close>

text \<open>The search loop: the list without the first VM of that flavor, and the VM's name.\<close>

fun take_vm_of_flavor :: "string \<Rightarrow> vm list \<Rightarrow> (vm list \<times> string) option go" where
  "take_vm_of_flavor fname [] = Returns None"
| "take_vm_of_flavor fname (v # vs) =
     (case vm_flavor v of
        None \<Rightarrow> Panics
      | Some f \<Rightarrow>
          if fl_name f \<noteq> fname
          then go_bind (take_vm_of_flavor fname vs)
                 (\<lambda>r. Returns (map_option (\<lambda>(rest, n). (v # rest, n)) r))
          else Returns (Some (vs, vm_name v)))"

definition get_flavor_based_vm :: "get_vm_spec \<Rightarrow> vm list \<Rightarrow> vm_spec \<Rightarrow> (vm list \<times> string) go" where
  "get_flavor_based_vm gs vms spec =
     (case gs (sp_flavor spec) (List.map_filter vm_flavor vms) of
        Inl e \<Rightarrow> Fails e
      | Inr fname \<Rightarrow>
          go_bind (take_vm_of_flavor fname vms)
            (\<lambda>r. case r of
                Some res \<Rightarrow> Returns res
              | None \<Rightarrow> Fails (''Unable to find a VM with matching flavor '' @ fl_name (sp_flavor spec))))"

subsection \<open>markVMsForAllocation\<close>

record vm_groups =
  g_both :: "vm list"
  g_internal :: "vm list"
  g_external :: "vm list"

definition free_vms :: "vm list \<Rightarrow> vm list" where
  "free_vms vms = filter (\<lambda>v. vm_state v = VM_Free) vms"

definition group_vms :: "vm list \<Rightarrow> vm_groups" where
  "group_vms vms =
     \<lparr>g_both = filter (\<lambda>v. vm_external_ip v \<noteq> '''' \<and> vm_internal_ip v \<noteq> '''') (free_vms vms),
      g_internal = filter (\<lambda>v. vm_external_ip v = '''' \<and> vm_internal_ip v \<noteq> '''') (free_vms vms),
      g_external = filter (\<lambda>v. vm_external_ip v \<noteq> '''' \<and> vm_internal_ip v = '''') (free_vms vms)\<rparr>"

definition select_vm :: "get_vm_spec \<Rightarrow> vm_spec \<Rightarrow> vm_groups \<Rightarrow> (vm_groups \<times> string) go" where
  "select_vm gs spec g =
     (let from_both = go_bind (get_flavor_based_vm gs (g_both g) spec)
            (\<lambda>(vs, n). Returns (g\<lparr>g_both := vs\<rparr>, n)) in
      if sp_external_network spec \<and> sp_internal_network spec then
        if g_both g = []
        then Fails ''Unable to find a free VM with both external and internal network connectivity''
        else from_both
      else if sp_external_network spec then
        if g_external g = [] then
          if g_both g = [] then Fails ''Unable to find a free VM with external network connectivity''
          else from_both
        else go_bind (get_flavor_based_vm gs (g_external g) spec)
               (\<lambda>(vs, n). Returns (g\<lparr>g_external := vs\<rparr>, n))
      else
        if g_internal g = [] then
          if g_both g = [] then Fails ''Unable to find a free VM with internal network connectivity''
          else from_both
        else go_bind (get_flavor_based_vm gs (g_internal g) spec)
               (\<lambda>(vs, n). Returns (g\<lparr>g_internal := vs\<rparr>, n)))"

fun select_vms ::
    "get_vm_spec \<Rightarrow> vm_spec list \<Rightarrow> vm_groups \<Rightarrow> (string, string) gmap \<Rightarrow> (string, string) gmap go" where
  "select_vms gs [] g selected = Returns selected"
| "select_vms gs (spec # specs) g selected =
     go_bind (select_vm gs spec g)
       (\<lambda>(g', found). if found = '''' then Fails ''Unable to find a VM from the pool with required spec''
          else select_vms gs specs g' (gput found (sp_internal_name spec) selected))"

text \<open>
  The marking loop over the pool: the new pool and the marked VMs by name.  \<open>now ii\<close> is the time
  read at index \<open>ii\<close>.
\<close>

fun mark_vms :: "(nat \<Rightarrow> vm \<Rightarrow> vm option) \<Rightarrow> nat \<Rightarrow> vm list \<Rightarrow> vm list \<times> (string, vm) gmap \<Rightarrow> vm list \<times> (string, vm) gmap" where
  "mark_vms f ii [] (done, marked) = (done, marked)"
| "mark_vms f ii (v # vs) (done, marked) =
     (case f ii v of
        None \<Rightarrow> mark_vms f (Suc ii) vs (done @ [v], marked)
      | Some v' \<Rightarrow> mark_vms f (Suc ii) vs (done @ [v'], gput (vm_name v') v' marked))"

definition mark_vms_for_allocation ::
    "get_vm_spec \<Rightarrow> (nat \<Rightarrow> int) \<Rightarrow> string \<Rightarrow> vm list \<Rightarrow> vm_spec list \<Rightarrow> (vm list \<times> (string, vm) gmap) go" where
  "mark_vms_for_allocation gs now grp pool specs =
     (let free_count = length (free_vms pool) in
      if free_count < length specs
      then Fails (''Failed to meet VM requirement, required VMs = '' @ strconv_itoa (int (length specs))
                  @ '', free VMs available = '' @ strconv_itoa (int free_count))
      else
        go_bind (select_vms gs specs (group_vms pool) [])
          (\<lambda>selected. Returns (mark_vms
             (\<lambda>ii v. case map_of selected (vm_name v) of
                None \<Rightarrow> None
              | Some n \<Rightarrow> Some (v\<lparr>vm_state := VM_In_Progress, vm_group := grp,
                                  vm_internal_name := n, vm_updated_at := now ii\<rparr>))
             0 pool ([], []))))"

subsection \<open>markVMsForRelease\<close>

fun select_release ::
    "string \<Rightarrow> (string \<Rightarrow> bool) \<Rightarrow> vm list \<Rightarrow> string list \<Rightarrow> string list go" where
  "select_release grp wanted [] selected = Returns selected"
| "select_release grp wanted (v # vs) selected =
     (if grp \<noteq> vm_group v then select_release grp wanted vs selected
      else if vm_state v = VM_In_Progress
      then Fails (''Unable to release VM '' @ vm_internal_name v @ '' as it is busy'')
      else if wanted (vm_internal_name v)
      then select_release grp wanted vs (List.insert (vm_name v) selected)
      else select_release grp wanted vs selected)"

definition mark_vms_for_release ::
    "(nat \<Rightarrow> int) \<Rightarrow> string \<Rightarrow> vm list \<Rightarrow> vm_spec list \<Rightarrow> (vm list \<times> (string, vm) gmap) go" where
  "mark_vms_for_release now grp pool specs =
     (let free_all = (length specs = 0);
          vm_names = map sp_internal_name specs
      in go_bind (select_release grp (\<lambda>n. n \<in> set vm_names \<or> free_all) pool [])
           (\<lambda>selected. Returns (mark_vms
              (\<lambda>ii v. if vm_name v \<in> set selected
                      then Some (v\<lparr>vm_state := VM_In_Progress, vm_updated_at := now ii\<rparr>) else None)
              0 pool ([], []))))"

subsection \<open>The marking loop\<close>

lemma gput_fresh: "k \<notin> set (gkeys m) \<Longrightarrow> gput k v m = m @ [(k, v)]"
  by (induction m) auto

text \<open>\<open>marks R S vms vms' marked\<close>: exactly the VMs named in \<open>S\<close> changed, each as \<open>R\<close> says.\<close>

definition marks ::
    "(vm \<Rightarrow> vm \<Rightarrow> bool) \<Rightarrow> string set \<Rightarrow> vm list \<Rightarrow> vm list \<Rightarrow> (string, vm) gmap \<Rightarrow> bool" where
  "marks R S vms vms' marked \<longleftrightarrow>
     list_all2 (\<lambda>v v'. vm_name v' = vm_name v \<and> (if vm_name v \<in> S then R v v' else v' = v)) vms vms' \<and>
     marked = map (\<lambda>v. (vm_name v, v)) (filter (\<lambda>v. vm_name v \<in> S) vms')"

text \<open>What the loop makes of the pool.\<close>

fun outs :: "(nat \<Rightarrow> vm \<Rightarrow> vm option) \<Rightarrow> nat \<Rightarrow> vm list \<Rightarrow> vm list" where
  "outs f ii [] = []"
| "outs f ii (v # vs) = (case f ii v of None \<Rightarrow> v | Some v' \<Rightarrow> v') # outs f (Suc ii) vs"

lemma outs_nth: "i < length vs \<Longrightarrow>
    outs f ii vs ! i = (case f (ii + i) (vs ! i) of None \<Rightarrow> vs ! i | Some v' \<Rightarrow> v')"
  by (induction vs arbitrary: ii i) (auto simp: nth_Cons split: nat.split option.split)

lemma length_outs [simp]: "length (outs f ii vs) = length vs"
  by (induction vs arbitrary: ii) auto

lemma fst_mark_vms: "fst (mark_vms f ii vs (d, m)) = d @ outs f ii vs"
  by (induction vs arbitrary: ii d m) (auto split: option.split)

lemma snd_mark_vms:
  assumes hit: "\<And>i v v'. f i v = Some v' \<Longrightarrow> vm_name v' = vm_name v \<and> vm_name v \<in> S"
    and miss: "\<And>i v. f i v = None \<Longrightarrow> vm_name v \<notin> S"
    and "distinct (map vm_name vs)" and "set (gkeys m) \<inter> vm_name ` set vs = {}"
  shows "snd (mark_vms f ii vs (d, m)) =
     m @ map (\<lambda>v. (vm_name v, v)) (filter (\<lambda>v. vm_name v \<in> S) (outs f ii vs))"
  using assms(3,4)
proof (induction vs arbitrary: d m ii)
  case (Cons v vs)
  show ?case
  proof (cases "f ii v")
    case None
    then show ?thesis using Cons miss[OF None] by simp
  next
    case (Some v')
    have "gput (vm_name v') v' m = m @ [(vm_name v', v')]"
      using Cons.prems hit[OF Some] by (intro gput_fresh) auto
    then show ?thesis using Cons hit[OF Some] Some by auto
  qed
qed simp

lemma mark_vms_marks:
  assumes hit: "\<And>i v v'. f i v = Some v' \<Longrightarrow> vm_name v' = vm_name v \<and> vm_name v \<in> S"
    and miss: "\<And>i v. f i v = None \<Longrightarrow> vm_name v \<notin> S"
    and R: "\<And>i v v'. v \<in> set vs \<Longrightarrow> f i v = Some v' \<Longrightarrow> R v v'"
    and "distinct (map vm_name vs)" and "mark_vms f 0 vs ([], []) = (vs', marked)"
  shows "marks R S vs vs' marked"
proof -
  have vs': "vs' = outs f 0 vs" using fst_mark_vms[of f 0 vs "[]" "[]"] assms(5) by simp
  have "marked = map (\<lambda>v. (vm_name v, v)) (filter (\<lambda>v. vm_name v \<in> S) vs')"
    using snd_mark_vms[of f S vs "[]" 0 "[]", OF hit miss assms(4)] assms(5) vs' by simp
  moreover have "list_all2 (\<lambda>v v'. vm_name v' = vm_name v \<and> (if vm_name v \<in> S then R v v' else v' = v)) vs vs'"
    unfolding list_all2_conv_all_nth vs'
    using hit miss R by (auto simp: outs_nth split: option.split)
  ultimately show ?thesis by (simp add: marks_def)
qed

lemma marks_nth:
  assumes "marks R S pool pool' marked" and "i < length pool"
  shows "length pool' = length pool" and "vm_name (pool' ! i) = vm_name (pool ! i)"
    and "if vm_name (pool ! i) \<in> S then R (pool ! i) (pool' ! i) else pool' ! i = pool ! i"
    and "vm_name (pool ! i) \<in> set (gkeys marked) \<longleftrightarrow> vm_name (pool ! i) \<in> S"
proof -
  have l: "list_all2 (\<lambda>v v'. vm_name v' = vm_name v \<and> (if vm_name v \<in> S then R v v' else v' = v)) pool pool'"
    and k: "set (gkeys marked) = vm_name ` {v \<in> set pool'. vm_name v \<in> S}"
    using assms(1) by (auto simp: marks_def)
  show len: "length pool' = length pool" using l by (auto dest: list_all2_lengthD)
  show name: "vm_name (pool' ! i) = vm_name (pool ! i)"
    and "if vm_name (pool ! i) \<in> S then R (pool ! i) (pool' ! i) else pool' ! i = pool ! i"
    using list_all2_nthD[OF l assms(2)] by auto
  show "vm_name (pool ! i) \<in> set (gkeys marked) \<longleftrightarrow> vm_name (pool ! i) \<in> S"
    using name assms(2) len unfolding k by (auto simp: image_iff intro!: exI[of _ "pool' ! i"])
qed

subsection \<open>Selection\<close>

text \<open>A free VM of the pool that a spec may get.\<close>

definition meets :: "get_vm_spec \<Rightarrow> vm_spec \<Rightarrow> vm \<Rightarrow> bool" where
  "meets gs spec v \<longleftrightarrow> vm_state v = VM_Free \<and>
     (sp_external_network spec \<longrightarrow> vm_external_ip v \<noteq> '''') \<and>
     (sp_internal_network spec \<or> \<not> sp_external_network spec \<longrightarrow> vm_internal_ip v \<noteq> '''') \<and>
     (\<exists>f fls. vm_flavor v = Some f \<and> f \<in> set fls \<and> gs (sp_flavor spec) fls = Inr (fl_name f))"

definition all_groups :: "vm_groups \<Rightarrow> vm list" where
  "all_groups g = g_both g @ g_internal g @ g_external g"

definition groups_ok :: "vm_groups \<Rightarrow> bool" where
  "groups_ok g \<longleftrightarrow> (\<forall>v\<in>set (all_groups g). vm_state v = VM_Free) \<and>
     (\<forall>v\<in>set (g_both g). vm_external_ip v \<noteq> '''' \<and> vm_internal_ip v \<noteq> '''') \<and>
     (\<forall>v\<in>set (g_internal g). vm_internal_ip v \<noteq> '''') \<and>
     (\<forall>v\<in>set (g_external g). vm_external_ip v \<noteq> '''')"

lemma take_vm_of_flavorD:
  "take_vm_of_flavor fname vs = Returns (Some (rest, n)) \<Longrightarrow>
     \<exists>v f. v \<in> set vs \<and> vm_name v = n \<and> vm_flavor v = Some f \<and> fl_name f = fname \<and>
       mset vs = add_mset v (mset rest)"
  by (induction vs arbitrary: rest) (fastforce split: option.splits if_splits)+

lemma get_flavor_based_vmD:
  assumes "get_flavor_based_vm gs vs spec = Returns (rest, n)"
  obtains v f where "v \<in> set vs" "vm_name v = n" "mset vs = add_mset v (mset rest)"
    "vm_flavor v = Some f" "f \<in> set (List.map_filter vm_flavor vs)"
    "gs (sp_flavor spec) (List.map_filter vm_flavor vs) = Inr (fl_name f)"
proof -
  obtain fname where g: "gs (sp_flavor spec) (List.map_filter vm_flavor vs) = Inr fname"
    and t: "take_vm_of_flavor fname vs = Returns (Some (rest, n))"
    using assms by (auto simp: get_flavor_based_vm_def split: sum.splits option.splits)
  obtain v f where v: "v \<in> set vs" "vm_name v = n" "vm_flavor v = Some f" "fl_name f = fname"
      "mset vs = add_mset v (mset rest)"
    using take_vm_of_flavorD[OF t] by blast
  moreover have "f \<in> set (List.map_filter vm_flavor vs)"
    using v by (force simp: map_filter_def)
  ultimately show thesis using that g by blast
qed

lemma select_vmD:
  assumes "select_vm gs spec g = Returns (g', n)" and "groups_ok g"
  obtains v where "vm_name v = n" "meets gs spec v" "mset (all_groups g) = add_mset v (mset (all_groups g'))"
    "groups_ok g'"
proof -
  have sub: "groups_ok (g\<lparr>g_both := vs\<rparr>)" if "mset (g_both g) = add_mset v (mset vs)" for v vs
  proof -
    have "set vs \<subseteq> set (g_both g)" using that by (metis set_mset_add_mset_insert set_mset_mset subset_insertI)
    then show ?thesis using assms(2) by (auto simp: groups_ok_def all_groups_def)
  qed
  have sub_i: "groups_ok (g\<lparr>g_internal := vs\<rparr>)" if "mset (g_internal g) = add_mset v (mset vs)" for v vs
  proof -
    have "set vs \<subseteq> set (g_internal g)" using that by (metis set_mset_add_mset_insert set_mset_mset subset_insertI)
    then show ?thesis using assms(2) by (auto simp: groups_ok_def all_groups_def)
  qed
  have sub_e: "groups_ok (g\<lparr>g_external := vs\<rparr>)" if "mset (g_external g) = add_mset v (mset vs)" for v vs
  proof -
    have "set vs \<subseteq> set (g_external g)" using that by (metis set_mset_add_mset_insert set_mset_mset subset_insertI)
    then show ?thesis using assms(2) by (auto simp: groups_ok_def all_groups_def)
  qed
  have fit: "meets gs spec v"
    if "v \<in> set (all_groups g)" "vm_flavor v = Some f" "f \<in> set fls" "gs (sp_flavor spec) fls = Inr (fl_name f)"
      "sp_external_network spec \<longrightarrow> vm_external_ip v \<noteq> ''''"
      "sp_internal_network spec \<or> \<not> sp_external_network spec \<longrightarrow> vm_internal_ip v \<noteq> ''''" for v f fls
    using that assms(2) unfolding meets_def groups_ok_def by blast
  consider (both) vs where "get_flavor_based_vm gs (g_both g) spec = Returns (vs, n)" "g' = g\<lparr>g_both := vs\<rparr>"
    | (ext) vs where "get_flavor_based_vm gs (g_external g) spec = Returns (vs, n)" "g' = g\<lparr>g_external := vs\<rparr>"
        "sp_external_network spec" "\<not> sp_internal_network spec"
    | (int) vs where "get_flavor_based_vm gs (g_internal g) spec = Returns (vs, n)" "g' = g\<lparr>g_internal := vs\<rparr>"
        "\<not> sp_external_network spec"
    using assms(1) by (auto simp: select_vm_def Let_def split: if_splits)
  then show thesis
  proof cases
    case both
    obtain v f where v: "v \<in> set (g_both g)" "vm_name v = n" "mset (g_both g) = add_mset v (mset vs)"
        "vm_flavor v = Some f" "f \<in> set (List.map_filter vm_flavor (g_both g))"
        "gs (sp_flavor spec) (List.map_filter vm_flavor (g_both g)) = Inr (fl_name f)"
      by (rule get_flavor_based_vmD[OF both(1)])
    have "meets gs spec v"
      using v assms(2) by (intro fit[OF _ v(4-6)]) (auto simp: groups_ok_def all_groups_def)
    with v sub[OF v(3)] both show thesis by (intro that[of v]) (auto simp: all_groups_def)
  next
    case ext
    obtain v f where v: "v \<in> set (g_external g)" "vm_name v = n" "mset (g_external g) = add_mset v (mset vs)"
        "vm_flavor v = Some f" "f \<in> set (List.map_filter vm_flavor (g_external g))"
        "gs (sp_flavor spec) (List.map_filter vm_flavor (g_external g)) = Inr (fl_name f)"
      by (rule get_flavor_based_vmD[OF ext(1)])
    have "meets gs spec v"
      using v assms(2) ext by (intro fit[OF _ v(4-6)]) (auto simp: groups_ok_def all_groups_def)
    with v sub_e[OF v(3)] ext show thesis by (intro that[of v]) (auto simp: all_groups_def)
  next
    case int
    obtain v f where v: "v \<in> set (g_internal g)" "vm_name v = n" "mset (g_internal g) = add_mset v (mset vs)"
        "vm_flavor v = Some f" "f \<in> set (List.map_filter vm_flavor (g_internal g))"
        "gs (sp_flavor spec) (List.map_filter vm_flavor (g_internal g)) = Inr (fl_name f)"
      by (rule get_flavor_based_vmD[OF int(1)])
    have "meets gs spec v"
      using v assms(2) int by (intro fit[OF _ v(4-6)]) (auto simp: groups_ok_def all_groups_def)
    with v sub_i[OF v(3)] int show thesis by (intro that[of v]) (auto simp: all_groups_def)
  qed
qed

lemma select_vmsD:
  assumes "select_vms gs specs g selected = Returns selected'" and "groups_ok g"
    and "distinct (gkeys selected @ map vm_name (all_groups g))"
  shows "\<exists>vs. list_all2 (meets gs) specs vs \<and> mset vs \<subseteq># mset (all_groups g) \<and>
    selected' = selected @ zip (map vm_name vs) (map sp_internal_name specs)"
  using assms
proof (induction specs arbitrary: g selected)
  case Nil
  then show ?case by auto
next
  case (Cons spec specs)
  obtain g1 n where one: "select_vm gs spec g = Returns (g1, n)"
    and rest: "select_vms gs specs g1 (gput n (sp_internal_name spec) selected) = Returns selected'"
    using Cons.prems(1) by (auto split: if_splits)
  obtain v where v: "vm_name v = n" "meets gs spec v" "mset (all_groups g) = add_mset v (mset (all_groups g1))"
      "groups_ok g1"
    by (rule select_vmD[OF one Cons.prems(2)])
  have names: "mset (map vm_name (all_groups g)) = add_mset n (mset (map vm_name (all_groups g1)))"
    using v(1,3) by simp
  have "set (map vm_name (all_groups g)) = insert n (set (map vm_name (all_groups g1)))"
    using names by (metis set_mset_add_mset_insert set_mset_mset)
  moreover have "distinct (n # map vm_name (all_groups g1))"
    using Cons.prems(3) names by (metis distinct_append mset.simps(2) mset_eq_imp_distinct_iff)
  ultimately have fresh: "n \<notin> set (gkeys selected)"
    and d: "distinct (gkeys (selected @ [(n, sp_internal_name spec)]) @ map vm_name (all_groups g1))"
    using Cons.prems(3) by auto
  obtain vs where "list_all2 (meets gs) specs vs" "mset vs \<subseteq># mset (all_groups g1)"
      "selected' = (selected @ [(n, sp_internal_name spec)]) @ zip (map vm_name vs) (map sp_internal_name specs)"
    using Cons.IH[OF _ v(4) d] rest fresh by (auto simp: gput_fresh)
  then show ?case using v by (intro exI[of _ "v # vs"]) auto
qed

lemma groups_ok_group_vms [simp]: "groups_ok (group_vms pool)"
  by (auto simp: groups_ok_def all_groups_def group_vms_def free_vms_def)

lemma all_groups_group_vms: "mset (all_groups (group_vms pool)) \<subseteq># mset (free_vms pool)"
proof -
  have "mset (filter (\<lambda>v. P v \<and> Q v) xs) + mset (filter (\<lambda>v. \<not> P v \<and> Q v) xs)
      + mset (filter (\<lambda>v. P v \<and> \<not> Q v) xs) \<subseteq># mset xs" for P Q and xs :: "vm list"
    by (rule mset_subset_eqI) auto
  from this[of "\<lambda>v. vm_external_ip v \<noteq> ''''" "\<lambda>v. vm_internal_ip v \<noteq> ''''" "free_vms pool"]
  show ?thesis by (simp add: all_groups_def group_vms_def add.assoc)
qed

lemma distinct_names_subset:
  assumes "distinct (map vm_name xs)" and "mset ys \<subseteq># mset xs"
  shows "distinct (map vm_name ys)" and "set ys \<subseteq> set xs"
proof -
  obtain zs where "mset xs = mset (ys @ zs)"
    using assms(2) by (metis mset_append subset_mset.add_diff_inverse ex_mset)
  moreover from this have "mset (map vm_name xs) = mset (map vm_name (ys @ zs))"
    by (metis mset_map)
  ultimately show "distinct (map vm_name ys)"
    using assms(1) by (metis distinct_append map_append mset_eq_imp_distinct_iff)
  show "set ys \<subseteq> set xs"
    using assms(2) by (metis set_mset_mono set_mset_mset)
qed

definition alloc_touch :: "string \<Rightarrow> vm \<Rightarrow> vm \<Rightarrow> bool" where
  "alloc_touch grp v v' \<longleftrightarrow> vm_state v = VM_Free \<and>
     (\<exists>n t. v' = v\<lparr>vm_state := VM_In_Progress, vm_group := grp, vm_internal_name := n, vm_updated_at := t\<rparr>)"

definition release_touch :: "string \<Rightarrow> vm \<Rightarrow> vm \<Rightarrow> bool" where
  "release_touch grp v v' \<longleftrightarrow> vm_group v = grp \<and> vm_state v \<noteq> VM_In_Progress \<and>
     (\<exists>t. v' = v\<lparr>vm_state := VM_In_Progress, vm_updated_at := t\<rparr>)"

lemma mark_vms_for_allocationD:
  assumes "mark_vms_for_allocation gs now grp pool specs = Returns (pool', marked)"
    and "distinct (map vm_name pool)"
  obtains vs where "list_all2 (meets gs) specs vs" "set vs \<subseteq> set pool" "distinct (map vm_name vs)"
    "marks (alloc_touch grp) (vm_name ` set vs) pool pool' marked"
    "\<And>i. i < length pool \<Longrightarrow> pool' ! i =
       (case map_of (zip (map vm_name vs) (map sp_internal_name specs)) (vm_name (pool ! i)) of
          None \<Rightarrow> pool ! i
        | Some n \<Rightarrow> (pool ! i)\<lparr>vm_state := VM_In_Progress, vm_group := grp, vm_internal_name := n,
                               vm_updated_at := now i\<rparr>)"
proof -
  obtain sel where sel: "select_vms gs specs (group_vms pool) [] = Returns sel"
    and m: "mark_vms (\<lambda>ii v. case map_of sel (vm_name v) of
                None \<Rightarrow> None
              | Some n \<Rightarrow> Some (v\<lparr>vm_state := VM_In_Progress, vm_group := grp,
                                  vm_internal_name := n, vm_updated_at := now ii\<rparr>))
             0 pool ([], []) = (pool', marked)" (is "mark_vms ?f _ _ _ = _")
    using assms(1) by (auto simp: mark_vms_for_allocation_def Let_def split: if_splits)
  have free: "mset (free_vms pool) \<subseteq># mset pool" by (simp add: free_vms_def)
  have sub: "mset (all_groups (group_vms pool)) \<subseteq># mset pool"
    using all_groups_group_vms free by (rule subset_mset.order_trans)
  have "distinct (map vm_name (all_groups (group_vms pool)))"
    using distinct_names_subset(1)[OF assms(2) sub] .
  then obtain vs where vs: "list_all2 (meets gs) specs vs" "mset vs \<subseteq># mset (all_groups (group_vms pool))"
      "sel = zip (map vm_name vs) (map sp_internal_name specs)"
    using select_vmsD[OF sel groups_ok_group_vms] by auto
  have d: "distinct (map vm_name vs)" "set vs \<subseteq> set pool"
    using distinct_names_subset[OF assms(2) subset_mset.order_trans[OF vs(2) sub]] by auto
  have len: "length vs = length specs" using vs(1) by (auto dest: list_all2_lengthD)
  have keys: "set (gkeys sel) = vm_name ` set vs" using len vs(3) by simp
  have free_v: "vm_state v = VM_Free" if v: "v \<in> set pool" "vm_name v \<in> vm_name ` set vs" for v
  proof -
    obtain w where w: "w \<in> set vs" "vm_name w = vm_name v" using v(2) by auto
    then have "w = v" using assms(2) d(2) v(1) by (auto simp: distinct_map inj_on_def)
    moreover obtain spec where "meets gs spec w"
      using vs(1) w(1) by (metis in_set_conv_nth list_all2_conv_all_nth)
    ultimately show ?thesis by (simp add: meets_def)
  qed
  have in_sel: "map_of sel k \<noteq> None \<longleftrightarrow> k \<in> vm_name ` set vs" for k
    using keys by (simp add: map_of_eq_None_iff)
  have marks: "marks (alloc_touch grp) (vm_name ` set vs) pool pool' marked"
  proof (rule mark_vms_marks[OF _ _ _ assms(2) m])
    show "vm_name v' = vm_name v \<and> vm_name v \<in> vm_name ` set vs" if "?f i v = Some v'" for i v v'
      using that in_sel[of "vm_name v"] by (auto split: option.splits)
    show "vm_name v \<notin> vm_name ` set vs" if "?f i v = None" for i v
      using that in_sel[of "vm_name v"] by (auto split: option.splits)
    show "alloc_touch grp v v'" if "v \<in> set pool" "?f i v = Some v'" for i v v'
      using that free_v[of v] in_sel[of "vm_name v"] by (auto simp: alloc_touch_def split: option.splits)
  qed
  have nth: "pool' ! i = (case map_of sel (vm_name (pool ! i)) of
          None \<Rightarrow> pool ! i
        | Some n \<Rightarrow> (pool ! i)\<lparr>vm_state := VM_In_Progress, vm_group := grp, vm_internal_name := n,
                               vm_updated_at := now i\<rparr>)" if "i < length pool" for i
    using fst_mark_vms[of ?f 0 pool "[]" "[]"] m outs_nth[OF that, of ?f 0] by (auto split: option.splits)
  show thesis by (rule that[OF vs(1) d(2,1) marks nth[unfolded vs(3)]])
qed

lemma select_releaseD:
  "select_release grp wanted vs sel = Returns sel' \<Longrightarrow>
     (\<forall>v\<in>set vs. vm_group v = grp \<longrightarrow> vm_state v \<noteq> VM_In_Progress) \<and>
     set sel' = set sel \<union> vm_name ` {v \<in> set vs. vm_group v = grp \<and> wanted (vm_internal_name v)}"
proof (induction vs arbitrary: sel)
  case (Cons v vs)
  have "vm_group v = grp \<longrightarrow> vm_state v \<noteq> VM_In_Progress"
    using Cons.prems by (auto split: if_splits)
  then show ?case
    using Cons.prems Cons.IH by (auto split: if_splits)
qed simp

lemma select_release_cases:
  "(\<exists>v\<in>set vs. vm_group v = grp \<and> vm_state v = VM_In_Progress) \<or>
     (\<exists>sel'. select_release grp wanted vs sel = Returns sel')"
  by (induction vs arbitrary: sel) auto

lemma mark_vms_for_releaseD:
  assumes "mark_vms_for_release now grp pool specs = Returns (pool', marked)"
    and "distinct (map vm_name pool)"
  shows "marks (release_touch grp)
      (vm_name ` {v \<in> set pool. vm_group v = grp \<and>
         (vm_internal_name v \<in> sp_internal_name ` set specs \<or> specs = [])}) pool pool' marked"
    (is "marks _ ?S _ _ _")
proof -
  obtain sel where sel: "select_release grp (\<lambda>n. n \<in> set (map sp_internal_name specs) \<or> length specs = 0) pool [] = Returns sel"
    and m: "mark_vms (\<lambda>ii v. if vm_name v \<in> set sel
                      then Some (v\<lparr>vm_state := VM_In_Progress, vm_updated_at := now ii\<rparr>) else None)
             0 pool ([], []) = (pool', marked)"
    using assms(1) by (auto simp: mark_vms_for_release_def Let_def)
  have keys: "set sel = ?S" and idle: "\<forall>v\<in>set pool. vm_group v = grp \<longrightarrow> vm_state v \<noteq> VM_In_Progress"
    using select_releaseD[OF sel] by auto
  have own: "vm_group v = grp" if "v \<in> set pool" "vm_name v \<in> set sel" for v
  proof -
    obtain w where "w \<in> set pool" "vm_group w = grp" "vm_name w = vm_name v"
      using \<open>vm_name v \<in> set sel\<close> keys by auto
    then show ?thesis using assms(2) \<open>v \<in> set pool\<close> by (auto simp: distinct_map inj_on_def)
  qed
  show ?thesis
    unfolding keys[symmetric]
    by (rule mark_vms_marks[OF _ _ _ assms(2) m])
      (use own idle in \<open>auto simp: release_touch_def split: if_splits\<close>)
qed

subsection \<open>The contract of the two markings\<close>

text \<open>
  What \<open>markVMsForAction\<close> and its callers rely on: a marking changes some VMs of the pool, each
  from a state that is not \<open>IN_PROGRESS\<close> to \<open>IN_PROGRESS\<close>, keeps their identity, leaves every
  other VM as it was, and returns the marked VMs as they are in the new pool.
\<close>

definition same_machine :: "vm \<Rightarrow> vm \<Rightarrow> bool" where
  "same_machine v v' \<longleftrightarrow> vm_name v' = vm_name v \<and> vm_external_ip v' = vm_external_ip v \<and>
     vm_internal_ip v' = vm_internal_ip v \<and> vm_flavor v' = vm_flavor v"

lemma same_machine_refl [simp]: "same_machine v v"
  by (simp add: same_machine_def)

lemma same_machine_trans: "same_machine u v \<Longrightarrow> same_machine v w \<Longrightarrow> same_machine u w"
  by (simp add: same_machine_def)

locale vm_marker =
  fixes mark :: "'args \<Rightarrow> vm list \<Rightarrow> (vm list \<times> (string, vm) gmap) go"
    and touch :: "'args \<Rightarrow> vm \<Rightarrow> vm \<Rightarrow> bool"
  assumes mark_marks:
      "mark a pool = Returns (pool', marked) \<Longrightarrow> distinct (map vm_name pool) \<Longrightarrow>
         \<exists>S. marks (touch a) S pool pool' marked"
    and touch_machine: "touch a v v' \<Longrightarrow> same_machine v v'"
    and touch_state: "touch a v v' \<Longrightarrow> vm_state v \<noteq> VM_In_Progress \<and> vm_state v' = VM_In_Progress"
begin

lemma mark_changes:
  assumes "mark a pool = Returns (pool', marked)" and "distinct (map vm_name pool)"
  shows "list_all2 (\<lambda>v v'. vm_name v' = vm_name v \<and>
      (if vm_name v \<in> set (gkeys marked) then touch a v v' else v' = v)) pool pool'"
proof -
  obtain S where m: "marks (touch a) S pool pool' marked" using mark_marks[OF assms] by blast
  then have "length pool = length pool'" by (auto simp: marks_def dest: list_all2_lengthD)
  then show ?thesis using marks_nth[OF m] by (simp add: list_all2_conv_all_nth)
qed

lemma mark_names:
  assumes "mark a pool = Returns (pool', marked)" and "distinct (map vm_name pool)"
  shows "map vm_name pool' = map vm_name pool"
  using mark_changes[OF assms] by (auto simp: list_all2_conv_all_nth intro: nth_equalityI)

lemma mark_machines:
  assumes "mark a pool = Returns (pool', marked)" and "distinct (map vm_name pool)"
  shows "list_all2 same_machine pool pool'"
  using mark_changes[OF assms] by (rule list_all2_mono) (auto split: if_splits dest: touch_machine)

lemma marked_in_pool:
  assumes "mark a pool = Returns (pool', marked)" and "distinct (map vm_name pool)"
    and "(n, v) \<in> set marked"
  shows "v \<in> set pool' \<and> vm_name v = n \<and> vm_state v = VM_In_Progress"
proof -
  obtain S where m: "marks (touch a) S pool pool' marked" using mark_marks[OF assms(1,2)] by blast
  then have v: "v \<in> set pool'" "vm_name v = n" "n \<in> S" using assms(3) by (auto simp: marks_def)
  then obtain i where i: "i < length pool'" "v = pool' ! i" by (auto simp: in_set_conv_nth)
  then have "touch a (pool ! i) v"
    using m v unfolding marks_def list_all2_conv_all_nth by metis
  then have "vm_state v = VM_In_Progress" using touch_state by blast
  with v show ?thesis by simp
qed

text \<open>No VM is marked twice: a marked pool has nothing more to mark among the marked VMs.\<close>

lemma mark_exclusive:
  assumes "mark a pool = Returns (pool', marked)" and "distinct (map vm_name pool)"
    and "mark b pool' = Returns (pool'', marked')"
  shows "set (gkeys marked) \<inter> set (gkeys marked') = {}"
proof (rule ccontr)
  have d': "distinct (map vm_name pool')" using mark_names[OF assms(1,2)] assms(2) by simp
  assume "set (gkeys marked) \<inter> set (gkeys marked') \<noteq> {}"
  then obtain n v w where v: "(n, v) \<in> set marked" "(n, w) \<in> set marked'" by fastforce
  then have p: "v \<in> set pool'" "vm_name v = n" "vm_state v = VM_In_Progress"
    using marked_in_pool[OF assms(1,2)] by auto
  then obtain i where i: "i < length pool'" "v = pool' ! i" by (auto simp: in_set_conv_nth)
  have "n \<in> set (gkeys marked')" using v(2) by force
  then have "touch b v (pool'' ! i)"
    using list_all2_nthD[OF mark_changes[OF assms(3) d'] i(1)] p(2) i(2) by simp
  then show False using touch_state p(3) by blast
qed

end

interpretation alloc: vm_marker
  "\<lambda>(gs, now, grp, specs) pool. mark_vms_for_allocation gs now grp pool specs"
  "\<lambda>(gs, now, grp, specs). alloc_touch grp"
proof unfold_locales
  fix a pool pool' marked
  assume "(case a of (gs, now, grp, specs) \<Rightarrow> \<lambda>pool. mark_vms_for_allocation gs now grp pool specs) pool
      = Returns (pool', marked)" and "distinct (map vm_name pool)"
  then show "\<exists>S. marks (case a of (gs, now, grp, specs) \<Rightarrow> alloc_touch grp) S pool pool' marked"
    by (cases a) (auto elim: mark_vms_for_allocationD)
qed (auto simp: alloc_touch_def same_machine_def)

interpretation rel: vm_marker
  "\<lambda>(now, grp, specs) pool. mark_vms_for_release now grp pool specs"
  "\<lambda>(now, grp, specs). release_touch grp"
proof unfold_locales
  fix a pool pool' marked
  assume "(case a of (now, grp, specs) \<Rightarrow> \<lambda>pool. mark_vms_for_release now grp pool specs) pool
      = Returns (pool', marked)" and "distinct (map vm_name pool)"
  then show "\<exists>S. marks (case a of (now, grp, specs) \<Rightarrow> release_touch grp) S pool pool' marked"
    by (cases a) (auto dest: mark_vms_for_releaseD)
qed (auto simp: release_touch_def same_machine_def)

subsection \<open>Properties\<close>

definition demo_flavor :: flavor_info where
  "demo_flavor = \<lparr>fl_name = ''small'', fl_ram = 1024, fl_vcpus = 1, fl_disk = 10, fl_props = Map.empty\<rparr>"

definition demo_vm :: "string \<Rightarrow> string \<Rightarrow> vm" where
  "demo_vm n ext = \<lparr>vm_name = n, vm_external_ip = ext, vm_internal_ip = ''10.0.0.1'', vm_group = '''',
     vm_internal_name = '''', vm_state = VM_Free, vm_flavor = Some demo_flavor, vm_updated_at = 0\<rparr>"

definition demo_pool :: "vm list" where
  "demo_pool = [demo_vm ''vm1'' ''1.2.3.4'', demo_vm ''vm2'' '''', demo_vm ''vm3'' '''']"

definition demo_spec :: "string \<Rightarrow> bool \<Rightarrow> vm_spec" where
  "demo_spec n ext = \<lparr>sp_internal_name = n, sp_external_network = ext, sp_internal_network = True,
     sp_flavor = demo_flavor\<rparr>"

definition demo_get_spec :: get_vm_spec where
  "demo_get_spec req fls = (case find (\<lambda>f. fl_ram req \<le> fl_ram f) fls of
     None \<Rightarrow> Inl ''no suitable platform flavor found'' | Some f \<Rightarrow> Inr (fl_name f))"

lemmas demo_vm_simps = demo_pool_def demo_vm_def demo_spec_def demo_flavor_def demo_get_spec_def
  mark_vms_for_allocation_def free_vms_def group_vms_def select_vm_def get_flavor_based_vm_def
  map_filter_def Let_def

lemma demo_allocation:
  "\<exists>pool' marked. mark_vms_for_allocation demo_get_spec (\<lambda>_. 7) ''grp'' demo_pool
     [demo_spec ''master'' False, demo_spec ''lb'' True] = Returns (pool', marked)"
  by (simp add: demo_vm_simps)

lemma demo_pool_distinct: "distinct (map vm_name demo_pool)"
  by (simp add: demo_pool_def demo_vm_def)

lemma allocation_outcome:
  assumes "mark_vms_for_allocation gs now grp pool specs = Returns (pool', marked)"
    and "distinct (map vm_name pool)"
  shows "\<exists>vs. list_all2 (meets gs) specs vs \<and> distinct (map vm_name vs) \<and> set vs \<subseteq> set pool \<and>
    length pool' = length pool \<and>
    (\<forall>i<length pool. pool' ! i =
       (case map_of (zip (map vm_name vs) (map sp_internal_name specs)) (vm_name (pool ! i)) of
          None \<Rightarrow> pool ! i
        | Some n \<Rightarrow> (pool ! i)\<lparr>vm_state := VM_In_Progress, vm_group := grp, vm_internal_name := n,
                               vm_updated_at := now i\<rparr>)) \<and>
    set (gkeys marked) = vm_name ` set vs"
proof -
  obtain vs where vs: "list_all2 (meets gs) specs vs" "set vs \<subseteq> set pool" "distinct (map vm_name vs)"
    "marks (alloc_touch grp) (vm_name ` set vs) pool pool' marked"
    "\<And>i. i < length pool \<Longrightarrow> pool' ! i =
       (case map_of (zip (map vm_name vs) (map sp_internal_name specs)) (vm_name (pool ! i)) of
          None \<Rightarrow> pool ! i
        | Some n \<Rightarrow> (pool ! i)\<lparr>vm_state := VM_In_Progress, vm_group := grp, vm_internal_name := n,
                               vm_updated_at := now i\<rparr>)"
    by (rule mark_vms_for_allocationD[OF assms]) blast
  have names: "map vm_name pool' = map vm_name pool"
    using alloc.mark_names[of "(gs, now, grp, specs)"] assms by simp
  have "set (gkeys marked) = {n. n \<in> vm_name ` set pool' \<and> n \<in> vm_name ` set vs}"
    using vs(4) by (auto simp: marks_def)
  also have "vm_name ` set pool' = vm_name ` set pool" using names by (metis set_map)
  finally have "set (gkeys marked) = vm_name ` set vs" using vs(2) by auto
  moreover have "length pool' = length pool" using names by (metis length_map)
  ultimately show ?thesis using vs by blast
qed

text \<open>
  C8 (allocation\_gives\_suitable\_free\_vms): a successful allocation gives every spec a VM of
  its own, one that was free, has the networks the spec asks for and the flavor that the flavor
  matching chose among those available; that VM leaves it \<open>IN_PROGRESS\<close>, in the group and under
  the spec's internal name, and no other VM of the pool changes.
\<close>

theorem allocation_gives_suitable_free_vms:
  assumes "mark_vms_for_allocation gs now grp pool specs = Returns (pool', marked)"
    and "distinct (map vm_name pool)"
  shows "\<exists>vs. list_all2 (meets gs) specs vs \<and> distinct (map vm_name vs) \<and> set vs \<subseteq> set pool \<and>
    length pool' = length pool \<and>
    (\<forall>i<length pool. pool' ! i =
       (case map_of (zip (map vm_name vs) (map sp_internal_name specs)) (vm_name (pool ! i)) of
          None \<Rightarrow> pool ! i
        | Some n \<Rightarrow> (pool ! i)\<lparr>vm_state := VM_In_Progress, vm_group := grp, vm_internal_name := n,
                               vm_updated_at := now i\<rparr>)) \<and>
    set (gkeys marked) = vm_name ` set vs"
  using assms by (rule allocation_outcome)

theorem allocation_gives_suitable_free_vms_witness:
  "\<exists>pool' marked vs. mark_vms_for_allocation demo_get_spec (\<lambda>_. 7) ''grp'' demo_pool
     [demo_spec ''master'' False, demo_spec ''lb'' True] = Returns (pool', marked) \<and>
     list_all2 (meets demo_get_spec) [demo_spec ''master'' False, demo_spec ''lb'' True] vs \<and>
     set vs \<subseteq> set demo_pool"
  using demo_allocation allocation_gives_suitable_free_vms[OF _ demo_pool_distinct] by blast

text \<open>
  Note (release\_marks\_the\_group): releasing a group succeeds exactly when none of its VMs is busy,
  and then marks exactly the VMs of the group that the specs name (all of them when there are no
  specs) and changes no VM of another group.
\<close>

theorem release_marks_the_group:
  assumes "distinct (map vm_name pool)"
  shows "(\<exists>v\<in>set pool. vm_group v = grp \<and> vm_state v = VM_In_Progress) \<noteq>
      (\<exists>pool' marked. mark_vms_for_release now grp pool specs = Returns (pool', marked) \<and>
         list_all2 (\<lambda>v v'. if vm_group v = grp \<and>
               (vm_internal_name v \<in> sp_internal_name ` set specs \<or> specs = [])
            then \<exists>t. v' = v\<lparr>vm_state := VM_In_Progress, vm_updated_at := t\<rparr> else v' = v) pool pool')"
proof (cases "\<exists>v\<in>set pool. vm_group v = grp \<and> vm_state v = VM_In_Progress")
  case True
  then have "mark_vms_for_release now grp pool specs \<noteq> Returns r" for r
    using select_releaseD by (auto simp: mark_vms_for_release_def Let_def)
  with True show ?thesis by blast
next
  case False
  let ?want = "\<lambda>v. vm_group v = grp \<and> (vm_internal_name v \<in> sp_internal_name ` set specs \<or> specs = [])"
  obtain sel0 where sel0: "select_release grp (\<lambda>n. n \<in> set (map sp_internal_name specs) \<or> length specs = 0) pool [] = Returns sel0"
    using select_release_cases[of pool grp] False by blast
  obtain pool' marked where r: "mark_vms_for_release now grp pool specs = Returns (pool', marked)"
    using that unfolding mark_vms_for_release_def Let_def sel0 go_bind.simps by (metis (no_types) surj_pair)
  have m: "marks (release_touch grp) (vm_name ` {v \<in> set pool. ?want v}) pool pool' marked"
    by (rule mark_vms_for_releaseD[OF r assms])
  have sel: "vm_name v \<in> vm_name ` {v \<in> set pool. ?want v} \<longleftrightarrow> ?want v" if "v \<in> set pool" for v
    using that assms by (auto simp: distinct_map inj_on_def)
  have "list_all2 (\<lambda>v v'. if ?want v
        then \<exists>t. v' = v\<lparr>vm_state := VM_In_Progress, vm_updated_at := t\<rparr> else v' = v) pool pool'"
    unfolding list_all2_conv_all_nth
  proof (intro conjI allI impI)
    show "length pool = length pool'" using m by (auto simp: marks_def dest: list_all2_lengthD)
    fix i
    assume i: "i < length pool"
    have "if vm_name (pool ! i) \<in> vm_name ` {v \<in> set pool. ?want v}
        then release_touch grp (pool ! i) (pool' ! i) else pool' ! i = pool ! i"
      using m i by (auto simp: marks_def list_all2_conv_all_nth)
    then have "if ?want (pool ! i) then release_touch grp (pool ! i) (pool' ! i) else pool' ! i = pool ! i"
      using sel[OF nth_mem[OF i]] by simp
    then show "if ?want (pool ! i)
        then \<exists>t. pool' ! i = (pool ! i)\<lparr>vm_state := VM_In_Progress, vm_updated_at := t\<rparr>
        else pool' ! i = pool ! i"
      unfolding release_touch_def by (meson)
  qed
  with r False show ?thesis by blast
qed

theorem release_marks_the_group_witness:
  "\<exists>pool' marked. mark_vms_for_release (\<lambda>_. 9) ''grp'' [(demo_vm ''vm1'' '''')\<lparr>vm_group := ''grp'', vm_state := VM_In_Use\<rparr>] []
     = Returns (pool', marked)"
  using release_marks_the_group[of "[(demo_vm ''vm1'' '''')\<lparr>vm_group := ''grp'', vm_state := VM_In_Use\<rparr>]"
      "''grp''" "\<lambda>_. 9" "[]"]
  by (auto simp: demo_vm_def)

text \<open>
  Note (flavorless\_vm\_panics): the matching loop skips VMs without a flavor, but the search loop
  that follows reads the flavor of every VM it passes, so a free VM without a flavor that comes
  before the match makes the allocation panic, whatever the flavor matching answers.
\<close>

theorem flavorless_vm_panics:
  assumes "vm_flavor v = None" and "gs (sp_flavor spec) (List.map_filter vm_flavor vms) = Inr fname"
  shows "get_flavor_based_vm gs (v # vms) spec = Panics"
  using assms by (simp add: get_flavor_based_vm_def map_filter_def)

theorem flavorless_vm_panics_witness:
  "get_flavor_based_vm demo_get_spec ((demo_vm ''vm0'' '''')\<lparr>vm_flavor := None\<rparr> # demo_pool)
     (demo_spec ''n'' False) = Panics"
  by (rule flavorless_vm_panics[of _ _ _ _ "''small''"]) (simp_all add: demo_vm_simps)

end
