(* ===== verification/VMPool_Provider.thy ===== *)
theory VMPool_Provider
  imports VMPool_Spec
begin

text \<open>
  \<open>src/crm-platforms/vmpool/vmpool-provider.go\<close>: creation, deletion and update of a group of VMs
  on a pool.  The pool is the one the CRM holds (\<open>caches.VMPool\<close>, possibly absent); the remote
  side (ssh clients, the commands' results, the sanitizing of host names, Go's iteration orders)
  is the record \<open>remote\<close>, whose answers may depend on everything executed before.  Commands are
  recorded in the order they are issued; the concurrent set-up of the k8s workers is recorded in
  the order the goroutines are started.
\<close>

subsection \<open>Orchestration parameters\<close>

datatype vm_role = Role_Master | Role_K8s_Node | Role_Docker_Node | Role_VM_Application | Role_Other nat

datatype net_type = Net_External_Primary | Net_Other nat

record chef_params =
  chef_client_key :: string
  chef_server_path :: string
  chef_node_name :: string

record orch_vm =
  ov_name :: string
  ov_role :: vm_role
  ov_ports :: "net_type list"
  ov_flavor_name :: string
  ov_access_key :: string
  ov_chef :: "chef_params option"

subsection \<open>The remote side\<close>

datatype remote_cmd =
    Cleanup | Set_Hostname string | Fix_Hosts string
  | Make_Key_Dir | Write_Key string | Chmod_Key
  | Write_Chef_Key string | Setup_Chef string string
  | K8s_Master string | K8s_Node string

type_synonym 'c cmd_log = "('c \<times> remote_cmd) list"

record 'c remote =
  rm_client :: "string \<Rightarrow> string + 'c"          \<comment> \<open>\<open>GetSSHClientFromIPAddr\<close>\<close>
  rm_hop :: "'c \<Rightarrow> string \<Rightarrow> string + 'c"      \<comment> \<open>\<open>AddHop(ip, 22)\<close>\<close>
  rm_result :: "'c cmd_log \<Rightarrow> 'c \<Rightarrow> remote_cmd \<Rightarrow> string option"
  rm_timeout :: bool                             \<comment> \<open>\<open>CreateVMTimeout\<close> passes before the workers finish\<close>
  rm_sanitize :: "string \<Rightarrow> string"              \<comment> \<open>\<open>util.HostnameSanitize\<close>\<close>
  rm_order :: "nat \<Rightarrow> (string, vm) gmap \<Rightarrow> (string, vm) gmap"
  rm_roles_order :: "(string, vm_role) gmap \<Rightarrow> (string, vm_role) gmap"

definition run_cmd :: "'c remote \<Rightarrow> 'c \<Rightarrow> remote_cmd \<Rightarrow> 'c cmd_log \<Rightarrow> string option \<times> 'c cmd_log" where
  "run_cmd rm c cmd l = (rm_result rm l c cmd, l @ [(c, cmd)])"

subsection \<open>The platform\<close>

record platform =
  pf_pool :: "vm list option"          \<comment> \<open>\<open>caches.VMPool.Vms\<close>\<close>
  pf_info :: "vm list option"          \<comment> \<open>the last \<open>VMPoolInfo\<close> sent\<close>
  pf_flavors :: "flavor_info list"
  pf_root_lb :: string
  pf_external_network :: string
  pf_mex_network :: string

record server_ip =
  ip_network :: string
  ip_external :: string
  ip_internal :: string

definition server_addresses :: "platform \<Rightarrow> vm \<Rightarrow> server_ip list" where
  "server_addresses pf v =
     (if vm_external_ip v \<noteq> ''''
      then [\<lparr>ip_network = pf_external_network pf, ip_external = vm_external_ip v, ip_internal = vm_external_ip v\<rparr>]
      else []) @
     (if vm_internal_ip v \<noteq> ''''
      then [\<lparr>ip_network = pf_mex_network pf, ip_external = vm_internal_ip v, ip_internal = vm_internal_ip v\<rparr>]
      else [])"

definition get_server_detail :: "platform \<Rightarrow> string \<Rightarrow> string + string \<times> server_ip list" where
  "get_server_detail pf server =
     (case pf_pool pf of
        None \<Rightarrow> Inl ''missing vmpool''
      | Some vms \<Rightarrow>
          (case find (\<lambda>v. vm_internal_name v = server) vms of
             None \<Rightarrow> Inl (''Server does not exist: '' @ server)
           | Some v \<Rightarrow> Inr (vm_internal_name v, server_addresses pf v)))"

definition update_vm_pool_info :: "platform \<Rightarrow> platform" where
  "update_vm_pool_info pf = (case pf_pool pf of None \<Rightarrow> pf | Some vms \<Rightarrow> pf\<lparr>pf_info := Some vms\<rparr>)"

definition save_vm :: "string list \<Rightarrow> vm_state \<Rightarrow> vm \<Rightarrow> vm" where
  "save_vm names st v =
     (if vm_name v \<in> set names
      then let v1 = v\<lparr>vm_state := st\<rparr> in
        if st = VM_Free then v1\<lparr>vm_group := '''', vm_internal_name := ''''\<rparr> else v1
      else v)"

definition save_vm_state_in_vm_pool :: "(string, vm) gmap \<Rightarrow> vm_state \<Rightarrow> platform \<Rightarrow> platform" where
  "save_vm_state_in_vm_pool vms st pf =
     (case pf_pool pf of
        None \<Rightarrow> pf
      | Some pool \<Rightarrow> update_vm_pool_info (pf\<lparr>pf_pool := Some (map (save_vm (gkeys vms) st) pool)\<rparr>))"

datatype vm_action = Action_None | Action_Allocate | Action_Release

definition mark_vms_in ::
    "get_vm_spec \<Rightarrow> (nat \<Rightarrow> int) \<Rightarrow> vm_action \<Rightarrow> string \<Rightarrow> vm_spec list \<Rightarrow> vm list \<Rightarrow> (vm list \<times> (string, vm) gmap) go" where
  "mark_vms_in gs now act grp specs pool =
     (if act = Action_Allocate then mark_vms_for_allocation gs now grp pool specs
      else mark_vms_for_release now grp pool specs)"

definition mark_vms_for_action ::
    "get_vm_spec \<Rightarrow> (nat \<Rightarrow> int) \<Rightarrow> vm_action \<Rightarrow> string \<Rightarrow> vm_spec list \<Rightarrow> platform
       \<Rightarrow> ((string, vm) gmap \<times> platform) go" where
  "mark_vms_for_action gs now act grp specs pf =
     (case pf_pool pf of
        None \<Rightarrow> Fails ''missing VM pool''
      | Some pool \<Rightarrow>
          go_bind (mark_vms_in gs now act grp specs pool)
            (\<lambda>(pool', marked).
               let pf1 = pf\<lparr>pf_pool := Some pool'\<rparr>
               in Returns (marked, if length marked > 0 then update_vm_pool_info pf1 else pf1)))"

definition get_access_client :: "'c remote \<Rightarrow> platform \<Rightarrow> string + 'c" where
  "get_access_client rm pf =
     (case pf_pool pf of
        None \<Rightarrow> Inl ''missing VM pool''
      | Some pool \<Rightarrow>
          let shared = fold (\<lambda>v ip. if vm_internal_name v = pf_root_lb pf then vm_external_ip v else ip) pool '''';
              any = fold (\<lambda>v ip. if vm_external_ip v \<noteq> '''' then vm_external_ip v else ip) pool '''';
              access_ip = (if shared \<noteq> '''' then shared else any)
          in if access_ip = '''' then Inl ''unable to find any VM with external IP''
             else case rm_client rm access_ip of
                 Inl e \<Rightarrow> Inl (''can't get ssh client for '' @ access_ip @ '' '' @ e)
               | Inr c \<Rightarrow> Inr c)"

definition setup_hostname :: "'c remote \<Rightarrow> 'c \<Rightarrow> string \<Rightarrow> 'c cmd_log \<Rightarrow> string option \<times> 'c cmd_log" where
  "setup_hostname rm c name l =
     (let hostname = rm_sanitize rm (hd (strings_split name ''.''));
          (e, l1) = run_cmd rm c (Set_Hostname hostname) l
      in if e \<noteq> None then (map_option (\<lambda>e. ''failed to execute hostnamectl: '' @ e) e, l1)
         else let (e2, l2) = run_cmd rm c (Fix_Hosts hostname) l1
              in (map_option (\<lambda>e. ''failed to update /etc/hosts file: '' @ e) e2, l2))"

subsection \<open>createVMsInternal\<close>

definition roles_of :: "orch_vm list \<Rightarrow> (string, vm_role) gmap" where
  "roles_of vms = fold (\<lambda>v. gput (ov_name v) (ov_role v)) vms []"

definition keys_of :: "orch_vm list \<Rightarrow> (string, string) gmap" where
  "keys_of vms = fold (\<lambda>v. gput (ov_name v) (ov_access_key v)) vms []"

definition chefs_of :: "orch_vm list \<Rightarrow> (string, chef_params option) gmap" where
  "chefs_of vms = fold (\<lambda>v. gput (ov_name v) (ov_chef v)) vms []"

definition setup_access_key :: "'c remote \<Rightarrow> 'c \<Rightarrow> string option \<Rightarrow> 'c cmd_log \<Rightarrow> string option \<times> 'c cmd_log" where
  "setup_access_key rm c key l =
     (case key of
        None \<Rightarrow> (None, l)
      | Some k \<Rightarrow>
          if k = '''' then (None, l)
          else
            let (e1, l1) = run_cmd rm c Make_Key_Dir l in
            if e1 \<noteq> None then (map_option (\<lambda>e. ''Failed to created /root/accesskey directory, '' @ e) e1, l1)
            else
              let (e2, l2) = run_cmd rm c (Write_Key k) l1 in
              if e2 \<noteq> None then (map_option (\<lambda>e. ''failed to write access key: '' @ e) e2, l2)
              else
                let (e3, l3) = run_cmd rm c Chmod_Key l2 in
                (map_option (\<lambda>e. ''failed to change perms of accesskey file: '' @ e) e3, l3))"

definition setup_chef :: "'c remote \<Rightarrow> 'c \<Rightarrow> chef_params option \<Rightarrow> 'c cmd_log \<Rightarrow> string option \<times> 'c cmd_log" where
  "setup_chef rm c chef l =
     (case chef of
        None \<Rightarrow> (None, l)
      | Some p \<Rightarrow>
          let (e1, l1) = run_cmd rm c (Write_Chef_Key (chef_client_key p)) l in
          if e1 \<noteq> None then (map_option (\<lambda>e. ''failed to copy chef client key: '' @ e) e1, l1)
          else
            let (e2, l2) = run_cmd rm c (Setup_Chef (chef_server_path p) (chef_node_name p)) l1 in
            (map_option (\<lambda>e. ''failed to setup chef: '' @ e) e2, l2))"

text \<open>One VM of the first loop; the second component is \<open>masterAddr\<close>.\<close>

definition setup_vm ::
    "'c remote \<Rightarrow> 'c \<Rightarrow> orch_vm list \<Rightarrow> vm \<Rightarrow> string \<Rightarrow> 'c cmd_log \<Rightarrow> string option \<times> string \<times> 'c cmd_log" where
  "setup_vm rm access orch v master l =
     (case map_of (roles_of orch) (vm_internal_name v) of
        None \<Rightarrow> (Some (''missing role for vm role '' @ vm_internal_name v), master, l)
      | Some role \<Rightarrow>
          (case (if vm_external_ip v = '''' then rm_hop rm access (vm_internal_ip v)
                 else rm_client rm (vm_external_ip v)) of
             Inl e \<Rightarrow> (Some (if vm_external_ip v = '''' then e
                            else ''can't get ssh client for '' @ vm_external_ip v @ '' '' @ e), master, l)
           | Inr c \<Rightarrow>
               let (e1, l1) = run_cmd rm c Cleanup l in
               if e1 \<noteq> None then (map_option (\<lambda>e. ''can't cleanup vm: '' @ e) e1, master, l1)
               else
                 let (_, l2) = setup_hostname rm c (vm_internal_name v) l1;
                     (e3, l3) = setup_access_key rm c (map_of (keys_of orch) (vm_internal_name v)) l2 in
                 if e3 \<noteq> None then (e3, master, l3)
                 else
                   let (e4, l4) = setup_chef rm c
                         (case map_of (chefs_of orch) (vm_internal_name v) of None \<Rightarrow> None | Some p \<Rightarrow> p) l3 in
                   if e4 \<noteq> None then (e4, master, l4)
                   else if role = Role_Master
                   then let (e5, l5) = run_cmd rm c (K8s_Master (vm_internal_ip v)) l4 in
                     (map_option (\<lambda>_. ''can't setup k8s master on vm '' @ vm_internal_name v @
                        '' with masteraddr '' @ vm_internal_ip v) e5, vm_internal_ip v, l5)
                   else (None, master, l4)))"

fun setup_vms ::
    "'c remote \<Rightarrow> 'c \<Rightarrow> orch_vm list \<Rightarrow> (string, vm) gmap \<Rightarrow> string \<Rightarrow> 'c cmd_log
       \<Rightarrow> string option \<times> string \<times> 'c cmd_log" where
  "setup_vms rm access orch [] master l = (None, master, l)"
| "setup_vms rm access orch ((n, v) # vs) master l =
     (let (e, master', l') = setup_vm rm access orch v master l in
      if e \<noteq> None then (e, master', l') else setup_vms rm access orch vs master' l')"

text \<open>The existing master, when none was set up: the first master of the role map.\<close>

definition find_master ::
    "'c remote \<Rightarrow> platform \<Rightarrow> orch_vm list \<Rightarrow> string + string" where
  "find_master rm pf orch =
     (case find (\<lambda>(n, r). r = Role_Master) (rm_roles_order rm (roles_of orch)) of
        None \<Rightarrow> Inr ''''
      | Some (name, _) \<Rightarrow>
          (case get_server_detail pf name of
             Inl e \<Rightarrow> Inl (''failed to get k8s master node IP for '' @ name @ '', '' @ e)
           | Inr (_, addrs) \<Rightarrow>
               if addrs = [] \<or> ip_external (hd addrs) = ''''
               then Inl (''missing k8s master node IP for '' @ name)
               else Inr (ip_internal (hd addrs))))"

text \<open>The workers: an error of \<open>AddHop\<close> ends the loop, errors of the commands are collected.\<close>

fun start_workers ::
    "'c remote \<Rightarrow> 'c \<Rightarrow> orch_vm list \<Rightarrow> string \<Rightarrow> (string, vm) gmap \<Rightarrow> string list \<Rightarrow> 'c cmd_log
       \<Rightarrow> string option \<times> string list \<times> 'c cmd_log" where
  "start_workers rm access orch master [] errs l = (None, errs, l)"
| "start_workers rm access orch master ((n, v) # vs) errs l =
     (if map_of (roles_of orch) (vm_internal_name v) \<noteq> Some Role_K8s_Node
      then start_workers rm access orch master vs errs l
      else case rm_hop rm access (vm_internal_ip v) of
        Inl e \<Rightarrow> (Some e, errs, l)
      | Inr c \<Rightarrow>
          let (e, l') = run_cmd rm c (K8s_Node master) l in
          start_workers rm access orch master vs
            (if e \<noteq> None then errs @ [''can't setup k8s node on vm '' @ vm_internal_name v @
               '' with masteraddr '' @ master] else errs) l')"

definition create_vms_internal ::
    "'c remote \<Rightarrow> platform \<Rightarrow> (string, vm) gmap \<Rightarrow> orch_vm list \<Rightarrow> 'c cmd_log \<Rightarrow> string option \<times> 'c cmd_log" where
  "create_vms_internal rm pf marked orch l =
     (case get_access_client rm pf of
        Inl e \<Rightarrow> (Some e, l)
      | Inr access \<Rightarrow>
          let (e1, master, l1) = setup_vms rm access orch (rm_order rm 0 marked) '''' l in
          if e1 \<noteq> None then (e1, l1)
          else case (if master = '''' then find_master rm pf orch else Inr master) of
              Inl e \<Rightarrow> (Some e, l1)
            | Inr addr \<Rightarrow>
                if addr = '''' then (None, l1)
                else
                  let (e2, errs, l2) = start_workers rm access orch addr (rm_order rm 1 marked) [] l1 in
                  if e2 \<noteq> None then (e2, l2)
                  else if errs \<noteq> [] then (Some (hd errs), l2)
                  else if rm_timeout rm then (Some ''Timed out setting up VMs'', l2)
                  else (None, l2))"

subsection \<open>CreateVMs, DeleteVMs, UpdateVMs\<close>

definition spec_of :: "flavor_info list \<Rightarrow> orch_vm \<Rightarrow> vm_spec go" where
  "spec_of flavors ov =
     (case find (\<lambda>f. fl_name f = ov_flavor_name ov) flavors of
        None \<Rightarrow> Fails (''Unable to find matching flavor '' @ ov_flavor_name ov)
      | Some f \<Rightarrow> Returns \<lparr>sp_internal_name = ov_name ov,
          sp_external_network = (Net_External_Primary \<in> set (ov_ports ov)),
          sp_internal_network = True, sp_flavor = f\<rparr>)"

fun create_specs :: "flavor_info list \<Rightarrow> orch_vm list \<Rightarrow> vm_spec list go" where
  "create_specs flavors [] = Returns []"
| "create_specs flavors (ov # ovs) =
     (if ov_role ov = Role_VM_Application
      then Fails ''VM based applications are not support by PlatformTypeVmPool''
      else go_bind (spec_of flavors ov)
        (\<lambda>s. go_bind (create_specs flavors ovs) (\<lambda>ss. Returns (s # ss))))"

text \<open>The result (the error, or that it panicked), the platform and the commands issued.\<close>

definition create_vms ::
    "'c remote \<Rightarrow> get_vm_spec \<Rightarrow> (nat \<Rightarrow> int) \<Rightarrow> string \<Rightarrow> orch_vm list \<Rightarrow> platform \<times> 'c cmd_log
       \<Rightarrow> unit go \<times> platform \<times> 'c cmd_log" where
  "create_vms rm gs now grp orch st =
     (case go_bind (create_specs (pf_flavors (fst st)) orch)
        (\<lambda>specs. mark_vms_for_action gs now Action_Allocate grp specs (fst st)) of
        Fails e \<Rightarrow> (Fails e, st)
      | Panics \<Rightarrow> (Panics, st)
      | Returns (marked, pf1) \<Rightarrow>
          let (err, l) = create_vms_internal rm pf1 marked orch (snd st);
              state = (if err \<noteq> None then VM_Free else VM_In_Use);
              pf2 = save_vm_state_in_vm_pool marked state pf1
          in (case err of None \<Rightarrow> Returns () | Some e \<Rightarrow> Fails e, pf2, l))"

text \<open>
  The loop of \<open>deleteVMsInternal\<close>; the fourth argument is \<open>err\<close>, the result of the last attempt to
  connect: a VM without any address would use it, and a nil client when it is nil.
\<close>

fun cleanup_vms ::
    "'c remote \<Rightarrow> 'c \<Rightarrow> (string, vm) gmap \<Rightarrow> string option \<Rightarrow> 'c cmd_log \<Rightarrow> string option go \<times> 'c cmd_log" where
  "cleanup_vms rm access [] err l = (Returns None, l)"
| "cleanup_vms rm access ((n, v) # vs) err l =
     (let conn = (if vm_external_ip v \<noteq> '''' then Some (rm_client rm (vm_external_ip v))
                  else if vm_internal_ip v \<noteq> '''' then Some (rm_hop rm access (vm_internal_ip v))
                  else None)
      in case conn of
        None \<Rightarrow> (case err of None \<Rightarrow> (Panics, l) | Some _ \<Rightarrow> cleanup_vms rm access vs err l)
      | Some (Inl e) \<Rightarrow> cleanup_vms rm access vs (Some e) l
      | Some (Inr c) \<Rightarrow>
          let (e1, l1) = run_cmd rm c Cleanup l in
          (case e1 of
             Some e \<Rightarrow> (Returns (Some (''can't cleanup vm: '' @ e)), l1)
           | None \<Rightarrow>
               let (_, l2) = setup_hostname rm c (vm_name v) l1 in
               cleanup_vms rm access vs None l2))"

definition delete_vms_internal ::
    "'c remote \<Rightarrow> platform \<Rightarrow> (string, vm) gmap \<Rightarrow> 'c cmd_log \<Rightarrow> string option go \<times> 'c cmd_log" where
  "delete_vms_internal rm pf marked l =
     (case get_access_client rm pf of
        Inl _ \<Rightarrow> (Returns None, l)
      | Inr access \<Rightarrow> cleanup_vms rm access (rm_order rm 0 marked) None l)"

definition finish_delete ::
    "'c remote \<Rightarrow> (string, vm) gmap \<Rightarrow> platform \<Rightarrow> 'c cmd_log \<Rightarrow> unit go \<times> platform \<times> 'c cmd_log" where
  "finish_delete rm marked pf1 l =
     (case delete_vms_internal rm pf1 marked l of
        (Returns err, l') \<Rightarrow>
          let state = (if err \<noteq> None then VM_In_Use else VM_Free)
          in (case err of None \<Rightarrow> Returns () | Some e \<Rightarrow> Fails e,
              save_vm_state_in_vm_pool marked state pf1, l')
      | (Fails e, l') \<Rightarrow> (Fails e, pf1, l')
      | (Panics, l') \<Rightarrow> (Panics, pf1, l'))"

definition delete_vms ::
    "'c remote \<Rightarrow> (nat \<Rightarrow> int) \<Rightarrow> string \<Rightarrow> platform \<times> 'c cmd_log \<Rightarrow> unit go \<times> platform \<times> 'c cmd_log" where
  "delete_vms rm now grp st =
     (case mark_vms_for_action (\<lambda>_ _. Inl '''') now Action_Release grp [] (fst st) of
        Fails e \<Rightarrow> (Fails e, st)
      | Panics \<Rightarrow> (Panics, st)
      | Returns (marked, pf1) \<Rightarrow> finish_delete rm marked pf1 (snd st))"

text \<open>
  \<open>updateVMsInternal\<close>: the specs of the requested VMs the group does not have; when there are
  none, the VMs of the group that are not requested any more.
\<close>

fun new_specs :: "flavor_info list \<Rightarrow> string list \<Rightarrow> orch_vm list \<Rightarrow> vm_spec list go" where
  "new_specs flavors existing [] = Returns []"
| "new_specs flavors existing (ov # ovs) =
     go_bind (spec_of flavors ov)
       (\<lambda>s. go_bind (new_specs flavors existing ovs)
          (\<lambda>ss. Returns (if ov_name ov \<in> set existing then ss else s # ss)))"

definition existing_names :: "string \<Rightarrow> vm list \<Rightarrow> string list" where
  "existing_names grp pool = remdups (map vm_internal_name (filter (\<lambda>v. vm_group v = grp) pool))"

definition release_spec :: "string \<Rightarrow> vm_spec" where
  "release_spec n = \<lparr>sp_internal_name = n, sp_external_network = False, sp_internal_network = False,
     sp_flavor = \<lparr>fl_name = '''', fl_ram = 0, fl_vcpus = 0, fl_disk = 0, fl_props = Map.empty\<rparr>\<rparr>"

definition update_vms_internal ::
    "get_vm_spec \<Rightarrow> (nat \<Rightarrow> int) \<Rightarrow> string \<Rightarrow> orch_vm list \<Rightarrow> platform
       \<Rightarrow> ((string, vm) gmap \<times> vm_action \<times> platform) go" where
  "update_vms_internal gs now grp orch pf =
     (case pf_pool pf of
        None \<Rightarrow> Fails ''missing vmpool''
      | Some pool \<Rightarrow>
          let existing = existing_names grp pool in
          go_bind (new_specs (pf_flavors pf) existing orch)
            (\<lambda>specs.
               let gone = filter (\<lambda>n. n \<notin> ov_name ` set orch) existing;
                   act = (if specs \<noteq> [] then Action_Allocate
                          else if gone \<noteq> [] then Action_Release else Action_None);
                   specs' = (if specs \<noteq> [] then specs else map release_spec gone)
               in if act = Action_None then Returns ([], Action_None, pf)
                  else go_bind (mark_vms_for_action gs now act grp specs' pf)
                         (\<lambda>(marked, pf1). Returns (marked, act, pf1))))"

definition update_vms ::
    "'c remote \<Rightarrow> get_vm_spec \<Rightarrow> (nat \<Rightarrow> int) \<Rightarrow> string \<Rightarrow> orch_vm list \<Rightarrow> platform \<times> 'c cmd_log
       \<Rightarrow> unit go \<times> platform \<times> 'c cmd_log" where
  "update_vms rm gs now grp orch st =
     (case update_vms_internal gs now grp orch (fst st) of
        Fails e \<Rightarrow> (Fails e, st)
      | Panics \<Rightarrow> (Panics, st)
      | Returns (marked, act, pf1) \<Rightarrow>
          (case act of
             Action_Allocate \<Rightarrow>
               let (err, l) = create_vms_internal rm pf1 marked orch (snd st);
                   state = (if err = None then VM_In_Use else VM_Free)
               in (case err of None \<Rightarrow> Returns () | Some e \<Rightarrow> Fails e,
                   save_vm_state_in_vm_pool marked state pf1, l)
           | Action_Release \<Rightarrow> finish_delete rm marked pf1 (snd st)
           | Action_None \<Rightarrow> (Returns (), save_vm_state_in_vm_pool marked VM_In_Use pf1, snd st)))"

subsection \<open>VerifyVMs\<close>

definition verify_one :: "'c remote \<Rightarrow> 'c \<Rightarrow> ('c \<Rightarrow> string option) \<Rightarrow> vm \<Rightarrow> string option" where
  "verify_one rm access echo v =
     (let ext = (if vm_external_ip v = '''' then None
            else case rm_client rm (vm_external_ip v) of
                Inl e \<Rightarrow> Some (''failed to verify vm '' @ vm_name v @ '': '' @ e)
              | Inr c \<Rightarrow> echo c)
      in if ext \<noteq> None then ext
         else if vm_internal_ip v = '''' then None
         else case rm_hop rm access (vm_internal_ip v) of Inl e \<Rightarrow> Some e | Inr c \<Rightarrow> echo c)"

fun first_error :: "('a \<Rightarrow> string option) \<Rightarrow> 'a list \<Rightarrow> string option" where
  "first_error f [] = None"
| "first_error f (x # xs) = (case f x of None \<Rightarrow> first_error f xs | Some e \<Rightarrow> Some e)"

definition verify_vms :: "'c remote \<Rightarrow> ('c \<Rightarrow> string option) \<Rightarrow> platform \<Rightarrow> vm list \<Rightarrow> string option go" where
  "verify_vms rm echo pf vms =
     (if vms = [] then Returns None
      else case pf_pool pf of
        None \<Rightarrow> Panics
      | Some pool \<Rightarrow>
          (case find (\<lambda>v. vm_external_ip v \<noteq> '''') pool of
             None \<Rightarrow> Returns (Some ''At least one VM should have access to external network'')
           | Some a \<Rightarrow>
               (case rm_client rm (vm_external_ip a) of
                  Inl e \<Rightarrow> Returns (Some (''can't get ssh client for '' @ vm_external_ip a @ '', '' @ e))
                | Inr access \<Rightarrow> Returns (first_error (verify_one rm access echo) vms))))"

subsection \<open>The pool before and after\<close>

text \<open>A pool is well-formed when its names are unique and a free VM belongs to no group.\<close>

definition pool_ok :: "vm list \<Rightarrow> bool" where
  "pool_ok pool \<longleftrightarrow> distinct (map vm_name pool) \<and>
     (\<forall>v\<in>set pool. vm_state v = VM_Free \<longrightarrow> vm_group v = '''' \<and> vm_internal_name v = '''')"

text \<open>A VM without its time stamp.\<close>

definition untimed :: "vm \<Rightarrow> vm" where
  "untimed v = v\<lparr>vm_updated_at := 0\<rparr>"

lemma save_vm_name [simp]: "vm_name (save_vm ns st v) = vm_name v"
  by (simp add: save_vm_def Let_def)

lemma save_vm_other [simp]: "vm_name v \<notin> set ns \<Longrightarrow> save_vm ns st v = v"
  by (simp add: save_vm_def)

lemma map_save_names [simp]: "map vm_name (map (save_vm ns st) pool) = map vm_name pool"
  by (simp add: comp_def)

lemma save_vm_free:
  "vm_state (save_vm ns st v) = VM_Free \<Longrightarrow> vm_name v \<in> set ns \<Longrightarrow>
     vm_group (save_vm ns st v) = '''' \<and> vm_internal_name (save_vm ns st v) = ''''"
  by (auto simp: save_vm_def Let_def split: if_splits)

lemma save_pool_ok: "pool_ok pool \<Longrightarrow> pool_ok (map (save_vm ns st) pool)"
  unfolding pool_ok_def map_save_names
  by (auto simp: save_vm_def Let_def split: if_splits)

lemma pf_pool_update_info [simp]: "pf_pool (update_vm_pool_info pf) = pf_pool pf"
  by (simp add: update_vm_pool_info_def split: option.split)

lemma pf_flavors_update_info [simp]: "pf_flavors (update_vm_pool_info pf) = pf_flavors pf"
  by (simp add: update_vm_pool_info_def split: option.split)

lemma pf_pool_save:
  "pf_pool (save_vm_state_in_vm_pool vms st pf) = map_option (map (save_vm (gkeys vms) st)) (pf_pool pf)"
  by (simp add: save_vm_state_in_vm_pool_def split: option.split)

lemma mark_vms_for_actionD:
  assumes "mark_vms_for_action gs now act grp specs pf = Returns (marked, pf1)" and "pf_pool pf = Some pool"
  obtains pool1 where "mark_vms_in gs now act grp specs pool = Returns (pool1, marked)"
    "pf_pool pf1 = Some pool1" "pf_flavors pf1 = pf_flavors pf"
  using assms by (auto simp: mark_vms_for_action_def Let_def split: if_splits)

context vm_marker
begin

lemma mark_pool_ok:
  assumes "mark a pool = Returns (pool', marked)" and "pool_ok pool"
  shows "pool_ok pool'"
proof -
  have d: "distinct (map vm_name pool)" using assms(2) by (simp add: pool_ok_def)
  have "vm_group v' = '''' \<and> vm_internal_name v' = ''''" if "v' \<in> set pool'" "vm_state v' = VM_Free" for v'
  proof -
    obtain i where i: "i < length pool" "v' = pool' ! i"
      using \<open>v' \<in> set pool'\<close> mark_names[OF assms(1) d] by (metis in_set_conv_nth length_map)
    have "if vm_name (pool ! i) \<in> set (gkeys marked) then touch a (pool ! i) v' else v' = pool ! i"
      using list_all2_nthD[OF mark_changes[OF assms(1) d] i(1)] i(2) by simp
    then have "v' = pool ! i" using that(2) by (auto split: if_splits dest: touch_state)
    then show ?thesis using that(2) assms(2) i by (simp add: pool_ok_def)
  qed
  then show ?thesis using d mark_names[OF assms(1) d] by (simp add: pool_ok_def)
qed

lemma mark_save:
  assumes "mark a pool = Returns (pool', marked)" and "distinct (map vm_name pool)"
  shows "list_all2 (\<lambda>v w. if vm_name v \<in> set (gkeys marked)
      then \<exists>v'. touch a v v' \<and> w = save_vm [vm_name v'] st v' else w = v)
    pool (map (save_vm (gkeys marked) st) pool')"
  unfolding list_all2_conv_all_nth
proof (intro conjI allI impI)
  show len: "length pool = length (map (save_vm (gkeys marked) st) pool')"
    using mark_names[OF assms] by (metis length_map)
  fix i
  assume i: "i < length pool"
  have e: "vm_name (pool' ! i) = vm_name (pool ! i) \<and> (if vm_name (pool ! i) \<in> set (gkeys marked)
      then touch a (pool ! i) (pool' ! i) else pool' ! i = pool ! i)"
    using list_all2_nthD[OF mark_changes[OF assms] i] .
  have "save_vm (gkeys marked) st v = save_vm [vm_name v] st v" if "vm_name v \<in> set (gkeys marked)" for v
    using that by (simp add: save_vm_def)
  then show "if vm_name (pool ! i) \<in> set (gkeys marked)
      then \<exists>v'. touch a (pool ! i) v' \<and> map (save_vm (gkeys marked) st) pool' ! i = save_vm [vm_name v'] st v'
      else map (save_vm (gkeys marked) st) pool' ! i = pool ! i"
    using e i len by (auto split: if_splits)
qed

end

lemma mark_vms_in_pool_ok:
  assumes "mark_vms_in gs now act grp specs pool = Returns (pool', marked)" and "pool_ok pool"
  shows "pool_ok pool' \<and> list_all2 same_machine pool pool'"
proof -
  have d: "distinct (map vm_name pool)" using assms(2) by (simp add: pool_ok_def)
  show ?thesis
  proof (cases "act = Action_Allocate")
    case True
    then have m: "mark_vms_for_allocation gs now grp pool specs = Returns (pool', marked)"
      using assms(1) by (simp add: mark_vms_in_def)
    show ?thesis
      using alloc.mark_pool_ok[of "(gs, now, grp, specs)" pool, unfolded prod.case, OF m assms(2)]
        alloc.mark_machines[of "(gs, now, grp, specs)" pool, unfolded prod.case, OF m d] ..
  next
    case False
    then have m: "mark_vms_for_release now grp pool specs = Returns (pool', marked)"
      using assms(1) by (simp add: mark_vms_in_def)
    show ?thesis
      using rel.mark_pool_ok[of "(now, grp, specs)" pool, unfolded prod.case, OF m assms(2)]
        rel.mark_machines[of "(now, grp, specs)" pool, unfolded prod.case, OF m d] ..
  qed
qed

subsection \<open>The invariant of the pool\<close>

text \<open>The platform holds a well-formed pool of the same machines as \<open>pool0\<close>, in the same order.\<close>

definition platform_ok :: "vm list \<Rightarrow> platform \<Rightarrow> bool" where
  "platform_ok pool0 pf \<longleftrightarrow> (\<exists>pool. pf_pool pf = Some pool \<and> pool_ok pool \<and> list_all2 same_machine pool0 pool)"

lemma same_machines_trans:
  "list_all2 same_machine xs ys \<Longrightarrow> list_all2 same_machine ys zs \<Longrightarrow> list_all2 same_machine xs zs"
  by (rule list_all2_trans[of same_machine same_machine]) (auto intro: same_machine_trans)

lemma save_same_machines: "list_all2 same_machine pool (map (save_vm ns st) pool)"
  by (auto simp: list_all2_conv_all_nth same_machine_def save_vm_def Let_def)

lemma save_platform_ok:
  assumes "platform_ok p0 pf"
  shows "platform_ok p0 (save_vm_state_in_vm_pool vms st pf)"
proof -
  obtain pool where "pf_pool pf = Some pool" "pool_ok pool" "list_all2 same_machine p0 pool"
    using assms by (auto simp: platform_ok_def)
  then show ?thesis
    using save_pool_ok same_machines_trans[OF _ save_same_machines] by (simp add: platform_ok_def pf_pool_save)
qed

lemma mark_platform_ok:
  assumes "mark_vms_for_action gs now act grp specs pf = Returns (marked, pf1)" and "platform_ok p0 pf"
  shows "platform_ok p0 pf1"
proof -
  obtain pool where pool: "pf_pool pf = Some pool" "pool_ok pool" "list_all2 same_machine p0 pool"
    using assms(2) by (auto simp: platform_ok_def)
  obtain pool1 where m: "mark_vms_in gs now act grp specs pool = Returns (pool1, marked)"
    and p1: "pf_pool pf1 = Some pool1"
    by (rule mark_vms_for_actionD[OF assms(1) pool(1)])
  show ?thesis
    using mark_vms_in_pool_ok[OF m pool(2)] p1 same_machines_trans[OF pool(3)] by (simp add: platform_ok_def)
qed

lemma finish_delete_ok:
  "finish_delete rm marked pf1 l = (r, pf', l') \<Longrightarrow> platform_ok p0 pf1 \<Longrightarrow> platform_ok p0 pf'"
  by (auto simp: finish_delete_def Let_def save_platform_ok split: prod.splits go.splits)

lemma create_vms_ok:
  "create_vms rm gs now grp orch (pf, l) = (r, pf', l') \<Longrightarrow> platform_ok p0 pf \<Longrightarrow> platform_ok p0 pf'"
  by (auto simp: create_vms_def Let_def split: prod.splits go.splits
      intro!: save_platform_ok dest: mark_platform_ok)

lemma delete_vms_ok:
  "delete_vms rm now grp (pf, l) = (r, pf', l') \<Longrightarrow> platform_ok p0 pf \<Longrightarrow> platform_ok p0 pf'"
  by (auto simp: delete_vms_def split: prod.splits go.splits dest: mark_platform_ok finish_delete_ok)

lemma update_vms_ok:
  assumes "update_vms rm gs now grp orch (pf, l) = (r, pf', l')" and "platform_ok p0 pf"
  shows "platform_ok p0 pf'"
proof (cases "update_vms_internal gs now grp orch pf")
  case (Returns a)
  obtain marked act pf1 where a: "a = (marked, act, pf1)" by (cases a) auto
  have "platform_ok p0 pf1"
    using Returns assms(2) by (auto simp: a update_vms_internal_def Let_def split: option.splits if_splits
        dest: mark_platform_ok)
  then show ?thesis
    using assms(1) by (auto simp: update_vms_def Returns a Let_def split: vm_action.splits prod.splits
        intro: save_platform_ok finish_delete_ok)
qed (use assms in \<open>auto simp: update_vms_def\<close>)

text \<open>Any sequence of creations, deletions and updates, whatever the remote side answers.\<close>

inductive pool_step :: "platform \<times> 'c cmd_log \<Rightarrow> platform \<times> 'c cmd_log \<Rightarrow> bool" where
  create: "create_vms rm gs now grp orch s = (r, s') \<Longrightarrow> pool_step s s'"
| delete: "delete_vms rm now grp s = (r, s') \<Longrightarrow> pool_step s s'"
| update: "update_vms rm gs now grp orch s = (r, s') \<Longrightarrow> pool_step s s'"

inductive_cases pool_stepE: "pool_step s s'"

lemma pool_step_ok: "pool_step s s' \<Longrightarrow> platform_ok p0 (fst s) \<Longrightarrow> platform_ok p0 (fst s')"
  by (erule pool_stepE)
    (metis create_vms_ok delete_vms_ok update_vms_ok prod.collapse)+

lemma pool_steps_ok: "pool_step\<^sup>*\<^sup>* s s' \<Longrightarrow> platform_ok p0 (fst s) \<Longrightarrow> platform_ok p0 (fst s')"
  by (induction rule: rtranclp_induct) (auto dest: pool_step_ok)

subsection \<open>What a creation leaves behind\<close>

lemma create_vms_cases:
  assumes "create_vms rm gs now grp orch (pf, l) = (r, pf', l')" and "pf_pool pf = Some pool"
  obtains (refused) "r \<noteq> Returns ()" "pf' = pf"
  | (created) specs pool1 marked where "create_specs (pf_flavors pf) orch = Returns specs"
      "mark_vms_for_allocation gs now grp pool specs = Returns (pool1, marked)"
      "pf_pool pf' = Some (map (save_vm (gkeys marked) (if r = Returns () then VM_In_Use else VM_Free)) pool1)"
proof (cases "go_bind (create_specs (pf_flavors pf) orch)
        (\<lambda>specs. mark_vms_for_action gs now Action_Allocate grp specs pf)")
  case (Returns m)
  obtain marked pf1 where m: "m = (marked, pf1)" by (cases m)
  obtain specs where specs: "create_specs (pf_flavors pf) orch = Returns specs"
    and act: "mark_vms_for_action gs now Action_Allocate grp specs pf = Returns (marked, pf1)"
    using Returns m by auto
  obtain pool1 where pool1: "mark_vms_for_allocation gs now grp pool specs = Returns (pool1, marked)"
      "pf_pool pf1 = Some pool1"
    by (rule mark_vms_for_actionD[OF act assms(2)]) (simp add: mark_vms_in_def)
  have "pf_pool pf' = Some (map (save_vm (gkeys marked) (if r = Returns () then VM_In_Use else VM_Free)) pool1)"
    using assms(1) Returns m pool1(2)
    by (auto simp: create_vms_def Let_def pf_pool_save split: prod.splits option.splits)
  with specs pool1(1) show thesis by (rule created)
qed (use assms(1) refused in \<open>auto simp: create_vms_def\<close>)

lemma alloc_free_untimed:
  assumes "mark_vms_for_allocation gs now grp pool specs = Returns (pool1, marked)" and "pool_ok pool"
  shows "map untimed (map (save_vm (gkeys marked) VM_Free) pool1) = map untimed pool"
proof -
  have d: "distinct (map vm_name pool)" using assms(2) by (simp add: pool_ok_def)
  have l: "list_all2 (\<lambda>v w. if vm_name v \<in> set (gkeys marked)
      then \<exists>v'. alloc_touch grp v v' \<and> w = save_vm [vm_name v'] VM_Free v' else w = v)
      pool (map (save_vm (gkeys marked) VM_Free) pool1)"
    using alloc.mark_save[of "(gs, now, grp, specs)" pool pool1 marked, unfolded prod.case, OF assms(1) d] .
  show ?thesis
  proof (rule nth_equalityI)
    show len: "length (map untimed (map (save_vm (gkeys marked) VM_Free) pool1)) = length (map untimed pool)"
      using l by (auto dest: list_all2_lengthD)
    fix i
    assume "i < length (map untimed (map (save_vm (gkeys marked) VM_Free) pool1))"
    then have i: "i < length pool" using len by simp
    let ?w = "map (save_vm (gkeys marked) VM_Free) pool1 ! i"
    have "if vm_name (pool ! i) \<in> set (gkeys marked)
      then \<exists>v'. alloc_touch grp (pool ! i) v' \<and> ?w = save_vm [vm_name v'] VM_Free v' else ?w = pool ! i"
      using list_all2_nthD[OF l i] .
    moreover have "vm_state (pool ! i) = VM_Free \<Longrightarrow> vm_group (pool ! i) = '''' \<and> vm_internal_name (pool ! i) = ''''"
      using assms(2) i by (simp add: pool_ok_def)
    ultimately have "untimed ?w = untimed (pool ! i)"
      by (auto simp: alloc_touch_def save_vm_def Let_def untimed_def split: if_splits)
    then show "map untimed (map (save_vm (gkeys marked) VM_Free) pool1) ! i = map untimed pool ! i"
      using i len by simp
  qed
qed

lemma create_specs_names:
  "create_specs flavors orch = Returns specs \<Longrightarrow> map sp_internal_name specs = map ov_name orch"
  by (induction orch arbitrary: specs)
    (auto simp: spec_of_def split: if_splits option.splits)

lemma alloc_in_use_nth:
  assumes "mark_vms_for_allocation gs now grp pool specs = Returns (pool1, marked)"
    and "distinct (map vm_name pool)"
  obtains vs where "list_all2 (meets gs) specs vs" "set vs \<subseteq> set pool" "distinct (map vm_name vs)"
    "\<And>i. i < length pool \<Longrightarrow> untimed (map (save_vm (gkeys marked) VM_In_Use) pool1 ! i) =
      (case map_of (zip (map vm_name vs) (map sp_internal_name specs)) (vm_name (pool ! i)) of
         None \<Rightarrow> untimed (pool ! i)
       | Some n \<Rightarrow> untimed ((pool ! i)\<lparr>vm_state := VM_In_Use, vm_group := grp, vm_internal_name := n\<rparr>))"
proof -
  obtain vs where vs: "list_all2 (meets gs) specs vs" "distinct (map vm_name vs)" "set vs \<subseteq> set pool"
      "length pool1 = length pool" "set (gkeys marked) = vm_name ` set vs"
    and nth: "\<And>i. i < length pool \<Longrightarrow> pool1 ! i =
       (case map_of (zip (map vm_name vs) (map sp_internal_name specs)) (vm_name (pool ! i)) of
          None \<Rightarrow> pool ! i
        | Some n \<Rightarrow> (pool ! i)\<lparr>vm_state := VM_In_Progress, vm_group := grp, vm_internal_name := n,
                               vm_updated_at := now i\<rparr>)"
    using allocation_outcome[OF assms] by blast
  have len: "length specs = length vs" using vs(1) by (rule list_all2_lengthD)
  have "untimed (map (save_vm (gkeys marked) VM_In_Use) pool1 ! i) =
      (case map_of (zip (map vm_name vs) (map sp_internal_name specs)) (vm_name (pool ! i)) of
         None \<Rightarrow> untimed (pool ! i)
       | Some n \<Rightarrow> untimed ((pool ! i)\<lparr>vm_state := VM_In_Use, vm_group := grp, vm_internal_name := n\<rparr>))"
    if i: "i < length pool" for i
  proof (cases "map_of (zip (map vm_name vs) (map sp_internal_name specs)) (vm_name (pool ! i))")
    case None
    then have "vm_name (pool ! i) \<notin> set (gkeys (zip (map vm_name vs) (map sp_internal_name specs)))"
      by (simp only: map_of_eq_None_iff) simp
    then have "vm_name (pool ! i) \<notin> vm_name ` set vs" using len by (simp add: map_fst_zip)
    then show ?thesis using None i vs(4,5) by (simp add: nth)
  next
    case (Some n)
    then have "vm_name (pool ! i) \<in> vm_name ` set vs"
      using len by (metis map_of_SomeD in_set_zipE set_map)
    then show ?thesis using Some i vs(4,5) by (simp add: nth save_vm_def untimed_def)
  qed
  with vs show thesis by (intro that) auto
qed

subsection \<open>The order of the remote commands\<close>

definition is_worker_cmd :: "remote_cmd \<Rightarrow> bool" where
  "is_worker_cmd cmd \<longleftrightarrow> (\<exists>a. cmd = K8s_Node a)"

definition master_addrs :: "('c \<times> remote_cmd) list \<Rightarrow> string list" where
  "master_addrs l = List.map_filter (\<lambda>e. case snd e of K8s_Master a \<Rightarrow> Some a | _ \<Rightarrow> None) l"

lemma master_addrs_simps [simp]:
  "master_addrs [] = []"
  "master_addrs (e # l) = (case snd e of K8s_Master a \<Rightarrow> a # master_addrs l | _ \<Rightarrow> master_addrs l)"
  "master_addrs (l @ l') = master_addrs l @ master_addrs l'"
  by (auto simp: master_addrs_def map_filter_def split: remote_cmd.splits)

text \<open>\<open>plain l l'\<close>: the log grew by commands that concern neither master nor worker.\<close>

definition plain :: "'c cmd_log \<Rightarrow> 'c cmd_log \<Rightarrow> bool" where
  "plain l l' \<longleftrightarrow> (\<exists>new. l' = l @ new \<and> (\<forall>e\<in>set new. \<not> is_worker_cmd (snd e)) \<and> master_addrs new = [])"

lemma plain_refl [simp]: "plain l l"
  by (simp add: plain_def)

lemma plain_trans: "plain l l1 \<Longrightarrow> plain l1 l2 \<Longrightarrow> plain l l2"
  by (auto simp: plain_def)

lemma plain_cmd:
  "run_cmd rm c cmd l = (e, l') \<Longrightarrow> \<not> is_worker_cmd cmd \<Longrightarrow> (\<And>a. cmd \<noteq> K8s_Master a) \<Longrightarrow> plain l l'"
  by (auto simp: run_cmd_def plain_def split: remote_cmd.split)

lemma plain_setup_hostname: "setup_hostname rm c n l = (e, l') \<Longrightarrow> plain l l'"
  by (auto simp: setup_hostname_def Let_def is_worker_cmd_def split: prod.splits if_splits
      dest!: plain_cmd intro: plain_trans)

lemma plain_setup_access_key: "setup_access_key rm c k l = (e, l') \<Longrightarrow> plain l l'"
  by (auto simp: setup_access_key_def Let_def is_worker_cmd_def split: prod.splits if_splits option.splits
      dest!: plain_cmd intro: plain_trans)

lemma plain_setup_chef: "setup_chef rm c p l = (e, l') \<Longrightarrow> plain l l'"
  by (auto simp: setup_chef_def Let_def is_worker_cmd_def split: prod.splits if_splits option.splits
      dest!: plain_cmd intro: plain_trans)

text \<open>One VM adds no worker command, and a master command exactly when it becomes the master.\<close>

lemma setup_vm_log:
  assumes "setup_vm rm access orch v master l = (e, master', l')"
  obtains new where "l' = l @ new" "\<forall>e\<in>set new. \<not> is_worker_cmd (snd e)"
    "master_addrs new = [] \<and> master' = master \<or> master_addrs new = [master']"
proof -
  have "plain l l' \<and> master' = master \<or>
      (\<exists>l4 c. plain l l4 \<and> l' = l4 @ [(c, K8s_Master master')])"
  proof (cases "map_of (roles_of orch) (vm_internal_name v)")
    case None
    then show ?thesis using assms by (simp add: setup_vm_def)
  next
    case (Some role)
    show ?thesis
    proof (cases "if vm_external_ip v = '''' then rm_hop rm access (vm_internal_ip v)
                 else rm_client rm (vm_external_ip v)")
      case (Inl e)
      then show ?thesis using assms Some by (simp add: setup_vm_def)
    next
      case (Inr c)
      obtain e1 l1 where s1: "run_cmd rm c Cleanup l = (e1, l1)" by fastforce
      obtain e2 l2 where s2: "setup_hostname rm c (vm_internal_name v) l1 = (e2, l2)" by fastforce
      obtain e3 l3 where s3: "setup_access_key rm c (map_of (keys_of orch) (vm_internal_name v)) l2 = (e3, l3)"
        by fastforce
      obtain e4 l4 where s4: "setup_chef rm c
          (case map_of (chefs_of orch) (vm_internal_name v) of None \<Rightarrow> None | Some p \<Rightarrow> p) l3 = (e4, l4)"
        by fastforce
      have p1: "plain l l1" using plain_cmd[OF s1] by (simp add: is_worker_cmd_def)
      have p3: "plain l l3"
        using plain_trans[OF plain_trans[OF p1 plain_setup_hostname[OF s2]] plain_setup_access_key[OF s3]] .
      have p4: "plain l l4" using plain_trans[OF p3 plain_setup_chef[OF s4]] .
      obtain e5 l5 where s5: "run_cmd rm c (K8s_Master (vm_internal_ip v)) l4 = (e5, l5)"
        and l5: "l5 = l4 @ [(c, K8s_Master (vm_internal_ip v))]" by (simp add: run_cmd_def)
      show ?thesis
        using assms p1 p3 p4 l5
        by (auto simp: setup_vm_def Some Inr s1 s2 s3 s4 s5 Let_def split: if_splits)
    qed
  qed
  then show thesis
  proof
    assume "plain l l' \<and> master' = master"
    then show thesis by (auto simp: plain_def intro: that)
  next
    assume "\<exists>l4 c. plain l l4 \<and> l' = l4 @ [(c, K8s_Master master')]"
    then obtain new c where "l' = l @ (new @ [(c, K8s_Master master')])"
        "\<forall>e\<in>set new. \<not> is_worker_cmd (snd e)" "master_addrs new = []"
      by (auto simp: plain_def)
    then show thesis by (intro that[of "new @ [(c, K8s_Master master')]"]) (auto simp: is_worker_cmd_def)
  qed
qed

lemma setup_vms_log:
  assumes "setup_vms rm access orch vs master l = (e, master', l')"
  shows "\<exists>new. l' = l @ new \<and> (\<forall>e\<in>set new. \<not> is_worker_cmd (snd e)) \<and>
    master' = (if master_addrs new = [] then master else last (master_addrs new))"
  using assms
proof (induction vs arbitrary: master l)
  case Nil
  then show ?case by simp
next
  case (Cons nv vs)
  obtain n v where nv: "nv = (n, v)" by (cases nv)
  obtain e1 m1 l1 where one: "setup_vm rm access orch v master l = (e1, m1, l1)" by (metis prod_cases3)
  obtain new1 where new1: "l1 = l @ new1" "\<forall>e\<in>set new1. \<not> is_worker_cmd (snd e)"
    "master_addrs new1 = [] \<and> m1 = master \<or> master_addrs new1 = [m1]"
    by (rule setup_vm_log[OF one])
  show ?case
  proof (cases e1)
    case None
    then obtain new2 where "l' = l1 @ new2" "\<forall>e\<in>set new2. \<not> is_worker_cmd (snd e)"
        "master' = (if master_addrs new2 = [] then m1 else last (master_addrs new2))"
      using Cons.IH[of m1 l1] Cons.prems nv one by auto
    then show ?thesis using new1 by (intro exI[of _ "new1 @ new2"]) auto
  next
    case (Some x)
    then show ?thesis using Cons.prems nv one new1 by auto
  qed
qed

lemma start_workers_log:
  "start_workers rm access orch addr vs errs l = (e, errs', l') \<Longrightarrow>
     \<exists>new. l' = l @ new \<and> (\<forall>e\<in>set new. snd e = K8s_Node addr)"
proof (induction vs arbitrary: errs l)
  case (Cons nv vs)
  obtain n v where "nv = (n, v)" by (cases nv)
  then show ?case
    using Cons by (fastforce simp: Let_def run_cmd_def split: if_splits sum.splits)
qed simp

lemma create_vms_internal_log:
  assumes "create_vms_internal rm pf marked orch l = (err, l')"
  shows "\<exists>prep workers addr. l' = l @ prep @ workers \<and>
    (\<forall>e\<in>set prep. \<not> is_worker_cmd (snd e)) \<and>
    (\<forall>e\<in>set workers. snd e = K8s_Node addr) \<and>
    (workers \<noteq> [] \<longrightarrow> addr \<noteq> '''' \<and>
       (if master_addrs prep = [] \<or> last (master_addrs prep) = '''' then find_master rm pf orch = Inr addr
        else addr = last (master_addrs prep)))"
proof (cases "get_access_client rm pf")
  case (Inl e)
  then show ?thesis using assms by (simp add: create_vms_internal_def)
next
  case (Inr access)
  obtain e1 master l1 where s: "setup_vms rm access orch (rm_order rm 0 marked) '''' l = (e1, master, l1)"
    by (metis prod_cases3)
  obtain prep where prep: "l1 = l @ prep" "\<forall>e\<in>set prep. \<not> is_worker_cmd (snd e)"
      "master = (if master_addrs prep = [] then '''' else last (master_addrs prep))"
    using setup_vms_log[OF s] by blast
  have stop: ?thesis if "l' = l1"
    using that prep by (intro exI[of _ prep] exI[of _ "[]"]) auto
  show ?thesis
  proof (cases "e1 \<noteq> None")
    case True
    then show ?thesis using assms Inr s stop by (simp add: create_vms_internal_def)
  next
    case False
    show ?thesis
    proof (cases "if master = '''' then find_master rm pf orch else Inr master")
      case (Inl e)
      then show ?thesis using assms Inr s False stop by (simp add: create_vms_internal_def)
    next
      case addr: (Inr addr)
      show ?thesis
      proof (cases "addr = ''''")
        case True
        then show ?thesis using assms Inr s False addr stop by (simp add: create_vms_internal_def)
      next
        case ne: False
        obtain e2 errs l2 where w: "start_workers rm access orch addr (rm_order rm 1 marked) [] l1 = (e2, errs, l2)"
          by (metis prod_cases3)
        obtain workers where "l2 = l1 @ workers" "\<forall>e\<in>set workers. snd e = K8s_Node addr"
          using start_workers_log[OF w] by blast
        moreover have "l' = l2"
          using assms Inr s False addr ne w by (simp add: create_vms_internal_def split: if_splits)
        ultimately show ?thesis
          using prep addr ne by (intro exI[of _ prep] exI[of _ workers] exI[of _ addr])
            (auto split: if_splits)
      qed
    qed
  qed
qed

subsection \<open>Properties\<close>

definition demo_remote :: "(string \<Rightarrow> bool) \<Rightarrow> string remote" where
  "demo_remote broken = \<lparr>rm_client = (\<lambda>ip. Inr ip), rm_hop = (\<lambda>_ ip. if broken ip then Inl ''unreachable'' else Inr ip),
     rm_result = (\<lambda>_ _ _. None), rm_timeout = False, rm_sanitize = (\<lambda>n. n),
     rm_order = (\<lambda>_ m. m), rm_roles_order = (\<lambda>m. m)\<rparr>"

definition demo_platform :: platform where
  "demo_platform = \<lparr>pf_pool = Some demo_pool, pf_info = None, pf_flavors = [demo_flavor],
     pf_root_lb = ''lb'', pf_external_network = ''external'', pf_mex_network = ''mex''\<rparr>"

definition demo_orch :: "orch_vm list" where
  "demo_orch = [\<lparr>ov_name = ''master'', ov_role = Role_Master, ov_ports = [], ov_flavor_name = ''small'',
     ov_access_key = '''', ov_chef = None\<rparr>,
     \<lparr>ov_name = ''node'', ov_role = Role_K8s_Node, ov_ports = [], ov_flavor_name = ''small'',
     ov_access_key = '''', ov_chef = None\<rparr>]"

lemma demo_pool_ok: "pool_ok demo_pool"
  by (simp add: pool_ok_def demo_pool_def demo_vm_def)

text \<open>
  C3 (pool\_invariant): whatever sequence of creations, deletions and updates runs, and whatever
  the remote side answers, the pool keeps exactly its machines in their order (name, addresses
  and flavor of each), with unique names, and no free VM belongs to a group or has an internal
  name.
\<close>

theorem pool_invariant:
  assumes "pool_step\<^sup>*\<^sup>* (pf, l) (pf', l')" and "pf_pool pf = Some pool" and "pool_ok pool"
  shows "\<exists>pool'. pf_pool pf' = Some pool' \<and> list_all2 same_machine pool pool' \<and>
    distinct (map vm_name pool') \<and>
    (\<forall>v\<in>set pool'. vm_state v = VM_Free \<longrightarrow> vm_group v = '''' \<and> vm_internal_name v = '''')"
proof -
  have "platform_ok pool (fst (pf, l))"
    using assms(2,3) by (simp add: platform_ok_def list_all2_refl)
  then have "platform_ok pool pf'" using pool_steps_ok[OF assms(1)] by simp
  then show ?thesis unfolding platform_ok_def pool_ok_def by blast
qed

theorem pool_invariant_witness:
  "\<exists>pf' l' pool'. pool_step\<^sup>*\<^sup>* (demo_platform, [] :: string cmd_log) (pf', l') \<and> pf_pool pf' = Some pool' \<and>
     list_all2 same_machine demo_pool pool'"
proof -
  obtain r pf' l' where c: "create_vms (demo_remote (\<lambda>_. False)) demo_get_spec (\<lambda>_. 7) ''grp'' demo_orch
      (demo_platform, []) = (r, pf', l')" by (metis prod_cases3)
  have s: "pool_step\<^sup>*\<^sup>* (demo_platform, []) (pf', l')"
    using pool_step.create[OF c] by (rule r_into_rtranclp)
  show ?thesis
    using pool_invariant[OF s _ demo_pool_ok] s by (simp add: demo_platform_def) blast
qed

text \<open>
  C20 (create\_vms\_outcome): a creation that succeeds leaves each requested VM on a pool VM of its
  own that was free and suitable, now \<open>IN_USE\<close> under the requested name in the group, and every
  other VM as it was; a creation that fails, at whatever point, leaves the pool as it was before
  (time stamps apart): no VM stays allocated.
\<close>

theorem create_vms_outcome:
  assumes "create_vms rm gs now grp orch (pf, l) = (r, pf', l')"
    and "pf_pool pf = Some pool" and "pool_ok pool"
  shows "\<exists>pool'. pf_pool pf' = Some pool' \<and> length pool' = length pool \<and>
    (if r \<noteq> Returns () then map untimed pool' = map untimed pool
     else \<exists>specs vs. create_specs (pf_flavors pf) orch = Returns specs \<and>
       list_all2 (meets gs) specs vs \<and> set vs \<subseteq> set pool \<and> distinct (map vm_name vs) \<and>
       (\<forall>i<length pool. untimed (pool' ! i) =
         (case map_of (zip (map vm_name vs) (map ov_name orch)) (vm_name (pool ! i)) of
            None \<Rightarrow> untimed (pool ! i)
          | Some n \<Rightarrow> untimed ((pool ! i)\<lparr>vm_state := VM_In_Use, vm_group := grp, vm_internal_name := n\<rparr>))))"
  using assms(1,2)
proof (cases rule: create_vms_cases)
  case refused
  then show ?thesis using assms(2) by simp
next
  case (created specs pool1 marked)
  have d: "distinct (map vm_name pool)" using assms(3) by (simp add: pool_ok_def)
  have len: "length pool1 = length pool"
    using alloc.mark_names[of "(gs, now, grp, specs)" pool, unfolded prod.case, OF created(2) d] by (metis length_map)
  show ?thesis
  proof (cases "r = Returns ()")
    case False
    then show ?thesis
      using alloc_free_untimed[OF created(2) assms(3)] created(3) len by simp
  next
    case True
    obtain vs where vs: "list_all2 (meets gs) specs vs" "set vs \<subseteq> set pool" "distinct (map vm_name vs)"
      and nth: "\<And>i. i < length pool \<Longrightarrow> untimed (map (save_vm (gkeys marked) VM_In_Use) pool1 ! i) =
      (case map_of (zip (map vm_name vs) (map sp_internal_name specs)) (vm_name (pool ! i)) of
         None \<Rightarrow> untimed (pool ! i)
       | Some n \<Rightarrow> untimed ((pool ! i)\<lparr>vm_state := VM_In_Use, vm_group := grp, vm_internal_name := n\<rparr>))"
      by (rule alloc_in_use_nth[OF created(2) d]) blast
    show ?thesis
      using created(1,3) vs nth[unfolded create_specs_names[OF created(1)]] len True
      by (intro exI[of _ "map (save_vm (gkeys marked) VM_In_Use) pool1"] conjI) (simp_all, blast)
  qed
qed

lemma demo_create:
  "\<exists>pf' l'. create_vms (demo_remote broken) demo_get_spec (\<lambda>_. 7) ''grp'' demo_orch (demo_platform, []) =
     ((if broken ''10.0.0.1'' then Fails ''unreachable'' else Returns ()), pf', l')"
  by (simp add: create_vms_def demo_platform_def demo_orch_def spec_of_def demo_flavor_def
      mark_vms_for_action_def mark_vms_in_def demo_vm_simps create_vms_internal_def get_access_client_def
      demo_remote_def save_vm_state_in_vm_pool_def update_vm_pool_info_def roles_of_def keys_of_def chefs_of_def
      setup_vm_def run_cmd_def setup_hostname_def setup_access_key_def setup_chef_def)

theorem create_vms_outcome_witness:
  "\<exists>pf' l' pool'. create_vms (demo_remote (\<lambda>_. True)) demo_get_spec (\<lambda>_. 7) ''grp'' demo_orch (demo_platform, []) =
     (Fails ''unreachable'', pf', l') \<and> pf_pool pf' = Some pool' \<and> map untimed pool' = map untimed demo_pool"
proof -
  obtain pf' l' where c: "create_vms (demo_remote (\<lambda>_. True)) demo_get_spec (\<lambda>_. 7) ''grp'' demo_orch
      (demo_platform, []) = (Fails ''unreachable'', pf', l')"
    using demo_create[of "\<lambda>_. True"] by auto
  have "pf_pool demo_platform = Some demo_pool" by (simp add: demo_platform_def)
  from create_vms_outcome[OF c this demo_pool_ok] c show ?thesis by auto
qed

text \<open>
  Note (master\_before\_workers): in every creation, all commands that prepare VMs and install k8s
  masters come before the first command that joins a worker, and all workers join the same
  non-empty address: that of the last master set up, or of an existing master when none was.
\<close>

theorem master_before_workers:
  assumes "create_vms_internal rm pf marked orch l = (err, l')"
  shows "\<exists>before workers addr. l' = l @ before @ workers \<and>
    (\<forall>(c, cmd)\<in>set before. \<forall>a. cmd \<noteq> K8s_Node a) \<and>
    (\<forall>(c, cmd)\<in>set workers. cmd = K8s_Node addr) \<and>
    (workers \<noteq> [] \<longrightarrow> addr \<noteq> '''' \<and>
       (if master_addrs before = [] \<or> last (master_addrs before) = '''' then find_master rm pf orch = Inr addr
        else addr = last (master_addrs before)))"
proof -
  obtain before workers addr where "l' = l @ before @ workers"
    "\<forall>e\<in>set before. \<not> is_worker_cmd (snd e)" "\<forall>e\<in>set workers. snd e = K8s_Node addr"
    "workers \<noteq> [] \<longrightarrow> addr \<noteq> '''' \<and>
       (if master_addrs before = [] \<or> last (master_addrs before) = '''' then find_master rm pf orch = Inr addr
        else addr = last (master_addrs before))"
    using create_vms_internal_log[OF assms] by blast
  then show ?thesis
    by (intro exI[of _ before] exI[of _ workers] exI[of _ addr]) (auto simp: is_worker_cmd_def)
qed

theorem master_before_workers_witness:
  "\<exists>err l' before workers addr. create_vms_internal (demo_remote (\<lambda>_. False)) demo_platform
      [(''vm2'', (demo_vm ''vm2'' '''')\<lparr>vm_internal_name := ''node''\<rparr>),
       (''vm3'', (demo_vm ''vm3'' '''')\<lparr>vm_internal_name := ''master''\<rparr>)] demo_orch [] = (err, l') \<and>
    l' = before @ workers \<and> (\<forall>(c, cmd)\<in>set workers. cmd = K8s_Node addr)"
proof -
  let ?ms = "[(''vm2'', (demo_vm ''vm2'' '''')\<lparr>vm_internal_name := ''node''\<rparr>),
       (''vm3'', (demo_vm ''vm3'' '''')\<lparr>vm_internal_name := ''master''\<rparr>)]"
  obtain err l' where r: "create_vms_internal (demo_remote (\<lambda>_. False)) demo_platform ?ms demo_orch [] = (err, l')"
    by fastforce
  obtain before workers addr where "l' = [] @ before @ workers" "\<forall>(c, cmd)\<in>set workers. cmd = K8s_Node addr"
    using master_before_workers[OF r] by blast
  with r show ?thesis by (intro exI[of _ err] exI[of _ l'] exI[of _ before] exI[of _ workers] exI[of _ addr]) simp
qed

text \<open>
  Note (master\_address\_differs): when a k8s worker is added to a cluster whose master sits on a VM
  with both networks, it is told the master's external address, whereas the master was
  installed with, and workers created together with it are told, the internal one.
\<close>

theorem master_address_differs:
  assumes "pf_pool pf = Some (pre @ v # post)"
    and "\<forall>u\<in>set pre. vm_internal_name u \<noteq> n" and "vm_internal_name v = n"
    and "vm_external_ip v \<noteq> ''''"
    and "find (\<lambda>(m, r). r = Role_Master) (rm_roles_order rm (roles_of orch)) = Some (n, Role_Master)"
    and "map_of (roles_of orch) n = Some Role_Master"
  shows "find_master rm pf orch = Inr (vm_external_ip v) \<and>
    (\<forall>e m' l'. setup_vm rm access orch v m l = (e, m', l') \<longrightarrow> e = None \<longrightarrow> m' = vm_internal_ip v)"
proof -
  have "find (\<lambda>u. vm_internal_name u = n) (pre @ v # post) = Some v"
    using assms(2,3) by (induction pre) auto
  then have "find_master rm pf orch = Inr (vm_external_ip v)"
    using assms(1,4,5) by (simp add: find_master_def get_server_detail_def server_addresses_def)
  moreover have "m' = vm_internal_ip v" if "setup_vm rm access orch v m l = (None, m', l')" for m' l'
    using that assms(3,6)
    by (auto simp: setup_vm_def Let_def split: option.splits sum.splits prod.splits if_splits)
  ultimately show ?thesis by blast
qed

theorem master_address_differs_witness:
  "find_master (demo_remote (\<lambda>_. False))
     (demo_platform\<lparr>pf_pool := Some [(demo_vm ''vm1'' ''1.2.3.4'')\<lparr>vm_internal_name := ''master''\<rparr>]\<rparr>) demo_orch
   = Inr ''1.2.3.4''"
  using master_address_differs[of "demo_platform\<lparr>pf_pool := Some [(demo_vm ''vm1'' ''1.2.3.4'')\<lparr>vm_internal_name := ''master''\<rparr>]\<rparr>"
      "[]" "(demo_vm ''vm1'' ''1.2.3.4'')\<lparr>vm_internal_name := ''master''\<rparr>" "[]" "''master''"
      "demo_remote (\<lambda>_. False)" demo_orch]
  by (simp add: demo_platform_def demo_vm_def demo_remote_def roles_of_def demo_orch_def)

subsection \<open>Releases\<close>

definition freed :: "vm \<Rightarrow> vm" where
  "freed v = v\<lparr>vm_state := VM_Free, vm_group := '''', vm_internal_name := ''''\<rparr>"

definition released :: "string \<Rightarrow> vm_spec list \<Rightarrow> vm \<Rightarrow> bool" where
  "released grp specs v \<longleftrightarrow> vm_group v = grp \<and>
     (vm_internal_name v \<in> sp_internal_name ` set specs \<or> specs = [])"

lemma release_save:
  assumes "mark_vms_for_release now grp pool specs = Returns (pool1, marked)"
    and "distinct (map vm_name pool)"
  shows "map untimed (map (save_vm (gkeys marked) st) pool1) =
    map (\<lambda>v. untimed (if released grp specs v
      then if st = VM_Free then freed v else v\<lparr>vm_state := st\<rparr> else v)) pool"
proof (rule nth_equalityI)
  let ?S = "vm_name ` {v \<in> set pool. released grp specs v}"
  have m: "marks (release_touch grp) ?S pool pool1 marked"
    using mark_vms_for_releaseD[OF assms] by (simp add: released_def)
  have len: "length pool1 = length pool" using m by (auto simp: marks_def dest: list_all2_lengthD)
  then show "length (map untimed (map (save_vm (gkeys marked) st) pool1)) =
      length (map (\<lambda>v. untimed (if released grp specs v
        then if st = VM_Free then freed v else v\<lparr>vm_state := st\<rparr> else v)) pool)" by simp
  fix i
  assume "i < length (map untimed (map (save_vm (gkeys marked) st) pool1))"
  then have i: "i < length pool" using len by simp
  have in_S: "vm_name (pool ! i) \<in> ?S \<longleftrightarrow> released grp specs (pool ! i)"
    using assms(2) i by (auto simp: distinct_map inj_on_def)
  note e = marks_nth(2,3)[OF m i] and keys = marks_nth(4)[OF m i]
  have "untimed (save_vm (gkeys marked) st (pool1 ! i)) = untimed (if released grp specs (pool ! i)
      then if st = VM_Free then freed (pool ! i) else (pool ! i)\<lparr>vm_state := st\<rparr> else pool ! i)"
  proof (cases "released grp specs (pool ! i)")
    case True
    then have "release_touch grp (pool ! i) (pool1 ! i)" "vm_name (pool1 ! i) \<in> set (gkeys marked)"
      using e keys in_S by simp_all
    then show ?thesis using True
      by (auto simp: release_touch_def save_vm_def untimed_def freed_def Let_def)
  next
    case False
    then have "pool1 ! i = pool ! i" "vm_name (pool1 ! i) \<notin> set (gkeys marked)"
      using e keys in_S by simp_all
    then show ?thesis using False by simp
  qed
  then show "map untimed (map (save_vm (gkeys marked) st) pool1) ! i =
      map (\<lambda>v. untimed (if released grp specs v
        then if st = VM_Free then freed v else v\<lparr>vm_state := st\<rparr> else v)) pool ! i"
    using i len by simp
qed

lemma finish_delete_pool:
  assumes "finish_delete rm marked pf1 l = (r, pf', l')" and "r \<noteq> Panics"
  shows "pf_pool pf' = map_option (map (save_vm (gkeys marked) (if r = Returns () then VM_Free else VM_In_Use)))
    (pf_pool pf1)"
proof (cases "delete_vms_internal rm pf1 marked l")
  case (Pair x l2)
  have "x \<noteq> Fails e" for e
  proof -
    have "fst (cleanup_vms rm access vs err l) \<noteq> Fails e" for access vs err l
      by (induction rm access vs err l rule: cleanup_vms.induct)
        (auto simp: Let_def split: option.split sum.split prod.split)
    then show ?thesis
      using Pair by (auto simp: delete_vms_internal_def split: sum.splits) (metis fst_conv)
  qed
  then show ?thesis
    using assms Pair by (cases x) (auto simp: finish_delete_def Let_def pf_pool_save split: option.splits)
qed

lemma delete_vms_pool:
  assumes "delete_vms rm now grp (pf, l) = (r, pf', l')" and "pf_pool pf = Some pool"
    and "distinct (map vm_name pool)" and "r \<noteq> Panics"
  shows "\<exists>pool'. pf_pool pf' = Some pool' \<and>
    (map untimed pool' = map (\<lambda>v. untimed (if vm_group v = grp
        then if r = Returns () then freed v else v\<lparr>vm_state := VM_In_Use\<rparr> else v)) pool \<or>
     r \<noteq> Returns () \<and> pool' = pool)"
proof (cases "mark_vms_for_action (\<lambda>_ _. Inl '''') now Action_Release grp [] pf")
  case (Returns m)
  obtain marked pf1 where m: "m = (marked, pf1)" by (cases m)
  obtain pool1 where p1: "mark_vms_for_release now grp pool [] = Returns (pool1, marked)" "pf_pool pf1 = Some pool1"
    by (rule mark_vms_for_actionD[OF Returns[unfolded m] assms(2)]) (simp add: mark_vms_in_def)
  have "finish_delete rm marked pf1 l = (r, pf', l')"
    using assms(1) Returns m by (simp add: delete_vms_def)
  then have "pf_pool pf' = Some (map (save_vm (gkeys marked) (if r = Returns () then VM_Free else VM_In_Use)) pool1)"
    using finish_delete_pool assms(4) p1(2) by fastforce
  then show ?thesis
    using release_save[OF p1(1) assms(3), of "if r = Returns () then VM_Free else VM_In_Use"]
    by (simp add: released_def cong: if_cong)
qed (use assms in \<open>auto simp: delete_vms_def\<close>)

text \<open>
  C23 (delete\_undoes\_create): deleting a group that was just created, when both calls succeed,
  gives back the pool as it was before the creation, time stamps apart.
\<close>

theorem delete_undoes_create:
  assumes "create_vms rm gs now grp orch (pf, l) = (Returns (), pf1, l1)"
    and "pf_pool pf = Some pool" and "pool_ok pool" and "\<forall>v\<in>set pool. vm_group v \<noteq> grp"
    and "delete_vms rm' now' grp (pf1, l2) = (Returns (), pf2, l3)"
  shows "\<exists>pool'. pf_pool pf2 = Some pool' \<and> map untimed pool' = map untimed pool"
  using assms(1,2)
proof (cases rule: create_vms_cases)
  case refused
  then show ?thesis by simp
next
  case (created specs pool1 marked)
  have d: "distinct (map vm_name pool)" using assms(3) by (simp add: pool_ok_def)
  let ?pool1 = "map (save_vm (gkeys marked) VM_In_Use) pool1"
  have names1: "map vm_name pool1 = map vm_name pool"
    using alloc.mark_names[of "(gs, now, grp, specs)" pool, unfolded prod.case, OF created(2) d] .
  then have d1: "distinct (map vm_name ?pool1)" using d by (simp only: map_save_names)
  have p1: "pf_pool pf1 = Some ?pool1" using created(3) by simp
  obtain pool' where pool': "pf_pool pf2 = Some pool'"
    "map untimed pool' = map (\<lambda>v. untimed (if vm_group v = grp then freed v else v)) ?pool1"
    using delete_vms_pool[OF assms(5) p1 d1] by (auto cong: if_cong)
  obtain vs where vs: "list_all2 (meets gs) specs vs" "set vs \<subseteq> set pool" "distinct (map vm_name vs)"
    and nth: "\<And>i. i < length pool \<Longrightarrow> untimed (?pool1 ! i) =
      (case map_of (zip (map vm_name vs) (map sp_internal_name specs)) (vm_name (pool ! i)) of
         None \<Rightarrow> untimed (pool ! i)
       | Some n \<Rightarrow> untimed ((pool ! i)\<lparr>vm_state := VM_In_Use, vm_group := grp, vm_internal_name := n\<rparr>))"
    by (rule alloc_in_use_nth[OF created(2) d]) blast
  have free: "untimed (freed v) = untimed v" if "v \<in> set pool" "vm_name v \<in> vm_name ` set vs" for v
  proof -
    obtain w where w: "w \<in> set vs" "vm_name w = vm_name v" using \<open>vm_name v \<in> _\<close> by auto
    then have "w = v" using d vs(2) \<open>v \<in> set pool\<close> by (auto simp: distinct_map inj_on_def)
    then obtain spec where "meets gs spec v"
      using vs(1) w(1) by (metis in_set_conv_nth list_all2_conv_all_nth)
    then show ?thesis
      using assms(3) that(1) by (auto simp: meets_def pool_ok_def freed_def untimed_def)
  qed
  have untimed_group: "untimed u = untimed v \<Longrightarrow> vm_group u = vm_group v" for u v
    by (drule arg_cong[of _ _ vm_group]) (simp add: untimed_def)
  have untimed_freed: "untimed u = untimed v \<Longrightarrow> untimed (freed u) = untimed (freed v)" for u v
    by (cases u; cases v) (simp add: untimed_def freed_def)
  have "map (\<lambda>v. untimed (if vm_group v = grp then freed v else v)) ?pool1 = map untimed pool"
  proof (rule nth_equalityI)
    show len: "length (map (\<lambda>v. untimed (if vm_group v = grp then freed v else v)) ?pool1) = length (map untimed pool)"
      using names1 by (metis length_map)
    fix i
    assume "i < length (map (\<lambda>v. untimed (if vm_group v = grp then freed v else v)) ?pool1)"
    then have i: "i < length pool" using len by simp
    let ?u = "?pool1 ! i" and ?v = "pool ! i"
    have "untimed (if vm_group ?u = grp then freed ?u else ?u) = untimed ?v"
    proof (cases "map_of (zip (map vm_name vs) (map sp_internal_name specs)) (vm_name ?v)")
      case None
      then have u: "untimed ?u = untimed ?v" using nth[OF i] by simp
      moreover have "vm_group ?u \<noteq> grp" using untimed_group[OF u] assms(4) i by simp
      ultimately show ?thesis by (simp only: if_False)
    next
      case (Some n)
      let ?w = "?v\<lparr>vm_state := VM_In_Use, vm_group := grp, vm_internal_name := n\<rparr>"
      have u: "untimed ?u = untimed ?w" using nth[OF i] Some by simp
      have "vm_name ?v \<in> vm_name ` set vs"
        using Some by (metis map_of_SomeD in_set_zipE set_map)
      then have "untimed (freed ?v) = untimed ?v" using free i by simp
      moreover have "vm_group ?u = grp" using untimed_group[OF u] by simp
      moreover have "freed ?w = freed ?v" by (simp add: freed_def)
      ultimately show ?thesis using untimed_freed[OF u] by simp
    qed
    then show "map (\<lambda>v. untimed (if vm_group v = grp then freed v else v)) ?pool1 ! i = map untimed pool ! i"
      using i len by (simp only: nth_map length_map)
  qed
  with pool' show ?thesis by simp
qed

lemma demo_create_delete:
  "\<exists>pf1 l1 pf2 l3. create_vms (demo_remote (\<lambda>_. False)) demo_get_spec (\<lambda>_. 7) ''grp'' demo_orch (demo_platform, [])
       = (Returns (), pf1, l1) \<and>
     delete_vms (demo_remote (\<lambda>_. False)) (\<lambda>_. 8) ''grp'' (pf1, []) = (Returns (), pf2, l3)"
  by (simp add: create_vms_def demo_platform_def demo_orch_def spec_of_def demo_flavor_def
      mark_vms_for_action_def mark_vms_in_def demo_vm_simps create_vms_internal_def get_access_client_def
      demo_remote_def save_vm_state_in_vm_pool_def update_vm_pool_info_def roles_of_def keys_of_def chefs_of_def
      setup_vm_def run_cmd_def setup_hostname_def setup_access_key_def setup_chef_def save_vm_def
      delete_vms_def mark_vms_for_release_def finish_delete_def delete_vms_internal_def)

theorem delete_undoes_create_witness:
  "\<exists>pf1 l1 pf2 l3 pool'. create_vms (demo_remote (\<lambda>_. False)) demo_get_spec (\<lambda>_. 7) ''grp'' demo_orch (demo_platform, [])
       = (Returns (), pf1, l1) \<and>
     delete_vms (demo_remote (\<lambda>_. False)) (\<lambda>_. 8) ''grp'' (pf1, []) = (Returns (), pf2, l3) \<and>
     pf_pool pf2 = Some pool' \<and> map untimed pool' = map untimed demo_pool"
proof -
  obtain pf1 l1 pf2 l3 where c: "create_vms (demo_remote (\<lambda>_. False)) demo_get_spec (\<lambda>_. 7) ''grp'' demo_orch (demo_platform, [])
       = (Returns (), pf1, l1)"
    and d: "delete_vms (demo_remote (\<lambda>_. False)) (\<lambda>_. 8) ''grp'' (pf1, []) = (Returns (), pf2, l3)"
    using demo_create_delete by blast
  have p: "pf_pool demo_platform = Some demo_pool" and g: "\<forall>v\<in>set demo_pool. vm_group v \<noteq> ''grp''"
    by (simp_all add: demo_platform_def demo_pool_def demo_vm_def)
  show ?thesis using delete_undoes_create[OF c p demo_pool_ok g d] c d by blast
qed

text \<open>
  Note (delete\_vms\_outcome): a deletion that succeeds frees exactly the VMs of the group; one that
  fails either changes nothing (a VM of the group is busy) or leaves the VMs of the group
  \<open>IN_USE\<close>, still in the group, so that it can be tried again.
\<close>

theorem delete_vms_outcome:
  assumes "delete_vms rm now grp (pf, l) = (r, pf', l')" and "pf_pool pf = Some pool"
    and "distinct (map vm_name pool)" and "r \<noteq> Panics"
  shows "\<exists>pool'. pf_pool pf' = Some pool' \<and>
    (map untimed pool' = map (\<lambda>v. untimed (if vm_group v = grp
        then if r = Returns () then freed v else v\<lparr>vm_state := VM_In_Use\<rparr> else v)) pool \<or>
     r \<noteq> Returns () \<and> pool' = pool)"
  using assms by (rule delete_vms_pool)

lemma demo_delete_busy:
  "delete_vms (demo_remote (\<lambda>_. False)) (\<lambda>_. 8) ''grp''
     (demo_platform\<lparr>pf_pool := Some [(demo_vm ''vm1'' '''')\<lparr>vm_group := ''grp'', vm_state := VM_In_Progress,
        vm_internal_name := ''n1''\<rparr>]\<rparr>, [])
   = (Fails ''Unable to release VM n1 as it is busy'',
      demo_platform\<lparr>pf_pool := Some [(demo_vm ''vm1'' '''')\<lparr>vm_group := ''grp'', vm_state := VM_In_Progress,
        vm_internal_name := ''n1''\<rparr>]\<rparr>, [])"
  by (simp add: delete_vms_def mark_vms_for_action_def mark_vms_in_def mark_vms_for_release_def demo_vm_def demo_platform_def)

theorem delete_vms_outcome_witness:
  "\<exists>pool'. pf_pool (demo_platform\<lparr>pf_pool := Some [(demo_vm ''vm1'' '''')\<lparr>vm_group := ''grp'', vm_state := VM_In_Progress,
        vm_internal_name := ''n1''\<rparr>]\<rparr>) = Some pool' \<and> length pool' = 1"
  using delete_vms_outcome[OF demo_delete_busy] by (simp add: demo_vm_def)

subsection \<open>Updates\<close>

definition group_names :: "string \<Rightarrow> vm list \<Rightarrow> string set" where
  "group_names grp pool = vm_internal_name ` {v \<in> set pool. vm_group v = grp}"

lemma in_group_names:
  "n \<in> group_names grp pool \<longleftrightarrow> (\<exists>v\<in>set pool. vm_group v = grp \<and> vm_internal_name v = n)"
  by (auto simp: group_names_def)

lemma in_group_names_map:
  "n \<in> group_names grp (map f pool) \<longleftrightarrow> (\<exists>v\<in>set pool. vm_group (f v) = grp \<and> vm_internal_name (f v) = n)"
  by (auto simp: in_group_names)

lemma untimed_sel [simp]:
  "vm_group (untimed v) = vm_group v" "vm_internal_name (untimed v) = vm_internal_name v"
  "vm_state (untimed v) = vm_state v" "vm_name (untimed v) = vm_name v"
  by (simp_all add: untimed_def)

lemma group_names_untimed: "group_names grp (map untimed pool) = group_names grp pool"
  by (rule set_eqI) (simp add: in_group_names_map in_group_names)

lemma existing_names_set [simp]: "set (existing_names grp pool) = group_names grp pool"
  by (auto simp: existing_names_def group_names_def)

lemma new_specs_names:
  "new_specs flavors existing orch = Returns specs \<Longrightarrow>
     map sp_internal_name specs = filter (\<lambda>n. n \<notin> set existing) (map ov_name orch)"
  by (induction orch arbitrary: specs) (auto simp: spec_of_def split: option.splits if_splits)

lemma alloc_group_names:
  assumes "mark_vms_for_allocation gs now grp pool specs = Returns (pool1, marked)"
    and "pool_ok pool" and "grp \<noteq> ''''"
  shows "group_names grp (map (save_vm (gkeys marked) VM_In_Use) pool1) =
    group_names grp pool \<union> sp_internal_name ` set specs"
proof -
  have d: "distinct (map vm_name pool)" using assms(2) by (simp add: pool_ok_def)
  let ?q = "map (save_vm (gkeys marked) VM_In_Use) pool1"
  obtain vs where vs: "list_all2 (meets gs) specs vs" "set vs \<subseteq> set pool" "distinct (map vm_name vs)"
    and nth: "\<And>i. i < length pool \<Longrightarrow> untimed (?q ! i) =
      (case map_of (zip (map vm_name vs) (map sp_internal_name specs)) (vm_name (pool ! i)) of
         None \<Rightarrow> untimed (pool ! i)
       | Some n \<Rightarrow> untimed ((pool ! i)\<lparr>vm_state := VM_In_Use, vm_group := grp, vm_internal_name := n\<rparr>))"
    by (rule alloc_in_use_nth[OF assms(1) d]) blast
  define sel where "sel = map_of (zip (map vm_name vs) (map sp_internal_name specs))"
  have len: "length vs = length specs" using vs(1) by (auto dest: list_all2_lengthD)
  have lenq: "length ?q = length pool"
    using alloc.mark_names[of "(gs, now, grp, specs)" pool, unfolded prod.case, OF assms(1) d]
    by (metis length_map)
  have ran_sel: "ran sel = sp_internal_name ` set specs"
    unfolding sel_def using vs(3) len by (subst ran_map_of_zip) simp_all
  have dom_sel: "dom sel = vm_name ` set vs"
    unfolding sel_def using len by (simp add: dom_map_of_zip)
  have old: "sel (vm_name v) = None" if "v \<in> set pool" "vm_group v = grp" for v
  proof (rule ccontr)
    assume "sel (vm_name v) \<noteq> None"
    then have "vm_name v \<in> vm_name ` set vs" using dom_sel by blast
    then obtain w where w: "w \<in> set vs" "vm_name w = vm_name v" by auto
    then have "w = v" using d vs(2) \<open>v \<in> set pool\<close> by (auto simp: distinct_map inj_on_def)
    then obtain spec where "meets gs spec v"
      using vs(1) w(1) by (metis in_set_conv_nth list_all2_conv_all_nth)
    then show False using assms(2,3) that by (auto simp: meets_def pool_ok_def)
  qed
  have q: "map untimed ?q = map (\<lambda>v. case sel (vm_name v) of None \<Rightarrow> untimed v
      | Some n \<Rightarrow> untimed (v\<lparr>vm_state := VM_In_Use, vm_group := grp, vm_internal_name := n\<rparr>)) pool"
    by (rule nth_equalityI) (use lenq nth in \<open>simp_all add: sel_def del: length_map\<close>, simp_all)
  have "n \<in> group_names grp ?q \<longleftrightarrow> n \<in> group_names grp pool \<or> n \<in> ran sel" for n
  proof -
    have "n \<in> group_names grp ?q \<longleftrightarrow>
        (\<exists>v\<in>set pool. (case sel (vm_name v) of None \<Rightarrow> vm_group v = grp \<and> vm_internal_name v = n
            | Some m \<Rightarrow> m = n))"
      unfolding group_names_untimed[of grp ?q, symmetric] q in_group_names_map
      by (intro bex_cong refl) (simp split: option.split)
    also have "\<dots> \<longleftrightarrow> (\<exists>v\<in>set pool. vm_group v = grp \<and> vm_internal_name v = n \<or> sel (vm_name v) = Some n)"
      using old by (intro bex_cong refl) (auto split: option.split)
    also have "\<dots> \<longleftrightarrow> n \<in> group_names grp pool \<or> (\<exists>v\<in>set pool. sel (vm_name v) = Some n)"
      by (auto simp: in_group_names)
    also have "(\<exists>v\<in>set pool. sel (vm_name v) = Some n) \<longleftrightarrow> n \<in> ran sel"
      using dom_sel vs(2) by (auto simp: ran_def dom_def) (metis (mono_tags) imageE mem_Collect_eq option.distinct(1) subsetD)
    finally show ?thesis .
  qed
  then show ?thesis using ran_sel by auto
qed

lemma release_group_names:
  assumes "mark_vms_for_release now grp pool specs = Returns (pool1, marked)"
    and "distinct (map vm_name pool)" and "grp \<noteq> ''''" and "specs \<noteq> []"
  shows "group_names grp (map (save_vm (gkeys marked) VM_Free) pool1) =
    group_names grp pool - sp_internal_name ` set specs"
proof -
  have m: "map untimed (map (save_vm (gkeys marked) VM_Free) pool1) =
      map (\<lambda>v. untimed (if released grp specs v then freed v else v)) pool"
    using release_save[OF assms(1,2), of VM_Free] by simp
  have "group_names grp (map (save_vm (gkeys marked) VM_Free) pool1) =
      group_names grp (map (\<lambda>v. untimed (if released grp specs v then freed v else v)) pool)"
    unfolding group_names_untimed[of grp "map (save_vm (gkeys marked) VM_Free) pool1", symmetric] m ..
  also have "\<dots> = group_names grp pool - sp_internal_name ` set specs"
    by (rule set_eqI) (use assms(3,4) in \<open>auto simp: in_group_names_map in_group_names released_def freed_def\<close>)
  finally show ?thesis .
qed

lemma release_specs_names [simp]: "sp_internal_name (release_spec n) = n"
  by (simp add: release_spec_def)

lemma update_vms_cases:
  assumes "update_vms rm gs now grp orch (pf, l) = (Returns (), pf', l')" and "pf_pool pf = Some pool"
  obtains (none) "group_names grp pool \<subseteq> ov_name ` set orch" "ov_name ` set orch \<subseteq> group_names grp pool"
      "pf_pool pf' = Some (map (save_vm [] VM_In_Use) pool)"
  | (allocate) specs pool1 marked where "specs \<noteq> []"
      "sp_internal_name ` set specs = ov_name ` set orch - group_names grp pool"
      "mark_vms_for_allocation gs now grp pool specs = Returns (pool1, marked)"
      "pf_pool pf' = Some (map (save_vm (gkeys marked) VM_In_Use) pool1)"
  | (release) specs pool1 marked where "specs \<noteq> []" "ov_name ` set orch \<subseteq> group_names grp pool"
      "sp_internal_name ` set specs = group_names grp pool - ov_name ` set orch"
      "mark_vms_for_release now grp pool specs = Returns (pool1, marked)"
      "pf_pool pf' = Some (map (save_vm (gkeys marked) VM_Free) pool1)"
proof -
  obtain marked act pf1 where u: "update_vms_internal gs now grp orch pf = Returns (marked, act, pf1)"
    using assms(1) by (auto simp: update_vms_def split: go.splits)
  let ?ex = "existing_names grp pool"
  obtain specs where specs: "new_specs (pf_flavors pf) ?ex orch = Returns specs"
    using u assms(2) by (auto simp: update_vms_internal_def Let_def)
  have names: "sp_internal_name ` set specs = ov_name ` set orch - group_names grp pool"
    using arg_cong[OF new_specs_names[OF specs], of set] by auto
  let ?gone = "filter (\<lambda>n. n \<notin> ov_name ` set orch) ?ex"
  have u': "update_vms_internal gs now grp orch pf =
      (if specs = [] \<and> ?gone = [] then Returns ([], Action_None, pf)
       else if specs \<noteq> []
       then go_bind (mark_vms_for_action gs now Action_Allocate grp specs pf)
              (\<lambda>(marked, pf1). Returns (marked, Action_Allocate, pf1))
       else go_bind (mark_vms_for_action gs now Action_Release grp (map release_spec ?gone) pf)
              (\<lambda>(marked, pf1). Returns (marked, Action_Release, pf1)))"
    using assms(2) specs by (simp add: update_vms_internal_def Let_def)
  consider (n) "specs = []" "?gone = []" | (a) "specs \<noteq> []" | (r) "specs = []" "?gone \<noteq> []" by blast
  then show thesis
  proof cases
    case n
    then have "marked = []" "act = Action_None" "pf1 = pf" using u u' by auto
    then have "pf_pool pf' = Some (map (save_vm [] VM_In_Use) pool)"
      using assms u by (auto simp: update_vms_def pf_pool_save)
    moreover have "\<forall>x\<in>set ?ex. x \<in> ov_name ` set orch" using n(2) by (simp add: filter_empty_conv)
    ultimately show thesis using none n(1) names by (auto simp: subset_iff)
  next
    case a
    then have act: "act = Action_Allocate"
      and m: "mark_vms_for_action gs now Action_Allocate grp specs pf = Returns (marked, pf1)"
      using u u' by auto
    obtain pool1 where p: "mark_vms_for_allocation gs now grp pool specs = Returns (pool1, marked)" "pf_pool pf1 = Some pool1"
      by (rule mark_vms_for_actionD[OF m assms(2)]) (simp add: mark_vms_in_def)
    have "pf_pool pf' = Some (map (save_vm (gkeys marked) VM_In_Use) pool1)"
      using assms(1) u act p(2) by (auto simp: update_vms_def Let_def pf_pool_save split: prod.splits option.splits)
    then show thesis using allocate a names p(1) by blast
  next
    case r
    then have act: "act = Action_Release"
      and m: "mark_vms_for_action gs now Action_Release grp (map release_spec ?gone) pf = Returns (marked, pf1)"
      using u u' by auto
    obtain pool1 where p: "mark_vms_for_release now grp pool (map release_spec ?gone) = Returns (pool1, marked)"
        "pf_pool pf1 = Some pool1"
      by (rule mark_vms_for_actionD[OF m assms(2)]) (simp add: mark_vms_in_def)
    have "finish_delete rm marked pf1 l = (Returns (), pf', l')"
      using assms(1) u act by (simp add: update_vms_def)
    then have "pf_pool pf' = Some (map (save_vm (gkeys marked) VM_Free) pool1)"
      using finish_delete_pool p(2) by fastforce
    moreover have "sp_internal_name ` set (map release_spec ?gone) = group_names grp pool - ov_name ` set orch"
      by (auto simp: image_image)
    ultimately show thesis using release[of "map release_spec ?gone" pool1 marked] r names p(1) by simp
  qed
qed

text \<open>
  Note (update\_vms\_group): what an update makes of the group.  When every requested VM already
  exists, the group ends up with exactly the requested VMs; when some are new, they are added
  and nothing is removed, even if VMs of the group are no longer requested.
\<close>

theorem update_vms_group:
  assumes "update_vms rm gs now grp orch (pf, l) = (Returns (), pf', l')"
    and "pf_pool pf = Some pool" and "pool_ok pool" and "grp \<noteq> ''''"
  shows "\<exists>pool'. pf_pool pf' = Some pool' \<and>
    group_names grp pool' =
      (if ov_name ` set orch \<subseteq> group_names grp pool then ov_name ` set orch
       else group_names grp pool \<union> ov_name ` set orch)"
  using assms(1,2)
proof (cases rule: update_vms_cases)
  case none
  then show ?thesis by (simp add: map_idI)
next
  case (allocate specs pool1 marked)
  then have "\<not> ov_name ` set orch \<subseteq> group_names grp pool"
    using allocate(1,2) by (metis Diff_eq_empty_iff image_is_empty set_empty)
  then show ?thesis
    using alloc_group_names[OF allocate(3) assms(3,4)] allocate(2,4) by auto
next
  case (release specs pool1 marked)
  have "distinct (map vm_name pool)" using assms(3) by (simp add: pool_ok_def)
  from release_group_names[OF release(4) this assms(4) release(1)] show ?thesis
    using release(2,3,5) by auto
qed

lemma demo_update:
  "\<exists>pf1 l1. update_vms (demo_remote (\<lambda>_. False)) demo_get_spec (\<lambda>_. 7) ''grp'' demo_orch (demo_platform, [])
       = (Returns (), pf1, l1)"
  by (simp add: update_vms_def update_vms_internal_def demo_platform_def demo_orch_def spec_of_def
      existing_names_def demo_flavor_def
      mark_vms_for_action_def mark_vms_in_def demo_vm_simps create_vms_internal_def get_access_client_def
      demo_remote_def save_vm_state_in_vm_pool_def update_vm_pool_info_def roles_of_def keys_of_def chefs_of_def
      setup_vm_def run_cmd_def setup_hostname_def setup_access_key_def setup_chef_def)

theorem update_vms_group_witness:
  "\<exists>pf1 l1 pool'. update_vms (demo_remote (\<lambda>_. False)) demo_get_spec (\<lambda>_. 7) ''grp'' demo_orch (demo_platform, [])
       = (Returns (), pf1, l1) \<and> pf_pool pf1 = Some pool' \<and> group_names ''grp'' pool' = {''master'', ''node''}"
proof -
  obtain pf1 l1 where u: "update_vms (demo_remote (\<lambda>_. False)) demo_get_spec (\<lambda>_. 7) ''grp'' demo_orch (demo_platform, [])
       = (Returns (), pf1, l1)" using demo_update by blast
  have p: "pf_pool demo_platform = Some demo_pool" by (simp add: demo_platform_def)
  have "group_names ''grp'' demo_pool = {}" by (auto simp: group_names_def demo_pool_def demo_vm_def)
  then show ?thesis using update_vms_group[OF u p demo_pool_ok] u by (auto simp: demo_orch_def)
qed

end
