(* ===== verification/MC_Rbac.thy ===== *)
theory MC_Rbac
  imports Prelude
begin

text \<open>
  Role-based access control of the master controller, \<open>src/mc/rbac\<close>: the \<open>casbin_rule\<close> table
  and its adapter, the enforcer and its management calls.  The table is the list of its rows.
  A database failure is an answer of the function \<open>db_err\<close> to the call that is made.  The
  abstract specification is the Casbin matcher of \<open>model.go\<close>, which the code says it follows.
  What the users of the store rely on is the locale \<open>policy_store\<close>.
\<close>

subsection \<open>The table\<close>

record casbin_rule =
  r_ptype :: string
  r_v0 :: string
  r_v1 :: string
  r_v2 :: string
  r_v3 :: string
  r_v4 :: string
  r_v5 :: string

datatype db_call =
    Call_Authorized string string
  | Call_Permissions string
  | Call_Policies string
  | Call_Has casbin_rule
  | Call_Add casbin_rule
  | Call_Remove casbin_rule
  | Call_User string
  | Call_Org string
  | Call_Table string
  | Call_Find string string
  | Call_Create string string
  | Call_Save string string
  | Call_Delete string string

type_synonym db_err = "db_call \<Rightarrow> string option"

abbreviation no_err :: db_err where
  "no_err \<equiv> \<lambda>_. None"

definition field :: "string list \<Rightarrow> nat \<Rightarrow> string" where
  "field rule i = (if i < length rule then rule ! i else '''')"

definition get_casbin_rule :: "string \<Rightarrow> string list \<Rightarrow> casbin_rule" where
  "get_casbin_rule ptype rule =
     \<lparr>r_ptype = ptype, r_v0 = field rule 0, r_v1 = field rule 1, r_v2 = field rule 2,
      r_v3 = field rule 3, r_v4 = field rule 4, r_v5 = field rule 5\<rparr>"

definition to_policy :: "casbin_rule \<Rightarrow> string \<times> string list" where
  "to_policy c =
     (r_ptype c,
      if r_v0 c = '''' then []
      else if r_v1 c = '''' then [r_v0 c]
      else if r_v2 c = '''' then [r_v0 c, r_v1 c]
      else if r_v3 c = '''' then [r_v0 c, r_v1 c, r_v2 c]
      else if r_v4 c = '''' then [r_v0 c, r_v1 c, r_v2 c, r_v3 c]
      else if r_v5 c = '''' then [r_v0 c, r_v1 c, r_v2 c, r_v3 c, r_v4 c]
      else [r_v0 c, r_v1 c, r_v2 c, r_v3 c, r_v4 c, r_v5 c])"

subsection \<open>Adapter\<close>

text \<open>A \<open>where\<close> clause on the fields that are not empty.\<close>

definition field_matches :: "string \<Rightarrow> string \<Rightarrow> bool" where
  "field_matches want have \<longleftrightarrow> want = '''' \<or> have = want"

definition values_match :: "casbin_rule \<Rightarrow> casbin_rule \<Rightarrow> bool" where
  "values_match line r \<longleftrightarrow>
     field_matches (r_v0 line) (r_v0 r) \<and> field_matches (r_v1 line) (r_v1 r) \<and>
     field_matches (r_v2 line) (r_v2 r) \<and> field_matches (r_v3 line) (r_v3 r) \<and>
     field_matches (r_v4 line) (r_v4 r) \<and> field_matches (r_v5 line) (r_v5 r)"

definition get_policies :: "db_err \<Rightarrow> string \<Rightarrow> casbin_rule list \<Rightarrow> string + string list list" where
  "get_policies err ptype tbl =
     (case err (Call_Policies ptype) of
        Some e \<Rightarrow> Inl e
      | None \<Rightarrow> Inr (map (snd \<circ> to_policy) (filter (\<lambda>r. field_matches ptype (r_ptype r)) tbl)))"

definition has_policy :: "db_err \<Rightarrow> string \<Rightarrow> string list \<Rightarrow> casbin_rule list \<Rightarrow> string + bool" where
  "has_policy err ptype rule tbl =
     (let line = get_casbin_rule ptype rule in
      case err (Call_Has line) of
        Some e \<Rightarrow> Inl e
      | None \<Rightarrow> Inr (list_ex (\<lambda>r. field_matches ptype (r_ptype r) \<and> values_match line r) tbl))"

definition add_policy ::
    "db_err \<Rightarrow> string \<Rightarrow> string list \<Rightarrow> casbin_rule list \<Rightarrow> string option \<times> casbin_rule list" where
  "add_policy err ptype rule tbl =
     (let line = get_casbin_rule ptype rule in
      case err (Call_Add line) of
        Some e \<Rightarrow> (Some e, tbl)
      | None \<Rightarrow> (None, if line \<in> set tbl then tbl else tbl @ [line]))"

definition raw_delete :: "casbin_rule \<Rightarrow> casbin_rule list \<Rightarrow> casbin_rule list" where
  "raw_delete line tbl = filter (\<lambda>r. \<not> (r_ptype r = r_ptype line \<and> values_match line r)) tbl"

definition remove_policy ::
    "db_err \<Rightarrow> string \<Rightarrow> string list \<Rightarrow> casbin_rule list \<Rightarrow> string option \<times> casbin_rule list" where
  "remove_policy err ptype rule tbl =
     (let line = get_casbin_rule ptype rule in
      case err (Call_Remove line) of
        Some e \<Rightarrow> (Some e, tbl)
      | None \<Rightarrow> (None, raw_delete line tbl))"

text \<open>The rows of the join in \<open>GetAuthorized\<close>, (subject, role), and the map built from them.\<close>

definition authorized_rows :: "string \<Rightarrow> string \<Rightarrow> casbin_rule list \<Rightarrow> (string \<times> string) list" where
  "authorized_rows obj act tbl =
     concat (map (\<lambda>p. map (\<lambda>g. (r_v0 g, r_v0 p))
                        (filter (\<lambda>g. r_ptype g = ''g'' \<and> r_v1 g = r_v0 p) tbl))
       (filter (\<lambda>p. r_ptype p = ''p'' \<and> r_v1 p = obj \<and> r_v2 p = act) tbl))"

definition get_authorized ::
    "db_err \<Rightarrow> string \<Rightarrow> string \<Rightarrow> casbin_rule list \<Rightarrow> string + (string, string) gmap" where
  "get_authorized err obj act tbl =
     (case err (Call_Authorized obj act) of
        Some e \<Rightarrow> Inl e
      | None \<Rightarrow> Inr (fold (\<lambda>(subj, role). gput subj role) (authorized_rows obj act tbl) []))"

definition get_casbin_group :: "string \<Rightarrow> string \<Rightarrow> string" where
  "get_casbin_group org username = (if org = '''' then username else org @ ''::'' @ username)"

definition get_permissions ::
    "db_err \<Rightarrow> string \<Rightarrow> string \<Rightarrow> casbin_rule list \<Rightarrow> string + (string \<times> string) list" where
  "get_permissions err username org tbl =
     (let subj = get_casbin_group org username in
      case err (Call_Permissions subj) of
        Some e \<Rightarrow> Inl e
      | None \<Rightarrow> Inr (remdups (concat (map (\<lambda>g. map (\<lambda>p. (r_v1 p, r_v2 p))
                        (filter (\<lambda>p. r_ptype p = ''p'' \<and> r_v0 p = r_v1 g) tbl))
           (filter (\<lambda>g. r_ptype g = ''g'' \<and> r_v0 g = subj) tbl)))))"

subsection \<open>Enforcer\<close>

text \<open>Allowed, and whether it was decided without the organization.\<close>

definition enforce ::
    "db_err \<Rightarrow> string \<Rightarrow> string \<Rightarrow> string \<Rightarrow> string \<Rightarrow> casbin_rule list \<Rightarrow> string + bool \<times> bool" where
  "enforce err sub org obj act tbl =
     (case get_authorized err obj act tbl of
        Inl e \<Rightarrow> Inl e
      | Inr authz \<Rightarrow>
          if map_of authz (get_casbin_group org sub) \<noteq> None then Inr (True, False)
          else Inr (map_of authz sub \<noteq> None, True))"

definition get_authorized_orgs ::
    "db_err \<Rightarrow> string \<Rightarrow> string \<Rightarrow> string \<Rightarrow> casbin_rule list \<Rightarrow> string + string list" where
  "get_authorized_orgs err sub obj act tbl =
     (case get_authorized err obj act tbl of
        Inl e \<Rightarrow> Inl e
      | Inr authz \<Rightarrow> Inr (remdups (concat (map (\<lambda>(k, _).
          let orguser = strings_split k ''::'' in
          (if k = sub then [''''] else []) @
          (if length orguser = 2 \<and> orguser ! 1 = sub then [orguser ! 0] else [])) authz))))"

text \<open>The management calls.\<close>

definition enf_add_policy where "enf_add_policy err params = add_policy err ''p'' params"
definition enf_remove_policy where "enf_remove_policy err params = remove_policy err ''p'' params"
definition enf_add_grouping_policy where "enf_add_grouping_policy err params = add_policy err ''g'' params"
definition enf_remove_grouping_policy where "enf_remove_grouping_policy err params = remove_policy err ''g'' params"
definition enf_get_policy where "enf_get_policy err = get_policies err ''p''"
definition enf_get_grouping_policy where "enf_get_grouping_policy err = get_policies err ''g''"
definition enf_has_policy where "enf_has_policy err params = has_policy err ''p'' params"
definition enf_has_grouping_policy where "enf_has_grouping_policy err params = has_policy err ''g'' params"

subsection \<open>The matcher of model.go\<close>

text \<open>\<open>has_p\<close> and \<open>has_g\<close> are the rows of the table that the matcher speaks of.\<close>

definition has_p :: "casbin_rule list \<Rightarrow> string \<Rightarrow> string \<Rightarrow> string \<Rightarrow> bool" where
  "has_p tbl role obj act \<longleftrightarrow>
     (\<exists>r\<in>set tbl. r_ptype r = ''p'' \<and> r_v0 r = role \<and> r_v1 r = obj \<and> r_v2 r = act)"

definition has_g :: "casbin_rule list \<Rightarrow> string \<Rightarrow> string \<Rightarrow> bool" where
  "has_g tbl subj role \<longleftrightarrow> (\<exists>r\<in>set tbl. r_ptype r = ''g'' \<and> r_v0 r = subj \<and> r_v1 r = role)"

text \<open>\<open>m = (g(r.org + "::" + r.sub, p.sub) || g(r.sub, p.sub)) && r.obj == p.obj && r.act == p.act\<close>,
  allowed when some policy matches.\<close>

definition matcher :: "casbin_rule list \<Rightarrow> string \<Rightarrow> string \<Rightarrow> string \<Rightarrow> string \<Rightarrow> bool" where
  "matcher tbl sub org obj act \<longleftrightarrow>
     (\<exists>role. (has_g tbl (org @ ''::'' @ sub) role \<or> has_g tbl sub role) \<and> has_p tbl role obj act)"

text \<open>A subject that holds a role with the permission.\<close>

definition granted :: "casbin_rule list \<Rightarrow> string \<Rightarrow> string \<Rightarrow> string \<Rightarrow> bool" where
  "granted tbl subj obj act \<longleftrightarrow> (\<exists>role. has_g tbl subj role \<and> has_p tbl role obj act)"

lemma authorized_rows_iff:
  "(subj, role) \<in> set (authorized_rows obj act tbl) \<longleftrightarrow> has_g tbl subj role \<and> has_p tbl role obj act"
  by (auto simp: authorized_rows_def has_g_def has_p_def)

lemma map_of_fold_gput:
  "map_of (fold (\<lambda>(k, v). gput k v) kvs m) k \<noteq> None \<longleftrightarrow> k \<in> fst ` set kvs \<or> map_of m k \<noteq> None"
  by (induction kvs arbitrary: m) (auto split: if_splits)

lemma get_authorized_dom:
  assumes "get_authorized err obj act tbl = Inr authz"
  shows "map_of authz subj \<noteq> None \<longleftrightarrow> granted tbl subj obj act"
proof -
  have "authz = fold (\<lambda>(subj, role). gput subj role) (authorized_rows obj act tbl) []"
    using assms by (auto simp: get_authorized_def split: option.splits)
  then have "map_of authz subj \<noteq> None \<longleftrightarrow> subj \<in> fst ` set (authorized_rows obj act tbl)"
    using map_of_fold_gput[of "authorized_rows obj act tbl" "[]" subj] by simp
  also have "\<dots> \<longleftrightarrow> granted tbl subj obj act"
    using authorized_rows_iff[of subj _ obj act tbl] by (force simp: granted_def)
  finally show ?thesis .
qed

lemma enforce_granted:
  assumes "enforce err sub org obj act tbl = Inr (allow, admin)"
  shows "allow \<longleftrightarrow> granted tbl (get_casbin_group org sub) obj act \<or> granted tbl sub obj act"
    and "admin \<longleftrightarrow> \<not> granted tbl (get_casbin_group org sub) obj act"
proof -
  obtain authz where "get_authorized err obj act tbl = Inr authz"
    using assms by (auto simp: enforce_def split: sum.splits)
  then show "allow \<longleftrightarrow> granted tbl (get_casbin_group org sub) obj act \<or> granted tbl sub obj act"
    and "admin \<longleftrightarrow> \<not> granted tbl (get_casbin_group org sub) obj act"
    using assms get_authorized_dom[of err obj act tbl authz]
    by (auto simp: enforce_def split: if_splits)
qed

lemma enforce_no_err: "enforce no_err sub org obj act tbl =
    Inr (granted tbl (get_casbin_group org sub) obj act \<or> granted tbl sub obj act,
         \<not> granted tbl (get_casbin_group org sub) obj act)"
proof -
  obtain allow admin where e: "enforce no_err sub org obj act tbl = Inr (allow, admin)"
    by (cases "enforce no_err sub org obj act tbl")
      (auto simp: enforce_def get_authorized_def split: if_splits)
  then show ?thesis using enforce_granted[OF e] by simp
qed

lemma enforce_error: "enforce err sub org obj act tbl = Inl e \<longleftrightarrow> err (Call_Authorized obj act) = Some e"
  by (auto simp: enforce_def get_authorized_def split: option.splits if_splits)

text \<open>
  The permissions listed for a user in an organization are those its group is granted.
\<close>

lemma get_permissions_iff:
  assumes "get_permissions err user org tbl = Inr perms"
  shows "(obj, act) \<in> set perms \<longleftrightarrow> granted tbl (get_casbin_group org user) obj act"
proof -
  let ?subj = "get_casbin_group org user"
  have "set perms = {(r_v1 p, r_v2 p) |g p. g \<in> set tbl \<and> r_ptype g = ''g'' \<and> r_v0 g = ?subj \<and>
      p \<in> set tbl \<and> r_ptype p = ''p'' \<and> r_v0 p = r_v1 g}"
    using assms by (fastforce simp: get_permissions_def Let_def split: option.splits)
  then have "(obj, act) \<in> set perms \<longleftrightarrow> (\<exists>g\<in>set tbl. r_ptype g = ''g'' \<and> r_v0 g = ?subj \<and> has_p tbl (r_v1 g) obj act)"
    by (auto simp: has_p_def)
  then show ?thesis by (auto simp: granted_def has_g_def)
qed

subsection \<open>Groups\<close>

lemma split_group: "CHR '':'' \<notin> set org \<Longrightarrow> CHR '':'' \<notin> set user \<Longrightarrow>
    strings_split (org @ ''::'' @ user) ''::'' = [org, user]"
  using strings_split_hit[of "''::''" org user] strings_split_clean[of "''::''" user] by simp

lemma split_two_iff:
  assumes "CHR '':'' \<notin> set user" and "CHR '':'' \<notin> set org"
  shows "(let ou = strings_split k ''::'' in length ou = 2 \<and> ou ! 1 = user \<and> ou ! 0 = org)
     \<longleftrightarrow> k = org @ ''::'' @ user"
proof
  assume h: "let ou = strings_split k ''::'' in length ou = 2 \<and> ou ! 1 = user \<and> ou ! 0 = org"
  then have "strings_split k ''::'' = [org, user]"
    by (auto simp: Let_def length_Suc_conv numeral_2_eq_2)
  then show "k = org @ ''::'' @ user"
    using strings_join_split[of "''::''" k] by simp
next
  assume "k = org @ ''::'' @ user"
  then show "let ou = strings_split k ''::'' in length ou = 2 \<and> ou ! 1 = user \<and> ou ! 0 = org"
    using split_group[OF assms(2,1)] by simp
qed

lemma get_authorized_orgs_iff:
  assumes "get_authorized_orgs err sub obj act tbl = Inr orgs"
    and "CHR '':'' \<notin> set sub" and "CHR '':'' \<notin> set org"
  shows "org \<in> set orgs \<longleftrightarrow>
     (org = '''' \<and> granted tbl sub obj act) \<or> granted tbl (org @ ''::'' @ sub) obj act"
proof -
  define f where "f k = (let ou = strings_split k ''::'' in
      (if k = sub then [''''] else []) @ (if length ou = 2 \<and> ou ! 1 = sub then [ou ! 0] else []))" for k
  obtain authz where a: "get_authorized err obj act tbl = Inr authz"
    and o: "orgs = remdups (concat (map (\<lambda>(k, _). f k) authz))"
    using assms(1) by (auto simp: get_authorized_orgs_def f_def split: sum.splits)
  have dom: "k \<in> fst ` set authz \<longleftrightarrow> granted tbl k obj act" for k
    using get_authorized_dom[OF a, of k] by (simp add: map_of_eq_None_iff)
  have "org \<in> set orgs \<longleftrightarrow> (\<exists>k\<in>fst ` set authz. org \<in> set (f k))"
    unfolding o by force
  also have "\<dots> \<longleftrightarrow> (\<exists>k. granted tbl k obj act \<and> org \<in> set (f k))"
    unfolding Bex_def dom ..
  also have "\<dots> \<longleftrightarrow> (\<exists>k. granted tbl k obj act \<and> (k = sub \<and> org = '''' \<or>
      (let ou = strings_split k ''::'' in length ou = 2 \<and> ou ! 1 = sub \<and> ou ! 0 = org)))"
    by (intro ex_cong1 conj_cong refl) (auto simp: f_def Let_def)
  finally have "org \<in> set orgs \<longleftrightarrow> (\<exists>k. granted tbl k obj act \<and> (k = sub \<and> org = '''' \<or>
      (let ou = strings_split k ''::'' in length ou = 2 \<and> ou ! 1 = sub \<and> ou ! 0 = org)))" .
  then show ?thesis unfolding split_two_iff[OF assms(2,3)] by auto
qed

subsection \<open>The store of rules as its users see it\<close>

text \<open>
  What \<open>InitRolePerms\<close>, the role calls and the API key calls rely on: rules in the domain
  \<open>ok\<close> can be added and removed one at a time, and asked for.
\<close>

locale policy_store =
  fixes ok :: "'r \<Rightarrow> bool" and add :: "'r \<Rightarrow> 's \<Rightarrow> 's" and del :: "'r \<Rightarrow> 's \<Rightarrow> 's" and holds :: "'s \<Rightarrow> 'r \<Rightarrow> bool"
  assumes holds_add: "ok r \<Longrightarrow> ok q \<Longrightarrow> holds (add r s) q \<longleftrightarrow> q = r \<or> holds s q"
    and holds_del: "ok r \<Longrightarrow> ok q \<Longrightarrow> holds (del r s) q \<longleftrightarrow> q \<noteq> r \<and> holds s q"
begin

lemma holds_adds: "Ball (set rs) ok \<Longrightarrow> ok q \<Longrightarrow> holds (fold add rs s) q \<longleftrightarrow> q \<in> set rs \<or> holds s q"
  by (induction rs arbitrary: s) (auto simp: holds_add)

lemma holds_dels: "Ball (set rs) ok \<Longrightarrow> ok q \<Longrightarrow> holds (fold del rs s) q \<longleftrightarrow> q \<notin> set rs \<and> holds s q"
  by (induction rs arbitrary: s) (auto simp: holds_del)

lemma del_add: "ok r \<Longrightarrow> ok q \<Longrightarrow> \<not> holds s r \<Longrightarrow> holds (del r (add r s)) q \<longleftrightarrow> holds s q"
  by (auto simp: holds_add holds_del)

end

text \<open>A rule is a kind and its fields; the rules of the master controller are \<open>p\<close> with three
  and \<open>g\<close> with two fields, none of them empty.\<close>

definition rule_ok :: "string \<times> string list \<Rightarrow> bool" where
  "rule_ok r \<longleftrightarrow> '''' \<notin> set (snd r) \<and>
     (fst r = ''p'' \<and> length (snd r) = 3 \<or> fst r = ''g'' \<and> length (snd r) = 2)"

definition holds_rule :: "casbin_rule list \<Rightarrow> string \<times> string list \<Rightarrow> bool" where
  "holds_rule tbl r = (has_policy no_err (fst r) (snd r) tbl = Inr True)"

definition add_rule :: "string \<times> string list \<Rightarrow> casbin_rule list \<Rightarrow> casbin_rule list" where
  "add_rule r tbl = snd (add_policy no_err (fst r) (snd r) tbl)"

definition del_rule :: "string \<times> string list \<Rightarrow> casbin_rule list \<Rightarrow> casbin_rule list" where
  "del_rule r tbl = snd (remove_policy no_err (fst r) (snd r) tbl)"

lemma rule_ok_cases [consumes 1]:
  assumes "rule_ok r"
  obtains a b c where "r = (''p'', [a, b, c])" "a \<noteq> ''''" "b \<noteq> ''''" "c \<noteq> ''''"
  | a b where "r = (''g'', [a, b])" "a \<noteq> ''''" "b \<noteq> ''''"
  using assms by (cases r) (auto simp: rule_ok_def length_Suc_conv numeral_3_eq_3 numeral_2_eq_2)

lemma holds_p: "role \<noteq> '''' \<Longrightarrow> obj \<noteq> '''' \<Longrightarrow> act \<noteq> '''' \<Longrightarrow>
    holds_rule tbl (''p'', [role, obj, act]) \<longleftrightarrow> has_p tbl role obj act"
  by (auto simp: holds_rule_def has_policy_def get_casbin_rule_def field_def values_match_def
      field_matches_def has_p_def list_ex_iff Let_def)

lemma holds_g: "subj \<noteq> '''' \<Longrightarrow> role \<noteq> '''' \<Longrightarrow> holds_rule tbl (''g'', [subj, role]) \<longleftrightarrow> has_g tbl subj role"
  by (auto simp: holds_rule_def has_policy_def get_casbin_rule_def field_def values_match_def
      field_matches_def has_g_def list_ex_iff Let_def)

lemma has_p_add: "has_p (add_rule (t, rule) tbl) role obj act \<longleftrightarrow>
    t = ''p'' \<and> field rule 0 = role \<and> field rule 1 = obj \<and> field rule 2 = act \<or> has_p tbl role obj act"
  by (force simp: add_rule_def add_policy_def has_p_def get_casbin_rule_def Let_def split: if_splits)

lemma has_g_add: "has_g (add_rule (t, rule) tbl) subj role \<longleftrightarrow>
    t = ''g'' \<and> field rule 0 = subj \<and> field rule 1 = role \<or> has_g tbl subj role"
  by (force simp: add_rule_def add_policy_def has_g_def get_casbin_rule_def Let_def split: if_splits)

lemma has_p_del: "role' \<noteq> '''' \<Longrightarrow> obj' \<noteq> '''' \<Longrightarrow> act' \<noteq> '''' \<Longrightarrow>
    has_p (del_rule (''p'', [role', obj', act']) tbl) role obj act \<longleftrightarrow>
      (role, obj, act) \<noteq> (role', obj', act') \<and> has_p tbl role obj act"
  by (auto simp: del_rule_def remove_policy_def raw_delete_def has_p_def get_casbin_rule_def
      field_def values_match_def field_matches_def Let_def)

lemma has_g_del_p: "has_g (del_rule (''p'', rule) tbl) subj role \<longleftrightarrow> has_g tbl subj role"
  by (auto simp: del_rule_def remove_policy_def raw_delete_def has_g_def get_casbin_rule_def Let_def)

lemma has_p_del_g: "has_p (del_rule (''g'', rule) tbl) role obj act \<longleftrightarrow> has_p tbl role obj act"
  by (auto simp: del_rule_def remove_policy_def raw_delete_def has_p_def get_casbin_rule_def Let_def)

lemma has_g_del: "subj' \<noteq> '''' \<Longrightarrow> role' \<noteq> '''' \<Longrightarrow>
    has_g (del_rule (''g'', [subj', role']) tbl) subj role \<longleftrightarrow>
      (subj, role) \<noteq> (subj', role') \<and> has_g tbl subj role"
  by (auto simp: del_rule_def remove_policy_def raw_delete_def has_g_def get_casbin_rule_def
      field_def values_match_def field_matches_def Let_def)

interpretation casbin: policy_store rule_ok add_rule del_rule holds_rule
proof
  fix r q :: "string \<times> string list" and s :: "casbin_rule list"
  assume r: "rule_ok r" and q: "rule_ok q"
  show "holds_rule (add_rule r s) q \<longleftrightarrow> q = r \<or> holds_rule s q"
    using r q by (elim rule_ok_cases)
      (auto simp: holds_p holds_g has_p_add has_g_add field_def)
  show "holds_rule (del_rule r s) q \<longleftrightarrow> q \<noteq> r \<and> holds_rule s q"
    using r q by (elim rule_ok_cases)
      (auto simp: holds_p holds_g has_p_del has_g_del has_p_del_g has_g_del_p)
qed

lemma enforce_returns:
  "err (Call_Authorized obj act) = None \<Longrightarrow> \<exists>allow admin. enforce err sub org obj act tbl = Inr (allow, admin)"
  by (auto simp: enforce_def get_authorized_def)

subsection \<open>Properties\<close>

text \<open>
  C12 (enforce\_refines\_matcher): the enforcer decides as the Casbin matcher of the model does.
  The query answers an error exactly when the database does; otherwise an action in an
  organization is allowed iff the matcher allows it, and one without organization iff the user
  holds a role for it directly.  The second answer says that the user's role in the
  organization did not decide it.
\<close>

theorem enforce_refines_matcher:
  "enforce err sub org obj act tbl =
     (case err (Call_Authorized obj act) of
        Some e \<Rightarrow> Inl e
      | None \<Rightarrow> Inr (if org = '''' then granted tbl sub obj act else matcher tbl sub org obj act,
                   \<not> granted tbl (get_casbin_group org sub) obj act))"
proof (cases "enforce err sub org obj act tbl")
  case (Inl e)
  then show ?thesis using enforce_error[of err sub org obj act tbl e] by simp
next
  case (Inr r)
  obtain allow admin where r: "r = (allow, admin)" by fastforce
  have ok: "err (Call_Authorized obj act) = None"
    using Inr enforce_error[of err sub org obj act tbl] by (cases "err (Call_Authorized obj act)") auto
  have "matcher tbl sub org obj act \<longleftrightarrow> granted tbl (org @ ''::'' @ sub) obj act \<or> granted tbl sub obj act"
    by (auto simp: matcher_def granted_def)
  then show ?thesis
    using Inr r ok enforce_granted[of err sub org obj act tbl allow admin]
    by (auto simp: get_casbin_group_def)
qed

text \<open>
  C37 (orgs\_agree\_with\_enforce): the set of organizations that a show command may list is the
  set in which the enforcer allows the action: for every organization either it or the
  organization of all organizations is in the set iff the enforcer allows the action there.
  Names are free of colons, as user and organization names are.
\<close>

theorem orgs_agree_with_enforce:
  assumes "get_authorized_orgs err sub obj act tbl = Inr orgs"
    and "CHR '':'' \<notin> set sub" and "CHR '':'' \<notin> set org" and "org \<noteq> ''''"
    and "\<not> granted tbl (''::'' @ sub) obj act"
  shows "(org \<in> set orgs \<or> '''' \<in> set orgs) \<longleftrightarrow>
    (\<exists>admin. enforce err sub org obj act tbl = Inr (True, admin))"
proof -
  have none: "err (Call_Authorized obj act) = None"
    using assms(1) by (auto simp: get_authorized_orgs_def get_authorized_def split: option.splits)
  then obtain allow admin where e: "enforce err sub org obj act tbl = Inr (allow, admin)"
    using enforce_returns by metis
  show ?thesis
    using assms get_authorized_orgs_iff[OF assms(1-3)] get_authorized_orgs_iff[OF assms(1,2), of "''''"]
      enforce_granted[OF e] e
    by (auto simp: get_casbin_group_def)
qed

definition demo_rules :: "casbin_rule list" where
  "demo_rules = [get_casbin_rule ''p'' [''Viewer'', ''apps'', ''view''], get_casbin_rule ''g'' [''acme::ann'', ''Viewer'']]"

theorem orgs_agree_with_enforce_witness:
  "\<exists>orgs. get_authorized_orgs no_err ''ann'' ''apps'' ''view'' demo_rules = Inr orgs \<and>
     (''acme'' \<in> set orgs \<or> '''' \<in> set orgs) =
     (\<exists>admin. enforce no_err ''ann'' ''acme'' ''apps'' ''view'' demo_rules = Inr (True, admin))"
proof -
  have orgs: "get_authorized_orgs no_err ''ann'' ''apps'' ''view'' demo_rules = Inr [''acme'']"
    by code_simp
  have "\<not> granted demo_rules (''::'' @ ''ann'') ''apps'' ''view''"
    by (auto simp: granted_def has_g_def demo_rules_def get_casbin_rule_def field_def)
  then show ?thesis
    using orgs orgs_agree_with_enforce[OF orgs, of "''acme''"] by (intro exI[of _ "[''acme'']"]) simp
qed

text \<open>
  Note (rule\_round\_trip): a rule written to the table and read back is the rule up to its first
  empty field, at most six fields, under its kind.
\<close>

theorem rule_round_trip:
  "to_policy (get_casbin_rule ptype rule) = (ptype, takeWhile (\<lambda>s. s \<noteq> '''') (take 6 rule))"
proof -
  have "to_policy (get_casbin_rule ptype rule) = (ptype, takeWhile (\<lambda>s. s \<noteq> '''') (map (field rule) [0..<6]))"
    by (simp add: to_policy_def get_casbin_rule_def upt_rec[of 0] upt_rec numeral_eq_Suc)
  also have "takeWhile (\<lambda>s. s \<noteq> '''') (map (field rule) [0..<6]) = takeWhile (\<lambda>s. s \<noteq> '''') (take 6 rule)"
  proof -
    have "map (field rule) [0..<6] = take 6 rule @ replicate (6 - length rule) ''''"
      by (rule nth_equalityI) (auto simp: field_def nth_append)
    then show ?thesis 
      by (auto simp: takeWhile_append takeWhile_replicate intro: takeWhile_eq_all_conv[THEN iffD2, symmetric])
  qed
  finally show ?thesis .
qed

text \<open>
  Note (rules\_are\_a\_set): adding a list of well-formed rules and then removing another leaves
  exactly the rules that were there or were added, less those removed: nothing else in the table
  is lost or appears.
\<close>

theorem rules_are_a_set:
  assumes "Ball (set added) rule_ok" and "Ball (set removed) rule_ok" and "rule_ok q"
  shows "holds_rule (fold del_rule removed (fold add_rule added tbl)) q \<longleftrightarrow>
    q \<notin> set removed \<and> (q \<in> set added \<or> holds_rule tbl q)"
  using assms by (simp add: casbin.holds_adds casbin.holds_dels)

theorem rules_are_a_set_witness:
  "holds_rule (fold del_rule [(''g'', [''acme::ann'', ''DeveloperViewer''])]
      (fold add_rule [(''g'', [''acme::ann'', ''DeveloperViewer'']), (''g'', [''ann'', ''AdminManager''])] []))
    (''g'', [''ann'', ''AdminManager''])"
  by (subst rules_are_a_set) (simp_all add: rule_ok_def)

end
