(* ===== verification/MC_Auth.thy ===== *)
theory MC_Auth
  imports Complex_Main MC_Rbac
begin

text \<open>
  The data of the master controller that authorization reads, and the authorization check itself:
  \<open>authorized\<close> and its options (\<open>src/mc/orm/userauth.go\<close>), the lookup of organizations
  (\<open>orgExists\<close> in \<open>org.go\<close>) and the roles (\<open>role.go\<close>): their permissions, set up by
  \<open>InitRolePerms\<close>, and \<open>isUserAdmin\<close> (\<open>user.go\<close>).  A table is the list of its rows in the
  order of the primary key; columns of type \<open>citext\<close> compare without case.
\<close>

subsection \<open>Data\<close>

text \<open>The errors that the callers tell apart.\<close>

datatype mc_err = Err string | Forbidden | Org_Lookup_Error string

fun err_text :: "mc_err \<Rightarrow> string" where
  "err_text (Err s) = s"
| "err_text Forbidden = ''code=403, message=Forbidden''"
| "err_text (Org_Lookup_Error s) = s"

text \<open>A user without the descriptive columns (names, picture); times are nanoseconds since the epoch.\<close>

record user =
  u_name :: string
  u_email :: string
  u_email_verified :: bool
  u_passhash :: string
  u_salt :: string
  u_iter :: int
  u_created_at :: int
  u_updated_at :: int
  u_locked :: bool
  u_pass_crack :: real
  u_enable_totp :: bool
  u_totp_key :: string
  u_metadata :: string
  u_last_login :: int
  u_last_failed :: int
  u_failed_logins :: int

record org =
  o_name :: string
  o_type :: string
  o_public_images :: bool
  o_delete_in_progress :: bool
  o_parent :: string
  o_edgebox_only :: bool

text \<open>The organization, the name and the federated organization.\<close>

type_synonym cloudlet_key = "string \<times> string \<times> string"

text \<open>The settings that the modelled calls read.\<close>

record config =
  cfg_min_crack :: real
  cfg_admin_min_crack :: real
  cfg_lock_new :: bool
  cfg_skip_verify :: bool
  cfg_api_key_limit :: int
  cfg_lockout_threshold1 :: int
  cfg_lockout_time1 :: int
  cfg_lockout_threshold2 :: int
  cfg_lockout_time2 :: int

record org_pool =
  op_org :: string
  op_region :: string
  op_pool :: string
  op_pool_org :: string
  op_type :: string
  op_decision :: string

record api_key =
  ak_id :: string
  ak_desc :: string
  ak_org :: string
  ak_user :: string
  ak_hash :: string
  ak_salt :: string
  ak_iter :: int

record mc =
  mc_rules :: "casbin_rule list"
  mc_users :: "user list"
  mc_orgs :: "org list"
  mc_pools :: "org_pool list"
  mc_config :: config
  mc_billing_orgs :: "string list"
  mc_federators :: "string list"
  mc_api_keys :: "api_key list"

definition db_error :: "string \<Rightarrow> mc_err" where
  "db_error e = Err (''database error, '' @ e)"

text \<open>\<open>db.Where(&T{Name: name}).First(&out)\<close>: a name that is empty is no condition.\<close>

definition citext_eq :: "string \<Rightarrow> string \<Rightarrow> bool" where
  "citext_eq a b \<longleftrightarrow> strings_to_lower a = strings_to_lower b"

definition first_user :: "db_err \<Rightarrow> string \<Rightarrow> mc \<Rightarrow> string + user option" where
  "first_user err name mc =
     (case err (Call_User name) of
        Some e \<Rightarrow> Inl e
      | None \<Rightarrow> Inr (find (\<lambda>u. name = '''' \<or> citext_eq (u_name u) name) (mc_users mc)))"

definition first_org :: "db_err \<Rightarrow> string \<Rightarrow> mc \<Rightarrow> string + org option" where
  "first_org err name mc =
     (case err (Call_Org name) of
        Some e \<Rightarrow> Inl e
      | None \<Rightarrow> Inr (find (\<lambda>o'. name = '''' \<or> citext_eq (o_name o') name) (mc_orgs mc)))"

definition org_exists :: "db_err \<Rightarrow> string \<Rightarrow> mc \<Rightarrow> string + org" where
  "org_exists err name mc =
     (case first_org err name mc of
        Inl e \<Rightarrow> Inl e
      | Inr None \<Rightarrow> Inl (''org '' @ name @ '' not found'')
      | Inr (Some org) \<Rightarrow>
          if o_name org \<noteq> name then Inl (''lookup '' @ name @ '' but found '' @ o_name org)
          else Inr org)"

subsection \<open>Resources and roles\<close>

definition developer_resources :: "string list" where
  "developer_resources =
     [''apps'', ''appinsts'', ''clusters'', ''clusterinsts'', ''appanalytics'', ''clusteranalytics'',
      ''developerpolicy'', ''alert'']"

definition operator_resources :: "string list" where
  "operator_resources = [''cloudlets'', ''cloudletanalytics'', ''restagtbl'', ''cloudletpools'', ''alert'']"

definition is_admin_role :: "string \<Rightarrow> bool" where
  "is_admin_role role \<longleftrightarrow> role = ''AdminManager'' \<or> role = ''AdminContributor'' \<or> role = ''AdminViewer''"

definition is_developer_role :: "string \<Rightarrow> bool" where
  "is_developer_role role \<longleftrightarrow>
     role = ''DeveloperManager'' \<or> role = ''DeveloperContributor'' \<or> role = ''DeveloperViewer''"

definition is_operator_role :: "string \<Rightarrow> bool" where
  "is_operator_role role \<longleftrightarrow>
     role = ''OperatorManager'' \<or> role = ''OperatorContributor'' \<or> role = ''OperatorViewer''"

definition get_api_key_role_name :: "string \<Rightarrow> string" where
  "get_api_key_role_name api_key_id = api_key_id @ ''-role''"

definition is_api_key_role :: "string \<Rightarrow> bool" where
  "is_api_key_role role = strings_has_suffix role ''-role''"

text \<open>The calls of \<open>InitRolePerms\<close>, in their order: the fixed ones, then those of the two loops.\<close>

definition admin_perms :: "string list list" where
  "admin_perms =
     concat (map (\<lambda>r. [[''AdminManager'', r, ''manage''], [''AdminManager'', r, ''view'']])
       [''controllers'', ''clusterflavors'', ''flavors'', ''config'', ''cloudletpools'', ''alert''])"

definition billing_perms :: "string list list" where
  "billing_perms =
     [[''DeveloperManager'', ''billing'', ''manage''], [''DeveloperManager'', ''billing'', ''view''],
      [''BillingManager'', ''billing'', ''manage''], [''BillingManager'', ''billing'', ''view''],
      [''BillingManager'', ''users'', ''manage''], [''BillingManager'', ''users'', ''view''],
      [''AdminManager'', ''billing'', ''manage''], [''AdminManager'', ''billing'', ''view''],
      [''AdminContributor'', ''billing'', ''view'']]"

definition user_perms :: "string list list" where
  "user_perms =
     [[''DeveloperManager'', ''users'', ''manage''], [''DeveloperManager'', ''users'', ''view''],
      [''DeveloperContributor'', ''users'', ''view''], [''DeveloperViewer'', ''users'', ''view''],
      [''OperatorManager'', ''users'', ''manage''], [''OperatorManager'', ''users'', ''view''],
      [''OperatorContributor'', ''users'', ''view''], [''OperatorViewer'', ''users'', ''view''],
      [''AdminManager'', ''users'', ''manage''], [''AdminManager'', ''users'', ''view''],
      [''AdminContributor'', ''users'', ''view''], [''AdminViewer'', ''users'', ''view''],
      [''AdminManager'', ''restagtbl'', ''manage''], [''AdminManager'', ''restagtbl'', ''view'']]"

definition resource_perms :: "string \<Rightarrow> string \<Rightarrow> string list list" where
  "resource_perms kind r =
     [[kind @ ''Manager'', r, ''manage''], [kind @ ''Manager'', r, ''view''],
      [kind @ ''Contributor'', r, ''manage''], [kind @ ''Contributor'', r, ''view''],
      [kind @ ''Viewer'', r, ''view''],
      [''AdminManager'', r, ''manage''], [''AdminManager'', r, ''view''],
      [''AdminContributor'', r, ''manage''], [''AdminContributor'', r, ''view''],
      [''AdminViewer'', r, ''view'']]"

definition developer_view_perms :: "string list list" where
  "developer_view_perms =
     concat (map (\<lambda>r. [[''DeveloperManager'', r, ''view''], [''DeveloperContributor'', r, ''view''],
                      [''DeveloperViewer'', r, ''view'']])
       [''cloudlets'', ''flavors'', ''clusterflavors''])"

definition role_perms :: "string list list" where
  "role_perms = admin_perms @ billing_perms @ user_perms @
     concat (map (resource_perms ''Developer'') developer_resources) @ developer_view_perms @
     concat (map (resource_perms ''Operator'') operator_resources)"

text \<open>After the first error no further call is made.\<close>

definition role_add_policy ::
    "db_err \<Rightarrow> string list \<Rightarrow> string option \<times> casbin_rule list \<Rightarrow> string option \<times> casbin_rule list" where
  "role_add_policy err params st = (if fst st = None then enf_add_policy err params (snd st) else st)"

definition init_role_perms :: "db_err \<Rightarrow> casbin_rule list \<Rightarrow> string option \<times> casbin_rule list" where
  "init_role_perms err tbl = fold (role_add_policy err) role_perms (None, tbl)"

subsection \<open>Authorization\<close>

record ref_org =
  ref_name :: string
  ref_type :: string
  ref_desc :: string

record auth_opts =
  opt_show_audit :: bool
  opt_requires_org :: string
  opt_no_edgebox_only :: bool
  opt_requires_billing_org :: string
  opt_target_cloudlet :: "cloudlet_key option"
  opt_ref_orgs :: "ref_org list"

type_synonym auth_op = "auth_opts \<Rightarrow> auth_opts"

definition no_opts :: auth_opts where
  "no_opts = \<lparr>opt_show_audit = False, opt_requires_org = '''', opt_no_edgebox_only = False,
     opt_requires_billing_org = '''', opt_target_cloudlet = None, opt_ref_orgs = []\<rparr>"

definition with_show_audit :: auth_op where
  "with_show_audit o' = o'\<lparr>opt_show_audit := True\<rparr>"

definition with_requires_org :: "string \<Rightarrow> auth_op" where
  "with_requires_org org o' = o'\<lparr>opt_requires_org := org\<rparr>"

definition with_reference_org :: "string \<Rightarrow> string \<Rightarrow> string \<Rightarrow> auth_op" where
  "with_reference_org org desc typ o' =
     o'\<lparr>opt_ref_orgs := opt_ref_orgs o' @ [\<lparr>ref_name = org, ref_type = typ, ref_desc = desc\<rparr>]\<rparr>"

definition with_no_edgebox_only :: auth_op where
  "with_no_edgebox_only o' = o'\<lparr>opt_no_edgebox_only := True\<rparr>"

definition with_requires_billing_org :: "string \<Rightarrow> cloudlet_key \<Rightarrow> auth_op" where
  "with_requires_billing_org org target o' =
     o'\<lparr>opt_requires_billing_org := org, opt_target_cloudlet := Some target\<rparr>"

definition check_reference_org :: "db_err \<Rightarrow> string \<Rightarrow> string \<Rightarrow> string \<Rightarrow> mc \<Rightarrow> mc_err + org" where
  "check_reference_org err name desc typ mc =
     (let d = (if desc \<noteq> '''' then desc @ '' '' else desc) in
      case org_exists err name mc of
        Inl e \<Rightarrow>
          Inl (Org_Lookup_Error
            (if \<not> strings_contains e ''not found'' then d @ ''org '' @ name @ '' lookup failed: '' @ e
             else d @ ''org '' @ name @ '' not found''))
      | Inr org \<Rightarrow>
          if o_delete_in_progress org
          then Inl (Err (''Operation not allowed for '' @ d @ ''org '' @ name @ '' with delete in progress''))
          else if typ \<noteq> '''' \<and> o_type org \<noteq> typ
          then Inl (Err (''Operation for '' @ d @ ''org '' @ name @ '' only allowed for orgs of type '' @ typ))
          else Inr org)"

definition resource_org_type :: "string \<Rightarrow> string" where
  "resource_org_type resource =
     (if resource \<in> set developer_resources then ''developer''
      else if resource \<in> set operator_resources then ''operator'' else '''')"

definition check_requires_org ::
    "db_err \<Rightarrow> string \<Rightarrow> string \<Rightarrow> bool \<Rightarrow> bool \<Rightarrow> mc \<Rightarrow> mc_err option" where
  "check_requires_org err org resource admin no_edgebox_only mc =
     (case check_reference_org err org '''' (resource_org_type resource) mc of
        Inl (Org_Lookup_Error e) \<Rightarrow> Some (if \<not> admin then Forbidden else Org_Lookup_Error e)
      | Inl e \<Rightarrow> Some e
      | Inr lookup \<Rightarrow>
          if o_edgebox_only lookup \<and> no_edgebox_only
          then Some (Err (''Only allowed to create EDGEBOX cloudlet on org '' @ org))
          else None)"

fun check_ref_orgs :: "db_err \<Rightarrow> ref_org list \<Rightarrow> mc \<Rightarrow> mc_err option" where
  "check_ref_orgs err [] mc = None"
| "check_ref_orgs err (r # rs) mc =
     (if ref_name r = '''' then check_ref_orgs err rs mc
      else case check_reference_org err (ref_name r) (ref_desc r) (ref_type r) mc of
          Inl e \<Rightarrow> Some e
        | Inr _ \<Rightarrow> check_ref_orgs err rs mc)"

definition authorized ::
    "db_err \<Rightarrow> string \<Rightarrow> string \<Rightarrow> string \<Rightarrow> string \<Rightarrow> auth_op list \<Rightarrow> mc \<Rightarrow> mc_err option" where
  "authorized err sub org obj act ops mc =
     (let opts = fold (\<lambda>f. f) ops no_opts in
      case enforce err sub org obj act (mc_rules mc) of
        Inl _ \<Rightarrow> Some Forbidden
      | Inr (allow, admin) \<Rightarrow>
          if \<not> allow then Some Forbidden
          else if opt_show_audit opts then None
          else
            let e = (if opt_requires_org opts \<noteq> ''''
                     then check_requires_org err (opt_requires_org opts) obj admin (opt_no_edgebox_only opts) mc
                     else None) in
            if e \<noteq> None then e else check_ref_orgs err (opt_ref_orgs opts) mc)"

definition is_user_admin :: "db_err \<Rightarrow> string \<Rightarrow> mc \<Rightarrow> mc_err + bool" where
  "is_user_admin err username mc =
     (case get_authorized_orgs err username ''config'' ''view'' (mc_rules mc) of
        Inl e \<Rightarrow> Inl (db_error e)
      | Inr orgs \<Rightarrow> Inr ('''' \<in> set orgs))"

subsection \<open>What InitRolePerms sets up\<close>

lemma role_add_error: "fst st \<noteq> None \<Longrightarrow> fold (role_add_policy err) ps st = st"
  by (induction ps) (auto simp: role_add_policy_def)

lemma role_add_policies:
  "fold (role_add_policy err) ps (None, tbl) = (None, tbl') \<Longrightarrow>
     tbl' = fold add_rule (map (Pair ''p'') ps) tbl"
proof (induction ps arbitrary: tbl)
  case (Cons p ps)
  obtain e t where p: "enf_add_policy err p tbl = (e, t)" by fastforce
  have hd: "role_add_policy err p (None, tbl) = (e, t)"
    using p by (simp add: role_add_policy_def)
  have e: "e = None"
    using Cons.prems role_add_error[of "(e, t)" err ps] hd by (cases e) auto
  then have "t = add_rule (''p'', p) tbl"
    using p by (auto simp: enf_add_policy_def add_policy_def add_rule_def Let_def split: option.splits)
  then show ?case using Cons hd e by simp
qed simp

lemma role_add_no_err: "fst (fold (role_add_policy no_err) ps (None, tbl)) = None"
  by (induction ps arbitrary: tbl) (auto simp: role_add_policy_def enf_add_policy_def add_policy_def Let_def)

lemma init_no_err: "init_role_perms no_err tbl = (None, snd (init_role_perms no_err tbl))"
  using role_add_no_err[of role_perms tbl] by (cases "init_role_perms no_err tbl") (simp add: init_role_perms_def)

lemma role_perms_ok: "\<forall>r\<in>set role_perms. rule_ok (''p'', r)"
proof -
  have "list_all (\<lambda>r. rule_ok (''p'', r)) role_perms" by code_simp
  then show ?thesis by (simp add: list_all_iff)
qed

lemma init_perms_has_p:
  assumes "init_role_perms err tbl = (None, tbl')" and "role \<noteq> ''''" "obj \<noteq> ''''" "act \<noteq> ''''"
  shows "has_p tbl' role obj act \<longleftrightarrow> [role, obj, act] \<in> set role_perms \<or> has_p tbl role obj act"
proof -
  have "tbl' = fold add_rule (map (Pair ''p'') role_perms) tbl"
    using assms(1) role_add_policies by (simp add: init_role_perms_def)
  moreover have "rule_ok (''p'', [role, obj, act])"
    using assms by (simp add: rule_ok_def)
  ultimately show ?thesis
    using casbin.holds_adds[of "map (Pair ''p'') role_perms" "(''p'', [role, obj, act])" tbl]
      role_perms_ok assms(2-4) by (auto simp: holds_p)
qed

lemma has_p_add_g: "has_p (add_rule (''g'', rule) tbl) role obj act \<longleftrightarrow> has_p tbl role obj act"
  by (simp add: has_p_add)

definition no_policies :: "casbin_rule list \<Rightarrow> bool" where
  "no_policies tbl \<longleftrightarrow> (\<forall>r\<in>set tbl. r_ptype r \<noteq> ''p'')"

lemma init_perms_fields:
  assumes "init_role_perms err tbl = (None, tbl')" and "no_policies tbl" and "has_p tbl' role obj act"
  shows "[role, obj, act] \<in> set role_perms"
proof -
  have t: "tbl' = fold add_rule (map (Pair ''p'') role_perms) tbl"
    using assms(1) role_add_policies by (simp add: init_role_perms_def)
  have "has_p (fold add_rule (map (Pair ''p'') ps) tbl) role obj act \<Longrightarrow> Ball (set ps) (\<lambda>r. length r = 3) \<Longrightarrow>
      [role, obj, act] \<in> set ps \<or> has_p tbl role obj act" for ps
  proof (induction ps arbitrary: tbl)
    case (Cons p ps)
    then show ?case
      by (fastforce simp: has_p_add field_def length_Suc_conv numeral_3_eq_3 numeral_2_eq_2)
  qed simp
  moreover have "\<forall>r\<in>set role_perms. length r = 3"
    using role_perms_ok by (auto simp: rule_ok_def)
  moreover have "\<not> has_p tbl role obj act"
    using assms(2) by (auto simp: no_policies_def has_p_def)
  ultimately show ?thesis using assms(3) t by blast
qed

lemma init_perms_has_p_iff:
  assumes "init_role_perms err tbl = (None, tbl')" and "no_policies tbl"
  shows "has_p tbl' role obj act \<longleftrightarrow> [role, obj, act] \<in> set role_perms"
proof -
  have "[role, obj, act] \<in> set role_perms \<Longrightarrow> role \<noteq> '''' \<and> obj \<noteq> '''' \<and> act \<noteq> ''''"
    using role_perms_ok by (fastforce simp: rule_ok_def)
  then show ?thesis
    using init_perms_fields[OF assms] init_perms_has_p[OF assms(1)] by blast
qed

lemma init_perms_has_g:
  assumes "init_role_perms err tbl = (None, tbl')"
  shows "has_g tbl' subj role \<longleftrightarrow> has_g tbl subj role"
proof -
  have "has_g (fold add_rule (map (Pair ''p'') ps) tbl) subj role \<longleftrightarrow> has_g tbl subj role" for ps
    by (induction ps arbitrary: tbl) (auto simp: has_g_add)
  then show ?thesis
    using role_add_policies[OF assms[unfolded init_role_perms_def]] by simp
qed

definition managers_of_users :: "string list" where
  "managers_of_users = [''DeveloperManager'', ''OperatorManager'', ''BillingManager'', ''AdminManager'']"

lemma role_perms_manage_users:
  "[role, ''users'', ''manage''] \<in> set role_perms \<longleftrightarrow> role \<in> set managers_of_users"
proof -
  have "list_all (\<lambda>r. r ! 1 = ''users'' \<and> r ! 2 = ''manage'' \<longrightarrow> r ! 0 \<in> set managers_of_users) role_perms"
    and "list_all (\<lambda>r. [r, ''users'', ''manage''] \<in> set role_perms) managers_of_users"
    by code_simp+
  then show ?thesis by (force simp: list_all_iff)
qed

lemma role_perms_viewers: "[role, obj, ''manage''] \<in> set role_perms \<Longrightarrow> \<not> strings_has_suffix role ''Viewer''"
proof -
  have "list_all (\<lambda>r. r ! 2 = ''manage'' \<longrightarrow> \<not> strings_has_suffix (r ! 0) ''Viewer'') role_perms"
    by code_simp
  then show "[role, obj, ''manage''] \<in> set role_perms \<Longrightarrow> \<not> strings_has_suffix role ''Viewer''"
    by (force simp: list_all_iff)
qed

lemma role_perms_config: "[role, ''config'', ''view''] \<in> set role_perms \<longleftrightarrow> role = ''AdminManager''"
proof -
  have "list_all (\<lambda>r. r ! 1 = ''config'' \<longrightarrow> r ! 0 = ''AdminManager'') role_perms"
    and "[''AdminManager'', ''config'', ''view''] \<in> set role_perms"
    by code_simp+
  then show ?thesis by (force simp: list_all_iff)
qed

text \<open>
  Note (init\_perms\_exact): when \<open>InitRolePerms\<close> succeeds on a table without permissions, the roles
  have exactly the permissions listed; no viewer role can manage anything, and only the managers
  of developers, operators, billing and the controller can manage users.
\<close>

theorem init_perms_exact:
  assumes "init_role_perms err tbl = (None, tbl')" and "no_policies tbl"
  shows "(has_p tbl' role obj act \<longleftrightarrow> [role, obj, act] \<in> set role_perms) \<and>
    (has_p tbl' role obj ''manage'' \<longrightarrow> \<not> strings_has_suffix role ''Viewer'') \<and>
    (has_p tbl' role ''users'' ''manage'' \<longleftrightarrow> role \<in> set managers_of_users)"
proof -
  have "has_p tbl' role obj act \<longleftrightarrow> [role, obj, act] \<in> set role_perms" for role obj act
    by (rule init_perms_has_p_iff[OF assms])
  then show ?thesis
    using role_perms_manage_users role_perms_viewers by blast
qed

theorem init_perms_exact_witness:
  "\<exists>tbl'. init_role_perms no_err [] = (None, tbl') \<and>
     has_p tbl' ''DeveloperViewer'' ''apps'' ''view'' \<and> \<not> has_p tbl' ''DeveloperViewer'' ''apps'' ''manage''"
proof -
  have "fst (init_role_perms no_err []) = None" unfolding init_role_perms_def by (rule role_add_no_err)
  then obtain tbl' where t: "init_role_perms no_err [] = (None, tbl')"
    by (metis prod.collapse)
  have n: "no_policies []" by (simp add: no_policies_def)
  have "[''DeveloperViewer'', ''apps'', ''view''] \<in> set role_perms" by code_simp
  moreover have "[''DeveloperViewer'', ''apps'', ''manage''] \<notin> set role_perms" by code_simp
  ultimately show ?thesis
    using t init_perms_exact[OF t n, of "''DeveloperViewer''" "''apps''"] by blast
qed

subsection \<open>What authorized promises\<close>

lemma authorized_plain: "authorized err sub org obj act [] mc = None \<longleftrightarrow>
    err (Call_Authorized obj act) = None \<and>
    (granted (mc_rules mc) (get_casbin_group org sub) obj act \<or> granted (mc_rules mc) sub obj act)"
proof (cases "enforce err sub org obj act (mc_rules mc)")
  case (Inl e)
  then show ?thesis
    using enforce_error[of err sub org obj act "mc_rules mc" e] by (simp add: authorized_def no_opts_def)
next
  case (Inr r)
  obtain allow admin where r: "r = (allow, admin)" by fastforce
  have "err (Call_Authorized obj act) = None"
    using Inr enforce_error[of err sub org obj act "mc_rules mc"] by (cases "err (Call_Authorized obj act)") auto
  then show ?thesis
    using Inr r enforce_granted[of err sub org obj act "mc_rules mc" allow admin]
    by (auto simp: authorized_def no_opts_def)
qed

lemma authorized_requires_org: "org \<noteq> '''' \<Longrightarrow>
    authorized err sub org obj act [with_requires_org org] mc =
      (case authorized err sub org obj act [] mc of
         Some e \<Rightarrow> Some e
       | None \<Rightarrow> check_requires_org err org obj
           (\<not> granted (mc_rules mc) (get_casbin_group org sub) obj act) False mc)"
  using enforce_granted(2)[of err sub org obj act "mc_rules mc"]
  by (auto simp: authorized_def no_opts_def with_requires_org_def Let_def split: sum.splits option.splits)

lemma check_reference_org_ok: "check_reference_org err name desc typ mc = Inr org \<longleftrightarrow>
    org_exists err name mc = Inr org \<and> \<not> o_delete_in_progress org \<and> (typ = '''' \<or> o_type org = typ)"
  by (auto simp: check_reference_org_def Let_def split: sum.splits if_splits)

lemma check_requires_org_ok: "check_requires_org err org obj admin ne mc = None \<longleftrightarrow>
    (\<exists>o'. org_exists err org mc = Inr o' \<and> \<not> o_delete_in_progress o' \<and>
      (resource_org_type obj = '''' \<or> o_type o' = resource_org_type obj) \<and> \<not> (o_edgebox_only o' \<and> ne))"
proof -
  have "check_requires_org err org obj admin ne mc = None \<longleftrightarrow>
      (\<exists>o'. check_reference_org err org '''' (resource_org_type obj) mc = Inr o' \<and> \<not> (o_edgebox_only o' \<and> ne))"
    by (auto simp: check_requires_org_def split: sum.splits mc_err.splits)
  then show ?thesis by (auto simp: check_reference_org_ok)
qed

lemma org_exists_in: "org_exists err name mc = Inr o' \<Longrightarrow> o' \<in> set (mc_orgs mc) \<and> o_name o' = name"
  by (auto simp: org_exists_def first_org_def find_Some_iff split: option.splits sum.splits if_splits)

text \<open>
  C24 (authorized\_in\_org): a call that requires its organization is let through iff the database
  answers, the user holds a role with the permission in the organization or for all, and the
  organization exists under exactly this name, is not being deleted and is of the type that the
  resource belongs to.
\<close>

theorem authorized_in_org:
  assumes "org \<noteq> ''''"
  shows "authorized err sub org obj act [with_requires_org org] mc = None \<longleftrightarrow>
    err (Call_Authorized obj act) = None \<and> matcher (mc_rules mc) sub org obj act \<and>
    (\<exists>o'. org_exists err org mc = Inr o' \<and> \<not> o_delete_in_progress o' \<and>
       (resource_org_type obj = '''' \<or> o_type o' = resource_org_type obj))"
proof -
  have "matcher (mc_rules mc) sub org obj act \<longleftrightarrow>
      granted (mc_rules mc) (get_casbin_group org sub) obj act \<or> granted (mc_rules mc) sub obj act"
    using assms by (auto simp: matcher_def granted_def get_casbin_group_def)
  moreover have "authorized err sub org obj act [with_requires_org org] mc = None \<longleftrightarrow>
      authorized err sub org obj act [] mc = None \<and>
      check_requires_org err org obj (\<not> granted (mc_rules mc) (get_casbin_group org sub) obj act) False mc = None"
    using authorized_requires_org[OF assms] by (simp split: option.splits)
  ultimately show ?thesis
    unfolding authorized_plain check_requires_org_ok by auto
qed

text \<open>
  Note (missing\_org\_is\_forbidden): a user without a role for all organizations cannot find out
  which organizations exist: whatever it holds elsewhere, a call in an organization that does not
  exist, or whose lookup fails, is answered as one without permission.
\<close>

theorem missing_org_is_forbidden:
  assumes "org \<noteq> ''''" and "\<not> granted (mc_rules mc) sub obj act" and "org_exists err org mc = Inl e"
  shows "authorized err sub org obj act [with_requires_org org] mc = Some Forbidden"
proof (cases "authorized err sub org obj act [] mc")
  case None
  then have g: "granted (mc_rules mc) (get_casbin_group org sub) obj act"
    using assms(2) by (simp add: authorized_plain)
  then show ?thesis
    using None assms(1,3) authorized_requires_org[OF assms(1), of err sub obj act mc]
    by (auto simp: check_requires_org_def check_reference_org_def Let_def)
next
  case (Some x)
  moreover have "x = Forbidden"
    using Some by (auto simp: authorized_def no_opts_def Let_def split: sum.splits prod.splits if_splits)
  ultimately show ?thesis using authorized_requires_org[OF assms(1), of err sub obj act mc] by simp
qed

definition demo_org :: "string \<Rightarrow> string \<Rightarrow> org" where
  "demo_org name typ = \<lparr>o_name = name, o_type = typ, o_public_images = False,
     o_delete_in_progress = False, o_parent = '''', o_edgebox_only = False\<rparr>"

definition demo_config :: config where
  "demo_config = \<lparr>cfg_min_crack = 1, cfg_admin_min_crack = 100, cfg_lock_new = False, cfg_skip_verify = False,
     cfg_api_key_limit = 10, cfg_lockout_threshold1 = 3, cfg_lockout_time1 = 60,
     cfg_lockout_threshold2 = 10, cfg_lockout_time2 = 300\<rparr>"

definition demo_user :: "string \<Rightarrow> user" where
  "demo_user n = \<lparr>u_name = n, u_email = n @ ''@dev.net'', u_email_verified = True, u_passhash = ''hash'',
     u_salt = ''salt'', u_iter = 10000, u_created_at = 0, u_updated_at = 0, u_locked = False, u_pass_crack = 0,
     u_enable_totp = False, u_totp_key = '''', u_metadata = '''', u_last_login = 0, u_last_failed = 0,
     u_failed_logins = 0\<rparr>"

lemma demo_user_name [simp]: "u_name (demo_user n) = n"
  by (simp add: demo_user_def)

definition demo_mc :: mc where
  "demo_mc = \<lparr>mc_rules = demo_rules, mc_users = [], mc_orgs = [demo_org ''acme'' ''developer''],
     mc_pools = [], mc_config = demo_config,
     mc_billing_orgs = [], mc_federators = [], mc_api_keys = []\<rparr>"

lemma demo_granted: "granted demo_rules subj obj act \<longleftrightarrow> subj = ''acme::ann'' \<and> obj = ''apps'' \<and> act = ''view''"
  by (auto simp: granted_def has_g_def has_p_def demo_rules_def get_casbin_rule_def field_def)

lemma demo_org_exists: "org_exists no_err ''acme'' demo_mc = Inr (demo_org ''acme'' ''developer'')"
  by code_simp

theorem authorized_in_org_witness:
  "authorized no_err ''ann'' ''acme'' ''apps'' ''view'' [with_requires_org ''acme''] demo_mc = None"
proof -
  have "matcher (mc_rules demo_mc) ''ann'' ''acme'' ''apps'' ''view''"
    using demo_granted[of "''acme::ann''" "''apps''" "''view''"]
    by (auto simp: demo_mc_def matcher_def granted_def)
  then show ?thesis
    by (subst authorized_in_org) (simp_all add: demo_org_exists resource_org_type_def developer_resources_def demo_org_def)
qed

theorem missing_org_is_forbidden_witness:
  "authorized no_err ''ann'' ''beta'' ''apps'' ''view'' [with_requires_org ''beta''] demo_mc = Some Forbidden"
proof -
  have "org_exists no_err ''beta'' demo_mc = Inl ''org beta not found''" by code_simp
  moreover have "\<not> granted (mc_rules demo_mc) ''ann'' ''apps'' ''view''"
    by (simp add: demo_mc_def demo_granted)
  ultimately show ?thesis by (intro missing_org_is_forbidden) simp_all
qed

text \<open>
  Note (only\_admin\_managers\_are\_admin): under the permissions of \<open>InitRolePerms\<close>, the check
  \<open>isUserAdmin\<close> holds for exactly the users with the role AdminManager for all organizations; a user
  that is only AdminViewer or AdminContributor is not an admin to it, although both roles are
  admin roles with permissions of their own.
\<close>

theorem only_admin_managers_are_admin:
  assumes "init_role_perms err0 tbl0 = (None, tbl)" and "no_policies tbl0"
    and "\<forall>subj role. has_g (mc_rules mc) subj role \<longrightarrow> subj \<noteq> ''::'' @ user"
    and "\<forall>role obj act. has_p (mc_rules mc) role obj act \<longleftrightarrow> has_p tbl role obj act"
    and "CHR '':'' \<notin> set user" and "is_user_admin err user mc = Inr admin"
  shows "admin \<longleftrightarrow> has_g (mc_rules mc) user ''AdminManager''"
proof -
  obtain orgs where o: "get_authorized_orgs err user ''config'' ''view'' (mc_rules mc) = Inr orgs"
    and admin: "admin \<longleftrightarrow> '''' \<in> set orgs"
    using assms(6) by (auto simp: is_user_admin_def split: sum.splits)
  have "'''' \<in> set orgs \<longleftrightarrow> granted (mc_rules mc) user ''config'' ''view''"
    using get_authorized_orgs_iff[OF o assms(5), of "''''"] assms(3) by (auto simp: granted_def)
  also have "\<dots> \<longleftrightarrow> (\<exists>role. has_g (mc_rules mc) user role \<and> [role, ''config'', ''view''] \<in> set role_perms)"
    using init_perms_has_p_iff[OF assms(1,2)] assms(4) by (simp add: granted_def)
  finally show ?thesis unfolding admin role_perms_config by simp
qed

theorem only_admin_managers_are_admin_witness:
  "is_user_admin no_err ''vic'' (demo_mc\<lparr>mc_rules :=
     snd (init_role_perms no_err [get_casbin_rule ''g'' [''vic'', ''AdminViewer'']])\<rparr>) = Inr False"
proof -
  let ?old = "[get_casbin_rule ''g'' [''vic'', ''AdminViewer'']]"
  let ?t = "snd (init_role_perms no_err ?old)"
  let ?mc = "demo_mc\<lparr>mc_rules := ?t\<rparr>"
  have i: "init_role_perms no_err ?old = (None, ?t)"
    by (rule init_no_err)
  have g: "has_g ?t subj role \<longleftrightarrow> subj = ''vic'' \<and> role = ''AdminViewer''" for subj role
    using init_perms_has_g[OF i] by (auto simp: has_g_def get_casbin_rule_def field_def)
  have n: "no_policies ?old" by (simp add: no_policies_def get_casbin_rule_def)
  obtain admin where a: "is_user_admin no_err ''vic'' ?mc = Inr admin"
    by (auto simp: is_user_admin_def get_authorized_orgs_def get_authorized_def)
  have "admin \<longleftrightarrow> has_g (mc_rules ?mc) ''vic'' ''AdminManager''"
    by (rule only_admin_managers_are_admin[OF i n _ _ _ a]) (auto simp: g)
  then show ?thesis using a by (simp add: g)
qed

end
