(* ===== verification/MC_Roles.thy ===== *)
theory MC_Roles
  imports MC_Auth "HOL-Library.Char_ord" "HOL-Library.List_Lexorder"
begin

text \<open>
  The calls on roles of \<open>src/mc/orm/role.go\<close>: adding and removing a role of a user, and the show
  calls, with what they use of \<open>user.go\<close> (the password strength) and of \<open>authz_show.go\<close>.  A call
  returns its error, the tables and the notifications it sends (mail, gitlab, artifactory).
  What reads the request (\<open>getClaims\<close>, \<open>bindMap\<close>, \<open>c.Bind\<close>) is left out: the user name, the filter
  and the role are arguments.
\<close>

subsection \<open>Roles\<close>

record role =
  ro_org :: string
  ro_user :: string
  ro_role :: string

definition parse_role :: "string list \<Rightarrow> role option" where
  "parse_role grp =
     (if length grp < 2 then None
      else let domuser = strings_split (grp ! 0) ''::'' in
        Some (if length domuser > 1
              then \<lparr>ro_org = domuser ! 0, ro_user = domuser ! 1, ro_role = grp ! 1\<rparr>
              else \<lparr>ro_org = '''', ro_user = grp ! 0, ro_role = grp ! 1\<rparr>))"

text \<open>A JSON value: a string, or something else.\<close>

datatype json = J_String string | J_Other

type_synonym json_filter = "(string, json) gmap"

definition role_matches_filter :: "role \<Rightarrow> json_filter \<Rightarrow> bool" where
  "role_matches_filter r flt = list_all (\<lambda>(k, v).
     let key = strings_to_lower k in
     if key = ''org'' then v = J_String (ro_org r)
     else if key = ''username'' then v = J_String (ro_user r)
     else if key = ''role'' then v = J_String (ro_role r)
     else True) flt"

record role_perm =
  rp_role :: string
  rp_resource :: string
  rp_action :: string

definition role_perm_matches_filter :: "role_perm \<Rightarrow> json_filter \<Rightarrow> bool" where
  "role_perm_matches_filter p flt = list_all (\<lambda>(k, v).
     let key = strings_to_lower k in
     if key = ''role'' then v = J_String (rp_role p)
     else if key = ''resource'' then v = J_String (rp_resource p)
     else if key = ''action'' then v = J_String (rp_action p)
     else True) flt"

subsection \<open>What show calls may list\<close>

record authz_show =
  as_allowed_orgs :: "string list"
  as_allow_all :: bool
  as_allowed_cloudlets :: "cloudlet_key list"

definition new_show_authz :: "db_err \<Rightarrow> string \<Rightarrow> string \<Rightarrow> string \<Rightarrow> mc \<Rightarrow> mc_err + authz_show" where
  "new_show_authz err username resource act mc =
     (case get_authorized_orgs err username resource act (mc_rules mc) of
        Inl e \<Rightarrow> Inl (Err e)
      | Inr orgs \<Rightarrow>
          if orgs = [] then Inl Forbidden
          else Inr \<lparr>as_allowed_orgs = orgs, as_allow_all = ('''' \<in> set orgs), as_allowed_cloudlets = []\<rparr>)"

definition authz_show_ok :: "authz_show \<Rightarrow> string \<Rightarrow> bool" where
  "authz_show_ok s org \<longleftrightarrow> as_allow_all s \<or> org \<in> set (as_allowed_orgs s)"

subsection \<open>Show calls\<close>

definition show_role_perms :: "db_err \<Rightarrow> string \<Rightarrow> json_filter \<Rightarrow> mc \<Rightarrow> mc_err + role_perm list" where
  "show_role_perms err username flt mc =
     (case is_user_admin err username mc of
        Inl e \<Rightarrow> Inl e
      | Inr admin \<Rightarrow>
         (case enf_get_policy err (mc_rules mc) of
            Inl e \<Rightarrow> Inl (db_error e)
          | Inr policies \<Rightarrow> Inr (concat (map (\<lambda>p.
              if length p < 3 then []
              else let perm = \<lparr>rp_role = p ! 0, rp_resource = p ! 1, rp_action = p ! 2\<rparr> in
                if \<not> admin \<and> (is_api_key_role (rp_role perm) \<or> is_admin_role (rp_role perm)) then []
                else if \<not> role_perm_matches_filter perm flt then [] else [perm]) policies))))"

definition show_role_assignment :: "db_err \<Rightarrow> string \<Rightarrow> json_filter \<Rightarrow> mc \<Rightarrow> mc_err + role list" where
  "show_role_assignment err username flt mc =
     (let super = (authorized err username '''' ''users'' ''view'' [] mc = None) in
      case enf_get_grouping_policy err (mc_rules mc) of
        Inl e \<Rightarrow> Inl (db_error e)
      | Inr groupings \<Rightarrow> Inr (filter (\<lambda>r. (super \<or> ro_user r = username) \<and> role_matches_filter r flt)
          (List.map_filter parse_role groupings)))"

definition show_role :: "db_err \<Rightarrow> string \<Rightarrow> mc \<Rightarrow> mc_err + string list" where
  "show_role err username mc =
     (case is_user_admin err username mc of
        Inl e \<Rightarrow> Inl e
      | Inr admin \<Rightarrow>
         (case enf_get_policy err (mc_rules mc) of
            Inl e \<Rightarrow> Inl (db_error e)
          | Inr policies \<Rightarrow>
              Inr (sort (filter (\<lambda>r. admin \<or> \<not> (is_api_key_role r \<or> is_admin_role r))
                (remdups (map hd (filter (\<lambda>p. \<not> length p < 1) policies)))))))"

definition show_user_role :: "db_err \<Rightarrow> string \<Rightarrow> json_filter \<Rightarrow> mc \<Rightarrow> mc_err + role list" where
  "show_user_role err username flt mc =
     (case enf_get_grouping_policy err (mc_rules mc) of
        Inl e \<Rightarrow> Inl (db_error e)
      | Inr groupings \<Rightarrow>
         (case new_show_authz err username ''users'' ''view'' mc of
            Inl e \<Rightarrow> Inl e
          | Inr authz \<Rightarrow>
              Inr (filter (\<lambda>r. \<not> is_api_key_role (ro_role r) \<and> authz_show_ok authz (ro_org r) \<and>
                    role_matches_filter r flt)
                (List.map_filter parse_role groupings))))"

definition is_admin :: "db_err \<Rightarrow> string \<Rightarrow> mc \<Rightarrow> bool" where
  "is_admin err username mc =
     (case show_user_role err username [] mc of
        Inl _ \<Rightarrow> False
      | Inr roles \<Rightarrow> list_ex (\<lambda>r. is_admin_role (ro_role r)) roles)"

definition admin_access_check :: "db_err \<Rightarrow> string \<Rightarrow> mc \<Rightarrow> mc_err option" where
  "admin_access_check err username mc = authorized err username '''' ''controllers'' ''manage'' [] mc"

subsection \<open>Password strength\<close>

text \<open>The \<open>%.1f\<close> of a whole number of units, plus one.\<close>

definition count_units :: "real \<Rightarrow> string \<Rightarrow> string" where
  "count_units x unit_name = nat_digits (nat (1 + \<lceil>x\<rceil>)) @ ''.0 '' @ unit_name"

definition sec_display_time :: "real \<Rightarrow> string" where
  "sec_display_time seconds =
     (let minute = 60; hour = minute * 60; day = hour * 24; month = day * 31; year = month * 12;
          century = year * 100 in
      if seconds < 1 then ''less than a second''
      else if seconds < minute then count_units seconds ''seconds''
      else if seconds < hour then count_units (seconds / minute) ''minutes''
      else if seconds < day then count_units (seconds / hour) ''hours''
      else if seconds < month then count_units (seconds / day) ''days''
      else if seconds < year then count_units (seconds / month) ''months''
      else if seconds < century then count_units (seconds / century) ''years''
      else ''centuries'')"

definition check_password_strength ::
    "db_err \<Rightarrow> user \<Rightarrow> config option \<Rightarrow> bool \<Rightarrow> mc \<Rightarrow> mc_err option" where
  "check_password_strength err u cfg admin mc =
     (case (case cfg of Some c \<Rightarrow> Inr c
            | None \<Rightarrow> (case err (Call_Table ''configs'') of Some e \<Rightarrow> Inl e | None \<Rightarrow> Inr (mc_config mc))) of
        Inl e \<Rightarrow> Some (Err e)
      | Inr c \<Rightarrow>
          let m = (if admin then cfg_admin_min_crack c else cfg_min_crack c) in
          fail_if (u_pass_crack u < m)
            (Err (''Password too weak, requires crack time '' @ sec_display_time m @ '' but is '' @
               sec_display_time (u_pass_crack u) @ ''. Please increase length or complexity'')))"

subsection \<open>AddUserRole and RemoveUserRole\<close>

datatype mc_event =
    Role_Added_Mail string user role
  | Gitlab_Add_Member role string
  | Gitlab_Remove_Member role string
  | Gitlab_Create_Group string
  | Gitlab_Delete_Group string
  | Artifactory_Add_User role string
  | Artifactory_Remove_User role string
  | Artifactory_Create_Group string string
  | Artifactory_Delete_Group string

type_synonym mc_result = "mc_err option \<times> mc \<times> mc_event list"

text \<open>The checks, in the order of the code, and what they read: the user and the organization.\<close>

definition check_role_form :: "role \<Rightarrow> mc_err option" where
  "check_role_form r = first_fail
     [fail_if (ro_user r = '''') (Err ''Username not specified''),
      fail_if (ro_role r = '''') (Err ''Role not specified''),
      fail_if (citext_eq (ro_user r) (ro_org r)) (Err ''org name cannot be same as existing user name''),
      fail_if (is_admin_role (ro_role r) \<and> ro_org r \<noteq> '''')
        (Err ''Admin roles cannot be associated with an org, please specify the empty org \"\"''),
      fail_if (\<not> is_admin_role (ro_role r) \<and> ro_org r = '''')
        (Err ''Org name must be specified for the specified role'')]"

definition find_target_user :: "db_err \<Rightarrow> role \<Rightarrow> mc \<Rightarrow> mc_err + user" where
  "find_target_user err r mc =
     (case first_user err (ro_user r) mc of
        Inl e \<Rightarrow> Inl (db_error e)
      | Inr None \<Rightarrow> Inl (Err ''Username not found'')
      | Inr (Some u) \<Rightarrow> Inr u)"

definition check_admin_password :: "db_err \<Rightarrow> role \<Rightarrow> user \<Rightarrow> mc \<Rightarrow> mc_err option" where
  "check_admin_password err r u mc =
     (if is_admin_role (ro_role r) then first_fail
        [fail_if (u_pass_crack u = 0) (Err (''Target user password strength not verified, '' @
           ''please have user log in to verify password strength'')),
         check_password_strength err u None True mc]
      else None)"

definition check_role_exists :: "db_err \<Rightarrow> role \<Rightarrow> mc \<Rightarrow> mc_err option" where
  "check_role_exists err r mc =
     (case enf_get_policy err (mc_rules mc) of
        Inl e \<Rightarrow> Some (db_error e)
      | Inr policies \<Rightarrow>
          fail_if (\<not> list_ex (\<lambda>p. \<not> length p < 1 \<and> p ! 0 = ro_role r) policies) (Err ''Role not found''))"

definition check_no_role_in_org :: "db_err \<Rightarrow> role \<Rightarrow> mc \<Rightarrow> mc_err option" where
  "check_no_role_in_org err r mc =
     (case enf_get_grouping_policy err (mc_rules mc) of
        Inl e \<Rightarrow> Some (db_error e)
      | Inr groupings \<Rightarrow>
         (case find (\<lambda>x. ro_org x = ro_org r \<and> ro_user x = ro_user r) (List.map_filter parse_role groupings) of
            Some x \<Rightarrow> Some (Err (''User already has a role '' @ ro_role x @ '' for org '' @ ro_org x @
                        '', please remove existing role first''))
          | None \<Rightarrow> None))"

text \<open>The type of the organization; empty when the role is for all.\<close>

definition check_role_org :: "db_err \<Rightarrow> role \<Rightarrow> mc \<Rightarrow> mc_err + string" where
  "check_role_org err r mc =
     (if ro_org r = '''' then Inr ''''
      else case first_org err (ro_org r) mc of
          Inl e \<Rightarrow> Inl (db_error e)
        | Inr None \<Rightarrow> Inl (Err ''Organization not found'')
        | Inr (Some o') \<Rightarrow>
            (case first_fail
               [fail_if (o_type o' = ''developer'' \<and> \<not> is_developer_role (ro_role r))
                  (Err ''Can only assign developer roles for developer organization''),
                fail_if (o_type o' = ''operator'' \<and> \<not> is_operator_role (ro_role r))
                  (Err ''Can only assign operator roles for operator organization''),
                check_no_role_in_org err r mc] of
               Some e \<Rightarrow> Inl e
             | None \<Rightarrow> Inr (o_type o')))"

definition check_caller_manages :: "db_err \<Rightarrow> string \<Rightarrow> role \<Rightarrow> mc \<Rightarrow> mc_err option" where
  "check_caller_manages err caller r mc =
     (case authorized err caller (ro_org r) ''users'' ''manage'' [] mc of
        None \<Rightarrow> None
      | Some e \<Rightarrow> Some (if ro_org r = '''' then Err ''Organization not specified or no permissions'' else e))"

definition add_user_role_checks :: "db_err \<Rightarrow> string \<Rightarrow> role \<Rightarrow> mc \<Rightarrow> mc_err + user \<times> string" where
  "add_user_role_checks err caller r mc =
     (case check_role_form r of Some e \<Rightarrow> Inl e | None \<Rightarrow>
      (case find_target_user err r mc of Inl e \<Rightarrow> Inl e | Inr u \<Rightarrow>
       (case first_fail [check_admin_password err r u mc, check_role_exists err r mc] of Some e \<Rightarrow> Inl e | None \<Rightarrow>
        (case check_role_org err r mc of Inl e \<Rightarrow> Inl e | Inr typ \<Rightarrow>
         (case check_caller_manages err caller r mc of Some e \<Rightarrow> Inl e | None \<Rightarrow> Inr (u, typ))))))"

definition add_user_role :: "db_err \<Rightarrow> string \<Rightarrow> role \<Rightarrow> mc \<Rightarrow> mc_result" where
  "add_user_role err caller r mc =
     (case add_user_role_checks err caller r mc of
        Inl e \<Rightarrow> (Some e, mc, [])
      | Inr (u, typ) \<Rightarrow>
          let (e, rules) = enf_add_grouping_policy err [get_casbin_group (ro_org r) (ro_user r), ro_role r] (mc_rules mc) in
          (case e of
             Some e \<Rightarrow> (Some (db_error e), mc, [])
           | None \<Rightarrow> (None, mc\<lparr>mc_rules := rules\<rparr>,
               [Role_Added_Mail caller u r, Gitlab_Add_Member r typ, Artifactory_Add_User r typ])))"

definition is_manager_role :: "string \<Rightarrow> bool" where
  "is_manager_role role \<longleftrightarrow> role = ''AdminManager'' \<or> role = ''DeveloperManager'' \<or> role = ''OperatorManager''"

text \<open>\<open>parseRole\<close> answers \<open>nil\<close> for a group of fewer than two fields, which is then dereferenced.\<close>

definition check_last_manager :: "db_err \<Rightarrow> role \<Rightarrow> mc \<Rightarrow> mc_err option go" where
  "check_last_manager err r mc =
     (if \<not> is_manager_role (ro_role r) then Returns None
      else case enf_get_grouping_policy err (mc_rules mc) of
          Inl e \<Rightarrow> Returns (Some (db_error e))
        | Inr groups \<Rightarrow>
            if list_ex (\<lambda>g. parse_role g = None) groups then Panics
            else Returns (fail_if
              (length (filter (\<lambda>x. ro_role x = ro_role r \<and> ro_org x = ro_org r)
                 (List.map_filter parse_role groups)) < 2)
              (Err ''Error: Cannot remove the last remaining manager of an org'')))"

definition remove_user_role :: "db_err \<Rightarrow> string \<Rightarrow> role \<Rightarrow> mc \<Rightarrow> mc_err option go \<times> mc \<times> mc_event list" where
  "remove_user_role err caller r mc =
     (let psub = get_casbin_group (ro_org r) (ro_user r) in
      if ro_user r = '''' then (Returns (Some (Err ''Username not specified'')), mc, [])
      else if ro_role r = '''' then (Returns (Some (Err ''Role not specified'')), mc, [])
      else case enf_has_grouping_policy err [psub, ro_role r] (mc_rules mc) of
          Inl e \<Rightarrow> (Returns (Some (db_error e)), mc, [])
        | Inr False \<Rightarrow> (Returns None, mc, [])
        | Inr True \<Rightarrow>
           (case authorized err caller (ro_org r) ''users'' ''manage'' [] mc of
              Some e \<Rightarrow> (Returns (Some e), mc, [])
            | None \<Rightarrow>
               (case check_last_manager err r mc of
                  Returns None \<Rightarrow>
                    let (e, rules) = enf_remove_grouping_policy err [psub, ro_role r] (mc_rules mc) in
                    (case e of
                       Some e \<Rightarrow> (Returns (Some (db_error e)), mc, [])
                     | None \<Rightarrow>
                         let typ = (case first_org err (ro_org r) mc of Inr (Some o') \<Rightarrow> o_type o' | _ \<Rightarrow> '''') in
                         (Returns None, mc\<lparr>mc_rules := rules\<rparr>,
                          [Gitlab_Remove_Member r typ, Artifactory_Remove_User r typ]))
                | res \<Rightarrow> (res, mc, []))))"

end
