(* ===== verification/MC_Orgs.thy ===== *)
theory MC_Orgs
  imports MC_Roles
begin

text \<open>
  Organizations of the master controller: valid names (\<open>src/mc/orm/validate.go\<close>) and creating,
  deleting, updating and showing organizations (\<open>org.go\<close>).  What lies outside is a parameter: the
  name check of the edge-cloud library, the reserved names, the controllers of the regions and
  their answers, and gitlab.
\<close>

record mc_env =
  env_valid_obj_name :: "string \<Rightarrow> string option"
  env_reserved_orgs :: "string list"
  env_controllers :: "string + string list"
  env_org_in_region :: "string \<Rightarrow> string \<Rightarrow> string option"
  env_gitlab_visibility :: "org \<Rightarrow> mc_err option"

subsection \<open>Names\<close>

definition get_artifactory_repo_name :: "string \<Rightarrow> string" where
  "get_artifactory_repo_name org_name = ''repo-'' @ org_name"

definition squoted :: "string \<Rightarrow> string" where
  "squoted s = CHR 0x27 # s @ [CHR 0x27]"

definition valid_name :: "mc_env \<Rightarrow> string \<Rightarrow> string option" where
  "valid_name env name = first_fail
     [env_valid_obj_name env name,
      fail_if (strings_has_prefix name ''.'') (''Name cannot start with '' @ squoted ''.''),
      fail_if (strings_has_prefix name ''-'') (''Name cannot start with '' @ squoted ''-''),
      fail_if (strings_has_suffix name ''.'') (''Name cannot end with '' @ squoted ''.''),
      fail_if (strings_contains name ''::'') ''Name cannot contain ::'',
      fail_if (strings_contains name ''&'') ''Name cannot contain &'',
      fail_if (strings_has_suffix name ''.git'') (''Name cannot end with '' @ squoted ''.git''),
      fail_if (strings_has_suffix name ''.atom'') (''Name cannot end with '' @ squoted ''.atom''),
      fail_if (strings_has_suffix name ''-cache'') (''Name cannot end with '' @ squoted ''-cache''),
      fail_if (length (get_artifactory_repo_name name) > 64) ''Name too long'']"

definition valid_name_no_underscore :: "mc_env \<Rightarrow> string \<Rightarrow> string option" where
  "valid_name_no_underscore env name = first_fail
     [valid_name env name, fail_if (strings_contains name ''_'') ''Name cannot contain _'']"

text \<open>Letters and digits are those of ASCII.\<close>

definition gitlab_char :: "char \<Rightarrow> bool" where
  "gitlab_char c \<longleftrightarrow>
     (let n = (of_char c :: nat) in
      (65 \<le> n \<and> n \<le> 90) \<or> (97 \<le> n \<and> n \<le> 122) \<or> (48 \<le> n \<and> n \<le> 57)) \<or>
     c = CHR ''_'' \<or> c = CHR ''.'' \<or> c = CHR ''-''"

definition gitlab_group_sanitize :: "string \<Rightarrow> string" where
  "gitlab_group_sanitize name0 =
     (let name1 = strings_trim_prefix name0 ''-'';
          name2 = strings_trim_suffix name1 ''.'';
          name3 = (if strings_has_suffix name2 ''.git'' then take (length name2 - 4) name2 @ ''-git'' else name2);
          name4 = (if strings_has_suffix name3 ''.atom'' then take (length name3 - 5) name3 @ ''-atom'' else name3)
      in map (\<lambda>c. if gitlab_char c then c else CHR ''-'') name4)"

subsection \<open>The table of organizations\<close>

definition billing_org_exists :: "db_err \<Rightarrow> string \<Rightarrow> mc \<Rightarrow> string + string option" where
  "billing_org_exists err name mc =
     (case err (Call_Find ''billing_organizations'' name) of
        Some e \<Rightarrow> Inl e
      | None \<Rightarrow> Inr (find (\<lambda>b. name = '''' \<or> citext_eq b name) (mc_billing_orgs mc)))"

definition create_org_row :: "db_err \<Rightarrow> org \<Rightarrow> mc \<Rightarrow> mc_err option \<times> mc" where
  "create_org_row err org mc =
     (case err (Call_Create ''organizations'' (o_name org)) of
        Some e \<Rightarrow> (Some (db_error e), mc)
      | None \<Rightarrow>
          if list_ex (\<lambda>x. citext_eq (o_name x) (o_name org)) (mc_orgs mc)
          then (Some (Err (''Organization with name '' @ o_name org @ '' (case-insensitive) already exists'')), mc)
          else (None, mc\<lparr>mc_orgs := mc_orgs mc @ [org]\<rparr>))"

text \<open>\<open>tx.Save\<close> and \<open>db.Save\<close> write all columns of the row with this primary key.\<close>

definition save_org_row :: "org \<Rightarrow> mc \<Rightarrow> mc" where
  "save_org_row org mc =
     mc\<lparr>mc_orgs := map (\<lambda>x. if citext_eq (o_name x) (o_name org) then org\<lparr>o_name := o_name x\<rparr> else x) (mc_orgs mc)\<rparr>"

text \<open>\<open>db.Delete\<close> fails while a row of another table references the organization.\<close>

definition delete_org_row :: "db_err \<Rightarrow> string \<Rightarrow> mc \<Rightarrow> mc_err option \<times> mc" where
  "delete_org_row err name mc =
     (case err (Call_Delete ''organizations'' name) of
        Some e \<Rightarrow> (Some (db_error e), mc)
      | None \<Rightarrow>
          if list_ex (\<lambda>p. citext_eq (op_org p) name) (mc_pools mc)
          then (Some (Err (''Cannot delete organization because it is referenced by some cloudletpool '' @
                 ''invitation or response'')), mc)
          else if list_ex (\<lambda>p. citext_eq (op_pool_org p) name) (mc_pools mc)
          then (Some (db_error ''violates foreign key constraint''), mc)
          else (None, mc\<lparr>mc_orgs := filter (\<lambda>x. \<not> citext_eq (o_name x) name) (mc_orgs mc)\<rparr>))"

definition mark_org_for_delete :: "db_err \<Rightarrow> string \<Rightarrow> bool \<Rightarrow> mc \<Rightarrow> mc_err option \<times> mc" where
  "mark_org_for_delete err name mark mc =
     (case first_org err name mc of
        Inl e \<Rightarrow> (Some (Err e), mc)
      | Inr None \<Rightarrow> (Some (Err ''org not found''), mc)
      | Inr (Some o') \<Rightarrow>
          if mark \<and> o_delete_in_progress o' then (Some (Err ''org already being deleted''), mc)
          else (case err (Call_Save ''organizations'' name) of
              Some e \<Rightarrow> (Some (Err e), mc)
            | None \<Rightarrow> (None, save_org_row (o'\<lparr>o_delete_in_progress := mark\<rparr>) mc)))"

subsection \<open>Use by controllers and federators\<close>

text \<open>Every region is asked at the same time; the errors are sorted before they are joined.\<close>

definition org_in_use :: "mc_env \<Rightarrow> string \<Rightarrow> mc_err option" where
  "org_in_use env name =
     (case env_controllers env of
        Inl e \<Rightarrow> Some (Err e)
      | Inr regions \<Rightarrow>
          let errs = List.map_filter (\<lambda>r. map_option (\<lambda>e. ''region '' @ r @ '': '' @ e)
                (env_org_in_region env r name)) regions in
          fail_if (errs \<noteq> []) (Err (''Organization '' @ name @ '' in use or check failed: '' @
            strings_join (sort errs) ''; '')))"

definition org_in_use_by_federator :: "db_err \<Rightarrow> string \<Rightarrow> mc \<Rightarrow> mc_err option" where
  "org_in_use_by_federator err name mc =
     (case err (Call_Find ''federators'' name) of
        Some e \<Rightarrow> Some (Err e)
      | None \<Rightarrow> fail_if (list_ex (\<lambda>f. name = '''' \<or> citext_eq f name) (mc_federators mc))
          (Err ''Organization is in use by federator''))"

subsection \<open>CreateOrg\<close>

definition org_manager_role :: "string \<Rightarrow> string option" where
  "org_manager_role typ = (if typ = ''developer'' then Some ''DeveloperManager''
     else if typ = ''operator'' then Some ''OperatorManager'' else None)"

definition create_org_checks :: "mc_env \<Rightarrow> db_err \<Rightarrow> string \<Rightarrow> org \<Rightarrow> mc \<Rightarrow> mc_err option" where
  "create_org_checks env err caller org mc = first_fail
     [fail_if (o_name org = '''') (Err ''Name not specified''),
      map_option Err (valid_name env (o_name org)),
      (case billing_org_exists err (o_name org) mc of
         Inr (Some _) \<Rightarrow> Some (Err ''A BillingOrganization with this name already exists'')
       | _ \<Rightarrow> None),
      fail_if (org_manager_role (o_type org) = None) (Err ''Organization type must be developer, or operator''),
      (if list_ex (\<lambda>res. citext_eq (o_name org) res) (env_reserved_orgs env) \<and>
          authorized err caller '''' ''users'' ''manage'' [] mc \<noteq> None
       then Some (Err (''Not authorized to create reserved org '' @ o_name org)) else None),
      map_option Err (err (Call_Table ''users'')),
      fail_if (list_ex (\<lambda>u. citext_eq (u_name u) (o_name org)) (mc_users mc))
        (Err ''org name cannot be same as existing user name'')]"

definition new_org :: "org \<Rightarrow> org" where
  "new_org org = (if o_type org = ''operator'' then org\<lparr>o_edgebox_only := True, o_parent := ''''\<rparr>
     else org\<lparr>o_parent := ''''\<rparr>)"

definition create_org :: "mc_env \<Rightarrow> db_err \<Rightarrow> string \<Rightarrow> org \<Rightarrow> mc \<Rightarrow> mc_result" where
  "create_org env err caller org mc =
     (case create_org_checks env err caller org mc of
        Some e \<Rightarrow> (Some e, mc, [])
      | None \<Rightarrow>
          let (e1, mc1) = create_org_row err (new_org org) mc in
          if e1 \<noteq> None then (e1, mc1, [])
          else
            let r = \<lparr>ro_org = o_name org, ro_user = caller, ro_role = the (org_manager_role (o_type org))\<rparr>;
                (e2, rules) = enf_add_grouping_policy err [get_casbin_group (o_name org) caller, ro_role r] (mc_rules mc1) in
            (case e2 of
               Some e \<Rightarrow> (Some (db_error e), mc1, [])
             | None \<Rightarrow> (None, mc1\<lparr>mc_rules := rules\<rparr>,
                 [Gitlab_Create_Group (o_name org), Gitlab_Add_Member r (o_type org),
                  Artifactory_Create_Group (o_name org) (o_type org), Artifactory_Add_User r (o_type org)])))"

subsection \<open>DeleteOrg\<close>

text \<open>The groups of the organization are removed until a removal fails.\<close>

fun remove_org_groups :: "db_err \<Rightarrow> string \<Rightarrow> string list list \<Rightarrow> casbin_rule list \<Rightarrow> string option \<times> casbin_rule list" where
  "remove_org_groups err name [] rules = (None, rules)"
| "remove_org_groups err name (grp # grps) rules =
     (if length grp < 2 then remove_org_groups err name grps rules
      else let strs = strings_split (grp ! 0) ''::'' in
        if length strs = 2 \<and> strs ! 0 = name
        then let (e, rules') = enf_remove_grouping_policy err [grp ! 0, grp ! 1] rules in
          (case e of Some e \<Rightarrow> (Some e, rules') | None \<Rightarrow> remove_org_groups err name grps rules')
        else remove_org_groups err name grps rules)"

text \<open>An error after the mark undoes it; an error of that is only logged.\<close>

definition undo_mark :: "db_err \<Rightarrow> string \<Rightarrow> mc_err \<Rightarrow> mc \<Rightarrow> mc_result" where
  "undo_mark err name e mc = (Some e, snd (mark_org_for_delete err name False mc), [])"

definition delete_org :: "mc_env \<Rightarrow> db_err \<Rightarrow> string \<Rightarrow> string \<Rightarrow> mc \<Rightarrow> mc_result" where
  "delete_org env err caller name mc =
     (if name = '''' then (Some (Err ''Organization name not specified''), mc, [])
      else case authorized err caller name ''users'' ''manage'' [] mc of
          Some e \<Rightarrow> (Some e, mc, [])
        | None \<Rightarrow>
         (case org_exists err name mc of
            Inl e \<Rightarrow> (Some (Err e), mc, [])
          | Inr org_check \<Rightarrow>
              let (e1, mc1) = mark_org_for_delete err name True mc in
              if e1 \<noteq> None then (e1, mc1, [])
              else (case first_fail
                  [org_in_use env name, org_in_use_by_federator err name mc1,
                   fail_if (o_parent org_check \<noteq> '''')
                     (Err (''Organization is still part of Parent BillingOrganization '' @ o_parent org_check))] of
                  Some e \<Rightarrow> undo_mark err name e mc1
                | None \<Rightarrow>
                    let (e2, mc2) = delete_org_row err name mc1 in
                    (case e2 of
                       Some e \<Rightarrow> undo_mark err name e mc2
                     | None \<Rightarrow>
                        (case enf_get_grouping_policy err (mc_rules mc2) of
                           Inl e \<Rightarrow> (Some (db_error e), mc2, [])
                         | Inr groups \<Rightarrow>
                             let (e3, rules) = remove_org_groups err name groups (mc_rules mc2);
                                 mc3 = mc2\<lparr>mc_rules := rules\<rparr> in
                             (case e3 of
                                Some e \<Rightarrow> (Some (db_error e), mc3, [])
                              | None \<Rightarrow> (None, mc3, [Gitlab_Delete_Group name, Artifactory_Delete_Group name])))))))"

subsection \<open>UpdateOrg and ShowOrg\<close>

text \<open>
  \<open>body\<close> is what unmarshalling the request does to an organization, or the error of it.  The time
  of creation is not a field of the model.
\<close>

definition update_org ::
    "mc_env \<Rightarrow> db_err \<Rightarrow> string \<Rightarrow> bool \<Rightarrow> string + string \<times> (org \<Rightarrow> org) \<Rightarrow> mc \<Rightarrow> mc_err option \<times> mc" where
  "update_org env err caller admin_update body mc =
     (case body of
        Inl e \<Rightarrow> (Some (Err e), mc)
      | Inr (in_name, apply_body) \<Rightarrow>
          if in_name = '''' then (Some (Err ''Organization name not specified''), mc)
          else case first_org err in_name mc of
              Inl e \<Rightarrow> (Some (db_error e), mc)
            | Inr None \<Rightarrow> (Some (Err ''Organization not found''), mc)
            | Inr (Some old) \<Rightarrow>
               (case authorized err caller (if admin_update then '''' else in_name) ''users'' ''manage'' [] mc of
                  Some e \<Rightarrow> (Some e, mc)
                | None \<Rightarrow>
                    let org = apply_body old in
                    (case first_fail
                       [fail_if (o_type org \<noteq> o_type old) (Err ''Cannot change Organization type''),
                        (if o_public_images org \<noteq> o_public_images old then env_gitlab_visibility env org else None),
                        fail_if (\<not> admin_update \<and> o_edgebox_only org \<noteq> o_edgebox_only old)
                          (Err ''Cannot update edgeboxonly field for Organization''),
                        fail_if (\<not> admin_update \<and> o_parent org \<noteq> o_parent old) (Err ''Cannot update parent''),
                        map_option db_error (err (Call_Save ''organizations'' in_name))] of
                       Some e \<Rightarrow> (Some e, mc)
                     | None \<Rightarrow> (None, save_org_row org mc))))"

text \<open>\<open>flt\<close> is the condition that the filter puts on the rows.\<close>

definition show_org :: "db_err \<Rightarrow> string \<Rightarrow> (org \<Rightarrow> bool) \<Rightarrow> mc \<Rightarrow> mc_err + org list" where
  "show_org err username flt mc =
     (case err (Call_Table ''organizations'') of
        Some e \<Rightarrow> Inl (db_error e)
      | None \<Rightarrow>
          let orgs = filter flt (mc_orgs mc) in
          if authorized err username '''' ''users'' ''view'' [] mc = None then Inr orgs
          else case enf_get_grouping_policy err (mc_rules mc) of
              Inl e \<Rightarrow> Inl (db_error e)
            | Inr groupings \<Rightarrow>
                let auth_orgs = concat (map (\<lambda>grp.
                      if length grp < 2 then []
                      else let orguser = strings_split (grp ! 0) ''::'' in
                        if length orguser > 1 \<and> orguser ! 1 = username then [orguser ! 0] else []) groupings)
                in Inr (filter (\<lambda>o'. o_name o' \<in> set auth_orgs) orgs))"

definition get_all_orgs :: "db_err \<Rightarrow> mc \<Rightarrow> string + (string, org) gmap" where
  "get_all_orgs err mc =
     (case err (Call_Table ''organizations'') of
        Some e \<Rightarrow> Inl e
      | None \<Rightarrow> Inr (fold (\<lambda>o'. gput (o_name o') o') (mc_orgs mc) []))"

definition get_org_type :: "string \<Rightarrow> (string, org) gmap \<Rightarrow> string" where
  "get_org_type name all_orgs = (case map_of all_orgs name of Some o' \<Rightarrow> o_type o' | None \<Rightarrow> '''')"

end
