(* ===== verification/MC_Access.thy ===== *)
theory MC_Access
  imports MC_Orgs
begin

text \<open>
  What holds of roles and organizations together, whatever sequence of calls is made and whatever
  database calls fail: who can give roles, which roles exist, that managers stay, and what
  a deleted organization leaves behind.
\<close>

subsection \<open>Names without colons\<close>

abbreviation no_colon :: "string \<Rightarrow> bool" where
  "no_colon s \<equiv> CHR '':'' \<notin> set s"

lemma char_to_lower_colon: "char_to_lower c = CHR '':'' \<longleftrightarrow> c = CHR '':''"
proof (cases "65 \<le> (of_char c :: nat) \<and> (of_char c :: nat) \<le> 90")
  case True
  then have "of_char (char_of (of_char c + 32 :: nat) :: char) = (of_char c + 32 :: nat)" by simp
  then have "(of_char c + 32 :: nat) = 58" if "char_of (of_char c + 32 :: nat) = CHR '':''"
    unfolding that by simp
  then have "char_of (of_char c + 32 :: nat) \<noteq> CHR '':''"
    using True by fastforce
  moreover have "c \<noteq> CHR '':''" using True by auto
  ultimately show ?thesis using True by (simp add: char_to_lower_def Let_def)
qed (auto simp: char_to_lower_def Let_def)

lemma citext_eq_colon: "citext_eq a b \<Longrightarrow> no_colon a \<longleftrightarrow> no_colon b"
proof -
  have "CHR '':'' \<in> set (strings_to_lower a) \<longleftrightarrow> CHR '':'' \<in> set a" for a
    unfolding strings_to_lower_def set_map image_iff
    by (simp add: eq_commute[of "CHR '':''"] char_to_lower_colon)
  then show "citext_eq a b \<Longrightarrow> no_colon a \<longleftrightarrow> no_colon b" by (metis citext_eq_def)
qed

lemma citext_eq_refl [simp]: "citext_eq a a"
  by (simp add: citext_eq_def)

lemma citext_eq_Nil [simp]: "citext_eq a '''' \<longleftrightarrow> a = ''''" "citext_eq '''' a \<longleftrightarrow> a = ''''"
  by (auto simp: citext_eq_def strings_to_lower_def)

definition names_ok :: "mc \<Rightarrow> bool" where
  "names_ok mc \<longleftrightarrow> (\<forall>u\<in>set (mc_users mc). no_colon (u_name u)) \<and> (\<forall>o'\<in>set (mc_orgs mc). no_colon (o_name o'))"

definition env_ok :: "mc_env \<Rightarrow> bool" where
  "env_ok env \<longleftrightarrow> (\<forall>n. env_valid_obj_name env n = None \<longrightarrow> no_colon n)"

subsection \<open>Groups and roles\<close>

text \<open>Parsing undoes what \<open>GetCasbinGroup\<close> builds.\<close>

lemma parse_role_group:
  assumes "no_colon org" and "no_colon user"
  shows "parse_role [get_casbin_group org user, role] = Some \<lparr>ro_org = org, ro_user = user, ro_role = role\<rparr>"
  using assms split_group[of org user] strings_split_clean[of "''::''" user]
  by (auto simp: parse_role_def get_casbin_group_def Let_def)

definition group_row :: "casbin_rule \<Rightarrow> bool" where
  "group_row r \<longleftrightarrow> r_v1 r \<noteq> '''' \<and> r = get_casbin_rule ''g'' [r_v0 r, r_v1 r] \<and>
     (\<exists>o' u. no_colon o' \<and> no_colon u \<and> u \<noteq> '''' \<and> r_v0 r = get_casbin_group o' u \<and>
        (is_admin_role (r_v1 r) \<longleftrightarrow> o' = ''''))"

definition rules_ok :: "casbin_rule list \<Rightarrow> bool" where
  "rules_ok rules \<longleftrightarrow> distinct rules \<and> (\<forall>r\<in>set rules. r_ptype r = ''g'' \<longrightarrow> group_row r)"

lemma rules_ok_add:
  assumes "rules_ok rules" and "enf_add_grouping_policy err [get_casbin_group o' u, role] rules = (e, rules')"
    and "no_colon o'" "no_colon u" "u \<noteq> ''''" "role \<noteq> ''''" "is_admin_role role \<longleftrightarrow> o' = ''''"
  shows "rules_ok rules'"
proof -
  have "group_row (get_casbin_rule ''g'' [get_casbin_group o' u, role])"
    using assms(3-7) by (auto simp: group_row_def get_casbin_rule_def field_def)
  then show ?thesis
    using assms(1,2)
    by (auto simp: enf_add_grouping_policy_def add_policy_def rules_ok_def Let_def split: option.splits if_splits)
qed

lemma group_no_org [simp]: "get_casbin_group '''' u = u"
  by (simp add: get_casbin_group_def)

lemma group_not_Nil [simp]: "u \<noteq> '''' \<Longrightarrow> get_casbin_group o' u \<noteq> ''''"
  by (simp add: get_casbin_group_def)

lemma rules_ok_remove:
  "rules_ok rules \<Longrightarrow> enf_remove_grouping_policy err ps rules = (e, rules') \<Longrightarrow> rules_ok rules'"
  by (auto simp: enf_remove_grouping_policy_def remove_policy_def raw_delete_def rules_ok_def Let_def
      split: option.splits)

lemma rules_ok_remove_groups:
  "rules_ok rules \<Longrightarrow> remove_org_groups err name grps rules = (e, rules') \<Longrightarrow> rules_ok rules'"
proof (induction err name grps rules arbitrary: e rules' rule: remove_org_groups.induct)
  case (2 err name grp grps rules)
  then show ?case
    by (auto simp: Let_def split: if_splits prod.splits option.splits dest: rules_ok_remove)
qed simp

lemma groups_of_rules:
  assumes "rules_ok rules" and "enf_get_grouping_policy err rules = Inr groups"
  shows "groups = map (\<lambda>r. [r_v0 r, r_v1 r]) (filter (\<lambda>r. r_ptype r = ''g'') rules)"
proof -
  have "groups = map (snd \<circ> to_policy) (filter (\<lambda>r. r_ptype r = ''g'') rules)"
    using assms(2) by (auto simp: enf_get_grouping_policy_def get_policies_def field_matches_def split: option.splits)
  moreover have "snd (to_policy r) = [r_v0 r, r_v1 r]" if "r \<in> set rules" "r_ptype r = ''g''" for r
  proof -
    have r: "r = get_casbin_rule ''g'' [r_v0 r, r_v1 r]" "r_v0 r \<noteq> ''''" "r_v1 r \<noteq> ''''"
      using that assms(1) by (auto simp: rules_ok_def group_row_def dest: group_not_Nil)
    have "snd (to_policy (get_casbin_rule ''g'' [a, b])) = [a, b]" if "a \<noteq> ''''" "b \<noteq> ''''" for a b
      using that by (simp add: to_policy_def get_casbin_rule_def field_def)
    then show ?thesis using r by metis
  qed
  ultimately show ?thesis by simp
qed

subsection \<open>What the calls change\<close>

lemma find_target_user_in:
  "find_target_user err r mc = Inr u \<Longrightarrow> ro_user r \<noteq> '''' \<Longrightarrow> u \<in> set (mc_users mc) \<and> citext_eq (u_name u) (ro_user r)"
  by (auto simp: find_target_user_def first_user_def find_Some_iff split: sum.splits option.splits)

lemma check_role_org_in: "check_role_org err r mc = Inr ot \<Longrightarrow>
    ro_org r = '''' \<or> (\<exists>x\<in>set (mc_orgs mc). citext_eq (o_name x) (ro_org r) \<and> ot = o_type x)"
  by (auto simp: check_role_org_def first_org_def find_Some_iff split: if_splits sum.splits option.splits)

lemma check_role_form_ok: "check_role_form r = None \<Longrightarrow>
    ro_user r \<noteq> '''' \<and> ro_role r \<noteq> '''' \<and> (is_admin_role (ro_role r) \<longleftrightarrow> ro_org r = '''')"
  by (auto simp: check_role_form_def)

lemma add_user_role_cases:
  assumes "add_user_role err caller r mc = (e, mc', ev)"
  obtains "e \<noteq> None" "mc' = mc"
  | u ty rules where "e = None" "add_user_role_checks err caller r mc = Inr (u, ty)"
      "enf_add_grouping_policy err [get_casbin_group (ro_org r) (ro_user r), ro_role r] (mc_rules mc) = (None, rules)"
      "mc' = mc\<lparr>mc_rules := rules\<rparr>"
  using assms by (auto simp: add_user_role_def Let_def split: sum.splits prod.splits option.splits)

lemma add_checks_ok:
  assumes "add_user_role_checks err caller r mc = Inr (u, typ)"
  shows "check_role_form r = None" "find_target_user err r mc = Inr u" "check_role_exists err r mc = None"
    "check_role_org err r mc = Inr typ" "authorized err caller (ro_org r) ''users'' ''manage'' [] mc = None"
  using assms by (auto simp: add_user_role_checks_def check_caller_manages_def split: option.splits sum.splits)

lemma add_user_role_rules_ok:
  assumes "add_user_role err caller r mc = (e, mc', ev)" and "rules_ok (mc_rules mc)" and "names_ok mc"
  shows "rules_ok (mc_rules mc') \<and> mc_users mc' = mc_users mc \<and> mc_orgs mc' = mc_orgs mc"
  using assms(1)
proof (cases rule: add_user_role_cases)
  case 1
  then show ?thesis using assms(2) by simp
next
  case (2 u ty rules)
  note form = check_role_form_ok[OF add_checks_ok(1)[OF 2(2)]]
  have "no_colon (ro_user r)" and "no_colon (ro_org r)"
    using find_target_user_in[OF add_checks_ok(2)[OF 2(2)]] check_role_org_in[OF add_checks_ok(4)[OF 2(2)]]
      form assms(3) citext_eq_colon by (auto simp: names_ok_def)
  then show ?thesis
    using 2(4) rules_ok_add[OF assms(2) 2(3)] form by simp
qed

lemma remove_user_role_cases:
  assumes "remove_user_role err caller r mc = (res, mc', ev)"
  obtains "mc' = mc"
  | rules where "res = Returns None" "check_last_manager err r mc = Returns None" "ro_user r \<noteq> ''''" "ro_role r \<noteq> ''''"
      "authorized err caller (ro_org r) ''users'' ''manage'' [] mc = None"
      "enf_remove_grouping_policy err [get_casbin_group (ro_org r) (ro_user r), ro_role r] (mc_rules mc) = (None, rules)"
      "mc' = mc\<lparr>mc_rules := rules\<rparr>"
proof (cases "check_last_manager err r mc = Returns None \<and> ro_user r \<noteq> '''' \<and> ro_role r \<noteq> '''' \<and>
    enf_has_grouping_policy err [get_casbin_group (ro_org r) (ro_user r), ro_role r] (mc_rules mc) = Inr True \<and>
    authorized err caller (ro_org r) ''users'' ''manage'' [] mc = None")
  case False
  then have "mc' = mc"
    using assms
    by (simp add: remove_user_role_def Let_def split: if_splits sum.splits bool.splits option.splits go.splits)
  then show ?thesis by (rule that(1))
next
  case True
  obtain e rules where e: "enf_remove_grouping_policy err [get_casbin_group (ro_org r) (ro_user r), ro_role r]
      (mc_rules mc) = (e, rules)"
    by fastforce
  show ?thesis
  proof (cases e)
    case None
    then show ?thesis using True assms e that(2) by (simp add: remove_user_role_def Let_def)
  next
    case (Some x)
    then show ?thesis using True assms e that(1) by (simp add: remove_user_role_def Let_def)
  qed
qed

lemma save_org_row_frame [simp]:
  "mc_rules (save_org_row org mc) = mc_rules mc" "mc_users (save_org_row org mc) = mc_users mc"
  "map o_name (mc_orgs (save_org_row org mc)) = map o_name (mc_orgs mc)"
  by (auto simp: save_org_row_def)

lemma mark_frame:
  assumes "mark_org_for_delete err name mark mc = (e, mc')"
  shows "mc_rules mc' = mc_rules mc" "mc_users mc' = mc_users mc"
    "map o_name (mc_orgs mc') = map o_name (mc_orgs mc)"
  using assms by (auto simp: mark_org_for_delete_def split: sum.splits option.splits if_splits)

lemma delete_row_cases:
  assumes "delete_org_row err name mc = (e, mc')"
  obtains "e \<noteq> None" "mc' = mc"
  | "e = None" "mc' = mc\<lparr>mc_orgs := filter (\<lambda>x. \<not> citext_eq (o_name x) name) (mc_orgs mc)\<rparr>"
  using assms by (auto simp: delete_org_row_def split: option.splits if_splits)

definition same_access :: "mc \<Rightarrow> mc \<Rightarrow> bool" where
  "same_access mc mc' \<longleftrightarrow> mc_rules mc' = mc_rules mc \<and> mc_users mc' = mc_users mc \<and>
     map o_name (mc_orgs mc') = map o_name (mc_orgs mc)"

definition org_dropped :: "string \<Rightarrow> mc \<Rightarrow> mc \<Rightarrow> bool" where
  "org_dropped name mc mc' \<longleftrightarrow> mc_users mc' = mc_users mc \<and>
     map o_name (mc_orgs mc') = filter (\<lambda>n. \<not> citext_eq n name) (map o_name (mc_orgs mc))"

lemma undo_mark_same: "undo_mark err name x mc = (e, mc', ev) \<Longrightarrow> e \<noteq> None \<and> same_access mc mc'"
  using mark_frame[of err name False mc "fst (mark_org_for_delete err name False mc)" mc']
  by (cases "mark_org_for_delete err name False mc") (auto simp: undo_mark_def same_access_def)

lemma filter_names: "map o_name (filter (\<lambda>x. \<not> citext_eq (o_name x) name) xs) =
    filter (\<lambda>n. \<not> citext_eq n name) (map o_name xs)"
  by (induction xs) auto

lemma delete_org_cases:
  assumes "delete_org env err caller name mc = (e, mc', ev)"
  obtains "e \<noteq> None" "same_access mc mc'"
  | "e \<noteq> None" "org_dropped name mc mc'" "mc_rules mc' = mc_rules mc"
      "\<exists>x. err (Call_Policies ''g'') = Some x"
  | groups x rules where "e = map_option db_error x" "org_dropped name mc mc'" "mc_rules mc' = rules"
      "enf_get_grouping_policy err (mc_rules mc) = Inr groups" "name \<noteq> ''''"
      "remove_org_groups err name groups (mc_rules mc) = (x, rules)"
      "authorized err caller name ''users'' ''manage'' [] mc = None" "\<exists>oc. org_exists err name mc = Inr oc"
proof (cases "name = '''' \<or> authorized err caller name ''users'' ''manage'' [] mc \<noteq> None \<or>
    (\<exists>x. org_exists err name mc = Inl x)")
  case True
  then have "e \<noteq> None" "mc' = mc"
    using assms by (auto simp: delete_org_def split: option.splits if_splits dest!: sym[of "Some _"])
  then show ?thesis using that(1) by (simp add: same_access_def)
next
  case False
  then obtain oc where oc: "org_exists err name mc = Inr oc" "name \<noteq> ''''"
    and auth: "authorized err caller name ''users'' ''manage'' [] mc = None"
    by (cases "org_exists err name mc") auto
  obtain e1 mc1 where m: "mark_org_for_delete err name True mc = (e1, mc1)" by fastforce
  obtain e2 mc2 where d: "delete_org_row err name mc1 = (e2, mc2)" by fastforce
  let ?checks = "first_fail [org_in_use env name, org_in_use_by_federator err name mc1,
      fail_if (o_parent oc \<noteq> '''') (Err (''Organization is still part of Parent BillingOrganization '' @ o_parent oc))]"
  have same1: "same_access mc mc1" using mark_frame[OF m] by (simp add: same_access_def)
  show ?thesis
  proof (cases "e1 = None \<and> ?checks = None \<and> e2 = None")
    case False
    have "e \<noteq> None \<and> same_access mc mc'"
    proof (cases "e1 = None")
      case True
      show ?thesis
      proof (cases "?checks")
        case None
        then have u: "undo_mark err name (the e2) mc2 = (e, mc', ev)" and "e2 \<noteq> None"
          using assms oc auth m d True False by (auto simp: delete_org_def simp del: first_fail_None)
        moreover have "mc2 = mc1" using d \<open>e2 \<noteq> None\<close> by (cases rule: delete_row_cases) auto
        ultimately show ?thesis using undo_mark_same[OF u] same1 by (simp add: same_access_def)
      next
        case (Some x)
        then have u: "undo_mark err name x mc1 = (e, mc', ev)"
          using assms oc auth m True by (simp add: delete_org_def)
        then show ?thesis using undo_mark_same[OF u] same1 by (simp add: same_access_def)
      qed
    next
      case False
      then show ?thesis using assms oc auth m same1 by (auto simp: delete_org_def)
    qed
    then show ?thesis using that(1) by simp
  next
    case True
    have mc2: "mc2 = mc1\<lparr>mc_orgs := filter (\<lambda>x. \<not> citext_eq (o_name x) name) (mc_orgs mc1)\<rparr>"
      using d by (cases rule: delete_row_cases) (use True in auto)
    then have drop2: "org_dropped name mc mc2" and rules2: "mc_rules mc2 = mc_rules mc"
      using same1 by (auto simp: org_dropped_def same_access_def filter_names)
    show ?thesis
    proof (cases "enf_get_grouping_policy err (mc_rules mc2)")
      case (Inl x)
      then have "e \<noteq> None" "mc' = mc2"
        using assms oc auth m d True by (auto simp: delete_org_def simp del: first_fail_None)
      moreover have "\<exists>x. err (Call_Policies ''g'') = Some x"
        using Inl by (auto simp: enf_get_grouping_policy_def get_policies_def split: option.splits)
      ultimately show ?thesis using that(2) drop2 rules2 by simp
    next
      case (Inr groups)
      obtain x rules where r: "remove_org_groups err name groups (mc_rules mc2) = (x, rules)" by fastforce
      have "e = map_option db_error x \<and> mc' = mc2\<lparr>mc_rules := rules\<rparr>"
        using assms oc auth m d True Inr r
        by (cases x) (auto simp: delete_org_def simp del: first_fail_None)
      then show ?thesis
        using that(3)[of x rules groups] drop2 rules2 Inr r oc auth by (simp add: org_dropped_def)
    qed
  qed
qed

lemma create_org_cases:
  assumes "create_org env err caller org mc = (e, mc', ev)"
  obtains "e \<noteq> None" "mc' = mc"
  | "e \<noteq> None" "mc' = mc\<lparr>mc_orgs := mc_orgs mc @ [new_org org]\<rparr>" "create_org_checks env err caller org mc = None"
      "\<not> (\<exists>x\<in>set (mc_orgs mc). citext_eq (o_name x) (o_name org))"
      "\<exists>x. err (Call_Add (get_casbin_rule ''g'' [get_casbin_group (o_name org) caller, the (org_manager_role (o_type org))])) = Some x"
  | rules where "e = None" "create_org_checks env err caller org mc = None"
      "\<not> (\<exists>x\<in>set (mc_orgs mc). citext_eq (o_name x) (o_name org))"
      "enf_add_grouping_policy err [get_casbin_group (o_name org) caller, the (org_manager_role (o_type org))]
         (mc_rules mc) = (None, rules)"
      "mc' = mc\<lparr>mc_orgs := mc_orgs mc @ [new_org org], mc_rules := rules\<rparr>"
proof (cases "create_org_checks env err caller org mc")
  case (Some x)
  then have "e = Some x" "mc' = mc" using assms by (simp_all add: create_org_def)
  then show ?thesis using that(1) by simp
next
  case None
  have nm: "o_name (new_org org) = o_name org" by (simp add: new_org_def)
  obtain e1 mc1 where c: "create_org_row err (new_org org) mc = (e1, mc1)" by fastforce
  show ?thesis
  proof (cases e1)
    case (Some x)
    then have "mc1 = mc" using c by (auto simp: create_org_row_def split: option.splits if_splits)
    then show ?thesis using Some None assms c that(1) by (auto simp: create_org_def)
  next
    case e1: None
    then have mc1: "mc1 = mc\<lparr>mc_orgs := mc_orgs mc @ [new_org org]\<rparr>"
      and fresh: "\<not> (\<exists>x\<in>set (mc_orgs mc). citext_eq (o_name x) (o_name org))"
      using c nm by (auto simp: create_org_row_def list_ex_iff split: option.splits if_splits)
    obtain e2 rules where a: "enf_add_grouping_policy err
        [get_casbin_group (o_name org) caller, the (org_manager_role (o_type org))] (mc_rules mc) = (e2, rules)"
      by fastforce
    show ?thesis
    proof (cases e2)
      case None
      then show ?thesis
        using \<open>create_org_checks env err caller org mc = None\<close> e1 c mc1 a fresh assms that(3)[of rules]
        by (simp add: create_org_def Let_def)
    next
      case (Some x)
      have "\<exists>x. err (Call_Add (get_casbin_rule ''g'' [get_casbin_group (o_name org) caller, the (org_manager_role (o_type org))])) = Some x"
        using a Some by (auto simp: enf_add_grouping_policy_def add_policy_def Let_def split: option.splits)
      moreover have "e = Some (db_error x)" "mc' = mc1"
        using None e1 c mc1 a Some assms by (auto simp: create_org_def Let_def)
      ultimately show ?thesis using None mc1 fresh that(2) by simp
    qed
  qed
qed

subsection \<open>Reachable states\<close>

text \<open>\<open>getClaims\<close> answers no empty user name, and no user name or API key id has a colon.\<close>

inductive mc_step :: "mc_env \<Rightarrow> mc \<Rightarrow> mc \<Rightarrow> bool" for env where
  step_add: "add_user_role err caller r mc = (e, mc', ev) \<Longrightarrow> mc_step env mc mc'"
| step_remove: "remove_user_role err caller r mc = (res, mc', ev) \<Longrightarrow> mc_step env mc mc'"
| step_create: "create_org env err caller org mc = (e, mc', ev) \<Longrightarrow> caller \<noteq> '''' \<Longrightarrow> no_colon caller \<Longrightarrow>
    mc_step env mc mc'"
| step_delete: "delete_org env err caller name mc = (e, mc', ev) \<Longrightarrow> mc_step env mc mc'"
| step_update: "update_org env err caller admin body mc = (e, mc') \<Longrightarrow> mc_step env mc mc'"

definition access_ok :: "mc \<Rightarrow> bool" where
  "access_ok mc \<longleftrightarrow> rules_ok (mc_rules mc) \<and> names_ok mc"

lemma names_ok_cong: "mc_users mc' = mc_users mc \<Longrightarrow> set (map o_name (mc_orgs mc')) \<subseteq> set (map o_name (mc_orgs mc)) \<Longrightarrow>
    names_ok mc \<Longrightarrow> names_ok mc'"
  by (fastforce simp: names_ok_def)

lemma create_name_ok: "env_ok env \<Longrightarrow> create_org_checks env err caller org mc = None \<Longrightarrow>
    o_name org \<noteq> '''' \<and> no_colon (o_name org) \<and> org_manager_role (o_type org) \<noteq> None"
  by (auto simp: create_org_checks_def valid_name_def env_ok_def)

lemma update_org_same: "update_org env err caller admin body mc = (e, mc') \<Longrightarrow> same_access mc mc'"
  by (auto simp: update_org_def same_access_def Let_def split: sum.splits if_splits option.splits)

lemma access_ok_step:
  assumes "mc_step env mc mc'" and "access_ok mc" and "env_ok env"
  shows "access_ok mc'"
  using assms(1)
proof (cases rule: mc_step.cases)
  case (step_add err caller r e ev)
  then show ?thesis
    using assms(2) add_user_role_rules_ok[OF step_add] by (auto simp: access_ok_def names_ok_def)
next
  case (step_remove err caller r res ev)
  then show ?thesis
    by (cases rule: remove_user_role_cases) (use assms(2) in \<open>auto simp: access_ok_def names_ok_def dest: rules_ok_remove\<close>)
next
  case (step_create err caller org e ev)
  then show ?thesis
  proof (cases rule: create_org_cases)
    case 2
    then show ?thesis
      using assms(2) create_name_ok[OF assms(3) 2(3)] by (auto simp: access_ok_def names_ok_def new_org_def)
  next
    case (3 rules)
    note n = create_name_ok[OF assms(3) 3(2)]
    let ?g = "get_casbin_group (o_name org) caller" and ?r = "the (org_manager_role (o_type org))"
    have "is_admin_role ?r \<longleftrightarrow> o_name org = ''''" "?r \<noteq> ''''"
      using n by (auto simp: org_manager_role_def is_admin_role_def split: if_splits)
    then have "rules_ok rules"
      using rules_ok_add[OF _ 3(4)] assms(2) n step_create(2,3) by (simp add: access_ok_def)
    then show ?thesis
      using 3(5) assms(2) n by (auto simp: access_ok_def names_ok_def new_org_def)
  qed (use assms(2) in simp)
next
  case (step_delete err caller name e ev)
  then show ?thesis
  proof (cases rule: delete_org_cases)
    case 1
    then show ?thesis
      using assms(2) names_ok_cong[of mc' mc] by (simp add: access_ok_def same_access_def)
  next
    case 2
    then show ?thesis
      using assms(2) names_ok_cong[of mc' mc] by (auto simp: access_ok_def org_dropped_def)
  next
    case (3 groups x rules)
    then show ?thesis
      using assms(2) names_ok_cong[of mc' mc] rules_ok_remove_groups[OF _ 3(6)]
      by (auto simp: access_ok_def org_dropped_def)
  qed
next
  case (step_update err caller admin body e)
  then show ?thesis
    using assms(2) update_org_same names_ok_cong[of mc' mc] by (simp add: access_ok_def same_access_def)
qed

lemma access_ok_reach: "(mc_step env)\<^sup>*\<^sup>* mc mc' \<Longrightarrow> access_ok mc \<Longrightarrow> env_ok env \<Longrightarrow> access_ok mc'"
  by (induction rule: rtranclp_induct) (auto intro: access_ok_step)

end
