(* ===== verification/MC_Safety.thy ===== *)
theory MC_Safety
  imports MC_Access
begin

text \<open>
  The properties of roles and organizations over the lemmas of \<open>MC_Access\<close>: roles keep to their
  scope, only managers give them, a manager stays, and a deleted organization leaves no role.
\<close>

definition has_role :: "mc \<Rightarrow> string \<Rightarrow> string \<Rightarrow> string \<Rightarrow> bool" where
  "has_role mc org user role \<longleftrightarrow> has_g (mc_rules mc) (get_casbin_group org user) role"

lemma group_inj:
  assumes "get_casbin_group org user = get_casbin_group org' user'"
    and "no_colon org" "no_colon user" "no_colon org'" "no_colon user'"
  shows "org = org' \<and> user = user'"
proof -
  have "Some \<lparr>ro_org = org, ro_user = user, ro_role = x\<rparr> = Some \<lparr>ro_org = org', ro_user = user', ro_role = x\<rparr>" for x
    using parse_role_group[OF assms(2,3), of x] parse_role_group[OF assms(4,5), of x]
    unfolding assms(1) by (rule trans[OF sym])
  then show ?thesis by blast
qed

lemma has_g_row:
  assumes "rules_ok rules" and "has_g rules s role"
  shows "get_casbin_rule ''g'' [s, role] \<in> set rules"
    and "\<exists>o' u. no_colon o' \<and> no_colon u \<and> u \<noteq> '''' \<and> s = get_casbin_group o' u \<and> (is_admin_role role \<longleftrightarrow> o' = '''')"
    and "role \<noteq> ''''"
proof -
  obtain r where r: "r \<in> set rules" "r_ptype r = ''g''" "r_v0 r = s" "r_v1 r = role"
    using assms(2) by (auto simp: has_g_def)
  then have "group_row r" using assms(1) by (auto simp: rules_ok_def)
  then show "get_casbin_rule ''g'' [s, role] \<in> set rules"
    and "\<exists>o' u. no_colon o' \<and> no_colon u \<and> u \<noteq> '''' \<and> s = get_casbin_group o' u \<and> (is_admin_role role \<longleftrightarrow> o' = '''')"
    and "role \<noteq> ''''"
    using r unfolding group_row_def by metis+
qed

lemma enf_remove_is_del: "enf_remove_grouping_policy err ps rules = (None, rules') \<Longrightarrow> rules' = del_rule (''g'', ps) rules"
  by (auto simp: enf_remove_grouping_policy_def remove_policy_def del_rule_def Let_def split: option.splits)

lemma enf_add_is_add: "enf_add_grouping_policy err ps rules = (None, rules') \<Longrightarrow> rules' = add_rule (''g'', ps) rules"
  by (auto simp: enf_add_grouping_policy_def add_policy_def add_rule_def Let_def split: option.splits)

subsection \<open>The last manager\<close>

lemma length_map_filter:
  "length (filter P (List.map_filter f xs)) = length (filter (\<lambda>x. case f x of None \<Rightarrow> False | Some y \<Rightarrow> P y) xs)"
  by (induction xs) (auto simp: List.map_filter_simps split: option.split)

lemma two_in_list:
  assumes "distinct xs" and "2 \<le> length xs"
  obtains y where "y \<in> set xs" "y \<noteq> x"
proof -
  obtain a b ys where "xs = a # b # ys"
    using assms(2) by (cases xs; cases "tl xs") auto
  then show ?thesis using that[of a] that[of b] assms(1) by auto
qed

lemma last_manager_others:
  assumes "check_last_manager err r mc = Returns None" and "is_manager_role (ro_role r)"
    and ok: "rules_ok (mc_rules mc)"
  obtains o' u where "no_colon o'" "no_colon u" "u \<noteq> ''''" "o' = ro_org r" "is_admin_role (ro_role r) \<longleftrightarrow> o' = ''''"
    "has_role mc o' u (ro_role r)" "get_casbin_group o' u \<noteq> s"
proof -
  obtain groups where g: "enf_get_grouping_policy err (mc_rules mc) = Inr groups"
    using assms(1,2) by (cases "enf_get_grouping_policy err (mc_rules mc)") (auto simp: check_last_manager_def)
  let ?P = "\<lambda>x. ro_role x = ro_role r \<and> ro_org x = ro_org r"
  let ?rows = "filter (\<lambda>row. r_ptype row = ''g'' \<and>
      (case parse_role [r_v0 row, r_v1 row] of None \<Rightarrow> False | Some x \<Rightarrow> ?P x)) (mc_rules mc)"
  have "length ?rows = length (filter ?P (List.map_filter parse_role groups))"
    unfolding length_map_filter groups_of_rules[OF ok g] by (simp add: filter_map comp_def conj_commute)
  also have "\<dots> \<ge> 2"
    using assms(1,2) g by (auto simp: check_last_manager_def split: if_splits)
  finally have two: "2 \<le> length ?rows" .
  have "distinct ?rows" using ok by (simp add: rules_ok_def)
  then obtain row where row: "row \<in> set ?rows" "row \<noteq> get_casbin_rule ''g'' [s, ro_role r]"
    using two by (rule two_in_list)
  then have "group_row row" using ok by (auto simp: rules_ok_def)
  then obtain o' u where ou: "no_colon o'" "no_colon u" "u \<noteq> ''''" "r_v0 row = get_casbin_group o' u"
      "is_admin_role (r_v1 row) \<longleftrightarrow> o' = ''''" and eq: "row = get_casbin_rule ''g'' [r_v0 row, r_v1 row]"
    unfolding group_row_def by metis
  then have p: "parse_role [r_v0 row, r_v1 row] = Some \<lparr>ro_org = o', ro_user = u, ro_role = r_v1 row\<rparr>"
    using parse_role_group by metis
  then have "r_v1 row = ro_role r" "o' = ro_org r" using row(1) by auto
  moreover have "has_role mc o' u (ro_role r)"
    using row(1) ou(4) calculation by (auto simp: has_role_def has_g_def)
  moreover have "get_casbin_group o' u \<noteq> s"
    using row(2) eq ou(4) calculation(1) by metis
  ultimately show ?thesis using that[of o' u] ou by simp
qed

lemma group_org_eq:
  assumes "get_casbin_group o1 u1 = get_casbin_group o2 u2" and "no_colon o1" "no_colon o2" "o1 \<noteq> ''''" "o2 \<noteq> ''''"
  shows "o1 = o2"
proof -
  have "takeWhile (\<lambda>c. c \<noteq> CHR '':'') (get_casbin_group org user) = org" if "no_colon org" "org \<noteq> ''''" for org user
    using that by (auto simp: get_casbin_group_def takeWhile_append)
  then show ?thesis using assms by metis
qed

text \<open>
  C7 (managers\_stay): removing a role never takes away the last manager: while an organization
  has an owner of a manager role (or there is an AdminManager), whatever removal is asked for, by
  whomever, and whatever calls of the database fail, it has one afterwards.
\<close>

theorem managers_stay:
  assumes "remove_user_role err caller r mc = (res, mc', ev)" and "access_ok mc"
    and "is_manager_role role" and "no_colon org" and "no_colon user" and "has_role mc org user role"
  shows "\<exists>u. no_colon u \<and> has_role mc' org u role"
  using assms(1)
proof (cases rule: remove_user_role_cases)
  case 1
  then show ?thesis using assms(5,6) by blast
next
  case (2 rules)
  have ok: "rules_ok (mc_rules mc)" using assms(2) by (simp add: access_ok_def)
  let ?s = "get_casbin_group (ro_org r) (ro_user r)"
  have rules: "has_g (mc_rules mc') s x \<longleftrightarrow> (s, x) \<noteq> (?s, ro_role r) \<and> has_g (mc_rules mc) s x" for s x
    using 2(7) enf_remove_is_del[OF 2(6)] has_g_del[of ?s "ro_role r" "mc_rules mc" s x] 2(3,4) by simp
  show ?thesis
  proof (cases "get_casbin_group org user = ?s \<and> role = ro_role r")
    case False
    then show ?thesis using assms(5,6) rules by (auto simp: has_role_def)
  next
    case True
    have m: "is_manager_role (ro_role r)" using True assms(3) by simp
    obtain o' u where ou: "no_colon o'" "no_colon u" "o' = ro_org r" "is_admin_role (ro_role r) \<longleftrightarrow> o' = ''''"
      "has_role mc o' u (ro_role r)" "get_casbin_group o' u \<noteq> ?s"
      by (rule last_manager_others[OF 2(2) m ok])
    obtain o2 u2 where "no_colon o2" "no_colon u2" "u2 \<noteq> ''''" "?s = get_casbin_group o2 u2" "is_admin_role role \<longleftrightarrow> o2 = ''''"
      using has_g_row(2)[OF ok, of ?s role] assms(6) True by (auto simp: has_role_def)
    moreover have "o2 = org"
      using group_inj[of org user o2 u2] calculation True assms(4,5) by simp
    ultimately have "org = o'"
      using True ou(1,3,4) assms(4) group_org_eq[of "ro_org r" "ro_user r" org user] by (cases "org = ''''") auto
    then show ?thesis using ou True rules by (auto simp: has_role_def)
  qed
qed


subsection \<open>Deleting an organization\<close>

lemma remove_groups_has_g:
  assumes "remove_org_groups err name grps rules = (None, rules')"
    and "\<forall>g\<in>set grps. \<exists>a b. g = [a, b] \<and> a \<noteq> '''' \<and> b \<noteq> ''''"
  shows "has_g rules' s role \<longleftrightarrow> has_g rules s role \<and>
    \<not> ([s, role] \<in> set grps \<and> length (strings_split s ''::'') = 2 \<and> strings_split s ''::'' ! 0 = name)"
  using assms
proof (induction grps arbitrary: rules)
  case (Cons grp grps)
  obtain a b where g: "grp = [a, b]" "a \<noteq> ''''" "b \<noteq> ''''" using Cons.prems(2) by auto
  have wf: "\<forall>g\<in>set grps. \<exists>a b. g = [a, b] \<and> a \<noteq> '''' \<and> b \<noteq> ''''" using Cons.prems(2) by simp
  show ?case
  proof (cases "length (strings_split a ''::'') = 2 \<and> strings_split a ''::'' ! 0 = name")
    case True
    obtain e rules1 where r: "enf_remove_grouping_policy err [a, b] rules = (e, rules1)" by fastforce
    have e: "e = None" and rest: "remove_org_groups err name grps rules1 = (None, rules')"
      using Cons.prems(1) g(1) True r by (auto simp: Let_def split: option.splits)
    have "has_g rules1 s role \<longleftrightarrow> (s, role) \<noteq> (a, b) \<and> has_g rules s role"
      using has_g_del[OF g(2,3), of rules s role] enf_remove_is_del r e by simp
    moreover have "has_g rules' s role \<longleftrightarrow> has_g rules1 s role \<and>
        \<not> ([s, role] \<in> set grps \<and> length (strings_split s ''::'') = 2 \<and> strings_split s ''::'' ! 0 = name)"
      by (rule Cons.IH[OF rest wf])
    ultimately show ?thesis using g(1) True by auto
  next
    case False
    then have rest: "remove_org_groups err name grps rules = (None, rules')"
      using Cons.prems(1) g(1) by (auto simp: Let_def)
    show ?thesis
      using Cons.IH[OF rest wf] g(1) False by auto
  qed
qed simp

lemma groups_have_rows:
  assumes "rules_ok rules" and "enf_get_grouping_policy err rules = Inr groups"
  shows "has_g rules s role \<Longrightarrow> [s, role] \<in> set groups"
    and "\<forall>g\<in>set groups. \<exists>a b. g = [a, b] \<and> a \<noteq> '''' \<and> b \<noteq> ''''"
proof -
  note g = groups_of_rules[OF assms]
  show "has_g rules s role \<Longrightarrow> [s, role] \<in> set groups"
    unfolding g by (force simp: has_g_def)
  show "\<forall>g\<in>set groups. \<exists>a b. g = [a, b] \<and> a \<noteq> '''' \<and> b \<noteq> ''''"
  proof
    fix x assume "x \<in> set groups"
    then obtain r where r: "r \<in> set rules" "r_ptype r = ''g''" "x = [r_v0 r, r_v1 r]" unfolding g by auto
    then have "group_row r" using assms(1) by (auto simp: rules_ok_def)
    then have "r_v0 r \<noteq> ''''" "r_v1 r \<noteq> ''''" using group_not_Nil by (metis group_row_def)+
    then show "\<exists>a b. x = [a, b] \<and> a \<noteq> '''' \<and> b \<noteq> ''''" using r(3) by blast
  qed
qed

lemma delete_org_clears_aux:
  assumes "delete_org env err caller name mc = (None, mc', ev)" and "access_ok mc"
    and "no_colon org" and "no_colon user"
  shows "authorized err caller name ''users'' ''manage'' [] mc = None \<and>
    name \<notin> o_name ` set (mc_orgs mc') \<and>
    (has_role mc' org user role \<longleftrightarrow> org \<noteq> name \<and> has_role mc org user role)"
  using assms(1)
proof (cases rule: delete_org_cases)
  case (3 groups x rules)
  have ok: "rules_ok (mc_rules mc)" using assms(2) by (simp add: access_ok_def)
  have x: "remove_org_groups err name groups (mc_rules mc) = (None, rules)" using 3(1,6) by simp
  let ?s = "get_casbin_group org user"
  have split: "length (strings_split ?s ''::'') = 2 \<and> strings_split ?s ''::'' ! 0 = name \<longleftrightarrow> org = name"
    using split_group[OF assms(3,4)] strings_split_clean[of "''::''" user] assms(4) 3(5)
    by (auto simp: get_casbin_group_def)
  have "has_g rules ?s role \<longleftrightarrow> has_g (mc_rules mc) ?s role \<and> org \<noteq> name"
    using remove_groups_has_g[OF x groups_have_rows(2)[OF ok 3(4)], of ?s role] split
      groups_have_rows(1)[OF ok 3(4), of ?s role] by blast
  moreover have "name \<notin> set (map o_name (mc_orgs mc'))"
    using 3(2) by (auto simp: org_dropped_def)
  ultimately show ?thesis using 3(3,7) by (auto simp: has_role_def)
qed auto

text \<open>
  C39 (delete\_org\_clears\_roles): a successful deletion was asked for by someone who may manage the
  users of the organization, removes the organization, takes away every role in it, and leaves
  the roles in all other organizations and for all organizations as they were.
\<close>

theorem delete_org_clears_roles:
  assumes "delete_org env err caller name mc = (None, mc', ev)" and "access_ok mc"
    and "no_colon org" and "no_colon user"
  shows "authorized err caller name ''users'' ''manage'' [] mc = None \<and>
    name \<notin> o_name ` set (mc_orgs mc') \<and>
    (has_role mc' org user role \<longleftrightarrow> org \<noteq> name \<and> has_role mc org user role)"
  by (rule delete_org_clears_aux[OF assms])

subsection \<open>Giving roles\<close>

text \<open>
  Who manages users, as \<open>InitRolePerms\<close> sets it up: the managers.  API keys may have been given the
  same right, in a role of their own; calls on roles and organizations leave the permissions alone,
  and the calls on API keys keep this too (\<open>perms_ok_create_key\<close>, \<open>perms_ok_delete_key\<close>).
\<close>

definition user_perms_ok :: "casbin_rule list \<Rightarrow> bool" where
  "user_perms_ok rules \<longleftrightarrow> (\<forall>role. has_p rules role ''users'' ''manage'' \<longrightarrow>
     role \<in> set managers_of_users \<or> is_api_key_role role)"

definition perms_ok :: "mc \<Rightarrow> bool" where
  "perms_ok mc \<longleftrightarrow> user_perms_ok (mc_rules mc)"

lemma init_perms_ok: "init_role_perms err tbl = (None, mc_rules mc) \<Longrightarrow> no_policies tbl \<Longrightarrow> perms_ok mc"
  using init_perms_has_p_iff role_perms_manage_users by (auto simp: perms_ok_def user_perms_ok_def)

lemma user_perms_ok_rows: "user_perms_ok rules \<longleftrightarrow> (\<forall>r\<in>set rules. r_ptype r = ''p'' \<and> r_v1 r = ''users'' \<and>
    r_v2 r = ''manage'' \<longrightarrow> r_v0 r \<in> set managers_of_users \<or> is_api_key_role (r_v0 r))"
  by (auto simp: user_perms_ok_def has_p_def)

lemma user_perms_ok_grouping:
  "user_perms_ok rules \<Longrightarrow> enf_add_grouping_policy err ps rules = (e, rules') \<Longrightarrow> user_perms_ok rules'"
  "user_perms_ok rules \<Longrightarrow> enf_remove_grouping_policy err ps rules = (e, rules') \<Longrightarrow> user_perms_ok rules'"
  by (auto simp: enf_add_grouping_policy_def enf_remove_grouping_policy_def add_policy_def remove_policy_def
      raw_delete_def user_perms_ok_rows get_casbin_rule_def Let_def split: option.splits if_splits)

lemma user_perms_ok_remove_groups:
  "user_perms_ok rules \<Longrightarrow> remove_org_groups err name grps rules = (e, rules') \<Longrightarrow> user_perms_ok rules'"
proof (induction err name grps rules arbitrary: e rules' rule: remove_org_groups.induct)
  case (2 err name grp grps rules)
  then show ?case
    by (auto simp: Let_def split: if_splits prod.splits option.splits dest: user_perms_ok_grouping(2))
qed simp

lemma perms_ok_step:
  assumes "mc_step env mc mc'" and "perms_ok mc"
  shows "perms_ok mc'"
  using assms(1)
proof (cases rule: mc_step.cases)
  case (step_add err caller r e ev)
  then show ?thesis
    by (cases rule: add_user_role_cases) (use assms(2) in \<open>auto simp: perms_ok_def dest: user_perms_ok_grouping(1)\<close>)
next
  case (step_remove err caller r res ev)
  then show ?thesis
    by (cases rule: remove_user_role_cases) (use assms(2) in \<open>auto simp: perms_ok_def dest: user_perms_ok_grouping(2)\<close>)
next
  case (step_create err caller org e ev)
  then show ?thesis
    by (cases rule: create_org_cases) (use assms(2) in \<open>auto simp: perms_ok_def dest: user_perms_ok_grouping(1)\<close>)
next
  case (step_delete err caller name e ev)
  then show ?thesis
    by (cases rule: delete_org_cases)
      (use assms(2) in \<open>auto simp: perms_ok_def same_access_def dest: user_perms_ok_remove_groups\<close>)
next
  case (step_update err caller admin body e)
  then show ?thesis
    using assms(2) update_org_same by (auto simp: perms_ok_def same_access_def)
qed

lemma perms_ok_reach: "(mc_step env)\<^sup>*\<^sup>* mc mc' \<Longrightarrow> perms_ok mc \<Longrightarrow> perms_ok mc'"
  by (induction rule: rtranclp_induct) (auto intro: perms_ok_step)

lemma authorized_manages_users:
  assumes "authorized err caller org ''users'' ''manage'' [] mc = None" and "perms_ok mc"
  shows "\<exists>m. (m \<in> set managers_of_users \<or> is_api_key_role m) \<and> (has_role mc org caller m \<or> has_role mc '''' caller m)"
  using assms by (auto simp: authorized_plain granted_def perms_ok_def user_perms_ok_def has_role_def)

lemma admin_no_api_key: "is_admin_role m \<Longrightarrow> \<not> is_api_key_role m"
  by (auto simp: is_admin_role_def is_api_key_role_def strings_has_suffix_def)

text \<open>
  C25 (only\_managers\_give\_roles): a role is given only by a caller that holds, in the same
  organization or for all, the role of a manager or that of an API key (which has the right to manage
  users only if its owner had it); for a role for all organizations the caller's own role is for all,
  and it is AdminManager where, as \<open>access_ok\<close> says, only admin roles are for all organizations.  The
  role is given only to a known user, and only a developer or operator role in an organization of
  that type; the call gives exactly this role and changes no other.
\<close>

theorem only_managers_give_roles:
  assumes "add_user_role err caller r mc = (None, mc', ev)" and "perms_ok mc" and "no_colon caller"
  shows "(\<exists>m. (m \<in> set managers_of_users \<or> is_api_key_role m) \<and>
       (has_role mc (ro_org r) caller m \<or> has_role mc '''' caller m)) \<and>
    (ro_org r = '''' \<and> access_ok mc \<longrightarrow> has_role mc '''' caller ''AdminManager'') \<and>
    (\<exists>u\<in>set (mc_users mc). citext_eq (u_name u) (ro_user r)) \<and>
    (ro_org r \<noteq> '''' \<longrightarrow> (\<exists>x\<in>set (mc_orgs mc). citext_eq (o_name x) (ro_org r) \<and>
       (o_type x = ''developer'' \<longrightarrow> is_developer_role (ro_role r)) \<and>
       (o_type x = ''operator'' \<longrightarrow> is_operator_role (ro_role r)))) \<and>
    (\<forall>s role. has_g (mc_rules mc') s role \<longleftrightarrow>
       (s, role) = (get_casbin_group (ro_org r) (ro_user r), ro_role r) \<or> has_g (mc_rules mc) s role)"
  using assms(1)
proof (cases rule: add_user_role_cases)
  case (2 u ty rules)
  note checks = add_checks_ok[OF 2(2)]
  note form = check_role_form_ok[OF checks(1)]
  have m: "\<exists>m. (m \<in> set managers_of_users \<or> is_api_key_role m) \<and>
      (has_role mc (ro_org r) caller m \<or> has_role mc '''' caller m)"
    by (rule authorized_manages_users[OF checks(5) assms(2)])
  have "has_role mc '''' caller ''AdminManager''" if empty: "ro_org r = ''''" and a: "access_ok mc"
  proof -
    have ok: "rules_ok (mc_rules mc)" using a by (simp add: access_ok_def)
    obtain m where m: "m \<in> set managers_of_users \<or> is_api_key_role m" "has_g (mc_rules mc) caller m"
      using m empty by (auto simp: has_role_def)
    obtain o' u' where "no_colon o'" "no_colon u'" "caller = get_casbin_group o' u'" "is_admin_role m \<longleftrightarrow> o' = ''''"
      using has_g_row(2)[OF ok m(2)] by blast
    then have "is_admin_role m" using assms(3) by (auto simp: get_casbin_group_def split: if_splits)
    then have "m = ''AdminManager''"
      using m(1) admin_no_api_key[of m] by (auto simp: managers_of_users_def is_admin_role_def)
    then show ?thesis using m(2) by (simp add: has_role_def get_casbin_group_def)
  qed
  moreover have "\<exists>u\<in>set (mc_users mc). citext_eq (u_name u) (ro_user r)"
    using find_target_user_in[OF checks(2)] form by blast
  moreover have "\<exists>x\<in>set (mc_orgs mc). citext_eq (o_name x) (ro_org r) \<and>
       (o_type x = ''developer'' \<longrightarrow> is_developer_role (ro_role r)) \<and>
       (o_type x = ''operator'' \<longrightarrow> is_operator_role (ro_role r))" if "ro_org r \<noteq> ''''"
    using checks(4) that
    by (auto simp: check_role_org_def first_org_def find_Some_iff split: sum.splits option.splits)
  moreover have "has_g (mc_rules mc') s role \<longleftrightarrow>
      (s, role) = (get_casbin_group (ro_org r) (ro_user r), ro_role r) \<or> has_g (mc_rules mc) s role" for s role
    using 2(4) enf_add_is_add[OF 2(3)] by (auto simp: has_g_add field_def)
  ultimately show ?thesis using m by blast
qed simp

subsection \<open>One role in an organization that exists\<close>

text \<open>
  Steps in which no call of the database fails while an organization is deleted, and in which
  the organization of a new role is spelled as it is named (its lookup ignores case).
\<close>

inductive clean_step :: "mc_env \<Rightarrow> mc \<Rightarrow> mc \<Rightarrow> bool" for env where
  clean_add: "add_user_role err caller r mc = (e, mc', ev) \<Longrightarrow>
    ro_org r = '''' \<or> ro_org r \<in> o_name ` set (mc_orgs mc) \<Longrightarrow> clean_step env mc mc'"
| clean_remove: "remove_user_role err caller r mc = (res, mc', ev) \<Longrightarrow> clean_step env mc mc'"
| clean_create: "create_org env err caller org mc = (e, mc', ev) \<Longrightarrow> caller \<noteq> '''' \<Longrightarrow> no_colon caller \<Longrightarrow>
    clean_step env mc mc'"
| clean_delete: "delete_org env err caller name mc = (e, mc', ev) \<Longrightarrow>
    err (Call_Policies ''g'') = None \<Longrightarrow> (\<And>r. err (Call_Remove r) = None) \<Longrightarrow> clean_step env mc mc'"
| clean_update: "update_org env err caller admin body mc = (e, mc') \<Longrightarrow> clean_step env mc mc'"

lemma clean_is_step: "clean_step env mc mc' \<Longrightarrow> mc_step env mc mc'"
  by (cases rule: clean_step.cases) (auto intro: mc_step.intros)

definition org_roles_ok :: "mc \<Rightarrow> bool" where
  "org_roles_ok mc \<longleftrightarrow> sorted_wrt (\<lambda>a b. \<not> citext_eq a b) (map o_name (mc_orgs mc)) \<and>
     (\<forall>org user role. no_colon org \<longrightarrow> no_colon user \<longrightarrow> org \<noteq> '''' \<longrightarrow> has_role mc org user role \<longrightarrow>
        org \<in> set (map o_name (mc_orgs mc)) \<and> (\<forall>role'. has_role mc org user role' \<longrightarrow> role' = role))"

lemma org_roles_cong: "same_access mc mc' \<Longrightarrow> org_roles_ok mc' \<longleftrightarrow> org_roles_ok mc"
  unfolding same_access_def org_roles_ok_def has_role_def by (elim conjE) (simp only:)

lemma org_roles_okD:
  assumes "org_roles_ok mc" and "no_colon org" "no_colon user" "org \<noteq> ''''" "has_role mc org user role"
  shows "org \<in> set (map o_name (mc_orgs mc))" and "has_role mc org user role' \<Longrightarrow> role' = role"
  using assms unfolding org_roles_ok_def by blast+

lemma citext_eq_sym: "citext_eq a b \<Longrightarrow> citext_eq b a"
  by (simp add: citext_eq_def)

lemma sorted_wrt_pairs: "sorted_wrt P xs \<Longrightarrow> a \<in> set xs \<Longrightarrow> b \<in> set xs \<Longrightarrow> a \<noteq> b \<Longrightarrow> P a b \<or> P b a"
  by (induction xs) auto

lemma add_no_role_before:
  assumes "check_no_role_in_org err r mc = None" and "rules_ok (mc_rules mc)"
    and "no_colon (ro_org r)" "no_colon (ro_user r)"
  shows "\<not> has_role mc (ro_org r) (ro_user r) role"
proof
  assume h: "has_role mc (ro_org r) (ro_user r) role"
  obtain groups where g: "enf_get_grouping_policy err (mc_rules mc) = Inr groups"
    and none: "find (\<lambda>x. ro_org x = ro_org r \<and> ro_user x = ro_user r) (List.map_filter parse_role groups) = None"
    using assms(1) by (auto simp: check_no_role_in_org_def split: sum.splits option.splits)
  have "[get_casbin_group (ro_org r) (ro_user r), role] \<in> set groups"
    using groups_have_rows(1)[OF assms(2) g] h by (simp add: has_role_def)
  moreover have "parse_role [get_casbin_group (ro_org r) (ro_user r), role] =
      Some \<lparr>ro_org = ro_org r, ro_user = ro_user r, ro_role = role\<rparr>"
    by (rule parse_role_group[OF assms(3,4)])
  ultimately have "\<lparr>ro_org = ro_org r, ro_user = ro_user r, ro_role = role\<rparr> \<in> set (List.map_filter parse_role groups)"
    by (force simp: List.map_filter_def)
  moreover have "\<forall>x\<in>set (List.map_filter parse_role groups). \<not> (ro_org x = ro_org r \<and> ro_user x = ro_user r)"
    using none by (auto simp: find_None_iff)
  ultimately show False by (metis role.select_convs(1) role.select_convs(2))
qed

lemma role_added:
  assumes "has_role mc' org user role \<longleftrightarrow> (get_casbin_group org user, role) = (get_casbin_group o1 u1, r1) \<or> has_role mc org user role"
    and "no_colon org" "no_colon user" "no_colon o1" "no_colon u1"
  shows "has_role mc' org user role \<longleftrightarrow> (org, user, role) = (o1, u1, r1) \<or> has_role mc org user role"
  using assms group_inj[of org user o1 u1] by auto

lemma org_roles_add:
  assumes "org_roles_ok mc" and "no_colon o1" "no_colon u1" and "o1 \<in> set (map o_name (mc_orgs mc')) \<or> o1 = ''''"
    and "set (map o_name (mc_orgs mc)) \<subseteq> set (map o_name (mc_orgs mc'))"
    and "sorted_wrt (\<lambda>a b. \<not> citext_eq a b) (map o_name (mc_orgs mc'))"
    and "\<And>role. o1 \<noteq> '''' \<Longrightarrow> \<not> has_role mc o1 u1 role"
    and "mc_rules mc' = add_rule (''g'', [get_casbin_group o1 u1, r1]) (mc_rules mc)"
  shows "org_roles_ok mc'"
proof -
  have h: "has_role mc' org user role \<longleftrightarrow> (org, user, role) = (o1, u1, r1) \<or> has_role mc org user role"
    if "no_colon org" "no_colon user" for org user role
    by (rule role_added[OF _ that assms(2,3)]) (auto simp: has_role_def assms(8) has_g_add field_def)
  show ?thesis
    unfolding org_roles_ok_def
  proof (intro conjI allI impI)
    show "sorted_wrt (\<lambda>a b. \<not> citext_eq a b) (map o_name (mc_orgs mc'))" by (rule assms(6))
  next
    fix org user role
    assume c: "no_colon org" "no_colon user" "org \<noteq> ''''" and r: "has_role mc' org user role"
    show "org \<in> set (map o_name (mc_orgs mc'))"
      using r h[OF c(1,2)] assms(4,5) c org_roles_okD(1)[OF assms(1) c, of role] by blast
    fix role' assume r': "has_role mc' org user role'"
    show "role' = role"
    proof (cases "org = o1 \<and> user = u1")
      case True
      then have "\<not> has_role mc org user x" for x using assms(7) c(3) by simp
      then show ?thesis using r r' h[OF c(1,2)] by simp
    next
      case False
      then have "has_role mc org user role" "has_role mc org user role'"
        using r r' h[OF c(1,2)] by auto
      then show ?thesis by (rule org_roles_okD(2)[OF assms(1) c])
    qed
  qed
qed

lemma org_roles_sub:
  assumes "org_roles_ok mc" and "sorted_wrt (\<lambda>a b. \<not> citext_eq a b) (map o_name (mc_orgs mc'))"
    and "\<And>org user role. no_colon org \<Longrightarrow> no_colon user \<Longrightarrow> org \<noteq> '''' \<Longrightarrow> has_role mc' org user role \<Longrightarrow>
      has_role mc org user role \<and> (org \<in> set (map o_name (mc_orgs mc)) \<longrightarrow> org \<in> set (map o_name (mc_orgs mc')))"
  shows "org_roles_ok mc'"
  unfolding org_roles_ok_def
proof (intro conjI allI impI)
  show "sorted_wrt (\<lambda>a b. \<not> citext_eq a b) (map o_name (mc_orgs mc'))" by (rule assms(2))
next
  fix org user role
  assume c: "no_colon org" "no_colon user" "org \<noteq> ''''" and r: "has_role mc' org user role"
  note a = assms(3)[OF c r] and d = org_roles_okD[OF assms(1) c]
  show "org \<in> set (map o_name (mc_orgs mc'))" using a d(1) by blast
  fix role' assume "has_role mc' org user role'"
  then show "role' = role" using a assms(3)[OF c] d(2) by blast
qed

lemma remove_groups_no_fail:
  "(\<And>r. err (Call_Remove r) = None) \<Longrightarrow> fst (remove_org_groups err name grps rules) = None"
proof (induction grps arbitrary: rules)
  case (Cons grp grps)
  have "fst (enf_remove_grouping_policy err ps rules) = None" for ps rules
    using Cons.prems by (simp add: enf_remove_grouping_policy_def remove_policy_def Let_def)
  then show ?case
    using Cons by (auto simp: Let_def split: prod.splits option.splits) (metis fst_conv option.distinct(1))
qed simp

lemma org_roles_step:
  assumes "clean_step env mc mc'" and "access_ok mc" and "org_roles_ok mc" and "env_ok env"
  shows "org_roles_ok mc'"
  using assms(1)
proof (cases rule: clean_step.cases)
  case (clean_add err caller r e ev)
  show ?thesis
    using clean_add(1)
  proof (cases rule: add_user_role_cases)
    case 1
    then show ?thesis using assms(3) by simp
  next
    case (2 u ty rules)
    note checks = add_checks_ok[OF 2(2)] and names = check_role_org_in[OF add_checks_ok(4)[OF 2(2)]]
    have c: "no_colon (ro_org r)" "no_colon (ro_user r)"
      using find_target_user_in[OF checks(2)] check_role_form_ok[OF checks(1)] names assms(2) citext_eq_colon
      by (auto simp: access_ok_def names_ok_def)
    have "check_no_role_in_org err r mc = None" if "ro_org r \<noteq> ''''"
      using checks(4) that by (auto simp: check_role_org_def split: sum.splits option.splits)
    then have "\<not> has_role mc (ro_org r) (ro_user r) role" if "ro_org r \<noteq> ''''" for role
      using add_no_role_before[OF _ _ c] assms(2) that by (simp add: access_ok_def)
    then show ?thesis
      using clean_add(2) 2(4) enf_add_is_add[OF 2(3)] assms(3)
      by (intro org_roles_add[OF assms(3) c]) (auto simp: org_roles_ok_def)
  qed
next
  case (clean_remove err caller r res ev)
  show ?thesis
    using clean_remove
  proof (cases rule: remove_user_role_cases)
    case 1
    then show ?thesis using assms(3) by simp
  next
    case (2 rules)
    have "mc_rules mc' = del_rule (''g'', [get_casbin_group (ro_org r) (ro_user r), ro_role r]) (mc_rules mc)"
      and same: "mc_orgs mc' = mc_orgs mc"
      using 2(7) enf_remove_is_del[OF 2(6)] by simp_all
    then have "has_role mc' org user role \<Longrightarrow> has_role mc org user role" for org user role
      using 2(3,4) by (simp add: has_role_def has_g_del)
    moreover have "sorted_wrt (\<lambda>a b. \<not> citext_eq a b) (map o_name (mc_orgs mc'))"
      using assms(3) same by (simp add: org_roles_ok_def)
    ultimately show ?thesis
      using same by (intro org_roles_sub[OF assms(3)]) simp_all
  qed
next
  case (clean_create err caller org e ev)
  have fresh_sorted: "sorted_wrt (\<lambda>a b. \<not> citext_eq a b) (map o_name (mc_orgs mc @ [new_org org]))"
    if "\<not> (\<exists>x\<in>set (mc_orgs mc). citext_eq (o_name x) (o_name org))"
    using that assms(3) by (auto simp: org_roles_ok_def sorted_wrt_append new_org_def)
  show ?thesis
    using clean_create(1)
  proof (cases rule: create_org_cases)
    case 1
    then show ?thesis using assms(3) by simp
  next
    case 2
    then show ?thesis
      using fresh_sorted[OF 2(4)] by (intro org_roles_sub[OF assms(3)]) (auto simp: has_role_def)
  next
    case (3 rules)
    note n = create_name_ok[OF assms(4) 3(2)]
    have "\<not> has_role mc (o_name org) caller role" for role
    proof
      assume "has_role mc (o_name org) caller role"
      then have "o_name org \<in> set (map o_name (mc_orgs mc))"
        using org_roles_okD(1)[OF assms(3)] n clean_create(3) by blast
      then obtain x where "x \<in> set (mc_orgs mc)" "o_name x = o_name org" by auto
      then show False using 3(3) citext_eq_refl[of "o_name org"] by metis
    qed
    then show ?thesis
      using 3(5) enf_add_is_add[OF 3(4)] fresh_sorted[OF 3(3)] n clean_create(3)
      by (intro org_roles_add[OF assms(3), of "o_name org" caller]) (auto simp: new_org_def)
  qed
next
  case (clean_delete err caller name e ev)
  show ?thesis
    using clean_delete(1)
  proof (cases rule: delete_org_cases)
    case 1
    then show ?thesis using assms(3) org_roles_cong by blast
  next
    case 2
    then show ?thesis using clean_delete(2) by simp
  next
    case (3 groups x rules)
    have e: "e = None"
      using 3(1) remove_groups_no_fail[of err name groups "mc_rules mc"] clean_delete(3) 3(6) by simp
    have names: "map o_name (mc_orgs mc') = filter (\<lambda>n. \<not> citext_eq n name) (map o_name (mc_orgs mc))"
      using 3(2) by (simp add: org_dropped_def)
    have name: "name \<in> set (map o_name (mc_orgs mc))" using 3(8) org_exists_in by fastforce
    have sorted: "sorted_wrt (\<lambda>a b. \<not> citext_eq a b) (map o_name (mc_orgs mc))"
      using assms(3) by (simp add: org_roles_ok_def)
    show ?thesis
    proof (rule org_roles_sub[OF assms(3)])
      show "sorted_wrt (\<lambda>a b. \<not> citext_eq a b) (map o_name (mc_orgs mc'))"
        unfolding names by (rule sorted_wrt_filter[OF sorted])
      fix org user role
      assume c: "no_colon org" "no_colon user" "org \<noteq> ''''" and r: "has_role mc' org user role"
      have d: "org \<noteq> name" "has_role mc org user role"
        using delete_org_clears_aux[OF clean_delete(1)[unfolded e] assms(2) c(1,2)] r by blast+
      have "org \<in> set (map o_name (mc_orgs mc'))" if "org \<in> set (map o_name (mc_orgs mc))"
        using that sorted_wrt_pairs[OF sorted that name d(1)] citext_eq_sym unfolding names by auto
      then show "has_role mc org user role \<and> (org \<in> set (map o_name (mc_orgs mc)) \<longrightarrow> org \<in> set (map o_name (mc_orgs mc')))"
        using d(2) by blast
    qed
  qed
next
  case (clean_update err caller admin body e)
  then show ?thesis
    using assms(3) update_org_same[OF clean_update] org_roles_cong by blast
qed

text \<open>
  Note (one\_role\_per\_org): as long as no call of the database fails during a deletion and
  organizations are spelled as they are named, every role in an organization is one in an
  organization that exists, and no user has two roles in the same organization.
\<close>

theorem one_role_per_org:
  assumes "(clean_step env)\<^sup>*\<^sup>* mc mc'" and "access_ok mc" and "org_roles_ok mc" and "env_ok env"
    and "no_colon org" "no_colon user" "org \<noteq> ''''" "has_role mc' org user role"
  shows "org \<in> o_name ` set (mc_orgs mc') \<and> (has_role mc' org user role' \<longrightarrow> role' = role)"
proof -
  have "access_ok mc' \<and> org_roles_ok mc'"
    using assms(1)
  proof (induction rule: rtranclp_induct)
    case base
    then show ?case using assms(2,3) by simp
  next
    case (step y z)
    then show ?case
      using access_ok_step[OF clean_is_step] org_roles_step assms(4) by blast
  qed
  then have ok: "org_roles_ok mc'" by simp
  show ?thesis using org_roles_okD[OF ok assms(5-8)] by auto
qed

subsection \<open>A concrete controller\<close>

definition demo_env :: mc_env where
  "demo_env = \<lparr>env_valid_obj_name = (\<lambda>n. if CHR '':'' \<in> set n then Some ''invalid name'' else None),
     env_reserved_orgs = [''MobiledgeX'', ''EdgeBox''], env_controllers = Inr [''US''],
     env_org_in_region = (\<lambda>_ _. None), env_gitlab_visibility = (\<lambda>_. None)\<rparr>"

definition demo_state :: mc where
  "demo_state = \<lparr>mc_rules = map (get_casbin_rule ''p'') [[''DeveloperManager'', ''users'', ''manage''],
       [''DeveloperViewer'', ''users'', ''view'']] @
       map (get_casbin_rule ''g'') [[''acme::mallory'', ''DeveloperManager''], [''acme::ann'', ''DeveloperManager'']],
     mc_users = map demo_user [''ann'', ''mallory'', ''zoe''],
     mc_orgs = [demo_org ''acme'' ''developer''], mc_pools = [],
     mc_config = demo_config, mc_billing_orgs = [], mc_federators = [], mc_api_keys = []\<rparr>"

definition remove_fails :: db_err where
  "remove_fails c = (case c of Call_Remove _ \<Rightarrow> Some ''connection lost'' | _ \<Rightarrow> None)"

text \<open>
  Note (failed\_delete\_leaves\_access): a deletion of an organization in which the database fails while
  roles are removed reports an error but has deleted the organization.  The roles stay,
  so when another user creates an organization of the same name, the manager of the old one may
  manage the users of the new one.
\<close>

theorem failed_delete_leaves_access:
  "let (e, mc1, _) = delete_org demo_env remove_fails ''ann'' ''acme'' demo_state;
       (e', mc2, _) = create_org demo_env no_err ''zoe'' (demo_org ''acme'' ''developer'') mc1
   in e = Some (db_error ''connection lost'') \<and> mc_orgs mc1 = [] \<and> e' = None \<and>
      authorized no_err ''mallory'' ''acme'' ''users'' ''manage'' [] mc2 = None"
  by code_simp


lemma demo_state_ok: "access_ok demo_state"
proof -
  have "group_row (get_casbin_rule ''g'' [''acme::'' @ u, ''DeveloperManager''])" if "no_colon u" "u \<noteq> ''''" for u
  proof -
    have "''acme::'' @ u = get_casbin_group ''acme'' u \<and> no_colon ''acme'' \<and> \<not> is_admin_role ''DeveloperManager''"
      by (simp add: get_casbin_group_def is_admin_role_def)
    then have "\<exists>o' v. no_colon o' \<and> no_colon v \<and> v \<noteq> '''' \<and> ''acme::'' @ u = get_casbin_group o' v \<and>
        (is_admin_role ''DeveloperManager'' \<longleftrightarrow> o' = '''')"
      using that by (intro exI[of _ "''acme''"] exI[of _ u]) simp
    then show ?thesis by (simp add: group_row_def get_casbin_rule_def field_def)
  qed
  from this[of "''mallory''"] this[of "''ann''"] have
    "\<forall>r\<in>set (mc_rules demo_state). r_ptype r = ''g'' \<longrightarrow> group_row r"
    by (auto simp: demo_state_def get_casbin_rule_def)
  moreover have "distinct (mc_rules demo_state)" by code_simp
  ultimately show ?thesis
    by (auto simp: access_ok_def rules_ok_def names_ok_def demo_state_def demo_org_def)
qed

lemma demo_env_ok: "env_ok demo_env"
  by (auto simp: env_ok_def demo_env_def split: if_splits)

lemma demo_ann: "has_role demo_state ''acme'' ''ann'' ''DeveloperManager''"
  by (simp add: has_role_def has_g_def demo_state_def get_casbin_group_def get_casbin_rule_def field_def)

theorem managers_stay_witness:
  "\<exists>res mc' ev. remove_user_role no_err ''ann'' \<lparr>ro_org = ''acme'', ro_user = ''ann'', ro_role = ''DeveloperManager''\<rparr>
     demo_state = (res, mc', ev) \<and> (\<exists>u. no_colon u \<and> has_role mc' ''acme'' u ''DeveloperManager'')"
proof -
  obtain res mc' ev where r: "remove_user_role no_err ''ann''
      \<lparr>ro_org = ''acme'', ro_user = ''ann'', ro_role = ''DeveloperManager''\<rparr> demo_state = (res, mc', ev)"
    by (rule prod_cases3)
  show ?thesis
    using managers_stay[OF r demo_state_ok _ _ _ demo_ann] r by (auto simp: is_manager_role_def)
qed


theorem delete_org_clears_roles_witness:
  "\<exists>mc' ev. delete_org demo_env no_err ''ann'' ''acme'' demo_state = (None, mc', ev) \<and>
     \<not> has_role mc' ''acme'' ''ann'' ''DeveloperManager''"
proof -
  have "fst (delete_org demo_env no_err ''ann'' ''acme'' demo_state) = None" by code_simp
  then obtain mc' ev where d: "delete_org demo_env no_err ''ann'' ''acme'' demo_state = (None, mc', ev)"
    by (cases "delete_org demo_env no_err ''ann'' ''acme'' demo_state") auto
  then show ?thesis
    using delete_org_clears_roles[OF d demo_state_ok, of "''acme''" "''ann''" "''DeveloperManager''"] by simp
qed

theorem only_managers_give_roles_witness:
  "\<exists>m. (m \<in> set managers_of_users \<or> is_api_key_role m) \<and>
     (has_role demo_state ''acme'' ''ann'' m \<or> has_role demo_state '''' ''ann'' m)"
proof -
  let ?r = "\<lparr>ro_org = ''acme'', ro_user = ''zoe'', ro_role = ''DeveloperViewer''\<rparr>"
  have "fst (add_user_role no_err ''ann'' ?r demo_state) = None" by code_simp
  then obtain mc' ev where a: "add_user_role no_err ''ann'' ?r demo_state = (None, mc', ev)"
    by (cases "add_user_role no_err ''ann'' ?r demo_state") auto
  have p: "perms_ok demo_state"
    by (auto simp: perms_ok_def user_perms_ok_def has_p_def demo_state_def get_casbin_rule_def field_def managers_of_users_def)
  show ?thesis
    using only_managers_give_roles[OF a p] by simp
qed

lemma demo_roles_ok: "org_roles_ok demo_state"
proof -
  have two: "has_g (mc_rules demo_state) s role \<longleftrightarrow>
      (s, role) \<in> {(''acme::mallory'', ''DeveloperManager''), (''acme::ann'', ''DeveloperManager'')}" for s role
    by (auto simp: has_g_def demo_state_def get_casbin_rule_def field_def)
  have "org = ''acme''" if h: "has_role demo_state org user role" "no_colon org" "no_colon user" for org user role
  proof -
    have "\<exists>u. no_colon u \<and> get_casbin_group org user = get_casbin_group ''acme'' u"
      using h(1) by (auto simp: has_role_def two get_casbin_group_def intro: exI[of _ "''ann''"] exI[of _ "''mallory''"])
    then show ?thesis using group_inj[of org user "''acme''"] h(2,3) by auto
  qed
  then show ?thesis
    by (auto simp: org_roles_ok_def has_role_def two) (auto simp: demo_state_def demo_org_def)
qed

theorem one_role_per_org_witness:
  "''acme'' \<in> o_name ` set (mc_orgs demo_state)"
  using one_role_per_org[OF rtranclp.rtrancl_refl demo_state_ok demo_roles_ok demo_env_ok _ _ _ demo_ann] by simp

end
