(* ===== verification/MC_Names.thy ===== *)
theory MC_Names
  imports MC_Safety
begin

text \<open>
  Small properties of the calls on organizations: names and what gitlab makes of them, the check of
  the regions, the display of password strengths, and the flags that a manager can change.
\<close>

lemma no_suffix_trim: "\<not> strings_has_suffix s suf \<Longrightarrow> strings_trim_suffix s suf = s"
  by (simp add: strings_trim_suffix_def)

text \<open>
  Note (valid\_names\_fit\_gitlab): a name that is accepted for an organization, built of the
  characters that the library allows, is not changed for gitlab, where the group has this
  name; and it leaves room for the prefix of its artifactory repository.
\<close>

theorem valid_names_fit_gitlab:
  assumes "valid_name env name = None" and "\<forall>c\<in>set name. gitlab_char c"
  shows "gitlab_group_sanitize name = name \<and> length name \<le> 59"
proof -
  have "strings_trim_prefix name ''-'' = name" "strings_trim_suffix name ''.'' = name"
    and "\<not> strings_has_suffix name ''.git''" "\<not> strings_has_suffix name ''.atom''"
    using assms(1) by (auto simp: valid_name_def strings_trim_prefix_def strings_trim_suffix_def)
  moreover have "map (\<lambda>c. if gitlab_char c then c else CHR ''-'') name = name"
    using assms(2) by (simp add: map_idI)
  moreover have "length name \<le> 59"
    using assms(1) by (simp add: valid_name_def get_artifactory_repo_name_def)
  ultimately show ?thesis by (simp add: gitlab_group_sanitize_def)
qed

theorem valid_names_fit_gitlab_witness:
  "gitlab_group_sanitize ''my_org-1.x'' = ''my_org-1.x'' \<and> length ''my_org-1.x'' \<le> 59"
proof (rule valid_names_fit_gitlab)
  show "valid_name demo_env ''my_org-1.x'' = None" by code_simp
  show "\<forall>c\<in>set ''my_org-1.x''. gitlab_char c" by (simp add: gitlab_char_def)
qed

text \<open>
  Note (sanitized\_names\_may\_be\_refused): the sanitized name of other names can start with a dash or end
  in a dot, which the comment of the function rules out.
\<close>

lemma sanitized_names_may_be_refused:
  "gitlab_group_sanitize ''--a'' = ''-a'' \<and> gitlab_group_sanitize '' a..'' = ''-a.''"
  by code_simp

text \<open>
  Note (org\_in\_use\_order): the answer of the concurrent check of the regions does not depend on the order
  in which they answer.
\<close>

theorem org_in_use_order:
  assumes "env_controllers env = Inr rs" and "mset rs = mset rs'"
  shows "org_in_use env name = org_in_use (env\<lparr>env_controllers := Inr rs'\<rparr>) name"
proof -
  define f where "f r = map_option (\<lambda>e. ''region '' @ r @ '': '' @ e) (env_org_in_region env r name)" for r
  have m: "mset (List.map_filter f xs) = image_mset (\<lambda>r. the (f r)) (filter_mset (\<lambda>r. f r \<noteq> None) (mset xs))" for xs
    by (simp add: List.map_filter_def mset_map[symmetric] mset_filter[symmetric] comp_def del: mset_map mset_filter)
  have ms: "mset (List.map_filter f rs) = mset (List.map_filter f rs')"
    unfolding m assms(2) ..
  then have "sort (List.map_filter f rs) = sort (List.map_filter f rs')"
    by (intro properties_for_sort) (simp_all add: ms)
  moreover have "List.map_filter f rs \<noteq> [] \<longleftrightarrow> List.map_filter f rs' \<noteq> []"
    using ms by (metis mset_zero_iff)
  moreover have "org_in_use e name = fail_if (List.map_filter f xs \<noteq> []) (Err (''Organization '' @ name @
      '' in use or check failed: '' @ strings_join (sort (List.map_filter f xs)) ''; ''))"
    if "env_controllers e = Inr xs" "env_org_in_region e = env_org_in_region env" for e xs
    using that by (simp add: org_in_use_def f_def[abs_def] Let_def)
  ultimately show ?thesis using assms(1) by simp
qed

theorem org_in_use_order_witness:
  "org_in_use (demo_env\<lparr>env_controllers := Inr [''US'', ''EU'']\<rparr>) ''acme'' =
   org_in_use (demo_env\<lparr>env_controllers := Inr [''EU'', ''US'']\<rparr>) ''acme''"
  using org_in_use_order[of "demo_env\<lparr>env_controllers := Inr [''US'', ''EU'']\<rparr>" "[''US'', ''EU'']" "[''EU'', ''US'']" "''acme''"]
  by simp

text \<open>
  Note (years\_are\_two): a crack time of a year to a century is always displayed as two years: the
  seconds are divided by a century instead of a year.
\<close>

lemma years_are_two:
  assumes "32140800 \<le> s" and "s < 3214080000"
  shows "sec_display_time s = ''2.0 years''"
proof -
  have "\<lceil>s / 3214080000\<rceil> = 1"
    using assms by (intro ceiling_unique) auto
  moreover have "(char_of (50 :: nat) :: char) = CHR ''2''" by code_simp
  ultimately show ?thesis
    using assms by (simp add: sec_display_time_def count_units_def nat_digits.simps Let_def)
qed

text \<open>
  Note (manager\_clears\_delete\_mark): an ordinary update can clear the mark of a deletion in progress,
  which is not among the fields that the update protects.
\<close>

lemma manager_clears_delete_mark:
  "let mc1 = snd (mark_org_for_delete no_err ''acme'' True demo_state);
       (e, mc2) = update_org demo_env no_err ''ann'' False
         (Inr (''acme'', \<lambda>o'. o'\<lparr>o_delete_in_progress := False\<rparr>)) mc1
   in map o_delete_in_progress (mc_orgs mc1) = [True] \<and> e = None \<and> map o_delete_in_progress (mc_orgs mc2) = [False]"
  by code_simp

end
