(* ===== verification/MC_Pools.thy ===== *)
theory MC_Pools
  imports MC_Orgs
begin

text \<open>
  Access of developers to the cloudlet pools of operators: \<open>src/mc/orm/orgcloudletpools.go\<close>,
  \<open>authz_orgcloudletpool.go\<close> and \<open>authz_cloudletpool.go\<close>.  An operator invites a developer
  organization, which accepts or rejects; access is granted by an invitation and an accepted
  response.  The controllers, which know the pools and the organizations on a cloudlet, are
  parameters.  The unique key of the table is all its columns but the decision.
\<close>

record regions =
  reg_pools :: "string \<Rightarrow> string + (string \<times> string) list"
  reg_cloudlet_orgs :: "string \<Rightarrow> cloudlet_key \<Rightarrow> string + string list"
  reg_region_exists :: "string \<Rightarrow> bool"
  reg_valid_pool_key :: "string \<times> string \<Rightarrow> string option"
  reg_util_valid_name :: "string \<Rightarrow> bool"
  reg_mobiledgex :: string
  reg_capitalize :: "string \<Rightarrow> string"

subsection \<open>The table\<close>

definition validate_org_pool :: "org_pool \<Rightarrow> mc_err option" where
  "validate_org_pool p = first_fail
     [fail_if (op_org p = '''') (Err ''Organization name not specified''),
      fail_if (op_region p = '''') (Err ''Region not specified''),
      fail_if (op_pool p = '''') (Err ''CloudletPool name not specified''),
      fail_if (op_pool_org p = '''') (Err ''CloudletPool organization not specified'')]"

text \<open>Equality of the columns of the unique key.\<close>

definition same_key :: "org_pool \<Rightarrow> org_pool \<Rightarrow> bool" where
  "same_key p q \<longleftrightarrow> citext_eq (op_org p) (op_org q) \<and> op_region p = op_region q \<and> op_pool p = op_pool q \<and>
     citext_eq (op_pool_org p) (op_pool_org q) \<and> op_type p = op_type q"

text \<open>The controller is asked for the pools with this name and organization.\<close>

definition has_cloudlet_pool :: "regions \<Rightarrow> string \<Rightarrow> string \<Rightarrow> string \<Rightarrow> string + bool" where
  "has_cloudlet_pool rg region pool org =
     (case reg_pools rg region of
        Inl e \<Rightarrow> Inl e
      | Inr pools \<Rightarrow> Inr (list_ex (\<lambda>(n, _). n = pool) (filter (\<lambda>(n, o'). n = pool \<and> o' = org) pools)))"

definition insert_org_pool :: "regions \<Rightarrow> db_err \<Rightarrow> org_pool \<Rightarrow> mc \<Rightarrow> mc_err option \<times> mc" where
  "insert_org_pool rg err p mc =
     (case first_fail
        [map_option db_error (err (Call_Create ''org_cloudlet_pools'' (op_type p))),
         fail_if (\<not> list_ex (\<lambda>x. citext_eq (o_name x) (op_org p)) (mc_orgs mc))
           (Err (''Specified Organization '' @ op_org p @ '' does not exist'')),
         fail_if (\<not> reg_region_exists rg (op_region p)) (Err (''Specified Region '' @ op_region p @ '' does not exist'')),
         fail_if (\<not> list_ex (\<lambda>x. citext_eq (o_name x) (op_pool_org p)) (mc_orgs mc))
           (Err (''Specified CloudletPoolOrg '' @ op_pool_org p @ '' does not exist'')),
         fail_if (list_ex (same_key p) (mc_pools mc))
           (Err (''CloudletPool '' @ op_type p @ '' for org '' @ op_org p @ '', region '' @ op_region p @ '', pool '' @
              op_pool p @ '' poolorg '' @ op_pool_org p @ '' already exists''))] of
        Some e \<Rightarrow> (Some e, mc)
      | None \<Rightarrow> (None, mc\<lparr>mc_pools := mc_pools mc @ [p]\<rparr>))"

definition create_org_pool :: "regions \<Rightarrow> db_err \<Rightarrow> org_pool \<Rightarrow> mc \<Rightarrow> mc_err option \<times> mc" where
  "create_org_pool rg err p mc =
     (case first_org err (op_org p) mc of
        Inl e \<Rightarrow> (Some (db_error e), mc)
      | Inr None \<Rightarrow> (Some (Err ''Specified developer organization not found''), mc)
      | Inr (Some org) \<Rightarrow>
          if o_type org \<noteq> ''developer''
          then (Some (Err ''Specified organization is not a developer organization''), mc)
          else (case has_cloudlet_pool rg (op_region p) (op_pool p) (op_pool_org p) of
              Inl e \<Rightarrow> (Some (Err e), mc)
            | Inr found \<Rightarrow>
                if \<not> found
                then (Some (Err (''Specified CloudletPool '' @ op_pool p @ '' org '' @ op_pool_org p @
                        '' for region '' @ op_region p @ '' not found'')), mc)
                else insert_org_pool rg err p mc))"

definition delete_org_pool :: "regions \<Rightarrow> db_err \<Rightarrow> org_pool \<Rightarrow> mc \<Rightarrow> mc_err option \<times> mc" where
  "delete_org_pool rg err p mc =
     (case err (Call_Delete ''org_cloudlet_pools'' (op_type p)) of
        Some e \<Rightarrow> (Some (db_error e), mc)
      | None \<Rightarrow>
          if \<not> list_ex (same_key p) (mc_pools mc) then (Some (Err (reg_capitalize rg (op_type p) @ '' not found'')), mc)
          else (None, mc\<lparr>mc_pools := filter (\<lambda>q. \<not> same_key p q) (mc_pools mc)\<rparr>))"

subsection \<open>Access\<close>

text \<open>The bits that are collected for each pool and organization.\<close>

definition access_key :: "org_pool \<Rightarrow> org_pool" where
  "access_key p = p\<lparr>op_type := '''', op_decision := ''''\<rparr>"

fun granted_from :: "(org_pool \<Rightarrow> nat) \<Rightarrow> org_pool list \<Rightarrow> org_pool list" where
  "granted_from tracker [] = []"
| "granted_from tracker (p # ps) =
     (let k = access_key p; val = tracker k in
      if op_type p = ''invitation'' then
        let v = or val 1 in (if v = 3 then [k] else []) @ granted_from (tracker(k := v)) ps
      else if op_type p = ''response'' \<and> op_decision p = ''accept'' then
        let v = or val 2 in (if v = 3 then [k] else []) @ granted_from (tracker(k := v)) ps
      else granted_from tracker ps)"

definition get_access_granted :: "org_pool list \<Rightarrow> org_pool list" where
  "get_access_granted ops = granted_from (\<lambda>_. 0) ops"

fun pending_tracker :: "(org_pool \<Rightarrow> nat) \<Rightarrow> org_pool list \<Rightarrow> org_pool \<Rightarrow> nat" where
  "pending_tracker tracker [] = tracker"
| "pending_tracker tracker (p # ps) =
     (let k = access_key p; val = tracker k in
      if op_type p = ''invitation'' then pending_tracker (tracker(k := or val 1)) ps
      else if op_type p = ''response'' then pending_tracker (tracker(k := or val 2)) ps
      else pending_tracker tracker ps)"

definition get_access_pending :: "org_pool list \<Rightarrow> org_pool list" where
  "get_access_pending ops =
     (let tracker = pending_tracker (\<lambda>_. 0) ops in
      map access_key (filter (\<lambda>p. op_type p = ''invitation'' \<and> tracker (access_key p) = 1) ops))"

subsection \<open>The calls\<close>

datatype pool_action = Create_Action | Delete_Action

definition check_response :: "db_err \<Rightarrow> org_pool \<Rightarrow> mc \<Rightarrow> mc_err option" where
  "check_response err p mc = first_fail
     [fail_if (op_decision p \<noteq> ''accept'' \<and> op_decision p \<noteq> ''reject'')
        (Err ''Decision must be either accept or reject''),
      (case err (Call_Find ''org_cloudlet_pools'' ''invitation'') of
         Some e \<Rightarrow> Some (db_error e)
       | None \<Rightarrow> fail_if (\<not> list_ex (\<lambda>q. same_key (p\<lparr>op_type := ''invitation''\<rparr>) q) (mc_pools mc))
           (Err ''No invitation for specified cloudlet pool access''))]"

definition create_delete_pool_access ::
    "regions \<Rightarrow> db_err \<Rightarrow> string \<Rightarrow> pool_action \<Rightarrow> string \<Rightarrow> org_pool \<Rightarrow> mc \<Rightarrow> mc_err option \<times> mc" where
  "create_delete_pool_access rg err caller action typ p0 mc =
     (case validate_org_pool p0 of Some e \<Rightarrow> (Some e, mc) | None \<Rightarrow>
      (case (if typ = ''invitation''
             then (case authorized err caller (op_pool_org p0) ''cloudletpools'' ''manage'' [] mc of
                 Some e \<Rightarrow> Inl e | None \<Rightarrow> Inr (p0\<lparr>op_decision := ''''\<rparr>))
             else if typ = ''response''
             then (case authorized err caller (op_org p0) ''users'' ''manage'' [] mc of
                 Some e \<Rightarrow> Inl e
               | None \<Rightarrow> (case (if action = Create_Action then check_response err p0 mc else None) of
                     Some e \<Rightarrow> Inl e | None \<Rightarrow> Inr p0))
             else Inl (Err ''Internal error: invalid type'')) of
         Inl e \<Rightarrow> (Some e, mc)
       | Inr p1 \<Rightarrow>
           let p = p1\<lparr>op_type := typ\<rparr> in
           (case action of
              Create_Action \<Rightarrow> create_org_pool rg err p mc
            | Delete_Action \<Rightarrow>
                let (e, mc1) = delete_org_pool rg err p mc in
                (e, if typ = ''invitation'' then snd (delete_org_pool rg err (p\<lparr>op_type := ''response''\<rparr>) mc1) else mc1))))"

subsection \<open>Show\<close>

record authz_org_pool =
  ap_oper_orgs :: "string list"
  ap_dev_orgs :: "string list"
  ap_allow_all :: bool

definition new_authz_org_pool :: "db_err \<Rightarrow> string \<Rightarrow> string \<Rightarrow> mc \<Rightarrow> mc_err + authz_org_pool" where
  "new_authz_org_pool err username act mc =
     (case get_authorized_orgs err username ''cloudletpools'' act (mc_rules mc) of
        Inl e \<Rightarrow> Inl (Err e)
      | Inr oper \<Rightarrow>
         (case get_authorized_orgs err username ''users'' act (mc_rules mc) of
            Inl e \<Rightarrow> Inl (Err e)
          | Inr dev \<Rightarrow>
              if dev = [] \<and> oper = [] then Inl Forbidden
              else Inr \<lparr>ap_oper_orgs = oper, ap_dev_orgs = dev, ap_allow_all = ('''' \<in> set oper)\<rparr>))"

definition authz_org_pool_ok :: "authz_org_pool \<Rightarrow> org_pool \<Rightarrow> bool" where
  "authz_org_pool_ok s p \<longleftrightarrow> ap_allow_all s \<or> op_pool_org p \<in> set (ap_oper_orgs s) \<or> op_org p \<in> set (ap_dev_orgs s)"

text \<open>\<open>flt\<close> is the condition of the filter less its type.\<close>

definition show_pool_access ::
    "db_err \<Rightarrow> string \<Rightarrow> (org_pool \<Rightarrow> bool) \<Rightarrow> string \<Rightarrow> mc \<Rightarrow> mc_err + org_pool list" where
  "show_pool_access err username flt typ mc =
     (let special = (typ = ''granted'' \<or> typ = ''pending'') in
      case new_authz_org_pool err username ''view'' mc of
        Inl e \<Rightarrow> Inl e
      | Inr authz \<Rightarrow>
         (case err (Call_Table ''org_cloudlet_pools'') of
            Some e \<Rightarrow> Inl (db_error e)
          | None \<Rightarrow>
              let ops = filter (\<lambda>p. flt p \<and> (special \<or> op_type p = typ)) (mc_pools mc);
                  ret = map (\<lambda>p. if special then p else p\<lparr>op_type := ''''\<rparr>) (filter (authz_org_pool_ok authz) ops)
              in Inr (if typ = ''granted'' then get_access_granted ret
                      else if typ = ''pending'' then get_access_pending ret else ret)))"

subsection \<open>Upgrade of old tables\<close>

text \<open>A row of an old table may have \<open>NULL\<close> in the columns of the type and of the pool's
  organization, which the code reads as empty strings.\<close>

record raw_pool =
  raw_op :: org_pool
  raw_type_null :: bool
  raw_pool_org_null :: bool

definition raw_read :: "raw_pool \<Rightarrow> org_pool" where
  "raw_read r = (raw_op r)
     \<lparr>op_type := if raw_type_null r then '''' else op_type (raw_op r),
      op_pool_org := if raw_pool_org_null r then '''' else op_pool_org (raw_op r)\<rparr>"

text \<open>\<open>db.FirstOrCreate(&op, &op)\<close>: fields that are empty are no condition; a row that is found is
  read into \<open>op\<close>.\<close>

definition row_matches :: "org_pool \<Rightarrow> org_pool \<Rightarrow> bool" where
  "row_matches p q \<longleftrightarrow>
     (op_org p = '''' \<or> citext_eq (op_org q) (op_org p)) \<and> (op_region p = '''' \<or> op_region q = op_region p) \<and>
     (op_pool p = '''' \<or> op_pool q = op_pool p) \<and> (op_pool_org p = '''' \<or> citext_eq (op_pool_org q) (op_pool_org p)) \<and>
     (op_type p = '''' \<or> op_type q = op_type p) \<and> (op_decision p = '''' \<or> op_decision q = op_decision p)"

definition first_or_create :: "db_err \<Rightarrow> org_pool \<Rightarrow> raw_pool list \<Rightarrow> string option \<times> org_pool \<times> raw_pool list" where
  "first_or_create err p rows =
     (case err (Call_Create ''org_cloudlet_pools'' (op_type p)) of
        Some e \<Rightarrow> (Some e, p, rows)
      | None \<Rightarrow>
         (case find (\<lambda>r. row_matches p (raw_read r)) rows of
            Some r \<Rightarrow> (None, raw_read r, rows)
          | None \<Rightarrow> (None, p, rows @ [\<lparr>raw_op = p, raw_type_null = False, raw_pool_org_null = False\<rparr>])))"

fun upgrade_types :: "db_err \<Rightarrow> org_pool list \<Rightarrow> raw_pool list \<Rightarrow> string option \<times> raw_pool list" where
  "upgrade_types err [] rows = (None, rows)"
| "upgrade_types err (p # ps) rows =
     (if op_type p \<noteq> '''' then upgrade_types err ps rows
      else if op_pool_org p = '''' then upgrade_types err ps rows
      else
        let (e1, p1, rows1) = first_or_create err (p\<lparr>op_type := ''invitation''\<rparr>) rows in
        if e1 \<noteq> None then (e1, rows1)
        else
          let (e2, _, rows2) = first_or_create err (p1\<lparr>op_type := ''confirmation''\<rparr>) rows1 in
          if e2 \<noteq> None then (e2, rows2) else upgrade_types err ps rows2)"

definition upgrade_org_pool_type :: "db_err \<Rightarrow> raw_pool list \<Rightarrow> string option \<times> raw_pool list" where
  "upgrade_org_pool_type err rows =
     (case err (Call_Table ''org_cloudlet_pools'') of
        Some e \<Rightarrow> (Some e, rows)
      | None \<Rightarrow>
          let (e, rows1) = upgrade_types err (map raw_read rows) rows in
          if e \<noteq> None then (e, rows1)
          else case err (Call_Delete ''org_cloudlet_pools'' ''type IS NULL'') of
              Some e \<Rightarrow> (Some e, rows1)
            | None \<Rightarrow>
                let rows2 = filter (\<lambda>r. \<not> raw_type_null r) rows1 in
                (case err (Call_Delete ''org_cloudlet_pools'' ''cloudlet_pool_org IS NULL'') of
                   Some e \<Rightarrow> (Some e, rows2)
                 | None \<Rightarrow> (None, filter (\<lambda>r. \<not> raw_pool_org_null r) rows2)))"

text \<open>The record in the old format is deleted by its key, then created in the new one.  A deletion
  that finds no row is no error.\<close>

fun upgrade_decisions :: "db_err \<Rightarrow> org_pool list \<Rightarrow> raw_pool list \<Rightarrow> string option \<times> raw_pool list" where
  "upgrade_decisions err [] rows = (None, rows)"
| "upgrade_decisions err (p # ps) rows =
     (if op_type p \<noteq> ''confirmation'' then upgrade_decisions err ps rows
      else
        let e1 = map_option (\<lambda>e. ''database error, '' @ e) (err (Call_Delete ''org_cloudlet_pools'' (op_type p)));
            rows1 = (if e1 = None
              then filter (\<lambda>r. \<not> (same_key p (raw_op r) \<and> \<not> raw_type_null r \<and> \<not> raw_pool_org_null r)) rows
              else rows) in
        if e1 \<noteq> None \<and> \<not> strings_contains (the e1) ''not found'' then (e1, rows)
        else
          let (e2, _, rows2) = first_or_create err (p\<lparr>op_type := ''response'', op_decision := ''accept''\<rparr>) rows1 in
          if e2 \<noteq> None then (e2, rows2) else upgrade_decisions err ps rows2)"

definition upgrade_org_pool_decision :: "db_err \<Rightarrow> raw_pool list \<Rightarrow> string option \<times> raw_pool list" where
  "upgrade_org_pool_decision err rows =
     (case err (Call_Table ''org_cloudlet_pools'') of
        Some e \<Rightarrow> (Some e, rows)
      | None \<Rightarrow> upgrade_decisions err (map raw_read rows) rows)"

subsection \<open>Changes of the controllers' pools\<close>

definition authz_delete_cloudlet_pool ::
    "db_err \<Rightarrow> string \<Rightarrow> string \<Rightarrow> string \<times> string \<Rightarrow> string \<Rightarrow> string \<Rightarrow> mc \<Rightarrow> mc_err option" where
  "authz_delete_cloudlet_pool err region username pool resource act mc =
     (case authorized err username (snd pool) resource act [] mc of
        Some e \<Rightarrow> Some e
      | None \<Rightarrow>
         (case err (Call_Table ''org_cloudlet_pools'') of
            Some e \<Rightarrow> Some (Err e)
          | None \<Rightarrow>
              let pools = filter (\<lambda>p. op_region p = region \<and> op_pool p = fst pool \<and>
                    citext_eq (op_pool_org p) (snd pool)) (mc_pools mc) in
              fail_if (pools \<noteq> []) (Err (''Cannot delete CloudletPool region '' @ region @ '' name '' @ fst pool @
                '' because it is referenced by '' @
                strings_join (map (\<lambda>p. op_org p @ '' '' @ op_type p) pools) '', ''))))"

fun authz_pool_members ::
    "regions \<Rightarrow> string \<Rightarrow> cloudlet_key list \<Rightarrow> string list \<Rightarrow> string \<Rightarrow> mc_err option" where
  "authz_pool_members rg region [] allowed hlp = None"
| "authz_pool_members rg region (k # ks) allowed hlp =
     (let name = fst (snd k) in
      if \<not> reg_util_valid_name rg name then Some (Err (''Invalid Cloudlet name '' @ CHR 0x22 # name @ [CHR 0x22]))
      else case reg_cloudlet_orgs rg region k of
          Inl e \<Rightarrow> Some (Err e)
        | Inr orgs \<Rightarrow>
            let invalid = filter (\<lambda>o'. o' \<noteq> reg_mobiledgex rg \<and> o' \<notin> set allowed) orgs in
            if invalid \<noteq> []
            then Some (Err (''Cannot add cloudlet '' @ name @
                   '' to CloudletPool because it has AppInsts/ClusterInsts from developer '' @
                   strings_join (sort invalid) '', '' @
                   '', which are not authorized to deploy to the CloudletPool. '' @ hlp @ ''.''))
            else authz_pool_members rg region ks allowed hlp)"

definition authz_create_cloudlet_pool ::
    "regions \<Rightarrow> db_err \<Rightarrow> string \<Rightarrow> string \<Rightarrow> string \<times> string \<Rightarrow> cloudlet_key list \<Rightarrow> string \<Rightarrow> string
       \<Rightarrow> mc \<Rightarrow> mc_err option" where
  "authz_create_cloudlet_pool rg err region username pool cloudlets resource act mc =
     (case authorized err username (snd pool) resource act [with_requires_org (snd pool)] mc of
        Some e \<Rightarrow> Some e
      | None \<Rightarrow> authz_pool_members rg region cloudlets []
          (''To include them as part of the pool, first create an empty pool, invite the developer to the pool, '' @
           ''then add the cloudlet to the pool''))"

definition authz_update_cloudlet_pool ::
    "regions \<Rightarrow> db_err \<Rightarrow> string \<Rightarrow> string \<Rightarrow> string \<times> string \<Rightarrow> cloudlet_key list \<Rightarrow> string \<Rightarrow> string
       \<Rightarrow> mc \<Rightarrow> mc_err option" where
  "authz_update_cloudlet_pool rg err region username pool cloudlets resource act mc =
     (case reg_valid_pool_key rg pool of
        Some e \<Rightarrow> Some (Err e)
      | None \<Rightarrow>
       (case authorized err username (snd pool) resource act [] mc of
          Some e \<Rightarrow> Some e
        | None \<Rightarrow>
         (case show_pool_access err username (\<lambda>p. op_region p = region \<and> op_pool p = fst pool \<and>
               citext_eq (op_pool_org p) (snd pool)) ''granted'' mc of
            Inl e \<Rightarrow> Some e
          | Inr pools \<Rightarrow> authz_pool_members rg region cloudlets (map op_org pools)
              ''Please invite the developer first, or remove the developer from the Cloudlet'')))"

definition authz_add_cloudlet_pool_member ::
    "regions \<Rightarrow> db_err \<Rightarrow> string \<Rightarrow> string \<Rightarrow> string \<times> string \<Rightarrow> cloudlet_key \<Rightarrow> string \<Rightarrow> string
       \<Rightarrow> mc \<Rightarrow> mc_err option" where
  "authz_add_cloudlet_pool_member rg err region username pool cloudlet resource act mc =
     (if \<not> reg_util_valid_name rg (fst (snd cloudlet)) then Some (Err ''Invalid Cloudlet name'')
      else authz_update_cloudlet_pool rg err region username pool [cloudlet] resource act mc)"

subsection \<open>Granted and pending access\<close>

abbreviation invites :: "org_pool list \<Rightarrow> org_pool \<Rightarrow> bool" where
  "invites ops k \<equiv> \<exists>p\<in>set ops. op_type p = ''invitation'' \<and> access_key p = k"

abbreviation accepts :: "org_pool list \<Rightarrow> org_pool \<Rightarrow> bool" where
  "accepts ops k \<equiv> \<exists>p\<in>set ops. op_type p = ''response'' \<and> op_decision p = ''accept'' \<and> access_key p = k"

abbreviation responds :: "org_pool list \<Rightarrow> org_pool \<Rightarrow> bool" where
  "responds ops k \<equiv> \<exists>p\<in>set ops. op_type p = ''response'' \<and> access_key p = k"

definition bits :: "(org_pool \<Rightarrow> bool) \<Rightarrow> (org_pool \<Rightarrow> bool) \<Rightarrow> org_pool \<Rightarrow> nat" where
  "bits a b k = (if a k then 1 else 0) + (if b k then 2 else 0)"

lemma or_Suc: "or (Suc (Suc 0)) (Suc 0) = 3" "or (Suc (Suc (Suc 0))) (Suc 0) = 3"
  by code_simp+

lemma bits_or [simp]:
  "or (bits a b k) (Suc 0) = bits (a(k := True)) b k" "or (bits a b k) 2 = bits a (b(k := True)) k"
  "bits a b k = 3 \<longleftrightarrow> a k \<and> b k" "bits a b k = Suc 0 \<longleftrightarrow> a k \<and> \<not> b k"
  by (auto simp: bits_def or_Suc)

lemma bits_upd: "(bits a b)(k := bits (a(k := True)) b k) = bits (a(k := True)) b"
  "(bits a b)(k := bits a (b(k := True)) k) = bits a (b(k := True))"
  by (auto simp: bits_def fun_eq_iff)

lemma granted_from_iff:
  "k \<in> set (granted_from (bits a b) ops) \<longleftrightarrow>
     (invites ops k \<or> accepts ops k) \<and> (a k \<or> invites ops k) \<and> (b k \<or> accepts ops k)"
proof (induction ops arbitrary: a b)
  case (Cons p ps)
  consider (inv) "op_type p = ''invitation''" | (acc) "op_type p = ''response''" "op_decision p = ''accept''"
    | (other) "op_type p \<noteq> ''invitation''" "\<not> (op_type p = ''response'' \<and> op_decision p = ''accept'')"
    by blast
  then show ?case
  proof cases
    case inv
    then show ?thesis using Cons.IH by (auto simp: Let_def bits_upd)
  next
    case acc
    then show ?thesis using Cons.IH by (auto simp: Let_def bits_upd)
  next
    case other
    then show ?thesis using Cons.IH by (auto simp: Let_def)
  qed
qed simp

lemma bits_zero: "(\<lambda>_. 0) = bits (\<lambda>_. False) (\<lambda>_. False)"
  by (rule ext) (simp add: bits_def)

lemma granted_iff: "k \<in> set (get_access_granted ops) \<longleftrightarrow> invites ops k \<and> accepts ops k"
  unfolding get_access_granted_def bits_zero granted_from_iff by blast

lemma pending_tracker_bits:
  "pending_tracker (bits a b) ops = bits (\<lambda>k. a k \<or> invites ops k) (\<lambda>k. b k \<or> responds ops k)"
proof (induction ops arbitrary: a b)
  case (Cons p ps)
  have "(\<lambda>k. (a(access_key p := True)) k \<or> invites ps k) = (\<lambda>k. a k \<or> invites (p # ps) k)"
    if "op_type p = ''invitation''" using that by auto
  moreover have "(\<lambda>k. (b(access_key p := True)) k \<or> responds ps k) = (\<lambda>k. b k \<or> responds (p # ps) k)"
    if "op_type p = ''response''" using that by auto
  ultimately show ?case
    using Cons.IH by (auto simp: Let_def bits_upd simp del: fun_upd_apply)
qed simp

lemma pending_iff: "k \<in> set (get_access_pending ops) \<longleftrightarrow> invites ops k \<and> \<not> responds ops k"
  unfolding get_access_pending_def bits_zero pending_tracker_bits Let_def
  by auto

end
