(* ===== verification/MC_Pool_Access.thy ===== *)
theory MC_Pool_Access
  imports MC_Pools MC_Safety
begin

text \<open>
  Properties of the access to cloudlet pools: who can grant it, that a response needs an
  invitation, what the upgrade of old tables keeps, and what is checked when a pool changes.
\<close>

text \<open>
  Note (access\_needs\_both\_sides): access is granted for exactly the organizations and pools with both an
  invitation and an accepting response, and pending for exactly those with an invitation and no
  response of either kind, in whatever order the rows are read.
\<close>

theorem access_needs_both_sides:
  "(k \<in> set (get_access_granted ops) \<longleftrightarrow> invites ops k \<and> accepts ops k) \<and>
   (k \<in> set (get_access_pending ops) \<longleftrightarrow> invites ops k \<and> \<not> responds ops k)"
  using granted_iff pending_iff by blast

subsection \<open>What a call changes\<close>

lemma same_key_refl [simp]: "same_key p p"
  by (simp add: same_key_def)

lemma same_key_sym: "same_key p q \<Longrightarrow> same_key q p"
  by (auto simp: same_key_def citext_eq_def)

lemma same_key_trans: "same_key p q \<Longrightarrow> same_key q r \<Longrightarrow> same_key p r"
  by (auto simp: same_key_def citext_eq_def)

lemma same_key_type: "same_key p q \<Longrightarrow> op_type p = op_type q"
  by (simp add: same_key_def)

lemma same_key_retype: "same_key p q \<Longrightarrow> same_key (p\<lparr>op_type := t\<rparr>) (q\<lparr>op_type := t\<rparr>)"
  by (simp add: same_key_def)

lemma same_key_decision [simp]: "same_key (p\<lparr>op_decision := d\<rparr>) q = same_key p q"
  "same_key ((p\<lparr>op_decision := d\<rparr>)\<lparr>op_type := t\<rparr>) q = same_key (p\<lparr>op_type := t\<rparr>) q"
  by (simp_all add: same_key_def)

lemma create_org_pool_cases:
  assumes "create_org_pool rg err p mc = (e, mc')"
  obtains "e \<noteq> None" "mc' = mc"
  | "e = None" "mc' = mc\<lparr>mc_pools := mc_pools mc @ [p]\<rparr>" "\<not> (\<exists>q\<in>set (mc_pools mc). same_key p q)"
proof (cases "mc' = mc \<and> e \<noteq> None")
  case False
  have ins: "insert_org_pool rg err p mc = (e, mc')"
    using assms False
    by (cases "first_org err (op_org p) mc"; cases "has_cloudlet_pool rg (op_region p) (op_pool p) (op_pool_org p)")
      (auto simp: create_org_pool_def split: option.splits if_splits)
  show ?thesis
  proof (cases e)
    case None
    then show ?thesis
      using ins that(2) by (auto simp: insert_org_pool_def list_ex_iff split: option.splits)
  next
    case (Some x)
    then have "mc' = mc"
      using ins by (auto simp: insert_org_pool_def simp del: first_fail_None split: option.splits)
    then show ?thesis using that(1) Some by simp
  qed
qed (use that in blast)

lemma delete_org_pool_cases:
  assumes "delete_org_pool rg err p mc = (e, mc')"
  obtains "e \<noteq> None" "mc' = mc" "err (Call_Delete ''org_cloudlet_pools'' (op_type p)) = None \<longrightarrow>
      \<not> (\<exists>q\<in>set (mc_pools mc). same_key p q)"
  | "e = None" "mc' = mc\<lparr>mc_pools := filter (\<lambda>q. \<not> same_key p q) (mc_pools mc)\<rparr>"
proof (cases "err (Call_Delete ''org_cloudlet_pools'' (op_type p)) = None \<and> list_ex (same_key p) (mc_pools mc)")
  case True
  then show ?thesis using assms that(2) by (auto simp: delete_org_pool_def)
next
  case False
  then show ?thesis
    using assms that(1) by (auto simp: delete_org_pool_def list_ex_iff split: option.splits if_splits)
qed

text \<open>A delete that answers no database error leaves exactly the other rows.\<close>

lemma delete_org_pool_rows:
  assumes "delete_org_pool rg err p mc = (e, mc')" and "err (Call_Delete ''org_cloudlet_pools'' (op_type p)) = None"
  shows "mc_pools mc' = filter (\<lambda>q. \<not> same_key p q) (mc_pools mc)"
  using assms(1)
proof (cases rule: delete_org_pool_cases)
  case 1
  then show ?thesis using assms(2) by (simp add: filter_id_conv)
qed simp

definition row_of :: "string \<Rightarrow> org_pool \<Rightarrow> org_pool" where
  "row_of typ p = (if typ = ''invitation'' then p\<lparr>op_decision := '''', op_type := typ\<rparr> else p\<lparr>op_type := typ\<rparr>)"

lemma pool_access_cases:
  assumes "create_delete_pool_access rg err caller action typ p mc = (e, mc')"
  obtains "e \<noteq> None" "mc' = mc"
  | "typ = ''invitation''" "authorized err caller (op_pool_org p) ''cloudletpools'' ''manage'' [] mc = None"
      "action = Create_Action" "create_org_pool rg err (row_of typ p) mc = (e, mc')"
  | "typ = ''response''" "authorized err caller (op_org p) ''users'' ''manage'' [] mc = None"
      "action = Create_Action" "check_response err p mc = None" "create_org_pool rg err (row_of typ p) mc = (e, mc')"
  | mc1 e2 where "typ = ''invitation''" "authorized err caller (op_pool_org p) ''cloudletpools'' ''manage'' [] mc = None"
      "action = Delete_Action" "delete_org_pool rg err (row_of typ p) mc = (e, mc1)"
      "delete_org_pool rg err ((row_of typ p)\<lparr>op_type := ''response''\<rparr>) mc1 = (e2, mc')"
  | "typ = ''response''" "authorized err caller (op_org p) ''users'' ''manage'' [] mc = None"
      "action = Delete_Action" "delete_org_pool rg err (row_of typ p) mc = (e, mc')"
proof (cases "validate_org_pool p")
  case (Some x)
  then have "e = Some x" "mc' = mc" using assms by (simp_all add: create_delete_pool_access_def)
  then show ?thesis using that(1) by simp
next
  case None
  consider (inv) "typ = ''invitation''" "authorized err caller (op_pool_org p) ''cloudletpools'' ''manage'' [] mc = None"
    | (resp) "typ = ''response''" "authorized err caller (op_org p) ''users'' ''manage'' [] mc = None"
        "action = Create_Action \<longrightarrow> check_response err p mc = None"
    | (fails) "e \<noteq> None" "mc' = mc"
  proof (cases "typ = ''invitation''")
    case True
    then show ?thesis
      using inv fails None assms
      by (cases "authorized err caller (op_pool_org p) ''cloudletpools'' ''manage'' [] mc")
        (auto simp: create_delete_pool_access_def dest!: sym[of "Some _"])
  next
    case not_inv: False
    show ?thesis
    proof (cases "typ = ''response'' \<and> authorized err caller (op_org p) ''users'' ''manage'' [] mc = None")
      case True
      then show ?thesis
        using resp fails None assms
        by (cases "check_response err p mc"; cases action) (auto simp: create_delete_pool_access_def dest!: sym[of "Some _"])
    next
      case False
      have "mc' = mc \<and> e \<noteq> None"
        using False not_inv None assms
        by (cases "authorized err caller (op_org p) ''users'' ''manage'' [] mc")
          (auto simp: create_delete_pool_access_def split: if_splits dest!: sym[of "Some _"])
      then show ?thesis using fails by blast
    qed
  qed
  then show ?thesis
  proof cases
    case inv
    then show ?thesis
    proof (cases action)
      case Create_Action
      then show ?thesis using None assms inv that(2) by (simp add: create_delete_pool_access_def row_of_def)
    next
      case Delete_Action
      obtain mc1 where d: "delete_org_pool rg err (row_of typ p) mc = (e, mc1)"
        and "snd (delete_org_pool rg err ((row_of typ p)\<lparr>op_type := ''response''\<rparr>) mc1) = mc'"
        using None assms inv Delete_Action
        by (auto simp: create_delete_pool_access_def row_of_def split: prod.splits)
      then show ?thesis
        using that(4)[of mc1 "fst (delete_org_pool rg err ((row_of typ p)\<lparr>op_type := ''response''\<rparr>) mc1)"]
          inv Delete_Action by (simp add: prod_eq_iff)
    qed
  next
    case resp
    then show ?thesis
      using None assms that(3,5)
      by (cases action) (auto simp: create_delete_pool_access_def row_of_def split: prod.splits)
  next
    case fails
    then show ?thesis using that(1) by blast
  qed
qed

subsection \<open>Responses have invitations\<close>

text \<open>
  Runs of the calls that create and delete invitations and responses, in which the database may fail
  anywhere.  Recorded are the invitations whose deletion was asked for when the response to them
  could not be deleted.
\<close>

inductive pool_run :: "regions \<Rightarrow> mc \<Rightarrow> org_pool set \<Rightarrow> mc \<Rightarrow> bool" for rg mc where
  start: "pool_run rg mc {} mc"
| call: "pool_run rg mc lost mc1 \<Longrightarrow> create_delete_pool_access rg err caller action typ p mc1 = (e, mc2) \<Longrightarrow>
     pool_run rg mc
       (if action = Delete_Action \<and> typ = ''invitation'' \<and> err (Call_Delete ''org_cloudlet_pools'' ''response'') \<noteq> None
        then insert (row_of typ p) lost else lost) mc2"

definition pools_ok :: "org_pool set \<Rightarrow> org_pool list \<Rightarrow> bool" where
  "pools_ok lost ops \<longleftrightarrow> sorted_wrt (\<lambda>p q. \<not> same_key p q) ops \<and>
     (\<forall>q\<in>set ops. op_type q = ''response'' \<longrightarrow> (\<exists>p\<in>set ops \<union> lost. same_key (q\<lparr>op_type := ''invitation''\<rparr>) p))"

lemma pools_ok_mono: "pools_ok lost ops \<Longrightarrow> lost \<subseteq> lost' \<Longrightarrow> pools_ok lost' ops"
  by (fastforce simp: pools_ok_def)

lemma pools_ok_append:
  assumes "pools_ok lost ops" and "\<not> (\<exists>q\<in>set ops. same_key p q)"
    and "op_type p = ''response'' \<Longrightarrow> \<exists>q\<in>set ops. same_key (p\<lparr>op_type := ''invitation''\<rparr>) q"
  shows "pools_ok lost (ops @ [p])"
  using assms same_key_sym by (fastforce simp: pools_ok_def sorted_wrt_append)

lemma pools_ok_delete_response:
  assumes "pools_ok lost ops" and "op_type p = ''response''"
  shows "pools_ok lost (filter (\<lambda>q. \<not> same_key p q) ops)"
proof -
  have "\<not> same_key p r" if "same_key (q\<lparr>op_type := ''invitation''\<rparr>) r" for q r
  proof
    assume "same_key p r"
    then have "op_type r = ''response''" using same_key_type[of p r] assms(2) by simp
    moreover have "op_type r = ''invitation''" using same_key_type[OF that] by simp
    ultimately show False by simp
  qed
  then show ?thesis
    using assms(1) by (fastforce simp: pools_ok_def intro: sorted_wrt_filter)
qed

lemma pools_ok_delete_both:
  assumes "pools_ok lost ops" and "op_type p = ''invitation''"
  shows "pools_ok lost (filter (\<lambda>q. \<not> same_key (p\<lparr>op_type := ''response''\<rparr>) q) (filter (\<lambda>q. \<not> same_key p q) ops))"
  unfolding pools_ok_def
proof (intro conjI ballI impI)
  fix q assume q: "q \<in> set (filter (\<lambda>q. \<not> same_key (p\<lparr>op_type := ''response''\<rparr>) q) (filter (\<lambda>q. \<not> same_key p q) ops))"
    and resp: "op_type q = ''response''"
  then obtain r where r: "r \<in> set ops \<union> lost" "same_key (q\<lparr>op_type := ''invitation''\<rparr>) r"
    using assms(1) by (auto simp: pools_ok_def)
  have "\<not> same_key p r"
  proof
    assume "same_key p r"
    then have "same_key p (q\<lparr>op_type := ''invitation''\<rparr>)"
      using r(2) same_key_sym same_key_trans by blast
    then have "same_key (p\<lparr>op_type := ''response''\<rparr>) (q\<lparr>op_type := ''response''\<rparr>)"
      by (simp add: same_key_def)
    then show False using q resp by (simp add: same_key_def)
  qed
  moreover have "\<not> same_key (p\<lparr>op_type := ''response''\<rparr>) r"
  proof
    assume "same_key (p\<lparr>op_type := ''response''\<rparr>) r"
    then have "op_type r = ''response''" using same_key_type by fastforce
    moreover have "op_type r = ''invitation''" using same_key_type[OF r(2)] by simp
    ultimately show False by simp
  qed
  ultimately show "\<exists>p'\<in>set (filter (\<lambda>q. \<not> same_key (p\<lparr>op_type := ''response''\<rparr>) q) (filter (\<lambda>q. \<not> same_key p q) ops)) \<union> lost.
      same_key (q\<lparr>op_type := ''invitation''\<rparr>) p'"
    using r by auto
qed (use assms in \<open>auto simp: pools_ok_def intro: sorted_wrt_filter\<close>)

text \<open>The invitation is deleted and the response to it stays: it belongs to a lost invitation.\<close>

lemma pools_ok_delete_lost:
  assumes "pools_ok lost ops"
  shows "pools_ok (insert p lost) (filter (\<lambda>q. \<not> same_key p q) ops)"
  unfolding pools_ok_def
proof (intro conjI ballI impI)
  fix q assume "q \<in> set (filter (\<lambda>q. \<not> same_key p q) ops)" and "op_type q = ''response''"
  then obtain r where r: "r \<in> set ops \<union> lost" "same_key (q\<lparr>op_type := ''invitation''\<rparr>) r"
    using assms by (auto simp: pools_ok_def)
  show "\<exists>p'\<in>set (filter (\<lambda>q. \<not> same_key p q) ops) \<union> insert p lost. same_key (q\<lparr>op_type := ''invitation''\<rparr>) p'"
  proof (cases "same_key p r")
    case True
    then have "same_key (q\<lparr>op_type := ''invitation''\<rparr>) p"
      using r(2) same_key_sym same_key_trans by blast
    then show ?thesis by blast
  qed (use r in auto)
qed (use assms in \<open>auto simp: pools_ok_def intro: sorted_wrt_filter\<close>)

lemma pools_ok_call:
  assumes "create_delete_pool_access rg err caller action typ p mc = (e, mc')" and "pools_ok lost (mc_pools mc)"
  shows "pools_ok (if action = Delete_Action \<and> typ = ''invitation'' \<and> err (Call_Delete ''org_cloudlet_pools'' ''response'') \<noteq> None
      then insert (row_of typ p) lost else lost) (mc_pools mc')"
  using assms(1)
proof (cases rule: pool_access_cases)
  case 1
  then show ?thesis using pools_ok_mono[OF assms(2) subset_insertI] assms(2) by simp
next
  case 2
  show ?thesis
    using 2(4)
  proof (cases rule: create_org_pool_cases)
    case c: 2
    then show ?thesis
      using pools_ok_append[OF assms(2), of "row_of typ p"] 2(1,3) by (simp add: row_of_def)
  qed (use assms(2) 2(3) in simp)
next
  case 3
  show ?thesis
    using 3(5)
  proof (cases rule: create_org_pool_cases)
    case c: 2
    have "\<exists>q\<in>set (mc_pools mc). same_key ((row_of typ p)\<lparr>op_type := ''invitation''\<rparr>) q"
      using 3(1,4) by (auto simp: row_of_def check_response_def list_ex_iff split: option.splits)
    then show ?thesis
      using c 3(3) pools_ok_append[OF assms(2), of "row_of typ p"] by simp
  qed (use assms(2) 3(3) in simp)
next
  case (4 mc1 e2)
  let ?r = "(row_of typ p)\<lparr>op_type := ''response''\<rparr>"
  have t: "op_type (row_of typ p) = ''invitation''" using 4(1) by (simp add: row_of_def)
  have one: "mc_pools mc1 = mc_pools mc \<or> mc_pools mc1 = filter (\<lambda>q. \<not> same_key (row_of typ p) q) (mc_pools mc)"
    using 4(4) by (cases rule: delete_org_pool_cases) auto
  show ?thesis
  proof (cases "err (Call_Delete ''org_cloudlet_pools'' ''response'')")
    case None
    have "mc_pools mc' = filter (\<lambda>q. \<not> same_key ?r q) (mc_pools mc1)"
      using delete_org_pool_rows[OF 4(5)] None by simp
    then show ?thesis
      using one None pools_ok_delete_response[OF assms(2), of ?r] pools_ok_delete_both[OF assms(2) t] by auto
  next
    case (Some x)
    then have "mc' = mc1" using 4(5) by (simp add: delete_org_pool_def)
    then show ?thesis
      using one Some 4(1,3) pools_ok_delete_lost[OF assms(2), of "row_of typ p"] pools_ok_mono[OF assms(2) subset_insertI]
      by auto
  qed
next
  case 5
  have t: "op_type (row_of typ p) = ''response''" using 5(1) by (simp add: row_of_def)
  show ?thesis
    using 5(4)
  proof (cases rule: delete_org_pool_cases)
    case c: 1
    then show ?thesis using assms(2) 5(1) by simp
  next
    case c: 2
    then show ?thesis using pools_ok_delete_response[OF assms(2) t] 5(1) by simp
  qed
qed

text \<open>
  C29 (responses\_have\_invitations): whatever invitations and responses are created and deleted, by whomever, and
  wherever the database fails, no two rows of the table have the same key, and every response belongs
  to an invitation of the table, or to one that was to be deleted when the database failed to delete
  the response to it: that failure is the only way in which an old response stays (and grants
  access again later, Note old\_response\_grants\_again).
\<close>

theorem responses_have_invitations:
  assumes "pool_run rg mc lost mc'" and "pools_ok {} (mc_pools mc)"
  shows "sorted_wrt (\<lambda>p q. \<not> same_key p q) (mc_pools mc') \<and>
    (\<forall>q\<in>set (mc_pools mc'). op_type q = ''response'' \<longrightarrow>
       (\<exists>p\<in>set (mc_pools mc') \<union> lost. same_key (q\<lparr>op_type := ''invitation''\<rparr>) p))"
proof -
  have "pools_ok lost (mc_pools mc')"
    using assms(1)
  proof (induction rule: pool_run.induct)
    case (call lost mc1 err caller action ty p e mc2)
    show ?case by (rule pools_ok_call[OF call.hyps(2) call.IH])
  qed (rule assms(2))
  then show ?thesis by (simp add: pools_ok_def)
qed

subsection \<open>Who can change access\<close>

text \<open>
  Note (pool\_access\_by\_owner): an invitation is created or deleted only for a caller who may manage the pools of
  the operator, and a response only for one who may manage the users of the developer, a new one
  only to an invitation; a creation adds exactly its row, and a deletion touches no other
  organization or pool.
\<close>

theorem pool_access_by_owner:
  assumes "create_delete_pool_access rg err caller action typ p mc = (None, mc')"
  shows "(typ = ''invitation'' \<and> authorized err caller (op_pool_org p) ''cloudletpools'' ''manage'' [] mc = None \<or>
      typ = ''response'' \<and> authorized err caller (op_org p) ''users'' ''manage'' [] mc = None \<and>
      (action = Create_Action \<longrightarrow> (\<exists>q\<in>set (mc_pools mc). same_key (p\<lparr>op_type := ''invitation''\<rparr>) q))) \<and>
    (action = Create_Action \<longrightarrow> mc_pools mc' = mc_pools mc @ [row_of typ p]) \<and>
    (action = Delete_Action \<longrightarrow> (\<forall>q. \<not> same_key (row_of typ p) q \<and> \<not> same_key ((row_of typ p)\<lparr>op_type := ''response''\<rparr>) q
       \<longrightarrow> (q \<in> set (mc_pools mc') \<longleftrightarrow> q \<in> set (mc_pools mc))))"
  using assms
proof (cases rule: pool_access_cases)
  case 2
  then show ?thesis by (auto elim: create_org_pool_cases)
next
  case 3
  then show ?thesis
    by (auto elim!: create_org_pool_cases simp: check_response_def list_ex_iff split: option.splits)
next
  case (4 mc1 e2)
  have 1: "mc_pools mc1 = filter (\<lambda>q. \<not> same_key (row_of typ p) q) (mc_pools mc)"
    using 4(4) by (cases rule: delete_org_pool_cases) auto
  have "mc_pools mc' = mc_pools mc1 \<or>
      mc_pools mc' = filter (\<lambda>q. \<not> same_key ((row_of typ p)\<lparr>op_type := ''response''\<rparr>) q) (mc_pools mc1)"
    using 4(5) by (cases rule: delete_org_pool_cases) auto
  then show ?thesis using 1 4(1-3) by auto
next
  case 5
  have "mc_pools mc' = filter (\<lambda>q. \<not> same_key (row_of typ p) q) (mc_pools mc)"
    using 5(4) by (cases rule: delete_org_pool_cases) auto
  then show ?thesis using 5(1-3) by auto
qed simp

subsection \<open>Cloudlets in a pool\<close>

lemma authz_pool_members_ok: "authz_pool_members rg region ks allowed hlp = None \<longleftrightarrow>
    (\<forall>k\<in>set ks. reg_util_valid_name rg (fst (snd k)) \<and>
       (\<exists>orgs. reg_cloudlet_orgs rg region k = Inr orgs \<and>
          (\<forall>o'\<in>set orgs. o' = reg_mobiledgex rg \<or> o' \<in> set allowed)))"
proof (induction ks)
  case (Cons k ks)
  show ?case
  proof (cases "reg_cloudlet_orgs rg region k")
    case (Inl e)
    then show ?thesis by (auto simp: Let_def)
  next
    case (Inr orgs)
    then show ?thesis using Cons by (auto simp: Let_def filter_empty_conv)
  qed
qed simp

text \<open>
  C38 (pool\_update\_keeps\_consent): an update of a pool, or the addition of a cloudlet to it, is let through
  only if every developer with instances on a cloudlet of the pool (the operator of the platform
  apart) was invited to this pool and accepted.
\<close>

theorem pool_update_keeps_consent:
  assumes "authz_update_cloudlet_pool rg err region username pool cloudlets resource act mc = None"
    and "k \<in> set cloudlets" and "reg_cloudlet_orgs rg region k = Inr orgs"
    and "dev \<in> set orgs" and "dev \<noteq> reg_mobiledgex rg"
  shows "\<exists>p\<in>set (mc_pools mc). \<exists>q\<in>set (mc_pools mc). op_type p = ''invitation'' \<and>
    op_type q = ''response'' \<and> op_decision q = ''accept'' \<and> op_org p = dev \<and> op_org q = dev \<and>
    op_region p = region \<and> op_region q = region \<and> op_pool p = fst pool \<and> op_pool q = fst pool \<and>
    citext_eq (op_pool_org p) (snd pool) \<and> op_pool_org q = op_pool_org p"
proof -
  let ?flt = "\<lambda>p. op_region p = region \<and> op_pool p = fst pool \<and> citext_eq (op_pool_org p) (snd pool)"
  obtain pools where listed: "show_pool_access err username ?flt ''granted'' mc = Inr pools"
    and mem: "authz_pool_members rg region cloudlets (map op_org pools)
      ''Please invite the developer first, or remove the developer from the Cloudlet'' = None"
    using assms(1) by (auto simp: authz_update_cloudlet_pool_def split: option.splits sum.splits)
  obtain authz where pools: "pools = get_access_granted (filter (authz_org_pool_ok authz) (filter ?flt (mc_pools mc)))"
    using listed by (auto simp: show_pool_access_def split: sum.splits option.splits)
  define ret where "ret = filter (authz_org_pool_ok authz) (filter ?flt (mc_pools mc))"
  have ret: "set ret \<subseteq> {p \<in> set (mc_pools mc). ?flt p}" "pools = get_access_granted ret"
    using pools by (auto simp: ret_def)
  obtain g where "g \<in> set pools" "op_org g = dev"
    using mem assms(2-5) unfolding authz_pool_members_ok by force
  then obtain p q where p: "p \<in> set ret" "op_type p = ''invitation''" "access_key p = g"
    and q: "q \<in> set ret" "op_type q = ''response''" "op_decision q = ''accept''" "access_key q = g"
    using ret(2) granted_iff by blast
  have keys: "op_org (access_key x) = op_org x" "op_pool_org (access_key x) = op_pool_org x" for x
    by (simp_all add: access_key_def)
  have "op_org p = dev" "op_org q = dev" "op_pool_org q = op_pool_org p"
    using keys[of p] keys[of q] p(3) q(4) \<open>op_org g = dev\<close> by simp_all
  then show ?thesis
    using p(1,2) q(1-3) ret(1) by (intro bexI[of _ p] bexI[of _ q]) auto
qed

subsection \<open>Concrete calls\<close>

definition demo_regions :: regions where
  "demo_regions = \<lparr>reg_pools = (\<lambda>_. Inr [(''pool'', ''oper'')]),
     reg_cloudlet_orgs = (\<lambda>_ _. Inr [''acme'', ''MobiledgeX'']), reg_region_exists = (\<lambda>_. True),
     reg_valid_pool_key = (\<lambda>_. None), reg_util_valid_name = (\<lambda>_. True), reg_mobiledgex = ''MobiledgeX'',
     reg_capitalize = (\<lambda>s. s)\<rparr>"

definition demo_pool_row :: "string \<Rightarrow> string \<Rightarrow> org_pool" where
  "demo_pool_row typ decision = \<lparr>op_org = ''acme'', op_region = ''US'', op_pool = ''pool'',
     op_pool_org = ''oper'', op_type = typ, op_decision = decision\<rparr>"

definition demo_pools :: "org_pool list \<Rightarrow> mc" where
  "demo_pools ops = demo_state
     \<lparr>mc_rules := mc_rules demo_state @
        map (get_casbin_rule ''p'') [[''OperatorManager'', ''cloudletpools'', ''manage''],
          [''OperatorManager'', ''cloudletpools'', ''view'']] @
        [get_casbin_rule ''g'' [''oper::olga'', ''OperatorManager'']],
      mc_orgs := [demo_org ''acme'' ''developer'', demo_org ''oper'' ''operator''], mc_pools := ops\<rparr>"

definition both_sides :: "org_pool list" where
  "both_sides = [demo_pool_row ''invitation'' [], demo_pool_row ''response'' ''accept'']"

theorem pool_access_by_owner_witness:
  "\<exists>mc'. create_delete_pool_access demo_regions no_err ''olga'' Create_Action ''invitation''
     (demo_pool_row [] []) (demo_pools []) = (None, mc') \<and> mc_pools mc' = [demo_pool_row ''invitation'' []]"
proof -
  have "fst (create_delete_pool_access demo_regions no_err ''olga'' Create_Action ''invitation''
     (demo_pool_row [] []) (demo_pools [])) = None" by code_simp
  then obtain mc' where c: "create_delete_pool_access demo_regions no_err ''olga'' Create_Action ''invitation''
     (demo_pool_row [] []) (demo_pools []) = (None, mc')"
    by (metis prod.collapse)
  then show ?thesis
    using pool_access_by_owner[OF c] by (simp add: row_of_def demo_pool_row_def demo_pools_def)
qed

theorem pool_update_keeps_consent_witness:
  "\<exists>p\<in>set (mc_pools (demo_pools both_sides)). op_type p = ''invitation'' \<and> op_org p = ''acme''"
proof -
  have a: "authz_update_cloudlet_pool demo_regions no_err ''US'' ''olga'' (''pool'', ''oper'') [(''oper'', ''c1'', [])]
      ''cloudletpools'' ''manage'' (demo_pools both_sides) = None"
    by code_simp
  have b: "reg_cloudlet_orgs demo_regions ''US'' (''oper'', ''c1'', []) = Inr [''acme'', ''MobiledgeX'']"
    by (simp add: demo_regions_def)
  show ?thesis
    using pool_update_keeps_consent[OF a _ b, of "''acme''"] by (auto simp: demo_regions_def)
qed

definition response_delete_fails :: db_err where
  "response_delete_fails c = (if c = Call_Delete ''org_cloudlet_pools'' ''response'' then Some ''connection lost'' else None)"

text \<open>An invitation, the response to it, and a withdrawal during which the database fails.\<close>

theorem responses_have_invitations_witness:
  "let mc1 = snd (create_delete_pool_access demo_regions no_err ''olga'' Create_Action ''invitation''
         (demo_pool_row [] []) (demo_pools []));
       mc2 = snd (create_delete_pool_access demo_regions no_err ''ann'' Create_Action ''response''
         (demo_pool_row [] ''accept'') mc1);
       mc3 = snd (create_delete_pool_access demo_regions response_delete_fails ''olga'' Delete_Action ''invitation''
         (demo_pool_row [] []) mc2)
   in mc_pools mc2 = both_sides \<and> mc_pools mc3 = [demo_pool_row ''response'' ''accept''] \<and>
      (\<exists>p\<in>set (mc_pools mc2). same_key (demo_pool_row ''invitation'' ''accept'') p) \<and>
      (\<exists>p\<in>set (mc_pools mc3) \<union> {demo_pool_row ''invitation'' ''''}. same_key (demo_pool_row ''invitation'' ''accept'') p)"
proof -
  define mc1 mc2 mc3 where
    mc1: "mc1 = snd (create_delete_pool_access demo_regions no_err ''olga'' Create_Action ''invitation''
         (demo_pool_row [] []) (demo_pools []))" and
    mc2: "mc2 = snd (create_delete_pool_access demo_regions no_err ''ann'' Create_Action ''response''
         (demo_pool_row [] ''accept'') mc1)" and
    mc3: "mc3 = snd (create_delete_pool_access demo_regions response_delete_fails ''olga'' Delete_Action ''invitation''
         (demo_pool_row [] []) mc2)"
  have ok: "pools_ok {} (mc_pools (demo_pools []))" by (simp add: pools_ok_def demo_pools_def)
  have call: "create_delete_pool_access rg err caller action ty p mc =
      (fst (create_delete_pool_access rg err caller action ty p mc), snd (create_delete_pool_access rg err caller action ty p mc))"
    for rg err caller action ty p mc by simp
  have one: "pool_run demo_regions (demo_pools []) {} mc1"
    using pool_run.call[OF pool_run.start call, of demo_regions "demo_pools []" Create_Action "''invitation''" no_err
        "demo_pool_row [] []" "''olga''"]
    unfolding mc1 by simp
  have two: "pool_run demo_regions (demo_pools []) {} mc2"
    using pool_run.call[OF one call, of Create_Action "''response''" no_err "demo_pool_row [] ''accept''" "''ann''"]
    unfolding mc2 by simp
  have three: "pool_run demo_regions (demo_pools []) {row_of ''invitation'' (demo_pool_row [] [])} mc3"
    using pool_run.call[OF two call, of Delete_Action "''invitation''" response_delete_fails "demo_pool_row [] []" "''olga''"]
    unfolding mc3 by (simp add: response_delete_fails_def)
  have rows: "mc_pools mc2 = both_sides" "mc_pools mc3 = [demo_pool_row ''response'' ''accept'']"
    unfolding mc1 mc2 mc3 by code_simp+
  have lost: "row_of ''invitation'' (demo_pool_row [] []) = demo_pool_row ''invitation'' ''''"
    by (simp add: row_of_def demo_pool_row_def)
  have resp: "(demo_pool_row ''response'' ''accept'')\<lparr>op_type := ''invitation''\<rparr> = demo_pool_row ''invitation'' ''accept''"
    by (simp add: demo_pool_row_def)
  have type: "op_type (demo_pool_row ''response'' ''accept'') = ''response''" by (simp add: demo_pool_row_def)
  have "\<exists>p\<in>set (mc_pools mc2). same_key (demo_pool_row ''invitation'' ''accept'') p"
    using responses_have_invitations[OF two ok] type resp by (auto simp: rows both_sides_def)
  moreover have "\<exists>p\<in>set (mc_pools mc3) \<union> {demo_pool_row ''invitation'' ''''}. same_key (demo_pool_row ''invitation'' ''accept'') p"
    using responses_have_invitations[OF three ok] type resp unfolding lost by (auto simp: rows)
  ultimately show ?thesis unfolding Let_def using rows unfolding mc1 mc2 mc3 by blast
qed

text \<open>
  Note (old\_response\_grants\_again): an operator that withdraws an invitation is told that it succeeded even when the
  database fails to delete the response to it; access is withdrawn, but a later invitation of the
  same developer is granted at once, by the old response.
\<close>

theorem old_response_grants_again:
  "let (e1, mc1) = create_delete_pool_access demo_regions response_delete_fails ''olga'' Delete_Action ''invitation''
         (demo_pool_row [] []) (demo_pools both_sides);
       (e2, mc2) = create_delete_pool_access demo_regions no_err ''olga'' Create_Action ''invitation''
         (demo_pool_row [] []) mc1
   in e1 = None \<and> get_access_granted (mc_pools mc1) = [] \<and> e2 = None \<and>
      get_access_granted (mc_pools mc2) = [access_key (demo_pool_row [] [])]"
  by code_simp

end
