(* ===== verification/MC_Authz.thy ===== *)
theory MC_Authz
  imports MC_Pool_Access
begin

text \<open>
  What a user may do with and see of Cloudlets and the objects on them: \<open>src/mc/orm/authz_cloudlet.go\<close>,
  \<open>authz_show.go\<close>, \<open>authz_alert.go\<close>, \<open>authz_app.go\<close>, \<open>authz_trustpolicy.go\<close>,
  \<open>authz_trustpolicyexception.go\<close>, \<open>isBillable\<close> of \<open>billing_organization.go\<close> and the show calls of
  \<open>orgcloudletpools.go\<close>.  The streams of the controllers are parameters: the objects they
  deliver and the error they may end with; so are the functions of the edge-cloud library.
  The contract of the show objects is the locale \<open>show_authz\<close>.
\<close>

record cloudlet =
  cl_key :: cloudlet_key
  cl_location :: string
  cl_state :: string
  cl_ip_support :: string
  cl_num_dynamic_ips :: nat
  cl_maintenance_state :: string
  cl_platform_type :: string
  cl_res_tag_map :: "string list"
  cl_trust_policy :: string
  cl_trust_policy_state :: string
  cl_gpu_driver :: "string \<times> string"
  cl_alliance_orgs :: "string list"
  cl_single_k8s_owner :: string
  cl_hidden :: string

definition cl_org :: "cloudlet \<Rightarrow> string" where
  "cl_org c = fst (cl_key c)"

text \<open>An empty \<open>edgeproto.Cloudlet\<close> with this key.\<close>

definition key_cloudlet :: "cloudlet_key \<Rightarrow> cloudlet" where
  "key_cloudlet k = \<lparr>cl_key = k, cl_location = '''', cl_state = '''', cl_ip_support = '''',
     cl_num_dynamic_ips = 0, cl_maintenance_state = '''', cl_platform_type = '''', cl_res_tag_map = [],
     cl_trust_policy = '''', cl_trust_policy_state = '''', cl_gpu_driver = ('''', ''''),
     cl_alliance_orgs = [], cl_single_k8s_owner = '''', cl_hidden = ''''\<rparr>"

record cloudlet_pool =
  cp_key :: "string \<times> string"
  cp_cloudlets :: "cloudlet_key list"

record controllers =
  ct_pools :: "string \<Rightarrow> cloudlet_pool list \<times> string option"
  ct_cloudlets :: "string \<Rightarrow> cloudlet list \<times> string option"
  ct_billing_enabled :: bool
  ct_key_string :: "cloudlet_key \<Rightarrow> string"
  ct_gpu_matches :: "string \<times> string \<Rightarrow> string \<times> string \<Rightarrow> bool"
  ct_internal_alert :: "(string, string) gmap \<Rightarrow> bool"
  ct_internal_label :: "string \<Rightarrow> bool"
  ct_alert_scope_cloudlet :: string
  ct_edgebox :: string

subsection \<open>AuthzCloudlet\<close>

datatype pool_side = My_Pool | Not_My_Pool

record authz_cloudlet =
  ac_orgs :: "string list"
  ac_oper_orgs :: "string list"
  ac_pool_side :: "(cloudlet_key, pool_side) gmap"
  ac_allow_all :: bool
  ac_admin :: bool
  ac_billable :: bool

definition is_billable :: "mc_env \<Rightarrow> controllers \<Rightarrow> db_err \<Rightarrow> string \<Rightarrow> mc \<Rightarrow> bool" where
  "is_billable env ct err org mc =
     (if \<not> ct_billing_enabled ct then True
      else if list_ex (citext_eq org) (env_reserved_orgs env) then True
      else case org_exists err org mc of
          Inl _ \<Rightarrow> False
        | Inr o' \<Rightarrow>
            if o_parent o' = '''' then False
            else (case billing_org_exists err (o_parent o') mc of Inr (Some _) \<Rightarrow> True | _ \<Rightarrow> False))"

definition authz_cloudlet_ok :: "authz_cloudlet \<Rightarrow> cloudlet \<Rightarrow> bool \<times> bool" where
  "authz_cloudlet_ok s c =
     (if ac_allow_all s then (True, False)
      else if cl_org c \<in> set (ac_orgs s) then (True, False)
      else if cl_org c \<in> set (ac_oper_orgs s) then (True, False)
      else case map_of (ac_pool_side s) (cl_key c) of
          Some side \<Rightarrow> (side = My_Pool, True)
        | None \<Rightarrow> (ac_billable s, True))"

definition authz_cloudlet_filter :: "authz_cloudlet \<Rightarrow> cloudlet \<Rightarrow> cloudlet" where
  "authz_cloudlet_filter s c = (key_cloudlet (cl_key c))
     \<lparr>cl_location := cl_location c, cl_state := cl_state c, cl_ip_support := cl_ip_support c,
      cl_num_dynamic_ips := cl_num_dynamic_ips c, cl_maintenance_state := cl_maintenance_state c,
      cl_platform_type := cl_platform_type c, cl_res_tag_map := cl_res_tag_map c,
      cl_trust_policy := cl_trust_policy c, cl_trust_policy_state := cl_trust_policy_state c,
      cl_gpu_driver := cl_gpu_driver c\<rparr>"

definition add_side ::
    "(string \<times> string) list \<Rightarrow> cloudlet_pool \<Rightarrow> cloudlet_key \<Rightarrow> (cloudlet_key, pool_side) gmap
       \<Rightarrow> (cloudlet_key, pool_side) gmap" where
  "add_side mypools pool k m =
     (let side = (case map_of m k of None \<Rightarrow> Not_My_Pool | Some s \<Rightarrow> s) in
      gput k (if cp_key pool \<in> set mypools then My_Pool else side) m)"

definition pool_sides :: "(string \<times> string) list \<Rightarrow> cloudlet_pool list \<Rightarrow> (cloudlet_key, pool_side) gmap" where
  "pool_sides mypools pools = fold (\<lambda>pool. fold (add_side mypools pool) (cp_cloudlets pool)) pools []"

text \<open>The rows of \<open>org_cloudlet_pools\<close> of a region, and of one organization if it is not empty.\<close>

definition find_org_pools :: "db_err \<Rightarrow> string \<Rightarrow> string \<Rightarrow> mc \<Rightarrow> string + org_pool list" where
  "find_org_pools err region org mc =
     (case err (Call_Table ''org_cloudlet_pools'') of
        Some e \<Rightarrow> Inl e
      | None \<Rightarrow> Inr (filter (\<lambda>p. (region = '''' \<or> op_region p = region) \<and> (org = '''' \<or> citext_eq (op_org p) org))
          (mc_pools mc)))"

text \<open>The organizations that \<open>populate\<close> goes on with, once the caller is not an admin without filter.\<close>

definition populate_orgs :: "string list \<Rightarrow> string \<Rightarrow> mc_err + string list" where
  "populate_orgs orgs0 orgfilter =
     (let orgs1 = (if '''' \<in> set orgs0 \<and> orgfilter \<noteq> '''' then List.insert orgfilter orgs0 else orgs0) in
      if orgfilter \<noteq> '''' then (if orgfilter \<in> set orgs1 then Inr [orgfilter] else Inl Forbidden)
      else if orgs1 = [] then Inl Forbidden else Inr orgs1)"

definition billing_check :: "auth_opts \<Rightarrow> authz_cloudlet \<Rightarrow> mc_err option" where
  "billing_check opts s =
     (if opt_requires_billing_org opts \<noteq> '''' \<and> \<not> ac_billable s
      then case opt_target_cloudlet opts of
          None \<Rightarrow> None
        | Some k \<Rightarrow>
            if fst (authz_cloudlet_ok s (key_cloudlet k)) then None
            else (case map_of (ac_pool_side s) k of
                Some side \<Rightarrow> (if side \<noteq> My_Pool then Some Forbidden else None)
              | None \<Rightarrow> Some (Err (''Billing Org must be set up to deploy to public cloudlets, '' @
                         ''please contact MobiledgeX support'')))
      else None)"

definition populate ::
    "mc_env \<Rightarrow> controllers \<Rightarrow> db_err \<Rightarrow> string \<Rightarrow> string \<Rightarrow> string \<Rightarrow> string \<Rightarrow> string \<Rightarrow> auth_op list
       \<Rightarrow> mc \<Rightarrow> mc_err + authz_cloudlet" where
  "populate env ct err region username orgfilter resource act ops mc =
     (let opts = fold (\<lambda>f. f) ops no_opts in
      case get_authorized_orgs err username resource act (mc_rules mc) of Inl e \<Rightarrow> Inl (Err e) | Inr orgs0 \<Rightarrow>
      (case get_authorized_orgs err username ''cloudletpools'' ''view'' (mc_rules mc) of Inl e \<Rightarrow> Inl (Err e) | Inr oper \<Rightarrow>
       let admin = ('''' \<in> set orgs0) in
       if admin \<and> orgfilter = ''''
       then Inr \<lparr>ac_orgs = [], ac_oper_orgs = oper, ac_pool_side = [], ac_allow_all = True, ac_admin = True, ac_billable = False\<rparr>
       else case populate_orgs orgs0 orgfilter of Inl e \<Rightarrow> Inl e | Inr orgs \<Rightarrow>
        (case (if opt_requires_org opts \<noteq> ''''
               then check_requires_org err (opt_requires_org opts) resource admin False mc else None) of
           Some e \<Rightarrow> Inl e
         | None \<Rightarrow>
           let billable = (opt_requires_billing_org opts = '''' \<or> is_billable env ct err (opt_requires_billing_org opts) mc) in
           (case find_org_pools err region orgfilter mc of Inl e \<Rightarrow> Inl (Err e) | Inr rows \<Rightarrow>
             let mypools = map (\<lambda>p. (op_pool p, op_pool_org p))
                   (filter (\<lambda>p. op_org p \<in> set orgs) (get_access_granted rows));
                 (pools, stream_err) = ct_pools ct region;
                 s = \<lparr>ac_orgs = orgs, ac_oper_orgs = oper, ac_pool_side = pool_sides mypools pools,
                      ac_allow_all = False, ac_admin = admin, ac_billable = billable\<rparr> in
             (case billing_check opts s of
                Some e \<Rightarrow> Inl e
              | None \<Rightarrow> (case stream_err of Some e \<Rightarrow> Inl (Err e) | None \<Rightarrow> Inr s))))))"

subsection \<open>Calls on Cloudlets\<close>

definition alliance_ops :: "cloudlet \<Rightarrow> auth_op list" where
  "alliance_ops c = map (\<lambda>org. with_reference_org org ''alliance'' ''operator'')
     (filter (\<lambda>org. org \<noteq> snd (snd (cl_key c))) (cl_alliance_orgs c))"

definition authz_create_cloudlet :: "controllers \<Rightarrow> db_err \<Rightarrow> string \<Rightarrow> cloudlet \<Rightarrow> string \<Rightarrow> string \<Rightarrow> mc \<Rightarrow> mc_err option" where
  "authz_create_cloudlet ct err username c resource act mc =
     authorized err username (cl_org c) resource act
       ([with_requires_org (cl_org c)] @ alliance_ops c @
        (if cl_single_k8s_owner c \<noteq> ''''
         then [with_reference_org (cl_single_k8s_owner c) ''single kubernetes cluster owner'' ''developer''] else []) @
        (if cl_platform_type c \<noteq> ct_edgebox ct then [with_no_edgebox_only] else [])) mc"

definition authz_update_cloudlet :: "db_err \<Rightarrow> string \<Rightarrow> cloudlet \<Rightarrow> string \<Rightarrow> string \<Rightarrow> mc \<Rightarrow> mc_err option" where
  "authz_update_cloudlet err username c resource act mc =
     authorized err username (cl_org c) resource act (alliance_ops c) mc"

definition authz_add_cloudlet_alliance_org ::
    "db_err \<Rightarrow> string \<Rightarrow> cloudlet_key \<Rightarrow> string \<Rightarrow> string \<Rightarrow> string \<Rightarrow> mc \<Rightarrow> mc_err option" where
  "authz_add_cloudlet_alliance_org err username key org resource act mc =
     authorized err username (fst key) resource act [with_reference_org org ''alliance'' ''operator''] mc"

definition authz_create_cluster_inst ::
    "mc_env \<Rightarrow> controllers \<Rightarrow> db_err \<Rightarrow> string \<Rightarrow> string \<Rightarrow> string \<Rightarrow> cloudlet_key \<Rightarrow> string \<Rightarrow> string \<Rightarrow> mc \<Rightarrow> mc_err option" where
  "authz_create_cluster_inst env ct err region username org key resource act mc =
     (case populate env ct err region username org resource act
         [with_requires_org org, with_requires_billing_org org key] mc of
        Inl e \<Rightarrow> Some e
      | Inr s \<Rightarrow> fail_if (\<not> fst (authz_cloudlet_ok s (key_cloudlet key))) Forbidden)"

definition authz_create_app_inst ::
    "mc_env \<Rightarrow> controllers \<Rightarrow> db_err \<Rightarrow> string \<Rightarrow> string \<Rightarrow> string \<Rightarrow> string \<Rightarrow> cloudlet_key \<Rightarrow> string \<Rightarrow> string \<Rightarrow> string
       \<Rightarrow> mc \<Rightarrow> mc_err option" where
  "authz_create_app_inst env ct err region username app_org cluster_org key mobiledgex resource act mc =
     (case authz_create_cluster_inst env ct err region username app_org key resource act mc of
        Some e \<Rightarrow> Some e
      | None \<Rightarrow> fail_if (app_org \<noteq> cluster_org \<and> cluster_org \<noteq> '''' \<and>
                   app_org \<noteq> mobiledgex \<and> cluster_org \<noteq> mobiledgex) Forbidden)"

definition check_policy_cloudlets :: "controllers \<Rightarrow> authz_cloudlet \<Rightarrow> cloudlet_key list \<Rightarrow> mc_err option" where
  "check_policy_cloudlets ct s keys = first_fail
     (map (\<lambda>k. fail_if (\<not> fst (authz_cloudlet_ok s (key_cloudlet k)))
        (Err (''No permissions for Cloudlet '' @ ct_key_string ct k))) keys)"

definition authz_auto_prov_policy ::
    "mc_env \<Rightarrow> controllers \<Rightarrow> db_err \<Rightarrow> string \<Rightarrow> string \<Rightarrow> string \<Rightarrow> cloudlet_key list \<Rightarrow> string \<Rightarrow> string \<Rightarrow> mc \<Rightarrow> mc_err option" where
  "authz_auto_prov_policy env ct err region username org keys resource act mc =
     (case populate env ct err region username org resource act [with_requires_org org] mc of
        Inl e \<Rightarrow> Some e
      | Inr s \<Rightarrow> check_policy_cloudlets ct s keys)"

definition authz_show_flavors_for_cloudlet ::
    "mc_env \<Rightarrow> controllers \<Rightarrow> db_err \<Rightarrow> string \<Rightarrow> string \<Rightarrow> cloudlet_key \<Rightarrow> string \<Rightarrow> string \<Rightarrow> mc \<Rightarrow> mc_err option" where
  "authz_show_flavors_for_cloudlet env ct err region username key resource act mc =
     (case populate env ct err region username '''' resource act [with_requires_org (fst key)] mc of
        Inl e \<Rightarrow> Some e
      | Inr s \<Rightarrow> check_policy_cloudlets ct s [key])"

end
