(* ===== verification/MC_Show.thy ===== *)
theory MC_Show
  imports MC_Authz
begin

text \<open>
  The show objects of \<open>src/mc/orm/authz_show.go\<close>, \<open>authz_alert.go\<close>, \<open>authz_trustpolicy.go\<close>,
  \<open>authz_trustpolicyexception.go\<close> and the two show calls of \<open>orgcloudletpools.go\<close>.  Each has a
  method \<open>Ok\<close>, which says whether an object is shown and whether it is filtered, and a method
  \<open>Filter\<close>.  Their contract is the locale \<open>show_authz\<close>.
\<close>

subsection \<open>The contract\<close>

text \<open>
  \<open>shown\<close> is the callback of the stream: objects that are not \<open>Ok\<close> are dropped, the others are
  filtered when \<open>Ok\<close> says so.
\<close>

definition shown :: "('o \<Rightarrow> bool \<times> bool) \<Rightarrow> ('o \<Rightarrow> 'o) \<Rightarrow> 'o list \<Rightarrow> 'o list" where
  "shown okf flt xs = map (\<lambda>x. if snd (okf x) then flt x else x) (filter (\<lambda>x. fst (okf x)) xs)"

locale show_authz =
  fixes key :: "'o \<Rightarrow> 'k" and okf :: "'s \<Rightarrow> 'o \<Rightarrow> bool \<times> bool" and flt :: "'s \<Rightarrow> 'o \<Rightarrow> 'o"
  assumes ok_by_key: "key x = key y \<Longrightarrow> okf s x = okf s y"
    and key_kept: "key (flt s x) = key x"
    and filter_once: "flt s (flt s x) = flt s x"
begin

lemma shown_keys: "map key (shown (okf s) (flt s) xs) = filter (\<lambda>k. \<exists>x. key x = k \<and> fst (okf s x)) (map key xs)"
proof -
  have "(\<exists>y. key y = key x \<and> fst (okf s y)) \<longleftrightarrow> fst (okf s x)" for x
    using ok_by_key by metis
  then show ?thesis by (induction xs) (auto simp: shown_def key_kept)
qed

lemma shown_twice: "shown (okf s) (flt s) (shown (okf s) (flt s) xs) = shown (okf s) (flt s) xs"
proof -
  have "okf s (flt s x) = okf s x" for x by (rule ok_by_key) (rule key_kept)
  then show ?thesis by (induction xs) (auto simp: shown_def filter_once)
qed

lemma hidden_stays_hidden:
  "list_all2 (\<lambda>x y. key x = key y \<and> (fst (okf s x) \<longrightarrow> snd (okf s x) \<and> flt s x = flt s y)) xs ys \<Longrightarrow>
     shown (okf s) (flt s) xs = shown (okf s) (flt s) ys"
proof (induction rule: list_all2_induct)
  case (Cons x xs y ys)
  have "okf s x = okf s y" using Cons.hyps(1) ok_by_key by blast
  then show ?case using Cons by (auto simp: shown_def)
qed (simp add: shown_def)

end

interpretation cloudlet: show_authz cl_key authz_cloudlet_ok authz_cloudlet_filter
  by unfold_locales (auto simp: authz_cloudlet_ok_def authz_cloudlet_filter_def key_cloudlet_def cl_org_def)

subsection \<open>Objects of developers on Cloudlets\<close>

definition set_cloudlet_keys_from_pool ::
    "controllers \<Rightarrow> db_err \<Rightarrow> string \<Rightarrow> string \<Rightarrow> authz_show \<Rightarrow> mc \<Rightarrow> mc_err + authz_show" where
  "set_cloudlet_keys_from_pool ct err region username s mc =
     (case get_authorized_orgs err username ''cloudletpools'' ''view'' (mc_rules mc) of
        Inl e \<Rightarrow> Inl (Err e)
      | Inr oper \<Rightarrow>
          let (pools, stream_err) = ct_pools ct region in
          (case stream_err of
             Some e \<Rightarrow> Inl (Err e)
           | None \<Rightarrow> Inr (s\<lparr>as_allowed_cloudlets :=
               concat (map cp_cloudlets (filter (\<lambda>p. snd (cp_key p) \<in> set oper) pools))\<rparr>)))"

definition new_show_pool_authz ::
    "controllers \<Rightarrow> db_err \<Rightarrow> string \<Rightarrow> string \<Rightarrow> string \<Rightarrow> string \<Rightarrow> mc \<Rightarrow> mc_err + authz_show" where
  "new_show_pool_authz ct err region username resource act mc =
     (case get_authorized_orgs err username resource act (mc_rules mc) of
        Inl e \<Rightarrow> Inl (Err e)
      | Inr orgs \<Rightarrow>
          let s = \<lparr>as_allowed_orgs = orgs, as_allow_all = ('''' \<in> set orgs), as_allowed_cloudlets = []\<rparr> in
          if as_allow_all s then Inr s
          else (case set_cloudlet_keys_from_pool ct err region username s mc of
              Inl e \<Rightarrow> Inl e
            | Inr s' \<Rightarrow> if as_allowed_orgs s' = [] \<and> as_allowed_cloudlets s' = [] then Inl Forbidden else Inr s'))"

text \<open>
  \<open>OkCloudlet\<close>, which is \<open>Ok\<close> of ClusterInsts and AppInsts; an object is the developer's
  organization, its Cloudlet and the rest, which \<open>Filter\<close> leaves as it is.
\<close>

type_synonym 'r dev_obj = "(string \<times> cloudlet_key) \<times> 'r"

definition ok_cloudlet :: "authz_show \<Rightarrow> 'r dev_obj \<Rightarrow> bool \<times> bool" where
  "ok_cloudlet s x = (authz_show_ok s (fst (fst x)) \<or> snd (fst x) \<in> set (as_allowed_cloudlets s), False)"

definition no_filter :: "'s \<Rightarrow> 'o \<Rightarrow> 'o" where
  "no_filter s x = x"

interpretation dev_obj: show_authz fst ok_cloudlet no_filter
  by unfold_locales (auto simp: ok_cloudlet_def no_filter_def)

subsection \<open>Apps\<close>

record authz_app =
  aa_orgs :: "string list"
  aa_allow_all :: bool
  aa_orgs_by_pool :: "string list"

definition new_show_app_authz ::
    "db_err \<Rightarrow> string \<Rightarrow> string \<Rightarrow> string \<Rightarrow> string \<Rightarrow> mc \<Rightarrow> mc_err + authz_app" where
  "new_show_app_authz err region username resource act mc =
     (case get_authorized_orgs err username resource act (mc_rules mc) of Inl e \<Rightarrow> Inl (Err e) | Inr orgs \<Rightarrow>
      if '''' \<in> set orgs then Inr \<lparr>aa_orgs = orgs, aa_allow_all = True, aa_orgs_by_pool = []\<rparr>
      else case get_authorized_orgs err username ''cloudletpools'' ''view'' (mc_rules mc) of Inl e \<Rightarrow> Inl (Err e) | Inr oper \<Rightarrow>
       if orgs = [] \<and> oper = [] then Inl Forbidden
       else (case find_org_pools err region '''' mc of Inl e \<Rightarrow> Inl (Err e) | Inr rows \<Rightarrow>
         let by_pool = map op_org (filter (\<lambda>p. op_pool_org p \<in> set oper) (get_access_granted rows)) in
         if orgs = [] \<and> by_pool = [] then Inl Forbidden
         else Inr \<lparr>aa_orgs = orgs, aa_allow_all = False, aa_orgs_by_pool = by_pool\<rparr>))"

definition authz_app_ok :: "authz_app \<Rightarrow> string \<times> 'r \<Rightarrow> bool \<times> bool" where
  "authz_app_ok s x =
     (if aa_allow_all s then (True, False)
      else if fst x \<in> set (aa_orgs s) then (True, False)
      else if fst x \<in> set (aa_orgs_by_pool s) then (True, True)
      else (False, False))"

interpretation app: show_authz fst authz_app_ok no_filter
  by unfold_locales (auto simp: authz_app_ok_def no_filter_def)

subsection \<open>GPU drivers\<close>

record gpu_build =
  gb_name :: string
  gb_driver_path :: string
  gb_path_creds :: string

record gpu_driver =
  gd_key :: "string \<times> string"
  gd_properties :: string
  gd_builds :: "gpu_build list"
  gd_state :: string
  gd_license :: string
  gd_hidden :: string

record authz_gpu =
  ag_cloudlet :: authz_cloudlet
  ag_drivers :: "(string \<times> string) list"

text \<open>The error that the stream of Cloudlets ends with is assigned, but the call returns \<open>nil\<close>.\<close>

definition new_show_gpu_authz ::
    "mc_env \<Rightarrow> controllers \<Rightarrow> db_err \<Rightarrow> string \<Rightarrow> string \<Rightarrow> string \<Rightarrow> string \<Rightarrow> mc \<Rightarrow> mc_err + authz_gpu" where
  "new_show_gpu_authz env ct err region username resource act mc =
     (case populate env ct err region username '''' resource act [] mc of
        Inl e \<Rightarrow> Inl e
      | Inr s \<Rightarrow>
          let (cloudlets, stream_err) = ct_cloudlets ct region in
          Inr \<lparr>ag_cloudlet = s,
            ag_drivers = remdups (map cl_gpu_driver
              (filter (\<lambda>c. ''gpu'' \<in> set (cl_res_tag_map c) \<and> fst (authz_cloudlet_ok s c)) cloudlets))\<rparr>)"

definition authz_gpu_ok :: "controllers \<Rightarrow> authz_gpu \<Rightarrow> gpu_driver \<Rightarrow> bool \<times> bool" where
  "authz_gpu_ok ct s g =
     (if ac_allow_all (ag_cloudlet s) then (True, False)
      else if snd (gd_key g) \<in> set (ac_orgs (ag_cloudlet s)) then (True, True)
      else if snd (gd_key g) = '''' then (True, True)
      else (list_ex (\<lambda>k. ct_gpu_matches ct (gd_key g) k) (ag_drivers s), True))"

definition authz_gpu_filter :: "authz_gpu \<Rightarrow> gpu_driver \<Rightarrow> gpu_driver" where
  "authz_gpu_filter s g =
     \<lparr>gd_key = gd_key g, gd_properties = gd_properties g,
      gd_builds = map (\<lambda>b. b\<lparr>gb_driver_path := '''', gb_path_creds := ''''\<rparr>) (gd_builds g),
      gd_state = gd_state g,
      gd_license = (if gd_license g \<noteq> '''' then ''*****'' else ''''), gd_hidden = ''''\<rparr>"

interpretation gpu: show_authz gd_key "authz_gpu_ok ct" authz_gpu_filter
  by unfold_locales (auto simp: authz_gpu_ok_def authz_gpu_filter_def)

definition authz_get_gpu_build_url ::
    "mc_env \<Rightarrow> controllers \<Rightarrow> db_err \<Rightarrow> string \<Rightarrow> string \<Rightarrow> string \<times> string \<Rightarrow> string \<Rightarrow> string \<Rightarrow> mc \<Rightarrow> mc_err option" where
  "authz_get_gpu_build_url env ct err region username key resource act mc =
     (case new_show_gpu_authz env ct err region username resource act mc of
        Inl e \<Rightarrow> Some e
      | Inr s \<Rightarrow> fail_if (\<not> fst (authz_gpu_ok ct s \<lparr>gd_key = key, gd_properties = '''', gd_builds = [],
          gd_state = '''', gd_license = '''', gd_hidden = ''''\<rparr>)) Forbidden)"

subsection \<open>CloudletInfo\<close>

record cloudlet_info =
  ci_key :: cloudlet_key
  ci_state :: string
  ci_errors :: "string list"
  ci_flavors :: "string list"
  ci_maintenance_state :: string
  ci_trust_policy_state :: string
  ci_compatibility_version :: nat
  ci_controller :: string
  ci_resources_snapshot :: string
  ci_hidden :: string

definition authz_info_ok :: "authz_show \<Rightarrow> cloudlet_info \<Rightarrow> bool \<times> bool" where
  "authz_info_ok s i = (authz_show_ok s (fst (ci_key i)), \<not> as_allow_all s)"

definition authz_info_filter :: "authz_show \<Rightarrow> cloudlet_info \<Rightarrow> cloudlet_info" where
  "authz_info_filter s i = i\<lparr>ci_resources_snapshot := ''''\<rparr>"

interpretation info: show_authz ci_key authz_info_ok authz_info_filter
  by unfold_locales (auto simp: authz_info_ok_def authz_info_filter_def)

subsection \<open>Trust policies\<close>

record authz_trust =
  at_cloudlet :: authz_cloudlet
  at_policies :: "(string \<times> string) list"

text \<open>A policy is its key, (organization, name), and the rest.\<close>

definition authz_trust_ok :: "authz_trust \<Rightarrow> (string \<times> string) \<times> 'r \<Rightarrow> bool \<times> bool" where
  "authz_trust_ok s p =
     (ac_allow_all (at_cloudlet s) \<or> fst (fst p) \<in> set (ac_orgs (at_cloudlet s)) \<or> fst p \<in> set (at_policies s), False)"

definition new_show_trust_authz ::
    "mc_env \<Rightarrow> controllers \<Rightarrow> db_err \<Rightarrow> string \<Rightarrow> string \<Rightarrow> string \<Rightarrow> string \<Rightarrow> mc \<Rightarrow> mc_err + authz_trust" where
  "new_show_trust_authz env ct err region username resource act mc =
     (case populate env ct err region username '''' resource act [] mc of
        Inl e \<Rightarrow> Inl e
      | Inr s \<Rightarrow>
          let (cloudlets, stream_err) = ct_cloudlets ct region in
          (case stream_err of
             Some e \<Rightarrow> Inl (Err e)
           | None \<Rightarrow> Inr \<lparr>at_cloudlet = s,
               at_policies = map (\<lambda>c. (cl_org c, cl_trust_policy c))
                 (filter (\<lambda>c. fst (authz_cloudlet_ok s c) \<and> cl_trust_policy c \<noteq> '''') cloudlets)\<rparr>))"

interpretation trust: show_authz fst authz_trust_ok no_filter
  by unfold_locales (auto simp: authz_trust_ok_def no_filter_def)

subsection \<open>Trust policy exceptions\<close>

record authz_tpe =
  ae_oper_orgs :: "string list"
  ae_dev_orgs :: "string list"
  ae_allow_all :: bool

text \<open>\<open>populate\<close> and \<open>newAuthzGetOrgsTpe\<close>, which do the same.\<close>

definition new_authz_tpe :: "db_err \<Rightarrow> string \<Rightarrow> string \<Rightarrow> mc \<Rightarrow> mc_err + authz_tpe" where
  "new_authz_tpe err username act mc =
     (case get_authorized_orgs err username ''cloudletpools'' act (mc_rules mc) of
        Inl e \<Rightarrow> Inl (Err e)
      | Inr oper \<Rightarrow>
         (case get_authorized_orgs err username ''apps'' act (mc_rules mc) of
            Inl e \<Rightarrow> Inl (Err e)
          | Inr dev \<Rightarrow>
              if dev = [] \<and> oper = [] then Inl Forbidden
              else Inr \<lparr>ae_oper_orgs = oper, ae_dev_orgs = dev, ae_allow_all = ('''' \<in> set oper)\<rparr>))"

text \<open>An exception is the organizations of its pool and of its App, and the rest.\<close>

definition authz_tpe_ok :: "authz_tpe \<Rightarrow> (string \<times> string) \<times> 'r \<Rightarrow> bool \<times> bool" where
  "authz_tpe_ok s p =
     (let found = ae_allow_all s \<or> fst (fst p) \<in> set (ae_oper_orgs s) \<or> snd (fst p) \<in> set (ae_dev_orgs s)
      in (found, \<not> found))"

interpretation tpe: show_authz fst authz_tpe_ok no_filter
  by unfold_locales (auto simp: authz_tpe_ok_def no_filter_def)

text \<open>\<open>is_key\<close> and \<open>state_field\<close> are what the generated code says of the fields.\<close>

definition authz_update_tpe ::
    "(string \<Rightarrow> bool) \<Rightarrow> string \<Rightarrow> db_err \<Rightarrow> string \<Rightarrow> string \<times> string \<Rightarrow> string list \<Rightarrow> string \<Rightarrow> mc \<Rightarrow> mc_err option" where
  "authz_update_tpe is_key state_field err username orgs upd_fields act mc =
     (case new_authz_tpe err username act mc of
        Inl e \<Rightarrow> Some e
      | Inr s \<Rightarrow>
          let oper = (fst orgs \<in> set (ae_oper_orgs s)); dev = (snd orgs \<in> set (ae_dev_orgs s));
              changed = filter (\<lambda>f. \<not> is_key f) upd_fields in
          if ae_allow_all s then None
          else if oper \<and> dev then None
          else if oper then fail_if (list_ex (\<lambda>f. f \<noteq> state_field) changed) (Err ''Operator can update only state field'')
          else if dev then fail_if (list_ex (\<lambda>f. f = state_field) changed) (Err ''Developer not allowed to update state field'')
          else Some Forbidden)"

subsection \<open>Alerts\<close>

record authz_alert =
  al_orgs :: "string list"
  al_allow_all :: bool

definition new_show_alert_authz :: "db_err \<Rightarrow> string \<Rightarrow> string \<Rightarrow> string \<Rightarrow> mc \<Rightarrow> mc_err + authz_alert" where
  "new_show_alert_authz err username resource act mc =
     (case get_authorized_orgs err username resource act (mc_rules mc) of
        Inl e \<Rightarrow> Inl (Err e)
      | Inr orgs \<Rightarrow> if orgs = [] then Inl Forbidden else Inr \<lparr>al_orgs = orgs, al_allow_all = ('''' \<in> set orgs)\<rparr>)"

definition glabel :: "(string, string) gmap \<Rightarrow> string \<Rightarrow> string" where
  "glabel labels k = (case map_of labels k of Some v \<Rightarrow> v | None \<Rightarrow> '''')"

definition authz_alert_ok :: "controllers \<Rightarrow> authz_alert \<Rightarrow> (string, string) gmap \<Rightarrow> bool \<times> bool" where
  "authz_alert_ok ct s labels =
     (if al_allow_all s then (True, False)
      else if map_of labels ''alertname'' = None then (False, True)
      else if ct_internal_alert ct labels then (False, True)
      else ((if glabel labels ''scope'' = ct_alert_scope_cloudlet ct then glabel labels ''cloudletorg''
             else glabel labels ''apporg'') \<in> set (al_orgs s), True))"

definition authz_alert_filter :: "controllers \<Rightarrow> (string, string) gmap \<Rightarrow> (string, string) gmap" where
  "authz_alert_filter ct labels = filter (\<lambda>(k, v). \<not> ct_internal_label ct k) labels"

subsection \<open>ShowOrgCloudlet and ShowOrgCloudletInfo\<close>

definition check_show_org :: "db_err \<Rightarrow> string \<Rightarrow> string \<Rightarrow> mc \<Rightarrow> mc_err option" where
  "check_show_org err org region mc =
     (if org = '''' then Some (Err ''Organization must be specified'')
      else if region = '''' then Some (Err ''Region must be specified'')
      else case first_org err org mc of
          Inl e \<Rightarrow> Some (db_error e)
        | Inr None \<Rightarrow> Some (Err ''Specified Organization not found'')
        | Inr (Some _) \<Rightarrow> None)"

definition show_org_cloudlet ::
    "mc_env \<Rightarrow> controllers \<Rightarrow> db_err \<Rightarrow> string \<Rightarrow> string \<Rightarrow> string \<Rightarrow> mc \<Rightarrow> mc_err + cloudlet list" where
  "show_org_cloudlet env ct err username org region mc =
     (case check_show_org err org region mc of Some e \<Rightarrow> Inl e | None \<Rightarrow>
      (case populate env ct err region username org ''cloudlets'' ''view'' [] mc of Inl e \<Rightarrow> Inl e | Inr s \<Rightarrow>
       let (cloudlets, stream_err) = ct_cloudlets ct region in
       (case stream_err of Some e \<Rightarrow> Inl (Err e)
        | None \<Rightarrow> Inr (shown (authz_cloudlet_ok s) (authz_cloudlet_filter s) cloudlets))))"

definition org_info_ok :: "authz_cloudlet \<Rightarrow> cloudlet_info \<Rightarrow> bool \<times> bool" where
  "org_info_ok s i = (fst (authz_cloudlet_ok s (key_cloudlet (ci_key i))), True)"

text \<open>The output of a foreign Cloudlet, of an own one, and of any to an admin.\<close>

definition org_info_filter :: "authz_cloudlet \<Rightarrow> cloudlet_info \<Rightarrow> cloudlet_info" where
  "org_info_filter s i =
     (if snd (authz_cloudlet_ok s (key_cloudlet (ci_key i)))
      then i\<lparr>ci_controller := '''', ci_resources_snapshot := '''', ci_hidden := ''''\<rparr>
      else if \<not> ac_admin s then i\<lparr>ci_resources_snapshot := '''', ci_controller := ''''\<rparr>
      else i)"

interpretation org_info: show_authz ci_key org_info_ok org_info_filter
  by unfold_locales (auto simp: org_info_ok_def org_info_filter_def)

definition show_org_cloudlet_info ::
    "mc_env \<Rightarrow> controllers \<Rightarrow> (string \<Rightarrow> cloudlet_info list \<times> string option) \<Rightarrow> db_err \<Rightarrow> string \<Rightarrow> string \<Rightarrow> string
       \<Rightarrow> mc \<Rightarrow> mc_err + cloudlet_info list" where
  "show_org_cloudlet_info env ct infos err username org region mc =
     (case check_show_org err org region mc of Some e \<Rightarrow> Inl e | None \<Rightarrow>
      (case populate env ct err region username org ''cloudlets'' ''view'' [] mc of Inl e \<Rightarrow> Inl e | Inr s \<Rightarrow>
       let (is, stream_err) = infos region in
       (case stream_err of Some e \<Rightarrow> Inl (Err e)
        | None \<Rightarrow> Inr (shown (org_info_ok s) (org_info_filter s) is))))"

end
