(* ===== verification/MC_Visibility.thy ===== *)
theory MC_Visibility
  imports MC_Show
begin

text \<open>
  Properties of what users see and where they may deploy: which Cloudlets are accessible, what a
  successful check of an AppInst means, and what stays hidden from whom.
\<close>

subsection \<open>Pools of Cloudlets\<close>

lemma key_cloudlet_simps [simp]: "cl_key (key_cloudlet k) = k" "cl_org (key_cloudlet k) = fst k"
  by (simp_all add: key_cloudlet_def cl_org_def)

lemma add_sides: "map_of (fold (add_side mypools pool) ks m) k =
    (if k \<in> set ks then Some (if cp_key pool \<in> set mypools then My_Pool
       else (case map_of m k of None \<Rightarrow> Not_My_Pool | Some s \<Rightarrow> s)) else map_of m k)"
  by (induction ks arbitrary: m) (auto simp: add_side_def Let_def split: option.splits)

lemma pool_sides_fold: "map_of (fold (\<lambda>pool. fold (add_side mypools pool) (cp_cloudlets pool)) pools m) k =
    (if \<exists>pool\<in>set pools. k \<in> set (cp_cloudlets pool) \<and> cp_key pool \<in> set mypools then Some My_Pool
     else if \<exists>pool\<in>set pools. k \<in> set (cp_cloudlets pool)
     then Some (case map_of m k of None \<Rightarrow> Not_My_Pool | Some s \<Rightarrow> s) else map_of m k)"
proof (induction pools arbitrary: m)
  case (Cons pool pools)
  show ?case
    unfolding fold.simps comp_def Cons.IH add_sides by (auto split: option.splits)
qed simp

lemma pool_sides_get: "map_of (pool_sides mypools pools) k =
    (if \<exists>pool\<in>set pools. k \<in> set (cp_cloudlets pool) \<and> cp_key pool \<in> set mypools then Some My_Pool
     else if \<exists>pool\<in>set pools. k \<in> set (cp_cloudlets pool) then Some Not_My_Pool else None)"
  unfolding pool_sides_def pool_sides_fold by simp

text \<open>An invitation and an accepted response of the developer for the pool in the region.\<close>

definition consented :: "mc \<Rightarrow> string \<Rightarrow> string \<Rightarrow> string \<times> string \<Rightarrow> bool" where
  "consented mc region dev pool \<longleftrightarrow>
     (\<exists>p\<in>set (mc_pools mc). \<exists>q\<in>set (mc_pools mc). op_type p = ''invitation'' \<and> op_type q = ''response'' \<and>
        op_decision q = ''accept'' \<and> access_key q = access_key p \<and> op_org p = dev \<and>
        (op_pool p, op_pool_org p) = pool \<and> (region = '''' \<or> op_region p = region))"

lemma granted_consent:
  assumes "find_org_pools err region org mc = Inr rows" and "g \<in> set (get_access_granted rows)"
  shows "consented mc region (op_org g) (op_pool g, op_pool_org g)"
proof -
  obtain p q where "p \<in> set rows" "op_type p = ''invitation''" "access_key p = g"
      "q \<in> set rows" "op_type q = ''response''" "op_decision q = ''accept''" "access_key q = g"
    using assms(2) granted_iff by blast
  moreover have "set rows \<subseteq> {p \<in> set (mc_pools mc). region = '''' \<or> op_region p = region}"
    using assms(1) by (auto simp: find_org_pools_def split: option.splits)
  ultimately show ?thesis
    unfolding consented_def by (intro bexI[of _ p] bexI[of _ q]) (auto simp: access_key_def)
qed

lemma consent_granted:
  assumes "find_org_pools err region org mc = Inr rows" and "consented mc region dev pool"
    and "org = '''' \<or> dev = org"
  shows "\<exists>g\<in>set (get_access_granted rows). op_org g = dev \<and> (op_pool g, op_pool_org g) = pool"
proof -
  obtain p q where pq: "p \<in> set (mc_pools mc)" "q \<in> set (mc_pools mc)" "op_type p = ''invitation''"
      "op_type q = ''response''" "op_decision q = ''accept''" "access_key q = access_key p" "op_org p = dev"
      "(op_pool p, op_pool_org p) = pool" "region = '''' \<or> op_region p = region"
    using assms(2) by (auto simp: consented_def)
  have same: "op_org q = op_org p" "op_region q = op_region p"
    using arg_cong[OF pq(6), of op_org] arg_cong[OF pq(6), of op_region] by (simp_all add: access_key_def)
  have "p \<in> set rows" "q \<in> set rows"
    using assms(1,3) pq same by (auto simp: find_org_pools_def split: option.splits)
  then have "access_key p \<in> set (get_access_granted rows)"
    using pq unfolding granted_iff by blast
  then show ?thesis using pq(7,8) by (intro bexI[of _ "access_key p"]) (auto simp: access_key_def)
qed

subsection \<open>What populate sets up\<close>

lemma populate_cases:
  assumes "populate env ct err region username orgfilter resource act ops mc = Inr s"
  obtains orgs where "get_authorized_orgs err username resource act (mc_rules mc) = Inr orgs"
      "'''' \<in> set orgs" "orgfilter = ''''" "ac_allow_all s"
  | orgs orgs0 rows oper where "get_authorized_orgs err username resource act (mc_rules mc) = Inr orgs0"
      "get_authorized_orgs err username ''cloudletpools'' ''view'' (mc_rules mc) = Inr oper"
      "populate_orgs orgs0 orgfilter = Inr orgs" "find_org_pools err region orgfilter mc = Inr rows"
      "\<not> ac_allow_all s" "ac_orgs s = orgs" "ac_oper_orgs s = oper"
      "ac_pool_side s = pool_sides (map (\<lambda>p. (op_pool p, op_pool_org p))
         (filter (\<lambda>p. op_org p \<in> set orgs) (get_access_granted rows))) (fst (ct_pools ct region))"
      "ac_billable s \<longleftrightarrow> opt_requires_billing_org (fold (\<lambda>f. f) ops no_opts) = '''' \<or>
         is_billable env ct err (opt_requires_billing_org (fold (\<lambda>f. f) ops no_opts)) mc"
      "opt_requires_org (fold (\<lambda>f. f) ops no_opts) = '''' \<or> check_requires_org err
         (opt_requires_org (fold (\<lambda>f. f) ops no_opts)) resource ('''' \<in> set orgs0) False mc = None"
proof -
  obtain orgs0 where o0: "get_authorized_orgs err username resource act (mc_rules mc) = Inr orgs0"
    using assms by (cases "get_authorized_orgs err username resource act (mc_rules mc)") (auto simp: populate_def)
  obtain oper where op: "get_authorized_orgs err username ''cloudletpools'' ''view'' (mc_rules mc) = Inr oper"
    using assms o0 by (cases "get_authorized_orgs err username ''cloudletpools'' ''view'' (mc_rules mc)")
      (auto simp: populate_def)
  show ?thesis
  proof (cases "'''' \<in> set orgs0 \<and> orgfilter = ''''")
    case True
    then show ?thesis using assms o0 op that(1) by (auto simp: populate_def)
  next
    case False
    let ?opts = "fold (\<lambda>f. f) ops no_opts"
    obtain orgs where po: "populate_orgs orgs0 orgfilter = Inr orgs"
      using assms o0 op False by (cases "populate_orgs orgs0 orgfilter") (auto simp: populate_def Let_def)
    have req: "opt_requires_org ?opts = '''' \<or>
        check_requires_org err (opt_requires_org ?opts) resource ('''' \<in> set orgs0) False mc = None"
      using assms o0 op False po
      by (cases "check_requires_org err (opt_requires_org ?opts) resource ('''' \<in> set orgs0) False mc")
        (auto simp: populate_def Let_def split: if_splits)
    obtain rows where r: "find_org_pools err region orgfilter mc = Inr rows"
      using assms o0 op False po req
      by (cases "find_org_pools err region orgfilter mc") (auto simp: populate_def Let_def split: if_splits)
    obtain pools serr where p: "ct_pools ct region = (pools, serr)" by fastforce
    have "s = \<lparr>ac_orgs = orgs, ac_oper_orgs = oper, ac_pool_side = pool_sides (map (\<lambda>p. (op_pool p, op_pool_org p))
         (filter (\<lambda>p. op_org p \<in> set orgs) (get_access_granted rows))) pools,
        ac_allow_all = False, ac_admin = ('''' \<in> set orgs0),
        ac_billable = (opt_requires_billing_org ?opts = '''' \<or> is_billable env ct err (opt_requires_billing_org ?opts) mc)\<rparr>"
      using assms o0 op False po req r p by (auto simp: populate_def Let_def split: if_splits option.splits)
    then show ?thesis using that(2)[OF o0 op po r] req p by simp
  qed
qed

lemma cloudlet_access_aux:
  assumes "populate env ct err region username orgfilter resource act ops mc = Inr s" and "\<not> ac_allow_all s"
  shows "fst (authz_cloudlet_ok s c) \<longleftrightarrow>
    cl_org c \<in> set (ac_orgs s) \<or> cl_org c \<in> set (ac_oper_orgs s) \<or>
    (if \<exists>pool\<in>set (fst (ct_pools ct region)). cl_key c \<in> set (cp_cloudlets pool)
     then \<exists>pool\<in>set (fst (ct_pools ct region)). cl_key c \<in> set (cp_cloudlets pool) \<and>
       (\<exists>dev\<in>set (ac_orgs s). consented mc region dev (cp_key pool))
     else ac_billable s)"
  using assms(1)
proof (cases rule: populate_cases)
  case 1
  then show ?thesis using assms(2) by simp
next
  case (2 orgs orgs0 rows oper)
  define my_pools where "my_pools =
    map (\<lambda>p. (op_pool p, op_pool_org p)) (filter (\<lambda>p. op_org p \<in> set orgs) (get_access_granted rows))"
  have filtered: "orgfilter = '''' \<or> orgs = [orgfilter]"
    using 2(3) by (auto simp: populate_orgs_def Let_def split: if_splits)
  have my: "k \<in> set my_pools \<longleftrightarrow> (\<exists>dev\<in>set orgs. consented mc region dev k)" for k
  proof
    assume "k \<in> set my_pools"
    then obtain g where "g \<in> set (get_access_granted rows)" "op_org g \<in> set orgs" "k = (op_pool g, op_pool_org g)"
      by (auto simp: my_pools_def)
    then show "\<exists>dev\<in>set orgs. consented mc region dev k" using granted_consent[OF 2(4)] by blast
  next
    assume "\<exists>dev\<in>set orgs. consented mc region dev k"
    then obtain dev where "dev \<in> set orgs" "consented mc region dev k" by blast
    then show "k \<in> set my_pools"
      unfolding my_pools_def using consent_granted[OF 2(4), of dev k] filtered by force
  qed
  show ?thesis
    using 2(5-8)[folded my_pools_def] by (simp add: authz_cloudlet_ok_def pool_sides_get my)
qed

text \<open>
  C1 (cloudlet\_access): which Cloudlets a user that is not an admin may use.  A Cloudlet is accessible iff it
  belongs to one of the organizations in question or to an operator the user views pools for;
  or it is in some pool of the region and one of the organizations was invited to one of its
  pools and accepted; or it is in no pool and the organization can be billed, if that matters.
\<close>

theorem cloudlet_access:
  assumes "populate env ct err region username orgfilter resource act ops mc = Inr s" and "\<not> ac_allow_all s"
  shows "fst (authz_cloudlet_ok s c) \<longleftrightarrow>
    cl_org c \<in> set (ac_orgs s) \<or> cl_org c \<in> set (ac_oper_orgs s) \<or>
    (if \<exists>pool\<in>set (fst (ct_pools ct region)). cl_key c \<in> set (cp_cloudlets pool)
     then \<exists>pool\<in>set (fst (ct_pools ct region)). cl_key c \<in> set (cp_cloudlets pool) \<and>
       (\<exists>dev\<in>set (ac_orgs s). consented mc region dev (cp_key pool))
     else ac_billable s)"
  by (rule cloudlet_access_aux[OF assms])

text \<open>
  Note (app\_inst\_needs\_access): when the creation of an AppInst is let through, the user holds the permission in
  the organization of the App or for all, the organization exists and is not being deleted, and
  the Cloudlet belongs to it or to an operator of the user, or is shared by a pool that
  the organization itself was invited to and accepted, or is public and the organization can be
  billed.  No two foreign organizations are mixed.
\<close>

theorem app_inst_needs_access:
  assumes "authz_create_app_inst env ct err region username app_org cluster_org key mobiledgex resource act mc = None"
    and "app_org \<noteq> ''''"
  shows "\<exists>orgs oper x. get_authorized_orgs err username resource act (mc_rules mc) = Inr orgs \<and>
    get_authorized_orgs err username ''cloudletpools'' ''view'' (mc_rules mc) = Inr oper \<and>
    (app_org \<in> set orgs \<or> '''' \<in> set orgs) \<and>
    org_exists err app_org mc = Inr x \<and> \<not> o_delete_in_progress x \<and>
    (fst key = app_org \<or> fst key \<in> set oper \<or>
      (if \<exists>pool\<in>set (fst (ct_pools ct region)). key \<in> set (cp_cloudlets pool)
       then \<exists>pool\<in>set (fst (ct_pools ct region)). key \<in> set (cp_cloudlets pool) \<and> consented mc region app_org (cp_key pool)
       else is_billable env ct err app_org mc)) \<and>
    (cluster_org = '''' \<or> cluster_org = app_org \<or> app_org = mobiledgex \<or> cluster_org = mobiledgex)"
proof -
  let ?ops = "[with_requires_org app_org, with_requires_billing_org app_org key]"
  have inst: "authz_create_cluster_inst env ct err region username app_org key resource act mc = None"
    and mixed: "cluster_org = '''' \<or> cluster_org = app_org \<or> app_org = mobiledgex \<or> cluster_org = mobiledgex"
    using assms(1) by (auto simp: authz_create_app_inst_def split: option.splits)
  obtain s where s: "populate env ct err region username app_org resource act ?ops mc = Inr s"
    and ok: "fst (authz_cloudlet_ok s (key_cloudlet key))"
    using inst by (auto simp: authz_create_cluster_inst_def split: sum.splits)
  have opts: "opt_requires_billing_org (fold (\<lambda>f. f) ?ops no_opts) = app_org" "opt_requires_org (fold (\<lambda>f. f) ?ops no_opts) = app_org"
    by (simp_all add: with_requires_org_def with_requires_billing_org_def)
  show ?thesis
    using s
  proof (cases rule: populate_cases)
    case 1
    then show ?thesis using assms(2) by simp
  next
    case (2 orgs orgs0 rows oper)
    have orgs: "orgs = [app_org]" "app_org \<in> set orgs0 \<or> '''' \<in> set orgs0"
      using 2(3) assms(2) by (auto simp: populate_orgs_def Let_def split: if_splits)
    obtain x where "org_exists err app_org mc = Inr x" "\<not> o_delete_in_progress x"
      using 2(10) assms(2) opts by (auto simp: check_requires_org_ok)
    moreover have "fst key = app_org \<or> fst key \<in> set oper \<or>
      (if \<exists>pool\<in>set (fst (ct_pools ct region)). key \<in> set (cp_cloudlets pool)
       then \<exists>pool\<in>set (fst (ct_pools ct region)). key \<in> set (cp_cloudlets pool) \<and> consented mc region app_org (cp_key pool)
       else is_billable env ct err app_org mc)"
      using cloudlet_access_aux[OF s 2(5), of "key_cloudlet key"] ok opts assms(2)
      unfolding 2(6,7,9) orgs(1) by (auto split: if_splits)
    ultimately show ?thesis using 2(1,2) orgs(2) mixed by blast
  qed
qed

subsection \<open>What stays hidden\<close>

text \<open>
  Note (foreign\_cloudlets\_are\_filtered): the Cloudlets that \<open>ShowOrgCloudlet\<close> lists are, in the order of the
  controller, exactly those that are accessible for the organization, and of a Cloudlet that
  belongs neither to the organization nor to an operator of the user nothing but the public
  fields is shown.
\<close>

theorem foreign_cloudlets_are_filtered:
  assumes "show_org_cloudlet env ct err username org region mc = Inr cs"
  shows "\<exists>s. populate env ct err region username org ''cloudlets'' ''view'' [] mc = Inr s \<and>
    map cl_key cs = map cl_key (filter (\<lambda>c. fst (authz_cloudlet_ok s c)) (fst (ct_cloudlets ct region))) \<and>
    (\<forall>c\<in>set cs. cl_org c \<noteq> org \<longrightarrow> cl_org c \<notin> set (ac_oper_orgs s) \<longrightarrow>
       cl_hidden c = '''' \<and> cl_alliance_orgs c = [] \<and> cl_single_k8s_owner c = '''')"
proof -
  have org: "org \<noteq> ''''"
    using assms by (auto simp: show_org_cloudlet_def check_show_org_def split: if_splits)
  obtain s where s: "populate env ct err region username org ''cloudlets'' ''view'' [] mc = Inr s"
    and cs: "cs = shown (authz_cloudlet_ok s) (authz_cloudlet_filter s) (fst (ct_cloudlets ct region))"
    using assms by (auto simp: show_org_cloudlet_def split: option.splits sum.splits prod.splits)
  have own: "\<not> ac_allow_all s \<and> set (ac_orgs s) = {org}"
    using s
  proof (cases rule: populate_cases)
    case (2 orgs orgs0 rows oper)
    then show ?thesis using org by (auto simp: populate_orgs_def Let_def split: if_splits)
  qed (use org in simp)
  have key: "cl_key (authz_cloudlet_filter s c) = cl_key c" for c by (rule cloudlet.key_kept)
  have "map cl_key cs = map cl_key (filter (\<lambda>c. fst (authz_cloudlet_ok s c)) (fst (ct_cloudlets ct region)))"
    unfolding cs shown_def by (simp add: key comp_def)
  moreover have "cl_hidden c = '''' \<and> cl_alliance_orgs c = [] \<and> cl_single_k8s_owner c = ''''"
    if c: "c \<in> set cs" "cl_org c \<noteq> org" "cl_org c \<notin> set (ac_oper_orgs s)" for c
  proof -
    obtain x where x: "fst (authz_cloudlet_ok s x)"
      "c = (if snd (authz_cloudlet_ok s x) then authz_cloudlet_filter s x else x)"
      using c(1) unfolding cs shown_def by auto
    have "cl_org c = cl_org x" using x(2) key by (simp add: cl_org_def)
    then have "snd (authz_cloudlet_ok s x)"
      using c(2,3) own by (auto simp: authz_cloudlet_ok_def split: option.splits)
    then show ?thesis using x(2) by (simp add: authz_cloudlet_filter_def key_cloudlet_def)
  qed
  ultimately show ?thesis using s by blast
qed

text \<open>
  Note (gpu\_secrets\_are\_hidden): what a user that is not an admin sees of GPU drivers does not depend on the text
  of their license (only on whether there is one) nor on the paths and credentials of their builds.
\<close>

theorem gpu_secrets_are_hidden:
  assumes "\<not> ac_allow_all (ag_cloudlet s)"
    and "list_all2 (\<lambda>g h. gd_key g = gd_key h \<and> gd_properties g = gd_properties h \<and> gd_state g = gd_state h \<and>
      map gb_name (gd_builds g) = map gb_name (gd_builds h) \<and> (gd_license g = '''' \<longleftrightarrow> gd_license h = '''')) gs hs"
  shows "shown (authz_gpu_ok ct s) (authz_gpu_filter s) gs = shown (authz_gpu_ok ct s) (authz_gpu_filter s) hs"
proof (rule gpu.hidden_stays_hidden, rule list_all2_mono[OF assms(2)], elim conjE, intro conjI impI)
  fix g h :: gpu_driver
  assume eq: "gd_key g = gd_key h" "gd_properties g = gd_properties h" "gd_state g = gd_state h"
    and names: "map gb_name (gd_builds g) = map gb_name (gd_builds h)" and lic: "gd_license g = '''' \<longleftrightarrow> gd_license h = ''''"
  show "gd_key g = gd_key h" by (rule eq(1))
  show "snd (authz_gpu_ok ct s g)" using assms(1) by (simp add: authz_gpu_ok_def)
  have blank: "map (\<lambda>b. b\<lparr>gb_driver_path := '''', gb_path_creds := ''''\<rparr>) bs =
      map (\<lambda>n. \<lparr>gb_name = n, gb_driver_path = '''', gb_path_creds = ''''\<rparr>) (map gb_name bs)" for bs
    by simp
  show "authz_gpu_filter s g = authz_gpu_filter s h"
    unfolding authz_gpu_filter_def blank names using eq lic by simp
qed

text \<open>
  Note (gpu\_stream\_error\_is\_lost): an error of the stream of Cloudlets is not reported when the drivers that a user may
  see are collected: the call succeeds with the drivers of the Cloudlets received so far, so a
  driver is silently missing, and refused, that the user may see when the stream is complete.
\<close>

theorem gpu_stream_error_is_lost:
  "new_show_gpu_authz env (ct\<lparr>ct_cloudlets := (\<lambda>_. (cs, Some e))\<rparr>) err region username resource act mc =
   new_show_gpu_authz env (ct\<lparr>ct_cloudlets := (\<lambda>_. (cs, None))\<rparr>) err region username resource act mc"
proof -
  have bill: "is_billable env (ct\<lparr>ct_cloudlets := f\<rparr>) err o' mc = is_billable env ct err o' mc" for f o'
    by (simp add: is_billable_def)
  have pools: "ct_pools (ct\<lparr>ct_cloudlets := f\<rparr>) = ct_pools ct" for f by simp
  have "populate env (ct\<lparr>ct_cloudlets := f\<rparr>) err region username '''' resource act [] mc =
      populate env ct err region username '''' resource act [] mc" for f
    unfolding populate_def bill pools ..
  then show ?thesis by (simp add: new_show_gpu_authz_def split: sum.split)
qed

text \<open>
  Note (tpe\_fields\_are\_split): an update of a trust policy exception that changes the state is let through only for
  an operator of the pool (or an admin), and one that changes another field only for the
  developer of the App (or an admin).
\<close>

theorem tpe_fields_are_split:
  assumes "authz_update_tpe is_key state_field err username orgs upd act mc = None"
    and "get_authorized_orgs err username ''cloudletpools'' act (mc_rules mc) = Inr oper"
    and "get_authorized_orgs err username ''apps'' act (mc_rules mc) = Inr dev"
    and "f \<in> set upd" and "\<not> is_key f"
  shows "'''' \<in> set oper \<or> (if f = state_field then fst orgs \<in> set oper else snd orgs \<in> set dev)"
  using assms by (auto simp: authz_update_tpe_def new_authz_tpe_def Let_def list_ex_iff split: if_splits)

text \<open>
  Note (internal\_alerts\_are\_hidden): a user that is not an admin sees an alert only if it is not internal and belongs
  to one of the user's organizations, by the App or by the Cloudlet according to its scope; and the
  internal labels are filtered out.
\<close>

theorem internal_alerts_are_hidden:
  assumes "new_show_alert_authz err username resource act mc = Inr s" and "\<not> al_allow_all s"
  shows "(fst (authz_alert_ok ct s labels) \<longleftrightarrow>
    map_of labels ''alertname'' \<noteq> None \<and> \<not> ct_internal_alert ct labels \<and>
    (\<exists>orgs. get_authorized_orgs err username resource act (mc_rules mc) = Inr orgs \<and>
       glabel labels (if glabel labels ''scope'' = ct_alert_scope_cloudlet ct then ''cloudletorg'' else ''apporg'') \<in> set orgs)) \<and>
    (\<forall>k v. (k, v) \<in> set (authz_alert_filter ct labels) \<longrightarrow> \<not> ct_internal_label ct k)"
  using assms
  by (auto simp: new_show_alert_authz_def authz_alert_ok_def authz_alert_filter_def split: sum.splits if_splits)


subsection \<open>A concrete region\<close>

definition demo_ctl :: controllers where
  "demo_ctl = \<lparr>ct_pools = (\<lambda>_. ([\<lparr>cp_key = (''pool'', ''oper''), cp_cloudlets = [(''oper'', ''c1'', [])]\<rparr>], None)),
     ct_cloudlets = (\<lambda>_. ([(key_cloudlet (''oper'', ''c1'', []))\<lparr>cl_hidden := ''secret''\<rparr>], None)),
     ct_billing_enabled = True, ct_key_string = (\<lambda>_. []), ct_gpu_matches = (=),
     ct_internal_alert = (\<lambda>_. False), ct_internal_label = (\<lambda>k. k = ''instance''),
     ct_alert_scope_cloudlet = ''Cloudlet'', ct_edgebox = ''edgebox''\<rparr>"

definition demo_shared :: mc where
  "demo_shared = (demo_pools both_sides)\<lparr>mc_rules := mc_rules (demo_pools both_sides) @
     map (get_casbin_rule ''p'') [[''DeveloperManager'', ''appinsts'', ''manage''],
       [''DeveloperManager'', ''cloudlets'', ''view''], [''DeveloperManager'', ''apps'', ''manage''],
       [''DeveloperManager'', ''alert'', ''view'']]\<rparr>"

lemma demo_populate: "\<exists>s. populate demo_env demo_ctl no_err ''US'' ''ann'' ''acme'' ''cloudlets'' ''view'' [] demo_shared = Inr s \<and>
    \<not> ac_allow_all s \<and> ac_orgs s = [''acme''] \<and> ac_oper_orgs s = []"
proof -
  have "case populate demo_env demo_ctl no_err ''US'' ''ann'' ''acme'' ''cloudlets'' ''view'' [] demo_shared of
      Inl _ \<Rightarrow> False | Inr s \<Rightarrow> \<not> ac_allow_all s \<and> ac_orgs s = [''acme''] \<and> ac_oper_orgs s = []"
    by code_simp
  then show ?thesis by (auto split: sum.splits)
qed

lemma demo_consent: "consented demo_shared ''US'' ''acme'' (''pool'', ''oper'')"
  by (simp add: consented_def demo_shared_def demo_pools_def both_sides_def demo_pool_row_def access_key_def)

theorem cloudlet_access_witness:
  "\<exists>s. populate demo_env demo_ctl no_err ''US'' ''ann'' ''acme'' ''cloudlets'' ''view'' [] demo_shared = Inr s \<and>
     fst (authz_cloudlet_ok s (key_cloudlet (''oper'', ''c1'', [])))"
proof -
  obtain s where s: "populate demo_env demo_ctl no_err ''US'' ''ann'' ''acme'' ''cloudlets'' ''view'' [] demo_shared = Inr s"
    "\<not> ac_allow_all s" "ac_orgs s = [''acme'']" using demo_populate by blast
  show ?thesis
    using cloudlet_access[OF s(1,2), of "key_cloudlet (''oper'', ''c1'', [])"] s(1,3) demo_consent
    by (auto simp: demo_ctl_def)
qed

theorem app_inst_needs_access_witness:
  "\<exists>orgs. get_authorized_orgs no_err ''ann'' ''appinsts'' ''manage'' (mc_rules demo_shared) = Inr orgs \<and>
     (''acme'' \<in> set orgs \<or> '''' \<in> set orgs)"
proof -
  have "authz_create_app_inst demo_env demo_ctl no_err ''US'' ''ann'' ''acme'' ''acme'' (''oper'', ''c1'', [])
      ''MobiledgeX'' ''appinsts'' ''manage'' demo_shared = None"
    by code_simp
  then show ?thesis
    using app_inst_needs_access by (metis (no_types, lifting) list.distinct(1))
qed

theorem foreign_cloudlets_are_filtered_witness:
  "\<exists>cs. show_org_cloudlet demo_env demo_ctl no_err ''ann'' ''acme'' ''US'' demo_shared = Inr cs \<and>
     (\<forall>c\<in>set cs. cl_org c \<noteq> ''acme'' \<longrightarrow> cl_hidden c = '''')"
proof -
  have "case show_org_cloudlet demo_env demo_ctl no_err ''ann'' ''acme'' ''US'' demo_shared of
      Inl _ \<Rightarrow> False | Inr cs \<Rightarrow> True" by code_simp
  then obtain cs where cs: "show_org_cloudlet demo_env demo_ctl no_err ''ann'' ''acme'' ''US'' demo_shared = Inr cs"
    by (auto split: sum.splits)
  then show ?thesis
    using foreign_cloudlets_are_filtered[OF cs] demo_populate by fastforce
qed

definition demo_driver :: "string \<Rightarrow> gpu_driver" where
  "demo_driver license = \<lparr>gd_key = (''nvidia'', ''oper''), gd_properties = '''',
     gd_builds = [\<lparr>gb_name = ''b1'', gb_driver_path = license, gb_path_creds = license\<rparr>], gd_state = '''',
     gd_license = license, gd_hidden = ''''\<rparr>"

definition demo_authz_gpu :: authz_gpu where
  "demo_authz_gpu = \<lparr>ag_cloudlet = \<lparr>ac_orgs = [''acme''], ac_oper_orgs = [], ac_pool_side = [], ac_allow_all = False,
     ac_admin = False, ac_billable = True\<rparr>, ag_drivers = [(''nvidia'', ''oper'')]\<rparr>"

theorem gpu_secrets_are_hidden_witness:
  "shown (authz_gpu_ok demo_ctl demo_authz_gpu) (authz_gpu_filter demo_authz_gpu) [demo_driver ''one''] =
   shown (authz_gpu_ok demo_ctl demo_authz_gpu) (authz_gpu_filter demo_authz_gpu) [demo_driver ''two'']"
  by (rule gpu_secrets_are_hidden) (simp_all add: demo_authz_gpu_def demo_driver_def)

theorem tpe_fields_are_split_witness:
  "'''' \<in> set ([] :: string list) \<or> (if ''name'' = ''state'' then fst (''oper'', ''acme'') \<in> set ([] :: string list)
     else snd (''oper'', ''acme'') \<in> set [''acme''])"
proof (rule tpe_fields_are_split)
  show "authz_update_tpe (\<lambda>_. False) ''state'' no_err ''ann'' (''oper'', ''acme'') [''name''] ''manage'' demo_shared = None"
    by code_simp
  show "get_authorized_orgs no_err ''ann'' ''cloudletpools'' ''manage'' (mc_rules demo_shared) = Inr []" by code_simp
  show "get_authorized_orgs no_err ''ann'' ''apps'' ''manage'' (mc_rules demo_shared) = Inr [''acme'']" by code_simp
qed simp_all

theorem internal_alerts_are_hidden_witness:
  "\<exists>s. new_show_alert_authz no_err ''ann'' ''alert'' ''view'' demo_shared = Inr s \<and>
     fst (authz_alert_ok demo_ctl s [(''alertname'', ''cpu''), (''apporg'', ''acme'')])"
proof -
  have n: "new_show_alert_authz no_err ''ann'' ''alert'' ''view'' demo_shared = Inr \<lparr>al_orgs = [''acme''], al_allow_all = False\<rparr>"
    by code_simp
  have o': "get_authorized_orgs no_err ''ann'' ''alert'' ''view'' (mc_rules demo_shared) = Inr [''acme'']" by code_simp
  show ?thesis
    using internal_alerts_are_hidden[OF n, of demo_ctl "[(''alertname'', ''cpu''), (''apporg'', ''acme'')]"] n o'
    by (auto simp: demo_ctl_def glabel_def authz_alert_filter_def)
qed

end
