(* ===== verification/MC_Users.thy ===== *)
theory MC_Users
  imports MC_Safety
begin

text \<open>
  User accounts of the master controller, \<open>src/mc/orm/user.go\<close>: creating, deleting, updating and
  showing users, passwords (\<open>userauth.go\<close>, \<open>ormutil/auth.go\<close>) and the settings of \<open>config.go\<close> they
  depend on.  The library functions used (base64, the key derivation, the strength estimate,
  mail, LDAP) are fields of the record \<open>user_env\<close>.
\<close>

subsection \<open>Environment\<close>

datatype user_event =
    Verify_Mail string | Locked_Mail string
  | Gitlab_Create_User string | Gitlab_Delete_User string
  | Artifactory_Create_User string | Artifactory_Delete_User string

record user_env =
  ue_skip_verify :: bool                                 \<comment> \<open>\<open>serverConfig.SkipVerifyEmail\<close>\<close>
  ue_valid_email :: "string \<Rightarrow> bool"                     \<comment> \<open>\<open>util.ValidEmail\<close>\<close>
  ue_guesses :: "string \<Rightarrow> real"                         \<comment> \<open>\<open>zxcvbn.PasswordStrength\<close>\<close>
  ue_kdf :: "string \<Rightarrow> string \<Rightarrow> int \<Rightarrow> string"            \<comment> \<open>\<open>pbkdf2.Key\<close> with SHA-256\<close>
  ue_encode :: "string \<Rightarrow> string"                        \<comment> \<open>base64\<close>
  ue_decode :: "string \<Rightarrow> string + string"
  ue_totp_key :: "string \<Rightarrow> string + string"             \<comment> \<open>\<open>totp.Generate\<close>\<close>
  ue_send_verify :: "string \<Rightarrow> string option"
  ue_gitlab_create :: "string \<Rightarrow> string option"
  ue_artifactory_create :: "string \<Rightarrow> string option"

subsection \<open>Settings\<close>

definition get_config :: "db_err \<Rightarrow> mc \<Rightarrow> string + config" where
  "get_config err mc = (case err (Call_Table ''configs'') of Some e \<Rightarrow> Inl e | None \<Rightarrow> Inr (mc_config mc))"

definition get_skip_verify_email :: "user_env \<Rightarrow> db_err \<Rightarrow> config option \<Rightarrow> mc \<Rightarrow> bool" where
  "get_skip_verify_email ue err cfg mc =
     (if ue_skip_verify ue then True
      else case cfg of
          Some c \<Rightarrow> cfg_skip_verify c
        | None \<Rightarrow> (case get_config err mc of Inl _ \<Rightarrow> False | Inr c \<Rightarrow> cfg_skip_verify c))"

text \<open>\<open>time.Duration(n) * time.Second\<close>, an int64 of nanoseconds.\<close>

definition int64 :: "int \<Rightarrow> int" where
  "int64 x = (x + 2 ^ 63) mod 2 ^ 64 - 2 ^ 63"

definition duration_secs :: "int \<Rightarrow> int" where
  "duration_secs n = int64 (n * 1000000000)"

definition bad_auth_delay :: int where
  "bad_auth_delay = 3000000000"

definition reset_user_password_crack_times :: "db_err \<Rightarrow> mc \<Rightarrow> string option \<times> mc" where
  "reset_user_password_crack_times err mc =
     (case err (Call_Save ''users'' '''') of
        Some e \<Rightarrow> (Some e, mc)
      | None \<Rightarrow> (None, mc\<lparr>mc_users := map (\<lambda>u. if 0 < u_pass_crack u then u\<lparr>u_pass_crack := 0\<rparr> else u) (mc_users mc)\<rparr>))"

text \<open>The numbers in the messages are left out.\<close>

definition check_config :: "config \<Rightarrow> string option" where
  "check_config c = first_fail
     [fail_if (cfg_lockout_threshold1 c \<le> 0) ''Failed login lockout threshold 1 cannot be less than or equal to 0'',
      fail_if (cfg_lockout_threshold2 c \<le> 0) ''Failed login lockout threshold 2 cannot be less than or equal to 0'',
      fail_if (cfg_lockout_threshold2 c \<le> cfg_lockout_threshold1 c)
        ''Failed login lockout threshold 2 must be greater than threshold 1'',
      fail_if (duration_secs (cfg_lockout_time1 c) < 0) ''Failed login lockout time sec 1 cannot be negative'',
      fail_if (duration_secs (cfg_lockout_time1 c) < bad_auth_delay)
        ''Failed login lockout time sec 1 must be greater than or equal to default lockout time'',
      fail_if (duration_secs (cfg_lockout_time2 c) < 0) ''Failed login lockout time sec 2 cannot be negative'',
      fail_if (duration_secs (cfg_lockout_time2 c) < duration_secs (cfg_lockout_time1 c))
        ''Failed login lockout time sec 2 must be greater than or equal to lockout time 1'']"

text \<open>
  \<open>body\<close> is what the request does to the settings, or the error of reading it; \<open>token_ok\<close> is the last
  check, on the validity of login tokens, a setting that is not a field of the model.
\<close>

definition update_config ::
    "db_err \<Rightarrow> string \<Rightarrow> string + (config \<Rightarrow> config) \<Rightarrow> string option \<Rightarrow> mc \<Rightarrow> mc_err option \<times> mc" where
  "update_config err caller body token_check mc =
     (case authorized err caller '''' ''config'' ''manage'' [] mc of
        Some e \<Rightarrow> (Some e, mc)
      | None \<Rightarrow>
       (case get_config err mc of
          Inl e \<Rightarrow> (Some (Err e), mc)
        | Inr old \<Rightarrow>
         (case body of
            Inl e \<Rightarrow> (Some (Err e), mc)
          | Inr apply_body \<Rightarrow>
              let c = apply_body old in
              if cfg_admin_min_crack c < cfg_min_crack c
              then (Some (Err ''admin password min crack time must be greater than password min crack time''), mc)
              else
                let (e1, mc1) = (if cfg_admin_min_crack c \<noteq> cfg_admin_min_crack old \<or> cfg_min_crack c \<noteq> cfg_min_crack old
                                 then reset_user_password_crack_times err mc else (None, mc)) in
                (case first_fail [e1, check_config c, token_check, err (Call_Save ''configs'' '''')] of
                   Some e \<Rightarrow> (Some (Err e), mc1)
                 | None \<Rightarrow> (None, mc1\<lparr>mc_config := c\<rparr>)))))"

definition reset_config :: "db_err \<Rightarrow> string \<Rightarrow> config \<Rightarrow> mc \<Rightarrow> mc_err option \<times> mc" where
  "reset_config err caller default_config mc =
     (case authorized err caller '''' ''config'' ''manage'' [] mc of
        Some e \<Rightarrow> (Some e, mc)
      | None \<Rightarrow>
       (case err (Call_Save ''configs'' '''') of
          Some e \<Rightarrow> (Some (Err e), mc)
        | None \<Rightarrow>
            let (e, mc1) = reset_user_password_crack_times err (mc\<lparr>mc_config := default_config\<rparr>) in
            (map_option Err e, mc1)))"

subsection \<open>Passwords\<close>

definition valid_password :: "string \<Rightarrow> string option" where
  "valid_password pw = first_fail
     [fail_if (length pw < 8) ''password must be at least 8 characters'',
      fail_if (length pw \<ge> 4096) ''password must be less than 4096 characters'']"

definition new_passhash :: "user_env \<Rightarrow> string \<Rightarrow> string \<Rightarrow> string \<times> string \<times> int" where
  "new_passhash ue saltb password =
     (ue_encode ue (ue_kdf ue password saltb 10000), ue_encode ue saltb, 10000)"

definition password_matches :: "user_env \<Rightarrow> string \<Rightarrow> string \<Rightarrow> string \<Rightarrow> int \<Rightarrow> string + bool" where
  "password_matches ue password passhash salt iter =
     (case ue_decode ue salt of
        Inl e \<Rightarrow> Inl e
      | Inr sa \<Rightarrow> Inr (ue_encode ue (ue_kdf ue password sa iter) = passhash))"

definition set_passhash :: "user_env \<Rightarrow> string \<Rightarrow> string \<Rightarrow> user \<Rightarrow> user" where
  "set_passhash ue saltb password u =
     (let (h, s, n) = new_passhash ue saltb password in u\<lparr>u_passhash := h, u_salt := s, u_iter := n\<rparr>)"

definition calc_password_strength :: "user_env \<Rightarrow> string \<Rightarrow> user \<Rightarrow> user" where
  "calc_password_strength ue password u = u\<lparr>u_pass_crack := ue_guesses ue password / 1000000\<rparr>"

subsection \<open>The table of users\<close>

text \<open>Writing the row that was read before, found by its primary key.\<close>

definition save_user_row :: "user \<Rightarrow> mc \<Rightarrow> mc" where
  "save_user_row u mc = mc\<lparr>mc_users := map (\<lambda>x. if citext_eq (u_name x) (u_name u) then u else x) (mc_users mc)\<rparr>"

definition delete_user_row :: "string \<Rightarrow> mc \<Rightarrow> mc" where
  "delete_user_row name mc = mc\<lparr>mc_users := filter (\<lambda>x. \<not> citext_eq (u_name x) name) (mc_users mc)\<rparr>"

definition create_user_row :: "db_err \<Rightarrow> user \<Rightarrow> mc \<Rightarrow> mc_err option \<times> mc" where
  "create_user_row err u mc =
     (case err (Call_Create ''users'' (u_name u)) of
        Some e \<Rightarrow> (Some (db_error e), mc)
      | None \<Rightarrow>
          if list_ex (\<lambda>x. citext_eq (u_name x) (u_name u)) (mc_users mc)
          then (Some (Err (''Username with name '' @ u_name u @ '' (case-insensitive) already exists'')), mc)
          else if list_ex (\<lambda>x. u_email x = u_email u) (mc_users mc)
          then (Some (Err ''Email already in use''), mc)
          else (None, mc\<lparr>mc_users := mc_users mc @ [u]\<rparr>))"

text \<open>The clean-up \<open>db.Delete(&user)\<close> whose error is ignored.\<close>

definition undo_create_user :: "db_err \<Rightarrow> string \<Rightarrow> mc \<Rightarrow> mc" where
  "undo_create_user err name mc =
     (case err (Call_Delete ''users'' name) of Some _ \<Rightarrow> mc | None \<Rightarrow> delete_user_row name mc)"

subsection \<open>CreateUser\<close>

definition create_user_checks ::
    "mc_env \<Rightarrow> user_env \<Rightarrow> db_err \<Rightarrow> user \<Rightarrow> mc \<Rightarrow> mc_err + config \<times> user" where
  "create_user_checks env ue err u mc =
     (case first_fail
        [fail_if (u_name u = '''') (Err ''Name not specified''),
         map_option Err (valid_name env (u_name u)),
         fail_if (\<not> ue_valid_email ue (u_email u)) (Err ''Invalid email address''),
         map_option (\<lambda>e. Err (''Invalid password, '' @ e)) (valid_password (u_passhash u)),
         (case get_all_orgs err mc of
            Inl _ \<Rightarrow> None
          | Inr orgs \<Rightarrow> fail_if (list_ex (\<lambda>n. strings_to_lower (u_name u) = strings_to_lower n) (gkeys orgs))
              (Err ''user name cannot be same as org name''))] of
        Some e \<Rightarrow> Inl e
      | None \<Rightarrow>
       (case get_config err mc of
          Inl e \<Rightarrow> Inl (Err e)
        | Inr c \<Rightarrow>
            let u1 = calc_password_strength ue (u_passhash u) u in
            (case first_fail
               [check_password_strength err u1 (Some c) False mc,
                fail_if (\<not> get_skip_verify_email ue err (Some c) mc \<and> \<not> ue_valid_email ue ''dummy@dummy.com'')
                  (Err ''Invalid email address'')] of
               Some e \<Rightarrow> Inl e
             | None \<Rightarrow> Inr (c, u1))))"

text \<open>The row that is created; the password is passed through in the field of its hash.\<close>

definition new_user_row :: "user_env \<Rightarrow> string \<Rightarrow> int \<Rightarrow> config \<Rightarrow> user \<Rightarrow> mc_err + user" where
  "new_user_row ue saltb now c u =
     (let u1 = u\<lparr>u_locked := cfg_lock_new c, u_email_verified := False\<rparr> in
      case (if u_enable_totp u1
            then (case ue_totp_key ue (u_email u1) of
                    Inl e \<Rightarrow> Inl (Err (''Failed to setup 2FA: '' @ e))
                  | Inr k \<Rightarrow> Inr (u1\<lparr>u_totp_key := k\<rparr>))
            else Inr u1) of
        Inl e \<Rightarrow> Inl e
      | Inr u2 \<Rightarrow> Inr ((set_passhash ue saltb (u_passhash u2) u2)
          \<lparr>u_created_at := (if u_created_at u2 = 0 then now else u_created_at u2),
           u_updated_at := (if u_updated_at u2 = 0 then now else u_updated_at u2)\<rparr>))"

definition create_user ::
    "mc_env \<Rightarrow> user_env \<Rightarrow> db_err \<Rightarrow> string \<Rightarrow> int \<Rightarrow> user \<Rightarrow> mc \<Rightarrow> mc_err option \<times> mc \<times> user_event list" where
  "create_user env ue err saltb now u mc =
     (case create_user_checks env ue err u mc of
        Inl e \<Rightarrow> (Some e, mc, [])
      | Inr (c, u1) \<Rightarrow>
       (case new_user_row ue saltb now c u1 of
          Inl e \<Rightarrow> (Some e, mc, [])
        | Inr u2 \<Rightarrow>
            let (e, mc1) = create_user_row err u2 mc; n = u_name u2; undone = undo_create_user err n mc1;
                mail = (if get_skip_verify_email ue err None mc1 then [] else [Verify_Mail (u_email u2)]) in
            if e \<noteq> None then (e, mc1, [])
            else case (if mail = [] then None else ue_send_verify ue (u_email u2)) of
                Some e \<Rightarrow> (Some (Err e), undone, [])
              | None \<Rightarrow>
               (case ue_gitlab_create ue n of
                  Some e \<Rightarrow> (Some (Err e), undone, mail)
                | None \<Rightarrow>
                 (case ue_artifactory_create ue n of
                    Some e \<Rightarrow> (Some (Err e), undone, mail @ [Gitlab_Create_User n, Gitlab_Delete_User n])
                  | None \<Rightarrow> (None, mc1, mail @ [Gitlab_Create_User n, Artifactory_Create_User n] @
                      (if u_locked u2 then [Locked_Mail n] else []))))))"

subsection \<open>DeleteUser\<close>

text \<open>The manager groups: organization (empty for admins) and user name.\<close>

definition manager_of :: "string list \<Rightarrow> (string \<times> string) option" where
  "manager_of grp =
     (if length grp < 2 then None
      else if is_manager_role (grp ! 1)
      then let strs = strings_split (grp ! 0) ''::'' in
        Some (if length strs = 2 then (strs ! 0, strs ! 1) else ('''', grp ! 0))
      else None)"

definition manager_count :: "string \<Rightarrow> string list list \<Rightarrow> nat" where
  "manager_count org groups = length (filter (\<lambda>(o', u). o' = org) (List.map_filter manager_of groups))"

definition check_last_managers :: "string \<Rightarrow> string list list \<Rightarrow> mc_err option" where
  "check_last_managers name groups = first_fail
     (map (\<lambda>(org, u). fail_if (manager_count org groups < 2)
             (Err (if org = '''' then ''Error: Cannot delete the last remaining AdminManager''
                   else ''Error: Cannot delete the last remaining manager for the org '' @ org)))
        (filter (\<lambda>(org, u). u = name) (List.map_filter manager_of groups)))"

definition group_of_user :: "string \<Rightarrow> string list \<Rightarrow> bool" where
  "group_of_user name grp \<longleftrightarrow> 2 \<le> length grp \<and>
     (let strs = strings_split (grp ! 0) ''::'' in grp ! 0 = name \<or> (length strs = 2 \<and> strs ! 1 = name))"

fun remove_user_groups :: "db_err \<Rightarrow> string \<Rightarrow> string list list \<Rightarrow> casbin_rule list \<Rightarrow> string option \<times> casbin_rule list" where
  "remove_user_groups err name [] rules = (None, rules)"
| "remove_user_groups err name (grp # grps) rules =
     (if \<not> group_of_user name grp then remove_user_groups err name grps rules
      else let (e, rules') = enf_remove_grouping_policy err [grp ! 0, grp ! 1] rules in
        (case e of Some e \<Rightarrow> (Some e, rules') | None \<Rightarrow> remove_user_groups err name grps rules'))"

text \<open>\<open>superuser\<close> is the name the server was configured with.\<close>

definition delete_user ::
    "string \<Rightarrow> db_err \<Rightarrow> string \<Rightarrow> string \<Rightarrow> mc \<Rightarrow> mc_err option \<times> mc \<times> user_event list" where
  "delete_user superuser err caller name mc =
     (if name = '''' then (Some (Err ''User Name not specified''), mc, [])
      else case (if name \<noteq> caller then authorized err caller '''' ''users'' ''manage'' [] mc else None) of
          Some e \<Rightarrow> (Some e, mc, [])
        | None \<Rightarrow>
          if name = superuser then (Some (Err ''Cannot delete superuser''), mc, [])
          else case enf_get_grouping_policy err (mc_rules mc) of
              Inl e \<Rightarrow> (Some (db_error e), mc, [])
            | Inr groups \<Rightarrow>
               (case check_last_managers name groups of
                  Some e \<Rightarrow> (Some e, mc, [])
                | None \<Rightarrow>
                    let (e, rules) = remove_user_groups err name groups (mc_rules mc);
                        mc1 = mc\<lparr>mc_rules := rules\<rparr> in
                    (case e of
                       Some e \<Rightarrow> (Some (db_error e), mc1, [])
                     | None \<Rightarrow>
                        (case err (Call_Delete ''users'' name) of
                           Some e \<Rightarrow> (Some (db_error e), mc1, [])
                         | None \<Rightarrow> (None, delete_user_row name mc1, [Gitlab_Delete_User name, Artifactory_Delete_User name])))))"

subsection \<open>Changing a password\<close>

definition set_password :: "user_env \<Rightarrow> db_err \<Rightarrow> string \<Rightarrow> string \<Rightarrow> string \<Rightarrow> mc \<Rightarrow> mc_err option \<times> mc" where
  "set_password ue err saltb username password mc =
     (case valid_password password of
        Some e \<Rightarrow> (Some (Err (''Invalid password, '' @ e)), mc)
      | None \<Rightarrow>
       (case first_user err username mc of
          Inl e \<Rightarrow> (Some (db_error e), mc)
        | Inr None \<Rightarrow> (Some (db_error ''record not found''), mc)
        | Inr (Some u) \<Rightarrow>
            let u1 = calc_password_strength ue password u in
            (case is_user_admin err (u_name u1) mc of
               Inl e \<Rightarrow> (Some e, mc)
             | Inr admin \<Rightarrow>
                (case check_password_strength err u1 None admin mc of
                   Some e \<Rightarrow> (Some e, mc)
                 | None \<Rightarrow>
                    (case err (Call_Save ''users'' (u_name u1)) of
                       Some e \<Rightarrow> (Some (db_error e), mc)
                     | None \<Rightarrow> (None, save_user_row (set_passhash ue saltb password u1) mc))))))"

definition new_password ::
    "user_env \<Rightarrow> db_err \<Rightarrow> string \<Rightarrow> string \<Rightarrow> string \<Rightarrow> string \<Rightarrow> mc \<Rightarrow> mc_err option \<times> mc" where
  "new_password ue err saltb caller current password mc =
     (if current = '''' then (Some (Err ''Please specify current password''), mc)
      else if password = '''' then (Some (Err ''Please specify new password''), mc)
      else case first_user err caller mc of
          Inr (Some u) \<Rightarrow>
            if password_matches ue current (u_passhash u) (u_salt u) (u_iter u) \<noteq> Inr True
            then (Some (Err ''Invalid current password''), mc)
            else set_password ue err saltb caller password mc
        | _ \<Rightarrow> (Some (Err ''Invalid user''), mc))"

text \<open>\<open>claims\<close> is the user name of a valid token, if the token is valid.\<close>

definition password_reset ::
    "user_env \<Rightarrow> db_err \<Rightarrow> string \<Rightarrow> string option \<Rightarrow> string \<Rightarrow> mc \<Rightarrow> mc_err option \<times> mc" where
  "password_reset ue err saltb claims password mc =
     (case claims of
        None \<Rightarrow> (Some (Err ''invalid or expired token''), mc)
      | Some username \<Rightarrow> set_password ue err saltb username password mc)"

definition first_by_email :: "db_err \<Rightarrow> string \<Rightarrow> mc \<Rightarrow> string + user option" where
  "first_by_email err email mc =
     (case err (Call_Find ''users'' email) of
        Some e \<Rightarrow> Inl e
      | None \<Rightarrow> Inr (find (\<lambda>u. email = '''' \<or> u_email u = email) (mc_users mc)))"

text \<open>A user that is gone is no error.\<close>

definition verify_email :: "db_err \<Rightarrow> string option \<Rightarrow> mc \<Rightarrow> mc_err option \<times> mc" where
  "verify_email err claims mc =
     (case claims of
        None \<Rightarrow> (Some (Err ''invalid or expired token''), mc)
      | Some email \<Rightarrow>
         (case first_by_email err email mc of
            Inr (Some u) \<Rightarrow>
             (case err (Call_Save ''users'' (u_name u)) of
                Some e \<Rightarrow> (Some (db_error e), mc)
              | None \<Rightarrow> (None, save_user_row (u\<lparr>u_email_verified := True\<rparr>) mc))
          | _ \<Rightarrow> (None, mc)))"

subsection \<open>UpdateUser\<close>

text \<open>\<open>body\<close> is what reading the request does to the user, or the error of it.\<close>

definition check_fixed_fields :: "user \<Rightarrow> user \<Rightarrow> mc_err option" where
  "check_fixed_fields old u = first_fail
     [fail_if (u_name old \<noteq> u_name u) (Err ''Cannot change username''),
      fail_if (u_email_verified old \<noteq> u_email_verified u) (Err ''Cannot change emailverified''),
      fail_if (u_passhash old \<noteq> u_passhash u) (Err ''Cannot change passhash''),
      fail_if (u_salt old \<noteq> u_salt u) (Err ''Cannot change salt''),
      fail_if (u_iter old \<noteq> u_iter u) (Err ''Cannot change iter''),
      fail_if (u_created_at old \<noteq> u_created_at u) (Err ''Cannot change createdat''),
      fail_if (u_updated_at old \<noteq> u_updated_at u) (Err ''Cannot change updatedat''),
      fail_if (u_locked old \<noteq> u_locked u) (Err ''Cannot change locked''),
      fail_if (u_pass_crack old \<noteq> u_pass_crack u) (Err ''Cannot change passcracktimesec''),
      fail_if (u_last_login old \<noteq> u_last_login u) (Err ''Cannot change last login time''),
      fail_if (u_last_failed old \<noteq> u_last_failed u) (Err ''Cannot change last failed login time'')]"

text \<open>A changed address has to be verified again; the answer says whether a mail is to be sent.\<close>

definition update_email :: "user_env \<Rightarrow> db_err \<Rightarrow> bool \<Rightarrow> user \<Rightarrow> user \<Rightarrow> mc \<Rightarrow> mc_err + bool \<times> user" where
  "update_email ue err verify_valid old u mc =
     (if u_email old = u_email u then Inr (False, u)
      else case get_config err mc of
          Inl e \<Rightarrow> Inl (Err e)
        | Inr c \<Rightarrow>
            let skip = get_skip_verify_email ue err (Some c) mc in
            if \<not> skip \<and> \<not> verify_valid then Inl (Err ''Invalid email address'')
            else Inr (\<not> skip, u\<lparr>u_email_verified := False\<rparr>))"

definition update_totp :: "user_env \<Rightarrow> user \<Rightarrow> user \<Rightarrow> mc_err + user" where
  "update_totp ue old u =
     (if u_enable_totp old = u_enable_totp u then Inr u
      else if u_enable_totp u
      then (case ue_totp_key ue (u_email u) of
              Inl e \<Rightarrow> Inl (Err (''Failed to setup 2FA: '' @ e))
            | Inr k \<Rightarrow> Inr (u\<lparr>u_totp_key := k\<rparr>))
      else Inr (u\<lparr>u_totp_key := ''''\<rparr>))"

definition save_updated_user :: "db_err \<Rightarrow> user \<Rightarrow> mc \<Rightarrow> mc_err option \<times> mc" where
  "save_updated_user err u mc =
     (case err (Call_Save ''users'' (u_name u)) of
        Some e \<Rightarrow> (Some (db_error e), mc)
      | None \<Rightarrow>
          if list_ex (\<lambda>x. \<not> citext_eq (u_name x) (u_name u) \<and> u_email x = u_email u) (mc_users mc)
          then (Some (Err (''Email '' @ u_email u @ '' already in use'')), mc)
          else (None, save_user_row u mc))"

text \<open>The row that a failed lookup leaves: only the name it looked for.\<close>

definition blank_user :: "string \<Rightarrow> user" where
  "blank_user name = \<lparr>u_name = name, u_email = '''', u_email_verified = False, u_passhash = '''', u_salt = '''',
     u_iter = 0, u_created_at = 0, u_updated_at = 0, u_locked = False, u_pass_crack = 0, u_enable_totp = False,
     u_totp_key = '''', u_metadata = '''', u_last_login = 0, u_last_failed = 0, u_failed_logins = 0\<rparr>"

text \<open>
  An error of the lookup other than a missing row is not looked at; \<open>verify_valid\<close> and \<open>send\<close> stand for the mail
  request: is its address valid, and the error of sending it.  When it cannot be sent the old
  row is written back; an error of that is only logged.
\<close>

definition update_old_user ::
    "user_env \<Rightarrow> db_err \<Rightarrow> user \<Rightarrow> string + (user \<Rightarrow> user) \<Rightarrow> bool \<Rightarrow> string option \<Rightarrow> mc \<Rightarrow> mc_err option \<times> mc" where
  "update_old_user ue err old body verify_valid send mc =
     (case body of
        Inl e \<Rightarrow> (Some (Err e), mc)
      | Inr apply_body \<Rightarrow>
          let u = apply_body old in
          (case check_fixed_fields old u of
             Some e \<Rightarrow> (Some e, mc)
           | None \<Rightarrow>
            (case update_email ue err verify_valid old u mc of
               Inl e \<Rightarrow> (Some e, mc)
             | Inr (send_verify, u1) \<Rightarrow>
              (case update_totp ue old u1 of
                 Inl e \<Rightarrow> (Some e, mc)
               | Inr u2 \<Rightarrow>
                  let (e, mc1) = save_updated_user err u2 mc in
                  if e \<noteq> None then (e, mc1)
                  else if send_verify \<and> \<not> get_skip_verify_email ue err None mc1 \<and> send \<noteq> None
                  then (Some (Err (''Failed to send verification email to '' @ u_email u2 @ '', '' @ the send)),
                        snd (save_updated_user err old mc1))
                  else (None, mc1)))))"

definition update_user ::
    "user_env \<Rightarrow> db_err \<Rightarrow> string \<Rightarrow> string + (user \<Rightarrow> user) \<Rightarrow> bool \<Rightarrow> string option \<Rightarrow> mc \<Rightarrow> mc_err option \<times> mc" where
  "update_user ue err caller body verify_valid send mc =
     (case first_user err caller mc of
        Inl _ \<Rightarrow> update_old_user ue err (blank_user caller) body verify_valid send mc
      | Inr None \<Rightarrow> (Some (Err ''User not found''), mc)
      | Inr (Some old) \<Rightarrow> update_old_user ue err old body verify_valid send mc)"

definition restricted_user_update ::
    "db_err \<Rightarrow> string \<Rightarrow> string + (string \<times> string) \<times> (user \<Rightarrow> user) \<Rightarrow> mc \<Rightarrow> mc_err option \<times> mc" where
  "restricted_user_update err caller body mc =
     (case authorized err caller '''' ''users'' ''manage'' [] mc of
        Some e \<Rightarrow> (Some e, mc)
      | None \<Rightarrow>
       (case body of
          Inl e \<Rightarrow> (Some (Err e), mc)
        | Inr ((name, email), apply_body) \<Rightarrow>
           (case err (Call_User name) of
              Some e \<Rightarrow> (Some (db_error e), mc)
            | None \<Rightarrow>
               (case find (\<lambda>u. (name = '''' \<or> citext_eq (u_name u) name) \<and> (email = '''' \<or> u_email u = email)) (mc_users mc) of
                  None \<Rightarrow> (Some (Err ''user not found''), mc)
                | Some old \<Rightarrow>
                    let u = (apply_body old)\<lparr>u_passhash := u_passhash old, u_salt := u_salt old, u_iter := u_iter old,
                               u_created_at := u_created_at old, u_name := u_name old, u_email := u_email old\<rparr> in
                    (case err (Call_Save ''users'' (u_name u)) of
                       Some e \<Rightarrow> (Some (db_error e), mc)
                     | None \<Rightarrow> (None, save_user_row u mc))))))"

subsection \<open>Showing users\<close>

definition hide_auth :: "user \<Rightarrow> user" where
  "hide_auth u = u\<lparr>u_passhash := '''', u_totp_key := '''', u_salt := '''', u_iter := 0\<rparr>"

definition hide_private :: "user \<Rightarrow> user" where
  "hide_private u = u\<lparr>u_email := '''', u_email_verified := False, u_locked := False, u_pass_crack := 0,
     u_enable_totp := False, u_metadata := '''', u_created_at := 0, u_updated_at := 0\<rparr>"

definition current_user :: "db_err \<Rightarrow> string \<Rightarrow> mc \<Rightarrow> mc_err + user" where
  "current_user err caller mc =
     (case first_user err caller mc of
        Inl e \<Rightarrow> Inl (db_error e)
      | Inr None \<Rightarrow> Inl (db_error ''record not found'')
      | Inr (Some u) \<Rightarrow> Inr (hide_auth u))"

text \<open>The users that have a role which the filter and the caller's permissions let through.\<close>

definition allowed_users :: "string list \<Rightarrow> string \<Rightarrow> string \<Rightarrow> string list list \<Rightarrow> string list" where
  "allowed_users auth_orgs flt_org flt_role groups =
     map ro_user (filter (\<lambda>r. (flt_org \<noteq> '''' \<longrightarrow> flt_org = ro_org r) \<and>
         (flt_org = '''' \<and> '''' \<notin> set auth_orgs \<longrightarrow> ro_org r \<in> set auth_orgs) \<and>
         (flt_role \<noteq> '''' \<longrightarrow> flt_role = ro_role r))
       (List.map_filter parse_role groups))"

text \<open>\<open>flt\<close> is the condition of the database query; the sensitive columns have been taken out of it.\<close>

definition show_user ::
    "db_err \<Rightarrow> string \<Rightarrow> string \<Rightarrow> string \<Rightarrow> (user \<Rightarrow> bool) \<Rightarrow> mc \<Rightarrow> mc_err + user list" where
  "show_user err caller flt_org flt_role flt mc =
     (case get_authorized_orgs err caller ''users'' ''view'' (mc_rules mc) of
        Inl e \<Rightarrow> Inl (Err e)
      | Inr auth_orgs \<Rightarrow>
          let admin = ('''' \<in> set auth_orgs) in
          if auth_orgs = [] then Inl Forbidden
          else if flt_org \<noteq> '''' \<and> \<not> admin \<and> flt_org \<notin> set auth_orgs then Inl Forbidden
          else case err (Call_Table ''users'') of
              Some e \<Rightarrow> Inl (db_error e)
            | None \<Rightarrow>
                let users = filter flt (mc_users mc);
                    hide = (\<lambda>u. if \<not> admin \<and> u_name u \<noteq> caller then hide_private (hide_auth u) else hide_auth u) in
                (case (if \<not> admin \<or> flt_org \<noteq> '''' \<or> flt_role \<noteq> ''''
                       then (case enf_get_grouping_policy err (mc_rules mc) of
                               Inl e \<Rightarrow> Inl (db_error e)
                             | Inr groups \<Rightarrow>
                                 Inr (filter (\<lambda>u. u_name u \<in> set (allowed_users auth_orgs flt_org flt_role groups)) users))
                       else Inr users) of
                   Inl e \<Rightarrow> Inl e
                 | Inr us \<Rightarrow> Inr (sort_key u_name (map hide us))))"

end
