(* ===== verification/MC_Login.thy ===== *)
theory MC_Login
  imports MC_Users
begin

text \<open>
  Logging in to the master controller (\<open>Login\<close> and \<open>checkLoginLocked\<close> of \<open>src/mc/orm/user.go\<close>), the
  tokens it gives (\<open>GenerateCookie\<close> of \<open>userauth.go\<close>, \<open>RefreshAuthCookie\<close>), and the passwords the LDAP
  server accepts (\<open>Bind\<close> of \<open>ldap.go\<close>).  Times are nanoseconds; the delays after a bad password are
  left out.
\<close>

subsection \<open>Requests, tokens, library\<close>

record login_req =
  lr_username :: string
  lr_password :: string
  lr_totp :: string
  lr_api_key_id :: string
  lr_api_key :: string

datatype auth_type = Password_Auth | Api_Key_Auth

text \<open>The claims of a token; the two times are of \<open>IssuedAt\<close> and \<open>FirstIssuedAt\<close>, in seconds.\<close>

record claims =
  cl_username :: string
  cl_email :: string
  cl_issued :: int
  cl_first_issued :: int
  cl_auth :: auth_type
  cl_api_key_user :: string

record login_env =
  le_users :: user_env
  le_totp_code :: "string \<Rightarrow> int \<Rightarrow> string + string"              \<comment> \<open>\<open>totp.GenerateCodeCustom\<close>\<close>
  le_totp_valid :: "string \<Rightarrow> string \<Rightarrow> int \<Rightarrow> nat \<Rightarrow> bool"         \<comment> \<open>\<open>totp.ValidateCustom\<close>: code, key, time, period\<close>
  le_cookie_error :: "string option"                           \<comment> \<open>\<open>Jwks.GenerateCookie\<close>\<close>

datatype login_result = Login_Fails mc_err | Otp_Needed | Logged_In claims bool

subsection \<open>The lock after failed logins\<close>

definition lockout_duration :: "config \<Rightarrow> int \<Rightarrow> int" where
  "lockout_duration c failed =
     (if failed \<ge> cfg_lockout_threshold2 c then duration_secs (cfg_lockout_time2 c)
      else if failed \<ge> cfg_lockout_threshold1 c then duration_secs (cfg_lockout_time1 c)
      else bad_auth_delay)"

definition check_login_locked :: "int \<Rightarrow> user \<Rightarrow> config \<Rightarrow> mc_err option" where
  "check_login_locked now u c =
     (if u_failed_logins u = 0 then None
      else if now - u_last_failed u < lockout_duration c (u_failed_logins u)
      then Some (Err (''Login temporarily disabled due to '' @ strconv_itoa (u_failed_logins u) @ '' failed login attempts''))
      else None)"

text \<open>An error of saving is only logged.\<close>

definition save_user_login :: "db_err \<Rightarrow> user \<Rightarrow> mc \<Rightarrow> mc" where
  "save_user_login err u mc = (case err (Call_Save ''users'' (u_name u)) of Some _ \<Rightarrow> mc | None \<Rightarrow> save_user_row u mc)"

subsection \<open>Login\<close>

definition first_api_key :: "db_err \<Rightarrow> string \<Rightarrow> mc \<Rightarrow> string + api_key option" where
  "first_api_key err key_id mc =
     (case err (Call_Find ''user_api_keys'' key_id) of
        Some e \<Rightarrow> Inl e
      | None \<Rightarrow> Inr (find (\<lambda>k. key_id = '''' \<or> citext_eq (ak_id k) key_id) (mc_api_keys mc)))"

definition api_key_login :: "user_env \<Rightarrow> db_err \<Rightarrow> login_req \<Rightarrow> mc \<Rightarrow> mc_err + user" where
  "api_key_login ue err r mc =
     (if lr_api_key_id r = '''' then Inl (Err ''apikeyid not specified'')
      else if lr_api_key r = '''' then Inl (Err ''apikey not specified'')
      else case first_api_key err (lr_api_key_id r) mc of
          Inr (Some k) \<Rightarrow>
           (case first_user err (ak_user k) mc of
              Inl e \<Rightarrow> Inl (db_error e)
            | Inr None \<Rightarrow> Inl (db_error ''record not found'')
            | Inr (Some u) \<Rightarrow>
                if password_matches ue (lr_api_key r) (ak_hash k) (ak_salt k) (ak_iter k) \<noteq> Inr True
                then Inl (Err ''Invalid ApiKey or ApiKeyId'') else Inr u)
        | _ \<Rightarrow> Inl (Err ''Invalid ApiKey''))"

text \<open>The user is looked up by name, and by mail address when there is none of that name.\<close>

definition find_login_user :: "db_err \<Rightarrow> string \<Rightarrow> mc \<Rightarrow> user option" where
  "find_login_user err username mc =
     (case first_user err username mc of
        Inr (Some u) \<Rightarrow> Some u
      | Inr None \<Rightarrow> (case first_by_email err username mc of Inr (Some u) \<Rightarrow> Some u | _ \<Rightarrow> None)
      | Inl _ \<Rightarrow> None)"

definition password_login :: "user_env \<Rightarrow> db_err \<Rightarrow> int \<Rightarrow> config \<Rightarrow> login_req \<Rightarrow> mc \<Rightarrow> (mc_err + user) \<times> mc" where
  "password_login ue err now c r mc =
     (if lr_username r = '''' then (Inl (Err ''Username not specified''), mc)
      else if lr_password r = '''' then (Inl (Err ''Please specify password''), mc)
      else case find_login_user err (lr_username r) mc of
          None \<Rightarrow> (Inl (Err ''Invalid username or password''), mc)
        | Some u \<Rightarrow>
           (case check_login_locked now u c of
              Some e \<Rightarrow> (Inl e, mc)
            | None \<Rightarrow>
                if password_matches ue (lr_password r) (u_passhash u) (u_salt u) (u_iter u) \<noteq> Inr True
                then (Inl (Err ''Invalid username or password''),
                      save_user_login err (u\<lparr>u_failed_logins := u_failed_logins u + 1, u_last_failed := now\<rparr>) mc)
                else let u' = u\<lparr>u_failed_logins := 0, u_last_login := now\<rparr> in
                  (Inr u', save_user_login err u' mc)))"

text \<open>The strength of a password that was not measured yet; only an admin is refused.\<close>

definition login_strength ::
    "user_env \<Rightarrow> db_err \<Rightarrow> bool \<Rightarrow> login_req \<Rightarrow> user \<Rightarrow> mc \<Rightarrow> (mc_err + user) \<times> mc" where
  "login_strength ue err admin r u mc =
     (if lr_password r \<noteq> '''' \<and> u_pass_crack u = 0
      then let u' = calc_password_strength ue (lr_password r) u in
        if check_password_strength err u' None admin mc \<noteq> None \<and> admin
        then (Inl (Err ''Existing password for Admin too weak, please update first''), mc)
        else (case err (Call_Save ''users'' (u_name u')) of
            Some e \<Rightarrow> (Inl (db_error e), mc)
          | None \<Rightarrow> (Inr u', save_user_row u' mc))
      else (Inr u, mc))"

definition generate_cookie :: "int \<Rightarrow> user \<Rightarrow> string \<Rightarrow> claims" where
  "generate_cookie now u api_key_id =
     (let c = \<lparr>cl_username = u_name u, cl_email = u_email u, cl_issued = now div 1000000000,
               cl_first_issued = now div 1000000000, cl_auth = Password_Auth, cl_api_key_user = ''''\<rparr>
      in if api_key_id \<noteq> '''' then c\<lparr>cl_username := api_key_id, cl_auth := Api_Key_Auth, cl_api_key_user := u_name u\<rparr>
         else c)"

definition login_otp :: "login_env \<Rightarrow> int \<Rightarrow> login_req \<Rightarrow> user \<Rightarrow> login_result option" where
  "login_otp le now r u =
     (if lr_password r \<noteq> '''' \<and> u_enable_totp u \<and> u_totp_key u \<noteq> ''''
      then if lr_totp r = ''''
        then (case le_totp_code le (u_totp_key u) now of
                Inl e \<Rightarrow> Some (Login_Fails (Err e))
              | Inr _ \<Rightarrow> Some Otp_Needed)
        else if \<not> le_totp_valid le (lr_totp r) (u_totp_key u) now 30 \<and> \<not> le_totp_valid le (lr_totp r) (u_totp_key u) now 120
        then Some (Login_Fails (Err ''Invalid or expired OTP. Please login again to receive another OTP''))
        else None
      else None)"

definition login_user ::
    "login_env \<Rightarrow> db_err \<Rightarrow> int \<Rightarrow> login_req \<Rightarrow> user \<Rightarrow> mc \<Rightarrow> login_result \<times> mc" where
  "login_user le err now r u mc =
     (if u_locked u then (Login_Fails (Err ''Account is locked, please contact MobiledgeX support''), mc)
      else if \<not> get_skip_verify_email (le_users le) err None mc \<and> \<not> u_email_verified u
      then (Login_Fails (Err ''Email not verified yet''), mc)
      else case is_user_admin err (u_name u) mc of
          Inl e \<Rightarrow> (Login_Fails e, mc)
        | Inr admin \<Rightarrow>
           (case login_strength (le_users le) err admin r u mc of
              (Inl e, mc1) \<Rightarrow> (Login_Fails e, mc1)
            | (Inr u1, mc1) \<Rightarrow>
               (case login_otp le now r u1 of
                  Some res \<Rightarrow> (res, mc1)
                | None \<Rightarrow>
                   (case le_cookie_error le of
                      Some _ \<Rightarrow> (Login_Fails (Err ''Failed to generate cookie''), mc1)
                    | None \<Rightarrow> (Logged_In (generate_cookie now u1 (lr_api_key_id r)) admin, mc1)))))"

definition login :: "login_env \<Rightarrow> db_err \<Rightarrow> int \<Rightarrow> login_req \<Rightarrow> mc \<Rightarrow> login_result \<times> mc" where
  "login le err now r mc =
     (case get_config err mc of
        Inl e \<Rightarrow> (Login_Fails (Err e), mc)
      | Inr c \<Rightarrow>
          let (res, mc1) = (if lr_api_key r \<noteq> '''' \<or> lr_api_key_id r \<noteq> ''''
                            then (api_key_login (le_users le) err r mc, mc)
                            else password_login (le_users le) err now c r mc) in
          (case res of Inl e \<Rightarrow> (Login_Fails e, mc1) | Inr u \<Rightarrow> login_user le err now r u mc1))"

text \<open>\<open>AddDate(0, 0, 30)\<close> in UTC is 30 days.\<close>

definition refresh_auth_cookie :: "login_env \<Rightarrow> int \<Rightarrow> claims \<Rightarrow> mc_err + claims" where
  "refresh_auth_cookie le now c =
     (if cl_first_issued c = 0 then Inl (Err ''Failed to refresh auth cookie'')
      else if cl_first_issued c + 30 * 86400 < now div 1000000000 then Inl (Err ''expired jwt'')
      else case le_cookie_error le of
          Some _ \<Rightarrow> Inl (Err ''Failed to generate cookie'')
        | None \<Rightarrow> Inr (c\<lparr>cl_issued := now div 1000000000\<rparr>))"

text \<open>A bind to the LDAP server with the name and password of a user; the service account is not modelled.\<close>

definition ldap_bind :: "user_env \<Rightarrow> db_err \<Rightarrow> string \<Rightarrow> string \<Rightarrow> mc \<Rightarrow> bool" where
  "ldap_bind ue err cn pw mc =
     (case first_user err cn mc of
        Inr (Some u) \<Rightarrow>
          if \<not> u_email_verified u \<or> u_locked u then False
          else password_matches ue pw (u_passhash u) (u_salt u) (u_iter u) = Inr True
      | _ \<Rightarrow> False)"

end
