(* ===== verification/MC_Login_Safety.thy ===== *)
theory MC_Login_Safety
  imports MC_Login
begin

text \<open>
  What logging in guarantees: how fast passwords can be guessed, who gets a token and for whom it
  stands, and that the settings of the lock stay sane.
\<close>

subsection \<open>The settings of the lock\<close>

definition lockout_ok :: "config \<Rightarrow> bool" where
  "lockout_ok c \<longleftrightarrow> 0 < cfg_lockout_threshold1 c \<and> cfg_lockout_threshold1 c < cfg_lockout_threshold2 c \<and>
     bad_auth_delay \<le> duration_secs (cfg_lockout_time1 c) \<and>
     duration_secs (cfg_lockout_time1 c) \<le> duration_secs (cfg_lockout_time2 c)"

lemma check_config_ok: "check_config c = None \<Longrightarrow> lockout_ok c"
  by (auto simp: check_config_def lockout_ok_def not_le not_less)

lemma update_config_settings:
  assumes "update_config err caller body tok mc = (e, mc')"
  shows "mc_config mc' = mc_config mc \<or> check_config (mc_config mc') = None"
proof -
  have "mc_config mc1 = mc_config mc" if "reset_user_password_crack_times err mc = (e1, mc1)" for e1 mc1
    using that by (auto simp: reset_user_password_crack_times_def split: option.splits)
  then show ?thesis
    using assms
    by (auto simp: update_config_def Let_def simp del: first_fail_None
        split: option.splits sum.splits if_splits prod.splits)
      (auto simp: first_fail_None)
qed

inductive config_step :: "config \<Rightarrow> mc \<Rightarrow> mc \<Rightarrow> bool" for dflt where
  update: "update_config err caller body tok mc = (e, mc') \<Longrightarrow> config_step dflt mc mc'"
| reset: "reset_config err caller dflt mc = (e, mc') \<Longrightarrow> config_step dflt mc mc'"

text \<open>
  Note (lock settings): whatever settings are written or reset, also when the database fails half
  way, the thresholds stay positive and ordered and the lock times stay ordered and at least
  the delay of a bad password; so a lock never gets shorter with more failed logins.
\<close>

theorem lockout_settings_stay:
  assumes "(config_step dflt)\<^sup>*\<^sup>* mc mc'" and "lockout_ok (mc_config mc)" and "lockout_ok dflt"
  shows "lockout_ok (mc_config mc') \<and>
    (\<forall>n m. n \<le> m \<longrightarrow> bad_auth_delay \<le> lockout_duration (mc_config mc') n \<and>
       lockout_duration (mc_config mc') n \<le> lockout_duration (mc_config mc') m)"
proof -
  have "lockout_ok (mc_config mc')"
    using assms(1)
  proof (induction rule: rtranclp_induct)
    case (step y z)
    show ?case
      using step(2)
    proof cases
      case (update err caller body tok e)
      then show ?thesis using update_config_settings[OF update] step.IH check_config_ok by metis
    next
      case (reset err caller e)
      then show ?thesis
        using step.IH assms(3)
        by (auto simp: reset_config_def reset_user_password_crack_times_def split: option.splits)
    qed
  qed (rule assms(2))
  then show ?thesis by (auto simp: lockout_ok_def lockout_duration_def)
qed

subsection \<open>Guessing passwords\<close>

text \<open>
  A password is tried when the login comes to compare it: the login of this request would be accepted
  if every password matched the account.  The times at which passwords are tried in a run of logins:
\<close>

definition matching_env :: "user \<Rightarrow> user_env \<Rightarrow> user_env" where
  "matching_env u ue = ue\<lparr>ue_decode := Inr, ue_encode := (\<lambda>_. u_passhash u)\<rparr>"

definition password_tried :: "user_env \<Rightarrow> int \<Rightarrow> login_req \<Rightarrow> mc \<Rightarrow> bool" where
  "password_tried ue now r mc =
     (case find_login_user no_err (lr_username r) mc of
        None \<Rightarrow> False
      | Some u \<Rightarrow>
         (case fst (password_login (matching_env u ue) no_err now (mc_config mc) r mc) of
            Inl _ \<Rightarrow> False
          | Inr _ \<Rightarrow> True))"

fun tried_times :: "login_env \<Rightarrow> (int \<times> login_req) list \<Rightarrow> mc \<Rightarrow> int list" where
  "tried_times le [] mc = []"
| "tried_times le ((now, r) # rs) mc =
     (if password_tried (le_users le) now r mc then [now] else [])
     @ tried_times le rs (snd (login le no_err now r mc))"

text \<open>The sum of the lock times between \<open>n\<close> guesses.\<close>

definition min_span :: "config \<Rightarrow> nat \<Rightarrow> int" where
  "min_span c n = (\<Sum>k\<in>{1..<n}. lockout_duration c (int k))"

lemma find_login_user_name:
  "find (\<lambda>u. citext_eq (u_name u) name) (mc_users mc) = Some u \<Longrightarrow> name \<noteq> '''' \<Longrightarrow>
     find_login_user no_err name mc = Some u"
  by (simp add: find_login_user_def first_user_def)

lemma find_save:
  assumes "find (\<lambda>u. citext_eq (u_name u) name) us = Some u" and "u_name u' = u_name u"
  shows "find (\<lambda>u. citext_eq (u_name u) name) (map (\<lambda>x. if citext_eq (u_name x) (u_name u') then u' else x) us) = Some u'"
  using assms
proof (induction us)
  case (Cons a us)
  have name: "citext_eq (u_name u) name" using Cons.prems(1) unfolding find_Some_iff by auto
  show ?case
  proof (cases "citext_eq (u_name a) name")
    case True
    then show ?thesis using Cons.prems name by simp
  next
    case False
    then have "\<not> citext_eq (u_name a) (u_name u')"
      using name Cons.prems(2) by (simp add: citext_eq_def)
    then show ?thesis using Cons False by simp
  qed
qed simp

lemma password_tried_iff:
  "password_tried ue now r mc \<longleftrightarrow> lr_username r \<noteq> '''' \<and> lr_password r \<noteq> '''' \<and>
     (\<exists>u. find_login_user no_err (lr_username r) mc = Some u \<and> check_login_locked now u (mc_config mc) = None)"
  by (auto simp: password_tried_def password_login_def password_matches_def matching_env_def Let_def
      split: option.split)

text \<open>An answer to a login whose password is not tried says nothing about the password.\<close>

lemma untried_login_is_blind:
  assumes "\<not> password_tried ue now r mc" and "lr_password r \<noteq> ''''" "pw \<noteq> ''''"
  shows "password_login ue no_err now (mc_config mc) (r\<lparr>lr_password := pw\<rparr>) mc =
    password_login ue no_err now (mc_config mc) r mc"
  using assms by (auto simp: password_tried_iff password_login_def split: option.split)

text \<open>A wrong guess at the account: what is counted, and when the password is tried at all.\<close>

abbreviation wrong_guess :: "user_env \<Rightarrow> string \<Rightarrow> user \<Rightarrow> login_req \<Rightarrow> bool" where
  "wrong_guess ue name u r \<equiv> lr_username r = name \<and> lr_api_key r = '''' \<and> lr_api_key_id r = '''' \<and>
     password_matches ue (lr_password r) (u_passhash u) (u_salt u) (u_iter u) \<noteq> Inr True"

lemma wrong_guess_step:
  fixes now :: int
  assumes "find (\<lambda>u. citext_eq (u_name u) name) (mc_users mc) = Some u" and "name \<noteq> ''''"
    and "wrong_guess (le_users le) name u r"
  defines "u' \<equiv> u\<lparr>u_failed_logins := u_failed_logins u + 1, u_last_failed := now\<rparr>"
  shows "password_tried (le_users le) now r mc \<longleftrightarrow>
      lr_password r \<noteq> '''' \<and> check_login_locked now u (mc_config mc) = None"
    and "snd (login le no_err now r mc) =
      (if password_tried (le_users le) now r mc then save_user_row u' mc else mc)"
proof -
  have u: "find_login_user no_err name mc = Some u" using assms(1,2) by (rule find_login_user_name)
  then show tried: "password_tried (le_users le) now r mc \<longleftrightarrow>
      lr_password r \<noteq> '''' \<and> check_login_locked now u (mc_config mc) = None"
    using assms(2,3) by (auto simp: password_tried_iff)
  show "snd (login le no_err now r mc) =
      (if password_tried (le_users le) now r mc then save_user_row u' mc else mc)"
    unfolding tried using assms(2,3) u
    by (auto simp: login_def password_login_def get_config_def save_user_login_def u'_def split: option.split)
qed

lemma tried_times_gaps:
  assumes "find (\<lambda>u. citext_eq (u_name u) name) (mc_users mc) = Some u" and "name \<noteq> ''''"
    and "0 \<le> u_failed_logins u" and "\<forall>(now, r)\<in>set rs. wrong_guess (le_users le) name u r"
  defines "c \<equiv> mc_config mc"
  shows "(0 < u_failed_logins u \<and> tried_times le rs mc \<noteq> [] \<longrightarrow>
       lockout_duration c (u_failed_logins u) \<le> hd (tried_times le rs mc) - u_last_failed u) \<and>
    (\<forall>i. Suc i < length (tried_times le rs mc) \<longrightarrow>
       lockout_duration c (u_failed_logins u + int (Suc i)) \<le> tried_times le rs mc ! Suc i - tried_times le rs mc ! i)"
  using assms(1,3,4) unfolding c_def
proof (induction rs arbitrary: mc u)
  case Nil
  then show ?case by simp
next
  case (Cons x rs)
  obtain now r where x: "x = (now, r)" by fastforce
  have guess: "wrong_guess (le_users le) name u r" using Cons.prems(3) x by simp
  note step = wrong_guess_step[where now = now, OF Cons.prems(1) assms(2) guess]
  let ?u = "u\<lparr>u_failed_logins := u_failed_logins u + 1, u_last_failed := now\<rparr>"
  show ?case
  proof (cases "password_tried (le_users le) now r mc")
    case False
    then show ?thesis using Cons.IH[OF Cons.prems(1,2)] Cons.prems(3) step(2) by (simp add: x)
  next
    case True
    let ?mc = "save_user_row ?u mc" and ?ts = "tried_times le rs (save_user_row ?u mc)"
    have ts: "tried_times le (x # rs) mc = now # ?ts" using True step(2) by (simp add: x)
    have "find (\<lambda>u. citext_eq (u_name u) name) (mc_users ?mc) = Some ?u"
      unfolding save_user_row_def using find_save[OF Cons.prems(1), of ?u] by simp
    from Cons.IH[OF this] have IH: "?ts \<noteq> [] \<Longrightarrow> lockout_duration (mc_config mc) (u_failed_logins u + 1) \<le> hd ?ts - now"
        "\<And>i. Suc i < length ?ts \<Longrightarrow>
          lockout_duration (mc_config mc) (u_failed_logins u + 1 + int (Suc i)) \<le> ?ts ! Suc i - ?ts ! i"
      using Cons.prems(2,3) by (auto simp: save_user_row_def)
    have "lockout_duration (mc_config mc) (u_failed_logins u + int (Suc i)) \<le> (now # ?ts) ! Suc i - (now # ?ts) ! i"
      if "Suc i < length (now # ?ts)" for i
    proof (cases i)
      case 0
      then show ?thesis using IH(1) that by (simp add: hd_conv_nth)
    next
      case (Suc j)
      then show ?thesis using IH(2)[of j] that by (simp add: algebra_simps)
    qed
    moreover have "lockout_duration (mc_config mc) (u_failed_logins u) \<le> now - u_last_failed u" if "0 < u_failed_logins u"
      using True that step(1) by (auto simp: check_login_locked_def split: if_splits)
    ultimately show ?thesis unfolding ts by simp
  qed
qed

lemma gaps_sum:
  fixes ts :: "int list"
  assumes "\<And>i. Suc i < length ts \<Longrightarrow> d (int (Suc i)) \<le> ts ! Suc i - ts ! i" and "n < length ts"
  shows "(\<Sum>k\<in>{1..n}. d (int k)) \<le> ts ! n - ts ! 0"
  using assms(2)
proof (induction n)
  case (Suc n)
  then show ?case using assms(1)[of n] by simp
qed simp

text \<open>
  C15 (rate of guesses): however often, whenever and with whatever wrong passwords somebody tries to
  log in under the name of a user, with no right login and no other change of the account in between
  and with a database that works, the passwords that are tried at all are apart: after the \<open>n\<close>th one no
  other is tried before the lock time of \<open>n\<close> failures has passed.  So the last of \<open>n\<close> comes at least
  the sum of the first \<open>n - 1\<close> lock times after the first, and at least three seconds for every guess
  after the first.  All other logins are answered without a look at the password
  (\<open>untried_login_is_blind\<close>).
\<close>

theorem password_guesses_are_slow:
  assumes "find (\<lambda>u. citext_eq (u_name u) name) (mc_users mc) = Some u" and "name \<noteq> ''''" and "u_failed_logins u = 0"
    and "\<forall>(now, r)\<in>set rs. lr_username r = name \<and> lr_api_key r = '''' \<and> lr_api_key_id r = '''' \<and>
           password_matches (le_users le) (lr_password r) (u_passhash u) (u_salt u) (u_iter u) \<noteq> Inr True"
    and "lockout_ok (mc_config mc)"
  defines "ts \<equiv> tried_times le rs mc"
  shows "(\<forall>i. Suc i < length ts \<longrightarrow> lockout_duration (mc_config mc) (int (Suc i)) \<le> ts ! Suc i - ts ! i) \<and>
    (ts \<noteq> [] \<longrightarrow> min_span (mc_config mc) (length ts) \<le> last ts - hd ts \<and>
       int (length ts - 1) * bad_auth_delay \<le> last ts - hd ts)"
proof -
  have gaps: "\<And>i. Suc i < length ts \<Longrightarrow> lockout_duration (mc_config mc) (int (Suc i)) \<le> ts ! Suc i - ts ! i"
    using tried_times_gaps[OF assms(1,2) _ assms(4)] assms(3) by (simp add: ts_def)
  have "min_span (mc_config mc) (length ts) \<le> last ts - hd ts" if "ts \<noteq> []"
  proof -
    have "{1..<length ts} = {1..length ts - 1}" using that by auto
    then show ?thesis
      using gaps_sum[of ts "lockout_duration (mc_config mc)" "length ts - 1"] gaps that
      by (simp add: min_span_def last_conv_nth hd_conv_nth)
  qed
  moreover have "int (length ts - 1) * bad_auth_delay \<le> min_span (mc_config mc) (length ts)"
  proof -
    have "bad_auth_delay \<le> lockout_duration (mc_config mc) (int k)" for k
      using assms(5) by (auto simp: lockout_ok_def lockout_duration_def)
    then show ?thesis
      using sum_bounded_below[of "{1..<length ts}" bad_auth_delay "\<lambda>k. lockout_duration (mc_config mc) (int k)"]
      by (simp add: min_span_def)
  qed
  ultimately show ?thesis using gaps by auto
qed

subsection \<open>Who gets a token\<close>

lemma login_strength_user:
  "login_strength ue err admin r u mc = (Inr u1, mc1) \<Longrightarrow>
     u_name u1 = u_name u \<and> u_enable_totp u1 = u_enable_totp u \<and> u_totp_key u1 = u_totp_key u"
  by (auto simp: login_strength_def calc_password_strength_def Let_def split: if_splits option.splits)

lemma login_user_token:
  assumes "login_user le err now r u mc = (Logged_In c admin, mc')"
  shows "\<not> u_locked u" and "get_skip_verify_email (le_users le) err None mc \<or> u_email_verified u"
    and "lr_password r \<noteq> '''' \<and> u_enable_totp u \<and> u_totp_key u \<noteq> '''' \<Longrightarrow>
      le_totp_valid le (lr_totp r) (u_totp_key u) now 30 \<or> le_totp_valid le (lr_totp r) (u_totp_key u) now 120"
    and "cl_username c = (if lr_api_key_id r = '''' then u_name u else lr_api_key_id r)"
    and "cl_auth c = (if lr_api_key_id r = '''' then Password_Auth else Api_Key_Auth)"
    and "is_user_admin err (u_name u) mc = Inr admin"
proof -
  have open_account: "\<not> u_locked u \<and> (get_skip_verify_email (le_users le) err None mc \<or> u_email_verified u)"
    using assms by (auto simp: login_user_def split: if_splits)
  obtain a where a: "is_user_admin err (u_name u) mc = Inr a"
    using assms open_account by (cases "is_user_admin err (u_name u) mc") (auto simp: login_user_def)
  obtain res mc1 where st: "login_strength (le_users le) err a r u mc = (res, mc1)" by fastforce
  obtain u1 where u1: "res = Inr u1"
    using assms open_account a st by (cases res) (auto simp: login_user_def)
  have rest: "(case login_otp le now r u1 of Some res \<Rightarrow> (res, mc1)
      | None \<Rightarrow> (case le_cookie_error le of
            Some _ \<Rightarrow> (Login_Fails (Err ''Failed to generate cookie''), mc1)
          | None \<Rightarrow> (Logged_In (generate_cookie now u1 (lr_api_key_id r)) a, mc1))) = (Logged_In c admin, mc')"
    using assms open_account a st u1 by (auto simp: login_user_def)
  have "login_otp le now r u1 \<noteq> Some (Logged_In c admin)"
    by (auto simp: login_otp_def split: sum.splits)
  with rest have otp: "login_otp le now r u1 = None" by (auto split: option.splits)
  with rest have "c = generate_cookie now u1 (lr_api_key_id r) \<and> admin = a" by (auto split: option.splits)
  with otp st u1 a open_account login_strength_user[of "le_users le" err a r u mc u1 mc1]
  have base: "\<not> u_locked u \<and> (get_skip_verify_email (le_users le) err None mc \<or> u_email_verified u) \<and>
      (\<exists>u1. u_name u1 = u_name u \<and> u_enable_totp u1 = u_enable_totp u \<and> u_totp_key u1 = u_totp_key u \<and>
         login_otp le now r u1 = None \<and> c = generate_cookie now u1 (lr_api_key_id r)) \<and>
      is_user_admin err (u_name u) mc = Inr admin" by blast
  then show "\<not> u_locked u" and "get_skip_verify_email (le_users le) err None mc \<or> u_email_verified u"
    and "is_user_admin err (u_name u) mc = Inr admin" by auto
  obtain u1 where u1: "u_name u1 = u_name u" "u_enable_totp u1 = u_enable_totp u" "u_totp_key u1 = u_totp_key u"
    "login_otp le now r u1 = None" "c = generate_cookie now u1 (lr_api_key_id r)"
    using base by auto
  show "lr_password r \<noteq> '''' \<and> u_enable_totp u \<and> u_totp_key u \<noteq> '''' \<Longrightarrow>
      le_totp_valid le (lr_totp r) (u_totp_key u) now 30 \<or> le_totp_valid le (lr_totp r) (u_totp_key u) now 120"
    using u1 by (auto simp: login_otp_def split: if_splits sum.splits)
  show "cl_username c = (if lr_api_key_id r = '''' then u_name u else lr_api_key_id r)"
    and "cl_auth c = (if lr_api_key_id r = '''' then Password_Auth else Api_Key_Auth)"
    using u1 by (auto simp: generate_cookie_def Let_def)
qed

lemma password_login_ok:
  assumes "password_login ue err now c r mc = (Inr u', mc')"
  obtains u where "find_login_user err (lr_username r) mc = Some u" "lr_password r \<noteq> ''''"
    "check_login_locked now u c = None" "password_matches ue (lr_password r) (u_passhash u) (u_salt u) (u_iter u) = Inr True"
    "u' = u\<lparr>u_failed_logins := 0, u_last_login := now\<rparr>"
  using assms by (auto simp: password_login_def Let_def split: if_splits option.splits)

lemma api_key_login_ok:
  assumes "api_key_login ue err r mc = Inr u"
  obtains k where "first_api_key err (lr_api_key_id r) mc = Inr (Some k)" "first_user err (ak_user k) mc = Inr (Some u)"
    "password_matches ue (lr_api_key r) (ak_hash k) (ak_salt k) (ak_iter k) = Inr True" "lr_api_key_id r \<noteq> ''''"
  using assms by (auto simp: api_key_login_def split: if_splits option.splits sum.splits)

text \<open>
  C6 (who gets a token): a token is given only for an account that is not locked and, unless
  the check is switched off, has a verified address.  A token of a password login stands for the
  user whose password was given while the account was not held by failed logins, with the one-time
  password if the user has them on.  A token of an API key login stands for the key and not for
  the user it belongs to, and needs that key and an existing user.
\<close>

theorem login_token_is_earned:
  assumes "login le err now r mc = (Logged_In c admin, mc')"
  shows "if lr_api_key_id r = '''' then
      \<exists>u cfg. find_login_user err (lr_username r) mc = Some u \<and> get_config err mc = Inr cfg \<and>
        check_login_locked now u cfg = None \<and>
        password_matches (le_users le) (lr_password r) (u_passhash u) (u_salt u) (u_iter u) = Inr True \<and>
        \<not> u_locked u \<and> (get_skip_verify_email (le_users le) err None mc \<or> u_email_verified u) \<and>
        cl_username c = u_name u \<and> cl_auth c = Password_Auth \<and>
        (u_enable_totp u \<and> u_totp_key u \<noteq> '''' \<longrightarrow>
           le_totp_valid le (lr_totp r) (u_totp_key u) now 30 \<or> le_totp_valid le (lr_totp r) (u_totp_key u) now 120)
    else
      \<exists>k u. first_api_key err (lr_api_key_id r) mc = Inr (Some k) \<and> first_user err (ak_user k) mc = Inr (Some u) \<and>
        password_matches (le_users le) (lr_api_key r) (ak_hash k) (ak_salt k) (ak_iter k) = Inr True \<and>
        \<not> u_locked u \<and> (get_skip_verify_email (le_users le) err None mc \<or> u_email_verified u) \<and>
        cl_username c = lr_api_key_id r \<and> cl_auth c = Api_Key_Auth"
proof -
  obtain cfg where cfg: "get_config err mc = Inr cfg"
    using assms by (auto simp: login_def split: sum.splits)
  show ?thesis
  proof (cases "lr_api_key r \<noteq> '''' \<or> lr_api_key_id r \<noteq> ''''")
    case True
    obtain u where u: "api_key_login (le_users le) err r mc = Inr u"
      and l: "login_user le err now r u mc = (Logged_In c admin, mc')"
      using assms cfg True by (auto simp: login_def split: sum.splits)
    show ?thesis
      using u login_user_token[OF l] by (elim api_key_login_ok) auto
  next
    case False
    obtain u' mc1 where u': "password_login (le_users le) err now cfg r mc = (Inr u', mc1)"
      and l: "login_user le err now r u' mc1 = (Logged_In c admin, mc')"
      using assms cfg False by (auto simp: login_def split: sum.splits prod.splits)
    have "mc1 = mc \<or> mc1 = save_user_row u' mc"
      using u' by (auto simp: password_login_def save_user_login_def Let_def split: if_splits option.splits)
    then have "get_skip_verify_email (le_users le) err None mc1 = get_skip_verify_email (le_users le) err None mc"
      by (auto simp: get_skip_verify_email_def get_config_def save_user_row_def split: option.splits)
    then show ?thesis
      using u' login_user_token[OF l] cfg False by (elim password_login_ok) auto
  qed
qed

text \<open>
  Note (one-time passwords): a login with the right password and a wrong one-time password clears the
  count of failed logins, so guesses of one-time passwords are neither counted nor slowed down.
\<close>

theorem otp_guesses_are_not_counted:
  assumes "find_login_user err (lr_username r) mc = Some u" and "lr_username r \<noteq> ''''" "lr_password r \<noteq> ''''"
    and "get_config err mc = Inr cfg" and "check_login_locked now u cfg = None"
    and "password_matches (le_users le) (lr_password r) (u_passhash u) (u_salt u) (u_iter u) = Inr True"
    and "lr_api_key r = ''''" "lr_api_key_id r = ''''"
    and "u' = u\<lparr>u_failed_logins := 0, u_last_login := now\<rparr>"
  shows "login le err now r mc = login_user le err now r u' (save_user_login err u' mc)"
  using assms by (auto simp: login_def password_login_def Let_def)

definition demo_env_users :: user_env where
  "demo_env_users = \<lparr>ue_skip_verify = True, ue_valid_email = (\<lambda>e. CHR ''@'' \<in> set e), ue_guesses = (\<lambda>pw. 10 ^ length pw),
     ue_kdf = (\<lambda>pw salt n. pw @ salt), ue_encode = (\<lambda>b. b), ue_decode = (\<lambda>s. Inr s), ue_totp_key = (\<lambda>e. Inr ''K''),
     ue_send_verify = (\<lambda>_. None), ue_gitlab_create = (\<lambda>_. None), ue_artifactory_create = (\<lambda>_. None)\<rparr>"

definition demo_login_env :: login_env where
  "demo_login_env = \<lparr>le_users = demo_env_users, le_totp_code = (\<lambda>k t. Inr ''123456''),
     le_totp_valid = (\<lambda>code k t p. code = ''123456''), le_cookie_error = None\<rparr>"

definition demo_login_user :: user where
  "demo_login_user = (demo_user ''ann'')\<lparr>u_passhash := ''secretsalt'', u_enable_totp := True, u_totp_key := ''K'', u_pass_crack := 5\<rparr>"

definition demo_login_state :: mc where
  "demo_login_state = demo_state\<lparr>mc_users := [demo_login_user, demo_user ''zoe''],
     mc_api_keys := [\<lparr>ak_id = ''id'', ak_desc = '''', ak_org = ''acme'', ak_user = ''zoe'', ak_hash = ''keysalt'',
       ak_salt = ''salt'', ak_iter = 10000\<rparr>]\<rparr>"

definition demo_req :: "string \<Rightarrow> string \<Rightarrow> string \<Rightarrow> login_req" where
  "demo_req name pw code = \<lparr>lr_username = name, lr_password = pw, lr_totp = code, lr_api_key_id = '''', lr_api_key = ''''\<rparr>"

subsection \<open>Witnesses\<close>

lemma demo_lockout_ok: "lockout_ok demo_config"
  by (simp add: lockout_ok_def demo_config_def duration_secs_def int64_def bad_auth_delay_def)

theorem lockout_settings_stay_witness:
  "config_step demo_config demo_state (snd (reset_config no_err ''root'' demo_config demo_state)) \<and>
   lockout_ok (mc_config (snd (reset_config no_err ''root'' demo_config demo_state)))"
proof -
  have step: "config_step demo_config demo_state (snd (reset_config no_err ''root'' demo_config demo_state))"
    by (cases "reset_config no_err ''root'' demo_config demo_state") (auto intro: config_step.reset)
  show ?thesis
    using lockout_settings_stay[OF r_into_rtranclp[of "config_step demo_config", OF step] _ demo_lockout_ok] step
      demo_lockout_ok by (simp add: demo_state_def)
qed

definition demo_guesses :: "(int \<times> login_req) list" where
  "demo_guesses = [(10000000000, demo_req ''ann'' ''wrong'' ''''), (11000000000, demo_req ''ann'' ''guess'' ''''),
     (14000000000, demo_req ''ann'' ''other'' '''')]"

lemma demo_guesses_tried: "tried_times demo_login_env demo_guesses demo_login_state = [10000000000, 14000000000]"
  by code_simp

theorem password_guesses_are_slow_witness:
  "tried_times demo_login_env demo_guesses demo_login_state = [10000000000, 14000000000] \<and>
   lockout_duration demo_config 1 \<le> 14000000000 - 10000000000"
proof -
  have u: "find (\<lambda>u. citext_eq (u_name u) ''ann'') (mc_users demo_login_state) = Some demo_login_user"
    by (simp add: demo_login_state_def demo_login_user_def)
  have wrong: "\<forall>(now, r)\<in>set demo_guesses. lr_username r = ''ann'' \<and> lr_api_key r = '''' \<and> lr_api_key_id r = '''' \<and>
      password_matches (le_users demo_login_env) (lr_password r)
        (u_passhash demo_login_user) (u_salt demo_login_user) (u_iter demo_login_user) \<noteq> Inr True"
    by (simp add: demo_guesses_def demo_req_def password_matches_def demo_login_env_def demo_env_users_def
        demo_login_user_def demo_user_def)
  have cfg: "mc_config demo_login_state = demo_config" by (simp add: demo_login_state_def demo_state_def)
  show ?thesis
    using password_guesses_are_slow[OF u _ _ wrong] demo_lockout_ok demo_guesses_tried
    by (simp add: cfg demo_login_user_def demo_user_def)
qed

lemma demo_login: "fst (login demo_login_env no_err 0 (demo_req ''ann'' ''secret'' ''123456'') demo_login_state) =
    Logged_In (generate_cookie 0 demo_login_user '''') False"
  by code_simp

theorem login_token_is_earned_witness:
  "cl_username (generate_cookie 0 demo_login_user '''') = ''ann'' \<and>
   (\<exists>u. find_login_user no_err ''ann'' demo_login_state = Some u \<and> \<not> u_locked u \<and>
      (get_skip_verify_email demo_env_users no_err None demo_login_state \<or> u_email_verified u))"
proof -
  let ?r = "demo_req ''ann'' ''secret'' ''123456''"
  have "login demo_login_env no_err 0 ?r demo_login_state =
      (Logged_In (generate_cookie 0 demo_login_user '''') False, snd (login demo_login_env no_err 0 ?r demo_login_state))"
    using demo_login by (metis prod.collapse)
  from login_token_is_earned[OF this] show ?thesis
    by (auto simp: demo_req_def generate_cookie_def demo_login_user_def demo_user_def demo_login_env_def)
qed

text \<open>
  Note (strength by API key): a login with an API key may carry a password, which is not compared with
  anything; when the strength of the user's password was not measured yet, that of this password
  is written into the row of the user.
\<close>

theorem api_key_login_sets_strength:
  assumes "api_key_login (le_users le) err r mc = Inr u" and "get_config err mc = Inr cfg"
    and "lr_password r \<noteq> ''''" and "u_pass_crack u = 0" and "\<not> u_locked u" "u_email_verified u"
    and "is_user_admin err (u_name u) mc = Inr False" and "err (Call_Save ''users'' (u_name u)) = None"
  shows "snd (login le err now r mc) = save_user_row (calc_password_strength (le_users le) (lr_password r) u) mc"
proof -
  have "lr_api_key_id r \<noteq> ''''" using assms(1) by (elim api_key_login_ok)
  moreover have "login_strength (le_users le) err False r u mc =
      (Inr (calc_password_strength (le_users le) (lr_password r) u),
       save_user_row (calc_password_strength (le_users le) (lr_password r) u) mc)"
    using assms by (simp add: login_strength_def Let_def calc_password_strength_def)
  ultimately show ?thesis
    using assms by (simp add: login_def login_user_def split: option.splits)
qed

text \<open>
  Note (overflow of durations): the check for an overflow of the lock times is one for negative numbers; a time of
  584 years is multiplied to 3.3 seconds, and accepted.
\<close>

theorem lock_time_overflow_is_accepted:
  "check_config (demo_config\<lparr>cfg_lockout_time1 := 18446744077, cfg_lockout_time2 := 18446744077\<rparr>) = None \<and>
   duration_secs 18446744077 < 4 * duration_secs 1"
  by code_simp

end
