(* ===== verification/MC_User_Safety.thy ===== *)
theory MC_User_Safety
  imports MC_Login_Safety
begin

text \<open>
  What the calls on user accounts guarantee: deleting a user leaves managers and no roles, creating
  one leaves one account or none, and neither users nor other users can see or change what they
  should not.
\<close>

subsection \<open>Deleting a user\<close>

lemma manager_of_group:
  assumes "no_colon org" and "no_colon user"
  shows "manager_of [get_casbin_group org user, role] = (if is_manager_role role then Some (org, user) else None)"
  using assms split_group[of org user] strings_split_clean[of "''::''" user]
  by (auto simp: manager_of_def get_casbin_group_def Let_def)

lemma group_of_user_group:
  assumes "no_colon org" and "no_colon user" and "no_colon name"
  shows "group_of_user name [get_casbin_group org user, role] \<longleftrightarrow> user = name"
  using assms split_group[of org user] strings_split_clean[of "''::''" user]
  by (auto simp: group_of_user_def get_casbin_group_def Let_def)

lemma remove_user_groups_aux:
  assumes "remove_user_groups err name grps rules = (e, rules')"
    and "\<forall>g\<in>set grps. \<exists>a b. g = [a, b] \<and> a \<noteq> '''' \<and> b \<noteq> ''''"
  shows "(has_g rules' s role \<longrightarrow> has_g rules s role) \<and>
    (has_g rules s role \<longrightarrow> group_of_user name [s, role] \<or> has_g rules' s role) \<and>
    (e = None \<longrightarrow> has_g rules' s role \<longrightarrow> [s, role] \<in> set grps \<longrightarrow> \<not> group_of_user name [s, role])"
  using assms
proof (induction grps arbitrary: rules)
  case (Cons grp grps)
  obtain a b where g: "grp = [a, b]" "a \<noteq> ''''" "b \<noteq> ''''" using Cons.prems(2) by auto
  have wf: "\<forall>g\<in>set grps. \<exists>a b. g = [a, b] \<and> a \<noteq> '''' \<and> b \<noteq> ''''" using Cons.prems(2) by simp
  show ?case
  proof (cases "group_of_user name grp")
    case False
    then have "remove_user_groups err name grps rules = (e, rules')" using Cons.prems(1) by simp
    from Cons.IH[OF this wf] show ?thesis using g False by auto
  next
    case True
    obtain e1 rules1 where r: "enf_remove_grouping_policy err [a, b] rules = (e1, rules1)" by fastforce
    show ?thesis
    proof (cases e1)
      case None
      have del: "has_g rules1 s role \<longleftrightarrow> (s, role) \<noteq> (a, b) \<and> has_g rules s role"
        using has_g_del[OF g(2,3), of rules s role] enf_remove_is_del r None by simp
      have "remove_user_groups err name grps rules1 = (e, rules')"
        using Cons.prems(1) True None r g by simp
      from Cons.IH[OF this wf] show ?thesis using g True del by auto
    next
      case (Some x)
      then have "rules1 = rules"
        using r by (auto simp: enf_remove_grouping_policy_def remove_policy_def Let_def split: option.splits)
      then have "e = Some x" "rules' = rules" using Cons.prems(1) True Some r g by simp_all
      then show ?thesis by simp
    qed
  qed
qed auto

lemma remove_user_groups_has_g:
  assumes "remove_user_groups err name groups rules = (e, rules')" and "rules_ok rules"
    and "enf_get_grouping_policy err' rules = Inr groups" and "no_colon org" "no_colon user" "no_colon name"
  shows "has_g rules' (get_casbin_group org user) role \<Longrightarrow> has_g rules (get_casbin_group org user) role"
    and "has_g rules (get_casbin_group org user) role \<Longrightarrow> user \<noteq> name \<Longrightarrow> has_g rules' (get_casbin_group org user) role"
    and "e = None \<Longrightarrow> has_g rules' (get_casbin_group org user) role \<Longrightarrow> user \<noteq> name"
proof -
  let ?s = "get_casbin_group org user"
  note aux = remove_user_groups_aux[OF assms(1) groups_have_rows(2)[OF assms(2,3)], of ?s role]
    and row = groups_have_rows(1)[OF assms(2,3), of ?s role]
    and grp = group_of_user_group[OF assms(4-6), of role]
  show "has_g rules' ?s role \<Longrightarrow> has_g rules ?s role"
    and "has_g rules ?s role \<Longrightarrow> user \<noteq> name \<Longrightarrow> has_g rules' ?s role"
    and "e = None \<Longrightarrow> has_g rules' ?s role \<Longrightarrow> user \<noteq> name"
    using aux row grp by auto
qed

lemma delete_user_cases:
  assumes "delete_user superuser err caller name mc = (e, mc', ev)"
  obtains "e \<noteq> None" "mc' = mc"
  | groups x rules where "enf_get_grouping_policy err (mc_rules mc) = Inr groups" "check_last_managers name groups = None"
      "remove_user_groups err name groups (mc_rules mc) = (x, rules)" "mc_rules mc' = rules" "mc_orgs mc' = mc_orgs mc"
      "name \<noteq> ''''" "name \<noteq> superuser" "name \<noteq> caller \<longrightarrow> authorized err caller '''' ''users'' ''manage'' [] mc = None"
      "e = None \<longrightarrow> x = None \<and> mc_users mc' = filter (\<lambda>u. \<not> citext_eq (u_name u) name) (mc_users mc)"
      "e \<noteq> None \<longrightarrow> mc_users mc' = mc_users mc"
proof (cases "name = '''' \<or> (name \<noteq> caller \<and> authorized err caller '''' ''users'' ''manage'' [] mc \<noteq> None) \<or> name = superuser \<or>
    (\<exists>x. enf_get_grouping_policy err (mc_rules mc) = Inl x) \<or>
    (\<exists>groups. enf_get_grouping_policy err (mc_rules mc) = Inr groups \<and> check_last_managers name groups \<noteq> None)")
  case True
  then have "e \<noteq> None \<and> mc' = mc"
    using assms by (auto simp: delete_user_def split: option.splits if_splits sum.splits dest!: sym[of "Some _"])
  then show ?thesis using that(1) by blast
next
  case False
  then obtain groups where g: "enf_get_grouping_policy err (mc_rules mc) = Inr groups" "check_last_managers name groups = None"
    by (cases "enf_get_grouping_policy err (mc_rules mc)") auto
  obtain x rules where r: "remove_user_groups err name groups (mc_rules mc) = (x, rules)" by fastforce
  show ?thesis
    using assms False g r
    by (intro that(2)[OF g r]) (auto simp: delete_user_def delete_user_row_def Let_def split: option.splits if_splits)
qed

lemma last_managers_two:
  assumes "check_last_managers name groups = None" and "(org, name) \<in> set (List.map_filter manager_of groups)"
  shows "2 \<le> manager_count org groups"
  using assms by (auto simp: check_last_managers_def)

text \<open>A row of the table that gives a manager role in an organization.\<close>

lemma manager_row:
  assumes "rules_ok rules" and "r \<in> set rules" "r_ptype r = ''g''"
  shows "\<exists>o' u. no_colon o' \<and> no_colon u \<and> u \<noteq> '''' \<and> r_v0 r = get_casbin_group o' u \<and> (is_admin_role (r_v1 r) \<longleftrightarrow> o' = '''') \<and>
    manager_of [r_v0 r, r_v1 r] = (if is_manager_role (r_v1 r) then Some (o', u) else None) \<and>
    r = get_casbin_rule ''g'' [r_v0 r, r_v1 r]"
proof -
  have "group_row r" using assms by (auto simp: rules_ok_def)
  then show ?thesis using manager_of_group unfolding group_row_def by metis
qed

lemma other_manager:
  assumes "check_last_managers name groups = None" and ok: "rules_ok (mc_rules mc)"
    and g: "enf_get_grouping_policy err (mc_rules mc) = Inr groups"
    and "no_colon org" "no_colon name" "is_manager_role role" "has_role mc org name role"
    and one: "\<And>role'. is_manager_role role' \<Longrightarrow> has_role mc org name role' \<Longrightarrow> role' = role"
  obtains u role' where "no_colon u" "u \<noteq> name" "is_manager_role role'" "has_role mc org u role'"
proof -
  let ?P = "\<lambda>(o', u). o' = org"
  let ?rows = "filter (\<lambda>row. r_ptype row = ''g'' \<and>
      (case manager_of [r_v0 row, r_v1 row] of None \<Rightarrow> False | Some x \<Rightarrow> ?P x)) (mc_rules mc)"
  have "length ?rows = manager_count org groups"
    unfolding manager_count_def length_map_filter groups_of_rules[OF ok g]
    by (simp add: filter_map comp_def conj_commute)
  also have "2 \<le> manager_count org groups"
  proof (rule last_managers_two[OF assms(1)])
    have "[get_casbin_group org name, role] \<in> set groups"
      using groups_have_rows(1)[OF ok g] assms(7) by (simp add: has_role_def)
    then show "(org, name) \<in> set (List.map_filter manager_of groups)"
      using manager_of_group[OF assms(4,5), of role] assms(6)
      by (force simp: List.map_filter_def)
  qed
  finally have two: "2 \<le> length ?rows" .
  have "distinct ?rows" using ok by (simp add: rules_ok_def)
  then obtain row where row: "row \<in> set ?rows" "row \<noteq> get_casbin_rule ''g'' [get_casbin_group org name, role]"
    using two by (rule two_in_list)
  have "row \<in> set (mc_rules mc)" "r_ptype row = ''g''" using row(1) by auto
  from manager_row[OF ok this] obtain o' u where ou: "no_colon o'" "no_colon u" "r_v0 row = get_casbin_group o' u"
      "manager_of [r_v0 row, r_v1 row] = (if is_manager_role (r_v1 row) then Some (o', u) else None)"
      "row = get_casbin_rule ''g'' [r_v0 row, r_v1 row]" by blast
  then have m: "is_manager_role (r_v1 row)" "o' = org" using row(1) by (auto split: if_splits)
  have h: "has_role mc org u (r_v1 row)"
    using row(1) ou(3) m(2) by (auto simp: has_role_def has_g_def)
  have "u \<noteq> name"
  proof
    assume "u = name"
    then have "r_v1 row = role" using one m(1) h by blast
    then show False using row(2) ou(3,5) m(2) \<open>u = name\<close> by metis
  qed
  then show ?thesis using that[OF ou(2) _ m(1) h] by blast
qed

text \<open>
  C28 (deleting users keeps managers): whatever user is deleted, by whomever, and whatever calls of the
  database fail on the way, the table of roles still has a manager of every organization that had one,
  and an AdminManager if there was one.  The rows of the table are as \<open>access_ok\<close> says, and the user
  has not two different manager roles in that organization.  This is about roles and not about
  accounts: an account deleted under another spelling of its name leaves its roles behind (Note
  delete\_by\_other\_spelling), and counts on as a manager.
\<close>

theorem delete_user_keeps_managers:
  assumes "delete_user superuser err caller name mc = (e, mc', ev)" and "access_ok mc"
    and "org \<noteq> '''' \<Longrightarrow> (\<And>r r'. is_manager_role r \<Longrightarrow> is_manager_role r' \<Longrightarrow>
           has_role mc org name r \<Longrightarrow> has_role mc org name r' \<Longrightarrow> r = r')"
    and "no_colon name" and "no_colon org" and "no_colon user" and "is_manager_role role" and "has_role mc org user role"
  shows "\<exists>u role'. no_colon u \<and> is_manager_role role' \<and> has_role mc' org u role'"
  using assms(1)
proof (cases rule: delete_user_cases)
  case 1
  then show ?thesis using assms(6-8) by blast
next
  case (2 groups x rules)
  have ok: "rules_ok (mc_rules mc)" using assms(2) by (simp add: access_ok_def)
  have kept: "has_role mc org u r \<Longrightarrow> no_colon u \<Longrightarrow> u \<noteq> name \<Longrightarrow> has_role mc' org u r" for u r
    using remove_user_groups_has_g(2)[OF 2(3) ok 2(1) assms(5) _ assms(4)] 2(4) by (simp add: has_role_def)
  show ?thesis
  proof (cases "user = name")
    case False
    then show ?thesis using kept[OF assms(8,6)] assms(6,7) by blast
  next
    case True
    have one: "role' = role" if "is_manager_role role'" "has_role mc org name role'" for role'
    proof (cases "org = ''''")
      case False
      then show ?thesis
        using assms(3)[OF False that(1) assms(7) that(2)] assms(8) True by blast
    next
      case org: True
      have admin: "is_admin_role r" if r: "has_role mc org name r" for r
      proof -
        have "has_g (mc_rules mc) name r" using r org by (simp add: has_role_def)
        from has_g_row(2)[OF ok this] obtain o' u where
          ou: "name = get_casbin_group o' u" "is_admin_role r \<longleftrightarrow> o' = ''''" by blast
        have "o' = ''''"
        proof (rule ccontr)
          assume "o' \<noteq> ''''"
          then show False using assms(4) unfolding ou(1) by (simp add: get_casbin_group_def)
        qed
        then show ?thesis using ou(2) by simp
      qed
      have "role' = ''AdminManager''" if "is_admin_role role'" "is_manager_role role'" for role'
        using that unfolding is_manager_role_def is_admin_role_def by auto
      then show ?thesis using admin that assms(7,8) True by metis
    qed
    obtain u role' where "no_colon u" "u \<noteq> name" "is_manager_role role'" "has_role mc org u role'"
      using other_manager[OF 2(2) ok 2(1) assms(5,4,7) _ one] assms(8) True by blast
    then show ?thesis using kept by blast
  qed
qed

text \<open>
  Note (deleted users have no roles): a successful deletion was asked for by the user or by someone who
  manages all users, is not of the superuser, removes the account and exactly the roles of that
  user, in every organization.
\<close>

theorem delete_user_clears_roles:
  assumes "delete_user superuser err caller name mc = (None, mc', ev)" and "access_ok mc"
    and "no_colon name" and "no_colon org" and "no_colon user"
  shows "(name = caller \<or> authorized err caller '''' ''users'' ''manage'' [] mc = None) \<and> name \<noteq> superuser \<and>
    (\<forall>u\<in>set (mc_users mc'). \<not> citext_eq (u_name u) name) \<and>
    (has_role mc' org user role \<longleftrightarrow> user \<noteq> name \<and> has_role mc org user role)"
  using assms(1)
proof (cases rule: delete_user_cases)
  case (2 groups x rules)
  have ok: "rules_ok (mc_rules mc)" using assms(2) by (simp add: access_ok_def)
  note has = remove_user_groups_has_g[OF 2(3) ok 2(1) assms(4,5,3), of role]
  have "has_role mc' org user role \<longleftrightarrow> user \<noteq> name \<and> has_role mc org user role"
    using has 2(4,9) by (auto simp: has_role_def)
  then show ?thesis using 2(7-9) by auto
qed simp

text \<open>
  Note (deletion by another spelling): names of users ignore case in the table of users and not in the
  roles.  The only AdminManager, asking to delete itself in another spelling, passes the check for
  the last manager; its account is deleted and its role stays.
\<close>

definition demo_root_state :: mc where
  "demo_root_state = demo_state\<lparr>mc_users := [demo_user ''root''],
     mc_rules := map (get_casbin_rule ''p'') [[''AdminManager'', ''users'', ''manage'']] @
       [get_casbin_rule ''g'' [''root'', ''AdminManager'']]\<rparr>"

theorem delete_by_other_spelling:
  "let (e, mc, ev) = delete_user ''mexadmin'' no_err ''root'' ''Root'' demo_root_state;
       (e', mc', ev') = delete_user ''mexadmin'' no_err ''root'' ''root'' demo_root_state
   in e = None \<and> mc_users mc = [] \<and> mc_rules mc = mc_rules demo_root_state \<and> e' \<noteq> None"
  by code_simp

subsection \<open>The table of users\<close>

text \<open>Names are unique without case, and addresses are unique.\<close>

definition users_ok :: "mc \<Rightarrow> bool" where
  "users_ok mc \<longleftrightarrow> sorted_wrt (\<lambda>a b. \<not> citext_eq (u_name a) (u_name b) \<and> u_email a \<noteq> u_email b) (mc_users mc)"

lemma users_ok_same:
  "users_ok mc \<Longrightarrow> u \<in> set (mc_users mc) \<Longrightarrow> x \<in> set (mc_users mc) \<Longrightarrow> citext_eq (u_name x) (u_name u) \<Longrightarrow> x = u"
  using sorted_wrt_pairs[of "\<lambda>a b. \<not> citext_eq (u_name a) (u_name b) \<and> u_email a \<noteq> u_email b" "mc_users mc" x u]
    citext_eq_sym[of "u_name x" "u_name u"] by (auto simp: users_ok_def)

lemma save_back:
  assumes "users_ok mc" and "old \<in> set (mc_users mc)" and "u_name u = u_name old"
  shows "save_user_row old (save_user_row u mc) = mc"
proof -
  have "map (\<lambda>x. if citext_eq (u_name x) (u_name old) then old else x)
      (map (\<lambda>x. if citext_eq (u_name x) (u_name u) then u else x) (mc_users mc)) = mc_users mc"
    unfolding map_map by (rule map_idI) (use assms users_ok_same[OF assms(1,2)] in auto)
  then show ?thesis by (simp add: save_user_row_def)
qed




subsection \<open>Creating a user\<close>


subsection \<open>Updating a user\<close>

lemma check_fixed_fields_ok:
  "check_fixed_fields old u = None \<Longrightarrow> u_name u = u_name old \<and> u_email_verified u = u_email_verified old \<and>
     u_passhash u = u_passhash old \<and> u_salt u = u_salt old \<and> u_iter u = u_iter old \<and> u_locked u = u_locked old \<and>
     u_pass_crack u = u_pass_crack old"
  by (auto simp: check_fixed_fields_def)

lemma update_email_ok:
  "update_email ue err v old u mc = Inr (sv, u1) \<Longrightarrow>
     u1 = (if u_email old = u_email u then u else u\<lparr>u_email_verified := False\<rparr>)"
  by (auto simp: update_email_def Let_def split: if_splits sum.splits)

lemma update_totp_ok:
  "update_totp ue old u = Inr u2 \<Longrightarrow> \<exists>k. u2 = u\<lparr>u_totp_key := k\<rparr>"
  by (auto simp: update_totp_def split: if_splits sum.splits intro: exI[of _ "u_totp_key u"])

lemma save_updated_ok:
  "save_updated_user err u mc = (None, mc') \<Longrightarrow> mc' = save_user_row u mc \<and>
     (\<forall>x\<in>set (mc_users mc). \<not> citext_eq (u_name x) (u_name u) \<longrightarrow> u_email x \<noteq> u_email u)"
  by (auto simp: save_updated_user_def list_ex_iff split: option.splits if_splits)

lemma save_updated_back:
  assumes "save_updated_user err u mc = (None, mc1)" and "users_ok mc" and "old \<in> set (mc_users mc)" and "u_name u = u_name old"
  shows "snd (save_updated_user err old mc1) = mc"
proof -
  have mc1: "mc1 = save_user_row u mc" and save: "err (Call_Save ''users'' (u_name old)) = None"
    using assms(1,4) by (auto simp: save_updated_user_def split: option.splits if_splits)
  have "\<not> list_ex (\<lambda>x. \<not> citext_eq (u_name x) (u_name old) \<and> u_email x = u_email old) (mc_users mc1)"
  proof -
    have "\<forall>x\<in>set (mc_users mc). \<not> citext_eq (u_name x) (u_name old) \<longrightarrow> u_email x \<noteq> u_email old"
    proof (intro ballI impI)
      fix x assume x: "x \<in> set (mc_users mc)" "\<not> citext_eq (u_name x) (u_name old)"
      then have "x \<noteq> old" by auto
      then show "u_email x \<noteq> u_email old"
        using sorted_wrt_pairs[OF assms(2)[unfolded users_ok_def] x(1) assms(3)] by auto
    qed
    then show ?thesis using assms(4) by (auto simp: list_ex_iff mc1 save_user_row_def)
  qed
  then show ?thesis
    using save_back[OF assms(2-4)] save by (simp add: save_updated_user_def mc1)
qed

text \<open>
  Note (updating users): a user that updates the own account cannot change the name, the password, the
  lock or the strength, a changed address is not verified, and nobody else's row changes; when the
  call fails, also because the mail cannot be sent, everything is as it was.
\<close>

theorem update_user_outcome:
  assumes "update_user ue err caller body v send mc = (e, mc')" and "users_ok mc"
    and "first_user err caller mc = Inr (Some old)"
  shows "if e \<noteq> None then mc' = mc
    else \<exists>u. mc' = save_user_row u mc \<and> u_name u = u_name old \<and> u_passhash u = u_passhash old \<and> u_salt u = u_salt old \<and>
      u_iter u = u_iter old \<and> u_locked u = u_locked old \<and> u_pass_crack u = u_pass_crack old \<and>
      (u_email_verified u \<longleftrightarrow> u_email_verified old \<and> u_email u = u_email old)"
proof -
  have in_table: "old \<in> set (mc_users mc)"
    using assms(3) by (auto simp: first_user_def find_Some_iff split: option.splits)
  have upd: "update_old_user ue err old body v send mc = (e, mc')"
    using assms(1,3) by (simp add: update_user_def)
  show ?thesis
  proof (cases "\<exists>f u1 sv u2. body = Inr f \<and> check_fixed_fields old (f old) = None \<and>
      update_email ue err v old (f old) mc = Inr (sv, u1) \<and> update_totp ue old u1 = Inr u2")
    case False
    then have "e \<noteq> None \<and> mc' = mc"
      using upd by (auto simp: update_old_user_def Let_def split: sum.splits option.splits prod.splits dest!: sym[of "Some _"])
    then show ?thesis by simp
  next
    case True
    then obtain f u1 sv u2 where b: "body = Inr f" "check_fixed_fields old (f old) = None"
      "update_email ue err v old (f old) mc = Inr (sv, u1)" "update_totp ue old u1 = Inr u2" by blast
    obtain k where u2: "u2 = (if u_email old = u_email (f old) then f old else (f old)\<lparr>u_email_verified := False\<rparr>)\<lparr>u_totp_key := k\<rparr>"
      using update_totp_ok[OF b(4)] update_email_ok[OF b(3)] by blast
    have fields: "u_name u2 = u_name old \<and> u_passhash u2 = u_passhash old \<and> u_salt u2 = u_salt old \<and>
        u_iter u2 = u_iter old \<and> u_locked u2 = u_locked old \<and> u_pass_crack u2 = u_pass_crack old \<and>
        (u_email_verified u2 \<longleftrightarrow> u_email_verified old \<and> u_email u2 = u_email old)"
      using check_fixed_fields_ok[OF b(2)] by (auto simp: u2)
    obtain e1 mc1 where s: "save_updated_user err u2 mc = (e1, mc1)" by fastforce
    show ?thesis
    proof (cases e1)
      case (Some x)
      have "mc1 = mc" using s Some by (auto simp: save_updated_user_def split: option.splits if_splits)
      then show ?thesis using upd b s Some by (auto simp: update_old_user_def)
    next
      case None
      then have s': "save_updated_user err u2 mc = (None, mc1)" using s by simp
      have "e = None \<and> mc' = mc1 \<or> e \<noteq> None \<and> mc' = mc"
        using upd b s' save_updated_back[OF s' assms(2) in_table] fields
        by (auto simp: update_old_user_def Let_def split: if_splits)
      then show ?thesis using save_updated_ok[OF s'] fields by auto
    qed
  qed
qed

text \<open>
  Note (blank rows): when the lookup of \<open>UpdateUser\<close> fails for another reason than a missing row, the
  call goes on with an empty row and writes it over the account: its password is gone.
\<close>

theorem update_after_failed_lookup_blanks:
  "let err = (\<lambda>c. if c = Call_User ''ann'' then Some ''timeout'' else None);
       (e, mc') = update_user demo_env_users err ''ann'' (Inr (\<lambda>u. u)) True None demo_state
   in e = None \<and> find (\<lambda>u. u_name u = ''ann'') (mc_users mc') = Some (blank_user ''ann'')"
  by code_simp

text \<open>
  Note (keys of one-time passwords): the column of the key is read-only by its comment, and \<open>UpdateUser\<close> does not
  check it: a user sets it to a value of his choice.
\<close>

theorem totp_key_can_be_set:
  "map_option u_totp_key (find (\<lambda>u. u_name u = ''ann'')
     (mc_users (snd (update_user demo_env_users no_err ''ann'' (Inr (u_totp_key_update (\<lambda>_. ''mine''))) True None demo_state)))) =
   Some ''mine''"
  by code_simp

subsection \<open>Showing users\<close>

lemma allowed_users_have_role:
  assumes "rules_ok (mc_rules mc)" and "enf_get_grouping_policy err (mc_rules mc) = Inr groups"
    and "n \<in> set (allowed_users auth_orgs flt_org flt_role groups)"
  obtains org role where "no_colon org" "has_role mc org n role"
    "if flt_org = '''' then '''' \<in> set auth_orgs \<or> org \<in> set auth_orgs else org = flt_org"
proof -
  obtain r where r: "r \<in> set (List.map_filter parse_role groups)" "n = ro_user r" "flt_org \<noteq> '''' \<Longrightarrow> flt_org = ro_org r"
      "flt_org = '''' \<Longrightarrow> '''' \<in> set auth_orgs \<or> ro_org r \<in> set auth_orgs"
    using assms(3) unfolding allowed_users_def by auto
  then obtain g where g: "g \<in> set groups" "parse_role g = Some r"
    by (auto simp: List.map_filter_def)
  obtain row where row: "row \<in> set (mc_rules mc)" "r_ptype row = ''g''" "g = [r_v0 row, r_v1 row]"
    using g(1) unfolding groups_of_rules[OF assms(1,2)] by auto
  from manager_row[OF assms(1) row(1,2)] obtain o' u where ou: "no_colon o'" "no_colon u" "r_v0 row = get_casbin_group o' u"
      "row = get_casbin_rule ''g'' [r_v0 row, r_v1 row]" by blast
  have "r = \<lparr>ro_org = o', ro_user = u, ro_role = r_v1 row\<rparr>"
    using g(2) row(3) ou(1,2,3) by (simp add: parse_role_group)
  moreover have "has_role mc o' u (r_v1 row)"
    unfolding has_role_def has_g_def using row(1,2) ou(3) by blast
  ultimately show ?thesis using that[OF ou(1), of "r_v1 row"] r(2-4) by auto
qed

text \<open>
  Note (who sees whom): no answer of \<open>ShowUser\<close> holds a password hash, a salt or a one-time key.
  To a caller who may not view all users it shows only users with a role in an organization whose
  users the caller may view, and of the others neither address nor lock nor strength.
\<close>

theorem show_user_hides:
  assumes "show_user err caller flt_org flt_role flt mc = Inr us" and "rules_ok (mc_rules mc)"
    and "no_colon caller" and "no_colon flt_org" and "u \<in> set us"
  shows "u_passhash u = '''' \<and> u_salt u = '''' \<and> u_totp_key u = '''' \<and>
    (\<exists>x\<in>set (mc_users mc). flt x \<and> u_name x = u_name u) \<and>
    (granted (mc_rules mc) caller ''users'' ''view'' \<or> granted (mc_rules mc) (''::'' @ caller) ''users'' ''view'' \<or>
     (u_name u \<noteq> caller \<longrightarrow> u_email u = '''' \<and> \<not> u_locked u \<and> u_pass_crack u = 0 \<and> u_metadata u = '''') \<and>
     (\<exists>org role. no_colon org \<and> has_role mc org (u_name u) role \<and>
        granted (mc_rules mc) (get_casbin_group org caller) ''users'' ''view''))"
proof -
  obtain auth_orgs where a: "get_authorized_orgs err caller ''users'' ''view'' (mc_rules mc) = Inr auth_orgs"
    using assms(1) by (auto simp: show_user_def split: sum.splits)
  note iff = get_authorized_orgs_iff[OF a assms(3)]
  let ?admin = "'''' \<in> set auth_orgs"
  let ?hide = "\<lambda>u. if \<not> ?admin \<and> u_name u \<noteq> caller then hide_private (hide_auth u) else hide_auth u"
  from assms(1,5) a obtain x where x: "x \<in> set (mc_users mc)" "flt x" "u = ?hide x"
    and org: "flt_org \<noteq> '''' \<and> \<not> ?admin \<longrightarrow> flt_org \<in> set auth_orgs"
    and listed: "\<not> ?admin \<longrightarrow> (\<exists>groups. enf_get_grouping_policy err (mc_rules mc) = Inr groups \<and>
        u_name x \<in> set (allowed_users auth_orgs flt_org flt_role groups))"
    by (auto simp: show_user_def Let_def split: if_splits sum.splits option.splits)
  have name: "u_name x = u_name u" using x(3) by (auto simp: hide_private_def hide_auth_def)
  have hidden: "u_passhash u = '''' \<and> u_salt u = '''' \<and> u_totp_key u = '''' \<and>
      (?admin \<or> u_name u = caller \<or> u_email u = '''' \<and> \<not> u_locked u \<and> u_pass_crack u = 0 \<and> u_metadata u = '''')"
  proof -
    have "u = hide_auth x \<and> (?admin \<or> u_name x = caller) \<or> u = hide_private (hide_auth x)"
      using x(3) by (simp split: if_splits)
    then show ?thesis by (elim disjE) (auto simp: hide_private_def hide_auth_def)
  qed
  show ?thesis
  proof (cases ?admin)
    case True
    then show ?thesis using iff[of "''''"] hidden x(1,2) name by auto
  next
    case False
    then obtain groups where gr: "enf_get_grouping_policy err (mc_rules mc) = Inr groups"
      "u_name x \<in> set (allowed_users auth_orgs flt_org flt_role groups)" using listed by blast
    obtain o' role where o': "no_colon o'" "has_role mc o' (u_name x) role"
      "if flt_org = '''' then ?admin \<or> o' \<in> set auth_orgs else o' = flt_org"
      by (rule allowed_users_have_role[OF assms(2) gr])
    have "o' \<in> set auth_orgs" "o' \<noteq> ''''" using o'(3) org False by (auto split: if_splits)
    then have "granted (mc_rules mc) (get_casbin_group o' caller) ''users'' ''view''"
      using iff[OF o'(1)] by (simp add: get_casbin_group_def)
    then show ?thesis using o'(1,2) hidden False x(1,2) name by auto
  qed
qed

subsection \<open>Witnesses\<close>

theorem delete_user_keeps_managers_witness:
  "let (e, mc', ev) = delete_user ''mexadmin'' no_err ''ann'' ''ann'' demo_state
   in e = None \<and> (\<exists>u role'. no_colon u \<and> is_manager_role role' \<and> has_role mc' ''acme'' u role')"
proof -
  obtain e mc' ev where d: "delete_user ''mexadmin'' no_err ''ann'' ''ann'' demo_state = (e, mc', ev)"
    by (rule prod_cases3)
  have "fst (delete_user ''mexadmin'' no_err ''ann'' ''ann'' demo_state) = None" by code_simp
  moreover have "\<exists>u role'. no_colon u \<and> is_manager_role role' \<and> has_role mc' ''acme'' u role'"
    by (rule delete_user_keeps_managers[OF d demo_state_ok _ _ _ _ _ demo_ann])
      (use org_roles_okD(2)[OF demo_roles_ok, of "''acme''" "''ann''"] in \<open>auto simp: is_manager_role_def\<close>)
  ultimately show ?thesis using d by simp
qed

theorem delete_user_clears_roles_witness:
  "\<exists>mc' ev. delete_user ''mexadmin'' no_err ''ann'' ''ann'' demo_state = (None, mc', ev) \<and>
     (\<forall>u\<in>set (mc_users mc'). \<not> citext_eq (u_name u) ''ann'') \<and> \<not> has_role mc' ''acme'' ''ann'' ''DeveloperManager''"
proof -
  have "fst (delete_user ''mexadmin'' no_err ''ann'' ''ann'' demo_state) = None" by code_simp
  then obtain mc' ev where d: "delete_user ''mexadmin'' no_err ''ann'' ''ann'' demo_state = (None, mc', ev)"
    by (cases "delete_user ''mexadmin'' no_err ''ann'' ''ann'' demo_state") auto
  then show ?thesis
    using delete_user_clears_roles[OF d demo_state_ok, of "''acme''" "''ann''" "''DeveloperManager''"] by simp
qed

lemma demo_users_ok: "users_ok demo_state"
  unfolding users_ok_def by code_simp



theorem update_user_outcome_witness:
  "let body = Inr (u_email_update (\<lambda>_. ''ann@new.net''));
       (e, mc') = update_user demo_env_users no_err ''ann'' body True None demo_state
   in e = None \<and> (\<exists>u. mc' = save_user_row u demo_state \<and> u_name u = ''ann'' \<and> u_passhash u = ''hash'' \<and>
     (u_email_verified u \<longleftrightarrow> u_email u = ''ann@dev.net''))"
proof -
  let ?body = "Inr (u_email_update (\<lambda>_. ''ann@new.net''))"
  obtain e mc' where u: "update_user demo_env_users no_err ''ann'' ?body True None demo_state = (e, mc')" by fastforce
  have "fst (update_user demo_env_users no_err ''ann'' ?body True None demo_state) = None" by code_simp
  moreover have "first_user no_err ''ann'' demo_state = Inr (Some (demo_user ''ann''))" by code_simp
  ultimately show ?thesis
    using update_user_outcome[OF u demo_users_ok] u by (auto simp: demo_user_def)
qed

theorem show_user_hides_witness:
  "\<exists>us. show_user no_err ''ann'' '''' '''' (\<lambda>_. True) (demo_state\<lparr>mc_rules := mc_rules demo_state @
       [get_casbin_rule ''p'' [''DeveloperManager'', ''users'', ''view'']]\<rparr>) = Inr us \<and>
     map u_name us = [''ann'', ''mallory''] \<and> (\<forall>u\<in>set us. u_passhash u = '''' \<and> u_salt u = '''')"
proof -
  let ?mc = "demo_state\<lparr>mc_rules := mc_rules demo_state @ [get_casbin_rule ''p'' [''DeveloperManager'', ''users'', ''view'']]\<rparr>"
  have "map_sum id (map u_name) (show_user no_err ''ann'' '''' '''' (\<lambda>_. True) ?mc) = Inr [''ann'', ''mallory'']"
    by code_simp
  then obtain us where s: "show_user no_err ''ann'' '''' '''' (\<lambda>_. True) ?mc = Inr us" "map u_name us = [''ann'', ''mallory'']"
    by (cases "show_user no_err ''ann'' '''' '''' (\<lambda>_. True) ?mc") auto
  have "distinct (mc_rules ?mc)" by code_simp
  then have "rules_ok (mc_rules ?mc)"
    using demo_state_ok by (auto simp: access_ok_def rules_ok_def get_casbin_rule_def)
  then show ?thesis using show_user_hides[OF s(1)] s by auto
qed

end
