(* ===== verification/MC_ApiKeys.thy ===== *)
theory MC_ApiKeys
  imports MC_User_Safety
begin

text \<open>
  API keys of users: \<open>CreateUserApiKey\<close>, \<open>DeleteUserApiKey\<close> and \<open>ShowUserApiKey\<close> of \<open>src/mc/orm/user.go\<close>.
  A key is a subject of its own in the table of rules, with a role that is its own too.  The
  identifier, the key and the salt, which the code draws at random, are arguments.
\<close>

subsection \<open>Operations\<close>

record key_request =
  kr_org :: string
  kr_desc :: string
  kr_perms :: "(string \<times> string) list"   \<comment> \<open>resource and action\<close>

text \<open>
  The loop over the permissions: the answer is a permission that is refused; the error of the
  database and the rules are threaded through as by \<open>addPolicy\<close>.  The lists in the messages are left out.
\<close>

fun add_key_perms :: "db_err \<Rightarrow> string \<Rightarrow> (string \<times> string) list \<Rightarrow> (string \<times> string) list \<Rightarrow>
    string option \<times> casbin_rule list \<Rightarrow> mc_err option \<times> string option \<times> casbin_rule list" where
  "add_key_perms err role valid [] st = (None, st)"
| "add_key_perms err role valid ((obj, act) # ps) st =
     (if act \<noteq> ''view'' \<and> act \<noteq> ''manage'' then (Some (Err (''Invalid action '' @ act)), st)
      else if (obj, act) \<notin> set valid
      then (Some (Err (''Invalid permission specified: ['' @ obj @ '':'' @ act @ '']'')), st)
      else
        let st1 = role_add_policy err [role, obj, act] st;
            st2 = (if act = ''manage'' then role_add_policy err [role, obj, ''view''] st1 else st1) in
        add_key_perms err role valid ps st2)"

text \<open>Both errors of the clean-up are ignored.\<close>

definition cleanup_policies :: "db_err \<Rightarrow> string \<Rightarrow> string \<Rightarrow> casbin_rule list \<Rightarrow> casbin_rule list" where
  "cleanup_policies err role psub rules =
     snd (enf_remove_grouping_policy err [psub, role] (snd (enf_remove_policy err [role] rules)))"

definition create_key_checks :: "db_err \<Rightarrow> string \<Rightarrow> claims \<Rightarrow> key_request \<Rightarrow> mc \<Rightarrow> mc_err + (string \<times> string) list" where
  "create_key_checks err superuser cl req mc =
     (if cl_auth cl = Api_Key_Auth then Inl (Err ''ApiKey auth not allowed to create API keys, please log in with user account'')
      else case get_config err mc of
          Inl e \<Rightarrow> Inl (Err e)
        | Inr c \<Rightarrow>
         (case err (Call_Table ''user_api_keys'') of
            Some e \<Rightarrow> Inl (db_error e)
          | None \<Rightarrow>
             if cfg_api_key_limit c \<le> int (length (filter (\<lambda>k. cl_username cl = '''' \<or> ak_user k = cl_username cl) (mc_api_keys mc)))
             then Inl (Err (''User cannot create more than '' @ strconv_itoa (cfg_api_key_limit c) @
               '' API keys, please delete existing keys to create new one''))
             else if kr_perms req = [] then Inl (Err ''No permissions for specified org'')
             else case first_org err (kr_org req) mc of
                 Inl e \<Rightarrow> Inl (db_error e)
               | Inr None \<Rightarrow> Inl (Err ''Invalid org specified'')
               | Inr (Some _) \<Rightarrow>
                   let lookup_org = (if cl_username cl = superuser then '''' else kr_org req) in
                   map_sum Err id (get_permissions err (cl_username cl) lookup_org (mc_rules mc))))"

definition new_key_row :: "user_env \<Rightarrow> string \<Rightarrow> string \<Rightarrow> string \<Rightarrow> claims \<Rightarrow> key_request \<Rightarrow> api_key" where
  "new_key_row ue saltb key_id key cl req =
     (let (h, s, n) = new_passhash ue saltb key in
      \<lparr>ak_id = key_id, ak_desc = kr_desc req, ak_org = kr_org req, ak_user = cl_username cl,
       ak_hash = h, ak_salt = s, ak_iter = n\<rparr>)"

definition create_user_api_key :: "user_env \<Rightarrow> db_err \<Rightarrow> string \<Rightarrow> string \<Rightarrow> string \<Rightarrow> string \<Rightarrow> claims \<Rightarrow> key_request \<Rightarrow> mc \<Rightarrow>
    (mc_err + string \<times> string) \<times> mc" where
  "create_user_api_key ue err superuser saltb key_id key cl req mc =
     (case create_key_checks err superuser cl req mc of
        Inl e \<Rightarrow> (Inl e, mc)
      | Inr valid \<Rightarrow>
          let role = get_api_key_role_name key_id; psub = get_casbin_group (kr_org req) key_id;
              cleaned = (\<lambda>rules. mc\<lparr>mc_rules := cleanup_policies err role psub rules\<rparr>);
              (refused, policy_err, rules) = add_key_perms err role valid (kr_perms req) (None, mc_rules mc) in
          (case first_fail [refused, map_option db_error policy_err] of
             Some e \<Rightarrow> (Inl e, cleaned rules)
           | None \<Rightarrow>
               let (group_err, rules1) = enf_add_grouping_policy err [psub, role] rules;
                   row = new_key_row ue saltb key_id key cl req in
               (case first_fail [group_err, err (Call_Create ''user_api_keys'' key_id),
                      fail_if (list_ex (\<lambda>k. citext_eq (ak_id k) key_id) (mc_api_keys mc)) ''duplicate key''] of
                  Some e \<Rightarrow> (Inl (db_error e), cleaned rules1)
                | None \<Rightarrow> (Inr (key_id, key), mc\<lparr>mc_rules := rules1, mc_api_keys := mc_api_keys mc @ [row]\<rparr>))))"

definition delete_user_api_key :: "db_err \<Rightarrow> claims \<Rightarrow> string \<Rightarrow> mc \<Rightarrow> mc_err option \<times> mc" where
  "delete_user_api_key err cl key_id mc =
     (if cl_auth cl = Api_Key_Auth
      then (Some (Err ''ApiKey auth not allowed to delete API keys, please log in with user account''), mc)
      else if key_id = '''' then (Some (Err ''Missing API key ID''), mc)
      else case first_api_key err key_id mc of
          Inl e \<Rightarrow> (Some (db_error e), mc)
        | Inr None \<Rightarrow> (Some (Err ''API key ID not found''), mc)
        | Inr (Some k) \<Rightarrow>
            if \<not> is_admin err (cl_username cl) mc \<and> ak_user k \<noteq> cl_username cl
            then (Some (Err ''Cannot delete other user's API key''), mc)
            else
              let role = get_api_key_role_name (ak_id k);
                  (e1, rules1) = enf_remove_policy err [role] (mc_rules mc) in
              (case e1 of
                 Some e \<Rightarrow> (Some (db_error e), mc\<lparr>mc_rules := rules1\<rparr>)
               | None \<Rightarrow>
                   let (e2, rules2) = enf_remove_grouping_policy err [get_casbin_group (ak_org k) (ak_id k), role] rules1 in
                   (case first_fail [e2, err (Call_Delete ''user_api_keys'' (ak_id k))] of
                      Some e \<Rightarrow> (Some (db_error e), mc\<lparr>mc_rules := rules2\<rparr>)
                    | None \<Rightarrow> (None, mc\<lparr>mc_rules := rules2,
                        mc_api_keys := filter (\<lambda>x. \<not> citext_eq (ak_id x) (ak_id k)) (mc_api_keys mc)\<rparr>))))"

record key_answer =
  ka_id :: string
  ka_desc :: string
  ka_org :: string
  ka_user :: string
  ka_perms :: "(string \<times> string) list"

text \<open>The first error of looking up permissions ends the call.\<close>

fun key_answers :: "db_err \<Rightarrow> bool \<Rightarrow> string \<Rightarrow> casbin_rule list \<Rightarrow> api_key list \<Rightarrow> string + key_answer list" where
  "key_answers err super caller rules [] = Inr []"
| "key_answers err super caller rules (k # ks) =
     (if \<not> super \<and> ak_user k \<noteq> caller then key_answers err super caller rules ks
      else case get_permissions err (ak_id k) (ak_org k) rules of
          Inl e \<Rightarrow> Inl e
        | Inr perms \<Rightarrow> map_sum id (\<lambda>out. \<lparr>ka_id = ak_id k, ka_desc = ak_desc k, ka_org = ak_org k,
              ka_user = (if super then ak_user k else ''''), ka_perms = perms\<rparr> # out)
            (key_answers err super caller rules ks))"

definition show_user_api_key :: "db_err \<Rightarrow> claims \<Rightarrow> string \<Rightarrow> mc \<Rightarrow> mc_err + key_answer list" where
  "show_user_api_key err cl key_id mc =
     (if cl_auth cl = Api_Key_Auth then Inl (Err ''ApiKey auth not allowed to show API keys, please log in with user account'')
      else case (if key_id = ''''
                 then (case err (Call_Table ''user_api_keys'') of Some e \<Rightarrow> Inl (db_error e) | None \<Rightarrow> Inr (mc_api_keys mc))
                 else (case first_api_key err key_id mc of
                         Inl e \<Rightarrow> Inl (db_error e)
                       | Inr None \<Rightarrow> Inl (Err ''API key ID not found'')
                       | Inr (Some k) \<Rightarrow> Inr [k])) of
          Inl e \<Rightarrow> Inl e
        | Inr ks \<Rightarrow>
            let super = (authorized err (cl_username cl) '''' ''users'' ''view'' [] mc = None) in
            map_sum Err id (key_answers err super (cl_username cl) (mc_rules mc) ks))"

subsection \<open>The rules of a key\<close>

text \<open>The identifier is drawn at random; the rules know nothing of the role and of the subject made from it.\<close>

definition fresh_key :: "casbin_rule list \<Rightarrow> string \<Rightarrow> string \<Rightarrow> bool" where
  "fresh_key rules role psub \<longleftrightarrow> (\<forall>r\<in>set rules. (r_ptype r = ''p'' \<longrightarrow> r_v0 r \<noteq> role) \<and>
     (r_ptype r = ''g'' \<longrightarrow> r_v1 r \<noteq> role \<and> r_v0 r \<noteq> psub))"

text \<open>What a request asks for: managing includes viewing.\<close>

definition key_grants :: "(string \<times> string) list \<Rightarrow> (string \<times> string) set" where
  "key_grants perms = set perms \<union> {(obj, ''view'') |obj. (obj, ''manage'') \<in> set perms}"

definition key_row :: "string \<Rightarrow> string \<Rightarrow> casbin_rule \<Rightarrow> bool" where
  "key_row role psub r \<longleftrightarrow> r_ptype r = ''p'' \<and> r_v0 r = role \<or> r = get_casbin_rule ''g'' [psub, role]"

lemma role_add_policy_rows:
  assumes "role_add_policy err [role, obj, act] (e, rules) = (e', rules')"
  shows "\<exists>new. rules' = rules @ new \<and> Ball (set new) (key_row role psub)"
    and "e' = None \<Longrightarrow> e = None \<and> set rules' = insert (get_casbin_rule ''p'' [role, obj, act]) (set rules)"
  using assms
  by (auto simp: role_add_policy_def enf_add_policy_def add_policy_def key_row_def get_casbin_rule_def field_def Let_def
      split: option.splits if_splits)

lemma add_key_perms_rows:
  "add_key_perms err role valid ps (e, rules) = (refused, e', rules') \<Longrightarrow>
     \<exists>new. rules' = rules @ new \<and> Ball (set new) (key_row role psub)"
proof (induction ps arbitrary: e rules)
  case (Cons p ps)
  obtain obj act where p: "p = (obj, act)" by fastforce
  obtain e1 rules1 where r1: "role_add_policy err [role, obj, act] (e, rules) = (e1, rules1)" by fastforce
  obtain e2 rules2 where r2: "role_add_policy err [role, obj, ''view''] (e1, rules1) = (e2, rules2)" by fastforce
  note rows1 = role_add_policy_rows(1)[OF r1, of psub] and rows2 = role_add_policy_rows(1)[OF r2, of psub]
  show ?case
  proof (cases "act \<noteq> ''view'' \<and> act \<noteq> ''manage'' \<or> (obj, act) \<notin> set valid")
    case True
    then show ?thesis using Cons.prems p by (auto split: if_splits)
  next
    case False
    then have "\<exists>new. rules' = (if act = ''manage'' then rules2 else rules1) @ new \<and> Ball (set new) (key_row role psub)"
      using Cons.prems p r1 r2 Cons.IH[of e1 rules1] Cons.IH[of e2 rules2] by (auto simp: Let_def split: if_splits)
    then show ?thesis using rows1 rows2 by (auto split: if_splits)
  qed
qed auto

lemma add_key_perms_none:
  "add_key_perms err role valid ps (e, rules) = (None, None, rules') \<Longrightarrow>
     e = None \<and> set ps \<subseteq> set valid \<and>
     set rules' = set rules \<union> (\<lambda>(obj, act). get_casbin_rule ''p'' [role, obj, act]) ` key_grants ps"
proof (induction ps arbitrary: e rules)
  case (Cons p ps)
  obtain obj act where p: "p = (obj, act)" by fastforce
  obtain e1 rules1 where r1: "role_add_policy err [role, obj, act] (e, rules) = (e1, rules1)" by fastforce
  obtain e2 rules2 where r2: "role_add_policy err [role, obj, ''view''] (e1, rules1) = (e2, rules2)" by fastforce
  have ok: "act = ''view'' \<or> act = ''manage''" "(obj, act) \<in> set valid"
    using Cons.prems p by (auto split: if_splits)
  show ?case
  proof (cases "act = ''manage''")
    case True
    then have "add_key_perms err role valid ps (e2, rules2) = (None, None, rules')"
      using Cons.prems p ok r1 r2 by simp
    then show ?thesis
      using Cons.IH role_add_policy_rows(2)[OF r2] role_add_policy_rows(2)[OF r1] ok True p
      by (auto simp: key_grants_def)
  next
    case False
    then have "add_key_perms err role valid ps (e1, rules1) = (None, None, rules')"
      using Cons.prems p ok r1 by simp
    then show ?thesis
      using Cons.IH role_add_policy_rows(2)[OF r1] ok False p by (auto simp: key_grants_def)
  qed
qed (auto simp: key_grants_def)

lemma find_append: "find P (xs @ ys) = (case find P xs of None \<Rightarrow> find P ys | Some x \<Rightarrow> Some x)"
  by (induction xs) auto

lemma key_role_not_Nil [simp]: "get_api_key_role_name key_id \<noteq> ''''"
  by (simp add: get_api_key_role_name_def)

lemma remove_key_rows:
  assumes "fresh_key rules role psub" and "Ball (set new) (key_row role psub)" and "role \<noteq> ''''" and "psub \<noteq> ''''"
  shows "raw_delete (get_casbin_rule ''g'' [psub, role]) (raw_delete (get_casbin_rule ''p'' [role]) (rules @ new)) = rules"
proof -
  have "filter P rules = rules" if "\<And>r. r \<in> set rules \<Longrightarrow> P r" for P using that by (simp add: filter_id_conv)
  moreover have "filter P new = []" if "\<And>r. r \<in> set new \<Longrightarrow> \<not> P r" for P using that by (simp add: filter_empty_conv)
  ultimately show ?thesis
    using assms
    by (auto simp: raw_delete_def values_match_def field_matches_def get_casbin_rule_def field_def fresh_key_def key_row_def
        filter_empty_conv filter_id_conv)
qed

lemma cleanup_restores:
  assumes "fresh_key rules role psub" and "Ball (set new) (key_row role psub)" and "role \<noteq> ''''" and "psub \<noteq> ''''"
    and "\<And>r. err (Call_Remove r) = None"
  shows "cleanup_policies err role psub (rules @ new) = rules"
  using remove_key_rows[OF assms(1-4)] assms(5)
  by (simp add: cleanup_policies_def enf_remove_grouping_policy_def enf_remove_policy_def remove_policy_def Let_def)

subsection \<open>Creating and deleting keys\<close>

lemma create_key_cases:
  assumes "create_user_api_key ue err superuser saltb key_id key cl req mc = (res, mc')"
  obtains e where "res = Inl e" "mc' = mc"
  | e new where "res = Inl e" "Ball (set new) (key_row (get_api_key_role_name key_id) (get_casbin_group (kr_org req) key_id))"
      "mc' = mc\<lparr>mc_rules := cleanup_policies err (get_api_key_role_name key_id) (get_casbin_group (kr_org req) key_id) (mc_rules mc @ new)\<rparr>"
  | valid rules rules1 new where "res = Inr (key_id, key)" "create_key_checks err superuser cl req mc = Inr valid"
      "add_key_perms err (get_api_key_role_name key_id) valid (kr_perms req) (None, mc_rules mc) = (None, None, rules)"
      "enf_add_grouping_policy err [get_casbin_group (kr_org req) key_id, get_api_key_role_name key_id] rules = (None, rules1)"
      "rules1 = mc_rules mc @ new" "Ball (set new) (key_row (get_api_key_role_name key_id) (get_casbin_group (kr_org req) key_id))"
      "\<not> list_ex (\<lambda>k. citext_eq (ak_id k) key_id) (mc_api_keys mc)"
      "mc' = mc\<lparr>mc_rules := rules1, mc_api_keys := mc_api_keys mc @ [new_key_row ue saltb key_id key cl req]\<rparr>"
proof (cases "create_key_checks err superuser cl req mc")
  case (Inl e)
  then show ?thesis using assms that(1) by (auto simp: create_user_api_key_def)
next
  case (Inr valid)
  let ?role = "get_api_key_role_name key_id" and ?psub = "get_casbin_group (kr_org req) key_id"
  obtain refused e rules where a: "add_key_perms err ?role valid (kr_perms req) (None, mc_rules mc) = (refused, e, rules)"
    by (rule prod_cases3)
  obtain new where new: "rules = mc_rules mc @ new" "Ball (set new) (key_row ?role ?psub)"
    using add_key_perms_rows[OF a] by blast
  obtain ge rules1 where g: "enf_add_grouping_policy err [?psub, ?role] rules = (ge, rules1)" by fastforce
  obtain new1 where new1: "rules1 = mc_rules mc @ new @ new1" "Ball (set new1) (key_row ?role ?psub)"
    using g new(1)
    by (auto simp: enf_add_grouping_policy_def add_policy_def key_row_def Let_def split: option.splits if_splits)
  have new': "Ball (set (new @ new1)) (key_row ?role ?psub)" using new(2) new1(2) by auto
  let ?fail = "first_fail [ge, err (Call_Create ''user_api_keys'' key_id),
                      fail_if (list_ex (\<lambda>k. citext_eq (ak_id k) key_id) (mc_api_keys mc)) ''duplicate key'']"
  show ?thesis
  proof (cases "refused \<noteq> None \<or> e \<noteq> None")
    case True
    then obtain x where "first_fail [refused, map_option db_error e] = Some x" using first_fail_None[of "[refused, map_option db_error e]"] by (cases "first_fail [refused, map_option db_error e]") auto
    then show ?thesis
      using assms Inr a new by (intro that(2)[OF _ new(2), of x]) (auto simp: create_user_api_key_def Let_def)
  next
    case False
    then have ok: "refused = None" "e = None" "first_fail [None, None] = (None :: mc_err option)" by simp_all
    show ?thesis
    proof (cases ?fail)
      case (Some x)
      then show ?thesis
        using assms Inr a ok g new1(1) by (intro that(2)[OF _ new', of "db_error x"]) (auto simp: create_user_api_key_def Let_def)
    next
      case None
      then have n: "ge = None" "\<not> list_ex (\<lambda>k. citext_eq (ak_id k) key_id) (mc_api_keys mc)"
        by (auto split: option.splits)
      have "res = Inr (key_id, key)"
          "mc' = mc\<lparr>mc_rules := rules1, mc_api_keys := mc_api_keys mc @ [new_key_row ue saltb key_id key cl req]\<rparr>"
        using assms Inr a ok g None by (simp_all add: create_user_api_key_def)
      then show ?thesis
        using that(3)[OF _ Inr _ _ _ new' n(2)] a ok g n(1) new1(1) by simp
    qed
  qed
qed

lemma map_sum_Inr_id: "map_sum f id x = Inr v \<longleftrightarrow> x = Inr v"
  by (cases x) auto

lemma create_checks_valid:
  assumes "create_key_checks err superuser cl req mc = Inr valid"
  shows "cl_auth cl \<noteq> Api_Key_Auth" and "(obj, act) \<in> set valid \<longleftrightarrow>
    granted (mc_rules mc) (get_casbin_group (if cl_username cl = superuser then '''' else kr_org req) (cl_username cl)) obj act"
proof -
  have "get_permissions err (cl_username cl) (if cl_username cl = superuser then '''' else kr_org req) (mc_rules mc) = Inr valid"
    using assms by (auto simp: create_key_checks_def Let_def map_sum_Inr_id split: if_splits sum.splits option.splits)
  from get_permissions_iff[OF this] show "(obj, act) \<in> set valid \<longleftrightarrow>
    granted (mc_rules mc) (get_casbin_group (if cl_username cl = superuser then '''' else kr_org req) (cl_username cl)) obj act" .
  show "cl_auth cl \<noteq> Api_Key_Auth" using assms by (auto simp: create_key_checks_def)
qed

text \<open>
  C9 (what keys are given): a key is only made for permissions that the caller has in the organization of
  the request, for all organizations where the caller is the superuser or the request leaves the
  organization empty.  The subject of the key, which is the identifier in that organization, or the bare
  identifier, for all organizations, where it is empty, then has exactly these permissions and, with
  every managing one, the viewing one, which is added without a look at what the caller has; the
  permissions of all other subjects are as before.
\<close>

theorem api_key_grants:
  assumes "create_user_api_key ue err superuser saltb key_id key cl req mc = (Inr out, mc')"
    and "fresh_key (mc_rules mc) (get_api_key_role_name key_id) (get_casbin_group (kr_org req) key_id)"
  shows "(\<forall>(o', a)\<in>set (kr_perms req). granted (mc_rules mc)
       (get_casbin_group (if cl_username cl = superuser then '''' else kr_org req) (cl_username cl)) o' a) \<and>
    (granted (mc_rules mc') subj obj act \<longleftrightarrow>
       (if subj = get_casbin_group (kr_org req) key_id then (obj, act) \<in> key_grants (kr_perms req)
        else granted (mc_rules mc) subj obj act))"
  using assms(1)
proof (cases rule: create_key_cases)
  case (3 valid rules rules1 new)
  let ?role = "get_api_key_role_name key_id" and ?psub = "get_casbin_group (kr_org req) key_id"
  note added = add_key_perms_none[OF 3(3)]
  have rows: "set (mc_rules mc') = insert (get_casbin_rule ''g'' [?psub, ?role])
      (set (mc_rules mc) \<union> (\<lambda>(obj, act). get_casbin_rule ''p'' [?role, obj, act]) ` key_grants (kr_perms req))"
    using 3(4,8) added
    by (auto simp: enf_add_grouping_policy_def add_policy_def Let_def split: option.splits if_splits)
  have g: "has_g (mc_rules mc') s r \<longleftrightarrow> (s, r) = (?psub, ?role) \<or> has_g (mc_rules mc) s r" for s r
    unfolding has_g_def rows by (auto simp: get_casbin_rule_def field_def)
  have p: "has_p (mc_rules mc') r o' a \<longleftrightarrow> r = ?role \<and> (o', a) \<in> key_grants (kr_perms req) \<or> has_p (mc_rules mc) r o' a" for r o' a
    unfolding has_p_def rows by (force simp: get_casbin_rule_def field_def)
  have "\<not> has_g (mc_rules mc) ?psub r" "\<not> has_g (mc_rules mc) s ?role" "\<not> has_p (mc_rules mc) ?role o' a" for r s o' a
    using assms(2) by (auto simp: fresh_key_def has_g_def has_p_def)
  then have "granted (mc_rules mc') subj obj act \<longleftrightarrow>
       (if subj = ?psub then (obj, act) \<in> key_grants (kr_perms req) else granted (mc_rules mc) subj obj act)"
    unfolding granted_def g p by auto
  moreover have "granted (mc_rules mc) (get_casbin_group (if cl_username cl = superuser then '''' else kr_org req) (cl_username cl)) o' a"
    if "(o', a) \<in> set (kr_perms req)" for o' a
    using create_checks_valid(2)[OF 3(2)] added that by blast
  ultimately show ?thesis by blast
qed simp_all

text \<open>The calls on keys keep it that only managers and keys manage users.\<close>

lemma user_perms_ok_key_rows:
  "user_perms_ok rules \<Longrightarrow> Ball (set new) (key_row (get_api_key_role_name key_id) psub) \<Longrightarrow> user_perms_ok (rules @ new)"
  by (auto simp: user_perms_ok_rows key_row_def get_casbin_rule_def is_api_key_role_def get_api_key_role_name_def)

lemma user_perms_ok_remove_policy:
  "user_perms_ok rules \<Longrightarrow> enf_remove_policy err ps rules = (e, rules') \<Longrightarrow> user_perms_ok rules'"
  by (auto simp: enf_remove_policy_def remove_policy_def raw_delete_def user_perms_ok_rows Let_def split: option.splits)

lemma user_perms_ok_cleanup: "user_perms_ok rules \<Longrightarrow> user_perms_ok (cleanup_policies err role psub rules)"
  unfolding cleanup_policies_def
  by (metis prod.collapse user_perms_ok_grouping(2) user_perms_ok_remove_policy)

lemma perms_ok_create_key:
  assumes "create_user_api_key ue err superuser saltb key_id key cl req mc = (res, mc')" and "perms_ok mc"
  shows "perms_ok mc'"
  using assms(1)
  by (cases rule: create_key_cases)
    (use assms(2) in \<open>auto simp: perms_ok_def intro: user_perms_ok_key_rows user_perms_ok_cleanup\<close>)

lemma perms_ok_delete_key:
  assumes "delete_user_api_key err cl key_id mc = (e, mc')" and "perms_ok mc"
  shows "perms_ok mc'"
  using assms
  by (auto simp: delete_user_api_key_def perms_ok_def Let_def
      split: if_splits sum.splits option.splits prod.splits dest: user_perms_ok_remove_policy)
    (blast dest: user_perms_ok_remove_policy user_perms_ok_grouping(2))+

text \<open>
  C26 (failed keys leave nothing): when creating a key fails, wherever, and the clean-up itself does not
  fail, there is no key and no rule more than before.
\<close>

theorem failed_api_key_restores:
  assumes "create_user_api_key ue err superuser saltb key_id key cl req mc = (Inl e, mc')"
    and "fresh_key (mc_rules mc) (get_api_key_role_name key_id) (get_casbin_group (kr_org req) key_id)"
    and "key_id \<noteq> ''''" and "\<And>r. err (Call_Remove r) = None"
  shows "mc' = mc"
  using assms(1)
proof (cases rule: create_key_cases)
  case (2 e' new)
  then show ?thesis using cleanup_restores[OF assms(2) 2(2), of err] assms(3,4) by simp
qed simp_all

text \<open>
  Note (deleting undoes creating): a key that was just created can be deleted by its user, and then
  everything is as it was before.
\<close>

theorem delete_undoes_create_key:
  assumes "create_user_api_key ue err superuser saltb key_id key cl req mc = (Inr out, mc1)"
    and "fresh_key (mc_rules mc) (get_api_key_role_name key_id) (get_casbin_group (kr_org req) key_id)" and "key_id \<noteq> ''''"
  shows "delete_user_api_key no_err cl key_id mc1 = (None, mc)"
  using assms(1)
proof (cases rule: create_key_cases)
  case (3 valid rules rules1 new)
  let ?row = "new_key_row ue saltb key_id key cl req"
  have row: "ak_id ?row = key_id" "ak_user ?row = cl_username cl" "ak_org ?row = kr_org req"
    by (simp_all add: new_key_row_def new_passhash_def)
  have others: "\<forall>k\<in>set (mc_api_keys mc). \<not> citext_eq (ak_id k) key_id" using 3(7) by (simp add: list_ex_iff)
  then have "find (\<lambda>k. citext_eq (ak_id k) key_id) (mc_api_keys mc) = None" by (auto simp: find_None_iff)
  then have first: "first_api_key no_err key_id mc1 = Inr (Some ?row)"
    using assms(3) row by (simp add: first_api_key_def 3(8) find_append)
  have "filter (\<lambda>x. \<not> citext_eq (ak_id x) key_id) (mc_api_keys mc) = mc_api_keys mc"
    using others by (simp add: filter_id_conv)
  then show ?thesis
    using remove_key_rows[OF assms(2) 3(6)] assms(3) first create_checks_valid(1)[OF 3(2)] row 3(5,8)
    by (auto simp: delete_user_api_key_def enf_remove_policy_def enf_remove_grouping_policy_def remove_policy_def Let_def split: option.splits)
qed simp_all

lemma key_answers_in:
  "key_answers err super caller rules ks = Inr out \<Longrightarrow> a \<in> set out \<Longrightarrow>
     \<exists>k\<in>set ks. ka_id a = ak_id k \<and> ka_org a = ak_org k \<and> (super \<or> ak_user k = caller) \<and>
       get_permissions err (ak_id k) (ak_org k) rules = Inr (ka_perms a)"
proof (induction ks arbitrary: out)
  case (Cons k ks)
  show ?case
  proof (cases "super \<or> ak_user k = caller")
    case False
    then show ?thesis using Cons by auto
  next
    case True
    then obtain perms out' where "get_permissions err (ak_id k) (ak_org k) rules = Inr perms"
        "key_answers err super caller rules ks = Inr out'"
        "out = \<lparr>ka_id = ak_id k, ka_desc = ak_desc k, ka_org = ak_org k, ka_user = (if super then ak_user k else ''''), ka_perms = perms\<rparr> # out'"
      using Cons.prems(1) by (cases "key_answers err super caller rules ks") (auto split: sum.splits)
    then show ?thesis using Cons.IH[of out'] Cons.prems(2) True by auto
  qed
qed simp

text \<open>
  Note (who sees keys): a caller who may not view all users sees only keys of the own account; every key shown is in
  the table, with exactly the permissions that the check of permissions grants it.
\<close>

theorem show_keys_outcome:
  assumes "show_user_api_key err cl key_id mc = Inr out" and "a \<in> set out"
  shows "\<exists>k\<in>set (mc_api_keys mc). ka_id a = ak_id k \<and> ka_org a = ak_org k \<and>
    (authorized err (cl_username cl) '''' ''users'' ''view'' [] mc \<noteq> None \<longrightarrow> ak_user k = cl_username cl) \<and>
    (\<forall>obj act. (obj, act) \<in> set (ka_perms a) \<longleftrightarrow> granted (mc_rules mc) (get_casbin_group (ak_org k) (ak_id k)) obj act)"
proof -
  obtain ks where ks: "set ks \<subseteq> set (mc_api_keys mc)"
      "key_answers err (authorized err (cl_username cl) '''' ''users'' ''view'' [] mc = None) (cl_username cl) (mc_rules mc) ks = Inr out"
  proof (cases "key_id = ''''")
    case True
    then show ?thesis
      using assms(1) that[of "mc_api_keys mc"]
      by (auto simp: show_user_api_key_def map_sum_Inr_id Let_def split: if_splits option.splits)
  next
    case False
    then obtain k where "first_api_key err key_id mc = Inr (Some k)"
        "key_answers err (authorized err (cl_username cl) '''' ''users'' ''view'' [] mc = None) (cl_username cl) (mc_rules mc) [k] = Inr out"
      using assms(1)
      by (simp add: show_user_api_key_def map_sum_Inr_id Let_def del: key_answers.simps split: if_splits sum.splits option.splits)
    then show ?thesis
      using that[of "[k]"] by (auto simp: first_api_key_def find_Some_iff simp del: key_answers.simps split: option.splits)
  qed
  from key_answers_in[OF ks(2) assms(2)] obtain k where k: "k \<in> set ks" "ka_id a = ak_id k \<and> ka_org a = ak_org k \<and>
      (authorized err (cl_username cl) '''' ''users'' ''view'' [] mc = None \<or> ak_user k = cl_username cl)"
      "get_permissions err (ak_id k) (ak_org k) (mc_rules mc) = Inr (ka_perms a)" by blast
  then show ?thesis using ks(1) get_permissions_iff[OF k(3)] by blast
qed

subsection \<open>Examples\<close>

definition demo_claims :: claims where
  "demo_claims = generate_cookie 0 (demo_user ''ann'') ''''"

definition demo_key_request :: key_request where
  "demo_key_request = \<lparr>kr_org = ''acme'', kr_desc = ''ci'', kr_perms = [(''users'', ''manage'')]\<rparr>"

text \<open>
  Note (keys outlive roles): removing the role that a key was made with, and also deleting the
  account of its user, leaves the key its permissions.
\<close>

theorem keys_outlive_roles:
  "let mc1 = snd (create_user_api_key demo_env_users no_err ''mexadmin'' ''salt'' ''id'' ''key'' demo_claims demo_key_request demo_state);
       (e2, mc2, _) = remove_user_role no_err ''ann'' \<lparr>ro_org = ''acme'', ro_user = ''ann'', ro_role = ''DeveloperManager''\<rparr> mc1;
       (e3, mc3, _) = delete_user ''mexadmin'' no_err ''ann'' ''ann'' mc2
   in e2 = Returns None \<and> e3 = None \<and> authorized no_err ''ann'' ''acme'' ''users'' ''manage'' [] mc2 \<noteq> None \<and>
      authorized no_err ''id'' ''acme'' ''users'' ''manage'' [] mc3 = None \<and> length (mc_api_keys mc3) = 1"
  by code_simp

lemma demo_key: "create_user_api_key demo_env_users no_err ''mexadmin'' ''salt'' ''id'' ''key'' demo_claims demo_key_request demo_state =
    (Inr (''id'', ''key''), snd (create_user_api_key demo_env_users no_err ''mexadmin'' ''salt'' ''id'' ''key'' demo_claims demo_key_request demo_state))"
proof -
  have "fst (create_user_api_key demo_env_users no_err ''mexadmin'' ''salt'' ''id'' ''key'' demo_claims demo_key_request demo_state) =
      Inr (''id'', ''key'')" by code_simp
  then show ?thesis by (metis prod.collapse)
qed

lemma demo_key_fresh: "fresh_key (mc_rules demo_state) (get_api_key_role_name ''id'') (get_casbin_group ''acme'' ''id'')"
  unfolding fresh_key_def by code_simp

theorem api_key_grants_witness:
  "\<exists>mc'. create_user_api_key demo_env_users no_err ''mexadmin'' ''salt'' ''id'' ''key'' demo_claims demo_key_request demo_state =
     (Inr (''id'', ''key''), mc') \<and> granted (mc_rules mc') ''acme::id'' ''users'' ''view''"
  using demo_key api_key_grants[OF demo_key, of "''acme::id''" "''users''" "''view''"] demo_key_fresh
  by (auto simp: demo_key_request_def key_grants_def get_casbin_group_def)

theorem failed_api_key_restores_witness:
  "let err = (\<lambda>c. if c = Call_Create ''user_api_keys'' ''id'' then Some ''timeout'' else None);
       (res, mc') = create_user_api_key demo_env_users err ''mexadmin'' ''salt'' ''id'' ''key'' demo_claims demo_key_request demo_state
   in res = Inl (db_error ''timeout'') \<and> mc' = demo_state"
proof -
  let ?err = "\<lambda>c. if c = Call_Create ''user_api_keys'' ''id'' then Some ''timeout'' else None"
  let ?c = "create_user_api_key demo_env_users ?err ''mexadmin'' ''salt'' ''id'' ''key'' demo_claims demo_key_request demo_state"
  have "fst ?c = Inl (db_error ''timeout'')" by code_simp
  then have c: "?c = (Inl (db_error ''timeout''), snd ?c)" by (metis prod.collapse)
  have "snd ?c = demo_state"
    by (rule failed_api_key_restores[OF c]) (use demo_key_fresh in \<open>simp_all add: demo_key_request_def\<close>)
  then show ?thesis using c by simp
qed

theorem delete_undoes_create_key_witness:
  "\<exists>mc1. create_user_api_key demo_env_users no_err ''mexadmin'' ''salt'' ''id'' ''key'' demo_claims demo_key_request demo_state =
     (Inr (''id'', ''key''), mc1) \<and> delete_user_api_key no_err demo_claims ''id'' mc1 = (None, demo_state)"
  using demo_key delete_undoes_create_key[OF demo_key] demo_key_fresh by (auto simp: demo_key_request_def)

theorem show_keys_outcome_witness:
  "let mc1 = snd (create_user_api_key demo_env_users no_err ''mexadmin'' ''salt'' ''id'' ''key'' demo_claims demo_key_request demo_state)
   in \<exists>out. show_user_api_key no_err demo_claims '''' mc1 = Inr out \<and> map ka_id out = [''id''] \<and>
        (\<forall>a\<in>set out. \<exists>k\<in>set (mc_api_keys mc1). ak_user k = ''ann'' \<and> ak_id k = ka_id a)"
proof -
  let ?mc1 = "snd (create_user_api_key demo_env_users no_err ''mexadmin'' ''salt'' ''id'' ''key'' demo_claims demo_key_request demo_state)"
  have s: "map_sum id (map ka_id) (show_user_api_key no_err demo_claims '''' ?mc1) = Inr [''id'']" by code_simp
  have n: "authorized no_err (cl_username demo_claims) '''' ''users'' ''view'' [] ?mc1 \<noteq> None" by code_simp
  obtain out where o': "show_user_api_key no_err demo_claims '''' ?mc1 = Inr out" "map ka_id out = [''id'']"
    using s by (cases "show_user_api_key no_err demo_claims '''' ?mc1") auto
  have "cl_username demo_claims = ''ann''" by code_simp
  then have "\<forall>a\<in>set out. \<exists>k\<in>set (mc_api_keys ?mc1). ak_user k = ''ann'' \<and> ak_id k = ka_id a"
    using show_keys_outcome[OF o'(1)] n by metis
  then show ?thesis using o' by (simp add: Let_def)
qed

end
