(* ===== verification/Edge_Events.thy ===== *)
theory Edge_Events
  imports AutoProv_Types
begin

text \<open>
  The edge events plugin, \<open>src/edge-events\<close>: the table of the clients that hold an event stream, by
  Cloudlet and AppInst, and the events sent to them.  A call returns the events it sends, each with
  the stream (\<open>sendFunc\<close>) it is sent on; those that the code sends from a goroutine are sent
  in some order after the call.  Objects of the edge-cloud library that only pass through are
  numbers (\<open>handle\<close>), its functions are fields of the record \<open>dme\<close>.
\<close>

subsection \<open>State\<close>

type_synonym handle = nat
type_synonym cookie = string

record client_info =
  ec_send :: handle             \<comment> \<open>\<open>sendFunc\<close>\<close>
  ec_loc :: handle              \<comment> \<open>\<open>lastLoc\<close>\<close>
  ec_carrier :: string

record inst_info =
  ea_key :: app_inst_key
  ea_carrier :: string
  ea_inst :: handle             \<comment> \<open>\<open>dmeAppInst\<close>\<close>
  ea_clients :: "(cookie, client_info) gmap"

type_synonym insts = "(app_inst_key, inst_info) gmap"

record handler =
  eh_cloudlets :: "(cloudlet_key, insts) gmap"
  eh_expiration :: nat          \<comment> \<open>\<open>EdgeEventsCookieExpiration\<close>\<close>

definition new_handler :: "nat \<Rightarrow> handler" where
  "new_handler expiration = \<lparr>eh_cloudlets = [], eh_expiration = expiration\<rparr>"

subsection \<open>Events\<close>

datatype event_type =
    Ev_Cloudlet_Update | Ev_Latency_Processed | Ev_Latency_Request
  | Ev_Cloudlet_State | Ev_Cloudlet_Maintenance | Ev_Appinst_Health | Ev_Other nat

datatype cloudlet_state = Cloudlet_State_Unknown | Cloudlet_State_Ready | Cloudlet_State_Other nat

datatype health_check = Health_Unknown | Health_Ok | Health_Other nat

record server_event =
  ev_type :: event_type
  ev_cloudlet_state :: cloudlet_state
  ev_maintenance :: maintenance_state
  ev_health :: health_check
  ev_statistics :: "handle option"
  ev_new_cloudlet :: "handle option"
  ev_error_msg :: string

definition new_event :: "event_type \<Rightarrow> server_event" where
  "new_event typ = \<lparr>ev_type = typ, ev_cloudlet_state = Cloudlet_State_Unknown, ev_maintenance = Normal_Operation,
     ev_health = Health_Unknown, ev_statistics = None, ev_new_cloudlet = None, ev_error_msg = ''''\<rparr>"

text \<open>\<open>DmeAppInstState\<close>.\<close>

record inst_state =
  st_maintenance :: maintenance_state
  st_cloudlet :: cloudlet_state
  st_health :: health_check

text \<open>The library: \<open>FindCloudlet\<close> answers an error or the status (as text, with whether it is
  \<open>FIND_FOUND\<close>) and the reply.\<close>

record dme =
  x_search :: "string \<Rightarrow> handle \<Rightarrow> handle \<Rightarrow> (string, (cluster_inst_key \<times> handle) list) gmap \<Rightarrow> nat \<Rightarrow> handle list"
  x_uri :: "handle \<Rightarrow> string"
  x_reply :: "handle \<Rightarrow> handle \<Rightarrow> nat \<Rightarrow> handle"
  x_find_cloudlet :: "app_key \<Rightarrow> string \<Rightarrow> handle \<Rightarrow> nat \<Rightarrow> string + bool \<times> string \<times> handle"
  x_usable :: "maintenance_state \<Rightarrow> cloudlet_state \<Rightarrow> health_check \<Rightarrow> bool"
  x_statistics :: "handle list \<Rightarrow> handle"

subsection \<open>Lookup\<close>

definition get_cloudlet_info :: "handler \<Rightarrow> cloudlet_key \<Rightarrow> insts option" where
  "get_cloudlet_info h ck = map_of (eh_cloudlets h) ck"

definition get_app_inst_info :: "handler \<Rightarrow> app_inst_key \<Rightarrow> inst_info option" where
  "get_app_inst_info h ik =
     (case get_cloudlet_info h (inst_cloudlet ik) of None \<Rightarrow> None | Some is \<Rightarrow> map_of is ik)"

definition get_client_info :: "handler \<Rightarrow> app_inst_key \<Rightarrow> cookie \<Rightarrow> client_info option" where
  "get_client_info h ik c =
     (case get_app_inst_info h ik of None \<Rightarrow> None | Some a \<Rightarrow> map_of (ea_clients a) c)"

text \<open>Writing through the pointer to an AppInst that was found.\<close>

definition set_app_inst_info :: "app_inst_key \<Rightarrow> inst_info \<Rightarrow> handler \<Rightarrow> handler" where
  "set_app_inst_info ik a h =
     (case get_cloudlet_info h (inst_cloudlet ik) of None \<Rightarrow> h
      | Some is \<Rightarrow> h\<lparr>eh_cloudlets := gput (inst_cloudlet ik) (gput ik a is) (eh_cloudlets h)\<rparr>)"

definition set_client_info :: "app_inst_key \<Rightarrow> cookie \<Rightarrow> client_info \<Rightarrow> handler \<Rightarrow> handler" where
  "set_client_info ik c ci h =
     (case get_app_inst_info h ik of None \<Rightarrow> h
      | Some a \<Rightarrow> set_app_inst_info ik (a\<lparr>ea_clients := gput c ci (ea_clients a)\<rparr>) h)"

subsection \<open>Clients and AppInsts\<close>

definition add_client ::
    "app_inst_key \<Rightarrow> cookie \<Rightarrow> handle \<Rightarrow> string \<Rightarrow> handle \<Rightarrow> handler \<Rightarrow> handler" where
  "add_client ik c last_loc carrier send h =
     (case map_of (eh_cloudlets h) (inst_cloudlet ik) of
        None \<Rightarrow> h
      | Some is \<Rightarrow>
         (case map_of is ik of
            None \<Rightarrow> h
          | Some a \<Rightarrow> set_app_inst_info ik
              (a\<lparr>ea_clients := gput c \<lparr>ec_send = send, ec_loc = last_loc, ec_carrier = carrier\<rparr> (ea_clients a)\<rparr>) h))"

definition update_client_last_location :: "app_inst_key \<Rightarrow> cookie \<Rightarrow> handle \<Rightarrow> handler \<Rightarrow> handler" where
  "update_client_last_location ik c last_loc h =
     (case get_client_info h ik c of None \<Rightarrow> h | Some ci \<Rightarrow> set_client_info ik c (ci\<lparr>ec_loc := last_loc\<rparr>) h)"

definition update_client_carrier :: "app_inst_key \<Rightarrow> cookie \<Rightarrow> string \<Rightarrow> handler \<Rightarrow> handler" where
  "update_client_carrier ik c carrier h =
     (case get_client_info h ik c of None \<Rightarrow> h | Some ci \<Rightarrow> set_client_info ik c (ci\<lparr>ec_carrier := carrier\<rparr>) h)"

definition remove_client_key :: "app_inst_key \<Rightarrow> cookie \<Rightarrow> handler \<Rightarrow> handler" where
  "remove_client_key ik c h =
     (case get_app_inst_info h ik of None \<Rightarrow> h
      | Some a \<Rightarrow> set_app_inst_info ik (a\<lparr>ea_clients := gdel c (ea_clients a)\<rparr>) h)"

definition remove_cloudlet_key :: "cloudlet_key \<Rightarrow> handler \<Rightarrow> handler" where
  "remove_cloudlet_key ck h = h\<lparr>eh_cloudlets := gdel ck (eh_cloudlets h)\<rparr>"

definition remove_app_inst_key :: "app_inst_key \<Rightarrow> handler \<Rightarrow> handler" where
  "remove_app_inst_key ik h =
     (case get_cloudlet_info h (inst_cloudlet ik) of None \<Rightarrow> h
      | Some is \<Rightarrow>
          let is' = gdel ik is; h' = h\<lparr>eh_cloudlets := gput (inst_cloudlet ik) is' (eh_cloudlets h)\<rparr>
          in if length is' = 0 then remove_cloudlet_key (inst_cloudlet ik) h' else h')"

definition remove_client :: "app_inst_key \<Rightarrow> cookie \<Rightarrow> handler \<Rightarrow> handler" where
  "remove_client = remove_client_key"

definition remove_app_inst :: "app_inst_key \<Rightarrow> handler \<Rightarrow> handler" where
  "remove_app_inst = remove_app_inst_key"

definition remove_cloudlet :: "cloudlet_key \<Rightarrow> handler \<Rightarrow> handler" where
  "remove_cloudlet = remove_cloudlet_key"

subsection \<open>A new AppInst\<close>

text \<open>The entry of the AppInst is created when it is missing, and never changed after.\<close>

definition enter_app_inst :: "app_inst_key \<Rightarrow> handle \<Rightarrow> string \<Rightarrow> handler \<Rightarrow> handler" where
  "enter_app_inst ik inst carrier h =
     (let is = (case map_of (eh_cloudlets h) (inst_cloudlet ik) of None \<Rightarrow> [] | Some is \<Rightarrow> is);
          is' = (if map_of is ik = None
                 then gput ik \<lparr>ea_key = ik, ea_carrier = carrier, ea_inst = inst, ea_clients = []\<rparr> is else is)
      in h\<lparr>eh_cloudlets := gput (inst_cloudlet ik) is' (eh_cloudlets h)\<rparr>)"

text \<open>The composite literal of \<open>carrierData\<close>: of two equal keys the second value stays.\<close>

definition carrier_data ::
    "app_inst_key \<Rightarrow> handle \<Rightarrow> string \<Rightarrow> inst_info \<Rightarrow> (string, (cluster_inst_key \<times> handle) list) gmap" where
  "carrier_data new_key new_inst new_carrier a =
     gput (ea_carrier a) [(ai_cluster_inst (ea_key a), ea_inst a)]
       (gput new_carrier [(ai_cluster_inst new_key, new_inst)] [])"

definition available_event :: "dme \<Rightarrow> nat \<Rightarrow> handle \<Rightarrow> client_info \<Rightarrow> server_event" where
  "available_event x expiration inst ci =
     (new_event Ev_Cloudlet_Update)\<lparr>ev_new_cloudlet := Some (x_reply x inst (ec_loc ci) expiration)\<rparr>"

definition tell_client ::
    "dme \<Rightarrow> nat \<Rightarrow> handle \<Rightarrow> app_inst_key \<Rightarrow> handle \<Rightarrow> string \<Rightarrow> inst_info \<Rightarrow> client_info \<Rightarrow> (handle \<times> server_event) list" where
  "tell_client x expiration app ik inst carrier a ci =
     (let found = x_search x (ec_carrier ci) app (ec_loc ci) (carrier_data ik inst carrier a) 1 in
      if length found \<noteq> 1 then []
      else if x_uri x (found ! 0) = x_uri x inst then [(ec_send ci, available_event x expiration inst ci)]
      else [])"

definition send_available_app_inst ::
    "dme \<Rightarrow> handle \<Rightarrow> app_inst_key \<Rightarrow> handle \<Rightarrow> string \<Rightarrow> handler \<Rightarrow> handler \<times> (handle \<times> server_event) list" where
  "send_available_app_inst x app ik inst carrier h =
     (let h' = enter_app_inst ik inst carrier h in
      (h', concat (map (\<lambda>(ck, is). concat (map (\<lambda>(k, a).
         if ai_app k = ai_app ik
         then concat (map (\<lambda>(c, ci). tell_client x (eh_expiration h') app ik inst carrier a ci) (ea_clients a))
         else []) is)) (eh_cloudlets h'))))"

subsection \<open>State events\<close>

definition add_new_cloudlet ::
    "dme \<Rightarrow> nat \<Rightarrow> app_inst_key \<Rightarrow> client_info \<Rightarrow> server_event \<Rightarrow> server_event" where
  "add_new_cloudlet x expiration ik ci ev =
     (case x_find_cloudlet x (ai_app ik) (ec_carrier ci) (ec_loc ci) expiration of
        Inl e \<Rightarrow> ev\<lparr>ev_error_msg := ''Current appinst is unusable. Unable to find alternate cloudlet doing FindCloudlet - error is '' @ e,
                    ev_new_cloudlet := None\<rparr>
      | Inr (found, status, reply) \<Rightarrow>
          if \<not> found
          then ev\<lparr>ev_error_msg := ''Current appinst is unusable. Unable to find any cloudlets doing FindCloudlet - FindStatus is '' @ status,
                  ev_new_cloudlet := None\<rparr>
          else ev\<lparr>ev_new_cloudlet := Some reply\<rparr>)"

definition get_usability :: "dme \<Rightarrow> inst_state \<Rightarrow> bool" where
  "get_usability x st = x_usable x (st_maintenance st) (st_cloudlet st) (st_health st)"

definition create_app_inst_state_event ::
    "dme \<Rightarrow> nat \<Rightarrow> inst_state \<Rightarrow> app_inst_key \<Rightarrow> client_info \<Rightarrow> event_type \<Rightarrow> bool \<Rightarrow> server_event" where
  "create_app_inst_state_event x expiration st ik ci typ usable =
     (let ev = new_event typ;
          ev1 = (case typ of
                   Ev_Cloudlet_State \<Rightarrow> ev\<lparr>ev_cloudlet_state := st_cloudlet st\<rparr>
                 | Ev_Cloudlet_Maintenance \<Rightarrow> ev\<lparr>ev_maintenance := st_maintenance st\<rparr>
                 | Ev_Appinst_Health \<Rightarrow> ev\<lparr>ev_health := st_health st\<rparr>
                 | _ \<Rightarrow> ev)
      in if \<not> usable then add_new_cloudlet x expiration ik ci ev1 else ev1)"

definition create_cloudlet_state_event ::
    "dme \<Rightarrow> nat \<Rightarrow> inst_state \<Rightarrow> app_inst_key \<Rightarrow> client_info \<Rightarrow> bool \<Rightarrow> server_event" where
  "create_cloudlet_state_event x expiration st ik ci usable =
     (let ev = (new_event Ev_Cloudlet_State)\<lparr>ev_cloudlet_state := st_cloudlet st\<rparr>
      in if \<not> usable then add_new_cloudlet x expiration ik ci ev else ev)"

definition create_cloudlet_maintenance_event ::
    "dme \<Rightarrow> nat \<Rightarrow> inst_state \<Rightarrow> app_inst_key \<Rightarrow> client_info \<Rightarrow> bool \<Rightarrow> server_event" where
  "create_cloudlet_maintenance_event x expiration st ik ci usable =
     (let ev = (new_event Ev_Cloudlet_Maintenance)\<lparr>ev_maintenance := st_maintenance st\<rparr>
      in if \<not> usable then add_new_cloudlet x expiration ik ci ev else ev)"

definition send_latency_request :: "app_inst_key \<Rightarrow> handler \<Rightarrow> (handle \<times> server_event) list" where
  "send_latency_request ik h =
     (case get_app_inst_info h ik of None \<Rightarrow> []
      | Some a \<Rightarrow> map (\<lambda>(c, ci). (ec_send ci, new_event Ev_Latency_Request)) (ea_clients a))"

definition send_app_inst_state ::
    "dme \<Rightarrow> inst_state \<Rightarrow> app_inst_key \<Rightarrow> event_type \<Rightarrow> handler \<Rightarrow> (handle \<times> server_event) list" where
  "send_app_inst_state x st ik typ h =
     (case get_app_inst_info h ik of None \<Rightarrow> []
      | Some a \<Rightarrow> map (\<lambda>(c, ci). (ec_send ci,
          create_app_inst_state_event x (eh_expiration h) st ik ci typ (get_usability x st))) (ea_clients a))"

text \<open>These two calls write into the state of the caller: what they do not report becomes good.\<close>

definition send_cloudlet_state ::
    "dme \<Rightarrow> inst_state \<Rightarrow> cloudlet_key \<Rightarrow> handler \<Rightarrow> inst_state \<times> (handle \<times> server_event) list" where
  "send_cloudlet_state x st ck h =
     (case get_cloudlet_info h ck of None \<Rightarrow> (st, [])
      | Some is \<Rightarrow>
          let st' = st\<lparr>st_maintenance := Normal_Operation, st_health := Health_Ok\<rparr> in
          (st', concat (map (\<lambda>(k, a). map (\<lambda>(c, ci). (ec_send ci,
             create_cloudlet_state_event x (eh_expiration h) st' k ci (get_usability x st'))) (ea_clients a)) is)))"

definition send_cloudlet_maintenance ::
    "dme \<Rightarrow> inst_state \<Rightarrow> cloudlet_key \<Rightarrow> handler \<Rightarrow> inst_state \<times> (handle \<times> server_event) list" where
  "send_cloudlet_maintenance x st ck h =
     (case get_cloudlet_info h ck of None \<Rightarrow> (st, [])
      | Some is \<Rightarrow>
          let st' = st\<lparr>st_cloudlet := Cloudlet_State_Ready, st_health := Health_Ok\<rparr> in
          (st', concat (map (\<lambda>(k, a). map (\<lambda>(c, ci). (ec_send ci,
             create_cloudlet_maintenance_event x (eh_expiration h) st' k ci (get_usability x st'))) (ea_clients a)) is)))"

text \<open>Samples of a client that is not known are an error, else the statistics are answered and sent.\<close>

definition process_latency_samples ::
    "dme \<Rightarrow> app_inst_key \<Rightarrow> cookie \<Rightarrow> handle list \<Rightarrow> handler \<Rightarrow> handle option \<times> (handle \<times> server_event) list" where
  "process_latency_samples x ik c samples h =
     (case get_client_info h ik c of None \<Rightarrow> (None, [])
      | Some ci \<Rightarrow>
          let stats = x_statistics x samples in
          (Some stats, [(ec_send ci, (new_event Ev_Latency_Processed)\<lparr>ev_statistics := Some stats\<rparr>)]))"

definition send_event_to_client ::
    "server_event \<Rightarrow> app_inst_key \<Rightarrow> cookie \<Rightarrow> handler \<Rightarrow> (handle \<times> server_event) list" where
  "send_event_to_client ev ik c h =
     (case get_client_info h ik c of None \<Rightarrow> [] | Some ci \<Rightarrow> [(ec_send ci, ev)])"

subsection \<open>The table as a registry\<close>

text \<open>
  What the table promises: a set of known AppInsts and a map from AppInst and cookie to the
  client.  The operations act on it as the registry operations below.
\<close>

lemmas get_info_defs = get_client_info_def get_app_inst_info_def get_cloudlet_info_def

lemma get_set_app_inst [simp]:
  "get_app_inst_info (set_app_inst_info ik a h) k =
     (if k = ik \<and> get_cloudlet_info h (inst_cloudlet ik) \<noteq> None then Some a else get_app_inst_info h k)"
  by (auto simp: set_app_inst_info_def get_info_defs split: option.splits)

lemma app_inst_cloudlet: "get_app_inst_info h ik = Some a \<Longrightarrow> get_cloudlet_info h (inst_cloudlet ik) \<noteq> None"
  by (auto simp: get_info_defs split: option.splits)

lemma get_client_put:
  assumes "get_app_inst_info h ik = Some a"
  shows "get_client_info (set_app_inst_info ik (a\<lparr>ea_clients := gput c ci (ea_clients a)\<rparr>) h) k d =
     (if k = ik \<and> d = c then Some ci else get_client_info h k d)"
  using assms app_inst_cloudlet[OF assms] by (auto simp: get_client_info_def)

lemma get_client_del:
  assumes "get_app_inst_info h ik = Some a"
  shows "get_client_info (set_app_inst_info ik (a\<lparr>ea_clients := gdel c (ea_clients a)\<rparr>) h) k d =
     (if k = ik \<and> d = c then None else get_client_info h k d)"
  using assms app_inst_cloudlet[OF assms] by (auto simp: get_client_info_def)

record registry =
  rg_known :: "app_inst_key set"
  rg_clients :: "app_inst_key \<times> cookie \<rightharpoonup> client_info"

definition abs_registry :: "handler \<Rightarrow> registry" where
  "abs_registry h = \<lparr>rg_known = {ik. get_app_inst_info h ik \<noteq> None},
                    rg_clients = (\<lambda>(ik, c). get_client_info h ik c)\<rparr>"

datatype ee_op =
    Op_Available handle app_inst_key handle string
  | Op_Add app_inst_key cookie handle string handle
  | Op_Location app_inst_key cookie handle
  | Op_Carrier app_inst_key cookie string
  | Op_Remove app_inst_key cookie
  | Op_Remove_Inst app_inst_key
  | Op_Remove_Cloudlet cloudlet_key

fun ee_step :: "dme \<Rightarrow> ee_op \<Rightarrow> handler \<Rightarrow> handler" where
  "ee_step x (Op_Available app ik inst carrier) h = fst (send_available_app_inst x app ik inst carrier h)"
| "ee_step x (Op_Add ik c loc carrier send) h = add_client ik c loc carrier send h"
| "ee_step x (Op_Location ik c loc) h = update_client_last_location ik c loc h"
| "ee_step x (Op_Carrier ik c carrier) h = update_client_carrier ik c carrier h"
| "ee_step x (Op_Remove ik c) h = remove_client ik c h"
| "ee_step x (Op_Remove_Inst ik) h = remove_app_inst ik h"
| "ee_step x (Op_Remove_Cloudlet ck) h = remove_cloudlet ck h"

definition drop_insts :: "(app_inst_key \<Rightarrow> bool) \<Rightarrow> registry \<Rightarrow> registry" where
  "drop_insts P r = \<lparr>rg_known = {ik \<in> rg_known r. \<not> P ik},
                    rg_clients = (\<lambda>(ik, c). if P ik then None else rg_clients r (ik, c))\<rparr>"

fun registry_step :: "ee_op \<Rightarrow> registry \<Rightarrow> registry" where
  "registry_step (Op_Available app ik inst carrier) r = r\<lparr>rg_known := insert ik (rg_known r)\<rparr>"
| "registry_step (Op_Add ik c loc carrier send) r =
     (if ik \<in> rg_known r
      then r\<lparr>rg_clients := (rg_clients r)((ik, c) \<mapsto> \<lparr>ec_send = send, ec_loc = loc, ec_carrier = carrier\<rparr>)\<rparr> else r)"
| "registry_step (Op_Location ik c loc) r =
     r\<lparr>rg_clients := (rg_clients r)((ik, c) := map_option (ec_loc_update (\<lambda>_. loc)) (rg_clients r (ik, c)))\<rparr>"
| "registry_step (Op_Carrier ik c carrier) r =
     r\<lparr>rg_clients := (rg_clients r)((ik, c) := map_option (ec_carrier_update (\<lambda>_. carrier)) (rg_clients r (ik, c)))\<rparr>"
| "registry_step (Op_Remove ik c) r = r\<lparr>rg_clients := (rg_clients r)((ik, c) := None)\<rparr>"
| "registry_step (Op_Remove_Inst ik) r = drop_insts (\<lambda>k. k = ik) r"
| "registry_step (Op_Remove_Cloudlet ck) r = drop_insts (\<lambda>k. inst_cloudlet k = ck) r"

lemma get_enter [simp]:
  "get_app_inst_info (enter_app_inst ik inst carrier h) k =
     (if k = ik \<and> get_app_inst_info h ik = None
      then Some \<lparr>ea_key = ik, ea_carrier = carrier, ea_inst = inst, ea_clients = []\<rparr> else get_app_inst_info h k)"
  by (auto simp: enter_app_inst_def Let_def get_info_defs split: option.splits)

lemma get_client_enter [simp]:
  "get_client_info (enter_app_inst ik inst carrier h) k c = get_client_info h k c"
  by (auto simp: get_client_info_def split: option.splits)

lemma gdel_empty: "gdel k m = [] \<Longrightarrow> k' \<noteq> k \<Longrightarrow> map_of m k' = None"
  using gmap_del_get[of k m] by (metis fun_upd_other map_of.simps(1))

lemma get_remove_inst [simp]:
  "get_app_inst_info (remove_app_inst_key ik h) k = (if k = ik then None else get_app_inst_info h k)"
  by (auto simp: remove_app_inst_key_def remove_cloudlet_key_def get_info_defs Let_def gdel_empty
      split: option.splits)

lemma get_remove_cloudlet [simp]:
  "get_app_inst_info (remove_cloudlet_key ck h) k = (if inst_cloudlet k = ck then None else get_app_inst_info h k)"
  by (simp add: remove_cloudlet_key_def get_info_defs)

lemma get_client_remove [simp]:
  "get_client_info (remove_app_inst_key ik h) k c = (if k = ik then None else get_client_info h k c)"
  "get_client_info (remove_cloudlet_key ck h) k c = (if inst_cloudlet k = ck then None else get_client_info h k c)"
  by (simp_all add: get_client_info_def)

lemma get_add_client:
  "get_client_info (add_client ik c loc carrier send h) k d =
     (if k = ik \<and> d = c \<and> get_app_inst_info h ik \<noteq> None
      then Some \<lparr>ec_send = send, ec_loc = loc, ec_carrier = carrier\<rparr> else get_client_info h k d)"
proof (cases "get_app_inst_info h ik")
  case None
  then have "add_client ik c loc carrier send h = h"
    by (auto simp: add_client_def get_info_defs split: option.splits)
  then show ?thesis using None by simp
next
  case (Some a)
  then have "add_client ik c loc carrier send h = set_app_inst_info ik
      (a\<lparr>ea_clients := gput c \<lparr>ec_send = send, ec_loc = loc, ec_carrier = carrier\<rparr> (ea_clients a)\<rparr>) h"
    by (auto simp: add_client_def get_info_defs split: option.splits)
  then show ?thesis using Some by (auto simp: get_client_put)
qed

lemma get_set_client:
  assumes "get_client_info h ik c = Some ci"
  shows "get_client_info (set_client_info ik c ci' h) k d = (if k = ik \<and> d = c then Some ci' else get_client_info h k d)"
  using assms
  by (auto simp: set_client_info_def get_client_put get_client_info_def[of h ik c] split: option.splits)

lemma known_set_client [simp]:
  "get_app_inst_info (set_client_info ik c ci h) k = None \<longleftrightarrow> get_app_inst_info h k = None"
  by (auto simp: set_client_info_def split: option.splits)

lemma known_add_client [simp]:
  "get_app_inst_info (add_client ik c loc carrier send h) k = None \<longleftrightarrow> get_app_inst_info h k = None"
  by (auto simp: add_client_def get_info_defs set_app_inst_info_def split: option.splits)

lemma known_remove_client [simp]:
  "get_app_inst_info (remove_client_key ik c h) k = None \<longleftrightarrow> get_app_inst_info h k = None"
  by (auto simp: remove_client_key_def split: option.splits)

lemma get_remove_client:
  "get_client_info (remove_client_key ik c h) k d = (if k = ik \<and> d = c then None else get_client_info h k d)"
  by (auto simp: remove_client_key_def get_client_del get_client_info_def split: option.splits
      dest: app_inst_cloudlet)

lemma ee_step_refines: "abs_registry (ee_step x op h) = registry_step op (abs_registry h)"
proof (cases op)
  case (Op_Location ik c loc)
  then show ?thesis
    by (cases "get_client_info h ik c")
      (auto simp: abs_registry_def update_client_last_location_def get_set_client fun_eq_iff)
next
  case (Op_Carrier ik c carrier)
  then show ?thesis
    by (cases "get_client_info h ik c")
      (auto simp: abs_registry_def update_client_carrier_def get_set_client fun_eq_iff)
qed (auto simp: abs_registry_def send_available_app_inst_def Let_def get_add_client get_remove_client fun_eq_iff
       remove_client_def remove_app_inst_def remove_cloudlet_def drop_insts_def split: if_splits)

subsection \<open>The invariant of the table\<close>

text \<open>
  Every AppInst is entered under its own key and its own Cloudlet, no Cloudlet is kept without
  AppInst, and no key occurs twice.
\<close>

definition insts_ok :: "cloudlet_key \<Rightarrow> insts \<Rightarrow> bool" where
  "insts_ok ck is \<longleftrightarrow> is \<noteq> [] \<and> distinct (gkeys is) \<and>
     (\<forall>(k, a)\<in>set is. inst_cloudlet k = ck \<and> ea_key a = k \<and> distinct (gkeys (ea_clients a)))"

definition handler_ok :: "handler \<Rightarrow> bool" where
  "handler_ok h \<longleftrightarrow> distinct (gkeys (eh_cloudlets h)) \<and> (\<forall>(ck, is)\<in>set (eh_cloudlets h). insts_ok ck is)"

lemma handler_ok_get:
  "handler_ok h \<Longrightarrow> map_of (eh_cloudlets h) ck = Some is \<Longrightarrow> insts_ok ck is"
  by (auto simp: handler_ok_def dest: map_of_SomeD)

lemma handler_ok_put:
  "handler_ok h \<Longrightarrow> insts_ok ck is \<Longrightarrow> handler_ok (h\<lparr>eh_cloudlets := gput ck is (eh_cloudlets h)\<rparr>)"
  by (auto simp: handler_ok_def distinct_update dest!: gmap_put_elem)

lemma handler_ok_del: "handler_ok h \<Longrightarrow> handler_ok (h\<lparr>eh_cloudlets := gdel ck (eh_cloudlets h)\<rparr>)"
  by (auto simp: handler_ok_def distinct_delete set_gdel)

lemma gput_not_Nil [simp]: "gput k v m \<noteq> []"
  by (cases m) auto

lemma insts_ok_put:
  assumes "is = [] \<or> insts_ok ck is" and "inst_cloudlet k = ck" "ea_key a = k" "distinct (gkeys (ea_clients a))"
  shows "insts_ok ck (gput k a is)"
  using assms by (auto simp: insts_ok_def distinct_update dest!: gmap_put_elem)

lemma insts_ok_get:
  "insts_ok ck is \<Longrightarrow> map_of is k = Some a \<Longrightarrow> inst_cloudlet k = ck \<and> ea_key a = k \<and> distinct (gkeys (ea_clients a))"
  by (fastforce simp: insts_ok_def dest: map_of_SomeD)

lemma get_app_inst_ok:
  "handler_ok h \<Longrightarrow> get_app_inst_info h ik = Some a \<Longrightarrow> ea_key a = ik \<and> distinct (gkeys (ea_clients a))"
  by (auto simp: get_info_defs split: option.splits dest: handler_ok_get insts_ok_get)

lemma set_app_inst_ok:
  "handler_ok h \<Longrightarrow> ea_key a = ik \<Longrightarrow> distinct (gkeys (ea_clients a)) \<Longrightarrow> handler_ok (set_app_inst_info ik a h)"
  by (auto simp: set_app_inst_info_def get_cloudlet_info_def split: option.splits
      intro!: handler_ok_put insts_ok_put dest: handler_ok_get)

lemma set_client_ok: "handler_ok h \<Longrightarrow> handler_ok (set_client_info ik c ci h)"
  by (auto simp: set_client_info_def distinct_update split: option.splits
      intro!: set_app_inst_ok dest: get_app_inst_ok)

lemma add_client_ok: "handler_ok h \<Longrightarrow> handler_ok (add_client ik c loc carrier send h)"
  using get_app_inst_ok[of h ik]
  by (auto simp: add_client_def get_info_defs distinct_update split: option.splits intro!: set_app_inst_ok)

lemma remove_client_ok: "handler_ok h \<Longrightarrow> handler_ok (remove_client_key ik c h)"
  by (auto simp: remove_client_key_def distinct_delete split: option.splits
      intro!: set_app_inst_ok dest: get_app_inst_ok)

lemma enter_app_inst_ok: "handler_ok h \<Longrightarrow> handler_ok (enter_app_inst ik inst carrier h)"
  by (auto simp: enter_app_inst_def Let_def insts_ok_def[of _ "[_]"] split: option.splits
      intro!: handler_ok_put insts_ok_put dest: handler_ok_get)

lemma remove_app_inst_ok:
  assumes "handler_ok h"
  shows "handler_ok (remove_app_inst_key ik h)"
proof (cases "get_cloudlet_info h (inst_cloudlet ik)")
  case None
  then show ?thesis using assms by (simp add: remove_app_inst_key_def)
next
  case (Some xs)
  let ?is = "gdel ik xs"
  have ok: "insts_ok (inst_cloudlet ik) xs"
    using assms Some by (auto simp: get_cloudlet_info_def dest: handler_ok_get)
  show ?thesis
  proof (cases "?is = []")
    case True
    then have "remove_app_inst_key ik h = h\<lparr>eh_cloudlets := gdel (inst_cloudlet ik)
        (gput (inst_cloudlet ik) [] (eh_cloudlets h))\<rparr>"
      using Some by (simp add: remove_app_inst_key_def remove_cloudlet_key_def Let_def)
    moreover have "gdel ck (gput ck v m) = gdel ck m" for ck :: cloudlet_key and v :: insts and m
      by (induction m) (auto simp: AList.delete_eq)
    ultimately show ?thesis using assms by (simp add: handler_ok_del)
  next
    case False
    have "insts_ok (inst_cloudlet ik) ?is"
      using ok False by (auto simp: insts_ok_def distinct_delete set_gdel)
    then show ?thesis
      using assms Some False by (simp add: remove_app_inst_key_def Let_def handler_ok_put)
  qed
qed

lemma ee_step_ok: "handler_ok h \<Longrightarrow> handler_ok (ee_step x op h)"
  by (cases op)
    (auto simp: send_available_app_inst_def Let_def update_client_last_location_def update_client_carrier_def
      remove_client_def remove_app_inst_def remove_cloudlet_def remove_cloudlet_key_def
      split: option.splits intro: enter_app_inst_ok add_client_ok set_client_ok remove_client_ok
      remove_app_inst_ok handler_ok_del)

interpretation edge: refinement "ee_step x" registry_step abs_registry handler_ok
  by unfold_locales (rule ee_step_ok ee_step_refines, assumption?)+

lemma new_handler_ok: "handler_ok (new_handler n)"
  by (simp add: new_handler_def handler_ok_def)

subsection \<open>Properties\<close>

text \<open>
  C11 (clients refine registry): after any sequence of calls the table is well-formed (every
  AppInst under its own key and Cloudlet, no key twice, no Cloudlet without AppInst) and its
  lookups are those of the abstract registry: a set of known AppInsts and a map from AppInst and
  cookie to the client, in which removing an AppInst or a Cloudlet removes all its clients.
\<close>

theorem clients_refine_registry:
  "let h = fold (ee_step x) ops (new_handler n) in
     handler_ok h \<and> abs_registry h = fold registry_step ops \<lparr>rg_known = {}, rg_clients = Map.empty\<rparr>"
proof -
  have "abs_registry (new_handler n) = \<lparr>rg_known = {}, rg_clients = Map.empty\<rparr>"
    by (auto simp: abs_registry_def new_handler_def get_info_defs)
  then show ?thesis
    unfolding Let_def using edge.ok_run[OF new_handler_ok] edge.abs_run[OF new_handler_ok] by metis
qed

text \<open>The clients of a Cloudlet.\<close>

definition clients_on :: "handler \<Rightarrow> cloudlet_key \<Rightarrow> (app_inst_key \<times> cookie \<times> client_info) set" where
  "clients_on h ck = {(k, c, ci). inst_cloudlet k = ck \<and> get_client_info h k c = Some ci}"

definition listed_clients :: "insts \<Rightarrow> (app_inst_key \<times> cookie \<times> client_info) list" where
  "listed_clients is = concat (map (\<lambda>(k, a). map (\<lambda>(c, ci). (k, c, ci)) (ea_clients a)) is)"

lemma listed_clients_iff:
  "(k, c, ci) \<in> set (listed_clients xs) \<longleftrightarrow> (\<exists>a. (k, a) \<in> set xs \<and> (c, ci) \<in> set (ea_clients a))"
proof (induction xs)
  case (Cons e xs)
  obtain k' a where e: "e = (k', a)" by fastforce
  have "(k, c, ci) \<in> (\<lambda>(d, di). (k', d, di)) ` S \<longleftrightarrow> k = k' \<and> (c, ci) \<in> S" for S :: "(cookie \<times> client_info) set"
    by force
  then have "(k, c, ci) \<in> set (listed_clients (e # xs)) \<longleftrightarrow>
      k = k' \<and> (c, ci) \<in> set (ea_clients a) \<or> (k, c, ci) \<in> set (listed_clients xs)"
    by (simp add: listed_clients_def e)
  then show ?case using Cons.IH e by simp metis
qed (simp add: listed_clients_def)

lemma listed_clients_set:
  assumes "handler_ok h" and "get_cloudlet_info h ck = Some xs"
  shows "set (listed_clients xs) = clients_on h ck"
proof -
  have ok: "insts_ok ck xs" using assms by (auto simp: get_cloudlet_info_def dest: handler_ok_get)
  have "(k, c, ci) \<in> set (listed_clients xs) \<longleftrightarrow> (k, c, ci) \<in> clients_on h ck" for k c ci
  proof -
    have "(k, c, ci) \<in> set (listed_clients xs) \<longleftrightarrow> (\<exists>a. (k, a) \<in> set xs \<and> (c, ci) \<in> set (ea_clients a))"
      by (rule listed_clients_iff)
    also have "\<dots> \<longleftrightarrow> (\<exists>a. map_of xs k = Some a \<and> map_of (ea_clients a) c = Some ci)"
    proof -
      have "(k, a) \<in> set xs \<Longrightarrow> (c, ci) \<in> set (ea_clients a) \<longleftrightarrow> map_of (ea_clients a) c = Some ci" for a
        using ok by (auto simp: insts_ok_def)
      then show ?thesis using ok by (auto simp: insts_ok_def)
    qed
    also have "\<dots> \<longleftrightarrow> (k, c, ci) \<in> clients_on h ck"
    proof -
      have "(k, c, ci) \<in> clients_on h ck \<longleftrightarrow>
          inst_cloudlet k = ck \<and> (\<exists>a. map_of xs k = Some a \<and> map_of (ea_clients a) c = Some ci)"
        using assms(2) by (auto simp: clients_on_def get_client_info_def get_app_inst_info_def split: option.splits)
      then show ?thesis using insts_ok_get[OF ok] by blast
    qed
    finally show ?thesis .
  qed
  then show ?thesis by auto
qed

lemma distinct_listed_clients:
  assumes "insts_ok ck xs"
  shows "distinct (listed_clients xs)"
proof -
  have "distinct (gkeys xs) \<Longrightarrow> \<forall>(k, a)\<in>set xs. distinct (gkeys (ea_clients a)) \<Longrightarrow> distinct (listed_clients xs)"
  proof (induction xs)
    case (Cons e xs)
    obtain k a where e: "e = (k, a)" by fastforce
    have "distinct (map (\<lambda>(c, ci). (k, c, ci)) (ea_clients a))"
      using Cons.prems e by (auto simp: distinct_map inj_on_def)
    then show ?case
      using Cons e by (force simp: listed_clients_def)
  qed (simp add: listed_clients_def)
  then show ?thesis using assms by (fastforce simp: insts_ok_def)
qed

lemma send_cloudlet_state_eq:
  "get_cloudlet_info h ck = Some xs \<Longrightarrow> snd (send_cloudlet_state x st ck h) =
     map (\<lambda>(k, c, ci). (ec_send ci, create_cloudlet_state_event x (eh_expiration h)
            (st\<lparr>st_maintenance := Normal_Operation, st_health := Health_Ok\<rparr>) k ci
            (x_usable x Normal_Operation (st_cloudlet st) Health_Ok)))
       (listed_clients xs)"
  by (simp add: send_cloudlet_state_def listed_clients_def map_concat case_prod_unfold comp_def get_usability_def Let_def)

lemma state_event_answer:
  "ev_error_msg ev = '''' \<Longrightarrow> ev_new_cloudlet (add_new_cloudlet x n k ci ev) = None \<longleftrightarrow>
     ev_error_msg (add_new_cloudlet x n k ci ev) \<noteq> ''''"
  by (auto simp: add_new_cloudlet_def split: sum.splits)

text \<open>
  Note (who hears of a Cloudlet state): a state event of a Cloudlet goes to every client of every
  AppInst on it, once to each, and to nobody else; the event tells the state, and exactly when
  that state makes the Cloudlet unusable it brings a new Cloudlet or, when none was found, the
  reason.
\<close>

theorem cloudlet_state_reaches_clients:
  assumes "handler_ok h"
  shows "\<exists>cs. distinct cs \<and> set cs = clients_on h ck \<and>
     map fst (snd (send_cloudlet_state x st ck h)) = map (\<lambda>(k, c, ci). ec_send ci) cs \<and>
     (\<forall>(s, ev)\<in>set (snd (send_cloudlet_state x st ck h)).
        ev_type ev = Ev_Cloudlet_State \<and> ev_cloudlet_state ev = st_cloudlet st \<and>
        (x_usable x Normal_Operation (st_cloudlet st) Health_Ok \<longrightarrow>
           ev_new_cloudlet ev = None \<and> ev_error_msg ev = '''') \<and>
        (\<not> x_usable x Normal_Operation (st_cloudlet st) Health_Ok \<longrightarrow>
           (ev_new_cloudlet ev = None \<longleftrightarrow> ev_error_msg ev \<noteq> '''')))"
proof (cases "get_cloudlet_info h ck")
  case None
  then have "clients_on h ck = {}"
    by (auto simp: clients_on_def get_client_info_def get_app_inst_info_def)
  then show ?thesis using None by (simp add: send_cloudlet_state_def)
next
  case (Some xs)
  have ok: "insts_ok ck xs" using assms Some by (auto simp: get_cloudlet_info_def dest: handler_ok_get)
  have "ev_type e = Ev_Cloudlet_State \<and> ev_cloudlet_state e = st_cloudlet st \<and>
      (x_usable x Normal_Operation (st_cloudlet st) Health_Ok \<longrightarrow> ev_new_cloudlet e = None \<and> ev_error_msg e = '''') \<and>
      (\<not> x_usable x Normal_Operation (st_cloudlet st) Health_Ok \<longrightarrow> (ev_new_cloudlet e = None \<longleftrightarrow> ev_error_msg e \<noteq> ''''))"
    if "(s, e) \<in> set (snd (send_cloudlet_state x st ck h))" for s e
    using that unfolding send_cloudlet_state_eq[OF Some]
    by (auto simp: create_cloudlet_state_event_def new_event_def add_new_cloudlet_def Let_def split: sum.splits if_splits)
  moreover have "map fst (snd (send_cloudlet_state x st ck h)) = map (\<lambda>(k, c, ci). ec_send ci) (listed_clients xs)"
    by (simp add: send_cloudlet_state_eq[OF Some] case_prod_unfold)
  ultimately show ?thesis
    using listed_clients_set[OF assms Some] distinct_listed_clients[OF ok] by blast
qed

text \<open>
  Note (same carrier): \<open>SendAvailableAppInst\<close> puts the new AppInst and the client's one into a map
  keyed by their carriers.  When the carriers are equal only the client's one stays in the map, so
  however the search works, as long as it answers only AppInsts of the map, a client on an
  AppInst of the same carrier is never told of a closer one.
\<close>

theorem same_carrier_is_not_told:
  assumes "\<forall>carrier app loc data n. set (x_search x carrier app loc data n) \<subseteq> {i. \<exists>(c, is)\<in>set data. i \<in> snd ` set is}"
    and "ea_carrier a = carrier" and "x_uri x (ea_inst a) \<noteq> x_uri x inst"
  shows "tell_client x n app ik inst carrier a ci = []"
proof -
  let ?found = "x_search x (ec_carrier ci) app (ec_loc ci) (carrier_data ik inst carrier a) 1"
  have "carrier_data ik inst carrier a = [(carrier, [(ai_cluster_inst (ea_key a), ea_inst a)])]"
    using assms(2) by (simp add: carrier_data_def)
  then have "set ?found \<subseteq> {ea_inst a}" using assms(1) by fastforce
  then have "length ?found = 1 \<Longrightarrow> ?found ! 0 = ea_inst a"
    by (cases ?found) auto
  then show ?thesis using assms(3) by (auto simp: tell_client_def Let_def)
qed

subsection \<open>Witnesses\<close>

definition demo_dme :: dme where
  "demo_dme = \<lparr>x_search = (\<lambda>carrier app loc data n. take n (map snd (concat (map snd data)))),
     x_uri = strconv_itoa \<circ> int, x_reply = (\<lambda>inst loc n. inst),
     x_find_cloudlet = (\<lambda>k carrier loc n. Inr (True, ''FIND_FOUND'', 7)),
     x_usable = (\<lambda>m c hc. m = Normal_Operation \<and> c = Cloudlet_State_Ready \<and> hc = Health_Ok),
     x_statistics = length\<rparr>"

definition demo_ee_inst :: "string \<Rightarrow> string \<Rightarrow> app_inst_key" where
  "demo_ee_inst cl ap = \<lparr>ai_app = \<lparr>app_org = ''dev'', app_name = ap, app_version = ''1''\<rparr>,
     ai_cluster_inst = \<lparr>ci_cluster = ''c'', ci_cloudlet = \<lparr>cl_org = ''oper'', cl_name = cl, cl_fed_org = ''''\<rparr>,
       ci_org = ''dev''\<rparr>\<rparr>"

definition demo_handler :: handler where
  "demo_handler = fold (ee_step demo_dme)
     [Op_Available 1 (demo_ee_inst ''a'' ''game'') 10 ''gdt'', Op_Available 1 (demo_ee_inst ''b'' ''game'') 11 ''tmus'',
      Op_Add (demo_ee_inst ''a'' ''game'') ''c1'' 5 ''gdt'' 100, Op_Add (demo_ee_inst ''a'' ''game'') ''c2'' 6 ''gdt'' 101,
      Op_Add (demo_ee_inst ''b'' ''game'') ''c3'' 6 ''gdt'' 102, Op_Remove (demo_ee_inst ''a'' ''game'') ''c2'']
     (new_handler 600)"

lemma demo_handler_ok: "handler_ok demo_handler"
  unfolding demo_handler_def by (rule edge.ok_run[OF new_handler_ok])

theorem cloudlet_state_reaches_clients_witness:
  "\<exists>cs. distinct cs \<and> set cs = clients_on demo_handler (inst_cloudlet (demo_ee_inst ''a'' ''game'')) \<and>
     map (\<lambda>(k, c, ci). ec_send ci) cs = [100]"
proof -
  have "map fst (snd (send_cloudlet_state demo_dme
      \<lparr>st_maintenance = Normal_Operation, st_cloudlet = Cloudlet_State_Other 3, st_health = Health_Ok\<rparr>
      (inst_cloudlet (demo_ee_inst ''a'' ''game'')) demo_handler)) = [100]"
    by code_simp
  then show ?thesis
    using cloudlet_state_reaches_clients[OF demo_handler_ok, of "inst_cloudlet (demo_ee_inst ''a'' ''game'')"
        demo_dme "\<lparr>st_maintenance = Normal_Operation, st_cloudlet = Cloudlet_State_Other 3, st_health = Health_Ok\<rparr>"]
    by metis
qed

end
