(* ===== verification/Fed_Types.thy ===== *)
theory Fed_Types
  imports MC_Safety MC_Users
begin

text \<open>
  Federation between master controllers: its tables (\<open>src/mc/ormapi/federation_api.go\<close>), the checks of
  \<open>src/mc/federation/common/utils.go\<close>, the messages of \<open>src/mc/federation/api.go\<close> and the client
  that sends them (\<open>client.go\<close>).  One master controller is a record \<open>fed_db\<close>; its partner is
  reached through a function \<open>net\<close> that acts on a state of its own.
\<close>

subsection \<open>Tables\<close>

record federator =
  fr_id :: string
  fr_operator :: string
  fr_country :: string
  fr_addr :: string
  fr_region :: string
  fr_mcc :: string
  fr_mnc :: "string list"
  fr_locator :: string
  fr_revision :: string
  fr_api_key :: string
  fr_hash :: string
  fr_salt :: string
  fr_iter :: int

text \<open>
  \<open>fn_share\<close> is \<open>PartnerRoleShareZonesWithSelf\<close>, \<open>fn_access\<close> is \<open>PartnerRoleAccessToSelfZones\<close>.
\<close>

record federation =
  fn_name :: string
  fn_self_id :: string
  fn_self_op :: string
  fn_partner :: federator
  fn_share :: bool
  fn_access :: bool

record fzone =
  z_id :: string
  z_operator :: string
  z_country :: string
  z_geo :: string
  z_city :: string
  z_state :: string
  z_locality :: string
  z_region :: string
  z_cloudlets :: "string list"
  z_revision :: string

record self_zone =
  sz_id :: string
  sz_self_op :: string
  sz_fed :: string
  sz_registered :: bool
  sz_revision :: string

record partner_zone =
  pz_self_op :: string
  pz_fed :: string
  pz_zone :: fzone
  pz_registered :: bool

text \<open>The vault holds the keys that give access to partners, by the name of the federation.\<close>

record fed_db =
  fd_mc :: mc
  fd_regions :: "string list"
  fd_federators :: "federator list"
  fd_federations :: "federation list"
  fd_zones :: "fzone list"
  fd_self_zones :: "self_zone list"
  fd_partner_zones :: "partner_zone list"
  fd_vault :: "(string \<times> string) list"

subsection \<open>Environment\<close>

datatype resource = Ram_Mb | Vcpus | Disk_Gb | Other_Resource string

text \<open>A cloudlet made from a zone of a partner, as far as the call sets it.\<close>

record fed_cloudlet =
  fc_name :: string
  fc_org :: string
  fc_federated_org :: string
  fc_location :: "real \<times> real"
  fc_quotas :: "(resource \<times> 64 word) list"
  fc_fed_name :: string
  fc_partner_addr :: string
  fc_self_id :: string
  fc_partner_id :: string
  fc_country :: string

record fed_env =
  fe_users :: user_env
  fe_addr :: string                                   \<comment> \<open>\<open>serverConfig.FederationAddr\<close>\<close>
  fe_country_ok :: "string \<Rightarrow> bool"                   \<comment> \<open>\<open>valid.IsISO3166Alpha2\<close>\<close>
  fe_parse_float :: "string \<Rightarrow> real option"           \<comment> \<open>\<open>strconv.ParseFloat\<close>\<close>
  fe_latitude :: "string \<Rightarrow> bool"                     \<comment> \<open>\<open>valid.IsLatitude\<close>\<close>
  fe_longitude :: "string \<Rightarrow> bool"
  fe_cloudlets :: "string \<Rightarrow> string \<Rightarrow> string + string list"   \<comment> \<open>\<open>ShowCloudletStream\<close>: region, organization\<close>
  fe_quotas :: "string \<Rightarrow> string \<Rightarrow> string \<Rightarrow> string + (resource \<times> 64 word) list"   \<comment> \<open>region, organization, cloudlet\<close>
  fe_infra_max :: "string \<Rightarrow> string \<Rightarrow> string \<Rightarrow> string + (resource \<times> 64 word) list"   \<comment> \<open>\<open>ShowCloudletInfoStream\<close>\<close>
  fe_create_cloudlet :: "string \<Rightarrow> fed_cloudlet \<Rightarrow> string option"
  fe_delete_cloudlet :: "string \<Rightarrow> string \<times> string \<times> string \<Rightarrow> string option"  \<comment> \<open>region, (name, organization, federated)\<close>
  fe_vault_put :: "string \<Rightarrow> string option"
  fe_vault_get :: "string \<Rightarrow> string option"

subsection \<open>Checks of names\<close>

text \<open>The regular expression \<open>^[a-zA-Z0-9][a-zA-Z0-9_-]*[a-zA-Z0-9]$\<close>.\<close>

definition alnum :: "char \<Rightarrow> bool" where
  "alnum c \<longleftrightarrow> (let n = (of_char c :: nat) in (97 \<le> n \<and> n \<le> 122) \<or> (65 \<le> n \<and> n \<le> 90) \<or> (48 \<le> n \<and> n \<le> 57))"

definition name_match :: "string \<Rightarrow> bool" where
  "name_match s \<longleftrightarrow> 2 \<le> length s \<and> alnum (hd s) \<and> alnum (last s) \<and>
     list_all (\<lambda>c. alnum c \<or> c = CHR ''_'' \<or> c = CHR ''-'') s"

definition validate_zone_id :: "string \<Rightarrow> string option" where
  "validate_zone_id zid = first_fail
     [fail_if (\<not> name_match zid) (''Invalid zone ID '' @ zid @ '', can only contain alphanumeric, -, _ characters''),
      fail_if (strings_has_prefix zid ''_'') (''Invalid zone ID '' @ zid @ '', cannot start with _''),
      fail_if (strings_has_prefix zid ''-'') (''Invalid zone ID '' @ zid @ '', cannot start with -''),
      fail_if (length zid < 8 \<or> length zid > 32) (''Invalid zone ID '' @ zid @ '', valid length is 8 to 32 characters'')]"

definition validate_federation_name :: "string \<Rightarrow> string option" where
  "validate_federation_name name = fail_if (\<not> name_match name) (''Invalid federation name '' @ name)"

definition validate_country_code :: "fed_env \<Rightarrow> string \<Rightarrow> string option" where
  "validate_country_code fe code = first_fail
     [fail_if (code = '''') ''Missing country code'',
      fail_if (\<not> fe_country_ok fe code)
        (''Invalid country code '' @ code @ ''. It must be a valid ISO 3166-1 Alpha-2 code for the country'')]"

definition validate_federation_id :: "string \<Rightarrow> string option" where
  "validate_federation_id fid = first_fail
     [fail_if (\<not> name_match fid) (''Invalid federation ID '' @ fid @ '', can only contain alphanumeric, -, _ characters''),
      fail_if (strings_has_prefix fid ''_'') (''Invalid federation ID '' @ fid @ '', cannot start with _''),
      fail_if (strings_has_prefix fid ''-'') (''Invalid federation ID '' @ fid @ '', cannot start with -''),
      fail_if (length fid < 8 \<or> length fid > 128) (''Invalid federation ID '' @ fid @ '', valid length is 8 to 128 characters'')]"

definition validate_api_key :: "string \<Rightarrow> string option" where
  "validate_api_key key = fail_if (length key < 8 \<or> length key > 128)
     (''Invalid API key '' @ key @ '', valid length is 8 to 128 characters'')"

text \<open>White space is that of ASCII; the separator is a comma.\<close>

definition is_space :: "char \<Rightarrow> bool" where
  "is_space c \<longleftrightarrow> (of_char c :: nat) \<in> {9, 10, 11, 12, 13, 32}"

definition strings_trim_space :: "string \<Rightarrow> string" where
  "strings_trim_space s = rev (dropWhile is_space (rev (dropWhile is_space s)))"

definition parse_coordinate :: "fed_env \<Rightarrow> (string \<Rightarrow> bool) \<Rightarrow> string \<Rightarrow> string \<Rightarrow> string + real" where
  "parse_coordinate fe ok what s =
     (case fe_parse_float fe s of
        None \<Rightarrow> Inl (''Invalid '' @ what @ '' '' @ s @ '', must be a valid decimal number'')
      | Some r \<Rightarrow> if \<not> ok s then Inl (''Invalid '' @ what @ '': '' @ s) else Inr r)"

definition parse_geo_location :: "fed_env \<Rightarrow> string \<Rightarrow> string + real \<times> real" where
  "parse_geo_location fe geo =
     (if geo = '''' then Inl ''Missing geo location''
      else let loc = strings_split geo '','' in
        if length loc \<noteq> 2
        then Inl (''Invalid geo location '' @ geo @ ''. Valid format: <LatInDecimal,LongInDecimal>'')
        else case parse_coordinate fe (fe_latitude fe) ''latitude'' (strings_trim_space (loc ! 0)) of
            Inl e \<Rightarrow> Inl e
          | Inr lat \<Rightarrow> map_sum id (Pair lat) (parse_coordinate fe (fe_longitude fe) ''longitude'' (strings_trim_space (loc ! 1))))"

subsection \<open>Messages\<close>

record zone_info =
  zi_id :: string
  zi_geo :: string
  zi_city :: string
  zi_state :: string
  zi_locality :: string
  zi_edge_count :: nat

text \<open>What every message names: the request, both federations, and the operator that sends it.\<close>

record fed_header =
  fh_request :: string
  fh_orig :: string
  fh_dest :: string
  fh_operator :: string
  fh_country :: string

datatype fed_call =
    Partner_Create | Partner_Update string "string list" string | Partner_Delete
  | Zones_Register "string list" | Zones_Deregister "string list"
  | Zone_Share zone_info | Zone_Unshare string

record resource_info =
  ri_cpu :: int
  ri_ram :: int
  ri_disk :: int

datatype fed_reply =
    Partner_Created (rp_mcc: string) (rp_mnc: "string list") (rp_locator: string) (rp_zones: "zone_info list")
  | Zones_Registered (rp_details: "(string \<times> resource_info) list")
  | Fed_Done

text \<open>The address, the key, the message; the answer is that of the partner or an error of the transport.\<close>

type_synonym 'w net = "string \<Rightarrow> string \<Rightarrow> fed_header \<times> fed_call \<Rightarrow> 'w \<Rightarrow> (string + fed_reply) \<times> 'w"

fun fed_endpoint :: "fed_call \<Rightarrow> string \<times> string" where
  "fed_endpoint Partner_Create = (''POST'', ''/operator/partner'')"
| "fed_endpoint (Partner_Update _ _ _) = (''PUT'', ''/operator/partner'')"
| "fed_endpoint Partner_Delete = (''DELETE'', ''/operator/partner'')"
| "fed_endpoint (Zones_Register _) = (''POST'', ''/operator/zone'')"
| "fed_endpoint (Zones_Deregister _) = (''DELETE'', ''/operator/zone'')"
| "fed_endpoint (Zone_Share _) = (''POST'', ''/operator/notify/zone'')"
| "fed_endpoint (Zone_Unshare _) = (''DELETE'', ''/operator/notify/zone'')"

definition request_url :: "string \<Rightarrow> fed_call \<Rightarrow> string" where
  "request_url addr call =
     (let a = (if strings_has_prefix addr ''http'' then addr else ''https://'' @ addr) in
      strings_trim_suffix a ''/'' @ snd (fed_endpoint call))"

definition send_request :: "fed_env \<Rightarrow> 'w net \<Rightarrow> fed_db \<Rightarrow> string \<Rightarrow> string \<Rightarrow> string \<Rightarrow> fed_header \<Rightarrow> fed_call \<Rightarrow> 'w \<Rightarrow>
    (string + fed_reply) \<times> 'w" where
  "send_request fe net db addr fed_name key hdr call w =
     (if addr = '''' then (Inl ''Missing partner federation address'', w)
      else case (if key \<noteq> '''' then Inr key
                 else if fed_name = '''' then Inl ''Missing partner federation name''
                 else case (fe_vault_get fe fed_name, map_of (fd_vault db) fed_name) of
                     (None, Some k) \<Rightarrow> Inr k
                   | (e, _) \<Rightarrow> Inl (''Unable to fetch partner '' @ fed_name @ '' API key from vault: '' @
                       (case e of Some t \<Rightarrow> t | None \<Rightarrow> ''not found''))) of
          Inl e \<Rightarrow> (Inl e, w)
        | Inr k \<Rightarrow> if k = '''' then (Inl ''Missing partner federation API key from vault'', w)
                  else net (request_url addr call) k (hdr, call) w)"

end
