(* ===== verification/Fed_Tables.thy ===== *)
theory Fed_Tables
  imports Fed_Types
begin

text \<open>
  The calls of the database that the federation code makes: lookups by the fields that are set,
  creation with the constraints of \<open>InitFederationAPIConstraints\<close> (\<open>src/mc/orm/federation_mc.go\<close>), writing
  back a row that was read, and deletion; and the lookups \<open>GetSelfFederator\<close>, \<open>GetFederationById\<close> and
  \<open>GetFederationByName\<close> made of them.
\<close>

subsection \<open>Lookups\<close>

text \<open>A field that is empty is no condition.\<close>

definition lookup :: "db_err \<Rightarrow> string \<Rightarrow> string \<Rightarrow> ('r \<Rightarrow> bool) \<Rightarrow> 'r list \<Rightarrow> string + 'r option" where
  "lookup err table key cond rows = (case err (Call_Find table key) of Some e \<Rightarrow> Inl e | None \<Rightarrow> Inr (find cond rows))"

definition first_federator :: "db_err \<Rightarrow> string \<Rightarrow> string \<Rightarrow> fed_db \<Rightarrow> string + federator option" where
  "first_federator err fid op db = lookup err ''federators'' fid
     (\<lambda>f. field_matches fid (fr_id f) \<and> (op = '''' \<or> citext_eq (fr_operator f) op)) (fd_federators db)"

definition first_federation_by_id :: "db_err \<Rightarrow> string \<Rightarrow> fed_db \<Rightarrow> string + federation option" where
  "first_federation_by_id err fid db = lookup err ''federations'' fid (\<lambda>f. field_matches fid (fn_self_id f)) (fd_federations db)"

definition first_federation :: "db_err \<Rightarrow> string \<Rightarrow> string \<Rightarrow> fed_db \<Rightarrow> string + federation option" where
  "first_federation err name op db = lookup err ''federations'' name
     (\<lambda>f. field_matches name (fn_name f) \<and> field_matches op (fn_self_op f)) (fd_federations db)"

definition first_zone :: "db_err \<Rightarrow> string \<Rightarrow> string \<Rightarrow> string \<Rightarrow> fed_db \<Rightarrow> string + fzone option" where
  "first_zone err zid op country db = lookup err ''federator_zones'' zid
     (\<lambda>z. field_matches zid (z_id z) \<and> (op = '''' \<or> citext_eq (z_operator z) op) \<and> field_matches country (z_country z))
     (fd_zones db)"

definition first_self_zone :: "db_err \<Rightarrow> string \<Rightarrow> string \<Rightarrow> fed_db \<Rightarrow> string + self_zone option" where
  "first_self_zone err zid fed db = lookup err ''federated_self_zones'' zid
     (\<lambda>z. field_matches zid (sz_id z) \<and> field_matches fed (sz_fed z)) (fd_self_zones db)"

definition first_partner_zone :: "db_err \<Rightarrow> string \<Rightarrow> string \<Rightarrow> string \<Rightarrow> string \<Rightarrow> fed_db \<Rightarrow> string + partner_zone option" where
  "first_partner_zone err fed op country zid db = lookup err ''federated_partner_zones'' zid
     (\<lambda>z. field_matches fed (pz_fed z) \<and> (op = '''' \<or> citext_eq (z_operator (pz_zone z)) op) \<and>
        field_matches country (z_country (pz_zone z)) \<and> field_matches zid (z_id (pz_zone z))) (fd_partner_zones db)"

definition self_zones_of :: "string \<Rightarrow> fed_db \<Rightarrow> self_zone list" where
  "self_zones_of fed db = filter (\<lambda>z. field_matches fed (sz_fed z)) (fd_self_zones db)"

definition partner_zones_of :: "string \<Rightarrow> fed_db \<Rightarrow> partner_zone list" where
  "partner_zones_of fed db = filter (\<lambda>z. field_matches fed (pz_fed z)) (fd_partner_zones db)"

subsection \<open>Creation\<close>

definition create_row :: "db_err \<Rightarrow> string \<Rightarrow> string \<Rightarrow> string option \<Rightarrow> (fed_db \<Rightarrow> fed_db) \<Rightarrow> fed_db \<Rightarrow> mc_err option \<times> fed_db" where
  "create_row err table key conflict put db =
     (case first_fail [map_option db_error (err (Call_Create table key)), map_option Err conflict] of
        Some e \<Rightarrow> (Some e, db)
      | None \<Rightarrow> (None, put db))"

text \<open>The table of federators is also read when an organization is deleted.\<close>

definition set_federators :: "federator list \<Rightarrow> fed_db \<Rightarrow> fed_db" where
  "set_federators fs db = db\<lparr>fd_federators := fs, fd_mc := (fd_mc db)\<lparr>mc_federators := map fr_operator fs\<rparr>\<rparr>"

definition foreign_key_error :: string where
  "foreign_key_error = ''database error, pq: violates foreign key constraint''"

definition create_federator_row :: "db_err \<Rightarrow> federator \<Rightarrow> fed_db \<Rightarrow> mc_err option \<times> fed_db" where
  "create_federator_row err f db = create_row err ''federators'' (fr_id f)
     (first_fail [fail_if (list_ex (\<lambda>x. fr_id x = fr_id f) (fd_federators db))
        (''Self federator with ID '' @ fr_id f @ '' already exists''),
        fail_if (\<not> list_ex (\<lambda>o'. citext_eq (o_name o') (fr_operator f)) (mc_orgs (fd_mc db))) foreign_key_error])
     (set_federators (fd_federators db @ [f])) db"

definition create_federation_row :: "db_err \<Rightarrow> federation \<Rightarrow> fed_db \<Rightarrow> mc_err option \<times> fed_db" where
  "create_federation_row err f db = create_row err ''federations'' (fn_name f)
     (first_fail
       [fail_if (list_ex (\<lambda>x. fn_self_id x = fn_self_id f \<and> fr_id (fn_partner x) = fr_id (fn_partner f)) (fd_federations db))
          ''Partner federation with same federation id pair already exists'',
        fail_if (list_ex (\<lambda>x. fn_name x = fn_name f) (fd_federations db))
          (''Partner federation '' @ fn_name f @ '' already exists''),
        fail_if (list_ex (\<lambda>x. fn_self_id x = fn_self_id f) (fd_federations db))
          (''Partner federation with same self federation id '' @ fn_self_id f @ '' already exists''),
        fail_if (list_ex (\<lambda>x. fr_id (fn_partner x) = fr_id (fn_partner f)) (fd_federations db))
          (''Partner federation with same federation id '' @ fr_id (fn_partner f) @ '' already exists''),
        fail_if (\<not> list_ex (\<lambda>x. fr_id x = fn_self_id f) (fd_federators db)) foreign_key_error])
     (fd_federations_update (\<lambda>fs. fs @ [f])) db"

definition create_zone_row :: "db_err \<Rightarrow> fzone \<Rightarrow> fed_db \<Rightarrow> mc_err option \<times> fed_db" where
  "create_zone_row err z db = create_row err ''federator_zones'' (z_id z)
     (first_fail [fail_if (list_ex (\<lambda>x. z_id x = z_id z) (fd_zones db)) (''Zone with same zone ID '' @ z_id z @ '' already exists''),
        fail_if (\<not> list_ex (\<lambda>o'. citext_eq (o_name o') (z_operator z)) (mc_orgs (fd_mc db))) foreign_key_error])
     (fd_zones_update (\<lambda>zs. zs @ [z])) db"

definition duplicate_key :: string where
  "duplicate_key = ''pq: duplicate key value violates unique constraint''"

definition create_self_zone_row :: "db_err \<Rightarrow> self_zone \<Rightarrow> fed_db \<Rightarrow> mc_err option \<times> fed_db" where
  "create_self_zone_row err z db = create_row err ''federated_self_zones'' (sz_id z)
     (first_fail [fail_if (list_ex (\<lambda>x. sz_id x = sz_id z \<and> sz_fed x = sz_fed z) (fd_self_zones db)) duplicate_key,
        fail_if (\<not> list_ex (\<lambda>x. z_id x = sz_id z) (fd_zones db) \<or> \<not> list_ex (\<lambda>x. fn_name x = sz_fed z) (fd_federations db))
          foreign_key_error])
     (fd_self_zones_update (\<lambda>zs. zs @ [z])) db"

definition create_partner_zone_row :: "db_err \<Rightarrow> partner_zone \<Rightarrow> fed_db \<Rightarrow> mc_err option \<times> fed_db" where
  "create_partner_zone_row err z db = create_row err ''federated_partner_zones'' (z_id (pz_zone z))
     (first_fail [fail_if (list_ex (\<lambda>x. z_id (pz_zone x) = z_id (pz_zone z) \<and> pz_fed x = pz_fed z) (fd_partner_zones db))
          (''Zone ID '' @ z_id (pz_zone z) @ '' already exists''),
        fail_if (\<not> list_ex (\<lambda>x. fn_name x = pz_fed z) (fd_federations db)) foreign_key_error])
     (fd_partner_zones_update (\<lambda>zs. zs @ [z])) db"

subsection \<open>Writing back and deletion\<close>

definition save_row :: "db_err \<Rightarrow> string \<Rightarrow> string \<Rightarrow> (fed_db \<Rightarrow> fed_db) \<Rightarrow> fed_db \<Rightarrow> mc_err option \<times> fed_db" where
  "save_row err table key put db =
     (case err (Call_Save table key) of Some e \<Rightarrow> (Some (db_error e), db) | None \<Rightarrow> (None, put db))"

definition save_federator :: "db_err \<Rightarrow> federator \<Rightarrow> fed_db \<Rightarrow> mc_err option \<times> fed_db" where
  "save_federator err f = save_row err ''federators'' (fr_id f)
     (\<lambda>db. set_federators (map (\<lambda>x. if fr_id x = fr_id f then f else x) (fd_federators db)) db)"

definition save_federation :: "db_err \<Rightarrow> federation \<Rightarrow> fed_db \<Rightarrow> mc_err option \<times> fed_db" where
  "save_federation err f = save_row err ''federations'' (fn_name f) (fd_federations_update
     (map (\<lambda>x. if fn_self_id x = fn_self_id f \<and> fr_id (fn_partner x) = fr_id (fn_partner f) then f else x)))"

definition save_self_zone :: "db_err \<Rightarrow> self_zone \<Rightarrow> fed_db \<Rightarrow> mc_err option \<times> fed_db" where
  "save_self_zone err z = save_row err ''federated_self_zones'' (sz_id z) (fd_self_zones_update
     (map (\<lambda>x. if sz_id x = sz_id z \<and> sz_fed x = sz_fed z then z else x)))"

definition save_partner_zone :: "db_err \<Rightarrow> partner_zone \<Rightarrow> fed_db \<Rightarrow> mc_err option \<times> fed_db" where
  "save_partner_zone err z = save_row err ''federated_partner_zones'' (z_id (pz_zone z)) (fd_partner_zones_update
     (map (\<lambda>x. if z_id (pz_zone x) = z_id (pz_zone z) \<and> pz_fed x = pz_fed z then z else x)))"

definition delete_row :: "db_err \<Rightarrow> string \<Rightarrow> string \<Rightarrow> string option \<Rightarrow> (fed_db \<Rightarrow> fed_db) \<Rightarrow> fed_db \<Rightarrow> mc_err option \<times> fed_db" where
  "delete_row err table key conflict del db =
     (case first_fail [map_option db_error (err (Call_Delete table key)), map_option Err conflict] of
        Some e \<Rightarrow> (Some e, db)
      | None \<Rightarrow> (None, del db))"

definition delete_federator_row :: "db_err \<Rightarrow> federator \<Rightarrow> fed_db \<Rightarrow> mc_err option \<times> fed_db" where
  "delete_federator_row err f db = delete_row err ''federators'' (fr_id f)
     (fail_if (list_ex (\<lambda>x. fn_self_id x = fr_id f) (fd_federations db)) foreign_key_error)
     (set_federators (filter (\<lambda>x. fr_id x \<noteq> fr_id f) (fd_federators db))) db"

definition delete_federation_row :: "db_err \<Rightarrow> federation \<Rightarrow> fed_db \<Rightarrow> mc_err option \<times> fed_db" where
  "delete_federation_row err f db = delete_row err ''federations'' (fn_name f)
     (first_fail [fail_if (list_ex (\<lambda>x. sz_fed x = fn_name f) (fd_self_zones db)) ''Please unshare self zones before deleting federation'',
        fail_if (list_ex (\<lambda>x. pz_fed x = fn_name f) (fd_partner_zones db)) foreign_key_error])
     (fd_federations_update (filter (\<lambda>x. \<not> (fn_self_id x = fn_self_id f \<and> fr_id (fn_partner x) = fr_id (fn_partner f))))) db"

definition delete_zone_row :: "db_err \<Rightarrow> fzone \<Rightarrow> fed_db \<Rightarrow> mc_err option \<times> fed_db" where
  "delete_zone_row err z db = delete_row err ''federator_zones'' (z_id z)
     (fail_if (list_ex (\<lambda>x. sz_id x = z_id z) (fd_self_zones db)) foreign_key_error)
     (fd_zones_update (filter (\<lambda>x. z_id x \<noteq> z_id z))) db"

text \<open>An empty part of the primary key is no condition of a deletion either.\<close>

definition delete_self_zone_row :: "db_err \<Rightarrow> string \<Rightarrow> string \<Rightarrow> fed_db \<Rightarrow> mc_err option \<times> fed_db" where
  "delete_self_zone_row err zid fed = delete_row err ''federated_self_zones'' zid None
     (fd_self_zones_update (filter (\<lambda>x. \<not> (field_matches zid (sz_id x) \<and> field_matches fed (sz_fed x)))))"

definition delete_partner_zone_row :: "db_err \<Rightarrow> partner_zone \<Rightarrow> fed_db \<Rightarrow> mc_err option \<times> fed_db" where
  "delete_partner_zone_row err z = delete_row err ''federated_partner_zones'' (z_id (pz_zone z)) None
     (fd_partner_zones_update (filter (\<lambda>x. \<not> (z_id (pz_zone x) = z_id (pz_zone z) \<and> pz_fed x = pz_fed z))))"

subsection \<open>Lookups of federations\<close>

definition get_self_federator :: "db_err \<Rightarrow> string \<Rightarrow> string \<Rightarrow> fed_db \<Rightarrow> mc_err + federator" where
  "get_self_federator err op fid db =
     (if fid = '''' then Inl (Err ''Missing self federation ID'')
      else case first_federator err fid op db of
          Inl e \<Rightarrow> Inl (db_error e)
        | Inr None \<Rightarrow> Inl (Err (''Self federator with ID '' @ fid @ '' does not exist for operator '' @ op))
        | Inr (Some f) \<Rightarrow> Inr f)"

definition get_federation_by_id :: "db_err \<Rightarrow> string \<Rightarrow> fed_db \<Rightarrow> mc_err + federation option" where
  "get_federation_by_id err fid db =
     (if fid = '''' then Inl (Err ''Missing self federation ID'')
      else map_sum db_error id (first_federation_by_id err fid db))"

definition get_federation_by_name :: "db_err \<Rightarrow> string \<Rightarrow> string \<Rightarrow> fed_db \<Rightarrow> mc_err + federator \<times> federation" where
  "get_federation_by_name err op name db =
     (if name = '''' then Inl (Err ''Missing federation name'')
      else case first_federation err name op db of
          Inl e \<Rightarrow> Inl (db_error e)
        | Inr None \<Rightarrow> Inl (Err (''Federation with name '' @ name @ '' does not exist for self operator ID '' @ op))
        | Inr (Some fn) \<Rightarrow>
            (case first_federator err (fn_self_id fn) op db of
               Inl e \<Rightarrow> Inl (db_error e)
             | Inr None \<Rightarrow> Inl (Err (''Self federator with ID '' @ fn_self_id fn @ '' does not exist for operator '' @ op))
             | Inr (Some f) \<Rightarrow> Inr (f, fn)))"

definition fed_authorized :: "db_err \<Rightarrow> string \<Rightarrow> string \<Rightarrow> fed_db \<Rightarrow> mc_err option" where
  "fed_authorized err caller op db =
     (if op = '''' then Some (Err ''Missing self operator ID'')
      else authorized err caller op ''cloudlets'' ''manage'' [with_requires_org op] (fd_mc db))"

definition get_controller_obj :: "db_err \<Rightarrow> string \<Rightarrow> fed_db \<Rightarrow> mc_err option" where
  "get_controller_obj err region db =
     (if region = '''' then Some (Err ''no region specified'')
      else case err (Call_Find ''controllers'' region) of
          Some e \<Rightarrow> Some (Err e)
        | None \<Rightarrow> fail_if (region \<notin> set (fd_regions db)) (Err (''region '' @ region @ '' not found'')))"

end
