(* ===== verification/Fed_Partner.thy ===== *)
theory Fed_Partner
  imports Fed_Tables "HOL-Library.Signed_Division"
begin

text \<open>
  The interface of a master controller towards its partners, \<open>src/mc/federation/federation_op.go\<close>: a
  partner registers and deregisters with us, registers our zones, and tells us of changes to its own.
\<close>

subsection \<open>Authentication\<close>

definition auth_api_key :: "string \<Rightarrow> string \<Rightarrow> string + string" where
  "auth_api_key authorization x_api_key =
     (let key = (if length authorization > 6 \<and> strings_has_prefix authorization ''Bearer'' then drop 7 authorization else '''') in
      if key \<noteq> '''' then Inr key
      else if x_api_key \<noteq> '''' then Inr x_api_key
      else Inl ''api key not found in bearer token or x-api-key'')"

text \<open>The wait after a wrong key is left out.\<close>

definition validate_and_get_federator_info ::
    "fed_env \<Rightarrow> db_err \<Rightarrow> string \<Rightarrow> fed_header \<Rightarrow> fed_db \<Rightarrow> mc_err + federator \<times> federation" where
  "validate_and_get_federator_info fe err key hdr db =
     (if fh_orig hdr = '''' then Inl (Err ''Missing origin federation key'')
      else if fh_dest hdr = '''' then Inl (Err ''Missing destination federation key'')
      else if fh_operator hdr = '''' then Inl (Err ''Missing origin Operator ID'')
      else case first_federator err (fh_dest hdr) '''' db of
          Inl e \<Rightarrow> Inl (db_error e)
        | Inr None \<Rightarrow> Inl (Err ''Invalid destination federation key'')
        | Inr (Some self) \<Rightarrow>
            (case first_federation_by_id err (fr_id self) db of
               Inl e \<Rightarrow> Inl (db_error e)
             | Inr None \<Rightarrow> Inl (Err (''Origin federator with ID '' @ fr_id self @ '' does not exist''))
             | Inr (Some fn) \<Rightarrow>
                 if password_matches (fe_users fe) key (fr_hash self) (fr_salt self) (fr_iter self) \<noteq> Inr True
                 then Inl (Err ''Invalid ApiKey'')
                 else if fr_id (fn_partner fn) \<noteq> fh_orig hdr then Inl (Err ''Invalid origin federation key'')
                 else Inr (self, fn)))"

subsection \<open>Federation\<close>

definition zone_info_of :: "fzone \<Rightarrow> zone_info" where
  "zone_info_of z = \<lparr>zi_id = z_id z, zi_geo = z_geo z, zi_city = z_city z, zi_state = z_state z,
     zi_locality = z_locality z, zi_edge_count = length (z_cloudlets z)\<rparr>"

text \<open>The zones shared with the partner; a zone that is not found is an error of the database.\<close>

primrec shared_zone_infos :: "db_err \<Rightarrow> fed_db \<Rightarrow> self_zone list \<Rightarrow> mc_err + zone_info list" where
  "shared_zone_infos err db [] = Inr []"
| "shared_zone_infos err db (s # ss) =
     (case first_zone err (sz_id s) '''' '''' db of
        Inl e \<Rightarrow> Inl (db_error e)
      | Inr None \<Rightarrow> Inl (db_error ''record not found'')
      | Inr (Some z) \<Rightarrow> map_sum id ((#) (zone_info_of z)) (shared_zone_infos err db ss))"

definition federation_operator_partner_create ::
    "fed_env \<Rightarrow> db_err \<Rightarrow> string \<Rightarrow> fed_header \<Rightarrow> fed_db \<Rightarrow> (mc_err + fed_reply) \<times> fed_db" where
  "federation_operator_partner_create fe err key hdr db =
     (case validate_and_get_federator_info fe err key hdr db of
        Inl e \<Rightarrow> (Inl e, db)
      | Inr (self, fn) \<Rightarrow>
          if fn_access fn
          then (Inl (Err (''Federation already exists with partner federator (id:'' @ fr_id (fn_partner fn) @ '')'')), db)
          else case err (Call_Table ''federated_self_zones'') of
              Some e \<Rightarrow> (Inl (db_error e), db)
            | None \<Rightarrow>
               (case shared_zone_infos err db (self_zones_of (fn_name fn) db) of
                  Inl e \<Rightarrow> (Inl e, db)
                | Inr zones \<Rightarrow>
                    let (e, db1) = save_federation err (fn\<lparr>fn_access := True,
                          fn_partner := (fn_partner fn)\<lparr>fr_revision := fh_request hdr\<rparr>\<rparr>) db in
                    (case e of
                       Some e \<Rightarrow> (Inl e, db1)
                     | None \<Rightarrow> (Inr (Partner_Created (fr_mcc self) (fr_mnc self) (fr_locator self) zones), db1))))"

definition federation_operator_partner_update ::
    "fed_env \<Rightarrow> db_err \<Rightarrow> string \<Rightarrow> fed_header \<Rightarrow> string \<Rightarrow> string list \<Rightarrow> string \<Rightarrow> fed_db \<Rightarrow> (mc_err + fed_reply) \<times> fed_db" where
  "federation_operator_partner_update fe err key hdr mcc mnc locator db =
     (case validate_and_get_federator_info fe err key hdr db of
        Inl e \<Rightarrow> (Inl e, db)
      | Inr (_, fn) \<Rightarrow>
          if mcc = '''' \<and> mnc = [] \<and> locator = '''' then (Inl (Err ''Nothing to update''), db)
          else
            let p = fn_partner fn;
                p1 = p\<lparr>fr_mcc := (if mcc \<noteq> '''' then mcc else fr_mcc p), fr_mnc := (if mnc \<noteq> [] then mnc else fr_mnc p),
                       fr_locator := (if locator \<noteq> '''' then locator else fr_locator p), fr_revision := fh_request hdr\<rparr>;
                (e, db1) = save_federation err (fn\<lparr>fn_partner := p1\<rparr>) db in
            (case e of Some e \<Rightarrow> (Inl e, db1) | None \<Rightarrow> (Inr Fed_Done, db1)))"

definition federation_operator_partner_delete ::
    "fed_env \<Rightarrow> db_err \<Rightarrow> string \<Rightarrow> fed_header \<Rightarrow> fed_db \<Rightarrow> (mc_err + fed_reply) \<times> fed_db" where
  "federation_operator_partner_delete fe err key hdr db =
     (case validate_and_get_federator_info fe err key hdr db of
        Inl e \<Rightarrow> (Inl e, db)
      | Inr (self, fn) \<Rightarrow>
          if \<not> fn_access fn
          then (Inl (Err (''Federation does not exist with partner federator (id:'' @ fr_id (fn_partner fn) @ '')'')), db)
          else case err (Call_Table ''federated_self_zones'') of
              Some e \<Rightarrow> (Inl (db_error e), db)
            | None \<Rightarrow>
               (case find sz_registered (self_zones_of (fn_name fn) db) of
                  Some z \<Rightarrow> (Inl (Err (''Cannot delete partner federation as zone '' @ sz_id z @ '' of self federator ('' @
                    fr_id self @ '') is registered by partner federator. Please deregister it before deleting the '' @
                    ''partner federation'')), db)
                | None \<Rightarrow>
                    let (e, db1) = save_federation err (fn\<lparr>fn_access := False,
                          fn_partner := (fn_partner fn)\<lparr>fr_revision := fh_request hdr\<rparr>\<rparr>) db in
                    (case e of Some e \<Rightarrow> (Inl e, db1) | None \<Rightarrow> (Inr Fed_Done, db1))))"

subsection \<open>Resources of a zone\<close>

text \<open>The amounts of RAM (in MB), vCPUs and disk; adding to one that is not among them does nothing.\<close>

type_synonym totals = "resource \<Rightarrow> 64 word option"

definition no_totals :: totals where
  "no_totals = [Ram_Mb \<mapsto> 0, Vcpus \<mapsto> 0, Disk_Gb \<mapsto> 0]"

definition add_total :: "resource \<times> 64 word \<Rightarrow> totals \<Rightarrow> totals" where
  "add_total rv t = (case t (fst rv) of None \<Rightarrow> t | Some v \<Rightarrow> t(fst rv \<mapsto> v + snd rv))"

text \<open>The maximum of the infrastructure counts where there is no quota so far.\<close>

definition add_infra :: "resource \<times> 64 word \<Rightarrow> totals \<Rightarrow> totals" where
  "add_infra rv t = (if t (fst rv) = Some 0 then add_total rv t else t)"

primrec zone_totals :: "fed_env \<Rightarrow> string \<Rightarrow> string \<Rightarrow> string list \<Rightarrow> totals \<Rightarrow> string + totals" where
  "zone_totals fe region org [] t = Inr t"
| "zone_totals fe region org (c # cs) t =
     (case fe_quotas fe region org c of
        Inl e \<Rightarrow> Inl e
      | Inr quotas \<Rightarrow>
         (case fe_infra_max fe region org c of
            Inl e \<Rightarrow> Inl e
          | Inr infra \<Rightarrow>
              let cl = fold add_infra infra (fold add_total quotas no_totals);
                  add = (\<lambda>r t. case cl r of None \<Rightarrow> t | Some v \<Rightarrow> add_total (r, v) t) in
              zone_totals fe region org cs (add Disk_Gb (add Vcpus (add Ram_Mb t)))))"

definition get_zone_resources_upper_limit :: "fed_env \<Rightarrow> string \<Rightarrow> string \<Rightarrow> string list \<Rightarrow> string + totals" where
  "get_zone_resources_upper_limit fe region org cloudlets = zone_totals fe region org cloudlets no_totals"

text \<open>\<open>int64(val) / 1024\<close> rounds towards zero.  An error of asking for the resources is ignored.\<close>

definition upper_limit_quota :: "string + totals \<Rightarrow> resource_info" where
  "upper_limit_quota limit =
     (let t = (case limit of Inl _ \<Rightarrow> Map.empty | Inr t \<Rightarrow> t); get = (\<lambda>r. case t r of None \<Rightarrow> 0 | Some v \<Rightarrow> sint v) in
      \<lparr>ri_cpu = get Vcpus, ri_ram = get Ram_Mb sdiv 1024, ri_disk = get Disk_Gb\<rparr>)"

subsection \<open>Zones\<close>

text \<open>Each zone is checked and written before the next one is looked at.\<close>

primrec register_zones :: "fed_env \<Rightarrow> db_err \<Rightarrow> string \<Rightarrow> federation \<Rightarrow> string list \<Rightarrow> fed_db \<Rightarrow>
    (mc_err + (string \<times> resource_info) list) \<times> fed_db" where
  "register_zones fe err rid fn [] db = (Inr [], db)"
| "register_zones fe err rid fn (zid # zids) db =
     (case first_self_zone err zid (fn_name fn) db of
        Inl e \<Rightarrow> (Inl (db_error e), db)
      | Inr None \<Rightarrow> (Inl (db_error ''record not found''), db)
      | Inr (Some s) \<Rightarrow>
          if sz_id s = '''' then (Inl (Err (''Zone ID '' @ zid @ '' not shared with partner federator '' @ fr_id (fn_partner fn))), db)
          else if sz_registered s
          then (Inl (Err (''Zone ID '' @ zid @ '' is already registered by partner federator '' @ fr_id (fn_partner fn))), db)
          else case first_zone err zid '''' '''' db of
              Inl e \<Rightarrow> (Inl (db_error e), db)
            | Inr None \<Rightarrow> (Inl (db_error ''record not found''), db)
            | Inr (Some z) \<Rightarrow>
                if z_id z = '''' then (Inl (Err (''Zone ID '' @ zid @ '' does not exist'')), db)
                else
                  let quota = upper_limit_quota (get_zone_resources_upper_limit fe (z_region z) (z_operator z) (z_cloudlets z));
                      (e, db1) = save_self_zone err (s\<lparr>sz_registered := True, sz_revision := rid\<rparr>) db in
                  (case e of
                     Some e \<Rightarrow> (Inl e, db1)
                   | None \<Rightarrow> map_prod (map_sum id ((#) (zid, quota))) id (register_zones fe err rid fn zids db1)))"

definition federation_operator_zone_register ::
    "fed_env \<Rightarrow> db_err \<Rightarrow> string \<Rightarrow> fed_header \<Rightarrow> string list \<Rightarrow> fed_db \<Rightarrow> (mc_err + fed_reply) \<times> fed_db" where
  "federation_operator_zone_register fe err key hdr zones db =
     (if zones = [] then (Inl (Err ''Must specify zones''), db)
      else case validate_and_get_federator_info fe err key hdr db of
          Inl e \<Rightarrow> (Inl e, db)
        | Inr (self, fn) \<Rightarrow>
            if \<not> fn_access fn
            then (Inl (Err (''Federation does not exist with partner federator (id:'' @ fr_id (fn_partner fn) @ '')'')), db)
            else map_prod (map_sum id Zones_Registered) id (register_zones fe err (fh_request hdr) fn zones db))"

text \<open>All zones are checked before the first one is written.\<close>

primrec registered_zones :: "db_err \<Rightarrow> federation \<Rightarrow> string list \<Rightarrow> fed_db \<Rightarrow> mc_err + self_zone list" where
  "registered_zones err fn [] db = Inr []"
| "registered_zones err fn (zid # zids) db =
     (case first_self_zone err zid (fn_name fn) db of
        Inl e \<Rightarrow> Inl (db_error e)
      | Inr None \<Rightarrow> Inl (db_error ''record not found'')
      | Inr (Some s) \<Rightarrow>
          if sz_id s = '''' then Inl (Err (''Zone ID '' @ zid @ '' not shared with partner federator '' @ fr_id (fn_partner fn)))
          else if \<not> sz_registered s
          then Inl (Err (''Zone ID '' @ zid @ '' is not registered by partner federator '' @ fr_id (fn_partner fn)))
          else map_sum id ((#) s) (registered_zones err fn zids db))"

primrec deregister_zones :: "db_err \<Rightarrow> string \<Rightarrow> self_zone list \<Rightarrow> fed_db \<Rightarrow> mc_err option \<times> fed_db" where
  "deregister_zones err rid [] db = (None, db)"
| "deregister_zones err rid (s # ss) db =
     (let (e, db1) = save_self_zone err (s\<lparr>sz_registered := False, sz_revision := rid\<rparr>) db in
      case e of Some e \<Rightarrow> (Some e, db1) | None \<Rightarrow> deregister_zones err rid ss db1)"

definition federation_operator_zone_deregister ::
    "fed_env \<Rightarrow> db_err \<Rightarrow> string \<Rightarrow> fed_header \<Rightarrow> string list \<Rightarrow> fed_db \<Rightarrow> (mc_err + fed_reply) \<times> fed_db" where
  "federation_operator_zone_deregister fe err key hdr zones db =
     (if zones = [] then (Inl (Err ''Must specify zones''), db)
      else case validate_and_get_federator_info fe err key hdr db of
          Inl e \<Rightarrow> (Inl e, db)
        | Inr (self, fn) \<Rightarrow>
            if \<not> fn_access fn
            then (Inl (Err (''Federation does not exist with partner federator (id:'' @ fr_id (fn_partner fn) @ '')'')), db)
            else case registered_zones err fn zones db of
                Inl e \<Rightarrow> (Inl e, db)
              | Inr rows \<Rightarrow>
                  let (e, db1) = deregister_zones err (fh_request hdr) rows db in
                  (case e of Some e \<Rightarrow> (Inl e, db1) | None \<Rightarrow> (Inr Fed_Done, db1)))"

definition federation_operator_zone_share ::
    "fed_env \<Rightarrow> db_err \<Rightarrow> string \<Rightarrow> fed_header \<Rightarrow> zone_info \<Rightarrow> fed_db \<Rightarrow> (mc_err + fed_reply) \<times> fed_db" where
  "federation_operator_zone_share fe err key hdr zi db =
     (if zi_id zi = '''' then (Inl (Err ''Must specify zone ID''), db)
      else case validate_and_get_federator_info fe err key hdr db of
          Inl e \<Rightarrow> (Inl e, db)
        | Inr (self, fn) \<Rightarrow>
            if \<not> fn_share fn
            then (Inl (Err (''No federation with partner federator ('' @ fr_id (fn_partner fn) @ '') to access self zones exists'')), db)
            else
              let z = \<lparr>z_id = zi_id zi, z_operator = fr_operator (fn_partner fn), z_country = fr_country (fn_partner fn),
                    z_geo = zi_geo zi, z_city = zi_city zi, z_state = zi_state zi, z_locality = zi_locality zi,
                    z_region = '''', z_cloudlets = [], z_revision = fh_request hdr\<rparr>;
                  (e, db1) = create_partner_zone_row err
                    \<lparr>pz_self_op = fr_operator self, pz_fed = fn_name fn, pz_zone = z, pz_registered = False\<rparr> db in
              (case e of Some e \<Rightarrow> (Inl e, db1) | None \<Rightarrow> (Inr Fed_Done, db1)))"

text \<open>The check of the error of the lookup looks at another error; a failed lookup finds no zone.\<close>

definition federation_operator_zone_unshare ::
    "fed_env \<Rightarrow> db_err \<Rightarrow> string \<Rightarrow> fed_header \<Rightarrow> string \<Rightarrow> fed_db \<Rightarrow> (mc_err + fed_reply) \<times> fed_db" where
  "federation_operator_zone_unshare fe err key hdr zid db =
     (if zid = '''' then (Inl (Err ''Must specify zone ID''), db)
      else case validate_and_get_federator_info fe err key hdr db of
          Inl e \<Rightarrow> (Inl e, db)
        | Inr (self, fn) \<Rightarrow>
            if \<not> fn_share fn
            then (Inl (Err (''No federation with partner federator ('' @ fr_id (fn_partner fn) @ '') to access self zones exists'')), db)
            else case first_partner_zone err (fn_name fn) '''' '''' zid db of
                Inr (Some z) \<Rightarrow>
                  if z_id (pz_zone z) = ''''
                  then (Inl (Err (''Zone ID '' @ zid @ '' does not exist for partner federator (id:'' @ fr_id (fn_partner fn) @ '')'')), db)
                  else if pz_registered z
                  then (Inl (Err (''Cannot remove partner federator zone '' @ z_id (pz_zone z) @ '' as it is registered locally. '' @
                    ''Please deregister it before unsharing the zone'')), db)
                  else
                    let (e, db1) = delete_partner_zone_row err z db in
                    (case e of Some e \<Rightarrow> (Inl e, db1) | None \<Rightarrow> (Inr Fed_Done, db1))
              | _ \<Rightarrow> (Inl (Err (''Zone ID '' @ zid @ '' does not exist for partner federator (id:'' @ fr_id (fn_partner fn) @ '')'')), db))"

subsection \<open>The interface\<close>

text \<open>\<open>InitAPIs\<close>: which call is answered by what.\<close>

fun fed_handle :: "fed_env \<Rightarrow> db_err \<Rightarrow> string \<Rightarrow> fed_header \<Rightarrow> fed_call \<Rightarrow> fed_db \<Rightarrow> (mc_err + fed_reply) \<times> fed_db" where
  "fed_handle fe err key hdr Partner_Create db = federation_operator_partner_create fe err key hdr db"
| "fed_handle fe err key hdr (Partner_Update mcc mnc loc) db = federation_operator_partner_update fe err key hdr mcc mnc loc db"
| "fed_handle fe err key hdr Partner_Delete db = federation_operator_partner_delete fe err key hdr db"
| "fed_handle fe err key hdr (Zones_Register zs) db = federation_operator_zone_register fe err key hdr zs db"
| "fed_handle fe err key hdr (Zones_Deregister zs) db = federation_operator_zone_deregister fe err key hdr zs db"
| "fed_handle fe err key hdr (Zone_Share zi) db = federation_operator_zone_share fe err key hdr zi db"
| "fed_handle fe err key hdr (Zone_Unshare zid) db = federation_operator_zone_unshare fe err key hdr zid db"

end
