(* ===== verification/Fed_Mc.thy ===== *)
theory Fed_Mc
  imports Fed_Partner
begin

text \<open>
  The calls of operators on their federations, \<open>src/mc/orm/federation_mc.go\<close>.  Calls that talk to the
  partner take its state along; \<open>rid\<close> is the identifier of the request (the trace id).
\<close>

subsection \<open>Federators\<close>

definition check_operator_org :: "db_err \<Rightarrow> string \<Rightarrow> fed_db \<Rightarrow> mc_err option" where
  "check_operator_org err op db =
     (case org_exists err op (fd_mc db) of
        Inl _ \<Rightarrow> Some (Err ''Invalid operator ID specified'')
      | Inr org \<Rightarrow> fail_if (o_type org \<noteq> ''operator'') (Err ''Invalid operator ID, must be a valid operator org''))"

definition with_api_key :: "fed_env \<Rightarrow> string \<Rightarrow> string \<Rightarrow> federator \<Rightarrow> federator" where
  "with_api_key fe saltb key f =
     (let (h, s, n) = new_passhash (fe_users fe) saltb key in f\<lparr>fr_hash := h, fr_salt := s, fr_iter := n\<rparr>)"

text \<open>\<open>uid\<close>, \<open>key\<close> and \<open>saltb\<close> are drawn at random; the answer holds the identifier and the key.\<close>

definition create_self_federator :: "fed_env \<Rightarrow> db_err \<Rightarrow> string \<Rightarrow> string \<Rightarrow> string \<Rightarrow> string \<Rightarrow> string \<Rightarrow> federator \<Rightarrow> fed_db \<Rightarrow>
    (mc_err + string \<times> string) \<times> fed_db" where
  "create_self_federator fe err rid uid key saltb caller f db =
     (case first_fail
        [fail_if (fr_operator f = '''') (Err ''Missing Operator ID''),
         fail_if (fr_country f = '''') (Err ''Missing country code''),
         fail_if (fr_region f = '''') (Err ''Missing region''),
         fail_if (fr_mcc f = '''') (Err ''Missing MCC''),
         fail_if (fr_mnc f = []) (Err ''Missing MNCs. Please specify one or more MNCs''),
         get_controller_obj err (fr_region f) db,
         map_option Err (validate_country_code fe (fr_country f)),
         fed_authorized err caller (fr_operator f) db,
         check_operator_org err (fr_operator f) db,
         (if fr_id f = '''' then None else map_option Err (validate_federation_id (fr_id f)))] of
        Some e \<Rightarrow> (Inl e, db)
      | None \<Rightarrow>
          let fid = (if fr_id f = '''' then uid else fr_id f);
              row = with_api_key fe saltb key (f\<lparr>fr_id := fid, fr_addr := fe_addr fe, fr_revision := rid\<rparr>);
              (e, db1) = create_federator_row err row db in
          (case e of Some e \<Rightarrow> (Inl e, db1) | None \<Rightarrow> (Inr (fid, key), db1)))"

text \<open>Whether the networks change: another number of them, or one that is no longer listed.\<close>

definition mnc_changed :: "string list \<Rightarrow> string list \<Rightarrow> bool" where
  "mnc_changed cur new \<longleftrightarrow> length cur \<noteq> length new \<or> list_ex (\<lambda>c. c \<notin> set new) cur"

definition header_to :: "string \<Rightarrow> federator \<Rightarrow> federation \<Rightarrow> fed_header" where
  "header_to rid self fn = \<lparr>fh_request = rid, fh_orig = fr_id self, fh_dest = fr_id (fn_partner fn),
     fh_operator = fr_operator self, fh_country = fr_country self\<rparr>"

definition send_to_partner :: "fed_env \<Rightarrow> 'w net \<Rightarrow> fed_db \<Rightarrow> string \<Rightarrow> federator \<Rightarrow> federation \<Rightarrow> fed_call \<Rightarrow> 'w \<Rightarrow>
    (string + fed_reply) \<times> 'w" where
  "send_to_partner fe net db rid self fn call =
     send_request fe net db (fr_addr (fn_partner fn)) (fn_name fn) '''' (header_to rid self fn) call"

text \<open>An error of telling the partner is part of the message of the answer only.\<close>

definition update_self_federator :: "fed_env \<Rightarrow> db_err \<Rightarrow> 'w net \<Rightarrow> string \<Rightarrow> string \<Rightarrow> federator \<Rightarrow> fed_db \<Rightarrow> 'w \<Rightarrow>
    (mc_err + string option) \<times> fed_db \<times> 'w" where
  "update_self_federator fe err net rid caller req db w =
     (case get_self_federator err (fr_operator req) (fr_id req) db of
        Inl e \<Rightarrow> (Inl e, db, w)
      | Inr self \<Rightarrow>
         (case fed_authorized err caller (fr_operator req) db of
            Some e \<Rightarrow> (Inl e, db, w)
          | None \<Rightarrow>
              let new_mnc = mnc_changed (fr_mnc self) (fr_mnc req) in
              if fr_mcc req = fr_mcc self \<and> \<not> new_mnc \<and> fr_locator req = fr_locator self
              then (Inl (Err ''nothing to update''), db, w)
              else
                let self1 = self\<lparr>fr_mcc := fr_mcc req, fr_mnc := (if new_mnc then fr_mnc req else fr_mnc self),
                                 fr_locator := fr_locator req, fr_revision := rid\<rparr>;
                    (e, db1) = save_federator err self1 db in
                (case e of
                   Some e \<Rightarrow> (Inl e, db1, w)
                 | None \<Rightarrow>
                    (case get_federation_by_id err (fr_id self1) db1 of
                       Inl e \<Rightarrow> (Inl e, db1, w)
                     | Inr None \<Rightarrow> (Inr None, db1, w)
                     | Inr (Some fn) \<Rightarrow>
                         if \<not> (fn_access fn \<or> fn_share fn) then (Inr None, db1, w)
                         else
                           let (r, w1) = send_to_partner fe net db1 rid self1 fn
                                 (Partner_Update (fr_mcc self1) (fr_mnc self1) (fr_locator self1)) w in
                           (case r of Inl e \<Rightarrow> (Inr (Some e), db1, w1) | Inr _ \<Rightarrow> (Inr None, db1, w1))))))"

definition delete_self_federator :: "db_err \<Rightarrow> string \<Rightarrow> string \<Rightarrow> string \<Rightarrow> fed_db \<Rightarrow> mc_err option \<times> fed_db" where
  "delete_self_federator err caller op fid db =
     (case get_self_federator err op fid db of
        Inl e \<Rightarrow> (Some e, db)
      | Inr self \<Rightarrow>
         (case fed_authorized err caller op db of
            Some e \<Rightarrow> (Some e, db)
          | None \<Rightarrow>
             (case first_federation_by_id err fid db of
                Inl e \<Rightarrow> (Some (db_error e), db)
              | Inr (Some fn) \<Rightarrow> (Some (Err (''Failed to delete self federator. Please delete existing federation '' @ fn_name fn)), db)
              | Inr None \<Rightarrow> delete_federator_row err self db)))"

definition generate_self_federator_api_key ::
    "fed_env \<Rightarrow> db_err \<Rightarrow> string \<Rightarrow> string \<Rightarrow> string \<Rightarrow> string \<Rightarrow> string \<Rightarrow> fed_db \<Rightarrow> (mc_err + string) \<times> fed_db" where
  "generate_self_federator_api_key fe err key saltb caller op fid db =
     (case get_self_federator err op fid db of
        Inl e \<Rightarrow> (Inl e, db)
      | Inr self \<Rightarrow>
         (case fed_authorized err caller op db of
            Some e \<Rightarrow> (Inl e, db)
          | None \<Rightarrow>
              let (e, db1) = save_federator err (with_api_key fe saltb key self) db in
              (case e of Some e \<Rightarrow> (Inl e, db1) | None \<Rightarrow> (Inr key, db1))))"

text \<open>The filters of the show calls are conditions on rows; sensitive columns were taken out of them.\<close>

definition show_rows :: "db_err \<Rightarrow> string \<Rightarrow> string \<Rightarrow> ('r \<Rightarrow> string) \<Rightarrow> ('r \<Rightarrow> bool) \<Rightarrow> ('r \<Rightarrow> 'r) \<Rightarrow> 'r list \<Rightarrow> fed_db \<Rightarrow> mc_err + 'r list" where
  "show_rows err caller table org_of flt hide rows db =
     (case new_show_authz err caller ''cloudlets'' ''view'' (fd_mc db) of
        Inl e \<Rightarrow> Inl e
      | Inr authz \<Rightarrow>
         (case err (Call_Table table) of
            Some e \<Rightarrow> Inl (db_error e)
          | None \<Rightarrow> Inr (map hide (filter (\<lambda>r. flt r \<and> authz_show_ok authz (org_of r)) rows))))"

definition hide_federator :: "federator \<Rightarrow> federator" where
  "hide_federator f = f\<lparr>fr_hash := '''', fr_salt := '''', fr_iter := 0\<rparr>"

definition show_self_federator :: "db_err \<Rightarrow> string \<Rightarrow> (federator \<Rightarrow> bool) \<Rightarrow> fed_db \<Rightarrow> mc_err + federator list" where
  "show_self_federator err caller flt db =
     show_rows err caller ''federators'' fr_operator flt hide_federator (fd_federators db) db"

definition show_federation :: "db_err \<Rightarrow> string \<Rightarrow> (federation \<Rightarrow> bool) \<Rightarrow> fed_db \<Rightarrow> mc_err + federation list" where
  "show_federation err caller flt db =
     show_rows err caller ''federations'' fn_self_op flt (fn_partner_update hide_federator) (fd_federations db) db"

definition show_self_federator_zone :: "db_err \<Rightarrow> string \<Rightarrow> (fzone \<Rightarrow> bool) \<Rightarrow> fed_db \<Rightarrow> mc_err + fzone list" where
  "show_self_federator_zone err caller flt db = show_rows err caller ''federator_zones'' z_operator flt id (fd_zones db) db"

definition show_federated_self_zone :: "db_err \<Rightarrow> string \<Rightarrow> (self_zone \<Rightarrow> bool) \<Rightarrow> fed_db \<Rightarrow> mc_err + self_zone list" where
  "show_federated_self_zone err caller flt db =
     show_rows err caller ''federated_self_zones'' sz_self_op flt id (fd_self_zones db) db"

definition show_federated_partner_zone :: "db_err \<Rightarrow> string \<Rightarrow> (partner_zone \<Rightarrow> bool) \<Rightarrow> fed_db \<Rightarrow> mc_err + partner_zone list" where
  "show_federated_partner_zone err caller flt db =
     show_rows err caller ''federated_partner_zones'' pz_self_op flt id (fd_partner_zones db) db"

subsection \<open>Federations\<close>

definition vault_put :: "fed_env \<Rightarrow> string \<Rightarrow> string \<Rightarrow> fed_db \<Rightarrow> mc_err option \<times> fed_db" where
  "vault_put fe name key db =
     (case fe_vault_put fe name of
        Some e \<Rightarrow> (Some (Err e), db)
      | None \<Rightarrow> (None, db\<lparr>fd_vault := (name, key) # filter (\<lambda>(n, _). n \<noteq> name) (fd_vault db)\<rparr>))"

definition create_federation :: "fed_env \<Rightarrow> db_err \<Rightarrow> string \<Rightarrow> string \<Rightarrow> federation \<Rightarrow> fed_db \<Rightarrow> mc_err option \<times> fed_db" where
  "create_federation fe err rid caller fn db =
     (let p = fn_partner fn in
      case first_fail
        [fail_if (fn_name fn = '''') (Err ''Missing federation name''),
         fail_if (fn_self_id fn = '''') (Err ''Missing self federation ID''),
         fail_if (fr_operator p = '''') (Err ''Missing partner operator ID''),
         fail_if (fr_country p = '''') (Err ''Missing partner country code''),
         fail_if (fr_id p = '''') (Err ''Missing partner federation ID''),
         fail_if (fr_addr p = '''') (Err ''Missing partner federation access address''),
         fail_if (fr_api_key p = '''') (Err ''Missing partner federation API key''),
         map_option Err (validate_federation_name (fn_name fn)),
         map_option Err (validate_federation_id (fr_id p)),
         map_option Err (validate_country_code fe (fr_country p)),
         (case get_self_federator err (fn_self_op fn) (fn_self_id fn) db of Inl e \<Rightarrow> Some e | Inr _ \<Rightarrow> None),
         fed_authorized err caller (fn_self_op fn) db] of
        Some e \<Rightarrow> (Some e, db)
      | None \<Rightarrow>
          let (e, db1) = create_federation_row err (fn\<lparr>fn_partner := p\<lparr>fr_api_key := '''', fr_revision := rid\<rparr>\<rparr>) db in
          (case e of Some e \<Rightarrow> (Some e, db1) | None \<Rightarrow> vault_put fe (fn_name fn) (fr_api_key p) db1))"

text \<open>An error of deleting the key from the vault is only logged; \<open>forget\<close> says whether it is deleted.\<close>

definition delete_federation :: "db_err \<Rightarrow> bool \<Rightarrow> string \<Rightarrow> string \<Rightarrow> string \<Rightarrow> fed_db \<Rightarrow> mc_err option \<times> fed_db" where
  "delete_federation err forget caller op name db =
     (case fed_authorized err caller op db of
        Some e \<Rightarrow> (Some e, db)
      | None \<Rightarrow>
       (case get_federation_by_name err op name db of
          Inl e \<Rightarrow> (Some e, db)
        | Inr (_, fn) \<Rightarrow>
            if fn_share fn \<or> fn_access fn
            then (Some (Err (''Cannot delete federation '' @ fn_name fn @ '' as it is registered'')), db)
            else
              let (e, db1) = delete_federation_row err fn db in
              (case e of
                 Some e \<Rightarrow> (Some e, db1)
               | None \<Rightarrow> (None, if forget then db1\<lparr>fd_vault := filter (\<lambda>(n, _). n \<noteq> fn_name fn) (fd_vault db1)\<rparr> else db1))))"

definition set_partner_federation_api_key ::
    "fed_env \<Rightarrow> db_err \<Rightarrow> string \<Rightarrow> string \<Rightarrow> string \<Rightarrow> string \<Rightarrow> fed_db \<Rightarrow> mc_err option \<times> fed_db" where
  "set_partner_federation_api_key fe err caller op name key db =
     (case first_fail
        [fed_authorized err caller op db,
         (case get_federation_by_name err op name db of Inl e \<Rightarrow> Some e | Inr _ \<Rightarrow> None),
         fail_if (key = '''') (Err ''nothing to update''),
         map_option Err (validate_api_key key)] of
        Some e \<Rightarrow> (Some e, db)
      | None \<Rightarrow> vault_put fe name key db)"

subsection \<open>Zones of our own\<close>

definition create_self_federator_zone :: "fed_env \<Rightarrow> db_err \<Rightarrow> string \<Rightarrow> string \<Rightarrow> fzone \<Rightarrow> fed_db \<Rightarrow> mc_err option \<times> fed_db" where
  "create_self_federator_zone fe err rid caller z db =
     (case first_fail
        [fail_if (z_id z = '''') (Err ''Missing zone ID''),
         fail_if (z_operator z = '''') (Err ''Missing operator ID''),
         fail_if (z_region z = '''') (Err ''Missing region''),
         fail_if (z_cloudlets z = []) (Err ''Missing cloudlets''),
         fail_if (1 < length (z_cloudlets z)) (Err ''Only one cloudlet supported for now''),
         map_option Err (validate_zone_id (z_id z)),
         (case parse_geo_location fe (z_geo z) of Inl e \<Rightarrow> Some (Err e) | Inr _ \<Rightarrow> None),
         get_controller_obj err (z_region z) db,
         map_option Err (validate_country_code fe (z_country z)),
         fed_authorized err caller (z_operator z) db,
         check_operator_org err (z_operator z) db,
         (case first_zone err (z_id z) '''' '''' db of
            Inl e \<Rightarrow> Some (db_error e)
          | Inr None \<Rightarrow> None
          | Inr (Some old) \<Rightarrow> fail_if (z_id old \<noteq> '''') (Err (''Zone '' @ z_id z @ '' already exists''))),
         (case fe_cloudlets fe (z_region z) (z_operator z) of
            Inl e \<Rightarrow> Some (Err e)
          | Inr names \<Rightarrow> map_option (\<lambda>c. Err (''Cloudlet '' @ c @ '' doesn't exist'')) (find (\<lambda>c. c \<notin> set names) (z_cloudlets z)))] of
        Some e \<Rightarrow> (Some e, db)
      | None \<Rightarrow> create_zone_row err (z\<lparr>z_revision := rid\<rparr>) db)"

definition delete_self_federator_zone :: "db_err \<Rightarrow> string \<Rightarrow> string \<Rightarrow> string \<Rightarrow> string \<Rightarrow> fed_db \<Rightarrow> mc_err option \<times> fed_db" where
  "delete_self_federator_zone err caller zid op country db =
     (case first_fail
        [fail_if (zid = '''') (Err ''Missing zone ID''),
         fail_if (op = '''') (Err ''Missing operator ID''),
         fed_authorized err caller op db] of
        Some e \<Rightarrow> (Some e, db)
      | None \<Rightarrow>
         (case first_zone err zid op country db of
            Inl e \<Rightarrow> (Some (db_error e), db)
          | Inr None \<Rightarrow> (Some (Err (''Zone '' @ zid @ '' does not exist'')), db)
          | Inr (Some z) \<Rightarrow>
             (case err (Call_Table ''federated_self_zones'') of
                Some e \<Rightarrow> (Some (db_error e), db)
              | None \<Rightarrow>
                  if filter (\<lambda>s. sz_id s = zid) (fd_self_zones db) \<noteq> []
                  then (Some (Err (''Cannot delete zone '' @ zid @ '' as it is shared as part of federation.'' @
                    '' Please unshare it before deleting it'')), db)
                  else delete_zone_row err z db)))"

text \<open>The zone of the federator that a call is about.\<close>

definition own_zone :: "db_err \<Rightarrow> string \<Rightarrow> string \<Rightarrow> federator \<Rightarrow> fed_db \<Rightarrow> mc_err + fzone" where
  "own_zone err msg zid self db =
     (case first_zone err zid (fr_operator self) (fr_country self) db of
        Inl e \<Rightarrow> Inl (db_error e)
      | Inr None \<Rightarrow> Inl (Err msg)
      | Inr (Some z) \<Rightarrow> Inr z)"

text \<open>A zone that is shared already stays as it is.\<close>

definition share_self_federator_zone :: "fed_env \<Rightarrow> db_err \<Rightarrow> 'w net \<Rightarrow> string \<Rightarrow> string \<Rightarrow> string \<Rightarrow> string \<Rightarrow> string \<Rightarrow> fed_db \<Rightarrow> 'w \<Rightarrow>
    mc_err option \<times> fed_db \<times> 'w" where
  "share_self_federator_zone fe err net rid caller op fed_name zid db w =
     (case first_fail [fail_if (zid = '''') (Err ''Must specify the zone which is to be shared''), fed_authorized err caller op db] of
        Some e \<Rightarrow> (Some e, db, w)
      | None \<Rightarrow>
       (case get_federation_by_name err op fed_name db of
          Inl e \<Rightarrow> (Some e, db, w)
        | Inr (self, fn) \<Rightarrow>
         (case own_zone err (''Zone ID '' @ zid @ '' not found'') zid self db of
            Inl e \<Rightarrow> (Some e, db, w)
          | Inr z \<Rightarrow>
              if z_region z \<noteq> fr_region self
              then (Some (Err (''Only zones of region '' @ fr_region self @ '' can be shared as part of federation '' @ fn_name fn)), db, w)
              else
                let (r, w1) = (if fn_access fn then send_to_partner fe net db rid self fn (Zone_Share (zone_info_of z)) w
                               else (Inr Fed_Done, w)) in
                (case r of
                   Inl e \<Rightarrow> (Some (Err e), db, w1)
                 | Inr _ \<Rightarrow>
                     let (e, db1) = create_self_zone_row err \<lparr>sz_id = z_id z, sz_self_op = fr_operator self,
                           sz_fed = fn_name fn, sz_registered = False, sz_revision = rid\<rparr> db in
                     if e \<noteq> None \<and> e \<noteq> Some (Err duplicate_key) then (e, db1, w1) else (None, db1, w1)))))"

definition unshare_self_federator_zone :: "fed_env \<Rightarrow> db_err \<Rightarrow> 'w net \<Rightarrow> string \<Rightarrow> string \<Rightarrow> string \<Rightarrow> string \<Rightarrow> string \<Rightarrow> fed_db \<Rightarrow> 'w \<Rightarrow>
    mc_err option \<times> fed_db \<times> 'w" where
  "unshare_self_federator_zone fe err net rid caller op fed_name zid db w =
     (case first_fail [fail_if (zid = '''') (Err ''Must specify the zone which is to be unshared''), fed_authorized err caller op db] of
        Some e \<Rightarrow> (Some e, db, w)
      | None \<Rightarrow>
       (case get_federation_by_name err op fed_name db of
          Inl e \<Rightarrow> (Some e, db, w)
        | Inr (self, fn) \<Rightarrow>
         (case own_zone err (''Zone '' @ zid @ '' not found'') zid self db of
            Inl e \<Rightarrow> (Some e, db, w)
          | Inr z \<Rightarrow>
           (case first_self_zone err zid (fn_name fn) db of
              Inl e \<Rightarrow> (Some (db_error e), db, w)
            | Inr s \<Rightarrow>
                if s \<noteq> None \<and> sz_registered (the s)
                then (Some (Err (''Cannot unshare zone '' @ zid @ '' as it is registered as part of federation '' @ fn_name fn @
                  ''. Please deregister it first'')), db, w)
                else
                  let (r, w1) = (if fn_access fn then send_to_partner fe net db rid self fn (Zone_Unshare (z_id z)) w
                                 else (Inr Fed_Done, w)) in
                  (case r of
                     Inl e \<Rightarrow> (Some (Err e), db, w1)
                   | Inr _ \<Rightarrow>
                       let (e, db1) = delete_self_zone_row err zid (fn_name fn) db in (e, db1, w1))))))"

subsection \<open>Zones of the partner\<close>

text \<open>
  The zones of the request that are in the table, without repetition, if all of them are and \<open>want\<close> says
  which state they have to be in.  The code ranges over a map of them, in any order; the model keeps
  the order of the request.
\<close>

primrec pick_partner_zones :: "db_err \<Rightarrow> federation \<Rightarrow> bool \<Rightarrow> string list \<Rightarrow> fed_db \<Rightarrow> (string, partner_zone) gmap \<Rightarrow>
    mc_err + (string, partner_zone) gmap" where
  "pick_partner_zones err fn want [] db zs = Inr zs"
| "pick_partner_zones err fn want (zid # zids) db zs =
     (if want \<and> zid = '''' then Inl (Err ''Invalid zone ID specified'')
      else case first_partner_zone err (fn_name fn) (fr_operator (fn_partner fn)) (fr_country (fn_partner fn)) zid db of
          Inl e \<Rightarrow> Inl (db_error e)
        | Inr None \<Rightarrow> Inl (Err (''Zone ID '' @ zid @ '' not found''))
        | Inr (Some z) \<Rightarrow>
            if pz_registered z = want
            then Inl (Err (''Zone ID '' @ zid @ '' is already '' @ (if want then ''registered'' else ''deregistered'')))
            else pick_partner_zones err fn want zids db (gput (z_id (pz_zone z)) z zs))"

primrec mark_zones :: "db_err \<Rightarrow> string \<Rightarrow> bool \<Rightarrow> partner_zone list \<Rightarrow> fed_db \<Rightarrow> mc_err option \<times> fed_db" where
  "mark_zones err rid reg [] db = (None, db)"
| "mark_zones err rid reg (z # zs) db =
     (let (e, db1) = save_partner_zone err (z\<lparr>pz_registered := reg, pz_zone := (pz_zone z)\<lparr>z_revision := rid\<rparr>\<rparr>) db in
      case e of Some e \<Rightarrow> (Some e, db1) | None \<Rightarrow> mark_zones err rid reg zs db1)"

text \<open>An int64 that is positive, as uint64; the partner counts RAM in GB.\<close>

definition quota_list :: "resource_info \<Rightarrow> (resource \<times> 64 word) list" where
  "quota_list q = (if 0 < ri_cpu q then [(Vcpus, word_of_int (ri_cpu q))] else []) @
     (if 0 < ri_ram q then [(Ram_Mb, word_of_int (ri_ram q) * 1024)] else []) @
     (if 0 < ri_disk q then [(Disk_Gb, word_of_int (ri_disk q))] else [])"

definition partner_cloudlet :: "federator \<Rightarrow> federation \<Rightarrow> partner_zone \<Rightarrow> real \<times> real \<Rightarrow> resource_info \<Rightarrow> fed_cloudlet" where
  "partner_cloudlet self fn z loc q =
     \<lparr>fc_name = z_id (pz_zone z), fc_org = fr_operator self, fc_federated_org = fr_operator (fn_partner fn),
      fc_location = loc, fc_quotas = quota_list q, fc_fed_name = fn_name fn, fc_partner_addr = fr_addr (fn_partner fn),
      fc_self_id = fr_id self, fc_partner_id = fr_id (fn_partner fn), fc_country = z_country (pz_zone z)\<rparr>"

datatype fed_event = Cloudlet_Created string fed_cloudlet | Cloudlet_Deleted string "string \<times> string \<times> string"

text \<open>A zone of the answer that was not asked for is skipped.\<close>

primrec create_cloudlets :: "fed_env \<Rightarrow> federator \<Rightarrow> federation \<Rightarrow> (string, partner_zone) gmap \<Rightarrow> (string \<times> resource_info) list \<Rightarrow>
    mc_err option \<times> fed_event list" where
  "create_cloudlets fe self fn zs [] = (None, [])"
| "create_cloudlets fe self fn zs (d # ds) =
     (case map_of zs (fst d) of
        None \<Rightarrow> create_cloudlets fe self fn zs ds
      | Some z \<Rightarrow>
         (case parse_geo_location fe (z_geo (pz_zone z)) of
            Inl e \<Rightarrow> (Some (Err e), [])
          | Inr loc \<Rightarrow>
              let c = partner_cloudlet self fn z loc (snd d) in
              (case fe_create_cloudlet fe (fr_region self) c of
                 Some e \<Rightarrow> (Some (Err e), [])
               | None \<Rightarrow> map_prod id ((#) (Cloudlet_Created (fr_region self) c)) (create_cloudlets fe self fn zs ds))))"

definition register_partner_federator_zone :: "fed_env \<Rightarrow> db_err \<Rightarrow> 'w net \<Rightarrow> string \<Rightarrow> string \<Rightarrow> string \<Rightarrow> string \<Rightarrow> string list \<Rightarrow> fed_db \<Rightarrow> 'w \<Rightarrow>
    mc_err option \<times> fed_db \<times> 'w \<times> fed_event list" where
  "register_partner_federator_zone fe err net rid caller op fed_name zones db w =
     (case first_fail [fail_if (zones = []) (Err ''Must specify the zones to be registered''), fed_authorized err caller op db] of
        Some e \<Rightarrow> (Some e, db, w, [])
      | None \<Rightarrow>
       (case get_federation_by_name err op fed_name db of
          Inl e \<Rightarrow> (Some e, db, w, [])
        | Inr (self, fn) \<Rightarrow>
            if \<not> fn_share fn then (Some (Err ''Self federator is not allowed to access zones of partner federator''), db, w, [])
            else case pick_partner_zones err fn True zones db [] of
                Inl e \<Rightarrow> (Some e, db, w, [])
              | Inr zs \<Rightarrow>
                  let (r, w1) = send_to_partner fe net db rid self fn (Zones_Register zones) w in
                  (case r of
                     Inl e \<Rightarrow> (Some (Err e), db, w1, [])
                   | Inr reply \<Rightarrow>
                       let (e, db1) = mark_zones err rid True (map snd zs) db in
                       (case e of
                          Some e \<Rightarrow> (Some e, db1, w1, [])
                        | None \<Rightarrow>
                            let (e, evs) = create_cloudlets fe self fn zs
                                  (case reply of Zones_Registered ds \<Rightarrow> ds | _ \<Rightarrow> []) in
                            (e, db1, w1, evs)))))"

text \<open>The key of the cloudlet is made from the stored zone; a cloudlet that is not there is no error.\<close>

definition zone_cloudlet_key :: "partner_zone \<Rightarrow> string \<times> string \<times> string" where
  "zone_cloudlet_key z = (z_id (pz_zone z), pz_self_op z, z_operator (pz_zone z))"

primrec delete_cloudlets :: "fed_env \<Rightarrow> (string \<times> string \<times> string \<Rightarrow> string) \<Rightarrow> string \<Rightarrow> partner_zone list \<Rightarrow> mc_err option \<times> fed_event list" where
  "delete_cloudlets fe not_found region [] = (None, [])"
| "delete_cloudlets fe not_found region (z # zs) =
     (let k = zone_cloudlet_key z; e = fe_delete_cloudlet fe region k;
          rest = map_prod id ((#) (Cloudlet_Deleted region k)) (delete_cloudlets fe not_found region zs) in
      case e of
        None \<Rightarrow> rest
      | Some t \<Rightarrow> if strings_contains t (not_found k) then rest else (Some (Err t), []))"

definition deregister_partner_federator_zone :: "fed_env \<Rightarrow> db_err \<Rightarrow> (string \<times> string \<times> string \<Rightarrow> string) \<Rightarrow> 'w net \<Rightarrow> string \<Rightarrow> string \<Rightarrow> string \<Rightarrow> string \<Rightarrow>
    string list \<Rightarrow> fed_db \<Rightarrow> 'w \<Rightarrow> mc_err option \<times> fed_db \<times> 'w \<times> fed_event list" where
  "deregister_partner_federator_zone fe err not_found net rid caller op fed_name zones db w =
     (case first_fail [fail_if (zones = []) (Err ''Must specify zones to be deregistered''), fed_authorized err caller op db] of
        Some e \<Rightarrow> (Some e, db, w, [])
      | None \<Rightarrow>
       (case get_federation_by_name err op fed_name db of
          Inl e \<Rightarrow> (Some e, db, w, [])
        | Inr (self, fn) \<Rightarrow>
            if \<not> fn_share fn then (Some (Err ''Self federator is not allowed to access zones of partner federator''), db, w, [])
            else case pick_partner_zones err fn False zones db [] of
                Inl e \<Rightarrow> (Some e, db, w, [])
              | Inr zs \<Rightarrow>
                  let (e, evs) = delete_cloudlets fe not_found (fr_region self) (map snd zs) in
                  (case e of
                     Some e \<Rightarrow> (Some e, db, w, evs)
                   | None \<Rightarrow>
                       let (r, w1) = send_to_partner fe net db rid self fn (Zones_Deregister zones) w in
                       (case r of
                          Inl e \<Rightarrow> (Some (Err e), db, w1, evs)
                        | Inr _ \<Rightarrow> let (e, db1) = mark_zones err rid False (map snd zs) db in (e, db1, w1, evs)))))"

subsection \<open>Registering a federation\<close>

text \<open>The state of the zone, which the partner sends, is not copied.\<close>

definition partner_zone_of :: "string \<Rightarrow> federator \<Rightarrow> federation \<Rightarrow> zone_info \<Rightarrow> partner_zone" where
  "partner_zone_of rid self fn zi =
     \<lparr>pz_self_op = fr_operator self, pz_fed = fn_name fn,
      pz_zone = \<lparr>z_id = zi_id zi, z_operator = fr_operator (fn_partner fn), z_country = fr_country (fn_partner fn),
        z_geo = zi_geo zi, z_city = zi_city zi, z_state = '''', z_locality = zi_locality zi, z_region = '''',
        z_cloudlets = [], z_revision = rid\<rparr>,
      pz_registered = False\<rparr>"

primrec store_partner_zones :: "db_err \<Rightarrow> string \<Rightarrow> federator \<Rightarrow> federation \<Rightarrow> zone_info list \<Rightarrow> fed_db \<Rightarrow> mc_err option \<times> fed_db" where
  "store_partner_zones err rid self fn [] db = (None, db)"
| "store_partner_zones err rid self fn (zi # zis) db =
     (let (e, db1) = create_partner_zone_row err (partner_zone_of rid self fn zi) db in
      case e of Some e \<Rightarrow> (Some e, db1) | None \<Rightarrow> store_partner_zones err rid self fn zis db1)"

text \<open>An answer of another kind would leave the fields of the answer empty.\<close>

definition created_reply :: "fed_reply \<Rightarrow> string \<times> string list \<times> string \<times> zone_info list" where
  "created_reply r = (case r of Partner_Created mcc mnc loc zs \<Rightarrow> (mcc, mnc, loc, zs) | _ \<Rightarrow> ('''', [], '''', []))"

definition register_federation :: "fed_env \<Rightarrow> db_err \<Rightarrow> 'w net \<Rightarrow> string \<Rightarrow> string \<Rightarrow> string \<Rightarrow> string \<Rightarrow> fed_db \<Rightarrow> 'w \<Rightarrow>
    mc_err option \<times> fed_db \<times> 'w" where
  "register_federation fe err net rid caller op fed_name db w =
     (case fed_authorized err caller op db of
        Some e \<Rightarrow> (Some e, db, w)
      | None \<Rightarrow>
       (case get_federation_by_name err op fed_name db of
          Inl e \<Rightarrow> (Some e, db, w)
        | Inr (self, fn) \<Rightarrow>
            if fn_share fn then (Some (Err (''Federation '' @ fed_name @ '' is already registered'')), db, w)
            else
              let (r, w1) = send_to_partner fe net db rid self fn Partner_Create w in
              (case r of
                 Inl e \<Rightarrow> (Some (Err e), db, w1)
               | Inr reply \<Rightarrow>
                   let (mcc, mnc, loc, zis) = created_reply reply;
                       (e, db1) = store_partner_zones err rid self fn zis db in
                   (case e of
                      Some e \<Rightarrow> (Some e, db1, w1)
                    | None \<Rightarrow>
                        let (e, db2) = save_federation err (fn\<lparr>fn_share := True, fn_partner := (fn_partner fn)
                              \<lparr>fr_mcc := mcc, fr_mnc := mnc, fr_locator := loc, fr_revision := rid\<rparr>\<rparr>) db1 in
                        (e, db2, w1)))))"

primrec delete_partner_zones :: "db_err \<Rightarrow> partner_zone list \<Rightarrow> fed_db \<Rightarrow> mc_err option \<times> fed_db" where
  "delete_partner_zones err [] db = (None, db)"
| "delete_partner_zones err (z # zs) db =
     (let (e, db1) = delete_partner_zone_row err z db in
      case e of Some e \<Rightarrow> (Some e, db1) | None \<Rightarrow> delete_partner_zones err zs db1)"

definition deregister_federation :: "fed_env \<Rightarrow> db_err \<Rightarrow> 'w net \<Rightarrow> string \<Rightarrow> string \<Rightarrow> string \<Rightarrow> string \<Rightarrow> fed_db \<Rightarrow> 'w \<Rightarrow>
    mc_err option \<times> fed_db \<times> 'w" where
  "deregister_federation fe err net rid caller op fed_name db w =
     (case fed_authorized err caller op db of
        Some e \<Rightarrow> (Some e, db, w)
      | None \<Rightarrow>
       (case get_federation_by_name err op fed_name db of
          Inl e \<Rightarrow> (Some e, db, w)
        | Inr (self, fn) \<Rightarrow>
            if \<not> fn_share fn then (Some (Err ''No federation exists with partner federator''), db, w)
            else case err (Call_Table ''federated_partner_zones'') of
                Some e \<Rightarrow> (Some (db_error e), db, w)
              | None \<Rightarrow>
                  let zs = partner_zones_of fed_name db in
                  (case find pz_registered zs of
                     Some z \<Rightarrow> (Some (Err (''Cannot deregister federation '' @ fn_name fn @ '' as partner zone '' @ z_id (pz_zone z) @
                       '' is registered locally. Please deregister it before deregistering federation'')), db, w)
                   | None \<Rightarrow>
                       let (r, w1) = send_to_partner fe net db rid self fn Partner_Delete w in
                       (case r of
                          Inl e \<Rightarrow> (Some (Err e), db, w1)
                        | Inr _ \<Rightarrow>
                            let (e, db1) = delete_partner_zones err zs db in
                            (case e of
                               Some e \<Rightarrow> (Some e, db1, w1)
                             | None \<Rightarrow>
                                 let (e, db2) = save_federation err (fn\<lparr>fn_share := False,
                                       fn_partner := (fn_partner fn)\<lparr>fr_revision := rid\<rparr>\<rparr>) db1 in
                                 (e, db2, w1))))))"

end
