(* ===== verification/Fed_Apps.thy ===== *)
theory Fed_Apps
  imports Fed_Partner
begin

text \<open>
  The calls by which a partner runs applications on our zones: \<open>FederationAppOnboarding\<close>,
  \<open>FederationAppOnboardingStatus\<close>, \<open>FederationAppDeboarding\<close>, \<open>FederationAppProvision\<close> and
  \<open>FederationAppDeprovision\<close> of \<open>src/mc/federation/federation_op.go\<close>.  What they ask of the regional
  controller is a list of calls; the answer of the controller to a call is a function.
\<close>

subsection \<open>Requests\<close>

record app_component =
  ac_path :: string
  ac_interfaces :: "(string \<times> string) list"   \<comment> \<open>protocol and port\<close>
  ac_profile :: string

record app_region =
  ar_zone :: string
  ar_operator :: string

record app_onboarding =
  ao_app_id :: string
  ao_components :: "app_component list list"   \<comment> \<open>the components of each component detail\<close>
  ao_regions :: "app_region list"

subsection \<open>Calls of the controller\<close>

datatype ctrl_call =
    Create_App string string string                    \<comment> \<open>name, image, ports\<close>
  | Create_Cluster_Inst string string string string    \<comment> \<open>name, cloudlet, its organization, flavor\<close>
  | Delete_Cluster_Inst string string string
  | Delete_App string
  | Create_App_Inst string string string
  | Delete_App_Inst string string string

type_synonym ctrl = "string \<Rightarrow> ctrl_call \<Rightarrow> string option"

text \<open>The calls are made one after the other until one fails; the last one made is in the list.\<close>

primrec ctrl_calls :: "ctrl \<Rightarrow> string \<Rightarrow> ctrl_call list \<Rightarrow> mc_err option \<times> (string \<times> ctrl_call) list" where
  "ctrl_calls ctrl region [] = (None, [])"
| "ctrl_calls ctrl region (c # cs) =
     (case ctrl region c of
        Some e \<Rightarrow> (Some (Err e), [(region, c)])
      | None \<Rightarrow> map_prod id ((#) (region, c)) (ctrl_calls ctrl region cs))"

text \<open>The header of these requests names the leading federation as the origin and ours as the destination.\<close>

definition app_access :: "fed_env \<Rightarrow> db_err \<Rightarrow> string \<Rightarrow> fed_header \<Rightarrow> fed_db \<Rightarrow> mc_err + federator" where
  "app_access fe err key hdr db =
     (case validate_and_get_federator_info fe err key hdr db of
        Inl e \<Rightarrow> Inl e
      | Inr (self, fn) \<Rightarrow>
          if \<not> fn_share fn
          then Inl (Err (''No federation with partner federator ('' @ fr_id (fn_partner fn) @ '') to manage application''))
          else Inr self)"

definition check_onboarding :: "app_onboarding \<Rightarrow> mc_err option" where
  "check_onboarding a =
     (let components = hd (ao_components a) in first_fail
       [fail_if (ao_app_id a = '''') (Err ''Missing application ID''),
        fail_if (ao_components a = []) (Err ''Missing component details''),
        fail_if (1 < length (ao_components a)) (Err ''Only one component detail is supported, more than one specified''),
        fail_if (components = []) (Err ''Missing components''),
        fail_if (1 < length components) (Err ''Only one component is supported, more than one specified''),
        fail_if (ao_regions a = []) (Err ''Missing region''),
        fail_if (1 < length (ao_regions a)) (Err ''Only one region is supported, more than one specified''),
        fail_if (ac_profile (hd components) = '''') (Err ''Missing compute resource requirements profile ID'')])"

definition access_ports :: "app_component \<Rightarrow> string" where
  "access_ports c = strings_join (map (\<lambda>(proto, port). strings_to_lower proto @ '':'' @ port) (ac_interfaces c)) '',''"

definition federation_app_onboarding ::
    "fed_env \<Rightarrow> db_err \<Rightarrow> ctrl \<Rightarrow> string \<Rightarrow> fed_header \<Rightarrow> app_onboarding \<Rightarrow> fed_db \<Rightarrow> mc_err option \<times> (string \<times> ctrl_call) list" where
  "federation_app_onboarding fe err ctrl key hdr a db =
     (case app_access fe err key hdr db of
        Inl e \<Rightarrow> (Some e, [])
      | Inr self \<Rightarrow>
         (case check_onboarding a of
            Some e \<Rightarrow> (Some e, [])
          | None \<Rightarrow>
              let c = hd (hd (ao_components a)); r = hd (ao_regions a) in
              ctrl_calls ctrl (fr_region self)
                [Create_App (ao_app_id a) (ac_path c) (access_ports c),
                 Create_Cluster_Inst (ao_app_id a) (ar_zone r) (ar_operator r) (ac_profile c)]))"

datatype onboarding_state = Onboarded | Onboarding_Failed

text \<open>The applications and the clusters the controller shows, or its error.\<close>

definition federation_app_onboarding_status ::
    "fed_env \<Rightarrow> db_err \<Rightarrow> (string \<Rightarrow> string \<Rightarrow> string + bool) \<Rightarrow> (string \<Rightarrow> string \<Rightarrow> string + bool) \<Rightarrow> string \<Rightarrow> fed_header \<Rightarrow>
      string \<Rightarrow> fed_db \<Rightarrow> mc_err + onboarding_state" where
  "federation_app_onboarding_status fe err show_app show_cluster key hdr app db =
     (case app_access fe err key hdr db of
        Inl e \<Rightarrow> Inl e
      | Inr self \<Rightarrow>
         (case show_app (fr_region self) app of
            Inl e \<Rightarrow> Inl (Err e)
          | Inr app_found \<Rightarrow>
             (case show_cluster (fr_region self) app of
                Inl e \<Rightarrow> Inl (Err e)
              | Inr cluster_found \<Rightarrow> Inr (if app_found \<and> cluster_found then Onboarded else Onboarding_Failed))))"

text \<open>An error of looking up the zone is not looked at: the organization is empty then.\<close>

definition federation_app_deboarding ::
    "fed_env \<Rightarrow> db_err \<Rightarrow> ctrl \<Rightarrow> string \<Rightarrow> fed_header \<Rightarrow> string \<Rightarrow> string \<Rightarrow> fed_db \<Rightarrow> mc_err option \<times> (string \<times> ctrl_call) list" where
  "federation_app_deboarding fe err ctrl key hdr app zone db =
     (case app_access fe err key hdr db of
        Inl e \<Rightarrow> (Some e, [])
      | Inr self \<Rightarrow>
          let org = (case first_zone err zone '''' '''' db of Inr (Some z) \<Rightarrow> z_operator z | _ \<Rightarrow> '''') in
          ctrl_calls ctrl (fr_region self) [Delete_Cluster_Inst app zone org, Delete_App app])"

text \<open>The operator of the region of the request is also the operator of the header.\<close>

definition federation_app_provision ::
    "fed_env \<Rightarrow> db_err \<Rightarrow> ctrl \<Rightarrow> string \<Rightarrow> fed_header \<Rightarrow> string \<Rightarrow> app_region \<Rightarrow> fed_db \<Rightarrow> mc_err option \<times> (string \<times> ctrl_call) list" where
  "federation_app_provision fe err ctrl key hdr app r db =
     (case app_access fe err key (hdr\<lparr>fh_operator := ar_operator r\<rparr>) db of
        Inl e \<Rightarrow> (Some e, [])
      | Inr self \<Rightarrow> ctrl_calls ctrl (fr_region self) [Create_App_Inst app (ar_zone r) (ar_operator r)])"

definition federation_app_deprovision ::
    "fed_env \<Rightarrow> db_err \<Rightarrow> ctrl \<Rightarrow> string \<Rightarrow> fed_header \<Rightarrow> string \<Rightarrow> app_region \<Rightarrow> fed_db \<Rightarrow> mc_err option \<times> (string \<times> ctrl_call) list" where
  "federation_app_deprovision fe err ctrl key hdr app r db =
     (case app_access fe err key (hdr\<lparr>fh_operator := ar_operator r\<rparr>) db of
        Inl e \<Rightarrow> (Some e, [])
      | Inr self \<Rightarrow> ctrl_calls ctrl (fr_region self) [Delete_App_Inst app (ar_zone r) (ar_operator r)])"

end
