(* ===== verification/Fed_Safety.thy ===== *)
theory Fed_Safety
  imports Fed_Mc Fed_Apps
begin

text \<open>
  What holds of the federation tables of one master controller, whatever its operators and its
  partners do and whatever calls of the database fail: an invariant of the tables, and what a
  partner can and cannot change.
\<close>

subsection \<open>The invariant\<close>

definition keys_ok :: "fed_db \<Rightarrow> bool" where
  "keys_ok db \<longleftrightarrow> distinct (map fr_id (fd_federators db)) \<and> distinct (map fn_name (fd_federations db)) \<and>
     distinct (map fn_self_id (fd_federations db)) \<and> distinct (map z_id (fd_zones db)) \<and>
     distinct (map (\<lambda>s. (sz_id s, sz_fed s)) (fd_self_zones db)) \<and>
     distinct (map (\<lambda>z. (z_id (pz_zone z), pz_fed z)) (fd_partner_zones db))"

text \<open>A zone is registered only under a federation that is.\<close>

definition self_zone_ok :: "fed_db \<Rightarrow> self_zone \<Rightarrow> bool" where
  "self_zone_ok db s \<longleftrightarrow> sz_id s \<in> z_id ` set (fd_zones db) \<and>
     (\<exists>fn\<in>set (fd_federations db). fn_name fn = sz_fed s \<and> (sz_registered s \<longrightarrow> fn_access fn))"

definition partner_zone_ok :: "fed_db \<Rightarrow> partner_zone \<Rightarrow> bool" where
  "partner_zone_ok db z \<longleftrightarrow> (\<exists>fn\<in>set (fd_federations db). fn_name fn = pz_fed z \<and> (pz_registered z \<longrightarrow> fn_share fn))"

definition fed_ok :: "fed_db \<Rightarrow> bool" where
  "fed_ok db \<longleftrightarrow> keys_ok db \<and>
     (\<forall>fn\<in>set (fd_federations db). fn_name fn \<noteq> '''' \<and> fn_self_id fn \<in> fr_id ` set (fd_federators db)) \<and>
     (\<forall>s\<in>set (fd_self_zones db). self_zone_ok db s) \<and> (\<forall>z\<in>set (fd_partner_zones db). partner_zone_ok db z) \<and>
     mc_federators (fd_mc db) = map fr_operator (fd_federators db)"

lemmas fed_ok_defs = fed_ok_def keys_ok_def self_zone_ok_def partner_zone_ok_def

subsection \<open>Rows\<close>

lemma distinct_same_keys: "(\<And>x. k (r x) = k x) \<Longrightarrow> distinct (map k xs) \<Longrightarrow> distinct (map (k \<circ> r) xs)"
  by (simp add: comp_def)

lemma distinct_map_filter_key: "distinct (map k xs) \<Longrightarrow> distinct (map k (filter P xs))"
  by (simp add: distinct_map_filter)

lemma first_fail_passes: "\<forall>c\<in>set cs. c = None \<Longrightarrow> (case first_fail cs of None \<Rightarrow> a | Some e \<Rightarrow> f e) = a"
  by (metis first_fail_None option.simps(4))

lemma create_row_cases:
  assumes "create_row err table key conflict put db = (e, db')"
  obtains "e \<noteq> None" "db' = db" | "e = None" "conflict = None" "db' = put db"
proof (cases "first_fail [map_option db_error (err (Call_Create table key)), map_option Err conflict]")
  case None
  then show ?thesis using assms that(2) by (simp add: create_row_def first_fail_passes)
next
  case (Some x)
  then have "e = Some x" "db' = db" using assms by (simp_all add: create_row_def)
  then show ?thesis using that(1) by simp
qed

lemma delete_fed_row_cases:
  assumes "delete_row err table key conflict del db = (e, db')"
  obtains "e \<noteq> None" "db' = db" | "e = None" "conflict = None" "db' = del db"
proof (cases "first_fail [map_option db_error (err (Call_Delete table key)), map_option Err conflict]")
  case None
  then show ?thesis using assms that(2) by (simp add: delete_row_def first_fail_passes)
next
  case (Some x)
  then have "e = Some x" "db' = db" using assms by (simp_all add: delete_row_def)
  then show ?thesis using that(1) by simp
qed

lemma save_row_cases:
  assumes "save_row err table key put db = (e, db')"
  obtains "e \<noteq> None" "db' = db" | "e = None" "db' = put db"
  using assms by (auto simp: save_row_def split: option.splits)

named_theorems fed_keep \<open>operations that keep the invariant\<close>

lemma create_federator_ok [fed_keep]:
  assumes "fed_ok db" and "create_federator_row err f db = (e, db')"
  shows "fed_ok db'"
  using assms(2)[unfolded create_federator_row_def] assms(1)
  by (cases rule: create_row_cases) (auto simp: fed_ok_defs set_federators_def list_ex_iff)

lemma create_federation_ok [fed_keep]:
  assumes "fed_ok db" and "create_federation_row err fn db = (e, db')" and "fn_name fn \<noteq> ''''"
  shows "fed_ok db'"
  using assms(2)[unfolded create_federation_row_def] assms(1,3)
  by (cases rule: create_row_cases) (auto simp: fed_ok_defs list_ex_iff intro: rev_image_eqI)

lemma create_zone_ok [fed_keep]:
  assumes "fed_ok db" and "create_zone_row err z db = (e, db')"
  shows "fed_ok db'"
  using assms(2)[unfolded create_zone_row_def] assms(1)
  by (cases rule: create_row_cases) (auto simp: fed_ok_defs list_ex_iff)

lemma create_self_zone_ok [fed_keep]:
  assumes "fed_ok db" and "create_self_zone_row err z db = (e, db')" and "\<not> sz_registered z"
  shows "fed_ok db'"
  using assms(2)[unfolded create_self_zone_row_def] assms(1,3)
  by (cases rule: create_row_cases) (auto simp: fed_ok_defs list_ex_iff intro: rev_image_eqI)

lemma create_partner_zone_ok [fed_keep]:
  assumes "fed_ok db" and "create_partner_zone_row err z db = (e, db')" and "\<not> pz_registered z"
  shows "fed_ok db'"
  using assms(2)[unfolded create_partner_zone_row_def] assms(1,3)
  by (cases rule: create_row_cases) (auto simp: fed_ok_defs list_ex_iff)

lemma delete_federator_ok [fed_keep]:
  assumes "fed_ok db" and "delete_federator_row err f db = (e, db')"
  shows "fed_ok db'"
  using assms(2)[unfolded delete_federator_row_def] assms(1)
proof (cases rule: delete_fed_row_cases)
  case 2
  have "fn_self_id fn \<in> fr_id ` set (filter (\<lambda>x. fr_id x \<noteq> fr_id f) (fd_federators db))" if "fn \<in> set (fd_federations db)" for fn
    using that assms(1) 2(2) by (fastforce simp: fed_ok_defs list_ex_iff)
  then show ?thesis
    using assms(1) 2(3) by (auto simp: fed_ok_def keys_ok_def self_zone_ok_def partner_zone_ok_def set_federators_def distinct_map_filter_key)
qed (use assms in simp)

lemma delete_federation_ok [fed_keep]:
  assumes "fed_ok db" and "delete_federation_row err fn db = (e, db')" and "fn \<in> set (fd_federations db)"
  shows "fed_ok db'"
  using assms(2)[unfolded delete_federation_row_def]
proof (cases rule: delete_fed_row_cases)
  case 2
  have other: "fn' \<noteq> fn \<Longrightarrow> fn' \<in> set (fd_federations db) \<Longrightarrow> fn_self_id fn' \<noteq> fn_self_id fn" for fn'
    using assms(1,3) by (auto simp: fed_ok_defs distinct_map inj_on_def)
  have kept: "fn' \<in> set (fd_federations db')" if "fn' \<in> set (fd_federations db)" "fn_name fn' \<noteq> fn_name fn" for fn'
  proof -
    have "fn' \<noteq> fn" using that(2) by auto
    then show ?thesis using other that(1) 2(3) by auto
  qed
  show ?thesis
    using assms(1) 2 kept by (auto simp: fed_ok_defs list_ex_iff distinct_map_filter_key) metis+
qed (use assms in simp)

lemma delete_zone_ok [fed_keep]:
  assumes "fed_ok db" and "delete_zone_row err z db = (e, db')"
  shows "fed_ok db'"
  using assms(2)[unfolded delete_zone_row_def] assms(1)
  by (cases rule: delete_fed_row_cases) (auto simp: fed_ok_defs list_ex_iff distinct_map_filter_key image_iff, metis)

lemma delete_self_zone_ok [fed_keep]:
  assumes "fed_ok db" and "delete_self_zone_row err zid fed db = (e, db')"
  shows "fed_ok db'"
  using assms(2)[unfolded delete_self_zone_row_def] assms(1)
  by (cases rule: delete_fed_row_cases) (auto simp: fed_ok_defs distinct_map_filter_key)

lemma delete_partner_zone_ok [fed_keep]:
  assumes "fed_ok db" and "delete_partner_zone_row err z db = (e, db')"
  shows "fed_ok db'"
  using assms(2)[unfolded delete_partner_zone_row_def] assms(1)
  by (cases rule: delete_fed_row_cases) (auto simp: fed_ok_defs distinct_map_filter_key)

text \<open>Replacing a whole table by one that is as good.\<close>

lemma new_federators_ok:
  assumes "fed_ok db" and "distinct (map fr_id fs)" and "fr_id ` set (fd_federators db) \<subseteq> fr_id ` set fs"
  shows "fed_ok (set_federators fs db)"
  using assms by (auto simp: fed_ok_defs set_federators_def)

lemma new_federations_ok:
  assumes "fed_ok db" and "distinct (map fn_name fs)" and "distinct (map fn_self_id fs)"
    and "\<forall>f\<in>set fs. fn_name f \<noteq> '''' \<and> fn_self_id f \<in> fr_id ` set (fd_federators db)"
    and "\<forall>s\<in>set (fd_self_zones db). self_zone_ok (db\<lparr>fd_federations := fs\<rparr>) s"
    and "\<forall>z\<in>set (fd_partner_zones db). partner_zone_ok (db\<lparr>fd_federations := fs\<rparr>) z"
  shows "fed_ok (db\<lparr>fd_federations := fs\<rparr>)"
  using assms by (simp add: fed_ok_def keys_ok_def)

lemma save_federator_ok [fed_keep]:
  assumes "fed_ok db" and "save_federator err f db = (e, db')"
  shows "fed_ok db'"
  using assms(2)[unfolded save_federator_def]
proof (cases rule: save_row_cases)
  case 2
  let ?r = "\<lambda>x. if fr_id x = fr_id f then f else x"
  have "distinct (map (fr_id \<circ> ?r) (fd_federators db))"
    by (rule distinct_same_keys) (use assms(1) in \<open>auto simp: fed_ok_defs\<close>)
  moreover have "fr_id ` set (fd_federators db) \<subseteq> fr_id ` set (map ?r (fd_federators db))"
  proof
    fix i assume "i \<in> fr_id ` set (fd_federators db)"
    then obtain x where x: "x \<in> set (fd_federators db)" "i = fr_id x" by auto
    have "fr_id (?r x) = i" using x(2) by simp
    moreover have "fr_id (?r x) \<in> fr_id ` set (map ?r (fd_federators db))"
      using x(1) unfolding set_map by (intro imageI)
    ultimately show "i \<in> fr_id ` set (map ?r (fd_federators db))" by (rule subst)
  qed
  ultimately show ?thesis unfolding 2 by (intro new_federators_ok assms(1)) simp_all
qed (use assms in simp)

lemma save_self_zone_ok [fed_keep]:
  assumes "fed_ok db" and "save_self_zone err s db = (e, db')" and "self_zone_ok db s"
  shows "fed_ok db'"
  using assms(2)[unfolded save_self_zone_def]
proof (cases rule: save_row_cases)
  case 2
  let ?k = "\<lambda>s. (sz_id s, sz_fed s)"
  have "distinct (map ?k (fd_self_zones db))" using assms(1) by (simp add: fed_ok_defs)
  then have "distinct (map ?k (fd_self_zones db'))"
    using distinct_same_keys[of ?k "\<lambda>x. if sz_id x = sz_id s \<and> sz_fed x = sz_fed s then s else x"] by (simp add: 2)
  moreover have "\<forall>x\<in>set (fd_self_zones db'). self_zone_ok db' x"
    using assms(1,3) by (auto simp: 2 fed_ok_defs)
  ultimately show ?thesis using assms(1) unfolding fed_ok_def keys_ok_def partner_zone_ok_def by (simp only: 2) simp
qed (use assms in simp)

lemma save_partner_zone_ok [fed_keep]:
  assumes "fed_ok db" and "save_partner_zone err z db = (e, db')" and "partner_zone_ok db z"
  shows "fed_ok db'"
  using assms(2)[unfolded save_partner_zone_def]
proof (cases rule: save_row_cases)
  case 2
  let ?k = "\<lambda>z. (z_id (pz_zone z), pz_fed z)"
  have "distinct (map ?k (fd_partner_zones db))" using assms(1) by (simp add: fed_ok_defs)
  then have "distinct (map ?k (fd_partner_zones db'))"
    using distinct_same_keys[of ?k "\<lambda>x. if z_id (pz_zone x) = z_id (pz_zone z) \<and> pz_fed x = pz_fed z then z else x"] by (simp add: 2)
  moreover have "\<forall>x\<in>set (fd_partner_zones db'). partner_zone_ok db' x"
    using assms(1,3) by (auto simp: 2 fed_ok_defs)
  ultimately show ?thesis using assms(1) unfolding fed_ok_def keys_ok_def self_zone_ok_def by (simp only: 2) simp
qed (use assms in simp)

text \<open>A federation is written back with the same keys, and loses a flag only when nothing needs it.\<close>

lemma save_federation_rows:
  assumes "fed_ok db" and "fn \<in> set (fd_federations db)" and "fn_self_id fn' = fn_self_id fn"
    and "fr_id (fn_partner fn') = fr_id (fn_partner fn)"
  shows "map (\<lambda>x. if fn_self_id x = fn_self_id fn' \<and> fr_id (fn_partner x) = fr_id (fn_partner fn') then fn' else x) (fd_federations db) =
    map (\<lambda>x. if x = fn then fn' else x) (fd_federations db)"
  using assms by (auto simp: fed_ok_defs distinct_map inj_on_def)

lemma save_federation_ok [fed_keep]:
  assumes "fed_ok db" and "save_federation err fn' db = (e, db')" and "fn \<in> set (fd_federations db)"
    and same: "fn_self_id fn' = fn_self_id fn" "fr_id (fn_partner fn') = fr_id (fn_partner fn)" "fn_name fn' = fn_name fn"
    and "fn_access fn \<and> \<not> fn_access fn' \<longrightarrow> (\<forall>s\<in>set (fd_self_zones db). sz_fed s = fn_name fn \<longrightarrow> \<not> sz_registered s)"
    and "fn_share fn \<and> \<not> fn_share fn' \<longrightarrow> (\<forall>z\<in>set (fd_partner_zones db). pz_fed z = fn_name fn \<longrightarrow> \<not> pz_registered z)"
  shows "fed_ok db'"
  using assms(2)[unfolded save_federation_def]
proof (cases rule: save_row_cases)
  case 2
  have db': "db' = fd_federations_update (map (\<lambda>x. if x = fn then fn' else x)) db"
    using 2(2) save_federation_rows[OF assms(1,3) same(1,2)] by simp
  let ?r = "\<lambda>x. if x = fn then fn' else x"
  let ?fs = "map ?r (fd_federations db)"
  have db: "db' = db\<lparr>fd_federations := ?fs\<rparr>" unfolding db' by simp
  have mem: "?r f \<in> set ?fs" if "f \<in> set (fd_federations db)" for f using that by auto
  have "self_zone_ok (db\<lparr>fd_federations := ?fs\<rparr>) s" if s: "s \<in> set (fd_self_zones db)" for s
  proof -
    from assms(1) s obtain f where f: "f \<in> set (fd_federations db)" "fn_name f = sz_fed s" "sz_registered s \<longrightarrow> fn_access f"
      by (auto simp: fed_ok_defs)
    then have "fn_name (?r f) = sz_fed s" "sz_registered s \<longrightarrow> fn_access (?r f)"
      using same(3) assms(7) s by auto
    then show ?thesis using assms(1) s mem[OF f(1)] by (auto simp: fed_ok_def self_zone_ok_def simp del: set_map)
  qed
  moreover have "partner_zone_ok (db\<lparr>fd_federations := ?fs\<rparr>) z" if z: "z \<in> set (fd_partner_zones db)" for z
  proof -
    from assms(1) z obtain f where f: "f \<in> set (fd_federations db)" "fn_name f = pz_fed z" "pz_registered z \<longrightarrow> fn_share f"
      by (auto simp: fed_ok_defs)
    then have "fn_name (?r f) = pz_fed z" "pz_registered z \<longrightarrow> fn_share (?r f)"
      using same(3) assms(8) z by auto
    then show ?thesis using mem[OF f(1)] by (auto simp: partner_zone_ok_def simp del: set_map)
  qed
  moreover have "distinct (map (fn_name \<circ> ?r) (fd_federations db))" "distinct (map (fn_self_id \<circ> ?r) (fd_federations db))"
    by (rule distinct_same_keys; use assms(1) same in \<open>auto simp: fed_ok_defs\<close>)+
  moreover have "\<forall>f\<in>set ?fs. fn_name f \<noteq> '''' \<and> fn_self_id f \<in> fr_id ` set (fd_federators db)"
    using assms(1,3) same by (auto simp: fed_ok_def)
  ultimately show ?thesis unfolding db by (intro new_federations_ok assms(1)) (simp_all del: set_map)
qed (use assms in simp)

subsection \<open>Lookups\<close>

lemma map_sum_Inr_iff: "map_sum f g x = Inr v \<longleftrightarrow> (\<exists>a. x = Inr a \<and> v = g a)"
  by (cases x) auto

lemma lookup_found: "lookup err table key cond rows = Inr (Some r) \<Longrightarrow> r \<in> set rows \<and> cond r"
  by (auto simp: lookup_def find_Some_iff split: option.splits)

lemma first_self_zone_found:
  "first_self_zone err zid fed db = Inr (Some s) \<Longrightarrow> s \<in> set (fd_self_zones db) \<and> (fed \<noteq> '''' \<longrightarrow> sz_fed s = fed) \<and> (zid \<noteq> '''' \<longrightarrow> sz_id s = zid)"
  unfolding first_self_zone_def by (drule lookup_found) (auto simp: field_matches_def)

lemma first_partner_zone_found:
  "first_partner_zone err fed op country zid db = Inr (Some z) \<Longrightarrow>
     z \<in> set (fd_partner_zones db) \<and> (fed \<noteq> '''' \<longrightarrow> pz_fed z = fed) \<and> (zid \<noteq> '''' \<longrightarrow> z_id (pz_zone z) = zid)"
  unfolding first_partner_zone_def by (drule lookup_found) (auto simp: field_matches_def)

lemma get_federation_by_name_found:
  assumes "get_federation_by_name err op name db = Inr (self, fn)"
  shows "fn \<in> set (fd_federations db)" and "fn_name fn = name" and "name \<noteq> ''''" and "self \<in> set (fd_federators db)"
    and "fn_self_id fn \<noteq> '''' \<Longrightarrow> fr_id self = fn_self_id fn"
  using assms
  by (auto simp: get_federation_by_name_def first_federation_def first_federator_def field_matches_def
      split: if_splits sum.splits option.splits dest!: lookup_found)

lemma validate_found:
  assumes "validate_and_get_federator_info fe err key hdr db = Inr (self, fn)"
  shows "self \<in> set (fd_federators db)" and "fn \<in> set (fd_federations db)" and "fr_id self = fh_dest hdr" and "fh_dest hdr \<noteq> ''''"
    and "fn_self_id fn = fh_dest hdr" and "fr_id (fn_partner fn) = fh_orig hdr"
    and "password_matches (fe_users fe) key (fr_hash self) (fr_salt self) (fr_iter self) = Inr True"
proof -
  have s: "first_federator err (fh_dest hdr) '''' db = Inr (Some self)" "first_federation_by_id err (fr_id self) db = Inr (Some fn)"
      "fh_dest hdr \<noteq> ''''" "fr_id (fn_partner fn) = fh_orig hdr"
      "password_matches (fe_users fe) key (fr_hash self) (fr_salt self) (fr_iter self) = Inr True"
    using assms by (auto simp: validate_and_get_federator_info_def split: if_splits sum.splits option.splits)
  note f = lookup_found[OF s(1)[unfolded first_federator_def]] and n = lookup_found[OF s(2)[unfolded first_federation_by_id_def]]
  show "self \<in> set (fd_federators db)" "fn \<in> set (fd_federations db)" "fh_dest hdr \<noteq> ''''" "fr_id (fn_partner fn) = fh_orig hdr"
      "password_matches (fe_users fe) key (fr_hash self) (fr_salt self) (fr_iter self) = Inr True"
    using f n s(3-) by auto
  show "fr_id self = fh_dest hdr" "fn_self_id fn = fh_dest hdr" using f n s(3) by (auto simp: field_matches_def)
qed

lemma self_zones_of_name: "fn_name fn \<noteq> '''' \<Longrightarrow> set (self_zones_of (fn_name fn) db) = {s \<in> set (fd_self_zones db). sz_fed s = fn_name fn}"
  by (auto simp: self_zones_of_def field_matches_def)

lemma partner_zones_of_name: "name \<noteq> '''' \<Longrightarrow> set (partner_zones_of name db) = {z \<in> set (fd_partner_zones db). pz_fed z = name}"
  by (auto simp: partner_zones_of_def field_matches_def)

lemma fed_ok_name: "fed_ok db \<Longrightarrow> fn \<in> set (fd_federations db) \<Longrightarrow> fn_name fn \<noteq> ''''"
  by (simp add: fed_ok_def)

subsection \<open>What partners do keeps the invariant\<close>

lemma register_zones_ok:
  assumes "register_zones fe err rid fn zids db = (r, db')" and "fed_ok db" and "fn \<in> set (fd_federations db)" and "fn_access fn"
  shows "fed_ok db' \<and> fd_federations db' = fd_federations db"
  using assms
proof (induction zids arbitrary: db r)
  case (Cons zid zids)
  show ?case
  proof (cases "fed_ok db' \<and> db' = db")
    case True
    then show ?thesis by auto
  next
    case False
    then obtain s z e1 db1 where s: "first_self_zone err zid (fn_name fn) db = Inr (Some s)"
        and z: "first_zone err zid '''' '''' db = Inr (Some z)"
        and e1: "save_self_zone err (s\<lparr>sz_registered := True, sz_revision := rid\<rparr>) db = (e1, db1)"
        and rest: "e1 \<noteq> None \<and> db' = db1 \<or> (\<exists>r1. register_zones fe err rid fn zids db1 = (r1, db'))"
      using Cons.prems(1,2)
      by (auto simp: Let_def map_prod_def split: sum.splits option.splits if_splits prod.splits)
    have "self_zone_ok db (s\<lparr>sz_registered := True, sz_revision := rid\<rparr>)"
      using first_self_zone_found[OF s] Cons.prems(2-4) fed_ok_name[OF Cons.prems(2,3)] by (fastforce simp: fed_ok_def self_zone_ok_def)
    then have "fed_ok db1" by (rule save_self_zone_ok[OF Cons.prems(2) e1])
    moreover have "fd_federations db1 = fd_federations db"
      using e1 unfolding save_self_zone_def by (cases rule: save_row_cases) auto
    ultimately show ?thesis using rest Cons.IH[of db1] Cons.prems(3,4) by auto
  qed
qed simp

lemma deregister_zones_ok:
  assumes "deregister_zones err rid ss db = (r, db')" and "fed_ok db" and "set ss \<subseteq> S" and "\<And>s. s \<in> S \<Longrightarrow> self_zone_ok db s"
  shows "fed_ok db'"
  using assms
proof (induction ss arbitrary: db)
  case (Cons s ss)
  obtain e1 db1 where e1: "save_self_zone err (s\<lparr>sz_registered := False, sz_revision := rid\<rparr>) db = (e1, db1)" by fastforce
  have "self_zone_ok db (s\<lparr>sz_registered := False, sz_revision := rid\<rparr>)"
    using Cons.prems(3,4) by (auto simp: self_zone_ok_def)
  then have ok: "fed_ok db1" by (rule save_self_zone_ok[OF Cons.prems(2) e1])
  have "fd_federations db1 = fd_federations db" "fd_zones db1 = fd_zones db"
    using e1 unfolding save_self_zone_def by (cases rule: save_row_cases; auto)+
  then have "self_zone_ok db1 s'" if "s' \<in> S" for s' using Cons.prems(4)[OF that] by (simp add: self_zone_ok_def)
  then show ?case
    using Cons.IH[of db1] Cons.prems(1,3) ok e1 by (auto split: option.splits)
qed simp

lemma registered_zones_found:
  "registered_zones err fn zids db = Inr ss \<Longrightarrow> set ss \<subseteq> set (fd_self_zones db)"
proof (induction zids arbitrary: ss)
  case (Cons zid zids)
  then obtain s ss' where "first_self_zone err zid (fn_name fn) db = Inr (Some s)" "registered_zones err fn zids db = Inr ss'" "ss = s # ss'"
    by (auto simp: map_sum_Inr_iff split: sum.splits option.splits if_splits)
  then show ?case using Cons.IH first_self_zone_found by fastforce
qed simp

lemma partner_create_ok [fed_keep]:
  assumes "federation_operator_partner_create fe err key hdr db = (r, db')" and "fed_ok db"
  shows "fed_ok db'"
proof (cases "db' = db")
  case False
  then obtain self fn e where v: "validate_and_get_federator_info fe err key hdr db = Inr (self, fn)"
      and s: "save_federation err (fn\<lparr>fn_access := True, fn_partner := (fn_partner fn)\<lparr>fr_revision := fh_request hdr\<rparr>\<rparr>) db = (e, db')"
    using assms(1)
    by (auto simp: federation_operator_partner_create_def Let_def split: sum.splits option.splits if_splits prod.splits)
  show ?thesis by (rule save_federation_ok[OF assms(2) s validate_found(2)[OF v]]) simp_all
qed (use assms in simp)

lemma partner_update_ok [fed_keep]:
  assumes "federation_operator_partner_update fe err key hdr mcc mnc loc db = (r, db')" and "fed_ok db"
  shows "fed_ok db'"
proof (cases "db' = db")
  case False
  then obtain self fn e p where v: "validate_and_get_federator_info fe err key hdr db = Inr (self, fn)"
      and s: "save_federation err (fn\<lparr>fn_partner := p\<rparr>) db = (e, db')" and p: "fr_id p = fr_id (fn_partner fn)"
    using assms(1)
    by (auto simp: federation_operator_partner_update_def Let_def split: sum.splits option.splits if_splits prod.splits)
  show ?thesis by (rule save_federation_ok[OF assms(2) s validate_found(2)[OF v]]) (simp_all add: p)
qed (use assms in simp)

lemma partner_delete_ok [fed_keep]:
  assumes "federation_operator_partner_delete fe err key hdr db = (r, db')" and "fed_ok db"
  shows "fed_ok db'"
proof (cases "db' = db")
  case False
  then obtain self fn e where v: "validate_and_get_federator_info fe err key hdr db = Inr (self, fn)"
      and n: "find sz_registered (self_zones_of (fn_name fn) db) = None"
      and s: "save_federation err (fn\<lparr>fn_access := False, fn_partner := (fn_partner fn)\<lparr>fr_revision := fh_request hdr\<rparr>\<rparr>) db = (e, db')"
    using assms(1)
    by (auto simp: federation_operator_partner_delete_def Let_def split: sum.splits option.splits if_splits prod.splits)
  have "\<forall>s\<in>set (fd_self_zones db). sz_fed s = fn_name fn \<longrightarrow> \<not> sz_registered s"
    using n self_zones_of_name[OF fed_ok_name[OF assms(2) validate_found(2)[OF v]], of db] by (auto simp: find_None_iff)
  then show ?thesis by (intro save_federation_ok[OF assms(2) s validate_found(2)[OF v]]) simp_all
qed (use assms in simp)

lemma zone_register_ok [fed_keep]:
  assumes "federation_operator_zone_register fe err key hdr zones db = (r, db')" and "fed_ok db"
  shows "fed_ok db'"
proof (cases "db' = db")
  case False
  then obtain self fn r' where v: "validate_and_get_federator_info fe err key hdr db = Inr (self, fn)" and a: "fn_access fn"
      and z: "register_zones fe err (fh_request hdr) fn zones db = (r', db')"
    using assms(1)
    by (auto simp: federation_operator_zone_register_def map_prod_def split: sum.splits if_splits prod.splits)
  show ?thesis using register_zones_ok[OF z assms(2) validate_found(2)[OF v] a] by simp
qed (use assms in simp)

lemma zone_deregister_ok [fed_keep]:
  assumes "federation_operator_zone_deregister fe err key hdr zones db = (r, db')" and "fed_ok db"
  shows "fed_ok db'"
proof (cases "db' = db")
  case False
  then obtain self fn rows e where v: "validate_and_get_federator_info fe err key hdr db = Inr (self, fn)"
      and rows: "registered_zones err fn zones db = Inr rows" and z: "deregister_zones err (fh_request hdr) rows db = (e, db')"
    using assms(1)
    by (auto simp: federation_operator_zone_deregister_def Let_def split: sum.splits if_splits prod.splits option.splits)
  show ?thesis
    by (rule deregister_zones_ok[OF z assms(2) registered_zones_found[OF rows]]) (use assms(2) in \<open>simp add: fed_ok_def\<close>)
qed (use assms in simp)

lemma zone_share_ok [fed_keep]:
  assumes "federation_operator_zone_share fe err key hdr zi db = (r, db')" and "fed_ok db"
  shows "fed_ok db'"
  using assms
  by (auto simp: federation_operator_zone_share_def Let_def split: sum.splits if_splits prod.splits option.splits
      dest: create_partner_zone_ok)

lemma zone_unshare_ok [fed_keep]:
  assumes "federation_operator_zone_unshare fe err key hdr zid db = (r, db')" and "fed_ok db"
  shows "fed_ok db'"
  using assms
  by (auto simp: federation_operator_zone_unshare_def Let_def split: sum.splits if_splits prod.splits option.splits
      dest: delete_partner_zone_ok)

lemma fed_handle_ok [fed_keep]:
  "fed_handle fe err key hdr call db = (r, db') \<Longrightarrow> fed_ok db \<Longrightarrow> fed_ok db'"
  by (cases call) (auto intro: fed_keep)

subsection \<open>What operators do keeps the invariant\<close>

lemma create_self_federator_ok [fed_keep]:
  "create_self_federator fe err rid uid key saltb caller f db = (r, db') \<Longrightarrow> fed_ok db \<Longrightarrow> fed_ok db'"
  by (auto simp: create_self_federator_def Let_def split: option.splits prod.splits dest: create_federator_ok)

lemma update_self_federator_ok [fed_keep]:
  "update_self_federator fe err net rid caller req db w = (r, db', w') \<Longrightarrow> fed_ok db \<Longrightarrow> fed_ok db'"
  by (auto simp: update_self_federator_def Let_def split: option.splits prod.splits sum.splits if_splits dest: save_federator_ok)

lemma delete_self_federator_ok [fed_keep]:
  "delete_self_federator err caller op fid db = (r, db') \<Longrightarrow> fed_ok db \<Longrightarrow> fed_ok db'"
  by (auto simp: delete_self_federator_def split: option.splits sum.splits dest: delete_federator_ok)

lemma generate_self_federator_api_key_ok [fed_keep]:
  "generate_self_federator_api_key fe err key saltb caller op fid db = (r, db') \<Longrightarrow> fed_ok db \<Longrightarrow> fed_ok db'"
  by (auto simp: generate_self_federator_api_key_def Let_def split: option.splits prod.splits sum.splits dest: save_federator_ok)

lemma vault_put_ok [fed_keep]: "vault_put fe name key db = (e, db') \<Longrightarrow> fed_ok db \<Longrightarrow> fed_ok db'"
  by (auto simp: vault_put_def fed_ok_defs split: option.splits)

lemma create_federation_keeps [fed_keep]:
  assumes "create_federation fe err rid caller fn db = (r, db')" and "fed_ok db"
  shows "fed_ok db'"
proof (cases "db' = db")
  case False
  let ?row = "fn\<lparr>fn_partner := (fn_partner fn)\<lparr>fr_api_key := '''', fr_revision := rid\<rparr>\<rparr>"
  obtain e db1 where c: "create_federation_row err ?row db = (e, db1)" by fastforce
  have "fn_name fn \<noteq> ''''"
  proof
    assume "fn_name fn = ''''"
    then have "db' = db" using assms(1) by (auto simp: create_federation_def Let_def first_fail.simps fail_if_def)
    then show False using False by simp
  qed
  then have "fed_ok db1" using create_federation_ok[OF assms(2) c] by simp
  moreover have "db' = db1 \<or> (\<exists>r. vault_put fe (fn_name fn) (fr_api_key (fn_partner fn)) db1 = (r, db'))"
    using assms(1) False c by (auto simp: create_federation_def Let_def split: option.splits)
  ultimately show ?thesis by (auto intro: vault_put_ok)
qed (use assms in simp)

lemma delete_federation_keeps [fed_keep]:
  assumes "delete_federation err forget caller op name db = (r, db')" and "fed_ok db"
  shows "fed_ok db'"
proof (cases "db' = db")
  case False
  then obtain self fn e db1 where g: "get_federation_by_name err op name db = Inr (self, fn)"
      and d: "delete_federation_row err fn db = (e, db1)"
      and db': "db' = db1 \<or> db' = db1\<lparr>fd_vault := filter (\<lambda>(n, _). n \<noteq> fn_name fn) (fd_vault db1)\<rparr>"
    using assms(1) by (auto simp: delete_federation_def Let_def split: sum.splits option.splits if_splits prod.splits)
  have "fed_ok db1" by (rule delete_federation_ok[OF assms(2) d get_federation_by_name_found(1)[OF g]])
  then show ?thesis using db' by (auto simp: fed_ok_defs)
qed (use assms in simp)

lemma set_partner_federation_api_key_ok [fed_keep]:
  "set_partner_federation_api_key fe err caller op name key db = (r, db') \<Longrightarrow> fed_ok db \<Longrightarrow> fed_ok db'"
  by (auto simp: set_partner_federation_api_key_def split: option.splits dest: vault_put_ok)

lemma create_self_federator_zone_ok [fed_keep]:
  "create_self_federator_zone fe err rid caller z db = (r, db') \<Longrightarrow> fed_ok db \<Longrightarrow> fed_ok db'"
  unfolding create_self_federator_zone_def by (force split: option.split_asm dest: create_zone_ok)

lemma delete_self_federator_zone_ok [fed_keep]:
  "delete_self_federator_zone err caller zid op country db = (r, db') \<Longrightarrow> fed_ok db \<Longrightarrow> fed_ok db'"
  by (auto simp: delete_self_federator_zone_def split: option.splits sum.splits if_splits dest: delete_zone_ok)

lemma share_self_federator_zone_ok [fed_keep]:
  "share_self_federator_zone fe err net rid caller op fed zid db w = (r, db', w') \<Longrightarrow> fed_ok db \<Longrightarrow> fed_ok db'"
  by (auto simp: share_self_federator_zone_def Let_def split: option.splits sum.splits if_splits prod.splits
      dest: create_self_zone_ok)

lemma unshare_self_federator_zone_ok [fed_keep]:
  "unshare_self_federator_zone fe err net rid caller op fed zid db w = (r, db', w') \<Longrightarrow> fed_ok db \<Longrightarrow> fed_ok db'"
  by (auto simp: unshare_self_federator_zone_def Let_def split: option.splits sum.splits if_splits prod.splits
      dest: delete_self_zone_ok)

lemma pick_partner_zones_found:
  "pick_partner_zones err fn want zids db zs = Inr zs' \<Longrightarrow>
     snd ` set zs' \<subseteq> snd ` set zs \<union> {z \<in> set (fd_partner_zones db). fn_name fn \<noteq> '''' \<longrightarrow> pz_fed z = fn_name fn}"
proof (induction zids arbitrary: zs)
  case (Cons zid zids)
  then obtain z where z: "first_partner_zone err (fn_name fn) (fr_operator (fn_partner fn)) (fr_country (fn_partner fn)) zid db = Inr (Some z)"
      "pick_partner_zones err fn want zids db (gput (z_id (pz_zone z)) z zs) = Inr zs'"
    by (auto split: if_splits sum.splits option.splits)
  show ?case
    using Cons.IH[OF z(2)] first_partner_zone_found[OF z(1)] by (auto dest!: gmap_put_elem) (metis (no_types) image_eqI snd_conv subsetD)?
qed auto

lemma mark_zones_ok:
  assumes "mark_zones err rid reg zs db = (e, db')" and "fed_ok db" and "fn \<in> set (fd_federations db)" and "reg \<longrightarrow> fn_share fn"
    and "\<forall>z\<in>set zs. pz_fed z = fn_name fn"
  shows "fed_ok db' \<and> fd_federations db' = fd_federations db"
  using assms
proof (induction zs arbitrary: db)
  case (Cons z zs)
  let ?z = "z\<lparr>pz_registered := reg, pz_zone := (pz_zone z)\<lparr>z_revision := rid\<rparr>\<rparr>"
  obtain e1 db1 where s: "save_partner_zone err ?z db = (e1, db1)" by fastforce
  have "partner_zone_ok db ?z" using Cons.prems(3-5) by (auto simp: partner_zone_ok_def)
  then have ok: "fed_ok db1" by (rule save_partner_zone_ok[OF Cons.prems(2) s])
  have same: "fd_federations db1 = fd_federations db"
    using s unfolding save_partner_zone_def by (cases rule: save_row_cases) auto
  show ?case
    using Cons.IH[of db1] Cons.prems ok same s by (auto split: option.splits)
qed simp

lemma register_partner_federator_zone_ok [fed_keep]:
  assumes "register_partner_federator_zone fe err net rid caller op fed zones db w = (r, db', w', evs)" and "fed_ok db"
  shows "fed_ok db'"
proof (cases "db' = db")
  case False
  then obtain self fn zs e where g: "get_federation_by_name err op fed db = Inr (self, fn)" and sh: "fn_share fn"
      and p: "pick_partner_zones err fn True zones db [] = Inr zs" and m: "mark_zones err rid True (map snd zs) db = (e, db')"
    using assms(1)
    by (auto simp: register_partner_federator_zone_def Let_def split: option.splits sum.splits if_splits prod.splits)
  note fn = get_federation_by_name_found(1)[OF g]
  have "\<forall>z\<in>set (map snd zs). pz_fed z = fn_name fn"
    using pick_partner_zones_found[OF p] fed_ok_name[OF assms(2) fn] by auto
  then show ?thesis using mark_zones_ok[OF m assms(2) fn] sh by simp
qed (use assms in simp)

lemma deregister_partner_federator_zone_ok [fed_keep]:
  assumes "deregister_partner_federator_zone fe err nf net rid caller op fed zones db w = (r, db', w', evs)" and "fed_ok db"
  shows "fed_ok db'"
proof (cases "db' = db")
  case False
  then obtain self fn zs e where g: "get_federation_by_name err op fed db = Inr (self, fn)"
      and p: "pick_partner_zones err fn False zones db [] = Inr zs" and m: "mark_zones err rid False (map snd zs) db = (e, db')"
    using assms(1)
    by (auto simp: deregister_partner_federator_zone_def Let_def split: option.splits sum.splits if_splits prod.splits)
  note fn = get_federation_by_name_found(1)[OF g]
  have "\<forall>z\<in>set (map snd zs). pz_fed z = fn_name fn"
    using pick_partner_zones_found[OF p] fed_ok_name[OF assms(2) fn] by auto
  then show ?thesis using mark_zones_ok[OF m assms(2) fn] by simp
qed (use assms in simp)

lemma store_partner_zones_ok:
  assumes "store_partner_zones err rid self fn zis db = (e, db')" and "fed_ok db"
  shows "fed_ok db' \<and> fd_federations db' = fd_federations db"
  using assms
proof (induction zis arbitrary: db)
  case (Cons zi zis)
  obtain e1 db1 where c: "create_partner_zone_row err (partner_zone_of rid self fn zi) db = (e1, db1)" by fastforce
  have ok: "fed_ok db1" by (rule create_partner_zone_ok[OF Cons.prems(2) c]) (simp add: partner_zone_of_def)
  have same: "fd_federations db1 = fd_federations db"
    using c unfolding create_partner_zone_row_def by (cases rule: create_row_cases) auto
  show ?case using Cons.IH[of db1] Cons.prems ok same c by (auto split: option.splits)
qed simp

lemma register_federation_ok [fed_keep]:
  assumes "register_federation fe err net rid caller op fed db w = (r, db', w')" and "fed_ok db"
  shows "fed_ok db'"
proof (cases "db' = db")
  case False
  then obtain self fn zis e db1 where g: "get_federation_by_name err op fed db = Inr (self, fn)"
      and st: "store_partner_zones err rid self fn zis db = (e, db1)"
      and rest: "db' = db1 \<or> (\<exists>mcc mnc loc e2. save_federation err (fn\<lparr>fn_share := True, fn_partner := (fn_partner fn)
        \<lparr>fr_mcc := mcc, fr_mnc := mnc, fr_locator := loc, fr_revision := rid\<rparr>\<rparr>) db1 = (e2, db'))"
    using assms(1)
    by (auto simp: register_federation_def Let_def split: option.splits sum.splits if_splits prod.splits) blast
  note st = store_partner_zones_ok[OF st assms(2)]
  have "fn \<in> set (fd_federations db1)" using get_federation_by_name_found(1)[OF g] st by simp
  from save_federation_ok[OF _ _ this] show ?thesis using rest st by auto
qed (use assms in simp)

lemma delete_partner_zones_ok:
  assumes "delete_partner_zones err zs db = (e, db')" and "fed_ok db"
  shows "fed_ok db' \<and> fd_federations db' = fd_federations db \<and> set (fd_partner_zones db') \<subseteq> set (fd_partner_zones db)"
  using assms
proof (induction zs arbitrary: db)
  case (Cons z zs)
  obtain e1 db1 where c: "delete_partner_zone_row err z db = (e1, db1)" by fastforce
  have ok: "fed_ok db1" by (rule delete_partner_zone_ok[OF Cons.prems(2) c])
  have "fd_federations db1 = fd_federations db \<and> set (fd_partner_zones db1) \<subseteq> set (fd_partner_zones db)"
    using c unfolding delete_partner_zone_row_def by (cases rule: delete_fed_row_cases) auto
  then show ?case using Cons.IH[of db1] Cons.prems(1) ok c by (auto split: option.splits)
qed simp

lemma deregister_federation_ok [fed_keep]:
  assumes "deregister_federation fe err net rid caller op fed db w = (r, db', w')" and "fed_ok db"
  shows "fed_ok db'"
proof (cases "db' = db")
  case False
  then obtain self fn e db1 where g: "get_federation_by_name err op fed db = Inr (self, fn)"
      and n: "find pz_registered (partner_zones_of fed db) = None"
      and st: "delete_partner_zones err (partner_zones_of fed db) db = (e, db1)"
      and rest: "db' = db1 \<or> (\<exists>e2. save_federation err (fn\<lparr>fn_share := False,
                     fn_partner := (fn_partner fn)\<lparr>fr_revision := rid\<rparr>\<rparr>) db1 = (e2, db'))"
    using assms(1)
    by (auto simp: deregister_federation_def Let_def split: option.splits sum.splits if_splits prod.splits)
  note st = delete_partner_zones_ok[OF st assms(2)] and fn = get_federation_by_name_found[OF g]
  have in1: "fn \<in> set (fd_federations db1)" using fn(1) st by simp
  have "\<forall>z\<in>set (fd_partner_zones db1). pz_fed z = fn_name fn \<longrightarrow> \<not> pz_registered z"
    using n partner_zones_of_name[OF fn(3), of db] fn(2) st by (auto simp: find_None_iff)
  with save_federation_ok[OF _ _ in1] show ?thesis using rest st by auto
qed (use assms in simp)

subsection \<open>Reachable states\<close>

text \<open>
  The calls of operators and of partners, in any order, with any failures of the database and any
  answers of the partner; the state of the partner changes in its own way.
\<close>

inductive fed_step :: "fed_db \<times> 'w \<Rightarrow> fed_db \<times> 'w \<Rightarrow> bool" where
  create_self_federator: "create_self_federator fe err rid uid key saltb caller f db = (r, db') \<Longrightarrow> fed_step (db, w) (db', w)"
| update_self_federator: "update_self_federator fe err net rid caller req db w = (r', db', w') \<Longrightarrow> fed_step (db, w) (db', w')"
| delete_self_federator: "delete_self_federator err caller op fid db = (e, db') \<Longrightarrow> fed_step (db, w) (db', w)"
| generate_api_key: "generate_self_federator_api_key fe err key saltb caller op fid db = (r'', db') \<Longrightarrow> fed_step (db, w) (db', w)"
| create_federation: "create_federation fe err rid caller fn db = (e, db') \<Longrightarrow> fed_step (db, w) (db', w)"
| delete_federation: "delete_federation err forget caller op name db = (e, db') \<Longrightarrow> fed_step (db, w) (db', w)"
| set_partner_key: "set_partner_federation_api_key fe err caller op name key db = (e, db') \<Longrightarrow> fed_step (db, w) (db', w)"
| create_zone: "create_self_federator_zone fe err rid caller z db = (e, db') \<Longrightarrow> fed_step (db, w) (db', w)"
| delete_zone: "delete_self_federator_zone err caller zid op country db = (e, db') \<Longrightarrow> fed_step (db, w) (db', w)"
| share_zone: "share_self_federator_zone fe err net rid caller op fed zid db w = (e, db', w') \<Longrightarrow> fed_step (db, w) (db', w')"
| unshare_zone: "unshare_self_federator_zone fe err net rid caller op fed zid db w = (e, db', w') \<Longrightarrow> fed_step (db, w) (db', w')"
| register_zones: "register_partner_federator_zone fe err net rid caller op fed zones db w = (e, db', w', evs) \<Longrightarrow> fed_step (db, w) (db', w')"
| deregister_zones: "deregister_partner_federator_zone fe err nf net rid caller op fed zones db w = (e, db', w', evs) \<Longrightarrow> fed_step (db, w) (db', w')"
| register: "register_federation fe err net rid caller op fed db w = (e, db', w') \<Longrightarrow> fed_step (db, w) (db', w')"
| deregister: "deregister_federation fe err net rid caller op fed db w = (e, db', w') \<Longrightarrow> fed_step (db, w) (db', w')"
| partner: "fed_handle fe err key hdr call db = (r''', db') \<Longrightarrow> fed_step (db, w) (db', w)"
| partner_changes: "fed_step (db, w) (db, w')"

lemma fed_step_ok: "fed_step s s' \<Longrightarrow> fed_ok (fst s) \<Longrightarrow> fed_ok (fst s')"
  by (induction rule: fed_step.induct) (auto intro: fed_keep)

text \<open>
  C10 (the federation tables stay consistent): whatever operators and partners do, in any order and with any
  failures, every zone that is shared exists and belongs to a federation that exists, every zone of a partner belongs to one, and a
  zone is registered only while its federation is: ours by a partner with access to our zones, the partner's
  only while it shares its zones with us.
\<close>

theorem federation_tables_stay_ok:
  assumes "fed_step\<^sup>*\<^sup>* (db0, w0) (db, w)" and "fed_ok db0"
  shows "(\<forall>s\<in>set (fd_self_zones db). sz_id s \<in> z_id ` set (fd_zones db) \<and>
      (\<exists>fn\<in>set (fd_federations db). fn_name fn = sz_fed s \<and> (sz_registered s \<longrightarrow> fn_access fn))) \<and>
    (\<forall>z\<in>set (fd_partner_zones db). \<exists>fn\<in>set (fd_federations db). fn_name fn = pz_fed z \<and> (pz_registered z \<longrightarrow> fn_share fn)) \<and>
    (\<forall>fn\<in>set (fd_federations db). \<exists>f\<in>set (fd_federators db). fr_id f = fn_self_id fn)"
proof -
  have "fed_ok (fst s') \<or> \<not> fed_ok (fst s)" if "fed_step\<^sup>*\<^sup>* s s'" for s s' :: "fed_db \<times> 'a"
    using that by induction (auto dest: fed_step_ok)
  from this[OF assms(1)] have "fed_ok db" using assms(2) by simp
  then show ?thesis by (fastforce simp: fed_ok_def self_zone_ok_def partner_zone_ok_def)
qed

subsection \<open>What a partner can change\<close>

text \<open>Two states that differ at most in one federation and in the zones under it.\<close>

definition same_elsewhere :: "string \<Rightarrow> string \<Rightarrow> fed_db \<Rightarrow> fed_db \<Rightarrow> bool" where
  "same_elsewhere self_id name db db' \<longleftrightarrow> fd_mc db' = fd_mc db \<and> fd_regions db' = fd_regions db \<and>
     fd_federators db' = fd_federators db \<and> fd_zones db' = fd_zones db \<and> fd_vault db' = fd_vault db \<and>
     filter (\<lambda>f. fn_self_id f \<noteq> self_id) (fd_federations db') = filter (\<lambda>f. fn_self_id f \<noteq> self_id) (fd_federations db) \<and>
     filter (\<lambda>s. sz_fed s \<noteq> name) (fd_self_zones db') = filter (\<lambda>s. sz_fed s \<noteq> name) (fd_self_zones db) \<and>
     filter (\<lambda>z. pz_fed z \<noteq> name) (fd_partner_zones db') = filter (\<lambda>z. pz_fed z \<noteq> name) (fd_partner_zones db)"

lemma same_elsewhere_refl [simp]: "same_elsewhere i n db db"
  by (simp add: same_elsewhere_def)

lemma same_elsewhere_trans: "same_elsewhere i n a b \<Longrightarrow> same_elsewhere i n b c \<Longrightarrow> same_elsewhere i n a c"
  by (simp add: same_elsewhere_def)

lemma filter_replace:
  "(\<And>x. P x \<Longrightarrow> r x = x) \<Longrightarrow> (\<And>x. \<not> P x \<Longrightarrow> \<not> P (r x)) \<Longrightarrow> filter P (map r xs) = filter P xs"
  by (induction xs) auto

lemma save_federation_elsewhere: "save_federation err fn db = (e, db') \<Longrightarrow> same_elsewhere (fn_self_id fn) n db db'"
  unfolding save_federation_def
  by (elim save_row_cases) (auto simp: same_elsewhere_def intro!: filter_replace split: if_splits)

lemma save_self_zone_elsewhere: "save_self_zone err s db = (e, db') \<Longrightarrow> same_elsewhere i (sz_fed s) db db'"
  unfolding save_self_zone_def
  by (elim save_row_cases) (auto simp: same_elsewhere_def intro!: filter_replace split: if_splits)

lemma create_partner_zone_elsewhere: "create_partner_zone_row err z db = (e, db') \<Longrightarrow> same_elsewhere i (pz_fed z) db db'"
  unfolding create_partner_zone_row_def by (elim create_row_cases) (auto simp: same_elsewhere_def)

lemma delete_partner_zone_elsewhere: "delete_partner_zone_row err z db = (e, db') \<Longrightarrow> same_elsewhere i (pz_fed z) db db'"
  unfolding delete_partner_zone_row_def
  by (elim delete_fed_row_cases) (auto simp: same_elsewhere_def filter_filter intro!: filter_cong)

lemma register_zones_elsewhere:
  assumes "register_zones fe err rid fn zids db = (r, db')" and "fn_name fn \<noteq> ''''"
  shows "same_elsewhere i (fn_name fn) db db'"
  using assms(1)
proof (induction zids arbitrary: db r)
  case (Cons zid zids)
  show ?case
  proof (cases "db' = db")
    case False
    then obtain s e1 db1 where s: "first_self_zone err zid (fn_name fn) db = Inr (Some s)"
        and e1: "save_self_zone err (s\<lparr>sz_registered := True, sz_revision := rid\<rparr>) db = (e1, db1)"
        and rest: "e1 \<noteq> None \<and> db' = db1 \<or> (\<exists>r1. register_zones fe err rid fn zids db1 = (r1, db'))"
      using Cons.prems
      by (auto simp: Let_def map_prod_def split: sum.splits option.splits if_splits prod.splits)
    have "same_elsewhere i (fn_name fn) db db1"
      using save_self_zone_elsewhere[OF e1, of i] first_self_zone_found[OF s] assms(2) by simp
    then show ?thesis using rest Cons.IH[of db1] same_elsewhere_trans by blast
  qed simp
qed simp

lemma deregister_zones_elsewhere:
  "deregister_zones err rid ss db = (r, db') \<Longrightarrow> \<forall>s\<in>set ss. sz_fed s = n \<Longrightarrow> same_elsewhere i n db db'"
proof (induction ss arbitrary: db)
  case (Cons s ss)
  obtain e1 db1 where e1: "save_self_zone err (s\<lparr>sz_registered := False, sz_revision := rid\<rparr>) db = (e1, db1)" by fastforce
  have "same_elsewhere i n db db1" using save_self_zone_elsewhere[OF e1, of i] Cons.prems(2) by simp
  then show ?case
    using Cons.IH[of db1] Cons.prems e1 same_elsewhere_trans by (auto split: option.splits)
qed simp

lemma registered_zones_name:
  "registered_zones err fn zids db = Inr ss \<Longrightarrow> fn_name fn \<noteq> '''' \<Longrightarrow> \<forall>s\<in>set ss. sz_fed s = fn_name fn"
proof (induction zids arbitrary: ss)
  case (Cons zid zids)
  then obtain s ss' where "first_self_zone err zid (fn_name fn) db = Inr (Some s)" "registered_zones err fn zids db = Inr ss'" "ss = s # ss'"
    by (auto simp: map_sum_Inr_iff split: sum.splits option.splits if_splits)
  then show ?case using Cons.IH Cons.prems(2) first_self_zone_found by fastforce
qed simp

text \<open>Every answer that is not an error, and every change, comes after the check of the key.\<close>

lemma fed_handle_validates:
  assumes "fed_handle fe err key hdr call db = (r, db')" and "fed_ok db" and "db' \<noteq> db \<or> (\<exists>reply. r = Inr reply)"
  obtains self fn where "validate_and_get_federator_info fe err key hdr db = Inr (self, fn)"
    "same_elsewhere (fn_self_id fn) (fn_name fn) db db'"
proof -
  obtain self fn where v: "validate_and_get_federator_info fe err key hdr db = Inr (self, fn)"
    using assms(1,3)
    by (cases call) (auto simp: federation_operator_partner_create_def federation_operator_partner_update_def
        federation_operator_partner_delete_def federation_operator_zone_register_def federation_operator_zone_deregister_def
        federation_operator_zone_share_def federation_operator_zone_unshare_def split: sum.splits if_splits)
  have n: "fn_name fn \<noteq> ''''" by (rule fed_ok_name[OF assms(2) validate_found(2)[OF v]])
  have "same_elsewhere (fn_self_id fn) (fn_name fn) db db'"
  proof (cases call)
    case Partner_Create
    then show ?thesis
      using assms(1) v save_federation_elsewhere[of err "fn\<lparr>fn_access := True, fn_partner := (fn_partner fn)\<lparr>fr_revision := fh_request hdr\<rparr>\<rparr>" db]
      by (auto simp: federation_operator_partner_create_def Let_def split: if_splits option.splits sum.splits prod.splits)
  next
    case (Partner_Update mcc mnc loc)
    let ?fn = "\<lambda>p. fn\<lparr>fn_partner := p\<rparr>"
    have same: "save_federation err (?fn p) db = (e, db1) \<Longrightarrow> same_elsewhere (fn_self_id fn) (fn_name fn) db db1" for p e db1
      using save_federation_elsewhere[of err "?fn p"] by simp
    show ?thesis
      using assms(1) v Partner_Update
      by (auto simp: federation_operator_partner_update_def Let_def split: if_splits option.splits prod.splits dest: same)
  next
    case Partner_Delete
    then show ?thesis
      using assms(1) v save_federation_elsewhere[of err "fn\<lparr>fn_access := False, fn_partner := (fn_partner fn)\<lparr>fr_revision := fh_request hdr\<rparr>\<rparr>" db]
      by (auto simp: federation_operator_partner_delete_def Let_def split: if_splits option.splits prod.splits)
  next
    case (Zones_Register zs)
    then show ?thesis
      using assms(1) v register_zones_elsewhere[OF _ n]
      by (auto simp: federation_operator_zone_register_def map_prod_def split: if_splits prod.splits)
  next
    case (Zones_Deregister zs)
    then show ?thesis
      using assms(1) v deregister_zones_elsewhere registered_zones_name[OF _ n]
      by (auto simp: federation_operator_zone_deregister_def Let_def split: if_splits option.splits sum.splits prod.splits)
  next
    case (Zone_Share zi)
    then show ?thesis
      using assms(1) v
      by (auto simp: federation_operator_zone_share_def Let_def split: if_splits option.splits prod.splits
          dest!: create_partner_zone_elsewhere)
  next
    case (Zone_Unshare zid)
    then show ?thesis
      using assms(1) v n
      by (auto simp: federation_operator_zone_unshare_def Let_def split: if_splits option.splits sum.splits prod.splits
          dest!: delete_partner_zone_elsewhere first_partner_zone_found)
  qed
  then show ?thesis using that[OF v] by blast
qed

text \<open>
  C19 (partners stay in their federation): a call of a partner that answers anything but an error, or changes anything, holds the
  key of the federator it is sent to and names the partner of that federator's federation; it changes
  nothing but the row of that federation and the zones under it: no federator, no zone of ours, no key,
  no role, and no other federation.
\<close>

theorem partners_stay_in_federation:
  assumes "fed_handle fe err key hdr call db = (r, db')" and "fed_ok db" and "db' \<noteq> db \<or> (\<exists>reply. r = Inr reply)"
  shows "\<exists>self\<in>set (fd_federators db). \<exists>fn\<in>set (fd_federations db).
    fr_id self = fh_dest hdr \<and> fn_self_id fn = fh_dest hdr \<and> fr_id (fn_partner fn) = fh_orig hdr \<and>
    password_matches (fe_users fe) key (fr_hash self) (fr_salt self) (fr_iter self) = Inr True \<and>
    same_elsewhere (fh_dest hdr) (fn_name fn) db db'"
proof -
  obtain self fn where v: "validate_and_get_federator_info fe err key hdr db = Inr (self, fn)"
    "same_elsewhere (fn_self_id fn) (fn_name fn) db db'"
    by (rule fed_handle_validates[OF assms])
  then show ?thesis using validate_found[OF v(1)] by metis
qed

end
