(* ===== verification/Fed_Protocol.thy ===== *)
theory Fed_Protocol
  imports Fed_Safety
begin

text \<open>
  Two master controllers that federate: the one that registers (the consumer, \<open>federation_mc.go\<close>) and
  its partner (the provider, \<open>federation_op.go\<close>).  What the consumer relies on is the locale
  \<open>fed_peer\<close>; the handlers of the provider are an interpretation of it, and with them the tables of
  both sides agree as long as nothing fails on the way.  Then, what happens when something does.
\<close>

subsection \<open>The interface\<close>

text \<open>The zones with their state after those in \<open>zs\<close> were set to \<open>r\<close>.\<close>

definition set_registered :: "bool \<Rightarrow> string set \<Rightarrow> (string \<times> bool) set \<Rightarrow> (string \<times> bool) set" where
  "set_registered r zs zones = (\<lambda>(z, b). (z, if z \<in> zs then r else b)) ` zones"

locale fed_peer =
  fixes net :: "'w net" and ok :: "'w \<Rightarrow> bool" and accepts :: "string \<Rightarrow> fed_header \<Rightarrow> bool"
    and access :: "'w \<Rightarrow> bool" and zones :: "'w \<Rightarrow> (string \<times> bool) set"
  assumes create: "ok w \<Longrightarrow> accepts k hdr \<Longrightarrow> \<not> access w \<Longrightarrow> \<exists>mcc mnc loc zis w'.
      net u k (hdr, Partner_Create) w = (Inr (Partner_Created mcc mnc loc zis), w') \<and> ok w' \<and> access w' \<and>
      zones w' = zones w \<and> distinct (map zi_id zis) \<and> (\<lambda>zi. (zi_id zi, False)) ` set zis = zones w"
    and delete: "ok w \<Longrightarrow> accepts k hdr \<Longrightarrow> access w \<Longrightarrow> \<forall>(z, r)\<in>zones w. \<not> r \<Longrightarrow> \<exists>reply w'.
      net u k (hdr, Partner_Delete) w = (Inr reply, w') \<and> ok w' \<and> \<not> access w' \<and> zones w' = zones w"
    and register: "ok w \<Longrightarrow> accepts k hdr \<Longrightarrow> access w \<Longrightarrow> zs \<noteq> [] \<Longrightarrow> distinct zs \<Longrightarrow> \<forall>z\<in>set zs. (z, False) \<in> zones w \<Longrightarrow>
      \<exists>ds w'. net u k (hdr, Zones_Register zs) w = (Inr (Zones_Registered ds), w') \<and> ok w' \<and> access w' \<and>
      zones w' = set_registered True (set zs) (zones w) \<and> map fst ds = zs"
    and deregister: "ok w \<Longrightarrow> accepts k hdr \<Longrightarrow> access w \<Longrightarrow> zs \<noteq> [] \<Longrightarrow> \<forall>z\<in>set zs. (z, True) \<in> zones w \<Longrightarrow>
      \<exists>reply w'. net u k (hdr, Zones_Deregister zs) w = (Inr reply, w') \<and> ok w' \<and> access w' \<and>
      zones w' = set_registered False (set zs) (zones w)"
    and zone_names: "ok w \<Longrightarrow> (z, r) \<in> zones w \<Longrightarrow> z \<noteq> ''''"

subsection \<open>The provider\<close>

text \<open>The partner reached over the network, when nothing is lost.\<close>

definition partner_net :: "fed_env \<Rightarrow> db_err \<Rightarrow> fed_db net" where
  "partner_net fe err u key m p =
     (let (r, p') = fed_handle fe err key (fst m) (snd m) p in (map_sum err_text id r, p'))"

definition peer_ok :: "fed_env \<Rightarrow> string \<Rightarrow> string \<Rightarrow> string \<times> string \<times> int \<Rightarrow> fed_db \<Rightarrow> bool" where
  "peer_ok fe idc idp h p \<longleftrightarrow> fed_ok p \<and> idc \<noteq> '''' \<and> idp \<noteq> '''' \<and> (\<forall>z\<in>set (fd_zones p). z_id z \<noteq> '''') \<and>
     (\<exists>self\<in>set (fd_federators p). fr_id self = idp \<and> (fr_hash self, fr_salt self, fr_iter self) = h) \<and>
     (\<exists>fn\<in>set (fd_federations p). fn_self_id fn = idp \<and> fr_id (fn_partner fn) = idc)"

definition peer_accepts :: "fed_env \<Rightarrow> string \<Rightarrow> string \<Rightarrow> string \<times> string \<times> int \<Rightarrow> string \<Rightarrow> fed_header \<Rightarrow> bool" where
  "peer_accepts fe idc idp h key hdr \<longleftrightarrow> fh_orig hdr = idc \<and> fh_dest hdr = idp \<and> fh_operator hdr \<noteq> '''' \<and>
     password_matches (fe_users fe) key (fst h) (fst (snd h)) (snd (snd h)) = Inr True"

definition peer_access :: "string \<Rightarrow> fed_db \<Rightarrow> bool" where
  "peer_access idp p \<longleftrightarrow> (\<exists>fn\<in>set (fd_federations p). fn_self_id fn = idp \<and> fn_access fn)"

definition peer_zones :: "string \<Rightarrow> fed_db \<Rightarrow> (string \<times> bool) set" where
  "peer_zones idp p = {(sz_id s, sz_registered s) |s fn. fn \<in> set (fd_federations p) \<and> fn_self_id fn = idp \<and>
     s \<in> set (fd_self_zones p) \<and> sz_fed s = fn_name fn}"

lemma find_unique: "distinct (map k xs) \<Longrightarrow> x \<in> set xs \<Longrightarrow> find (\<lambda>y. k y = k x) xs = Some x"
  by (induction xs) auto

lemma fed_ok_find:
  assumes "fed_ok db"
  shows "f \<in> set (fd_federators db) \<Longrightarrow> find (\<lambda>y. fr_id y = fr_id f) (fd_federators db) = Some f"
    and "fn \<in> set (fd_federations db) \<Longrightarrow> find (\<lambda>y. fn_self_id y = fn_self_id fn) (fd_federations db) = Some fn"
    and "z \<in> set (fd_zones db) \<Longrightarrow> find (\<lambda>y. z_id y = z_id z) (fd_zones db) = Some z"
    and "s \<in> set (fd_self_zones db) \<Longrightarrow> find (\<lambda>y. sz_id y = sz_id s \<and> sz_fed y = sz_fed s) (fd_self_zones db) = Some s"
    and "pz \<in> set (fd_partner_zones db) \<Longrightarrow>
      find (\<lambda>y. z_id (pz_zone y) = z_id (pz_zone pz) \<and> pz_fed y = pz_fed pz) (fd_partner_zones db) = Some pz"
  using assms find_unique[of fr_id "fd_federators db"] find_unique[of fn_self_id "fd_federations db"]
    find_unique[of z_id "fd_zones db"] find_unique[of "\<lambda>s. (sz_id s, sz_fed s)" "fd_self_zones db"]
    find_unique[of "\<lambda>z. (z_id (pz_zone z), pz_fed z)" "fd_partner_zones db"]
  by (simp_all add: fed_ok_def keys_ok_def)

lemma peer_unique: "fed_ok p \<Longrightarrow> fn \<in> set (fd_federations p) \<Longrightarrow> f \<in> set (fd_federations p) \<Longrightarrow> fn_self_id f = fn_self_id fn \<longleftrightarrow> f = fn"
  by (auto simp: fed_ok_def keys_ok_def distinct_map inj_on_def)

lemma peer_view:
  assumes "fed_ok p" and "fn \<in> set (fd_federations p)"
  shows "peer_access (fn_self_id fn) p \<longleftrightarrow> fn_access fn"
    and "peer_zones (fn_self_id fn) p = (\<lambda>s. (sz_id s, sz_registered s)) ` {s \<in> set (fd_self_zones p). sz_fed s = fn_name fn}"
  using peer_unique[OF assms] assms(2) by (auto simp: peer_access_def peer_zones_def)

lemma peer_federation:
  assumes "peer_ok fe idc idp h p"
  obtains fn where "fn \<in> set (fd_federations p)" "fn_self_id fn = idp" "fr_id (fn_partner fn) = idc" "fn_name fn \<noteq> ''''"
  using assms fed_ok_name by (auto simp: peer_ok_def)

lemma peer_validates:
  assumes "peer_ok fe idc idp h p" and "peer_accepts fe idc idp h key hdr"
    and "fn \<in> set (fd_federations p)" "fn_self_id fn = idp" "fr_id (fn_partner fn) = idc"
  obtains self where "validate_and_get_federator_info fe no_err key hdr p = Inr (self, fn)"
proof -
  have ok: "fed_ok p" and ids: "idc \<noteq> ''''" "idp \<noteq> ''''" using assms(1) by (simp_all add: peer_ok_def)
  obtain self where self: "self \<in> set (fd_federators p)" "fr_id self = idp" "(fr_hash self, fr_salt self, fr_iter self) = h"
    using assms(1) by (auto simp: peer_ok_def)
  have "first_federator no_err idp '''' p = Inr (Some self)" "first_federation_by_id no_err idp p = Inr (Some fn)"
    using fed_ok_find(1)[OF ok self(1)] fed_ok_find(2)[OF ok assms(3)] self(2) assms(4) ids
    by (simp_all add: first_federator_def first_federation_by_id_def lookup_def field_matches_def)
  then have "validate_and_get_federator_info fe no_err key hdr p = Inr (self, fn)"
    using assms(2,5) ids self(2,3) by (auto simp: validate_and_get_federator_info_def peer_accepts_def)
  then show ?thesis by (rule that)
qed

lemma save_federation_no_err:
  assumes "fed_ok db" and "fn \<in> set (fd_federations db)" and "fn_self_id fn' = fn_self_id fn" "fr_id (fn_partner fn') = fr_id (fn_partner fn)"
  shows "save_federation no_err fn' db = (None, db\<lparr>fd_federations := map (\<lambda>x. if x = fn then fn' else x) (fd_federations db)\<rparr>)"
  using save_federation_rows[OF assms] by (simp add: save_federation_def save_row_def)

text \<open>Setting the flag of the federation leaves everything else of the view.\<close>

lemma peer_set_access:
  assumes "peer_ok fe idc idp h p" and "fn \<in> set (fd_federations p)" "fn_self_id fn = idp" "fr_id (fn_partner fn) = idc"
    and "p' = p\<lparr>fd_federations := map (\<lambda>x. if x = fn then fn' else x) (fd_federations p)\<rparr>" and "fed_ok p'"
    and "fn_self_id fn' = idp" "fr_id (fn_partner fn') = idc" "fn_name fn' = fn_name fn"
  shows "peer_ok fe idc idp h p'" and "peer_access idp p' \<longleftrightarrow> fn_access fn'" and "peer_zones idp p' = peer_zones idp p"
proof -
  have in': "fn' \<in> set (fd_federations p')" using assms(2,5) by auto
  show ok: "peer_ok fe idc idp h p'"
    using assms(1,5,6,7,8) in' by (simp add: peer_ok_def del: set_map) (use in' assms(7,8) in blast)
  note v = peer_view[OF assms(6) in'] and v0 = peer_view[OF _ assms(2)]
  have "fed_ok p" using assms(1) by (simp add: peer_ok_def)
  show "peer_access idp p' \<longleftrightarrow> fn_access fn'" using v(1) assms(7) by simp
  show "peer_zones idp p' = peer_zones idp p" using v(2) v0(2)[OF \<open>fed_ok p\<close>] assms(3,5,7,9) by simp
qed

lemma shared_zone_infos_all:
  "fed_ok p \<Longrightarrow> \<forall>z\<in>set (fd_zones p). z_id z \<noteq> '''' \<Longrightarrow> set ss \<subseteq> set (fd_self_zones p) \<Longrightarrow>
     \<exists>zis. shared_zone_infos no_err p ss = Inr zis \<and> map zi_id zis = map sz_id ss"
proof (induction ss)
  case (Cons s ss)
  then obtain zis where zis: "shared_zone_infos no_err p ss = Inr zis" "map zi_id zis = map sz_id ss" by auto
  obtain z where z: "z \<in> set (fd_zones p)" "z_id z = sz_id s"
    using Cons.prems(1,3) by (auto simp: fed_ok_def self_zone_ok_def)
  moreover have "sz_id s \<noteq> ''''" using z Cons.prems(2) by metis
  ultimately have "first_zone no_err (sz_id s) '''' '''' p = Inr (Some z)"
    using fed_ok_find(3)[OF Cons.prems(1) z(1)] by (simp add: first_zone_def lookup_def field_matches_def)
  then show ?case using zis z(2) by (simp add: zone_info_of_def)
qed simp

lemma peer_create:
  assumes "peer_ok fe idc idp h p" and "peer_accepts fe idc idp h key hdr" and "\<not> peer_access idp p"
  shows "\<exists>mcc mnc loc zis p'. partner_net fe no_err u key (hdr, Partner_Create) p = (Inr (Partner_Created mcc mnc loc zis), p') \<and>
    peer_ok fe idc idp h p' \<and> peer_access idp p' \<and> peer_zones idp p' = peer_zones idp p \<and>
    distinct (map zi_id zis) \<and> (\<lambda>zi. (zi_id zi, False)) ` set zis = peer_zones idp p"
proof -
  have ok: "fed_ok p" and zn: "\<forall>z\<in>set (fd_zones p). z_id z \<noteq> ''''" using assms(1) by (simp_all add: peer_ok_def)
  obtain fn where fn: "fn \<in> set (fd_federations p)" "fn_self_id fn = idp" "fr_id (fn_partner fn) = idc" "fn_name fn \<noteq> ''''"
    by (rule peer_federation[OF assms(1)])
  note v = peer_view[OF ok fn(1), unfolded fn(2)]
  obtain self where val: "validate_and_get_federator_info fe no_err key hdr p = Inr (self, fn)"
    by (rule peer_validates[OF assms(1,2) fn(1-3)])
  let ?ss = "self_zones_of (fn_name fn) p"
  have ss: "set ?ss = {s \<in> set (fd_self_zones p). sz_fed s = fn_name fn}" by (rule self_zones_of_name[OF fn(4)])
  obtain zis where zis: "shared_zone_infos no_err p ?ss = Inr zis" "map zi_id zis = map sz_id ?ss"
    using shared_zone_infos_all[OF ok zn, of ?ss] ss by auto
  let ?fn = "fn\<lparr>fn_access := True, fn_partner := (fn_partner fn)\<lparr>fr_revision := fh_request hdr\<rparr>\<rparr>"
  let ?p = "p\<lparr>fd_federations := map (\<lambda>x. if x = fn then ?fn else x) (fd_federations p)\<rparr>"
  have save: "save_federation no_err ?fn p = (None, ?p)" by (rule save_federation_no_err[OF ok fn(1)]) simp_all
  have ok': "fed_ok ?p" by (rule save_federation_ok[OF ok save fn(1)]) simp_all
  note after = peer_set_access[OF assms(1) fn(1-3) refl ok']
  have run: "partner_net fe no_err u key (hdr, Partner_Create) p =
      (Inr (Partner_Created (fr_mcc self) (fr_mnc self) (fr_locator self) zis), ?p)"
    using val zis(1) save assms(3) v(1)
    by (simp add: partner_net_def federation_operator_partner_create_def)
  have dist: "distinct (map sz_id ?ss)"
  proof -
    have "distinct (map (\<lambda>s. (sz_id s, sz_fed s)) ?ss)"
      using ok by (simp add: fed_ok_def keys_ok_def self_zones_of_def distinct_map_filter)
    then show ?thesis using ss by (auto simp: distinct_map inj_on_def)
  qed
  have zones: "(\<lambda>zi. (zi_id zi, False)) ` set zis = peer_zones idp p"
  proof -
    have "\<forall>s\<in>set ?ss. \<not> sz_registered s"
    proof
      fix s assume "s \<in> set ?ss"
      then obtain f where "f \<in> set (fd_federations p)" "fn_name f = fn_name fn" "sz_registered s \<longrightarrow> fn_access f"
        using ok ss by (auto simp: fed_ok_def self_zone_ok_def)
      then have "f = fn" using ok fn(1) by (auto simp: fed_ok_def keys_ok_def distinct_map inj_on_def)
      then show "\<not> sz_registered s" using \<open>sz_registered s \<longrightarrow> fn_access f\<close> assms(3) v(1) by simp
    qed
    moreover have "(\<lambda>i. (i, False)) ` set (map zi_id zis) = (\<lambda>i. (i, False)) ` set (map sz_id ?ss)" unfolding zis(2) ..
    ultimately show ?thesis unfolding v(2) ss[symmetric] by (simp add: image_image cong: image_cong)
  qed
  show ?thesis
    by (intro exI conjI, rule run) (use after fn zis(2) dist zones in simp_all)
qed

lemma peer_delete:
  assumes "peer_ok fe idc idp h p" and "peer_accepts fe idc idp h key hdr" and "peer_access idp p"
    and "\<forall>(z, r)\<in>peer_zones idp p. \<not> r"
  shows "\<exists>reply p'. partner_net fe no_err u key (hdr, Partner_Delete) p = (Inr reply, p') \<and>
    peer_ok fe idc idp h p' \<and> \<not> peer_access idp p' \<and> peer_zones idp p' = peer_zones idp p"
proof -
  have ok: "fed_ok p" using assms(1) by (simp add: peer_ok_def)
  obtain fn where fn: "fn \<in> set (fd_federations p)" "fn_self_id fn = idp" "fr_id (fn_partner fn) = idc" "fn_name fn \<noteq> ''''"
    by (rule peer_federation[OF assms(1)])
  note v = peer_view[OF ok fn(1), unfolded fn(2)]
  obtain self where val: "validate_and_get_federator_info fe no_err key hdr p = Inr (self, fn)"
    by (rule peer_validates[OF assms(1,2) fn(1-3)])
  have none: "\<forall>s\<in>set (fd_self_zones p). sz_fed s = fn_name fn \<longrightarrow> \<not> sz_registered s"
    using assms(4) unfolding v(2) by auto
  then have find: "find sz_registered (self_zones_of (fn_name fn) p) = None"
    using self_zones_of_name[OF fn(4), of p] by (auto simp: find_None_iff)
  let ?fn = "fn\<lparr>fn_access := False, fn_partner := (fn_partner fn)\<lparr>fr_revision := fh_request hdr\<rparr>\<rparr>"
  let ?p = "p\<lparr>fd_federations := map (\<lambda>x. if x = fn then ?fn else x) (fd_federations p)\<rparr>"
  have save: "save_federation no_err ?fn p = (None, ?p)" by (rule save_federation_no_err[OF ok fn(1)]) simp_all
  have ok': "fed_ok ?p" by (rule save_federation_ok[OF ok save fn(1)]) (use none in simp_all)
  note after = peer_set_access[OF assms(1) fn(1-3) refl ok']
  have run: "partner_net fe no_err u key (hdr, Partner_Delete) p = (Inr Fed_Done, ?p)"
    using val find save assms(3) v(1) by (simp add: partner_net_def federation_operator_partner_delete_def)
  show ?thesis by (intro exI conjI, rule run) (use after fn in simp_all)
qed

definition zone_view :: "string \<Rightarrow> fed_db \<Rightarrow> (string \<times> bool) set" where
  "zone_view name p = (\<lambda>s. (sz_id s, sz_registered s)) ` {s \<in> set (fd_self_zones p). sz_fed s = name}"

lemma first_self_zone_in_view:
  assumes "fed_ok p" and "(z, r) \<in> zone_view name p" and "z \<noteq> ''''" "name \<noteq> ''''"
  obtains s where "first_self_zone no_err z name p = Inr (Some s)" "s \<in> set (fd_self_zones p)" "sz_id s = z" "sz_fed s = name"
    "sz_registered s = r"
proof -
  obtain s where s: "s \<in> set (fd_self_zones p)" "sz_id s = z" "sz_fed s = name" "sz_registered s = r"
    using assms(2) by (auto simp: zone_view_def)
  then have "first_self_zone no_err z name p = Inr (Some s)"
    using fed_ok_find(4)[OF assms(1) s(1)] assms(3,4) by (simp add: first_self_zone_def lookup_def field_matches_def)
  then show ?thesis using that s by blast
qed

lemma save_zone_view:
  assumes "fed_ok p" and "s \<in> set (fd_self_zones p)" and "sz_id s' = sz_id s" "sz_fed s' = sz_fed s"
    and "save_self_zone no_err s' p = (e, p')"
  shows "e = None" and "zone_view (sz_fed s) p' = set_registered (sz_registered s') {sz_id s} (zone_view (sz_fed s) p)"
    and "fd_federations p' = fd_federations p" "fd_zones p' = fd_zones p" "fd_federators p' = fd_federators p"
proof -
  let ?r = "\<lambda>x. if sz_id x = sz_id s \<and> sz_fed x = sz_fed s then s' else x"
  have p': "e = None" "p' = fd_self_zones_update (map ?r) p"
    using assms(3-5) by (simp_all add: save_self_zone_def save_row_def)
  show "e = None" "fd_federations p' = fd_federations p" "fd_zones p' = fd_zones p" "fd_federators p' = fd_federators p"
    using p' by simp_all
  define r where "r = ?r"
  have rows: "{x \<in> set (fd_self_zones p'). sz_fed x = sz_fed s} = r ` {x \<in> set (fd_self_zones p). sz_fed x = sz_fed s}"
    using assms(4) unfolding p'(2) r_def by auto
  show "zone_view (sz_fed s) p' = set_registered (sz_registered s') {sz_id s} (zone_view (sz_fed s) p)"
    unfolding zone_view_def set_registered_def rows image_image by (rule image_cong) (use assms(3) in \<open>auto simp: r_def\<close>)
qed

lemma set_registered_twice: "set_registered r A (set_registered r B zs) = set_registered r (A \<union> B) zs"
  unfolding set_registered_def image_image by (rule image_cong) (auto split: prod.splits)

lemma set_registered_other: "(z, b) \<in> zs \<Longrightarrow> z \<notin> A \<Longrightarrow> (z, b) \<in> set_registered r A zs"
  by (force simp: set_registered_def)

lemma set_registered_none [simp]: "set_registered r {} zs = zs"
  by (auto simp: set_registered_def)

lemma register_zones_all:
  assumes "fed_ok p" and "fn \<in> set (fd_federations p)" and "fn_access fn" and "\<forall>z\<in>set (fd_zones p). z_id z \<noteq> ''''"
    and "distinct zids" and "\<forall>z\<in>set zids. (z, False) \<in> zone_view (fn_name fn) p"
  shows "\<exists>ds p'. register_zones fe no_err rid fn zids p = (Inr ds, p') \<and> map fst ds = zids \<and> fed_ok p' \<and>
    zone_view (fn_name fn) p' = set_registered True (set zids) (zone_view (fn_name fn) p) \<and>
    fd_federations p' = fd_federations p \<and> fd_zones p' = fd_zones p \<and> fd_federators p' = fd_federators p"
  using assms
proof (induction zids arbitrary: p)
  case (Cons zid zids)
  have name: "fn_name fn \<noteq> ''''" by (rule fed_ok_name[OF Cons.prems(1,2)])
  obtain s0 where "s0 \<in> set (fd_self_zones p)" "sz_id s0 = zid" using Cons.prems(6) by (auto simp: zone_view_def)
  then obtain z where z: "z \<in> set (fd_zones p)" "z_id z = zid" using Cons.prems(1) by (auto simp: fed_ok_def self_zone_ok_def)
  then have zid: "zid \<noteq> ''''" using Cons.prems(4) by auto
  have in_view: "(zid, False) \<in> zone_view (fn_name fn) p" using Cons.prems(6) by simp
  obtain s where s: "first_self_zone no_err zid (fn_name fn) p = Inr (Some s)" "s \<in> set (fd_self_zones p)" "sz_id s = zid"
      "sz_fed s = fn_name fn" "\<not> sz_registered s"
    using first_self_zone_in_view[OF Cons.prems(1) in_view zid name] by blast
  have fz: "first_zone no_err zid '''' '''' p = Inr (Some z)"
    using fed_ok_find(3)[OF Cons.prems(1) z(1)] z(2) zid by (simp add: first_zone_def lookup_def field_matches_def)
  let ?s = "s\<lparr>sz_registered := True, sz_revision := rid\<rparr>"
  obtain e p1 where p1: "save_self_zone no_err ?s p = (e, p1)" by fastforce
  note v = save_zone_view[OF Cons.prems(1) s(2) _ _ p1, simplified, unfolded s(3,4)]
  have "self_zone_ok p ?s" using Cons.prems(1-3) s(2,4) by (auto simp: fed_ok_def self_zone_ok_def)
  then have ok1: "fed_ok p1" by (rule save_self_zone_ok[OF Cons.prems(1) p1])
  have rest: "\<forall>x\<in>set zids. (x, False) \<in> zone_view (fn_name fn) p1"
    using Cons.prems(5,6) v(2) by (auto intro: set_registered_other)
  obtain ds p' where ds: "register_zones fe no_err rid fn zids p1 = (Inr ds, p')" "map fst ds = zids" "fed_ok p'"
      "zone_view (fn_name fn) p' = set_registered True (set zids) (zone_view (fn_name fn) p1)"
      "fd_federations p' = fd_federations p1" "fd_zones p' = fd_zones p1" "fd_federators p' = fd_federators p1"
    using Cons.IH[OF ok1 _ Cons.prems(3) _ _ rest] Cons.prems(2,4,5) v by auto
  have "register_zones fe no_err rid fn (zid # zids) p = (Inr ((zid, upper_limit_quota
      (get_zone_resources_upper_limit fe (z_region z) (z_operator z) (z_cloudlets z))) # ds), p')"
    using s fz z(2) zid p1 v(1) ds(1) by (simp add: Let_def)
  then show ?case
    using ds v by (simp add: set_registered_twice)
qed (simp add: set_registered_def)

lemma registered_zones_all:
  assumes "fed_ok p" and "fn_name fn \<noteq> ''''" and "\<forall>z\<in>set zids. z \<noteq> '''' \<and> (z, True) \<in> zone_view (fn_name fn) p"
  shows "\<exists>ss. registered_zones no_err fn zids p = Inr ss \<and> map sz_id ss = zids \<and>
    set ss \<subseteq> {s \<in> set (fd_self_zones p). sz_fed s = fn_name fn}"
  using assms(3)
proof (induction zids)
  case (Cons zid zids)
  then obtain ss where ss: "registered_zones no_err fn zids p = Inr ss" "map sz_id ss = zids"
      "set ss \<subseteq> {s \<in> set (fd_self_zones p). sz_fed s = fn_name fn}" by auto
  obtain s where "first_self_zone no_err zid (fn_name fn) p = Inr (Some s)" "s \<in> set (fd_self_zones p)" "sz_id s = zid"
      "sz_fed s = fn_name fn" "sz_registered s"
    using first_self_zone_in_view[OF assms(1) _ _ assms(2), of zid True] Cons.prems by auto
  then show ?case using ss Cons.prems by simp
qed simp

lemma deregister_zones_all:
  assumes "fed_ok p" and "set ss \<subseteq> {s. (\<exists>s0\<in>set (fd_self_zones p). sz_id s0 = sz_id s \<and> sz_fed s0 = sz_fed s) \<and> sz_fed s = n \<and> self_zone_ok p s}"
  shows "\<exists>p'. deregister_zones no_err rid ss p = (None, p') \<and> fed_ok p' \<and>
    zone_view n p' = set_registered False (sz_id ` set ss) (zone_view n p) \<and>
    fd_federations p' = fd_federations p \<and> fd_zones p' = fd_zones p \<and> fd_federators p' = fd_federators p"
  using assms
proof (induction ss arbitrary: p)
  case (Cons s ss)
  obtain s0 where s0: "s0 \<in> set (fd_self_zones p)" "sz_id s0 = sz_id s" "sz_fed s0 = n" "sz_fed s = n" using Cons.prems(2) by auto
  let ?s = "s\<lparr>sz_registered := False, sz_revision := rid\<rparr>"
  obtain e p1 where p1: "save_self_zone no_err ?s p = (e, p1)" by fastforce
  have "sz_id ?s = sz_id s0" "sz_fed ?s = sz_fed s0" using s0 by simp_all
  note v = save_zone_view[OF Cons.prems(1) s0(1) this p1, simplified, unfolded s0(2,3)]
  have "self_zone_ok p ?s" using Cons.prems(2) by (auto simp: self_zone_ok_def)
  then have ok1: "fed_ok p1" by (rule save_self_zone_ok[OF Cons.prems(1) p1])
  have keys: "(\<lambda>s. (sz_id s, sz_fed s)) ` set (fd_self_zones p1) = (\<lambda>s. (sz_id s, sz_fed s)) ` set (fd_self_zones p)"
  proof -
    have "map (\<lambda>s. (sz_id s, sz_fed s)) (fd_self_zones p1) = map (\<lambda>s. (sz_id s, sz_fed s)) (fd_self_zones p)"
      using p1 by (auto simp: save_self_zone_def save_row_def)
    then show ?thesis by (metis list.set_map)
  qed
  have "set ss \<subseteq> {s. (\<exists>s0\<in>set (fd_self_zones p1). sz_id s0 = sz_id s \<and> sz_fed s0 = sz_fed s) \<and> sz_fed s = n \<and> self_zone_ok p1 s}"
  proof
    fix x assume "x \<in> set ss"
    then obtain x0 where x0: "x0 \<in> set (fd_self_zones p)" "sz_id x0 = sz_id x" "sz_fed x0 = sz_fed x" "sz_fed x = n" "self_zone_ok p x"
      using Cons.prems(2) by auto
    have "(sz_id x, sz_fed x) \<in> (\<lambda>s. (sz_id s, sz_fed s)) ` set (fd_self_zones p1)"
      unfolding keys using x0(1-3) by (intro image_eqI[of _ _ x0]) simp_all
    then show "x \<in> {s. (\<exists>s0\<in>set (fd_self_zones p1). sz_id s0 = sz_id s \<and> sz_fed s0 = sz_fed s) \<and> sz_fed s = n \<and> self_zone_ok p1 s}"
      using x0(4,5) v by (auto simp: self_zone_ok_def)
  qed
  then show ?case using Cons.IH[OF ok1] v p1 by (auto simp: set_registered_twice)
qed (simp add: set_registered_def)

lemma peer_same_tables:
  assumes "peer_ok fe idc idp h p" and "fed_ok p'" and "fd_federations p' = fd_federations p" "fd_zones p' = fd_zones p"
    "fd_federators p' = fd_federators p"
  shows "peer_ok fe idc idp h p'" and "peer_access idp p' \<longleftrightarrow> peer_access idp p"
  using assms by (simp_all add: peer_ok_def peer_access_def)

lemma peer_register:
  assumes "peer_ok fe idc idp h p" and "peer_accepts fe idc idp h key hdr" and "peer_access idp p" and "zs \<noteq> []" and "distinct zs"
    and "\<forall>z\<in>set zs. (z, False) \<in> peer_zones idp p"
  shows "\<exists>ds p'. partner_net fe no_err u key (hdr, Zones_Register zs) p = (Inr (Zones_Registered ds), p') \<and>
    peer_ok fe idc idp h p' \<and> peer_access idp p' \<and> peer_zones idp p' = set_registered True (set zs) (peer_zones idp p) \<and> map fst ds = zs"
proof -
  have ok: "fed_ok p" and zn: "\<forall>z\<in>set (fd_zones p). z_id z \<noteq> ''''" using assms(1) by (simp_all add: peer_ok_def)
  obtain fn where fn: "fn \<in> set (fd_federations p)" "fn_self_id fn = idp" "fr_id (fn_partner fn) = idc" "fn_name fn \<noteq> ''''"
    by (rule peer_federation[OF assms(1)])
  note v = peer_view[OF ok fn(1), unfolded fn(2), folded zone_view_def]
  obtain self where val: "validate_and_get_federator_info fe no_err key hdr p = Inr (self, fn)"
    by (rule peer_validates[OF assms(1,2) fn(1-3)])
  obtain ds p' where ds: "register_zones fe no_err (fh_request hdr) fn zs p = (Inr ds, p')" "map fst ds = zs" "fed_ok p'"
      "zone_view (fn_name fn) p' = set_registered True (set zs) (zone_view (fn_name fn) p)"
      "fd_federations p' = fd_federations p" "fd_zones p' = fd_zones p" "fd_federators p' = fd_federators p"
    using register_zones_all[OF ok fn(1) _ zn assms(5)] assms(3,6) v by blast
  note after = peer_same_tables[OF assms(1) ds(3,5-7)]
  have "fn \<in> set (fd_federations p')" using fn(1) ds(5) by simp
  note v' = peer_view[OF ds(3) this, unfolded fn(2), folded zone_view_def]
  have run: "partner_net fe no_err u key (hdr, Zones_Register zs) p = (Inr (Zones_Registered ds), p')"
    using val assms(3,4) v(1) ds(1) by (simp add: partner_net_def federation_operator_zone_register_def)
  show ?thesis by (intro exI conjI, rule run) (use after assms(3) v v' ds(2,4) in simp_all)
qed

lemma peer_zone_names: "peer_ok fe idc idp h p \<Longrightarrow> (z, r) \<in> peer_zones idp p \<Longrightarrow> z \<noteq> ''''"
  by (fastforce simp: peer_ok_def peer_zones_def fed_ok_def self_zone_ok_def)

lemma peer_deregister:
  assumes "peer_ok fe idc idp h p" and "peer_accepts fe idc idp h key hdr" and "peer_access idp p" and "zs \<noteq> []"
    and "\<forall>z\<in>set zs. (z, True) \<in> peer_zones idp p"
  shows "\<exists>reply p'. partner_net fe no_err u key (hdr, Zones_Deregister zs) p = (Inr reply, p') \<and>
    peer_ok fe idc idp h p' \<and> peer_access idp p' \<and> peer_zones idp p' = set_registered False (set zs) (peer_zones idp p)"
proof -
  have ok: "fed_ok p" using assms(1) by (simp add: peer_ok_def)
  obtain fn where fn: "fn \<in> set (fd_federations p)" "fn_self_id fn = idp" "fr_id (fn_partner fn) = idc" "fn_name fn \<noteq> ''''"
    by (rule peer_federation[OF assms(1)])
  note v = peer_view[OF ok fn(1), unfolded fn(2), folded zone_view_def]
  obtain self where val: "validate_and_get_federator_info fe no_err key hdr p = Inr (self, fn)"
    by (rule peer_validates[OF assms(1,2) fn(1-3)])
  have "\<forall>z\<in>set zs. z \<noteq> '''' \<and> (z, True) \<in> zone_view (fn_name fn) p"
    using assms(5) peer_zone_names[OF assms(1)] v(2) by blast
  from registered_zones_all[OF ok fn(4) this] obtain ss where ss: "registered_zones no_err fn zs p = Inr ss" "map sz_id ss = zs"
      "set ss \<subseteq> {s \<in> set (fd_self_zones p). sz_fed s = fn_name fn}" by blast
  have ids: "sz_id ` set ss = set zs" using ss(2) by (metis list.set_map)
  have "set ss \<subseteq> {s. (\<exists>s0\<in>set (fd_self_zones p). sz_id s0 = sz_id s \<and> sz_fed s0 = sz_fed s) \<and> sz_fed s = fn_name fn \<and> self_zone_ok p s}"
    using ss(3) ok by (auto simp: fed_ok_def)
  from deregister_zones_all[OF ok this, of "fh_request hdr"] obtain p' where p': "deregister_zones no_err (fh_request hdr) ss p = (None, p')"
      "fed_ok p'" "zone_view (fn_name fn) p' = set_registered False (set zs) (zone_view (fn_name fn) p)"
      "fd_federations p' = fd_federations p" "fd_zones p' = fd_zones p" "fd_federators p' = fd_federators p"
    unfolding ids by blast
  note after = peer_same_tables[OF assms(1) p'(2,4-6)]
  have "fn \<in> set (fd_federations p')" using fn(1) p'(4) by simp
  note v' = peer_view[OF p'(2) this, unfolded fn(2), folded zone_view_def]
  have run: "partner_net fe no_err u key (hdr, Zones_Deregister zs) p = (Inr Fed_Done, p')"
    using val assms(3,4) v(1) ss(1) p'(1) by (simp add: partner_net_def federation_operator_zone_deregister_def)
  show ?thesis by (intro exI conjI, rule run) (use after assms(3) v v' p'(3) in simp_all)
qed

interpretation peer: fed_peer "partner_net fe no_err" "peer_ok fe idc idp h" "peer_accepts fe idc idp h" "peer_access idp" "peer_zones idp"
  for fe idc idp h
  by (unfold_locales; rule peer_create peer_delete peer_register peer_deregister peer_zone_names; assumption)

subsection \<open>The consumer\<close>

definition client_view :: "string \<Rightarrow> fed_db \<Rightarrow> (string \<times> bool) set" where
  "client_view name c = (\<lambda>z. (z_id (pz_zone z), pz_registered z)) ` {z \<in> set (fd_partner_zones c). pz_fed z = name}"

text \<open>
  The consumer can reach its partner, and its tables agree with what the partner says: whether it gives access
  (\<open>acc\<close>), and its zones.
\<close>

definition agree :: "(string \<Rightarrow> fed_header \<Rightarrow> bool) \<Rightarrow> fed_env \<Rightarrow> string \<Rightarrow> string \<Rightarrow> fed_db \<Rightarrow> bool \<Rightarrow> (string \<times> bool) set \<Rightarrow> bool" where
  "agree accepts fe op name c acc zones \<longleftrightarrow> fed_ok c \<and> fe_vault_get fe name = None \<and>
     (\<exists>self fn k. get_federation_by_name no_err op name c = Inr (self, fn) \<and> fr_addr (fn_partner fn) \<noteq> '''' \<and>
        map_of (fd_vault c) name = Some k \<and> k \<noteq> '''' \<and> (\<forall>rid. accepts k (header_to rid self fn)) \<and> fn_share fn = acc \<and>
        client_view name c = (if acc then zones else {}) \<and>
        (\<forall>z\<in>set (fd_partner_zones c). pz_fed z = name \<longrightarrow>
           z_operator (pz_zone z) = fr_operator (fn_partner fn) \<and> z_country (pz_zone z) = fr_country (fn_partner fn)))"

lemma find_map_keep: "(\<And>x. P (r x) \<longleftrightarrow> P x) \<Longrightarrow> find P (map r xs) = map_option r (find P xs)"
  by (induction xs) auto

lemma get_federation_after:
  assumes "get_federation_by_name no_err op name c = Inr (self, fn)"
    and "fd_federations c' = map (\<lambda>x. if x = fn then fn' else x) (fd_federations c)" and "fd_federators c' = fd_federators c"
    and "fn_name fn' = fn_name fn" "fn_self_op fn' = fn_self_op fn" "fn_self_id fn' = fn_self_id fn"
  shows "get_federation_by_name no_err op name c' = Inr (self, fn')"
proof -
  let ?P = "\<lambda>f. field_matches name (fn_name f) \<and> field_matches op (fn_self_op f)"
  have f: "find ?P (fd_federations c) = Some fn" "name \<noteq> ''''" "first_federator no_err (fn_self_id fn) op c = Inr (Some self)"
    using assms(1)
    by (auto simp: get_federation_by_name_def first_federation_def lookup_def split: if_splits option.splits sum.splits)
  have "find ?P (fd_federations c') = Some fn'"
    unfolding assms(2) by (subst find_map_keep) (use assms(4,5) f(1) in auto)
  then show ?thesis
    using f assms(3,6) by (simp add: get_federation_by_name_def first_federation_def first_federator_def lookup_def)
qed

lemma get_federation_same:
  "fd_federations c' = fd_federations c \<Longrightarrow> fd_federators c' = fd_federators c \<Longrightarrow>
     get_federation_by_name err op name c' = get_federation_by_name err op name c"
proof -
  assume same: "fd_federations c' = fd_federations c" "fd_federators c' = fd_federators c"
  have a: "first_federation err name op c' = first_federation err name op c"
    and b: "\<And>i. first_federator err i op c' = first_federator err i op c"
    using same by (simp_all add: first_federation_def first_federator_def)
  show ?thesis unfolding get_federation_by_name_def a b by (rule refl)
qed

lemma agreeI:
  assumes "fed_ok c" and "fe_vault_get fe name = None" and "get_federation_by_name no_err op name c = Inr (self, fn)"
    and "fr_addr (fn_partner fn) \<noteq> ''''" and "map_of (fd_vault c) name = Some k" and "k \<noteq> ''''"
    and "\<And>rid. accepts k (header_to rid self fn)" and "fn_share fn = acc" and "client_view name c = (if acc then zones else {})"
    and "\<And>z. z \<in> set (fd_partner_zones c) \<Longrightarrow> pz_fed z = name \<Longrightarrow>
      z_operator (pz_zone z) = fr_operator (fn_partner fn) \<and> z_country (pz_zone z) = fr_country (fn_partner fn)"
  shows "agree accepts fe op name c acc zones"
  unfolding agree_def using assms by blast

lemma send_to_partner_reaches:
  assumes "fr_addr (fn_partner fn) \<noteq> ''''" and "fn_name fn = name" "name \<noteq> ''''" and "fe_vault_get fe name = None"
    and "map_of (fd_vault c) name = Some k" "k \<noteq> ''''"
  shows "send_to_partner fe net c rid self fn call w = net (request_url (fr_addr (fn_partner fn)) call) k (header_to rid self fn, call) w"
  using assms by (simp add: send_to_partner_def send_request_def)

lemma store_all:
  assumes "fn \<in> set (fd_federations c)" and "distinct (map zi_id zis)"
    and "\<forall>z\<in>set (fd_partner_zones c). pz_fed z = fn_name fn \<longrightarrow> z_id (pz_zone z) \<notin> zi_id ` set zis"
  shows "store_partner_zones no_err rid self fn zis c =
    (None, c\<lparr>fd_partner_zones := fd_partner_zones c @ map (partner_zone_of rid self fn) zis\<rparr>)"
  using assms
proof (induction zis arbitrary: c)
  case (Cons zi zis)
  let ?c = "c\<lparr>fd_partner_zones := fd_partner_zones c @ [partner_zone_of rid self fn zi]\<rparr>"
  have new: "z_id (pz_zone (partner_zone_of rid self fn z)) = zi_id z" "pz_fed (partner_zone_of rid self fn z) = fn_name fn" for z
    by (simp_all add: partner_zone_of_def)
  have "create_partner_zone_row no_err (partner_zone_of rid self fn zi) c = (None, ?c)"
    using Cons.prems by (auto simp: create_partner_zone_row_def create_row_def new list_ex_iff first_fail.simps fail_if_def)
  moreover have "store_partner_zones no_err rid self fn zis ?c =
      (None, ?c\<lparr>fd_partner_zones := fd_partner_zones ?c @ map (partner_zone_of rid self fn) zis\<rparr>)"
    by (rule Cons.IH) (use Cons.prems in \<open>auto simp: new\<close>)
  ultimately show ?case by simp
qed simp

lemma delete_all:
  "delete_partner_zones no_err zs c = (None, c\<lparr>fd_partner_zones := filter (\<lambda>x. \<forall>z\<in>set zs.
     \<not> (z_id (pz_zone x) = z_id (pz_zone z) \<and> pz_fed x = pz_fed z)) (fd_partner_zones c)\<rparr>)"
proof (induction zs arbitrary: c)
  case (Cons z zs)
  have "delete_partner_zone_row no_err z c = (None, c\<lparr>fd_partner_zones := filter (\<lambda>x.
     \<not> (z_id (pz_zone x) = z_id (pz_zone z) \<and> pz_fed x = pz_fed z)) (fd_partner_zones c)\<rparr>)"
    by (simp add: delete_partner_zone_row_def delete_row_def first_fail.simps)
  then show ?case using Cons.IH by (simp add: conj_commute cong: conj_cong)
qed simp

context fed_peer
begin

lemma register_federation_agrees:
  assumes "agree accepts fe op name c (access w) (zones w)" and "ok w" and "\<not> access w" and "fed_authorized no_err caller op c = None"
  shows "\<exists>c' w'. register_federation fe no_err net rid caller op name c w = (None, c', w') \<and> ok w' \<and> access w' \<and>
    zones w' = zones w \<and> agree accepts fe op name c' (access w') (zones w')"
proof -
  from assms(1,3) obtain self fn k where c: "fed_ok c" "fe_vault_get fe name = None" "get_federation_by_name no_err op name c = Inr (self, fn)"
      "fr_addr (fn_partner fn) \<noteq> ''''" "map_of (fd_vault c) name = Some k" "k \<noteq> ''''" "\<And>rid. accepts k (header_to rid self fn)"
      "\<not> fn_share fn" "client_view name c = {}"
    by (auto simp: agree_def)
  note fn = get_federation_by_name_found[OF c(3)]
  note reach = send_to_partner_reaches[OF c(4) fn(2,3) c(2,5,6)]
  from create[OF assms(2) c(7) assms(3), of "request_url (fr_addr (fn_partner fn)) Partner_Create" rid] obtain mcc mnc loc zis w'
    where r: "net (request_url (fr_addr (fn_partner fn)) Partner_Create) k (header_to rid self fn, Partner_Create) w =
        (Inr (Partner_Created mcc mnc loc zis), w')" "ok w'" "access w'" "zones w' = zones w"
      and zis: "distinct (map zi_id zis)" "(\<lambda>zi. (zi_id zi, False)) ` set zis = zones w"
    by (elim exE conjE) (rule that; assumption)
  have no_zones: "pz_fed z \<noteq> name" if "z \<in> set (fd_partner_zones c)" for z using c(9) that by (auto simp: client_view_def)
  let ?new = "map (partner_zone_of rid self fn) zis"
  let ?c1 = "c\<lparr>fd_partner_zones := fd_partner_zones c @ ?new\<rparr>"
  have st: "store_partner_zones no_err rid self fn zis c = (None, ?c1)"
    by (rule store_all[OF fn(1) zis(1)]) (use no_zones fn(2) in auto)
  have ok1: "fed_ok ?c1" using store_partner_zones_ok[OF st c(1)] by simp
  let ?fn = "fn\<lparr>fn_share := True, fn_partner := (fn_partner fn)\<lparr>fr_mcc := mcc, fr_mnc := mnc, fr_locator := loc, fr_revision := rid\<rparr>\<rparr>"
  let ?c2 = "?c1\<lparr>fd_federations := map (\<lambda>x. if x = fn then ?fn else x) (fd_federations ?c1)\<rparr>"
  have in1: "fn \<in> set (fd_federations ?c1)" using fn(1) by simp
  have save: "save_federation no_err ?fn ?c1 = (None, ?c2)" by (rule save_federation_no_err[OF ok1 in1]) simp_all
  have ok2: "fed_ok ?c2" by (rule save_federation_ok[OF ok1 save in1]) simp_all
  have run: "register_federation fe no_err net rid caller op name c w = (None, ?c2, w')"
    using assms(4) c(3,8) reach[of net rid self Partner_Create w] r(1) st save
    by (simp add: register_federation_def created_reply_def)
  have rows: "{z \<in> set (fd_partner_zones ?c2). pz_fed z = name} = partner_zone_of rid self fn ` set zis"
    using no_zones fn(2) by (auto simp: partner_zone_of_def)
  have view: "client_view name ?c2 = zones w"
    unfolding client_view_def rows image_image zis(2)[symmetric] by (simp add: partner_zone_of_def)
  have get: "get_federation_by_name no_err op name ?c2 = Inr (self, ?fn)" by (rule get_federation_after[OF c(3)]) simp_all
  have ag: "agree accepts fe op name ?c2 True (zones w)"
  proof (rule agreeI[OF ok2 c(2) get _ _ c(6)])
    show "accepts k (header_to r self ?fn)" for r using c(7)[of r] by (simp add: header_to_def)
    show "z_operator (pz_zone z) = fr_operator (fn_partner ?fn) \<and> z_country (pz_zone z) = fr_country (fn_partner ?fn)"
      if "z \<in> set (fd_partner_zones ?c2)" "pz_fed z = name" for z
      using that no_zones by (auto simp: partner_zone_of_def)
  qed (use c(4,5) view in simp_all)
  show ?thesis by (intro exI conjI, rule run) (use r ag in simp_all)
qed

lemma deregister_federation_agrees:
  assumes "agree accepts fe op name c (access w) (zones w)" and "ok w" and "access w" and "\<forall>(z, r)\<in>zones w. \<not> r"
    and "fed_authorized no_err caller op c = None"
  shows "\<exists>c' w'. deregister_federation fe no_err net rid caller op name c w = (None, c', w') \<and> ok w' \<and> \<not> access w' \<and>
    zones w' = zones w \<and> agree accepts fe op name c' (access w') (zones w')"
proof -
  from assms(1,3) obtain self fn k where c: "fed_ok c" "fe_vault_get fe name = None" "get_federation_by_name no_err op name c = Inr (self, fn)"
      "fr_addr (fn_partner fn) \<noteq> ''''" "map_of (fd_vault c) name = Some k" "k \<noteq> ''''" "\<And>rid. accepts k (header_to rid self fn)"
      "fn_share fn" "client_view name c = zones w"
    by (auto simp: agree_def)
  note fn = get_federation_by_name_found[OF c(3)]
  note reach = send_to_partner_reaches[OF c(4) fn(2,3) c(2,5,6)]
  let ?zs = "partner_zones_of name c"
  have zs: "set ?zs = {z \<in> set (fd_partner_zones c). pz_fed z = name}" by (rule partner_zones_of_name[OF fn(3)])
  have none: "find pz_registered ?zs = None"
    using assms(4) zs unfolding c(9)[symmetric] by (auto simp: find_None_iff client_view_def)
  from delete[OF assms(2) c(7) assms(3,4), of "request_url (fr_addr (fn_partner fn)) Partner_Delete" rid] obtain reply w'
    where r: "net (request_url (fr_addr (fn_partner fn)) Partner_Delete) k (header_to rid self fn, Partner_Delete) w = (Inr reply, w')"
      "ok w'" "\<not> access w'" "zones w' = zones w" by (elim exE conjE) (rule that; assumption)
  let ?c1 = "c\<lparr>fd_partner_zones := filter (\<lambda>x. \<forall>z\<in>set ?zs. \<not> (z_id (pz_zone x) = z_id (pz_zone z) \<and> pz_fed x = pz_fed z)) (fd_partner_zones c)\<rparr>"
  have d: "delete_partner_zones no_err ?zs c = (None, ?c1)" by (rule delete_all)
  have ok1: "fed_ok ?c1" using delete_partner_zones_ok[OF d c(1)] by simp
  have gone: "pz_fed z \<noteq> name" if "z \<in> set (fd_partner_zones ?c1)" for z using that zs by auto
  let ?fn = "fn\<lparr>fn_share := False, fn_partner := (fn_partner fn)\<lparr>fr_revision := rid\<rparr>\<rparr>"
  let ?c2 = "?c1\<lparr>fd_federations := map (\<lambda>x. if x = fn then ?fn else x) (fd_federations ?c1)\<rparr>"
  have in1: "fn \<in> set (fd_federations ?c1)" using fn(1) by simp
  have save: "save_federation no_err ?fn ?c1 = (None, ?c2)" by (rule save_federation_no_err[OF ok1 in1]) simp_all
  have ok2: "fed_ok ?c2" by (rule save_federation_ok[OF ok1 save in1]) (use gone fn(2) in auto)
  have run: "deregister_federation fe no_err net rid caller op name c w = (None, ?c2, w')"
    using assms(5) c(3,8) reach[of net rid self Partner_Delete w] r(1) d save none
    by (simp add: deregister_federation_def)
  have view: "client_view name ?c2 = {}" using gone by (auto simp: client_view_def)
  have get: "get_federation_by_name no_err op name ?c2 = Inr (self, ?fn)" by (rule get_federation_after[OF c(3)]) simp_all
  have ag: "agree accepts fe op name ?c2 False (zones w)"
  proof (rule agreeI[OF ok2 c(2) get _ _ c(6)])
    show "accepts k (header_to r self ?fn)" for r using c(7)[of r] by (simp add: header_to_def)
  qed (use c(4,5) view gone in auto)
  show ?thesis by (intro exI conjI, rule run) (use r ag in simp_all)
qed

end

definition from_partner :: "string \<Rightarrow> federation \<Rightarrow> partner_zone \<Rightarrow> bool" where
  "from_partner name fn z \<longleftrightarrow> pz_fed z = name \<and> z_operator (pz_zone z) = fr_operator (fn_partner fn) \<and>
     z_country (pz_zone z) = fr_country (fn_partner fn)"

lemma first_partner_zone_in_view:
  assumes "fed_ok c" and "(zid, r) \<in> client_view name c" and "zid \<noteq> ''''" "name \<noteq> ''''"
    and "\<forall>z\<in>set (fd_partner_zones c). pz_fed z = name \<longrightarrow> from_partner name fn z"
  obtains z where "first_partner_zone no_err name (fr_operator (fn_partner fn)) (fr_country (fn_partner fn)) zid c = Inr (Some z)"
    "z \<in> set (fd_partner_zones c)" "z_id (pz_zone z) = zid" "from_partner name fn z" "pz_registered z = r"
proof -
  obtain z where z: "z \<in> set (fd_partner_zones c)" "z_id (pz_zone z) = zid" "pz_fed z = name" "pz_registered z = r"
    using assms(2) by (auto simp: client_view_def)
  have fp: "from_partner name fn z" using assms(5) z(1,3) by blast
  let ?P = "\<lambda>x. field_matches name (pz_fed x) \<and> (fr_operator (fn_partner fn) = '''' \<or> citext_eq (z_operator (pz_zone x)) (fr_operator (fn_partner fn))) \<and>
      field_matches (fr_country (fn_partner fn)) (z_country (pz_zone x)) \<and> field_matches zid (z_id (pz_zone x))"
  have "?P x \<longleftrightarrow> z_id (pz_zone x) = z_id (pz_zone z) \<and> pz_fed x = pz_fed z" if "x \<in> set (fd_partner_zones c)" for x
    using assms(3-5) that z by (auto simp: field_matches_def from_partner_def)
  then have "find ?P (fd_partner_zones c) = find (\<lambda>x. z_id (pz_zone x) = z_id (pz_zone z) \<and> pz_fed x = pz_fed z) (fd_partner_zones c)"
    by (intro find_cong) simp_all
  then have "find ?P (fd_partner_zones c) = Some z" using fed_ok_find(5)[OF assms(1) z(1)] by simp
  then show ?thesis using that z fp by (simp add: first_partner_zone_def lookup_def)
qed

lemma pick_all:
  assumes "fed_ok c" and "fn_name fn \<noteq> ''''" and "\<forall>z\<in>set (fd_partner_zones c). pz_fed z = fn_name fn \<longrightarrow> from_partner (fn_name fn) fn z"
    and "\<forall>z\<in>set zids. z \<noteq> '''' \<and> (z, \<not> want) \<in> client_view (fn_name fn) c"
    and "\<forall>(k, z)\<in>set zs. z \<in> set (fd_partner_zones c) \<and> from_partner (fn_name fn) fn z \<and> z_id (pz_zone z) = k"
  shows "\<exists>zs'. pick_partner_zones no_err fn want zids c zs = Inr zs' \<and> fst ` set zs' = fst ` set zs \<union> set zids \<and>
    (\<forall>(k, z)\<in>set zs'. z \<in> set (fd_partner_zones c) \<and> from_partner (fn_name fn) fn z \<and> z_id (pz_zone z) = k)"
  using assms(4,5)
proof (induction zids arbitrary: zs)
  case (Cons zid zids)
  have zid: "zid \<noteq> ''''" "(zid, \<not> want) \<in> client_view (fn_name fn) c" using Cons.prems(1) by simp_all
  obtain z where z: "first_partner_zone no_err (fn_name fn) (fr_operator (fn_partner fn)) (fr_country (fn_partner fn)) zid c = Inr (Some z)"
      "z \<in> set (fd_partner_zones c)" "z_id (pz_zone z) = zid" "from_partner (fn_name fn) fn z" "pz_registered z = (\<not> want)"
    using first_partner_zone_in_view[OF assms(1) zid(2,1) assms(2,3)] by blast
  have "\<forall>(k, z)\<in>set (gput zid z zs). z \<in> set (fd_partner_zones c) \<and> from_partner (fn_name fn) fn z \<and> z_id (pz_zone z) = k"
    using Cons.prems(2) z by (auto dest!: gmap_put_elem)
  from Cons.IH[OF _ this] obtain zs' where zs': "pick_partner_zones no_err fn want zids c (gput zid z zs) = Inr zs'"
      "fst ` set zs' = fst ` set (gput zid z zs) \<union> set zids"
      "\<forall>(k, z)\<in>set zs'. z \<in> set (fd_partner_zones c) \<and> from_partner (fn_name fn) fn z \<and> z_id (pz_zone z) = k"
    using Cons.prems(1) by auto
  have "fst ` set (gput zid z zs) = insert zid (fst ` set zs)"
    using dom_map_of_conv_image_fst[of "gput zid z zs"] dom_map_of_conv_image_fst[of zs] by simp
  then show ?case using zs' z zid(1) by (intro exI[of _ zs']) auto
qed auto

lemma save_client_view:
  assumes "fed_ok c" and "z0 \<in> set (fd_partner_zones c)" and "z_id (pz_zone z) = z_id (pz_zone z0)" "pz_fed z = pz_fed z0"
    and "save_partner_zone no_err z c = (e, c')"
  shows "e = None" and "client_view (pz_fed z0) c' = set_registered (pz_registered z) {z_id (pz_zone z0)} (client_view (pz_fed z0) c)"
    and "fd_federations c' = fd_federations c" "fd_federators c' = fd_federators c" "fd_vault c' = fd_vault c"
    and "(\<lambda>z. (z_id (pz_zone z), pz_fed z)) ` set (fd_partner_zones c') = (\<lambda>z. (z_id (pz_zone z), pz_fed z)) ` set (fd_partner_zones c)"
    and "set (fd_partner_zones c') \<subseteq> insert z (set (fd_partner_zones c))"
proof -
  define r where "r = (\<lambda>x. if z_id (pz_zone x) = z_id (pz_zone z0) \<and> pz_fed x = pz_fed z0 then z else x)"
  have c': "e = None" "c' = fd_partner_zones_update (map r) c"
    using assms(3-5) by (simp_all add: save_partner_zone_def save_row_def r_def)
  show "e = None" "fd_federations c' = fd_federations c" "fd_federators c' = fd_federators c" "fd_vault c' = fd_vault c"
    using c' by simp_all
  show "set (fd_partner_zones c') \<subseteq> insert z (set (fd_partner_zones c))" using c'(2) by (auto simp: r_def)
  have "map (\<lambda>z. (z_id (pz_zone z), pz_fed z)) (fd_partner_zones c') = map (\<lambda>z. (z_id (pz_zone z), pz_fed z)) (fd_partner_zones c)"
    using assms(3,4) by (simp add: c'(2) r_def)
  then show "(\<lambda>z. (z_id (pz_zone z), pz_fed z)) ` set (fd_partner_zones c') = (\<lambda>z. (z_id (pz_zone z), pz_fed z)) ` set (fd_partner_zones c)"
    by (metis list.set_map)
  have rows: "{x \<in> set (fd_partner_zones c'). pz_fed x = pz_fed z0} = r ` {x \<in> set (fd_partner_zones c). pz_fed x = pz_fed z0}"
    using assms(4) unfolding c'(2) by (auto simp: r_def)
  show "client_view (pz_fed z0) c' = set_registered (pz_registered z) {z_id (pz_zone z0)} (client_view (pz_fed z0) c)"
    unfolding client_view_def set_registered_def rows image_image by (rule image_cong) (use assms(3) in \<open>auto simp: r_def\<close>)
qed

lemma mark_all:
  assumes "fed_ok c" and "fn \<in> set (fd_federations c)" and "reg \<longrightarrow> fn_share fn"
    and "\<forall>z\<in>set zs. from_partner (fn_name fn) fn z \<and>
      (z_id (pz_zone z), pz_fed z) \<in> (\<lambda>z. (z_id (pz_zone z), pz_fed z)) ` set (fd_partner_zones c)"
    and "\<forall>z\<in>set (fd_partner_zones c). pz_fed z = fn_name fn \<longrightarrow> from_partner (fn_name fn) fn z"
  shows "\<exists>c'. mark_zones no_err rid reg zs c = (None, c') \<and> fed_ok c' \<and>
    client_view (fn_name fn) c' = set_registered reg (z_id ` pz_zone ` set zs) (client_view (fn_name fn) c) \<and>
    fd_federations c' = fd_federations c \<and> fd_federators c' = fd_federators c \<and> fd_vault c' = fd_vault c \<and>
    (\<forall>z\<in>set (fd_partner_zones c'). pz_fed z = fn_name fn \<longrightarrow> from_partner (fn_name fn) fn z)"
  using assms
proof (induction zs arbitrary: c)
  case (Cons z zs)
  let ?z = "z\<lparr>pz_registered := reg, pz_zone := (pz_zone z)\<lparr>z_revision := rid\<rparr>\<rparr>"
  obtain z0 where z0: "z0 \<in> set (fd_partner_zones c)" "z_id (pz_zone z) = z_id (pz_zone z0)" "pz_fed z = pz_fed z0"
    using Cons.prems(4) by auto
  obtain e c1 where c1: "save_partner_zone no_err ?z c = (e, c1)" by fastforce
  have name: "pz_fed z0 = fn_name fn" using Cons.prems(4) z0(3) by (simp add: from_partner_def)
  have same: "z_id (pz_zone ?z) = z_id (pz_zone z0)" "pz_fed ?z = pz_fed z0" using z0 by simp_all
  note v = save_client_view[OF Cons.prems(1) z0(1) same c1, unfolded name]
  have zok: "partner_zone_ok c ?z" using Cons.prems(2,3) z0(3) name by (auto simp: partner_zone_ok_def)
  have ok1: "fed_ok c1" by (rule save_partner_zone_ok[OF Cons.prems(1) c1 zok])
  have new: "from_partner (fn_name fn) fn ?z" using Cons.prems(4) by (simp add: from_partner_def)
  have from1: "\<forall>z\<in>set (fd_partner_zones c1). pz_fed z = fn_name fn \<longrightarrow> from_partner (fn_name fn) fn z"
    using Cons.prems(5) v(7) new by blast
  have in1: "fn \<in> set (fd_federations c1)" using Cons.prems(2) v(3) by simp
  have zs1: "\<forall>z\<in>set zs. from_partner (fn_name fn) fn z \<and>
      (z_id (pz_zone z), pz_fed z) \<in> (\<lambda>z. (z_id (pz_zone z), pz_fed z)) ` set (fd_partner_zones c1)"
    using Cons.prems(4) unfolding v(6) by simp
  from Cons.IH[OF ok1 in1 Cons.prems(3) zs1 from1] obtain c' where c': "mark_zones no_err rid reg zs c1 = (None, c')" "fed_ok c'"
      "client_view (fn_name fn) c' = set_registered reg (z_id ` pz_zone ` set zs) (client_view (fn_name fn) c1)"
      "fd_federations c' = fd_federations c1" "fd_federators c' = fd_federators c1" "fd_vault c' = fd_vault c1"
      "\<forall>z\<in>set (fd_partner_zones c'). pz_fed z = fn_name fn \<longrightarrow> from_partner (fn_name fn) fn z" by (elim exE conjE) (rule that; assumption)
  have "mark_zones no_err rid reg (z # zs) c = (None, c')" using c1 v(1) c'(1) by simp
  then show ?case using c'(2-) v z0(2) by (simp add: set_registered_twice)
qed simp

text \<open>The zones of both sides after the same zones were marked on both.\<close>

lemma agree_mark:
  assumes "agree accepts fe op name c True zs0" and "get_federation_by_name no_err op name c = Inr (self, fn)"
    and "pick_partner_zones no_err fn reg zids c [] = Inr zs" and "fst ` set zs = set zids"
    and "\<forall>(k, z)\<in>set zs. z \<in> set (fd_partner_zones c) \<and> from_partner name fn z \<and> z_id (pz_zone z) = k"
  shows "\<exists>c'. mark_zones no_err rid reg (map snd zs) c = (None, c') \<and>
    agree accepts fe op name c' True (set_registered reg (set zids) zs0)"
proof -
  from assms(1,2) obtain k where c: "fed_ok c" "fe_vault_get fe name = None"
      "fr_addr (fn_partner fn) \<noteq> ''''" "map_of (fd_vault c) name = Some k" "k \<noteq> ''''" "\<And>rid. accepts k (header_to rid self fn)"
      "fn_share fn" "client_view name c = zs0" "\<forall>z\<in>set (fd_partner_zones c). pz_fed z = name \<longrightarrow> from_partner name fn z"
    by (auto simp: agree_def from_partner_def)
  note fn = get_federation_by_name_found[OF assms(2)]
  have "\<forall>z\<in>set (map snd zs). from_partner (fn_name fn) fn z \<and>
      (z_id (pz_zone z), pz_fed z) \<in> (\<lambda>z. (z_id (pz_zone z), pz_fed z)) ` set (fd_partner_zones c)"
    using assms(5) fn(2) by auto
  note all = mark_all[OF c(1) fn(1) _ this, of reg rid, unfolded fn(2), OF _ c(9)]
  obtain c' where c': "mark_zones no_err rid reg (map snd zs) c = (None, c')" "fed_ok c'"
      "client_view name c' = set_registered reg (z_id ` pz_zone ` set (map snd zs)) zs0"
      "fd_federations c' = fd_federations c" "fd_federators c' = fd_federators c" "fd_vault c' = fd_vault c"
      "\<forall>z\<in>set (fd_partner_zones c'). pz_fed z = name \<longrightarrow> from_partner name fn z"
    using all c(7) unfolding c(8) by (elim meta_impE exE conjE, simp) (rule that; assumption)
  have "z_id ` pz_zone ` set (map snd zs) = fst ` set zs"
    unfolding set_map image_image by (rule image_cong) (use assms(5) in auto)
  then have view: "client_view name c' = set_registered reg (set zids) zs0" using c'(3) assms(4) by simp
  have get: "get_federation_by_name no_err op name c' = Inr (self, fn)"
    using get_federation_same[OF c'(4,5)] assms(2) by simp
  have "agree accepts fe op name c' True (set_registered reg (set zids) zs0)"
  proof (rule agreeI[OF c'(2) c(2) get c(3) _ c(5)])
    show "accepts k (header_to r self fn)" for r by (rule c(6))
  qed (use c(4,7) c'(6,7) view in \<open>simp_all add: from_partner_def\<close>)
  then show ?thesis using c'(1) by blast
qed

lemma agree_pick:
  assumes "agree accepts fe op name c True zs0" and "get_federation_by_name no_err op name c = Inr (self, fn)"
    and "\<forall>z\<in>set zids. z \<noteq> '''' \<and> (z, \<not> want) \<in> zs0"
  shows "\<exists>zs. pick_partner_zones no_err fn want zids c [] = Inr zs \<and> fst ` set zs = set zids \<and>
    (\<forall>(k, z)\<in>set zs. z \<in> set (fd_partner_zones c) \<and> from_partner name fn z \<and> z_id (pz_zone z) = k)"
proof -
  from assms(1,2) have c: "fed_ok c" "client_view name c = zs0" "\<forall>z\<in>set (fd_partner_zones c). pz_fed z = name \<longrightarrow> from_partner name fn z"
    by (auto simp: agree_def from_partner_def)
  note fn = get_federation_by_name_found[OF assms(2)]
  show ?thesis
    using pick_all[OF c(1), of fn zids want "[]"] fn(2,3) c(2,3) assms(3) by auto
qed

text \<open>The controller deletes every cloudlet it is asked to.\<close>

definition deletes_go :: "fed_env \<Rightarrow> bool" where
  "deletes_go fe \<longleftrightarrow> (\<forall>region k. fe_delete_cloudlet fe region k = None)"

lemma delete_cloudlets_fine: "deletes_go fe \<Longrightarrow> fst (delete_cloudlets fe nf region zs) = None"
  by (induction zs) (simp_all add: Let_def deletes_go_def zone_cloudlet_key_def)

context fed_peer
begin

lemma register_zones_agrees:
  assumes "agree accepts fe op name c (access w) (zones w)" and "ok w" and "access w" and "fed_authorized no_err caller op c = None"
    and "zids \<noteq> []" and "distinct zids" and "\<forall>z\<in>set zids. (z, False) \<in> zones w"
  shows "\<exists>e c' w' evs. register_partner_federator_zone fe no_err net rid caller op name zids c w = (e, c', w', evs) \<and> ok w' \<and> access w' \<and>
    zones w' = set_registered True (set zids) (zones w) \<and> agree accepts fe op name c' (access w') (zones w')"
proof -
  have ag: "agree accepts fe op name c True (zones w)" using assms(1,3) by simp
  then obtain self fn k where c: "fe_vault_get fe name = None" "get_federation_by_name no_err op name c = Inr (self, fn)"
      "fr_addr (fn_partner fn) \<noteq> ''''" "map_of (fd_vault c) name = Some k" "k \<noteq> ''''" "\<And>rid. accepts k (header_to rid self fn)" "fn_share fn"
    by (auto simp: agree_def)
  note fn = get_federation_by_name_found[OF c(2)]
  note reach = send_to_partner_reaches[OF c(3) fn(2,3) c(1,4,5)]
  have "\<forall>z\<in>set zids. z \<noteq> '''' \<and> (z, \<not> True) \<in> zones w" using assms(7) zone_names[OF assms(2)] by fastforce
  from agree_pick[OF ag c(2) this] obtain zs where zs: "pick_partner_zones no_err fn True zids c [] = Inr zs" "fst ` set zs = set zids"
      "\<forall>(k, z)\<in>set zs. z \<in> set (fd_partner_zones c) \<and> from_partner name fn z \<and> z_id (pz_zone z) = k"
    by (elim exE conjE) (rule that; assumption)
  from register[OF assms(2) c(6) assms(3,5-7), of "request_url (fr_addr (fn_partner fn)) (Zones_Register zids)" rid] obtain ds w'
    where r: "net (request_url (fr_addr (fn_partner fn)) (Zones_Register zids)) k (header_to rid self fn, Zones_Register zids) w =
        (Inr (Zones_Registered ds), w')" "ok w'" "access w'" "zones w' = set_registered True (set zids) (zones w)"
    by (elim exE conjE) (rule that; assumption)
  from agree_mark[OF ag c(2) zs, of rid] obtain c' where c': "mark_zones no_err rid True (map snd zs) c = (None, c')"
      "agree accepts fe op name c' True (set_registered True (set zids) (zones w))"
    by (elim exE conjE) (rule that; assumption)
  obtain e evs where ce: "create_cloudlets fe self fn zs ds = (e, evs)" by fastforce
  have run: "register_partner_federator_zone fe no_err net rid caller op name zids c w = (e, c', w', evs)"
    using assms(4,5) c(2,7) zs(1) reach[of net rid self "Zones_Register zids" w] r(1) c'(1) ce
    by (simp add: register_partner_federator_zone_def first_fail_passes)
  show ?thesis by (intro exI conjI, rule run) (use r c'(2) in simp_all)
qed

lemma deregister_zones_agrees:
  assumes "agree accepts fe op name c (access w) (zones w)" and "ok w" and "access w" and "fed_authorized no_err caller op c = None"
    and "zids \<noteq> []" and "\<forall>z\<in>set zids. (z, True) \<in> zones w"
  shows "\<exists>e c' w' evs. deregister_partner_federator_zone fe no_err nf net rid caller op name zids c w = (e, c', w', evs) \<and> ok w' \<and> access w' \<and>
    zones w' = (if e = None then set_registered False (set zids) (zones w) else zones w) \<and> agree accepts fe op name c' (access w') (zones w') \<and>
    (deletes_go fe \<longrightarrow> e = None)"
proof -
  have ag: "agree accepts fe op name c True (zones w)" using assms(1,3) by simp
  then obtain self fn k where c: "fe_vault_get fe name = None" "get_federation_by_name no_err op name c = Inr (self, fn)"
      "fr_addr (fn_partner fn) \<noteq> ''''" "map_of (fd_vault c) name = Some k" "k \<noteq> ''''" "\<And>rid. accepts k (header_to rid self fn)" "fn_share fn"
    by (auto simp: agree_def)
  note fn = get_federation_by_name_found[OF c(2)]
  note reach = send_to_partner_reaches[OF c(3) fn(2,3) c(1,4,5)]
  have "\<forall>z\<in>set zids. z \<noteq> '''' \<and> (z, \<not> False) \<in> zones w" using assms(6) zone_names[OF assms(2)] by fastforce
  from agree_pick[OF ag c(2) this] obtain zs where zs: "pick_partner_zones no_err fn False zids c [] = Inr zs" "fst ` set zs = set zids"
      "\<forall>(k, z)\<in>set zs. z \<in> set (fd_partner_zones c) \<and> from_partner name fn z \<and> z_id (pz_zone z) = k"
    by (elim exE conjE) (rule that; assumption)
  obtain e evs where de: "delete_cloudlets fe nf (fr_region self) (map snd zs) = (e, evs)" by fastforce
  show ?thesis
  proof (cases e)
    case (Some x)
    then have "deregister_partner_federator_zone fe no_err nf net rid caller op name zids c w = (Some x, c, w, evs)"
      using assms(4,5) c(2,7) zs(1) de by (simp add: deregister_partner_federator_zone_def first_fail_passes)
    moreover have "\<not> deletes_go fe" using delete_cloudlets_fine[of fe nf "fr_region self" "map snd zs"] de Some by auto
    ultimately show ?thesis using assms(1-3) by simp
  next
    case None
    from deregister[OF assms(2) c(6) assms(3,5,6), of "request_url (fr_addr (fn_partner fn)) (Zones_Deregister zids)" rid] obtain reply w'
      where r: "net (request_url (fr_addr (fn_partner fn)) (Zones_Deregister zids)) k (header_to rid self fn, Zones_Deregister zids) w =
          (Inr reply, w')" "ok w'" "access w'" "zones w' = set_registered False (set zids) (zones w)"
      by (elim exE conjE) (rule that; assumption)
    from agree_mark[OF ag c(2) zs, of rid] obtain c' where c': "mark_zones no_err rid False (map snd zs) c = (None, c')"
        "agree accepts fe op name c' True (set_registered False (set zids) (zones w))"
      by (elim exE conjE) (rule that; assumption)
    have run: "deregister_partner_federator_zone fe no_err nf net rid caller op name zids c w = (None, c', w', evs)"
      using assms(4,5) c(2,7) zs(1) de None reach[of net rid self "Zones_Deregister zids" w] r(1) c'(1)
      by (simp add: deregister_partner_federator_zone_def first_fail_passes)
    show ?thesis by (intro exI conjI, rule run) (use r c'(2) in simp_all)
  qed
qed

end

subsection \<open>Any sequence of requests\<close>

text \<open>
  What a manager of the consumer asks for, and what it means for the federation: whether the partner gives access,
  and which zones are registered.
\<close>

datatype fed_request = Register_Federation | Deregister_Federation | Register_Zones "string list" | Deregister_Zones "string list"

fun fed_spec :: "fed_request \<Rightarrow> bool \<times> (string \<times> bool) set \<Rightarrow> bool \<times> (string \<times> bool) set" where
  "fed_spec Register_Federation (acc, zs) = (True, zs)"
| "fed_spec Deregister_Federation (acc, zs) = (acc \<and> (\<exists>(z, r)\<in>zs. r), zs)"
| "fed_spec (Register_Zones zids) (acc, zs) =
     (acc, if acc \<and> (\<forall>z\<in>set zids. (z, False) \<in> zs) then set_registered True (set zids) zs else zs)"
| "fed_spec (Deregister_Zones zids) (acc, zs) =
     (acc, if acc \<and> (\<forall>z\<in>set zids. (z, True) \<in> zs) then set_registered False (set zids) zs else zs)"

fun fed_request_ok :: "fed_request \<Rightarrow> bool" where
  "fed_request_ok (Register_Zones zids) \<longleftrightarrow> distinct zids \<and> '''' \<notin> set zids"
| "fed_request_ok (Deregister_Zones zids) \<longleftrightarrow> '''' \<notin> set zids"
| "fed_request_ok _ \<longleftrightarrow> True"

fun consumer_step :: "fed_env \<Rightarrow> (string \<times> string \<times> string \<Rightarrow> string) \<Rightarrow> 'w net \<Rightarrow> string \<Rightarrow> string \<Rightarrow> string \<Rightarrow> string \<Rightarrow> fed_request \<Rightarrow>
    fed_db \<times> 'w \<Rightarrow> fed_db \<times> 'w" where
  "consumer_step fe nf net rid caller op name Register_Federation (c, w) =
     (let (e, c', w') = register_federation fe no_err net rid caller op name c w in (c', w'))"
| "consumer_step fe nf net rid caller op name Deregister_Federation (c, w) =
     (let (e, c', w') = deregister_federation fe no_err net rid caller op name c w in (c', w'))"
| "consumer_step fe nf net rid caller op name (Register_Zones zids) (c, w) =
     (let (e, c', w', evs) = register_partner_federator_zone fe no_err net rid caller op name zids c w in (c', w'))"
| "consumer_step fe nf net rid caller op name (Deregister_Zones zids) (c, w) =
     (let (e, c', w', evs) = deregister_partner_federator_zone fe no_err nf net rid caller op name zids c w in (c', w'))"

lemma picked_zones_in_view:
  "pick_partner_zones no_err fn want zids c zs = Inr zs' \<Longrightarrow> fn_name fn \<noteq> '''' \<Longrightarrow> '''' \<notin> set zids \<Longrightarrow> z \<in> set zids \<Longrightarrow>
     (z, \<not> want) \<in> client_view (fn_name fn) c"
proof (induction zids arbitrary: zs)
  case (Cons zid zids)
  then obtain pz where pz: "first_partner_zone no_err (fn_name fn) (fr_operator (fn_partner fn)) (fr_country (fn_partner fn)) zid c = Inr (Some pz)"
      "pz_registered pz \<noteq> want" "pick_partner_zones no_err fn want zids c (gput (z_id (pz_zone pz)) pz zs) = Inr zs'"
    by (auto split: if_splits sum.splits option.splits)
  then have "pz \<in> set (fd_partner_zones c) \<and> pz_fed pz = fn_name fn \<and> z_id (pz_zone pz) = zid"
    using Cons.prems(2,3) by (auto simp: first_partner_zone_def lookup_def find_Some_iff field_matches_def)
  then have "(zid, \<not> want) \<in> client_view (fn_name fn) c"
    using pz(2) by (auto simp: client_view_def intro!: image_eqI[of _ _ pz])
  then show ?case using Cons.IH[OF pz(3)] Cons.prems by auto
qed simp

context fed_peer
begin

lemma register_zones_rejected:
  assumes "agree accepts fe op name c (access w) (zones w)" and "'''' \<notin> set zids"
    and "\<not> (fed_authorized no_err caller op c = None \<and> zids \<noteq> [] \<and> access w \<and> (\<forall>z\<in>set zids. (z, False) \<in> zones w))"
  shows "consumer_step fe nf net rid caller op name (Register_Zones zids) (c, w) = (c, w)"
proof -
  from assms(1) obtain self fn where c: "get_federation_by_name no_err op name c = Inr (self, fn)" "fn_share fn = access w"
      "access w \<Longrightarrow> client_view name c = zones w" by (auto simp: agree_def)
  note fn = get_federation_by_name_found[OF c(1)]
  show ?thesis
  proof (cases "fed_authorized no_err caller op c = None \<and> zids \<noteq> [] \<and> access w")
    case True
    then obtain z where z: "z \<in> set zids" "(z, False) \<notin> client_view (fn_name fn) c" using assms(3) c(3) fn(2) by auto
    have "pick_partner_zones no_err fn True zids c [] \<noteq> Inr zs" for zs
      using picked_zones_in_view[of fn True zids c "[]" zs z] z assms(2) fn(2,3) by auto
    then obtain e where "pick_partner_zones no_err fn True zids c [] = Inl e"
      by (cases "pick_partner_zones no_err fn True zids c []") auto
    then show ?thesis using True c(1,2) by (simp add: register_partner_federator_zone_def first_fail_passes)
  next
    case False
    then show ?thesis using c(1,2)
      by (auto simp: register_partner_federator_zone_def first_fail.simps fail_if_def Let_def split: option.splits)
  qed
qed

lemma deregister_zones_rejected:
  assumes "agree accepts fe op name c (access w) (zones w)" and "'''' \<notin> set zids"
    and "\<not> (fed_authorized no_err caller op c = None \<and> zids \<noteq> [] \<and> access w \<and> (\<forall>z\<in>set zids. (z, True) \<in> zones w))"
  shows "consumer_step fe nf net rid caller op name (Deregister_Zones zids) (c, w) = (c, w)"
proof -
  from assms(1) obtain self fn where c: "get_federation_by_name no_err op name c = Inr (self, fn)" "fn_share fn = access w"
      "access w \<Longrightarrow> client_view name c = zones w" by (auto simp: agree_def)
  note fn = get_federation_by_name_found[OF c(1)]
  show ?thesis
  proof (cases "fed_authorized no_err caller op c = None \<and> zids \<noteq> [] \<and> access w")
    case True
    then obtain z where z: "z \<in> set zids" "(z, True) \<notin> client_view (fn_name fn) c" using assms(3) c(3) fn(2) by auto
    have "pick_partner_zones no_err fn False zids c [] \<noteq> Inr zs" for zs
      using picked_zones_in_view[of fn False zids c "[]" zs z] z assms(2) fn(2,3) by auto
    then obtain e where "pick_partner_zones no_err fn False zids c [] = Inl e"
      by (cases "pick_partner_zones no_err fn False zids c []") auto
    then show ?thesis using True c(1,2) by (simp add: deregister_partner_federator_zone_def first_fail_passes)
  next
    case False
    then show ?thesis using c(1,2)
      by (auto simp: deregister_partner_federator_zone_def first_fail.simps fail_if_def Let_def split: option.splits)
  qed
qed

lemma register_rejected:
  assumes "agree accepts fe op name c (access w) (zones w)" and "access w \<or> fed_authorized no_err caller op c \<noteq> None"
  shows "consumer_step fe nf net rid caller op name Register_Federation (c, w) = (c, w)"
  using assms by (auto simp: agree_def register_federation_def split: option.splits)

lemma deregister_rejected:
  assumes "agree accepts fe op name c (access w) (zones w)"
    and "\<not> access w \<or> (\<exists>(z, r)\<in>zones w. r) \<or> fed_authorized no_err caller op c \<noteq> None"
  shows "consumer_step fe nf net rid caller op name Deregister_Federation (c, w) = (c, w)"
proof -
  from assms(1) obtain self fn where c: "get_federation_by_name no_err op name c = Inr (self, fn)" "fn_share fn = access w"
      "access w \<Longrightarrow> client_view name c = zones w" by (auto simp: agree_def)
  note fn = get_federation_by_name_found[OF c(1)]
  show ?thesis
  proof (cases "fed_authorized no_err caller op c = None \<and> access w")
    case True
    then obtain zid where "(zid, True) \<in> client_view name c" using assms(2) c(3) by auto
    then obtain z where "z \<in> set (fd_partner_zones c)" "pz_fed z = name" "pz_registered z" by (auto simp: client_view_def)
    then have "find pz_registered (partner_zones_of name c) \<noteq> None"
      using partner_zones_of_name[OF fn(3), of c] by (auto simp: find_None_iff)
    then show ?thesis using True c(1,2) by (auto simp: deregister_federation_def)
  next
    case False
    then show ?thesis using c(1,2) by (auto simp: deregister_federation_def split: option.splits)
  qed
qed

end

context fed_peer
begin

text \<open>The tables agree after any request; where nothing but the request decides, the outcome is \<open>fed_spec\<close>.\<close>

lemma step_agrees:
  assumes "agree accepts fe op name c (access w) (zones w)" and "ok w" and "fed_request_ok req"
    and "consumer_step fe nf net rid caller op name req (c, w) = (c', w')"
  shows "ok w' \<and> agree accepts fe op name c' (access w') (zones w') \<and>
    (fed_authorized no_err caller op c = None \<and> deletes_go fe \<longrightarrow>
       (access w', zones w') = fed_spec req (access w, zones w))"
proof (cases req)
  case Register_Federation
  show ?thesis
  proof (cases "access w \<or> fed_authorized no_err caller op c \<noteq> None")
    case True
    have same: "c' = c" "w' = w" using register_rejected[OF assms(1) True, of nf rid] assms(4) Register_Federation by simp_all
    show ?thesis unfolding same using assms(1,2) Register_Federation True by (elim disjE) (simp, force)
  next
    case False
    then have "\<not> access w" "fed_authorized no_err caller op c = None" by simp_all
    from register_federation_agrees[OF assms(1,2) this, of rid] show ?thesis
      using assms(4) Register_Federation False by (elim exE conjE) simp
  qed
next
  case Deregister_Federation
  show ?thesis
  proof (cases "\<not> access w \<or> (\<exists>(z, r)\<in>zones w. r) \<or> fed_authorized no_err caller op c \<noteq> None")
    case True
    have same: "c' = c" "w' = w" using deregister_rejected[OF assms(1) True, of nf rid] assms(4) Deregister_Federation by simp_all
    show ?thesis unfolding same using assms(1,2) Deregister_Federation True by (elim disjE) (simp, simp, force)
  next
    case False
    then have go: "access w" "\<forall>(z, r)\<in>zones w. \<not> r" "fed_authorized no_err caller op c = None" by auto
    have none: "\<not> (\<exists>(z, r)\<in>zones w. r)" using False by simp
    from deregister_federation_agrees[OF assms(1,2) go, of rid] show ?thesis
      using assms(4) Deregister_Federation none by (elim exE conjE) simp
  qed
next
  case (Register_Zones zids)
  have ids: "distinct zids" "'''' \<notin> set zids" using assms(3) Register_Zones by simp_all
  show ?thesis
  proof (cases "fed_authorized no_err caller op c = None \<and> zids \<noteq> [] \<and> access w \<and> (\<forall>z\<in>set zids. (z, False) \<in> zones w)")
    case True
    then have go: "access w" "fed_authorized no_err caller op c = None" "zids \<noteq> []" "\<forall>z\<in>set zids. (z, False) \<in> zones w" by auto
    from register_zones_agrees[OF assms(1,2) go(1-3) ids(1) go(4), of rid] show ?thesis
      using assms(4) Register_Zones go by (elim exE conjE) simp
  next
    case False
    then show ?thesis using register_zones_rejected[OF assms(1) ids(2) False, of nf rid] assms(1,2,4) Register_Zones by auto
  qed
next
  case (Deregister_Zones zids)
  have ids: "'''' \<notin> set zids" using assms(3) Deregister_Zones by simp
  show ?thesis
  proof (cases "fed_authorized no_err caller op c = None \<and> zids \<noteq> [] \<and> access w \<and> (\<forall>z\<in>set zids. (z, True) \<in> zones w)")
    case True
    then have go: "access w" "fed_authorized no_err caller op c = None" "zids \<noteq> []" "\<forall>z\<in>set zids. (z, True) \<in> zones w" by auto
    from deregister_zones_agrees[OF assms(1,2) go, of nf rid] obtain e c1 w1 evs where
      run: "deregister_partner_federator_zone fe no_err nf net rid caller op name zids c w = (e, c1, w1, evs)"
      and after: "ok w1" "access w1" "zones w1 = (if e = None then set_registered False (set zids) (zones w) else zones w)"
        "agree accepts fe op name c1 (access w1) (zones w1)" "deletes_go fe \<longrightarrow> e = None"
      by (elim exE conjE) (rule that; assumption)
    have same: "c' = c1" "w' = w1" using run assms(4) Deregister_Zones by simp_all
    show ?thesis unfolding same using after go Deregister_Zones by simp
  next
    case False
    then show ?thesis using deregister_zones_rejected[OF assms(1) ids False, of nf rid] assms(1,2,4) Deregister_Zones by auto
  qed
qed

end

end
