(* ===== verification/Fed_Scenarios.thy ===== *)
theory Fed_Scenarios
  imports Fed_Protocol Fed_Apps MC_Login_Safety
begin

text \<open>
  What the interface of the partner gives for the two sides: their tables agree after any requests, and each
  request does what \<open>fed_spec\<close> says.  Then the quota of a zone, the runs in which something goes wrong,
  and witnesses on two small master controllers.
\<close>

subsection \<open>Both sides agree\<close>

fun consumer_run :: "fed_env \<Rightarrow> (string \<times> string \<times> string \<Rightarrow> string) \<Rightarrow> 'w net \<Rightarrow> string \<Rightarrow> string \<Rightarrow>
    (string \<times> string \<times> fed_request) list \<Rightarrow> fed_db \<times> 'w \<Rightarrow> fed_db \<times> 'w" where
  "consumer_run fe nf net op name [] s = s"
| "consumer_run fe nf net op name ((rid, caller, req) # reqs) s =
     consumer_run fe nf net op name reqs (consumer_step fe nf net rid caller op name req s)"

context fed_peer
begin

lemma run_agrees:
  "agree accepts fe op name c (access w) (zones w) \<Longrightarrow> ok w \<Longrightarrow> \<forall>(_, _, req)\<in>set reqs. fed_request_ok req \<Longrightarrow>
     consumer_run fe nf net op name reqs (c, w) = (c', w') \<Longrightarrow>
     ok w' \<and> agree accepts fe op name c' (access w') (zones w')"
proof (induction reqs arbitrary: c w)
  case (Cons r reqs)
  obtain rid caller req where r: "r = (rid, caller, req)" by (cases r)
  obtain c1 w1 where step: "consumer_step fe nf net rid caller op name req (c, w) = (c1, w1)" by fastforce
  have "ok w1 \<and> agree accepts fe op name c1 (access w1) (zones w1)"
    using step_agrees[OF Cons.prems(1,2) _ step] Cons.prems(3) r by simp
  then show ?case using Cons.IH[of c1 w1] Cons.prems(3,4) r step by simp
qed simp

end

text \<open>
  C5 (the federation follows its specification): from tables that agree, a request of a manager of the
  consumer (register or deregister the federation, register or deregister zones) changes the tables of the
  partner as \<open>fed_spec\<close> says, and the tables of the consumer with them.  The request names no zone
  twice in one registration and none without identifier (\<open>fed_request_ok\<close>), the network and the databases
  of both sides work, and so do the deletions of cloudlets in the regions (\<open>deletes_go\<close>).  Without the first the
  tables may come apart for good (Note on a zone named twice), and without the second too (Note on lost answers).
\<close>

theorem federation_follows_spec:
  assumes "agree (peer_accepts pe idc idp h) fe op name c (peer_access idp p) (peer_zones idp p)" and "peer_ok pe idc idp h p"
    and "fed_request_ok req" and "fed_authorized no_err caller op c = None" and "deletes_go fe"
    and "consumer_step fe nf (partner_net pe no_err) rid caller op name req (c, p) = (c', p')"
  shows "(peer_access idp p', peer_zones idp p') = fed_spec req (peer_access idp p, peer_zones idp p) \<and>
    agree (peer_accepts pe idc idp h) fe op name c' (peer_access idp p') (peer_zones idp p') \<and> peer_ok pe idc idp h p'"
  using peer.step_agrees[OF assms(1-3,6)] assms(4,5) by simp

text \<open>
  C2 (the tables of both sides agree): from tables that agree, after any requests that name no zone twice in one
  registration and none without identifier (\<open>fed_request_ok\<close>), of anybody on the side of the consumer, authorized or
  not, and as long as the network and the databases of both sides work, the federation is registered with the
  consumer iff the partner gives access, and then the consumer has exactly the zones that the partner
  shares, each registered iff the partner says so.  With a zone named twice, or an answer lost, the tables may come
  apart for good: see the Notes below.
\<close>

theorem federation_tables_agree:
  assumes "agree (peer_accepts pe idc idp h) fe op name c (peer_access idp p) (peer_zones idp p)" and "peer_ok pe idc idp h p"
    and "\<forall>(_, _, req)\<in>set reqs. fed_request_ok req"
    and "consumer_run fe nf (partner_net pe no_err) op name reqs (c, p) = (c', p')"
  shows "\<exists>self fn. get_federation_by_name no_err op name c' = Inr (self, fn) \<and> fn_share fn = peer_access idp p' \<and>
    client_view name c' = (if fn_share fn then peer_zones idp p' else {})"
proof -
  have "agree (peer_accepts pe idc idp h) fe op name c' (peer_access idp p') (peer_zones idp p')"
    using peer.run_agrees[OF assms] by simp
  then obtain self fn where "get_federation_by_name no_err op name c' = Inr (self, fn)" "fn_share fn = peer_access idp p'"
      "client_view name c' = (if peer_access idp p' then peer_zones idp p' else {})"
    unfolding agree_def by (elim exE conjE) (rule that)
  then show ?thesis by (intro exI[of _ self] exI[of _ fn]) simp
qed

subsection \<open>Quotas\<close>

definition ram_quotas :: "resource_info \<Rightarrow> 64 word list" where
  "ram_quotas q = map snd (filter (\<lambda>(r, _). r = Ram_Mb) (quota_list q))"

text \<open>
  Note (RAM quotas in GB): the limit of RAM of a zone, counted in MB, reaches the partner's cloudlet rounded
  down to whole GB; a limit below 1 GB gives a cloudlet without any quota of RAM.
\<close>

theorem ram_quota_within_a_gb:
  assumes "t Ram_Mb = Some v" and "unat v < 2 ^ 63"
  shows "map unat (ram_quotas (upper_limit_quota (Inr t))) = (if unat v < 1024 then [] else [unat v div 1024 * 1024])"
proof -
  have sdiv_positive: "0 \<le> n \<Longrightarrow> n sdiv 1024 = n div 1024" for n :: int
    by (simp add: signed_divide_int_def sgn_if)
  have "int (unat v) < int (2 ^ 63)" using assms(2) by (simp only: of_nat_less_iff)
  then have "uint v < 2 ^ 63" by simp
  moreover have "- (2 ^ 63) \<le> uint v" by (rule order_trans[OF _ uint_ge_0]) simp
  ultimately have "sint v = uint v" by (simp add: sint_uint signed_take_bit_int_eq_self)
  then have s: "sint v = int (unat v)" by simp
  have ram: "ri_ram (upper_limit_quota (Inr t)) = int (unat v) div 1024"
    using assms(1) s sdiv_positive[of "int (unat v)"] by (simp add: upper_limit_quota_def Let_def)
  have "word_of_int (int (unat v) div 1024) = v div 1024" by (simp add: word_div_def)
  moreover have "unat (v div 1024 * 1024) = unat v div 1024 * 1024 mod 2 ^ 64"
    by (simp add: unat_word_ariths unat_div mod_mult_left_eq)
  moreover have "unat v div 1024 * 1024 < 2 ^ 64" 
    by (rule le_less_trans[OF div_times_less_eq_dividend less_trans[OF assms(2)]]) simp
  ultimately have val: "unat (word_of_int (int (unat v) div 1024) * 1024 :: 64 word) = unat v div 1024 * 1024" by simp
  have "0 < int (unat v) div 1024 \<longleftrightarrow> \<not> unat v < 1024" by linarith
  then show ?thesis
    using ram val by (simp add: ram_quotas_def quota_list_def)
qed

subsection \<open>Two small master controllers\<close>

definition demo_fed_mc :: "string \<Rightarrow> mc" where
  "demo_fed_mc op = demo_state\<lparr>mc_rules := map (get_casbin_rule ''p'') [[''OperatorManager'', ''cloudlets'', ''manage'']] @
     map (get_casbin_rule ''g'') [[op @ ''::ann'', ''OperatorManager'']],
     mc_orgs := [demo_org op ''operator''], mc_federators := [op]\<rparr>"

definition demo_federator :: "string \<Rightarrow> string \<Rightarrow> string \<Rightarrow> federator" where
  "demo_federator fid op key = \<lparr>fr_id = fid, fr_operator = op, fr_country = ''DE'', fr_addr = ''mc.'' @ op, fr_region = ''EU'',
     fr_mcc = ''262'', fr_mnc = [''01'', ''02''], fr_locator = '''', fr_revision = '''', fr_api_key = '''',
     fr_hash = key @ ''salt'', fr_salt = ''salt'', fr_iter = 10000\<rparr>"

definition demo_federation :: "string \<Rightarrow> string \<Rightarrow> string \<Rightarrow> federator \<Rightarrow> federation" where
  "demo_federation name self op partner = \<lparr>fn_name = name, fn_self_id = self, fn_self_op = op, fn_partner = partner,
     fn_share = False, fn_access = False\<rparr>"

definition demo_zone :: "string \<Rightarrow> fzone" where
  "demo_zone zid = \<lparr>z_id = zid, z_operator = ''partner'', z_country = ''DE'', z_geo = ''1,2'', z_city = ''Bonn'', z_state = ''NRW'',
     z_locality = '''', z_region = ''EU'', z_cloudlets = [''c''], z_revision = ''''\<rparr>"

definition demo_consumer :: fed_db where
  "demo_consumer = \<lparr>fd_mc = demo_fed_mc ''telco'', fd_regions = [''EU''], fd_federators = [demo_federator ''fed-c'' ''telco'' ''k''],
     fd_federations = [demo_federation ''bridge'' ''fed-c'' ''telco'' (demo_federator ''fed-p'' ''partner'' '''')],
     fd_zones = [], fd_self_zones = [], fd_partner_zones = [], fd_vault = [(''bridge'', ''key'')]\<rparr>"

definition demo_shared_zone :: "string \<Rightarrow> self_zone" where
  "demo_shared_zone zid = \<lparr>sz_id = zid, sz_self_op = ''partner'', sz_fed = ''link'', sz_registered = False, sz_revision = ''''\<rparr>"

definition demo_provider :: fed_db where
  "demo_provider = \<lparr>fd_mc = demo_fed_mc ''partner'', fd_regions = [''EU''], fd_federators = [demo_federator ''fed-p'' ''partner'' ''key''],
     fd_federations = [demo_federation ''link'' ''fed-p'' ''partner'' (demo_federator ''fed-c'' ''telco'' '''')],
     fd_zones = map demo_zone [''z1'', ''z2''], fd_self_zones = map demo_shared_zone [''z1'', ''z2''], fd_partner_zones = [],
     fd_vault = []\<rparr>"

definition demo_fed_env :: fed_env where
  "demo_fed_env = \<lparr>fe_users = demo_env_users, fe_addr = ''mc'', fe_country_ok = (\<lambda>c. c = ''DE''), fe_parse_float = (\<lambda>_. Some 1),
     fe_latitude = (\<lambda>_. True), fe_longitude = (\<lambda>_. True), fe_cloudlets = (\<lambda>_ _. Inr [''c'']), fe_quotas = (\<lambda>_ _ _. Inr []),
     fe_infra_max = (\<lambda>_ _ _. Inr []), fe_create_cloudlet = (\<lambda>_ _. None), fe_delete_cloudlet = (\<lambda>_ _. None),
     fe_vault_put = (\<lambda>_. None), fe_vault_get = (\<lambda>_. None)\<rparr>"

definition demo_not_found :: "string \<times> string \<times> string \<Rightarrow> string" where
  "demo_not_found k = ''not found''"

abbreviation demo_step :: "fed_request \<Rightarrow> fed_db \<times> fed_db \<Rightarrow> fed_db \<times> fed_db" where
  "demo_step req \<equiv> consumer_step demo_fed_env demo_not_found (partner_net demo_fed_env no_err) ''r'' ''ann'' ''telco'' ''bridge'' req"

text \<open>
  Note (lost answers): when the partner has given access but its answer is lost, the consumer can
  not register again, as the partner says that the federation exists, and not deregister, as it knows of no
  federation; and the partner can not delete its federation, as it is registered.
\<close>

definition reply_lost :: "fed_db net" where
  "reply_lost u k m p = (Inl ''timeout'', snd (partner_net demo_fed_env no_err u k m p))"

theorem lost_answer_wedges:
  "let (e1, c1, p1) = register_federation demo_fed_env no_err reply_lost ''r'' ''ann'' ''telco'' ''bridge'' demo_consumer demo_provider;
       net = partner_net demo_fed_env no_err;
       (e2, c2, p2) = register_federation demo_fed_env no_err net ''r'' ''ann'' ''telco'' ''bridge'' c1 p1;
       (e3, c3, p3) = deregister_federation demo_fed_env no_err net ''r'' ''ann'' ''telco'' ''bridge'' c2 p2;
       (e4, p4) = delete_federation no_err True ''ann'' ''partner'' ''link'' p3
   in e1 = Some (Err ''timeout'') \<and> e2 \<noteq> None \<and> e3 \<noteq> None \<and> e4 \<noteq> None \<and>
      (c3, p4) = (demo_consumer, p1) \<and> map fn_access (fd_federations p1) = [True] \<and> map fn_share (fd_federations c1) = [False]"
  by code_simp

text \<open>
  Note (a zone named twice): the consumer collects the zones of a registration in a map, but sends the list
  as it is; with a zone in it twice the partner registers the zone and then answers that it is registered
  already.  The zone stays registered with the partner only: it can be neither registered nor deregistered any more,
  and the federation can not be deregistered either.
\<close>

theorem repeated_zone_wedges:
  "let (c1, p1) = demo_step Register_Federation (demo_consumer, demo_provider);
       (c2, p2) = demo_step (Register_Zones [''z1'', ''z1'']) (c1, p1)
   in c2 = c1 \<and> map (\<lambda>z. (z_id (pz_zone z), pz_registered z)) (fd_partner_zones c2) = [(''z1'', False), (''z2'', False)] \<and>
      map (\<lambda>s. (sz_id s, sz_registered s)) (fd_self_zones p2) = [(''z1'', True), (''z2'', False)] \<and>
      demo_step (Register_Zones [''z1'']) (c2, p2) = (c2, p2) \<and> demo_step (Deregister_Zones [''z1'']) (c2, p2) = (c2, p2) \<and>
      demo_step Deregister_Federation (c2, p2) = (c2, p2)"
  by code_simp

text \<open>
  Note (the state of a zone): the state in which a zone lies is sent with both messages that tell of a zone, but
  stored only when the zone is shared later.
\<close>

theorem registering_drops_states:
  "let (c1, p1) = demo_step Register_Federation (demo_consumer, demo_provider)
   in map (z_state \<circ> pz_zone) (fd_partner_zones c1) = ['''', ''''] \<and> map z_state (fd_zones demo_provider) = [''NRW'', ''NRW'']"
  by code_simp

text \<open>
  Note (networks): the code compares the lists of networks as if no network were in a list twice, so a change
  may be taken for none.
\<close>

theorem repeated_network_is_kept: "\<not> mnc_changed [''01'', ''01''] [''01'', ''02''] \<and> mnc_changed [''01'', ''02''] [''01'', ''01'']"
  by code_simp

text \<open>
  Note (the part that is not told): a federator that gives up its code or locator sends the empty text to its partner,
  which keeps the old one.
\<close>

theorem cleared_code_stays_with_partner:
  "let (c1, p1) = demo_step Register_Federation (demo_consumer, demo_provider);
       req = (demo_federator ''fed-c'' ''telco'' ''k'')\<lparr>fr_mcc := ''''\<rparr>;
       p2 = fd_federations_update (map (\<lambda>f. f\<lparr>fn_partner := demo_federator ''fed-c'' ''telco'' ''''\<rparr>)) p1;
       (r, c3, p3) = update_self_federator demo_fed_env no_err (partner_net demo_fed_env no_err) ''r'' ''ann'' req c1 p2
   in r = Inr None \<and> map fr_mcc (fd_federators c3) = [''''] \<and> map (fr_mcc \<circ> fn_partner) (fd_federations p3) = [''262'']"
  by code_simp

text \<open>
  Note (the wrong role): the calls of a partner that run applications on our zones are checked against the role by which we
  may use the zones of the partner.  A partner that was given access to our zones is refused, and one that
  only gives access to its own may run applications on ours.
\<close>

definition demo_with_roles :: "bool \<Rightarrow> bool \<Rightarrow> fed_db" where
  "demo_with_roles share access = fd_federations_update (map (\<lambda>f. f\<lparr>fn_share := share, fn_access := access\<rparr>)) demo_provider"

definition demo_header :: fed_header where
  "demo_header = \<lparr>fh_request = ''r'', fh_orig = ''fed-c'', fh_dest = ''fed-p'', fh_operator = ''telco'', fh_country = ''DE''\<rparr>"

theorem apps_check_the_other_role:
  "fst (federation_app_provision demo_fed_env no_err (\<lambda>_ _. None) ''key'' demo_header ''app'' \<lparr>ar_zone = ''z1'', ar_operator = ''telco''\<rparr>
      (demo_with_roles False True)) \<noteq> None \<and>
   federation_app_provision demo_fed_env no_err (\<lambda>_ _. None) ''key'' demo_header ''app'' \<lparr>ar_zone = ''z1'', ar_operator = ''telco''\<rparr>
      (demo_with_roles True False) = (None, [(''EU'', Create_App_Inst ''app'' ''z1'' ''telco'')])"
  by code_simp

subsection \<open>Witnesses\<close>

theorem ram_quota_within_a_gb_witness: "map unat (ram_quotas (upper_limit_quota (Inr [Ram_Mb \<mapsto> 5000]))) = [4096]"
  using ram_quota_within_a_gb[of "[Ram_Mb \<mapsto> 5000]" 5000] by simp

lemma demo_fed_ok: "fed_ok demo_consumer" "fed_ok demo_provider"
  by (simp_all add: fed_ok_defs demo_consumer_def demo_provider_def demo_federator_def demo_federation_def demo_zone_def
      demo_shared_zone_def demo_fed_mc_def demo_state_def)

abbreviation demo_hash :: "string \<times> string \<times> int" where
  "demo_hash \<equiv> (''keysalt'', ''salt'', 10000)"

lemma demo_peer_ok: "peer_ok demo_fed_env ''fed-c'' ''fed-p'' demo_hash demo_provider"
  using demo_fed_ok(2)
  by (simp add: peer_ok_def demo_provider_def demo_federator_def demo_federation_def demo_zone_def)

lemma demo_zones: "peer_zones ''fed-p'' demo_provider = {(''z1'', False), (''z2'', False)}"
proof -
  let ?fn = "demo_federation ''link'' ''fed-p'' ''partner'' (demo_federator ''fed-c'' ''telco'' '''')"
  have "{s \<in> set (fd_self_zones demo_provider). sz_fed s = ''link''} = set (map demo_shared_zone [''z1'', ''z2''])"
    by (auto simp: demo_provider_def demo_shared_zone_def)
  moreover have "?fn \<in> set (fd_federations demo_provider)" by (simp add: demo_provider_def)
  moreover have "fn_self_id ?fn = ''fed-p''" "fn_name ?fn = ''link''" by (simp_all add: demo_federation_def)
  ultimately show ?thesis using peer_view(2)[OF demo_fed_ok(2), of ?fn] by (simp add: demo_shared_zone_def)
qed

lemma demo_access: "\<not> peer_access ''fed-p'' demo_provider"
  by (simp add: peer_access_def demo_provider_def demo_federation_def)

lemma demo_agree: "agree (peer_accepts demo_fed_env ''fed-c'' ''fed-p'' demo_hash) demo_fed_env ''telco'' ''bridge'' demo_consumer
    (peer_access ''fed-p'' demo_provider) (peer_zones ''fed-p'' demo_provider)"
proof -
  let ?self = "demo_federator ''fed-c'' ''telco'' ''k''"
  let ?fn = "demo_federation ''bridge'' ''fed-c'' ''telco'' (demo_federator ''fed-p'' ''partner'' '''')"
  have get: "get_federation_by_name no_err ''telco'' ''bridge'' demo_consumer = Inr (?self, ?fn)" by code_simp
  show ?thesis
    by (rule agreeI[OF demo_fed_ok(1) _ get, of _ "''key''"])
      (simp_all add: demo_access demo_fed_env_def demo_federation_def demo_federator_def demo_consumer_def client_view_def
        peer_accepts_def header_to_def password_matches_def demo_env_users_def)
qed

lemma demo_authorized: "fed_authorized no_err ''ann'' ''telco'' demo_consumer = None"
  by code_simp

lemma demo_deletes_go: "deletes_go demo_fed_env"
  by (simp add: deletes_go_def demo_fed_env_def)

theorem federation_follows_spec_witness:
  "let (c', p') = demo_step Register_Federation (demo_consumer, demo_provider)
   in peer_access ''fed-p'' p' \<and> peer_zones ''fed-p'' p' = {(''z1'', False), (''z2'', False)}"
proof -
  obtain c' p' where step: "demo_step Register_Federation (demo_consumer, demo_provider) = (c', p')" by fastforce
  have "(peer_access ''fed-p'' p', peer_zones ''fed-p'' p') = (True, {(''z1'', False), (''z2'', False)})"
    using federation_follows_spec[OF demo_agree demo_peer_ok _ demo_authorized demo_deletes_go step] demo_zones by simp
  then show ?thesis unfolding step by simp
qed

theorem federation_tables_agree_witness:
  "\<exists>c' p'. consumer_run demo_fed_env demo_not_found (partner_net demo_fed_env no_err) ''telco'' ''bridge''
      [(''r1'', ''ann'', Register_Federation), (''r2'', ''ann'', Register_Zones [''z2'']), (''r3'', ''zoe'', Deregister_Federation)]
      (demo_consumer, demo_provider) = (c', p') \<and>
    (\<exists>self fn. get_federation_by_name no_err ''telco'' ''bridge'' c' = Inr (self, fn) \<and> fn_share fn = peer_access ''fed-p'' p' \<and>
      client_view ''bridge'' c' = (if fn_share fn then peer_zones ''fed-p'' p' else {}))"
proof -
  let ?run = "consumer_run demo_fed_env demo_not_found (partner_net demo_fed_env no_err) ''telco'' ''bridge''
      [(''r1'', ''ann'', Register_Federation), (''r2'', ''ann'', Register_Zones [''z2'']), (''r3'', ''zoe'', Deregister_Federation)]
      (demo_consumer, demo_provider)"
  obtain c' p' where run: "?run = (c', p')" by fastforce
  have reqs: "\<forall>(_, _, req)\<in>set [(''r1'', ''ann'', Register_Federation), (''r2'', ''ann'', Register_Zones [''z2'']),
      (''r3'', ''zoe'', Deregister_Federation)]. fed_request_ok req" by simp
  show ?thesis
    by (rule exI[of _ c'], rule exI[of _ p'], rule conjI[OF run federation_tables_agree[OF demo_agree demo_peer_ok reqs run]])
qed

theorem federation_tables_stay_ok_witness:
  "let (c', p') = demo_step Register_Federation (demo_consumer, demo_provider)
   in \<forall>z\<in>set (fd_partner_zones c'). \<exists>fn\<in>set (fd_federations c'). fn_name fn = pz_fed z \<and> (pz_registered z \<longrightarrow> fn_share fn)"
proof -
  obtain e c' p' where run: "register_federation demo_fed_env no_err (partner_net demo_fed_env no_err) ''r'' ''ann'' ''telco'' ''bridge''
      demo_consumer demo_provider = (e, c', p')" by (metis prod_cases3)
  have "fed_step\<^sup>*\<^sup>* (demo_consumer, demo_provider) (c', p')" by (rule r_into_rtranclp, rule fed_step.register[OF run])
  from federation_tables_stay_ok[OF this demo_fed_ok(1)] show ?thesis using run by simp
qed

theorem partners_stay_in_federation_witness:
  "let (r, p') = fed_handle demo_fed_env no_err ''key'' demo_header Partner_Create demo_provider
   in p' \<noteq> demo_provider \<and> same_elsewhere ''fed-p'' ''link'' demo_provider p'"
proof -
  obtain r p' where run: "fed_handle demo_fed_env no_err ''key'' demo_header Partner_Create demo_provider = (r, p')" by fastforce
  have "snd (fed_handle demo_fed_env no_err ''key'' demo_header Partner_Create demo_provider) \<noteq> demo_provider" by code_simp
  then have ne: "p' \<noteq> demo_provider" unfolding run by simp
  from partners_stay_in_federation[OF run demo_fed_ok(2)] ne
  have "\<exists>fn\<in>set (fd_federations demo_provider). same_elsewhere (fh_dest demo_header) (fn_name fn) demo_provider p'" by blast
  then have "same_elsewhere ''fed-p'' ''link'' demo_provider p'"
    by (simp add: demo_provider_def demo_federation_def demo_header_def)
  then show ?thesis using ne unfolding run by simp
qed

end
