(* ===== verification/VMLayer_Props.thy ===== *)
theory VMLayer_Props
  imports Prelude
begin

text \<open>
  The settings of a VM platform, \<open>src/vmlayer/props.go\<close>, and its network scheme, \<open>src/vmlayer/ip.go\<close>: the values of
  properties, the parsing of \<open>MEX_NETWORK_SCHEME\<close>, the route of the internal networks, the range of addresses of MetalLB, and the
  name and path of the base image.
  A platform's properties are looked up by name (\<open>vp_value\<close>, the empty string when a property is not set).  Go's error texts of \<open>strconv\<close>
  and \<open>net\<close> are left out of messages.
\<close>

subsection \<open>Strings\<close>

definition char_to_upper :: "char \<Rightarrow> char" where
  "char_to_upper c =
     (let n = (of_char c :: nat) in if 97 \<le> n \<and> n \<le> 122 then char_of (n - 32) else c)"

definition strings_to_upper :: "string \<Rightarrow> string" where
  "strings_to_upper s = map char_to_upper s"

text \<open>\<open>strings.Replace(s, old, new, 1)\<close> for a one-character \<open>old\<close>.\<close>

fun replace_one :: "char \<Rightarrow> string \<Rightarrow> string \<Rightarrow> string" where
  "replace_one old new [] = []"
| "replace_one old new (c # cs) = (if c = old then new @ cs else c # replace_one old new cs)"

text \<open>\<open>strconv.ParseUint(s, 10, bits)\<close>: digits only, and a value that fits.\<close>

definition strconv_parse_uint :: "nat \<Rightarrow> string \<Rightarrow> nat option" where
  "strconv_parse_uint bits s =
     (if s = [] then None
      else case parse_digits 0 s of None \<Rightarrow> None | Some n \<Rightarrow> if n < 2 ^ bits then Some n else None)"

subsection \<open>Properties\<close>

record vm_properties =
  vp_value :: "string \<Rightarrow> string"
  vp_shared_root_lb :: string
  vp_cloudlet_secgrp :: string
  vp_use_secgrp_internal :: bool
  vp_common_shared_net :: bool
  vp_platform_ext_net :: string
  vp_cleanup_retries :: int
  vp_region :: string
  vp_deployment_tag :: string
  vp_chef_server_path :: string
  vp_dns_zone :: string
  vp_test_mode :: bool
  vp_image_path :: string
  vp_image_version :: string

definition no_subnet_dns :: string where "no_subnet_dns = ''NONE''"
definition no_config_external_router :: string where "no_config_external_router = ''NOCONFIG''"
definition no_external_router :: string where "no_external_router = ''NONE''"

definition get_cloudlet_external_network :: "vm_properties \<Rightarrow> string" where
  "get_cloudlet_external_network vp = vp_value vp ''MEX_EXT_NETWORK''"

definition get_cloudlet_mex_network :: "vm_properties \<Rightarrow> string" where
  "get_cloudlet_mex_network vp = vp_value vp ''MEX_NETWORK''"

definition comma_list :: "string \<Rightarrow> string list" where
  "comma_list s = (if s = '''' then [] else strings_split s '','')"

definition get_cloudlet_additional_platform_networks :: "vm_properties \<Rightarrow> string list" where
  "get_cloudlet_additional_platform_networks vp = comma_list (vp_value vp ''MEX_ADDITIONAL_PLATFORM_NETWORKS'')"

definition get_cloudlet_additional_root_lb_networks :: "vm_properties \<Rightarrow> string list" where
  "get_cloudlet_additional_root_lb_networks vp = comma_list (vp_value vp ''MEX_ADDITIONAL_ROOTLB_NETWORKS'')"

definition get_ntp_servers :: "vm_properties \<Rightarrow> string list" where
  "get_ntp_servers vp = comma_list (vp_value vp ''MEX_NTP_SERVERS'')"

definition get_cloudlet_network_scheme :: "vm_properties \<Rightarrow> string" where
  "get_cloudlet_network_scheme vp = vp_value vp ''MEX_NETWORK_SCHEME''"

definition get_cloudlet_volume_az :: "vm_properties \<Rightarrow> string" where
  "get_cloudlet_volume_az vp = vp_value vp ''MEX_VOLUME_AVAILABILITY_ZONE''"

definition get_cloudlet_compute_az :: "vm_properties \<Rightarrow> string" where
  "get_cloudlet_compute_az vp = vp_value vp ''MEX_COMPUTE_AVAILABILITY_ZONE''"

definition get_cloudlet_os_image :: "vm_properties \<Rightarrow> string" where
  "get_cloudlet_os_image vp = vp_value vp ''MEX_OS_IMAGE''"

definition get_cloudlet_external_router :: "vm_properties \<Rightarrow> string" where
  "get_cloudlet_external_router vp = vp_value vp ''MEX_ROUTER''"

definition get_cloudlet_dns :: "vm_properties \<Rightarrow> string" where
  "get_cloudlet_dns vp = vp_value vp ''MEX_DNS''"

definition get_subnet_dns :: "vm_properties \<Rightarrow> string" where
  "get_subnet_dns vp = vp_value vp ''MEX_SUBNET_DNS''"

definition get_vm_app_subnet_dhcp_enabled :: "vm_properties \<Rightarrow> string" where
  "get_vm_app_subnet_dhcp_enabled vp = vp_value vp ''MEX_VM_APP_SUBNET_DHCP_ENABLED''"

definition get_enable_anti_affinity :: "vm_properties \<Rightarrow> bool" where
  "get_enable_anti_affinity vp \<longleftrightarrow> vp_value vp ''MEX_ENABLE_ANTI_AFFINITY'' = ''yes''"

subsection \<open>Networks by type\<close>

text \<open>\<open>NetworkType\<close> is a string type in the source, and so is \<open>VMRole\<close>.\<close>

type_synonym network_type = string

definition nt_external_primary :: network_type where "nt_external_primary = ''external-primary''"
definition nt_additional_root_lb :: network_type where "nt_additional_root_lb = ''rootlb''"
definition nt_additional_cluster_node :: network_type where "nt_additional_cluster_node = ''cluster-node''"
definition nt_additional_platform :: network_type where "nt_additional_platform = ''platform''"
definition nt_internal_private :: network_type where "nt_internal_private = ''internal-private''"
definition nt_internal_shared_lb :: network_type where "nt_internal_shared_lb = ''internal-shared-lb''"

lemmas network_type_defs =
  nt_external_primary_def nt_additional_root_lb_def nt_additional_cluster_node_def
  nt_additional_platform_def nt_internal_private_def nt_internal_shared_lb_def

definition put_all :: "'v \<Rightarrow> 'k list \<Rightarrow> ('k, 'v) gmap \<Rightarrow> ('k, 'v) gmap" where
  "put_all v ks m = fold (\<lambda>k. gput k v) ks m"

definition put_networks_of_type :: "vm_properties \<Rightarrow> network_type \<Rightarrow> (string, network_type) gmap \<Rightarrow> (string, network_type) gmap" where
  "put_networks_of_type vp t nets =
     (if t = nt_external_primary then gput (get_cloudlet_external_network vp) nt_external_primary nets
      else if t = nt_additional_root_lb
        then put_all nt_additional_root_lb (get_cloudlet_additional_root_lb_networks vp) nets
      else if t = nt_additional_platform
        then let nets1 = put_all nt_additional_platform (get_cloudlet_additional_platform_networks vp) nets
             in if vp_platform_ext_net vp \<noteq> '''' then gput (vp_platform_ext_net vp) nt_additional_platform nets1 else nets1
      else if t = nt_internal_private \<or> t = nt_internal_shared_lb
        then gput (get_cloudlet_mex_network vp) t nets
      else nets)"

definition get_networks_by_type :: "vm_properties \<Rightarrow> network_type list \<Rightarrow> (string, network_type) gmap" where
  "get_networks_by_type vp ts = fold (put_networks_of_type vp) ts []"

subsection \<open>ParseNetSpec\<close>

record net_spec_info =
  ni_cidr :: string
  ni_network_type :: string
  ni_network_address :: string
  ni_netmask_bits :: string
  ni_octets :: "string list"
  ni_delimiter_octet :: nat
  ni_floating_ip_net :: string
  ni_floating_ip_subnet :: string
  ni_floating_ip_external_net :: string
  ni_vnic_type :: string
  ni_router_gateway_ip :: string
  ni_common_internal_cidr :: string
  ni_common_internal_network_address :: string
  ni_common_internal_mask_bits :: int

definition empty_net_spec :: net_spec_info where
  "empty_net_spec =
     \<lparr>ni_cidr = '''', ni_network_type = '''', ni_network_address = '''', ni_netmask_bits = '''', ni_octets = [],
      ni_delimiter_octet = 0, ni_floating_ip_net = '''', ni_floating_ip_subnet = '''', ni_floating_ip_external_net = '''',
      ni_vnic_type = '''', ni_router_gateway_ip = '''', ni_common_internal_cidr = '''',
      ni_common_internal_network_address = '''', ni_common_internal_mask_bits = 0\<rparr>"

definition supported_schemes :: "string list" where
  "supported_schemes = [''name'', ''cidr'', ''floatingipnet'', ''floatingipsubnet'', ''floatingipextnet'', ''vnictype'',
     ''routergateway'', ''networktype'', ''commoninternalnet'']"

definition common_internal_cidr_default :: string where
  "common_internal_cidr_default = ''10.201.0.0/16''"

definition net_spec_item :: "string \<Rightarrow> net_spec_info \<Rightarrow> string + net_spec_info" where
  "net_spec_item i ni =
     (case strings_split i ''='' of
        [k0, v] \<Rightarrow>
          (let k = strings_to_lower k0 in
             if k \<notin> set supported_schemes then Inl (''unknown netspec item key: '' @ k)
             else if k = ''name'' then Inr ni
             else if k = ''cidr'' then Inr (ni\<lparr>ni_cidr := v\<rparr>)
             else if k = ''floatingipnet'' then Inr (ni\<lparr>ni_floating_ip_net := v\<rparr>)
             else if k = ''floatingipsubnet'' then Inr (ni\<lparr>ni_floating_ip_subnet := v\<rparr>)
             else if k = ''floatingipextnet'' then Inr (ni\<lparr>ni_floating_ip_external_net := v\<rparr>)
             else if k = ''vnictype'' then Inr (ni\<lparr>ni_vnic_type := v\<rparr>)
             else if k = ''routergateway'' then Inr (ni\<lparr>ni_router_gateway_ip := v\<rparr>)
             else if k = ''networktype'' then Inr (ni\<lparr>ni_network_type := v\<rparr>)
             else if k = ''commoninternalnet'' then Inr (ni\<lparr>ni_common_internal_cidr := v\<rparr>)
             else Inl (''unknown netspec item key: '' @ k))
      | _ \<Rightarrow> Inl (''incorrect netspec item format, expect key=value: '' @ i))"

fun net_spec_items :: "string list \<Rightarrow> net_spec_info \<Rightarrow> string + net_spec_info" where
  "net_spec_items [] ni = Inr ni"
| "net_spec_items (i # is) ni =
     (case net_spec_item i ni of Inl e \<Rightarrow> Inl e | Inr ni' \<Rightarrow> net_spec_items is ni')"

text \<open>The index of the last octet that is \<open>X\<close>, 0 when there is none.\<close>

definition delimiter_octet :: "string list \<Rightarrow> nat" where
  "delimiter_octet octs = fold (\<lambda>(i, it) d. if it = ''X'' then i else d) (enumerate 0 octs) 0"

definition parse_net_spec :: "string \<Rightarrow> string + net_spec_info" where
  "parse_net_spec s =
     (if s = '''' then Inl ''empty netspec''
      else case net_spec_items (strings_split s '','') empty_net_spec of
        Inl e \<Rightarrow> Inl e
      | Inr ni \<Rightarrow>
          if ni_cidr ni = '''' then Inl ''Missing cidr=(value) in netspec''
          else
            let sits = strings_split (ni_cidr ni) ''/'' in
            if length sits < 2 then Inl ''invalid CIDR, no net mask''
            else
              let ni1 = ni\<lparr>ni_network_address := sits ! 0, ni_netmask_bits := sits ! 1\<rparr>;
                  ni2 = (if ni_common_internal_cidr ni1 = ''''
                         then ni1\<lparr>ni_common_internal_cidr := common_internal_cidr_default\<rparr> else ni1);
                  cids = strings_split (ni_common_internal_cidr ni2) ''/'' in
              if length cids < 2 then Inl ''invalid common internal CIDR, no net mask''
              else case strconv_atoi (cids ! 1) of
                  None \<Rightarrow> Inl ''invalid CommonInternalNetworkMaskBits''
                | Some b \<Rightarrow>
                    if b \<noteq> 16 then Inl ''CommonInternalNetworkMaskBits must be 16''
                    else
                      let octs = strings_split (ni_network_address ni2) ''.'';
                          d = delimiter_octet octs in
                      if length octs \<noteq> 4 then Inl ''invalid network address structure''
                      else if d \<noteq> 2 then Inl ''invalid network address delimiter''
                      else Inr (ni2\<lparr>ni_common_internal_network_address := cids ! 0, ni_common_internal_mask_bits := b,
                                    ni_octets := octs, ni_delimiter_octet := d\<rparr>))"

definition get_internal_network_route :: "vm_properties \<Rightarrow> bool \<Rightarrow> string + string" where
  "get_internal_network_route vp common_shared =
     (case parse_net_spec (get_cloudlet_network_scheme vp) of
        Inl e \<Rightarrow> Inl e
      | Inr ni \<Rightarrow>
          let netaddr = replace_one (CHR ''X'') ''0'' (strings_to_upper (ni_network_address ni)) in
          Inr ((if common_shared then ni_common_internal_network_address ni else netaddr) @ ''/16''))"

subsection \<open>Addresses\<close>

definition dotted :: "nat list \<Rightarrow> string" where
  "dotted ns = strings_join (map nat_digits ns) ''.''"

text \<open>\<open>MaskLenToMask\<close>: \<open>net.ParseCIDR\<close> of \<open>255.255.255.255/n\<close> takes digits only and at most 32.\<close>

definition mask_octets :: "nat \<Rightarrow> nat list" where
  "mask_octets n = map (\<lambda>i. 256 - 2 ^ (8 - min 8 (n - 8 * i))) [0..<4]"

definition mask_len_to_mask :: "string \<Rightarrow> string option" where
  "mask_len_to_mask s =
     (if s = [] then None
      else case parse_digits 0 s of None \<Rightarrow> None | Some n \<Rightarrow> if n \<le> 32 then Some (dotted (mask_octets n)) else None)"

definition get_last_host_address_for_cidr :: "string \<Rightarrow> string + string" where
  "get_last_host_address_for_cidr cidr =
     (case strings_split cidr ''/'' of
        [addr, bits] \<Rightarrow>
          (case strings_split addr ''.'' of
             [a, b, c, d] \<Rightarrow>
               if bits = ''8'' then Inr (strings_join [a, ''255'', ''255'', ''254''] ''.'')
               else if bits = ''16'' then Inr (strings_join [a, b, ''255'', ''254''] ''.'')
               else if bits = ''24'' then Inr (strings_join [a, b, c, ''254''] ''.'')
               else Inl (''invalid mask bit len - '' @ bits)
           | _ \<Rightarrow> Inl (''invalid network address - '' @ addr))
      | _ \<Rightarrow> Inl (''invalid cidr - '' @ cidr))"

subsection \<open>MetalLB\<close>

definition get_uses_metal_lb :: "vm_properties \<Rightarrow> bool" where
  "get_uses_metal_lb vp \<longleftrightarrow>
     vp_value vp ''MEX_METALLB_OCTET3_RANGE'' \<noteq> '''' \<and> vp_value vp ''MEX_METALLB_OCTET3_RANGE'' \<noteq> ''NONE''"

definition get_metal_lb_range :: "vm_properties \<Rightarrow> string + nat \<times> nat" where
  "get_metal_lb_range vp =
     (let v = vp_value vp ''MEX_METALLB_OCTET3_RANGE'' in
      if v = '''' then Inl ''No MetalLB range defined in MEX_METALLB_OCTET3_RANGE''
      else case strings_split v ''-'' of
          [s, e] \<Rightarrow>
            (case strconv_parse_uint 32 s of
               None \<Rightarrow> Inl ''Failed to parse MetalLB start-end''
             | Some start \<Rightarrow>
                 (case strconv_parse_uint 32 e of
                    None \<Rightarrow> Inl ''Failed to parse MetalLB start-end''
                  | Some end' \<Rightarrow>
                      if start = 0 \<or> start > 255 \<or> end' > 255 \<or> start > end'
                      then Inl ''Invalid MetalLB range in MEX_METALLB_OCTET3_RANGE''
                      else Inr (start, end')))
        | _ \<Rightarrow> Inl ''MetalLB range not properly defined (start-end) in MEX_METALLB_OCTET3_RANGE'')"

text \<open>What \<open>net.ParseIP\<close> gives: an IPv4 address has a four-byte form (\<open>To4\<close>), an IPv6 address has none.\<close>

datatype parsed_ip = IPv4 nat nat nat nat | IPv6 string

definition get_metal_lb_range_from_master_ip ::
    "(string \<Rightarrow> parsed_ip option) \<Rightarrow> vm_properties \<Rightarrow> string \<Rightarrow> string list go" where
  "get_metal_lb_range_from_master_ip parse_ip vp master_ip =
     (case parse_ip master_ip of
        None \<Rightarrow> Fails (''unable to parse master ip '' @ master_ip)
      | Some mip \<Rightarrow>
          (case get_metal_lb_range vp of
             Inl e \<Rightarrow> Fails e
           | Inr (start, end') \<Rightarrow>
               (case mip of
                  IPv6 _ \<Rightarrow> Panics
                | IPv4 a b c d \<Rightarrow>
                    Returns [dotted [a, b, c, start] @ ''-'' @ dotted [a, b, c, end']])))"

subsection \<open>The base image\<close>

definition image_name_prefix :: string where "image_name_prefix = ''mobiledgex-v''"
definition mex_infra_version :: string where "mex_infra_version = ''4.10.0''"
definition default_os_image_name :: string where "default_os_image_name = image_name_prefix @ mex_infra_version"

definition default_cloudlet_vm_image_path :: string where
  "default_cloudlet_vm_image_path = ''https://artifactory.mobiledgex.net/artifactory/baseimages/''"

definition get_cloudlet_vm_image_name :: "string \<Rightarrow> string" where
  "get_cloudlet_vm_image_name v = image_name_prefix @ (if v = '''' then mex_infra_version else v)"

definition get_cloudlet_vm_image_path :: "string \<Rightarrow> string \<Rightarrow> string \<Rightarrow> string" where
  "get_cloudlet_vm_image_path path version suffix =
     (let p0 = (if path \<noteq> '''' then path else default_cloudlet_vm_image_path);
          p1 = (if strings_has_suffix p0 ''/'' then p0 else p0 @ ''/'')
      in p1 @ get_cloudlet_vm_image_name version @ suffix)"

text \<open>
  \<open>GetCloudletImageToUse\<close>: \<open>url_info\<close> is \<open>infracommon.GetUrlInfo\<close> (the checksum of what is at a path) and \<open>add_image\<close>
  the provider's \<open>AddImageIfNotPresent\<close>, given the path, the checksum and the name.  The name is returned with \<open>add_image\<close>'s error.
\<close>

definition get_cloudlet_image_to_use ::
    "(string \<Rightarrow> string + string) \<Rightarrow> (string \<Rightarrow> string \<Rightarrow> string \<Rightarrow> string option) \<Rightarrow> string \<Rightarrow> vm_properties
       \<Rightarrow> string \<times> string option" where
  "get_cloudlet_image_to_use url_info add_image suffix vp =
     (let img = get_cloudlet_os_image vp in
      if img \<noteq> default_os_image_name then (img, None)
      else
        let base = (if vp_image_path vp \<noteq> '''' then default_cloudlet_vm_image_path else vp_image_path vp);
            version = (if vp_image_version vp = '''' then mex_infra_version else vp_image_version vp);
            name = get_cloudlet_vm_image_name version;
            path = get_cloudlet_vm_image_path base version suffix in
        case url_info path of
          Inl e \<Rightarrow> ('''', Some (''unable to get URL info for cloudlet image: '' @ vp_image_path vp @ '' - '' @ e))
        | Inr md5 \<Rightarrow> (name, add_image path md5 name))"

subsection \<open>What a parsed scheme looks like\<close>

lemma delimiter_octet_2:
  assumes "length octs = 4" "delimiter_octet octs = 2"
  shows "octs ! 2 = ''X'' \<and> octs ! 3 \<noteq> ''X''"
proof -
  obtain a b c d where o: "octs = [a, b, c, d]"
    using assms(1) by (auto simp: numeral_eq_Suc length_Suc_conv)
  show ?thesis using assms(2) by (auto simp: o delimiter_octet_def split: if_splits)
qed

lemma delimiter_octet_2_simp:
  "delimiter_octet [a, b, c, d] = 2 \<longleftrightarrow> c = ''X'' \<and> d \<noteq> ''X''"
  by (auto simp: delimiter_octet_def)

text \<open>What every accepted scheme satisfies.\<close>

definition net_spec_ok :: "net_spec_info \<Rightarrow> bool" where
  "net_spec_ok ni \<longleftrightarrow>
     (\<exists>a b d. ni_octets ni = [a, b, ''X'', d] \<and> d \<noteq> ''X'') \<and>
     strings_join (ni_octets ni) ''.'' = ni_network_address ni \<and>
     (\<exists>rest. strings_split (ni_cidr ni) ''/'' = ni_network_address ni # ni_netmask_bits ni # rest) \<and>
     ni_common_internal_mask_bits ni = 16"

lemma two_parts: "\<not> length xs < 2 \<Longrightarrow> \<exists>rest. xs = xs ! 0 # xs ! 1 # rest"
  by (cases xs; cases "tl xs") auto

lemma four_parts: "length xs = 4 \<Longrightarrow> \<exists>a b c d. xs = [a, b, c, d]"
  by (auto simp: numeral_eq_Suc length_Suc_conv)

lemma parse_net_spec_accepts:
  assumes "parse_net_spec s = Inr ni"
  shows "net_spec_ok ni"
proof -
  obtain ni0 where items: "net_spec_items (strings_split s '','') empty_net_spec = Inr ni0" "s \<noteq> ''''" "ni_cidr ni0 \<noteq> ''''"
    using assms by (auto simp: parse_net_spec_def split: if_splits sum.splits)
  define sits where "sits = strings_split (ni_cidr ni0) ''/''"
  define octs where "octs = strings_split (sits ! 0) ''.''"
  have *: "\<not> length sits < 2" "length octs = 4" "delimiter_octet octs = 2"
    "ni_octets ni = octs" "ni_network_address ni = sits ! 0" "ni_netmask_bits ni = sits ! 1"
    "ni_cidr ni = ni_cidr ni0" "ni_common_internal_mask_bits ni = 16"
    using assms items
    by (auto simp: parse_net_spec_def Let_def sits_def octs_def split: if_splits option.splits)
  obtain a b c d where o: "octs = [a, b, c, d]" using four_parts[OF *(2)] by blast
  have x: "c = ''X''" "d \<noteq> ''X''" using *(3) by (auto simp: o delimiter_octet_2_simp)
  have j: "strings_join octs ''.'' = sits ! 0" by (simp add: octs_def strings_join_split)
  obtain rest where r: "sits = sits ! 0 # sits ! 1 # rest" using two_parts[OF *(1)] by blast
  show ?thesis
    unfolding net_spec_ok_def *(4-8) using o x j r by (auto simp: sits_def)
qed

text \<open>
  Note (net\_spec\_letters): the comment on the route speaks of \<open>10.101.x.0/24\<close>; a lower-case x is not accepted, as \<open>ParseNetSpec\<close> compares
  with \<open>X\<close> only.  Several X are accepted, and the route replaces the first of them instead of the third octet.
\<close>

lemma net_spec_letters:
  "parse_net_spec ''cidr=10.101.x.0/24'' = Inl ''invalid network address delimiter'' \<and>
   map_sum id ni_octets (parse_net_spec ''cidr=X.101.X.0/24'') = Inr [''X'', ''101'', ''X'', ''0''] \<and>
   replace_one (CHR ''X'') ''0'' (strings_to_upper ''X.101.X.0'') = ''0.101.X.0''"
  by (intro conjI) code_simp+

subsection \<open>The route of the internal networks\<close>

definition all_digits :: "string \<Rightarrow> bool" where
  "all_digits s \<longleftrightarrow> (\<forall>c\<in>set s. char_digit c \<noteq> None)"

lemma digit_upper: "char_digit c \<noteq> None \<Longrightarrow> char_to_upper c = c \<and> c \<noteq> CHR ''X'' \<and> c \<noteq> CHR ''.''"
  by (auto simp: char_digit_def char_to_upper_def Let_def split: if_splits)

lemma all_digits_upper: "all_digits s \<Longrightarrow> strings_to_upper s = s \<and> CHR ''X'' \<notin> set s"
  unfolding all_digits_def strings_to_upper_def using digit_upper by (metis map_idI)

lemma replace_one_skip: "old \<notin> set pre \<Longrightarrow> replace_one old new (pre @ s) = pre @ replace_one old new s"
  by (induction pre) auto

lemma strings_to_upper_append: "strings_to_upper (s @ t) = strings_to_upper s @ strings_to_upper t"
  by (simp add: strings_to_upper_def)

lemma join_four: "strings_join [a, b, c, d] ''.'' = a @ ''.'' @ b @ ''.'' @ c @ ''.'' @ d"
  by simp

lemma route_of_octets:
  assumes "all_digits a" "all_digits b" "all_digits d"
  shows "replace_one (CHR ''X'') ''0'' (strings_to_upper (strings_join [a, b, ''X'', d] ''.'')) =
         strings_join [a, b, ''0'', d] ''.''"
proof -
  have u: "strings_to_upper ''.'' = ''.''" "strings_to_upper ''X'' = ''X''" by code_simp+
  have "strings_to_upper (strings_join [a, b, ''X'', d] ''.'') = (a @ ''.'' @ b @ ''.'') @ ''X'' @ ''.'' @ d"
    unfolding join_four strings_to_upper_append u using assms all_digits_upper by simp
  moreover have "CHR ''X'' \<notin> set (a @ ''.'' @ b @ ''.'')"
    using assms all_digits_upper by simp
  ultimately show ?thesis unfolding join_four using replace_one_skip by simp
qed

text \<open>
  Note (accepted\_scheme\_routes): the scheme \<open>cidr=a.b.X.d/m\<close> is the only shape that is accepted: four octets, the third the letter X
  and the last not, and a common internal network of 16 bits.  The route to the internal networks is then \<open>a.b.0.d/16\<close> when the other
  octets are decimal (\<open>Openstack_Routes\<close> shows that it covers the subnets).  For the shared
  load balancer of a platform with one common network the route is that network.
\<close>

lemma accepted_scheme_routes:
  assumes "parse_net_spec (get_cloudlet_network_scheme vp) = Inr ni"
  shows "net_spec_ok ni \<and>
     (\<forall>a b x d. ni_octets ni = [a, b, x, d] \<longrightarrow> all_digits a \<longrightarrow> all_digits b \<longrightarrow> all_digits d \<longrightarrow>
        get_internal_network_route vp False = Inr (strings_join [a, b, ''0'', d] ''.'' @ ''/16'')) \<and>
     get_internal_network_route vp True = Inr (ni_common_internal_network_address ni @ ''/16'')"
proof (intro conjI allI impI)
  show ok: "net_spec_ok ni" by (rule parse_net_spec_accepts[OF assms])
  fix a b x d
  assume "ni_octets ni = [a, b, x, d]" and d: "all_digits a" "all_digits b" "all_digits d"
  then have addr: "ni_network_address ni = strings_join [a, b, ''X'', d] ''.''"
    using ok by (auto simp: net_spec_ok_def)
  then show "get_internal_network_route vp False = Inr (strings_join [a, b, ''0'', d] ''.'' @ ''/16'')"
    using assms route_of_octets[OF d] by (simp add: get_internal_network_route_def)
next
  show "get_internal_network_route vp True = Inr (ni_common_internal_network_address ni @ ''/16'')"
    using assms by (simp add: get_internal_network_route_def)
qed

definition plain_properties :: "(string \<Rightarrow> string) \<Rightarrow> vm_properties" where
  "plain_properties vals =
     \<lparr>vp_value = vals, vp_shared_root_lb = ''shared.lb'', vp_cloudlet_secgrp = ''site-cloudlet-sg'', vp_use_secgrp_internal = True,
      vp_common_shared_net = False, vp_platform_ext_net = [], vp_cleanup_retries = 1, vp_region = ''EU'', vp_deployment_tag = ''main'',
      vp_chef_server_path = ''https://chef'', vp_dns_zone = ''example.net'', vp_test_mode = True, vp_image_path = [],
      vp_image_version = []\<rparr>"

lemma accepted_scheme_routes_witness:
  "get_internal_network_route (plain_properties (\<lambda>_. ''cidr=10.101.X.0/24,VnicType=direct'')) False = Inr ''10.101.0.0/16''"
proof -
  let ?vp = "plain_properties (\<lambda>_. ''cidr=10.101.X.0/24,VnicType=direct'')"
  have split: "strings_split ''cidr=10.101.X.0/24,VnicType=direct'' '','' = [''cidr=10.101.X.0/24'', ''VnicType=direct'']"
    "strings_split ''cidr=10.101.X.0/24'' ''='' = [''cidr'', ''10.101.X.0/24'']"
    "strings_split ''VnicType=direct'' ''='' = [''VnicType'', ''direct'']"
    "strings_split ''10.101.X.0/24'' ''/'' = [''10.101.X.0'', ''24'']"
    "strings_split ''10.201.0.0/16'' ''/'' = [''10.201.0.0'', ''16'']"
    "strings_split ''10.101.X.0'' ''.'' = [''10'', ''101'', ''X'', ''0'']"
    "strings_to_lower ''cidr'' = ''cidr''" "strings_to_lower ''VnicType'' = ''vnictype''"
    "strconv_atoi ''16'' = Some 16"
    by code_simp+
  have p: "parse_net_spec (get_cloudlet_network_scheme ?vp) =
    Inr (empty_net_spec\<lparr>ni_cidr := ''10.101.X.0/24'', ni_vnic_type := ''direct'', ni_network_address := ''10.101.X.0'',
      ni_netmask_bits := ''24'', ni_common_internal_cidr := common_internal_cidr_default,
      ni_common_internal_network_address := ''10.201.0.0'', ni_common_internal_mask_bits := 16,
      ni_octets := [''10'', ''101'', ''X'', ''0''], ni_delimiter_octet := 2\<rparr>)"
    by (simp add: plain_properties_def get_cloudlet_network_scheme_def parse_net_spec_def net_spec_item_def split
        supported_schemes_def empty_net_spec_def common_internal_cidr_default_def delimiter_octet_def Let_def)
  have d: "all_digits ''10'' \<and> all_digits ''101'' \<and> all_digits ''0''" by code_simp
  show ?thesis using accepted_scheme_routes[OF p] d by simp
qed

subsection \<open>Masks and ranges\<close>

lemma mask_octets_value: "n \<le> 32 \<Longrightarrow> fold (\<lambda>o' acc. acc * 256 + o') (mask_octets n) 0 = (2::nat) ^ 32 - 2 ^ (32 - n)"
proof -
  assume "n \<le> 32"
  then have "n \<in> set [0..<33]" by simp
  then show ?thesis by (auto simp: upt_rec mask_octets_def)
qed

lemma metal_lb_range_bounds: "get_metal_lb_range vp = Inr (s, e) \<Longrightarrow> 1 \<le> s \<and> s \<le> e \<and> e \<le> 255"
  by (auto simp: get_metal_lb_range_def Let_def split: if_splits list.splits option.splits)

text \<open>
  Note (metal\_lb\_range\_is\_last\_octet): the property is named and described as a range of third octets; the code sets the last octet of the
  master's address.  An IPv6 address of the master would panic (\<open>To4\<close> is nil and is indexed).
\<close>

lemma metal_lb_range_is_last_octet:
  "get_metal_lb_range_from_master_ip (\<lambda>_. Some (IPv4 10 101 3 10)) (plain_properties (\<lambda>_. ''200-250'')) m =
     Returns [''10.101.3.200-10.101.3.250''] \<and>
   get_metal_lb_range_from_master_ip (\<lambda>_. Some (IPv6 ''::1'')) (plain_properties (\<lambda>_. ''200-250'')) m = Panics"
proof -
  have parts: "strings_split ''200-250'' ''-'' = [''200'', ''250'']"
    "parse_digits 0 ''200'' = Some 200" "parse_digits 0 ''250'' = Some 250" by code_simp+
  have r: "get_metal_lb_range (plain_properties (\<lambda>_. ''200-250'')) = Inr (200, 250)"
    by (simp add: get_metal_lb_range_def plain_properties_def strconv_parse_uint_def parts del: parse_digits.simps)
  have d: "dotted [10, 101, 3, 200] = ''10.101.3.200''" "dotted [10, 101, 3, 250] = ''10.101.3.250''" by code_simp+
  show ?thesis by (simp add: get_metal_lb_range_from_master_ip_def r d)
qed

text \<open>
  Note.  \<open>GetCloudletImageToUse\<close> sets the base path to the default when one is configured, so the configured path of images is never
  used: the answer does not depend on it.
\<close>

lemma configured_image_path_is_ignored:
  "get_cloudlet_image_to_use (\<lambda>p. Inr (md5 p)) add suffix (vp\<lparr>vp_image_path := p\<rparr>) =
   get_cloudlet_image_to_use (\<lambda>p. Inr (md5 p)) add suffix vp"
proof -
  have same: "get_cloudlet_vm_image_path default_cloudlet_vm_image_path v suffix = get_cloudlet_vm_image_path [] v suffix" for v
    unfolding get_cloudlet_vm_image_path_def by (cases "default_cloudlet_vm_image_path = []") (simp_all only: if_True if_False HOL.not_not simp_thms)
  show ?thesis
    unfolding get_cloudlet_image_to_use_def get_cloudlet_os_image_def Let_def
    by (cases "p = []"; cases "vp_image_path vp = []") (simp_all add: same)
qed

end
