(* ===== verification/VMLayer_Params.thy ===== *)
theory VMLayer_Params
  imports VMLayer_Props
begin

text \<open>
  \<open>src/vmlayer/vmparams.go\<close>: the requests for VMs (\<open>VMRequestSpec\<close>, \<open>VMGroupRequestSpec\<close>, built by options) and the parameters of the
  orchestrator that are made from them: subnets, ports, security groups, floating IPs, router interfaces and VMs of a group, which refer to
  each other by name.  The provider's functions, the parsing of port lists and Go's order of ranging over a map are the record \<open>vm_provider\<close>.
  Chef parameters are shared pointers in the source: they are indices into a \<open>chef_heap\<close>.
\<close>

subsection \<open>Names and references\<close>

text \<open>The node types of the edge-cloud library that the source names.\<close>

datatype node_type =
    NT_Platform_VM | NT_Shared_Root_LB | NT_Dedicated_Root_LB | NT_App_VM
  | NT_Platform_K8s_Master | NT_K8s_Master | NT_Docker_Node
  | NT_Platform_K8s_Primary | NT_Platform_K8s_Secondary | NT_K8s_Node | NT_Other int

type_synonym vmrole = string

definition role_agent :: vmrole where "role_agent = ''mex-agent-node''"
definition role_master :: vmrole where "role_master = ''k8s-master''"
definition role_k8s_node :: vmrole where "role_k8s_node = ''k8s-node''"
definition role_docker_node :: vmrole where "role_docker_node = ''docker-node''"
definition role_vm_application :: vmrole where "role_vm_application = ''vmapp''"
definition role_vm_platform :: vmrole where "role_vm_platform = ''platform''"

lemmas role_defs = role_agent_def role_master_def role_k8s_node_def role_docker_node_def
  role_vm_application_def role_vm_platform_def

definition next_available :: string where "next_available = ''NextAvailable''"

definition get_node_type_for_vm :: "vm_properties \<Rightarrow> string \<Rightarrow> vmrole \<Rightarrow> node_type" where
  "get_node_type_for_vm vp vmname r =
     (if r = role_agent then (if vp_shared_root_lb vp = vmname then NT_Shared_Root_LB else NT_Dedicated_Root_LB)
      else if r = role_master then NT_K8s_Master
      else if r = role_k8s_node then NT_K8s_Node
      else if r = role_docker_node then NT_Docker_Node
      else if r = role_vm_application then NT_App_VM
      else if r = role_vm_platform then NT_Platform_VM
      else NT_Other (-1))"

definition get_port_name :: "string \<Rightarrow> string \<Rightarrow> string" where
  "get_port_name vmname netname = vmname @ ''-'' @ netname @ ''-port''"

record resource_ref =
  rr_name :: string
  rr_id :: string
  rr_preexisting :: bool

definition new_resource_ref :: "string \<Rightarrow> string \<Rightarrow> bool \<Rightarrow> resource_ref" where
  "new_resource_ref n i pre = \<lparr>rr_name = n, rr_id = i, rr_preexisting = pre\<rparr>"

record port_ref =
  pr_name :: string
  pr_id :: string
  pr_network_id :: string
  pr_subnet_id :: string
  pr_preexisting :: bool
  pr_net_type :: network_type

definition new_port_ref :: "string \<Rightarrow> string \<Rightarrow> string \<Rightarrow> string \<Rightarrow> bool \<Rightarrow> network_type \<Rightarrow> port_ref" where
  "new_port_ref n i net sub pre t =
     \<lparr>pr_name = n, pr_id = i, pr_network_id = net, pr_subnet_id = sub, pr_preexisting = pre, pr_net_type = t\<rparr>"

subsection \<open>Requests\<close>

record route =
  ro_destination_cidr :: string
  ro_next_hop_ip :: string

datatype vm_os = OS_Linux | OS_Other nat   \<comment> \<open>\<open>OS_Other 0\<close> is the zero value\<close>

record server_chef =
  sc_node_name :: string
  sc_server_path :: string
  sc_client_key :: string
  sc_attributes :: nat           \<comment> \<open>an index into \<open>ch_attrs\<close>: a Go map is a reference\<close>
  sc_policy_name :: string
  sc_policy_group :: string

record chef_heap =
  ch_params :: "server_chef list"
  ch_attrs :: "string list list"  \<comment> \<open>the \<open>tags\<close> of an attribute map\<close>

record vm_request_spec =
  vr_name :: string
  vr_type :: node_type
  vr_flavor_name :: string
  vr_image_name :: string
  vr_image_folder :: string
  vr_compute_az :: string
  vr_auth_public_key :: string
  vr_external_volume :: nat
  vr_shared_volume :: nat
  vr_deployment_manifest :: string
  vr_command :: string
  vr_connect_external :: bool
  vr_create_ports_only :: bool
  vr_connect_subnet :: string
  vr_chef :: "nat option"
  vr_optional_resource :: string
  vr_access_key :: string
  vr_additional_networks :: "(string, network_type) gmap"
  vr_routes :: "(string, route list) gmap"
  vr_os_type :: vm_os

definition empty_vm_request :: vm_request_spec where
  "empty_vm_request =
     \<lparr>vr_name = '''', vr_type = NT_Other 0, vr_flavor_name = '''', vr_image_name = '''', vr_image_folder = '''', vr_compute_az = '''',
      vr_auth_public_key = '''', vr_external_volume = 0, vr_shared_volume = 0, vr_deployment_manifest = '''', vr_command = '''',
      vr_connect_external = False, vr_create_ports_only = False, vr_connect_subnet = '''', vr_chef = None, vr_optional_resource = '''',
      vr_access_key = '''', vr_additional_networks = [], vr_routes = [], vr_os_type = OS_Other 0\<rparr>"

type_synonym vm_req_op = "vm_request_spec \<Rightarrow> string + vm_request_spec"

definition with_public_key :: "(string \<Rightarrow> string + string) \<Rightarrow> string \<Rightarrow> vm_req_op" where
  "with_public_key convert key vr =
     (if key = '''' then Inr vr
      else case convert key of Inl e \<Rightarrow> Inl e | Inr k \<Rightarrow> Inr (vr\<lparr>vr_auth_public_key := k\<rparr>))"

definition with_deployment_manifest :: "string \<Rightarrow> vm_req_op" where
  "with_deployment_manifest m vr = Inr (vr\<lparr>vr_deployment_manifest := m\<rparr>)"

definition with_command :: "string \<Rightarrow> vm_req_op" where
  "with_command c vr = Inr (vr\<lparr>vr_command := c\<rparr>)"

definition with_compute_az :: "string \<Rightarrow> vm_req_op" where
  "with_compute_az z vr = Inr (vr\<lparr>vr_compute_az := z\<rparr>)"

definition with_external_volume :: "nat \<Rightarrow> vm_req_op" where
  "with_external_volume n vr = Inr (vr\<lparr>vr_external_volume := n\<rparr>)"

definition with_shared_volume :: "nat \<Rightarrow> vm_req_op" where
  "with_shared_volume n vr = Inr (vr\<lparr>vr_shared_volume := n\<rparr>)"

definition with_subnet_connection :: "string \<Rightarrow> vm_req_op" where
  "with_subnet_connection n vr = Inr (vr\<lparr>vr_connect_subnet := n\<rparr>)"

definition with_create_ports_only :: "bool \<Rightarrow> vm_req_op" where
  "with_create_ports_only b vr = Inr (vr\<lparr>vr_create_ports_only := b\<rparr>)"

definition with_image_folder :: "string \<Rightarrow> vm_req_op" where
  "with_image_folder f vr = Inr (vr\<lparr>vr_image_folder := f\<rparr>)"

definition with_chef_params :: "nat \<Rightarrow> vm_req_op" where
  "with_chef_params p vr = Inr (vr\<lparr>vr_chef := Some p\<rparr>)"

definition with_optional_resource :: "string \<Rightarrow> vm_req_op" where
  "with_optional_resource r vr = Inr (vr\<lparr>vr_optional_resource := r\<rparr>)"

definition with_access_key :: "string \<Rightarrow> vm_req_op" where
  "with_access_key k vr = Inr (vr\<lparr>vr_access_key := k\<rparr>)"

definition with_additional_networks :: "(string, network_type) gmap \<Rightarrow> vm_req_op" where
  "with_additional_networks ns vr = Inr (vr\<lparr>vr_additional_networks := ns\<rparr>)"

definition with_routes :: "(string, route list) gmap \<Rightarrow> vm_req_op" where
  "with_routes rs vr = Inr (vr\<lparr>vr_routes := rs\<rparr>)"

definition with_vm_app_os_type :: "vm_os \<Rightarrow> vm_req_op" where
  "with_vm_app_os_type t vr = Inr (vr\<lparr>vr_os_type := t\<rparr>)"

fun apply_ops :: "('a \<Rightarrow> string + 'a) list \<Rightarrow> 'a \<Rightarrow> string + 'a" where
  "apply_ops [] a = Inr a"
| "apply_ops (f # fs) a = (case f a of Inl e \<Rightarrow> Inl e | Inr a' \<Rightarrow> apply_ops fs a')"

definition get_vm_request_spec ::
    "node_type \<Rightarrow> string \<Rightarrow> string \<Rightarrow> string \<Rightarrow> bool \<Rightarrow> vm_req_op list \<Rightarrow> string + vm_request_spec" where
  "get_vm_request_spec nt server flavor img ext ops =
     (case apply_ops ops empty_vm_request of
        Inl e \<Rightarrow> Inl e
      | Inr vr \<Rightarrow> Inr (vr\<lparr>vr_name := server, vr_type := nt, vr_flavor_name := flavor, vr_image_name := img,
                           vr_connect_external := ext\<rparr>))"

record security_rule =
  sr_protocol :: string
  sr_port_min :: nat
  sr_port_max :: nat
  sr_remote_cidr :: string

record vm_group_request =
  gr_name :: string
  gr_vms :: "vm_request_spec list"
  gr_new_subnet :: string
  gr_new_secgrp :: string
  gr_access_ports :: string
  gr_access_cidr :: string
  gr_trust_policy :: "security_rule list option"   \<comment> \<open>its outbound rules\<close>
  gr_skip_default_secgrp :: bool
  gr_skip_subnet_gateway :: bool
  gr_skip_infra_check :: bool
  gr_init_orchestrator :: bool
  gr_chef_update :: "(string, string) gmap option"
  gr_skip_cleanup :: bool
  gr_anti_affinity :: bool

definition empty_group_request :: vm_group_request where
  "empty_group_request =
     \<lparr>gr_name = '''', gr_vms = [], gr_new_subnet = '''', gr_new_secgrp = '''', gr_access_ports = '''', gr_access_cidr = '''',
      gr_trust_policy = None, gr_skip_default_secgrp = False, gr_skip_subnet_gateway = False, gr_skip_infra_check = False,
      gr_init_orchestrator = False, gr_chef_update = None, gr_skip_cleanup = False, gr_anti_affinity = False\<rparr>"

type_synonym vm_group_op = "vm_group_request \<Rightarrow> string + vm_group_request"

definition with_trust_policy :: "security_rule list option \<Rightarrow> vm_group_op" where
  "with_trust_policy p g = Inr (g\<lparr>gr_trust_policy := p\<rparr>)"

definition with_access_ports :: "string \<Rightarrow> string \<Rightarrow> vm_group_op" where
  "with_access_ports ports cidr g = Inr (g\<lparr>gr_access_ports := ports, gr_access_cidr := cidr\<rparr>)"

definition with_new_subnet :: "string \<Rightarrow> vm_group_op" where
  "with_new_subnet n g = Inr (g\<lparr>gr_new_subnet := n\<rparr>)"

definition with_new_security_group :: "string \<Rightarrow> vm_group_op" where
  "with_new_security_group n g = Inr (g\<lparr>gr_new_secgrp := n\<rparr>)"

definition with_skip_default_secgrp :: "bool \<Rightarrow> vm_group_op" where
  "with_skip_default_secgrp b g = Inr (g\<lparr>gr_skip_default_secgrp := b\<rparr>)"

definition with_skip_subnet_gateway :: "bool \<Rightarrow> vm_group_op" where
  "with_skip_subnet_gateway b g = Inr (g\<lparr>gr_skip_subnet_gateway := b\<rparr>)"

definition with_skip_infra_check :: "bool \<Rightarrow> vm_group_op" where
  "with_skip_infra_check b g = Inr (g\<lparr>gr_skip_infra_check := b\<rparr>)"

definition with_init_orchestrator :: "bool \<Rightarrow> vm_group_op" where
  "with_init_orchestrator b g = Inr (g\<lparr>gr_init_orchestrator := b\<rparr>)"

definition with_chef_update_info :: "(string, string) gmap option \<Rightarrow> vm_group_op" where
  "with_chef_update_info i g = Inr (g\<lparr>gr_chef_update := i\<rparr>)"

definition with_skip_cleanup_on_failure :: "bool \<Rightarrow> vm_group_op" where
  "with_skip_cleanup_on_failure b g = Inr (g\<lparr>gr_skip_cleanup := b\<rparr>)"

definition with_anti_affinity :: "bool \<Rightarrow> vm_group_op" where
  "with_anti_affinity b g = Inr (g\<lparr>gr_anti_affinity := b\<rparr>)"

definition get_vm_group_request_spec ::
    "string \<Rightarrow> vm_request_spec list \<Rightarrow> vm_group_op list \<Rightarrow> string + vm_group_request" where
  "get_vm_group_request_spec n vms ops = apply_ops ops (empty_group_request\<lparr>gr_name := n, gr_vms := vms\<rparr>)"

subsection \<open>Parameters of the orchestrator\<close>

record subnet_orch =
  so_id :: string
  so_name :: string
  so_network_name :: string
  so_cidr :: string
  so_node_ip_prefix :: string
  so_gateway_ip :: string
  so_dns_servers :: "string list"
  so_dhcp_enabled :: string
  so_skip_gateway :: bool
  so_secgrp_name :: string

record fixed_ip =
  fi_last_octet :: nat
  fi_address :: string
  fi_subnet :: resource_ref

record port_orch =
  po_name :: string
  po_id :: string
  po_subnet_id :: string
  po_network_name :: string
  po_network_id :: string
  po_net_type :: network_type
  po_vnic_type :: string
  po_skip_attach :: bool
  po_fixed_ips :: "fixed_ip list"
  po_secgrps :: "resource_ref list"
  po_additional_external :: bool

record fip_orch =
  fo_name :: string
  fo_param_name :: string
  fo_port :: resource_ref
  fo_floating_ip_id :: string

record router_if_orch =
  ri_router_name :: string
  ri_router_port :: resource_ref

record port_spec =
  ps_proto :: string
  ps_port :: string
  ps_end_port :: string

record secgrp_orch =
  sg_name :: string
  sg_access_ports :: "port_spec list"
  sg_remote_cidr :: string
  sg_egress :: "security_rule list"

record volume_orch =
  vo_name :: string
  vo_image_name :: string
  vo_size :: nat
  vo_az :: string
  vo_device_name :: string
  vo_unit_number :: nat

record cloud_config =
  cc_boot_commands :: "string list"
  cc_chef :: "nat option"
  cc_ca_cert :: string
  cc_access_key :: string
  cc_primary_dns :: string
  cc_fallback_dns :: string
  cc_ntp_servers :: string

record vm_orch =
  vx_id :: string
  vx_name :: string
  vx_role :: vmrole
  vx_image_name :: string
  vx_image_folder :: string
  vx_host_name :: string
  vx_dns_domain :: string
  vx_flavor_name :: string
  vx_compute_az :: string
  vx_user_data :: string
  vx_meta_data :: string
  vx_shared_volume :: bool
  vx_deployment_manifest :: string
  vx_command :: string
  vx_volumes :: "volume_orch list"
  vx_ports :: "port_ref list"
  vx_fixed_ips :: "fixed_ip list"
  vx_attach_external_disk :: bool
  vx_config :: cloud_config
  vx_os_type :: vm_os
  vx_routes :: "(string, route list) gmap"

record vm_group_orch =
  vg_name :: string
  vg_subnets :: "subnet_orch list"
  vg_ports :: "port_orch list"
  vg_router_ifs :: "router_if_orch list"
  vg_vms :: "vm_orch list"
  vg_fips :: "fip_orch list"
  vg_secgrps :: "secgrp_orch list"
  vg_netspec :: "net_spec_info option"
  vg_skip_infra_check :: bool
  vg_init_orchestrator :: bool
  vg_chef_update :: "(string, string) gmap option"
  vg_shared_root_lb :: bool
  vg_skip_cleanup :: bool
  vg_anti_affinity :: bool
  vg_anti_affinity_enabled :: bool

definition attach_port_not_supported :: string where "attach_port_not_supported = ''AttachPortNotSupported''"
definition attach_port_during_create :: string where "attach_port_during_create = ''AttachPortDuringCreate''"
definition attach_port_after_create :: string where "attach_port_after_create = ''AttachPortAfterCreate''"

record vm_provider =
  pv_name_sanitize :: "string \<Rightarrow> string"
  pv_id_sanitize :: "string \<Rightarrow> string"
  pv_secgrp_id :: "string \<Rightarrow> string + string"       \<comment> \<open>\<open>GetResourceID\<close> of a security group\<close>
  pv_internal_port_policy :: string
  pv_validate_networks :: "(string, network_type) gmap \<Rightarrow> string option"
  pv_ssh_public_key :: "string + string"
  pv_hostname_sanitize :: "string \<Rightarrow> string"
  pv_parse_ports :: "string \<Rightarrow> string + port_spec list"
  pv_base64 :: "string \<Rightarrow> string"                     \<comment> \<open>the standard encoding of \<open>encoding/base64\<close>\<close>
  pv_range :: "nat \<Rightarrow> (string, network_type) gmap \<Rightarrow> (string, network_type) gmap"
    \<comment> \<open>the order in which the networks of the n-th VM are ranged over\<close>

subsection \<open>Security groups\<close>

definition remote_cidr_all :: string where "remote_cidr_all = ''0.0.0.0/0''"
definition remote_cidr_none :: string where "remote_cidr_none = ''0.0.0.0/32''"

definition any_protocol_rule :: "string \<Rightarrow> security_rule" where
  "any_protocol_rule cidr = \<lparr>sr_protocol = '''', sr_port_min = 0, sr_port_max = 0, sr_remote_cidr = cidr\<rparr>"

type_synonym secgrp_op = "secgrp_orch \<Rightarrow> string + secgrp_orch"

definition secgrp_with_egress_rules :: "security_rule list \<Rightarrow> bool \<Rightarrow> secgrp_op" where
  "secgrp_with_egress_rules rules restricted sg =
     Inr (sg\<lparr>sg_egress :=
       (if rules = [] then [any_protocol_rule (if restricted then remote_cidr_none else remote_cidr_all)] else rules)\<rparr>)"

text \<open>\<open>strconv.ParseInt(s, 10, 32)\<close>.\<close>

definition strconv_parse_int32 :: "string \<Rightarrow> int option" where
  "strconv_parse_int32 s =
     (case strconv_atoi s of None \<Rightarrow> None | Some i \<Rightarrow> if - (2 ^ 31) \<le> i \<and> i < 2 ^ 31 then Some i else None)"

fun add_access_ports :: "port_spec list \<Rightarrow> secgrp_op" where
  "add_access_ports [] sg = Inr sg"
| "add_access_ports (p # ps) sg =
     (case strconv_parse_int32 (ps_end_port p) of
        None \<Rightarrow> Inl ''invalid end port''
      | Some e \<Rightarrow>
          let p' = (if e = 0 then p\<lparr>ps_end_port := ps_port p\<rparr> else p)
          in add_access_ports ps (sg\<lparr>sg_access_ports := sg_access_ports sg @ [p']\<rparr>))"

definition secgrp_with_access_ports :: "vm_provider \<Rightarrow> string \<Rightarrow> string \<Rightarrow> secgrp_op" where
  "secgrp_with_access_ports pv ports cidr sg =
     (if ports = '''' then Inr sg
      else case pv_parse_ports pv ports of
          Inl e \<Rightarrow> Inl e
        | Inr ps \<Rightarrow> add_access_ports ps (sg\<lparr>sg_remote_cidr := cidr\<rparr>))"

definition get_secgrp_params :: "string \<Rightarrow> secgrp_op list \<Rightarrow> string + secgrp_orch" where
  "get_secgrp_params n ops =
     apply_ops ops \<lparr>sg_name = n, sg_access_ports = [], sg_remote_cidr = '''', sg_egress = []\<rparr>"

definition empty_group_orch :: vm_group_orch where
  "empty_group_orch =
     \<lparr>vg_name = '''', vg_subnets = [], vg_ports = [], vg_router_ifs = [], vg_vms = [], vg_fips = [], vg_secgrps = [],
      vg_netspec = None, vg_skip_infra_check = False, vg_init_orchestrator = False, vg_chef_update = None,
      vg_shared_root_lb = False, vg_skip_cleanup = False, vg_anti_affinity = False, vg_anti_affinity_enabled = False\<rparr>"

definition group_params_from_trust_policy ::
    "string \<Rightarrow> security_rule list \<Rightarrow> bool \<Rightarrow> secgrp_op list \<Rightarrow> string + vm_group_orch" where
  "group_params_from_trust_policy n rules restricted ops =
     (case get_secgrp_params n (ops @ [secgrp_with_egress_rules rules restricted]) of
        Inl e \<Rightarrow> Inl e
      | Inr sg \<Rightarrow> Inr (empty_group_orch\<lparr>vg_secgrps := [sg]\<rparr>))"

subsection \<open>The parts of a group\<close>

definition connects_to_shared_root_lb :: "vm_group_request \<Rightarrow> bool" where
  "connects_to_shared_root_lb g \<longleftrightarrow> (\<exists>v\<in>set (gr_vms g). vr_type v = NT_Shared_Root_LB \<and> vr_create_ports_only v)"

text \<open>Everything the code computes once per group and uses for each VM.\<close>

record group_ctx =
  gc_secgrp_id :: string           \<comment> \<open>\<open>cloudletSecGrpID\<close>\<close>
  gc_netspec :: net_spec_info
  gc_router_used :: bool           \<comment> \<open>\<open>rtrInUse\<close>; also when \<open>internalSecgrpID\<close> is set\<close>
  gc_internal_type :: network_type
  gc_dns :: "string list"
  gc_ca_cert :: string

definition router_in_use :: "vm_properties \<Rightarrow> vm_group_request \<Rightarrow> bool" where
  "router_in_use vp g \<longleftrightarrow>
     get_cloudlet_external_router vp \<noteq> no_config_external_router \<and>
     get_cloudlet_external_router vp \<noteq> no_external_router \<and> gr_new_subnet g \<noteq> ''''"

definition router_port :: "vm_provider \<Rightarrow> vm_properties \<Rightarrow> vm_group_request \<Rightarrow> string \<Rightarrow> port_orch" where
  "router_port pv vp g sgid =
     \<lparr>po_name = gr_new_subnet g @ ''-rtr-port'', po_id = pv_id_sanitize pv (gr_new_subnet g @ ''-rtr-port''),
      po_subnet_id = pv_id_sanitize pv (gr_new_subnet g), po_network_name = get_cloudlet_mex_network vp,
      po_network_id = pv_id_sanitize pv (get_cloudlet_mex_network vp), po_net_type = '''', po_vnic_type = '''',
      po_skip_attach = False,
      po_fixed_ips = [\<lparr>fi_last_octet = 1, fi_address = next_available,
                       fi_subnet = new_resource_ref (gr_new_subnet g) (gr_new_subnet g) False\<rparr>],
      po_secgrps = [new_resource_ref sgid sgid True], po_additional_external = False\<rparr>"

definition router_interface :: "vm_properties \<Rightarrow> vm_group_request \<Rightarrow> router_if_orch" where
  "router_interface vp g =
     \<lparr>ri_router_name = get_cloudlet_external_router vp,
      ri_router_port = new_resource_ref (gr_new_subnet g @ ''-rtr-port'') (gr_new_subnet g @ ''-rtr-port'') False\<rparr>"

definition new_subnet :: "vm_provider \<Rightarrow> vm_properties \<Rightarrow> vm_group_request \<Rightarrow> string list \<Rightarrow> subnet_orch" where
  "new_subnet pv vp g dns =
     \<lparr>so_id = pv_id_sanitize pv (gr_new_subnet g), so_name = gr_new_subnet g,
      so_network_name = get_cloudlet_mex_network vp, so_cidr = next_available, so_node_ip_prefix = '''', so_gateway_ip = '''',
      so_dns_servers = dns,
      so_dhcp_enabled =
        (if (\<exists>v\<in>set (gr_vms g). vr_type v = NT_App_VM) \<and> get_vm_app_subnet_dhcp_enabled vp \<noteq> ''no'' then ''yes'' else ''no''),
      so_skip_gateway = gr_skip_subnet_gateway g, so_secgrp_name = gr_new_secgrp g\<rparr>"

text \<open>The internal port of a VM: what all types of nodes have in common.\<close>

definition internal_port ::
    "vm_provider \<Rightarrow> vm_properties \<Rightarrow> vm_group_request \<Rightarrow> group_ctx \<Rightarrow> vm_request_spec \<Rightarrow> nat \<Rightarrow> port_orch" where
  "internal_port pv vp g gc v octet =
     (let name = get_port_name (vr_name v) (vr_connect_subnet v) in
      \<lparr>po_name = name, po_id = pv_name_sanitize pv name, po_subnet_id = pv_name_sanitize pv (gr_new_subnet g),
       po_network_name = get_cloudlet_mex_network vp, po_network_id = pv_name_sanitize pv (get_cloudlet_mex_network vp),
       po_net_type = gc_internal_type gc, po_vnic_type = ni_vnic_type (gc_netspec gc), po_skip_attach = False,
       po_fixed_ips = [\<lparr>fi_last_octet = octet, fi_address = next_available,
          fi_subnet = new_resource_ref (vr_connect_subnet v) (vr_connect_subnet v)
                        (vr_connect_subnet v \<noteq> '''' \<and> gr_new_subnet g \<noteq> vr_connect_subnet v)\<rparr>],
       po_secgrps = [], po_additional_external = False\<rparr>)"

text \<open>The security groups of a k8s or docker node's internal port.\<close>

definition node_secgrps :: "vm_properties \<Rightarrow> vm_group_request \<Rightarrow> group_ctx \<Rightarrow> resource_ref list" where
  "node_secgrps vp g gc =
     (if vp_use_secgrp_internal vp
      then new_resource_ref (gc_secgrp_id gc) (gc_secgrp_id gc) True #
           (if gr_new_secgrp g \<noteq> '''' then [new_resource_ref (gr_new_secgrp g) (gr_new_secgrp g) False] else [])
      else [])"

text \<open>
  The switch over the node type: the role, the internal ports, and the next octet to give out (\<open>internalPortNextOctet\<close>).
\<close>

definition vm_role_and_ports ::
    "vm_provider \<Rightarrow> vm_properties \<Rightarrow> vm_group_request \<Rightarrow> group_ctx \<Rightarrow> nat \<Rightarrow> vm_request_spec
       \<Rightarrow> string + vmrole \<times> port_orch list \<times> nat" where
  "vm_role_and_ports pv vp g gc next v =
     (let name = get_port_name (vr_name v) (vr_connect_subnet v);
          connected = (vr_connect_subnet v \<noteq> '''') in
      if vr_type v \<in> {NT_Platform_VM, NT_Shared_Root_LB, NT_Dedicated_Root_LB} then
        (let during = (pv_internal_port_policy pv = attach_port_during_create);
             p = (internal_port pv vp g gc v 1)
                   \<lparr>po_subnet_id := (if during then pv_name_sanitize pv (gr_new_subnet g) else ''''),
                    po_skip_attach := \<not> during\<rparr>
         in Inr (role_agent, if connected \<and> \<not> gc_router_used gc then [p] else [], next))
      else if vr_type v = NT_App_VM then
        (if connected then Inr (role_vm_application, [internal_port pv vp g gc v next], Suc next)
         else Inr (role_vm_application, [], next))
      else if vr_type v \<in> {NT_Platform_K8s_Master, NT_K8s_Master} then
        (if connected
         then Inr (role_master,
                   [(internal_port pv vp g gc v 10)\<lparr>po_vnic_type := '''', po_secgrps := node_secgrps vp g gc\<rparr>], next)
         else Inl ''k8s master not specified to be connected to internal network'')
      else if vr_type v \<in> {NT_Docker_Node, NT_Platform_K8s_Primary, NT_Platform_K8s_Secondary, NT_K8s_Node} then
        (if connected
         then Inr (if vr_type v = NT_Docker_Node then role_docker_node else role_k8s_node,
                   [(internal_port pv vp g gc v next)
                      \<lparr>po_id := pv_id_sanitize pv name, po_secgrps := node_secgrps vp g gc\<rparr>], Suc next)
         else Inl ''k8s node not specified to be connected to internal network'')
      else Inl ''unexpected VM type'')"

definition add_internal_secgrp :: "group_ctx \<Rightarrow> port_orch \<Rightarrow> port_orch" where
  "add_internal_secgrp gc p =
     (if gc_router_used gc \<and> gc_secgrp_id gc \<noteq> ''''
      then p\<lparr>po_secgrps := po_secgrps p @ [new_resource_ref (gc_secgrp_id gc) (gc_secgrp_id gc) True]\<rparr> else p)"

definition external_networks ::
    "vm_provider \<Rightarrow> vm_properties \<Rightarrow> vm_request_spec \<Rightarrow> string + (string, network_type) gmap" where
  "external_networks pv vp v =
     (let prim = (if vr_connect_external v then [(get_cloudlet_external_network vp, nt_external_primary)] else []) in
      if vr_additional_networks v = [] then Inr prim
      else case pv_validate_networks pv (vr_additional_networks v) of
          Some e \<Rightarrow> Inl e
        | None \<Rightarrow> Inr (fold (\<lambda>(net, t). gput net t) (vr_additional_networks v) prim))"

definition external_port ::
    "vm_provider \<Rightarrow> vm_group_request \<Rightarrow> group_ctx \<Rightarrow> nat \<Rightarrow> vm_request_spec \<Rightarrow> string \<times> network_type
       \<Rightarrow> string + port_orch \<times> fip_orch list" where
  "external_port pv g gc i v nt =
     (let (netname, t) = nt; pname = get_port_name (vr_name v) netname; ni = gc_netspec gc in
      if gr_new_secgrp g = '''' \<and> t = nt_external_primary
      then Inl (''primary external network specified with no security group: '' @ vr_name v)
      else
        let use_cloudlet = (gr_new_secgrp g = '''');
            sgs = (if gr_new_secgrp g \<noteq> '''' then [new_resource_ref (gr_new_secgrp g) (gr_new_secgrp g) False] else []) @
                  (if use_cloudlet \<or> \<not> gr_skip_default_secgrp g
                   then [new_resource_ref (gc_secgrp_id gc) (gc_secgrp_id gc) True] else []);
            fipnet = ni_floating_ip_net ni;
            port = \<lparr>po_name = pname,
                    po_id = (if fipnet \<noteq> '''' then pv_name_sanitize pv pname else pv_id_sanitize pv pname),
                    po_subnet_id = '''',
                    po_network_name = (if fipnet \<noteq> '''' then fipnet else netname),
                    po_network_id = (if fipnet \<noteq> '''' then pv_name_sanitize pv fipnet else pv_id_sanitize pv netname),
                    po_net_type = t, po_vnic_type = ni_vnic_type ni, po_skip_attach = False, po_fixed_ips = [],
                    po_secgrps = sgs, po_additional_external = (t \<noteq> nt_external_primary)\<rparr>;
            fip = \<lparr>fo_name = pname @ ''-fip'',
                   fo_param_name = (if length (gr_vms g) = 1 then ''floatingIpId''
                                    else ''floatingIpId'' @ nat_digits (i + 1)),
                   fo_port = new_resource_ref pname (po_id port) False, fo_floating_ip_id = next_available\<rparr>
        in Inr (port, if fipnet \<noteq> '''' then [fip] else []))"

fun external_ports ::
    "vm_provider \<Rightarrow> vm_group_request \<Rightarrow> group_ctx \<Rightarrow> nat \<Rightarrow> vm_request_spec \<Rightarrow> (string, network_type) gmap
       \<Rightarrow> string + port_orch list \<times> fip_orch list" where
  "external_ports pv g gc i v [] = Inr ([], [])"
| "external_ports pv g gc i v (n # ns) =
     (case external_port pv g gc i v n of
        Inl e \<Rightarrow> Inl e
      | Inr (p, fs) \<Rightarrow>
          (case external_ports pv g gc i v ns of Inl e \<Rightarrow> Inl e | Inr (ps, fs') \<Rightarrow> Inr (p # ps, fs @ fs')))"

definition vm_volumes :: "vm_properties \<Rightarrow> vm_request_spec \<Rightarrow> volume_orch list" where
  "vm_volumes vp v =
     (if vr_external_volume v > 0
      then [\<lparr>vo_name = vr_name v @ ''-volume'', vo_image_name = vr_image_name v, vo_size = vr_external_volume v,
             vo_az = get_cloudlet_volume_az vp, vo_device_name = ''vda'', vo_unit_number = 0\<rparr>] else []) @
     (if vr_shared_volume v > 0
      then [\<lparr>vo_name = vr_name v @ ''-shared-volume'', vo_image_name = '''', vo_size = vr_shared_volume v,
             vo_az = get_cloudlet_volume_az vp, vo_device_name = ''vdb'', vo_unit_number = 1\<rparr>] else [])"

text \<open>The configuration of the docker daemon for VMs with a GPU, and the commands that write it.\<close>

definition docker_daemon_json :: string where
  "docker_daemon_json =
     strings_join
       (map (\<lambda>(n, l). replicate n (CHR 0x09) @ l)
         [(0, ''{''), (1, ''\"log-driver\": \"json-file\",''), (1, ''\"log-opts\": {''), (2, ''\"max-size\": \"50m\",''),
          (2, ''\"max-file\": \"20\"''), (1, ''},''), (1, ''\"runtimes\": {''), (2, ''\"nvidia\": {''),
          (3, ''\"path\": \"/usr/bin/nvidia-container-runtime\",''), (3, ''\"runtimeArgs\": []''), (2, ''}''), (1, ''}''), (0, ''}'')])
       [CHR 0x0A]"

definition get_gpu_extra_commands :: "(string \<Rightarrow> string) \<Rightarrow> string list" where
  "get_gpu_extra_commands b64 =
     [''echo \"updating docker daemon.json\"'', ''echo '' @ b64 docker_daemon_json @ ''|base64 -d > /etc/docker/daemon.json'']"

definition vm_config :: "vm_provider \<Rightarrow> vm_properties \<Rightarrow> group_ctx \<Rightarrow> vm_request_spec \<Rightarrow> cloud_config" where
  "vm_config pv vp gc v =
     \<lparr>cc_boot_commands = (if vr_optional_resource v = ''gpu'' then get_gpu_extra_commands (pv_base64 pv) else []),
      cc_chef = vr_chef v, cc_ca_cert = gc_ca_cert gc, cc_access_key = vr_access_key v,
      cc_primary_dns = (if length (gc_dns gc) > 0 then gc_dns gc ! 0 else ''''),
      cc_fallback_dns = (if length (gc_dns gc) > 1 then gc_dns gc ! 1 else ''''),
      cc_ntp_servers = strings_join (get_ntp_servers vp) '' ''\<rparr>"

definition port_reference :: "port_orch \<Rightarrow> port_ref" where
  "port_reference p = new_port_ref (po_name p) (po_id p) (po_network_id p) (po_subnet_id p) False (po_net_type p)"

definition new_vm ::
    "vm_provider \<Rightarrow> vm_properties \<Rightarrow> group_ctx \<Rightarrow> vm_request_spec \<Rightarrow> vmrole \<Rightarrow> port_orch list \<Rightarrow> vm_orch" where
  "new_vm pv vp gc v role ports =
     (let attached = filter (\<lambda>p. \<not> po_skip_attach p) ports in
      \<lparr>vx_id = pv_id_sanitize pv (vr_name v), vx_name = pv_name_sanitize pv (vr_name v), vx_role = role,
       vx_image_name = (if vr_external_volume v > 0 then '''' else vr_image_name v),
       vx_image_folder = vr_image_folder v,
       vx_host_name = pv_hostname_sanitize pv (hd (strings_split (vr_name v) ''.'')),
       vx_dns_domain = vp_dns_zone vp, vx_flavor_name = vr_flavor_name v,
       vx_compute_az = (if vr_compute_az v = '''' then get_cloudlet_compute_az vp else vr_compute_az v),
       vx_user_data = '''', vx_meta_data = '''', vx_shared_volume = (vr_shared_volume v > 0),
       vx_deployment_manifest = vr_deployment_manifest v, vx_command = vr_command v,
       vx_volumes = vm_volumes vp v,
       vx_ports = map port_reference attached, vx_fixed_ips = concat (map po_fixed_ips attached),
       vx_attach_external_disk = (role = role_vm_application), vx_config = vm_config pv vp gc v,
       vx_os_type = (if role = role_vm_application then vr_os_type v else OS_Linux),
       vx_routes = vr_routes v\<rparr>)"

record vm_part =
  part_ports :: "port_orch list"
  part_fips :: "fip_orch list"
  part_vm :: "vm_orch option"

text \<open>The body of the loop over the VMs of a request, for the \<open>i\<close>-th of them.\<close>

definition define_vm ::
    "vm_provider \<Rightarrow> vm_properties \<Rightarrow> vm_group_request \<Rightarrow> group_ctx \<Rightarrow> nat \<Rightarrow> nat \<Rightarrow> vm_request_spec
       \<Rightarrow> string + vm_part \<times> nat" where
  "define_vm pv vp g gc i next v =
     (case vm_role_and_ports pv vp g gc next v of
        Inl e \<Rightarrow> Inl e
      | Inr (role, internal, next') \<Rightarrow>
          (case external_networks pv vp v of
             Inl e \<Rightarrow> Inl e
           | Inr nets \<Rightarrow>
               (case external_ports pv g gc i v (pv_range pv i nets) of
                  Inl e \<Rightarrow> Inl e
                | Inr (ext, fips) \<Rightarrow>
                    let ports = map (add_internal_secgrp gc) internal @ ext in
                    Inr (\<lparr>part_ports = ports, part_fips = fips,
                          part_vm = (if vr_create_ports_only v then None else Some (new_vm pv vp gc v role ports))\<rparr>,
                         next'))))"

fun define_vms ::
    "vm_provider \<Rightarrow> vm_properties \<Rightarrow> vm_group_request \<Rightarrow> group_ctx \<Rightarrow> nat \<Rightarrow> nat \<Rightarrow> vm_request_spec list
       \<Rightarrow> string + vm_part list" where
  "define_vms pv vp g gc i next [] = Inr []"
| "define_vms pv vp g gc i next (v # vs) =
     (case define_vm pv vp g gc i next v of
        Inl e \<Rightarrow> Inl e
      | Inr (part, next') \<Rightarrow>
          (case define_vms pv vp g gc (Suc i) next' vs of Inl e \<Rightarrow> Inl e | Inr parts \<Rightarrow> Inr (part # parts)))"

definition first_internal_octet :: nat where "first_internal_octet = 101"

subsection \<open>getVMGroupOrchestrationParamsFromGroupSpec\<close>

definition group_secgrps :: "vm_provider \<Rightarrow> vm_group_request \<Rightarrow> string + secgrp_orch list" where
  "group_secgrps pv g =
     (if gr_new_secgrp g = '''' then Inr []
      else case get_secgrp_params (gr_new_secgrp g)
             [secgrp_with_access_ports pv (gr_access_ports g) (gr_access_cidr g),
              secgrp_with_egress_rules (case gr_trust_policy g of None \<Rightarrow> [] | Some rs \<Rightarrow> rs) (\<not> gr_skip_default_secgrp g)] of
           Inl e \<Rightarrow> Inl e
         | Inr sg \<Rightarrow> Inr [sg])"

definition group_context ::
    "vm_properties \<Rightarrow> vm_group_request \<Rightarrow> string \<Rightarrow> net_spec_info \<Rightarrow> string list \<Rightarrow> string \<Rightarrow> group_ctx" where
  "group_context vp g sgid ni dns cert =
     \<lparr>gc_secgrp_id = sgid, gc_netspec = ni, gc_router_used = router_in_use vp g,
      gc_internal_type = (if connects_to_shared_root_lb g then nt_internal_shared_lb else nt_internal_private),
      gc_dns = dns, gc_ca_cert = cert\<rparr>"

definition group_orch ::
    "vm_provider \<Rightarrow> vm_properties \<Rightarrow> vm_group_request \<Rightarrow> group_ctx \<Rightarrow> secgrp_orch list \<Rightarrow> vm_part list \<Rightarrow> vm_group_orch" where
  "group_orch pv vp g gc sgs parts =
     \<lparr>vg_name = gr_name g,
      vg_subnets =
        (if gr_new_subnet g \<noteq> ''''
         then [new_subnet pv vp g (if get_subnet_dns vp \<noteq> no_subnet_dns then gc_dns gc else [])] else []),
      vg_ports = (if gc_router_used gc then [router_port pv vp g (gc_secgrp_id gc)] else []) @ concat (map part_ports parts),
      vg_router_ifs = (if gc_router_used gc then [router_interface vp g] else []),
      vg_vms = List.map_filter part_vm parts,
      vg_fips = concat (map part_fips parts),
      vg_secgrps = sgs,
      vg_netspec = Some (gc_netspec gc),
      vg_skip_infra_check = gr_skip_infra_check g,
      vg_init_orchestrator = gr_init_orchestrator g,
      vg_chef_update = gr_chef_update g,
      vg_shared_root_lb = connects_to_shared_root_lb g,
      vg_skip_cleanup = gr_skip_cleanup g,
      vg_anti_affinity = gr_anti_affinity g,
      vg_anti_affinity_enabled = get_enable_anti_affinity vp\<rparr>"

definition cloudlet_secgrp_id :: "vm_provider \<Rightarrow> vm_properties \<Rightarrow> vm_group_request \<Rightarrow> string + string" where
  "cloudlet_secgrp_id pv vp g =
     (if gr_skip_default_secgrp g then Inr (vp_cloudlet_secgrp vp) else pv_secgrp_id pv (vp_cloudlet_secgrp vp))"

definition vault_ssh_cert :: "vm_provider \<Rightarrow> vm_properties \<Rightarrow> string + string" where
  "vault_ssh_cert pv vp = (if vp_test_mode vp then Inr ''ssh-rsa DUMMYTESTCACERT'' else pv_ssh_public_key pv)"

definition group_params_from_spec ::
    "vm_provider \<Rightarrow> vm_properties \<Rightarrow> vm_group_request \<Rightarrow> string + vm_group_orch" where
  "group_params_from_spec pv vp g =
     (let dns = strings_split (get_cloudlet_dns vp) '','' in
      if length dns > 2 then Inl ''Too many DNS servers specified in MEX_DNS''
      else if gr_anti_affinity g \<and> length (gr_vms g) < 2
        then Inl ''Anti affinity cannot be specified with less than 2 VMs''
      else case cloudlet_secgrp_id pv vp g of
          Inl e \<Rightarrow> Inl e
        | Inr sgid \<Rightarrow>
      (case parse_net_spec (get_cloudlet_network_scheme vp) of
          Inl e \<Rightarrow> Inl e
        | Inr ni \<Rightarrow>
      (case group_secgrps pv g of
          Inl e \<Rightarrow> Inl e
        | Inr sgs \<Rightarrow>
      (case vault_ssh_cert pv vp of
          Inl e \<Rightarrow> Inl e
        | Inr cert \<Rightarrow>
            let gc = group_context vp g sgid ni dns cert in
            (case define_vms pv vp g gc 0 first_internal_octet (gr_vms g) of
               Inl e \<Rightarrow> Inl e
             | Inr parts \<Rightarrow> Inr (group_orch pv vp g gc sgs parts))))))"

definition group_params_from_vm_spec ::
    "vm_provider \<Rightarrow> vm_properties \<Rightarrow> string \<Rightarrow> vm_request_spec list \<Rightarrow> vm_group_op list \<Rightarrow> string + vm_group_orch" where
  "group_params_from_vm_spec pv vp n vms ops =
     (case get_vm_group_request_spec n vms ops of
        Inl e \<Rightarrow> Inl e
      | Inr g \<Rightarrow> group_params_from_spec pv vp g)"

definition get_subnet_gateway :: "string \<Rightarrow> vm_group_orch \<Rightarrow> string + string" where
  "get_subnet_gateway n vg =
     (case find (\<lambda>s. so_name s = n) (vg_subnets vg) of
        Some s \<Rightarrow> Inr (so_gateway_ip s)
      | None \<Rightarrow> Inl (''Subnet: '' @ n @ '' not found in vm group params''))"

subsection \<open>Chef\<close>

definition get_chef_client_name :: "vm_properties \<Rightarrow> string \<Rightarrow> string" where
  "get_chef_client_name vp n = vp_deployment_tag vp @ ''-'' @ vp_region vp @ ''-'' @ n"

text \<open>A fresh attribute map with these tags, and fresh chef parameters that refer to an attribute map.\<close>

definition new_attributes :: "string list \<Rightarrow> chef_heap \<Rightarrow> nat \<times> chef_heap" where
  "new_attributes tags h = (length (ch_attrs h), h\<lparr>ch_attrs := ch_attrs h @ [tags]\<rparr>)"

definition get_server_chef_params ::
    "vm_properties \<Rightarrow> string \<Rightarrow> string \<Rightarrow> string \<Rightarrow> nat \<Rightarrow> chef_heap \<Rightarrow> nat \<times> chef_heap" where
  "get_server_chef_params vp node key policy attrs h =
     (length (ch_params h),
      h\<lparr>ch_params := ch_params h @
          [\<lparr>sc_node_name = node, sc_server_path = vp_chef_server_path vp, sc_client_key = key, sc_attributes = attrs,
            sc_policy_name = policy, sc_policy_group = vp_deployment_tag vp\<rparr>]\<rparr>)"

definition set_client_key :: "nat \<Rightarrow> string \<Rightarrow> chef_heap \<Rightarrow> chef_heap" where
  "set_client_key r key h = h\<lparr>ch_params := (ch_params h)[r := (ch_params h ! r)\<lparr>sc_client_key := key\<rparr>]\<rparr>"

text \<open>
  The chef server and the provider work on a world \<open>'w\<close>.  \<open>ChefClientCreate\<close> registers a node with the tags of its attribute map
  and returns its key; the provider may fill in the group's parameters (the gateway of a subnet, for example) and chef keys.
\<close>

record 'w orchestrator =
  oc_chef_client :: bool                          \<comment> \<open>the client is initialized\<close>
  oc_chef_create :: "server_chef \<Rightarrow> string list \<Rightarrow> 'w \<Rightarrow> (string + string) \<times> 'w"
  oc_chef_delete :: "string \<Rightarrow> 'w \<Rightarrow> string option \<times> 'w"
  oc_create_vms :: "vm_group_orch \<Rightarrow> chef_heap \<Rightarrow> 'w \<Rightarrow> string option \<times> vm_group_orch \<times> chef_heap \<times> 'w"
  oc_update_vms :: "vm_group_orch \<Rightarrow> chef_heap \<Rightarrow> 'w \<Rightarrow> string option \<times> vm_group_orch \<times> chef_heap \<times> 'w"

text \<open>Register the VMs of the list that satisfy \<open>want\<close> with the chef server.\<close>

fun chef_create_clients ::
    "'w orchestrator \<Rightarrow> (vm_request_spec \<Rightarrow> bool) \<Rightarrow> vm_request_spec list \<Rightarrow> chef_heap \<Rightarrow> 'w
       \<Rightarrow> string option \<times> chef_heap \<times> 'w" where
  "chef_create_clients oc want [] h w = (None, h, w)"
| "chef_create_clients oc want (v # vs) h w =
     (if vr_create_ports_only v \<or> vr_type v = NT_App_VM \<or> \<not> want v then chef_create_clients oc want vs h w
      else case vr_chef v of
          None \<Rightarrow> (Some (''chef params doesn't exist for '' @ vr_name v), h, w)
        | Some r \<Rightarrow>
            (case oc_chef_create oc (ch_params h ! r) (ch_attrs h ! sc_attributes (ch_params h ! r)) w of
               (Inl e, w') \<Rightarrow> (Some e, h, w')
             | (Inr key, w') \<Rightarrow> chef_create_clients oc want vs (set_client_key r key h) w'))"

fun chef_delete_clients ::
    "'w orchestrator \<Rightarrow> vm_properties \<Rightarrow> (string, string) gmap \<Rightarrow> 'w \<Rightarrow> string option \<times> 'w" where
  "chef_delete_clients oc vp [] w = (None, w)"
| "chef_delete_clients oc vp ((n, act) # m) w =
     (if act \<noteq> ''remove'' then chef_delete_clients oc vp m w
      else case oc_chef_delete oc (get_chef_client_name vp n) w of
          (Some e, w') \<Rightarrow> (Some e, w')
        | (None, w') \<Rightarrow> chef_delete_clients oc vp m w')"

datatype vm_action_type = Action_Create | Action_Update | Action_Delete

definition orchestrate_vms ::
    "'w orchestrator \<Rightarrow> vm_provider \<Rightarrow> vm_properties \<Rightarrow> string \<Rightarrow> vm_request_spec list \<Rightarrow> vm_action_type \<Rightarrow> vm_group_op list
       \<Rightarrow> chef_heap \<Rightarrow> 'w \<Rightarrow> (string option \<times> vm_group_orch option) \<times> chef_heap \<times> 'w" where
  "orchestrate_vms oc pv vp n vms act ops h w =
     (if \<not> oc_chef_client oc then ((Some ''Chef client is not initialzied'', None), h, w)
      else case group_params_from_vm_spec pv vp n vms ops of
          Inl e \<Rightarrow> ((Some e, None), h, w)
        | Inr gp \<Rightarrow>
            (case act of
               Action_Create \<Rightarrow>
                 (case chef_create_clients oc (\<lambda>_. True) vms h w of
                    (Some e, h', w') \<Rightarrow> ((Some e, Some gp), h', w')
                  | (None, h', w') \<Rightarrow>
                      (case oc_create_vms oc gp h' w' of (err, gp', h'', w'') \<Rightarrow> ((err, Some gp'), h'', w'')))
             | Action_Update \<Rightarrow>
                 (case (case vg_chef_update gp of
                          None \<Rightarrow> (None, h, w)
                        | Some info \<Rightarrow>
                            (case chef_create_clients oc (\<lambda>v. map_of info (vr_name v) = Some ''add'') vms h w of
                               (Some e, h', w') \<Rightarrow> (Some e, h', w')
                             | (None, h', w') \<Rightarrow>
                                 (case chef_delete_clients oc vp info w' of (e, w'') \<Rightarrow> (e, h', w'')))) of
                    (Some e, h', w') \<Rightarrow> ((Some e, Some gp), h', w')
                  | (None, h', w') \<Rightarrow>
                      (case oc_update_vms oc gp h' w' of (err, gp', h'', w'') \<Rightarrow> ((err, Some gp'), h'', w'')))
             | Action_Delete \<Rightarrow> ((None, Some gp), h, w)))"

end
