(* ===== verification/VMLayer_Group.thy ===== *)
theory VMLayer_Group
  imports VMLayer_Params
begin

text \<open>
  What the parameters of a group promise to the orchestrator: every name they refer to is defined in the group or said to exist
  already, the addresses of internal ports do not clash, no external port is without a security group, the VMs are the ones
  requested, and VMs are created only with keys of the chef server.
\<close>

subsection \<open>References are closed\<close>

text \<open>Names that are defined: of subnets, of security groups, and of ports.\<close>

definition ref_in :: "string set \<Rightarrow> resource_ref \<Rightarrow> bool" where
  "ref_in ns r \<longleftrightarrow> rr_preexisting r \<or> rr_name r \<in> ns"

lemma ref_in_preexisting [simp]: "ref_in ns (new_resource_ref n i True)"
  by (simp add: ref_in_def new_resource_ref_def)

lemma ref_in_new [simp]: "ref_in ns (new_resource_ref n i False) \<longleftrightarrow> n \<in> ns"
  by (simp add: ref_in_def new_resource_ref_def)

definition port_refs_ok :: "string set \<Rightarrow> string set \<Rightarrow> port_orch \<Rightarrow> bool" where
  "port_refs_ok subnets secgrps p \<longleftrightarrow>
     (\<forall>f\<in>set (po_fixed_ips p). ref_in subnets (fi_subnet f)) \<and> (\<forall>s\<in>set (po_secgrps p). ref_in secgrps s)"

definition vm_refs_ok :: "port_orch list \<Rightarrow> vm_orch \<Rightarrow> bool" where
  "vm_refs_ok ports v \<longleftrightarrow>
     (\<forall>r\<in>set (vx_ports v). \<exists>p\<in>set ports. \<not> po_skip_attach p \<and> r = port_reference p) \<and>
     (\<forall>f\<in>set (vx_fixed_ips v). \<exists>p\<in>set ports. f \<in> set (po_fixed_ips p))"

definition group_refs_ok :: "vm_group_orch \<Rightarrow> bool" where
  "group_refs_ok vg \<longleftrightarrow>
     (\<forall>p\<in>set (vg_ports vg). port_refs_ok (so_name ` set (vg_subnets vg)) (sg_name ` set (vg_secgrps vg)) p) \<and>
     (\<forall>r\<in>set (vg_router_ifs vg). ref_in (po_name ` set (vg_ports vg)) (ri_router_port r)) \<and>
     (\<forall>f\<in>set (vg_fips vg). \<exists>p\<in>set (vg_ports vg). fo_port f = new_resource_ref (po_name p) (po_id p) False) \<and>
     (\<forall>v\<in>set (vg_vms vg). vm_refs_ok (vg_ports vg) v)"

text \<open>The names a request gives rise to.\<close>

definition new_subnets :: "vm_group_request \<Rightarrow> string set" where
  "new_subnets g = {n. n = gr_new_subnet g \<and> n \<noteq> ''''}"

definition new_secgrps :: "vm_group_request \<Rightarrow> string set" where
  "new_secgrps g = {n. n = gr_new_secgrp g \<and> n \<noteq> ''''}"

lemma internal_port_refs:
  assumes "vr_connect_subnet v \<noteq> ''''"
  shows "\<forall>f\<in>set (po_fixed_ips (internal_port pv vp g gc v n)). ref_in (new_subnets g) (fi_subnet f)"
  using assms by (auto simp: internal_port_def Let_def ref_in_def new_resource_ref_def new_subnets_def)

lemma node_secgrps_refs: "\<forall>s\<in>set (node_secgrps vp g gc). ref_in (new_secgrps g) s"
  by (auto simp: node_secgrps_def new_secgrps_def)

lemma internal_port_secgrps [simp]: "po_secgrps (internal_port pv vp g gc v n) = []"
  by (simp add: internal_port_def Let_def)

lemma role_ports_refs:
  "vm_role_and_ports pv vp g gc next v = Inr (role, ps, next') \<Longrightarrow> p \<in> set ps \<Longrightarrow>
     port_refs_ok (new_subnets g) (new_secgrps g) p"
  using internal_port_refs[of v pv vp g gc] node_secgrps_refs[of vp g gc]
  by (auto simp: vm_role_and_ports_def port_refs_ok_def Let_def split: if_splits)

lemma add_internal_secgrp_refs:
  "port_refs_ok ns ss p \<Longrightarrow> port_refs_ok ns ss (add_internal_secgrp gc p)"
  by (auto simp: port_refs_ok_def add_internal_secgrp_def)

lemma external_port_refs:
  "external_port pv g gc i v nt = Inr (p, fs) \<Longrightarrow>
     port_refs_ok (new_subnets g) (new_secgrps g) p \<and>
     (\<forall>f\<in>set fs. fo_port f = new_resource_ref (po_name p) (po_id p) False) \<and> po_fixed_ips p = [] \<and> po_secgrps p \<noteq> []"
  by (cases nt) (auto simp: external_port_def port_refs_ok_def new_secgrps_def Let_def split: if_splits)

lemma external_ports_refs:
  "external_ports pv g gc i v nets = Inr (ps, fs) \<Longrightarrow>
     (\<forall>p\<in>set ps. port_refs_ok (new_subnets g) (new_secgrps g) p \<and> po_fixed_ips p = [] \<and> po_secgrps p \<noteq> []) \<and>
     (\<forall>f\<in>set fs. \<exists>p\<in>set ps. fo_port f = new_resource_ref (po_name p) (po_id p) False)"
proof (induction nets arbitrary: ps fs)
  case Nil
  then show ?case by simp
next
  case (Cons n ns)
  from Cons.prems obtain p fs1 ps' fs2 where
    "external_port pv g gc i v n = Inr (p, fs1)" "external_ports pv g gc i v ns = Inr (ps', fs2)"
    "ps = p # ps'" "fs = fs1 @ fs2"
    by (auto split: sum.splits)
  then show ?case using Cons.IH external_port_refs[of pv g gc i v n p fs1] by auto
qed

definition part_ok :: "vm_group_request \<Rightarrow> vm_part \<Rightarrow> bool" where
  "part_ok g pt \<longleftrightarrow>
     (\<forall>p\<in>set (part_ports pt). port_refs_ok (new_subnets g) (new_secgrps g) p) \<and>
     (\<forall>f\<in>set (part_fips pt). \<exists>p\<in>set (part_ports pt). fo_port f = new_resource_ref (po_name p) (po_id p) False) \<and>
     (\<forall>v. part_vm pt = Some v \<longrightarrow> vm_refs_ok (part_ports pt) v)"

lemma new_vm_refs: "vm_refs_ok ports (new_vm pv vp gc v role ports)"
  by (auto simp: vm_refs_ok_def new_vm_def Let_def)

text \<open>The definition of a VM, taken apart.\<close>

lemma define_vm_cases:
  assumes "define_vm pv vp g gc i next v = Inr (pt, next')"
  obtains role internal nets ext fips where
    "vm_role_and_ports pv vp g gc next v = Inr (role, internal, next')"
    "external_networks pv vp v = Inr nets" "external_ports pv g gc i v (pv_range pv i nets) = Inr (ext, fips)"
    "part_ports pt = map (add_internal_secgrp gc) internal @ ext" "part_fips pt = fips"
    "part_vm pt = (if vr_create_ports_only v then None
       else Some (new_vm pv vp gc v role (map (add_internal_secgrp gc) internal @ ext)))"
  using assms by (auto simp: define_vm_def Let_def split: sum.splits)

lemma define_vm_ok: "define_vm pv vp g gc i next v = Inr (pt, next') \<Longrightarrow> part_ok g pt"
proof (erule define_vm_cases)
  fix role internal nets ext fips
  assume r: "vm_role_and_ports pv vp g gc next v = Inr (role, internal, next')"
    and e: "external_ports pv g gc i v (pv_range pv i nets) = Inr (ext, fips)"
    and p: "part_ports pt = map (add_internal_secgrp gc) internal @ ext" "part_fips pt = fips"
      "part_vm pt = (if vr_create_ports_only v then None
       else Some (new_vm pv vp gc v role (map (add_internal_secgrp gc) internal @ ext)))"
  show "part_ok g pt"
    unfolding part_ok_def p using role_ports_refs[OF r] external_ports_refs[OF e]
    by (auto simp: add_internal_secgrp_refs new_vm_refs)
qed

lemma define_vms_ok:
  "define_vms pv vp g gc i next vs = Inr parts \<Longrightarrow> pt \<in> set parts \<Longrightarrow> part_ok g pt"
  by (induction vs arbitrary: i "next" parts) (auto split: sum.splits prod.splits dest: define_vm_ok)

text \<open>The parameters of a group, taken apart.\<close>

lemma sg_name_add_access_ports: "add_access_ports ps sg = Inr sg' \<Longrightarrow> sg_name sg' = sg_name sg \<and> sg_egress sg' = sg_egress sg"
  by (induction ps arbitrary: sg) (auto simp: Let_def split: option.splits if_splits)

lemma group_secgrps_new:
  assumes "group_secgrps pv g = Inr sgs"
  shows "sg_name ` set sgs = new_secgrps g \<and>
    (\<forall>sg\<in>set sgs. sg_egress sg =
       (let rs = (case gr_trust_policy g of None \<Rightarrow> [] | Some rs \<Rightarrow> rs) in
        if rs = [] then [any_protocol_rule (if gr_skip_default_secgrp g then remote_cidr_all else remote_cidr_none)] else rs))"
proof (cases "gr_new_secgrp g = ''''")
  case True
  then show ?thesis using assms by (simp add: group_secgrps_def new_secgrps_def)
next
  case False
  then show ?thesis
    using assms
    by (auto simp: group_secgrps_def get_secgrp_params_def secgrp_with_access_ports_def secgrp_with_egress_rules_def
        new_secgrps_def Let_def split: sum.splits if_splits dest!: sg_name_add_access_ports)
qed

lemma group_params_parts:
  assumes "group_params_from_spec pv vp g = Inr vg"
  obtains sgid ni sgs cert parts where
    "cloudlet_secgrp_id pv vp g = Inr sgid" "parse_net_spec (get_cloudlet_network_scheme vp) = Inr ni"
    "group_secgrps pv g = Inr sgs"
    "define_vms pv vp g (group_context vp g sgid ni (strings_split (get_cloudlet_dns vp) '','') cert) 0 first_internal_octet (gr_vms g)
       = Inr parts"
    "vg = group_orch pv vp g (group_context vp g sgid ni (strings_split (get_cloudlet_dns vp) '','') cert) sgs parts"
  using assms unfolding group_params_from_spec_def Let_def by (simp split: if_split_asm sum.split_asm)

lemma group_params_cases:
  assumes "group_params_from_spec pv vp g = Inr vg"
  obtains gc parts where
    "define_vms pv vp g gc 0 first_internal_octet (gr_vms g) = Inr parts"
    "gc_router_used gc = router_in_use vp g"
    "group_secgrps pv g = Inr (vg_secgrps vg)"
    "so_name ` set (vg_subnets vg) = new_subnets g"
    "vg_ports vg = (if router_in_use vp g then [router_port pv vp g (gc_secgrp_id gc)] else []) @ concat (map part_ports parts)"
    "vg_router_ifs vg = (if router_in_use vp g then [router_interface vp g] else [])"
    "vg_vms vg = List.map_filter part_vm parts" "vg_fips vg = concat (map part_fips parts)"
    "vg_netspec vg = Some (gc_netspec gc)"
    "gc_internal_type gc = (if connects_to_shared_root_lb g then nt_internal_shared_lb else nt_internal_private)"
  using assms
proof (rule group_params_parts)
  fix sgid ni sgs cert parts
  let ?gc = "group_context vp g sgid ni (strings_split (get_cloudlet_dns vp) '','') cert"
  assume "define_vms pv vp g ?gc 0 first_internal_octet (gr_vms g) = Inr parts" "group_secgrps pv g = Inr sgs"
    "vg = group_orch pv vp g ?gc sgs parts"
  moreover have "so_name ` set (vg_subnets (group_orch pv vp g ?gc sgs parts)) = new_subnets g"
    by (auto simp: group_orch_def new_subnets_def new_subnet_def)
  ultimately show thesis
    by (intro that[of ?gc parts]) (simp_all add: group_context_def group_orch_def)
qed

lemma set_map_filter: "set (List.map_filter f xs) = {y. \<exists>x\<in>set xs. f x = Some y}"
  by (force simp: List.map_filter_def)

lemma map_filter_Cons: "List.map_filter f (x # xs) = (case f x of None \<Rightarrow> List.map_filter f xs | Some y \<Rightarrow> y # List.map_filter f xs)"
  by (simp add: List.map_filter_simps)

lemma vm_refs_mono: "vm_refs_ok ports v \<Longrightarrow> set ports \<subseteq> set ports' \<Longrightarrow> vm_refs_ok ports' v"
  unfolding vm_refs_ok_def by blast

text \<open>
  C34 (group\_references\_are\_closed): the parameters of a group are closed: every subnet, security group and port they refer to by name is defined in
  the group, unless the reference says that it exists already; a VM refers only to ports of the group that are attached when it is
  created, and has only their addresses.
\<close>

lemma group_references_are_closed:
  assumes "group_params_from_spec pv vp g = Inr vg"
  shows "group_refs_ok vg"
  using assms
proof (rule group_params_cases)
  fix gc parts
  assume d: "define_vms pv vp g gc 0 first_internal_octet (gr_vms g) = Inr parts"
    and sg: "group_secgrps pv g = Inr (vg_secgrps vg)" and sn: "so_name ` set (vg_subnets vg) = new_subnets g"
    and ports: "vg_ports vg = (if router_in_use vp g then [router_port pv vp g (gc_secgrp_id gc)] else []) @ concat (map part_ports parts)"
    and ri: "vg_router_ifs vg = (if router_in_use vp g then [router_interface vp g] else [])"
    and vms: "vg_vms vg = List.map_filter part_vm parts" and fips: "vg_fips vg = concat (map part_fips parts)"
  have ok: "part_ok g pt" if "pt \<in> set parts" for pt using define_vms_ok[OF d that] .
  have sub: "set (part_ports pt) \<subseteq> set (vg_ports vg)" if "pt \<in> set parts" for pt
    using that by (auto simp: ports)
  have rtr: "port_refs_ok (new_subnets g) (new_secgrps g) (router_port pv vp g (gc_secgrp_id gc))" if "router_in_use vp g"
    using that by (auto simp: router_in_use_def router_port_def port_refs_ok_def new_subnets_def)
  have names: "sg_name ` set (vg_secgrps vg) = new_secgrps g" using group_secgrps_new[OF sg] by blast
  show ?thesis
    unfolding group_refs_ok_def sn names
  proof (intro conjI ballI)
    fix p assume "p \<in> set (vg_ports vg)"
    then show "port_refs_ok (new_subnets g) (new_secgrps g) p"
      using rtr ok by (auto simp: ports part_ok_def split: if_splits)
  next
    fix r assume "r \<in> set (vg_router_ifs vg)"
    then show "ref_in (po_name ` set (vg_ports vg)) (ri_router_port r)"
      by (auto simp: ri ports router_interface_def router_port_def split: if_splits)
  next
    fix f assume "f \<in> set (vg_fips vg)"
    then obtain pt where "pt \<in> set parts" "f \<in> set (part_fips pt)" by (auto simp: fips)
    then show "\<exists>p\<in>set (vg_ports vg). fo_port f = new_resource_ref (po_name p) (po_id p) False"
      using ok sub unfolding part_ok_def by blast
  next
    fix v assume "v \<in> set (vg_vms vg)"
    then obtain pt where "pt \<in> set parts" "part_vm pt = Some v" by (auto simp: vms set_map_filter)
    then show "vm_refs_ok (vg_ports vg) v"
      using ok sub vm_refs_mono unfolding part_ok_def by blast
  qed
qed

subsection \<open>Addresses of internal ports\<close>

definition is_lb_type :: "node_type \<Rightarrow> bool" where
  "is_lb_type t \<longleftrightarrow> t \<in> {NT_Platform_VM, NT_Shared_Root_LB, NT_Dedicated_Root_LB}"

definition is_master_type :: "node_type \<Rightarrow> bool" where
  "is_master_type t \<longleftrightarrow> t \<in> {NT_Platform_K8s_Master, NT_K8s_Master}"

definition is_node_type :: "node_type \<Rightarrow> bool" where
  "is_node_type t \<longleftrightarrow> t \<in> {NT_Docker_Node, NT_Platform_K8s_Primary, NT_Platform_K8s_Secondary, NT_K8s_Node}"

definition connected :: "vm_request_spec \<Rightarrow> bool" where
  "connected v \<longleftrightarrow> vr_connect_subnet v \<noteq> ''''"

definition connected_lbs :: "vm_request_spec list \<Rightarrow> nat" where
  "connected_lbs vs = length (filter (\<lambda>v. connected v \<and> is_lb_type (vr_type v)) vs)"

definition connected_masters :: "vm_request_spec list \<Rightarrow> nat" where
  "connected_masters vs = length (filter (\<lambda>v. connected v \<and> is_master_type (vr_type v)) vs)"

definition is_worker :: "vm_request_spec \<Rightarrow> bool" where
  "is_worker v \<longleftrightarrow> connected v \<and> (vr_type v = NT_App_VM \<or> is_node_type (vr_type v))"

definition workers :: "vm_request_spec list \<Rightarrow> nat" where
  "workers vs = length (filter is_worker vs)"

definition internal_octets :: "vm_group_orch \<Rightarrow> nat list" where
  "internal_octets vg = map fi_last_octet (concat (map po_fixed_ips (vg_ports vg)))"

text \<open>The octets one VM takes, and those of a list of VMs from \<open>n\<close> on.\<close>

definition vm_octets :: "bool \<Rightarrow> nat \<Rightarrow> vm_request_spec \<Rightarrow> nat list" where
  "vm_octets rtr n v =
     (if \<not> connected v then []
      else if is_lb_type (vr_type v) then (if rtr then [] else [1])
      else if is_master_type (vr_type v) then [10]
      else if is_worker v then [n] else [])"

fun group_octets :: "bool \<Rightarrow> nat \<Rightarrow> vm_request_spec list \<Rightarrow> nat list" where
  "group_octets rtr n [] = []"
| "group_octets rtr n (v # vs) = vm_octets rtr n v @ group_octets rtr (if is_worker v then Suc n else n) vs"

lemma internal_port_octet [simp]: "map fi_last_octet (po_fixed_ips (internal_port pv vp g gc v n)) = [n]"
  by (simp add: internal_port_def Let_def)

lemma add_internal_secgrp_fixed [simp]: "po_fixed_ips (add_internal_secgrp gc p) = po_fixed_ips p"
  by (simp add: add_internal_secgrp_def)

lemma role_ports_octets:
  assumes "vm_role_and_ports pv vp g gc n v = Inr (role, ps, n')"
  shows "map fi_last_octet (concat (map po_fixed_ips ps)) = vm_octets (gc_router_used gc) n v \<and>
         n' = (if is_worker v then Suc n else n)"
  using assms
  by (cases "vr_type v")
     (auto simp: vm_role_and_ports_def vm_octets_def connected_def is_worker_def is_lb_type_def is_master_type_def
        is_node_type_def Let_def split: if_splits)

lemma concat_map_Nil: "\<forall>x\<in>set xs. f x = [] \<Longrightarrow> concat (map f xs) = []"
  by simp

lemma define_vm_octets:
  assumes "define_vm pv vp g gc i n v = Inr (pt, n')"
  shows "map fi_last_octet (concat (map po_fixed_ips (part_ports pt))) = vm_octets (gc_router_used gc) n v \<and>
         n' = (if is_worker v then Suc n else n)"
proof -
  from assms obtain role internal nets ext fips where
    r: "vm_role_and_ports pv vp g gc n v = Inr (role, internal, n')"
    and e: "external_ports pv g gc i v (pv_range pv i nets) = Inr (ext, fips)"
    and p: "part_ports pt = map (add_internal_secgrp gc) internal @ ext"
    by (auto simp: define_vm_def Let_def split: sum.splits)
  have "concat (map po_fixed_ips ext) = []"
    using external_ports_refs[OF e] by simp
  then have "map fi_last_octet (concat (map po_fixed_ips (part_ports pt))) =
      map fi_last_octet (concat (map po_fixed_ips internal))"
    by (simp add: p comp_def)
  then show ?thesis using role_ports_octets[OF r] by simp
qed

lemma define_vms_octets:
  "define_vms pv vp g gc i n vs = Inr parts \<Longrightarrow>
     map fi_last_octet (concat (map po_fixed_ips (concat (map part_ports parts)))) = group_octets (gc_router_used gc) n vs"
  by (induction vs arbitrary: i n parts) (auto split: sum.splits prod.splits dest!: define_vm_octets)

lemma group_octets_set:
  "set (group_octets rtr n vs) =
     (if connected_lbs vs > 0 \<and> \<not> rtr then {1} else {}) \<union> (if connected_masters vs > 0 then {10} else {}) \<union>
     {n..<n + workers vs}"
proof (induction vs arbitrary: n)
  case Nil
  then show ?case by (simp add: connected_lbs_def connected_masters_def workers_def)
next
  case (Cons v vs)
  have "is_lb_type (vr_type v) \<Longrightarrow> \<not> is_master_type (vr_type v) \<and> \<not> is_worker v"
    "is_master_type (vr_type v) \<Longrightarrow> \<not> is_worker v" "is_worker v \<Longrightarrow> connected v"
    by (auto simp: is_lb_type_def is_master_type_def is_worker_def is_node_type_def)
  then show ?case
    using Cons.IH by (auto simp: vm_octets_def connected_lbs_def connected_masters_def workers_def)
qed

lemma group_octets_distinct:
  "10 < n \<Longrightarrow> connected_lbs vs \<le> 1 \<Longrightarrow> connected_masters vs \<le> 1 \<Longrightarrow> distinct (group_octets rtr n vs)"
proof (induction vs arbitrary: n)
  case Nil
  then show ?case by simp
next
  case (Cons v vs)
  have excl: "is_lb_type (vr_type v) \<Longrightarrow> \<not> is_master_type (vr_type v) \<and> \<not> is_worker v"
    "is_master_type (vr_type v) \<Longrightarrow> \<not> is_worker v" "is_worker v \<Longrightarrow> connected v"
    by (auto simp: is_lb_type_def is_master_type_def is_worker_def is_node_type_def)
  have counts: "connected_lbs vs \<le> 1" "connected_masters vs \<le> 1"
    "connected v \<and> is_lb_type (vr_type v) \<Longrightarrow> connected_lbs vs = 0"
    "connected v \<and> is_master_type (vr_type v) \<Longrightarrow> connected_masters vs = 0"
    using Cons.prems by (auto simp: connected_lbs_def connected_masters_def split: if_splits)
  have "distinct (group_octets rtr (if is_worker v then Suc n else n) vs)"
    using Cons.IH[of "if is_worker v then Suc n else n"] Cons.prems(1) counts by simp
  then show ?case
    using excl counts Cons.prems(1) by (auto simp: vm_octets_def group_octets_set)
qed

lemma internal_octets_eq:
  assumes "group_params_from_spec pv vp g = Inr vg"
  shows "internal_octets vg = (if router_in_use vp g then [1] else []) @ group_octets (router_in_use vp g) 101 (gr_vms g)"
  using assms
proof (rule group_params_cases)
  fix gc parts
  assume d: "define_vms pv vp g gc 0 first_internal_octet (gr_vms g) = Inr parts"
    and r: "gc_router_used gc = router_in_use vp g"
    and ports: "vg_ports vg = (if router_in_use vp g then [router_port pv vp g (gc_secgrp_id gc)] else []) @ concat (map part_ports parts)"
  show ?thesis
    using define_vms_octets[OF d] by (simp add: internal_octets_def ports r first_internal_octet_def router_port_def)
qed

text \<open>
  In a group with at most one connected load balancer and one master, no two internal ports get the same last octet: the load balancer,
  or the router in its place, has 1, the master 10, and the workers and application VMs count from 101 on.
\<close>

lemma internal_octets_shape:
  assumes "group_params_from_spec pv vp g = Inr vg"
    and "connected_lbs (gr_vms g) \<le> 1" "connected_masters (gr_vms g) \<le> 1"
  shows "distinct (internal_octets vg) \<and>
         {101..<101 + workers (gr_vms g)} \<subseteq> set (internal_octets vg) \<and>
         set (internal_octets vg) \<subseteq> {1, 10} \<union> {101..<101 + workers (gr_vms g)} \<and>
         (workers (gr_vms g) \<le> 154 \<longrightarrow> (\<forall>n\<in>set (internal_octets vg). 1 \<le> n \<and> n \<le> 254))"
  unfolding internal_octets_eq[OF assms(1)]
  using group_octets_distinct[OF _ assms(2,3), of 101 "router_in_use vp g"]
  by (auto simp: group_octets_set split: if_splits)

text \<open>Note (many\_workers\_overflow): a cluster with 156 workers has a port whose last octet is 256.\<close>

lemma many_workers_overflow:
  "group_params_from_spec pv vp g = Inr vg \<Longrightarrow> 156 \<le> workers (gr_vms g) \<Longrightarrow> 256 \<in> set (internal_octets vg)"
  by (auto simp: internal_octets_eq group_octets_set)

subsection \<open>The VMs of a group\<close>

definition role_of_type :: "node_type \<Rightarrow> vmrole" where
  "role_of_type t =
     (if is_lb_type t then role_agent else if is_master_type t then role_master
      else if t = NT_App_VM then role_vm_application else if t = NT_Docker_Node then role_docker_node else role_k8s_node)"

lemma vm_role: "vm_role_and_ports pv vp g gc n v = Inr (role, ps, n') \<Longrightarrow> role = role_of_type (vr_type v)"
  by (cases "vr_type v")
     (auto simp: vm_role_and_ports_def role_of_type_def is_lb_type_def is_master_type_def Let_def split: if_splits)

text \<open>What a request says about a VM, and what its parameters say.\<close>

definition requested :: "vm_provider \<Rightarrow> vm_request_spec \<Rightarrow> string \<times> vmrole \<times> string \<times> nat option \<times> string" where
  "requested pv v =
     (pv_name_sanitize pv (vr_name v), role_of_type (vr_type v), vr_flavor_name v, vr_chef v, vr_access_key v)"

definition defined_vm :: "vm_orch \<Rightarrow> string \<times> vmrole \<times> string \<times> nat option \<times> string" where
  "defined_vm x = (vx_name x, vx_role x, vx_flavor_name x, cc_chef (vx_config x), cc_access_key (vx_config x))"

lemma define_vm_vm:
  assumes "define_vm pv vp g gc i n v = Inr (pt, n')"
  shows "map_option defined_vm (part_vm pt) = (if vr_create_ports_only v then None else Some (requested pv v))"
  using assms
  by (rule define_vm_cases) (auto simp: defined_vm_def requested_def new_vm_def vm_config_def Let_def vm_role)

lemma define_vms_vms:
  "define_vms pv vp g gc i n vs = Inr parts \<Longrightarrow>
     map defined_vm (List.map_filter part_vm parts) = map (requested pv) (filter (\<lambda>v. \<not> vr_create_ports_only v) vs)"
proof (induction vs arbitrary: i n parts)
  case Nil
  then show ?case by (simp add: List.map_filter_simps)
next
  case (Cons v vs)
  from Cons.prems obtain pt n' parts' where
    d: "define_vm pv vp g gc i n v = Inr (pt, n')" "define_vms pv vp g gc (Suc i) n' vs = Inr parts'" "parts = pt # parts'"
    by (auto split: sum.splits)
  show ?case
    using define_vm_vm[OF d(1)] Cons.IH[OF d(2)] 
    by (auto simp: d(3) map_filter_Cons split: option.splits if_splits)
qed

text \<open>
  Note (group\_has\_the\_requested\_vms): the VMs of the parameters are exactly the requested ones that are not there for their ports only, in order, each with the role of its
  type, its flavor, its chef parameters and its access key.
\<close>

lemma group_has_the_requested_vms:
  assumes "group_params_from_spec pv vp g = Inr vg"
  shows "map defined_vm (vg_vms vg) = map (requested pv) (filter (\<lambda>v. \<not> vr_create_ports_only v) (gr_vms g))"
  using assms by (rule group_params_cases) (simp add: define_vms_vms)

subsection \<open>Security groups\<close>

lemma role_ports_type:
  "vm_role_and_ports pv vp g gc n v = Inr (role, ps, n') \<Longrightarrow> p \<in> set ps \<Longrightarrow> po_net_type p = gc_internal_type gc"
  by (auto simp: vm_role_and_ports_def internal_port_def Let_def split: if_splits)

lemma add_internal_secgrp_type [simp]: "po_net_type (add_internal_secgrp gc p) = po_net_type p"
  by (simp add: add_internal_secgrp_def)

lemma define_vm_secgrps:
  assumes "define_vm pv vp g gc i n v = Inr (pt, n')" "p \<in> set (part_ports pt)"
  shows "po_net_type p = gc_internal_type gc \<or> po_secgrps p \<noteq> []"
  using assms(1)
proof (rule define_vm_cases)
  fix role internal nets ext fips
  assume "vm_role_and_ports pv vp g gc n v = Inr (role, internal, n')"
    "external_ports pv g gc i v (pv_range pv i nets) = Inr (ext, fips)"
    "part_ports pt = map (add_internal_secgrp gc) internal @ ext"
  then show ?thesis
    using assms(2) role_ports_type[of pv vp g gc n v role internal n'] external_ports_refs[of pv g gc i v "pv_range pv i nets" ext fips]
    by auto
qed

lemma define_vms_secgrps:
  "define_vms pv vp g gc i n vs = Inr parts \<Longrightarrow> pt \<in> set parts \<Longrightarrow> p \<in> set (part_ports pt) \<Longrightarrow>
     po_net_type p = gc_internal_type gc \<or> po_secgrps p \<noteq> []"
proof (induction vs arbitrary: i n parts)
  case Nil
  then show ?case by simp
next
  case (Cons v vs)
  from Cons.prems(1) obtain pt1 n' parts' where
    d: "define_vm pv vp g gc i n v = Inr (pt1, n')" "define_vms pv vp g gc (Suc i) n' vs = Inr parts'" "parts = pt1 # parts'"
    by (auto split: sum.splits)
  show ?case
    using Cons.IH[OF d(2)] define_vm_secgrps[OF d(1)] Cons.prems(2,3) by (auto simp: d(3))
qed

text \<open>
  C36 (external\_ports\_are\_secured): no port on an external network is without a security group (a port without one has its port security switched
  off).  The egress of a security group that is made is that of the trust policy, when there is one with rules; without a policy, and
  with one that has no rules, it is closed (a rule for the address \<open>0.0.0.0/32\<close> alone) for a group that has the default security group of
  the Cloudlet, and open to everywhere (\<open>0.0.0.0/0\<close>) for a group that does without it, as that of the platform VMs does.
\<close>

lemma external_ports_are_secured:
  assumes "group_params_from_spec pv vp g = Inr vg"
  shows "(\<forall>p\<in>set (vg_ports vg). po_net_type p \<notin> {nt_internal_private, nt_internal_shared_lb} \<longrightarrow> po_secgrps p \<noteq> []) \<and>
         (\<forall>sg\<in>set (vg_secgrps vg).
            sg_egress sg =
              (if gr_trust_policy g = None \<or> gr_trust_policy g = Some []
               then [any_protocol_rule (if gr_skip_default_secgrp g then remote_cidr_all else remote_cidr_none)]
               else the (gr_trust_policy g)))"
  using assms
proof (rule group_params_cases)
  fix gc parts
  assume d: "define_vms pv vp g gc 0 first_internal_octet (gr_vms g) = Inr parts"
    and sg: "group_secgrps pv g = Inr (vg_secgrps vg)"
    and ports: "vg_ports vg = (if router_in_use vp g then [router_port pv vp g (gc_secgrp_id gc)] else []) @ concat (map part_ports parts)"
    and ty: "gc_internal_type gc = (if connects_to_shared_root_lb g then nt_internal_shared_lb else nt_internal_private)"
  have "po_secgrps p \<noteq> []" if "p \<in> set (vg_ports vg)" "po_net_type p \<notin> {nt_internal_private, nt_internal_shared_lb}" for p
  proof (cases "p \<in> set (concat (map part_ports parts))")
    case True
    then obtain pt where "pt \<in> set parts" "p \<in> set (part_ports pt)" by auto
    then show ?thesis using define_vms_secgrps[OF d] that(2) by (metis insertCI ty)
  next
    case False
    then show ?thesis using that(1) by (auto simp: ports router_port_def split: if_splits)
  qed
  moreover have "sg_egress s =
              (if gr_trust_policy g = None \<or> gr_trust_policy g = Some []
               then [any_protocol_rule (if gr_skip_default_secgrp g then remote_cidr_all else remote_cidr_none)]
               else the (gr_trust_policy g))" if "s \<in> set (vg_secgrps vg)" for s
    using that group_secgrps_new[OF sg] by (auto simp: Let_def split: option.splits if_splits)
  ultimately show ?thesis by blast
qed

subsection \<open>Keys of the chef server\<close>

text \<open>A VM that has to be registered with the chef server, and a heap in which \<open>r\<close> holds a key that the server issued for its node.\<close>

definition needs_chef :: "vm_request_spec \<Rightarrow> bool" where
  "needs_chef v \<longleftrightarrow> \<not> vr_create_ports_only v \<and> vr_type v \<noteq> NT_App_VM"

definition key_issued :: "'w orchestrator \<Rightarrow> chef_heap \<Rightarrow> nat \<Rightarrow> bool" where
  "key_issued oc h r \<longleftrightarrow>
     (\<exists>p tags w w'. oc_chef_create oc p tags w = (Inr (sc_client_key (ch_params h ! r)), w') \<and>
        sc_node_name p = sc_node_name (ch_params h ! r))"

lemma set_client_key_length [simp]: "length (ch_params (set_client_key r k h)) = length (ch_params h)"
  by (simp add: set_client_key_def)

lemma key_issued_set:
  assumes "oc_chef_create oc (ch_params h ! r) tags w = (Inr k, w')" "r < length (ch_params h)"
  shows "key_issued oc (set_client_key r k h) r"
proof -
  have "sc_client_key (ch_params (set_client_key r k h) ! r) = k"
    "sc_node_name (ch_params (set_client_key r k h) ! r) = sc_node_name (ch_params h ! r)"
    using assms(2) by (simp_all add: set_client_key_def)
  then show ?thesis unfolding key_issued_def using assms(1) by (metis (no_types))
qed

lemma key_issued_keep:
  assumes "key_issued oc h q" "oc_chef_create oc (ch_params h ! r) tags w = (Inr k, w')" "r < length (ch_params h)"
  shows "key_issued oc (set_client_key r k h) q"
proof (cases "q = r")
  case True
  then show ?thesis using key_issued_set[OF assms(2,3)] by simp
next
  case False
  then have "ch_params (set_client_key r k h) ! q = ch_params h ! q"
    by (simp add: set_client_key_def)
  then show ?thesis using assms(1) by (simp add: key_issued_def)
qed

definition chef_refs_ok :: "chef_heap \<Rightarrow> vm_request_spec list \<Rightarrow> bool" where
  "chef_refs_ok h vs \<longleftrightarrow> (\<forall>v\<in>set vs. \<forall>r. vr_chef v = Some r \<longrightarrow> r < length (ch_params h))"

lemma chef_create_keeps:
  "chef_create_clients oc want vs h w = (None, h', w') \<Longrightarrow> chef_refs_ok h vs \<Longrightarrow> key_issued oc h q \<Longrightarrow> key_issued oc h' q"
proof (induction vs arbitrary: h w)
  case Nil
  then show ?case by simp
next
  case (Cons v vs)
  then show ?case
    by (auto simp: chef_refs_ok_def key_issued_keep split: if_splits option.splits sum.splits prod.splits)
qed

lemma chef_create_issues:
  "chef_create_clients oc want vs h w = (None, h', w') \<Longrightarrow> chef_refs_ok h vs \<Longrightarrow>
     v \<in> set vs \<Longrightarrow> needs_chef v \<Longrightarrow> want v \<Longrightarrow> \<exists>r. vr_chef v = Some r \<and> key_issued oc h' r"
proof (induction vs arbitrary: h w)
  case Nil
  then show ?case by simp
next
  case (Cons u vs)
  show ?case
  proof (cases "vr_create_ports_only u \<or> vr_type u = NT_App_VM \<or> \<not> want u")
    case True
    then show ?thesis using Cons by (auto simp: needs_chef_def chef_refs_ok_def)
  next
    case False
    from False Cons.prems(1) obtain r k w1 where
      c: "vr_chef u = Some r" "oc_chef_create oc (ch_params h ! r) (ch_attrs h ! sc_attributes (ch_params h ! r)) w = (Inr k, w1)"
        "chef_create_clients oc want vs (set_client_key r k h) w1 = (None, h', w')"
      by (auto split: option.splits sum.splits prod.splits)
    have r: "r < length (ch_params h)" using Cons.prems(2) c(1) by (simp add: chef_refs_ok_def)
    have refs: "chef_refs_ok (set_client_key r k h) vs" using Cons.prems(2) by (simp add: chef_refs_ok_def)
    show ?thesis
    proof (cases "v = u")
      case True
      then show ?thesis using chef_create_keeps[OF c(3) refs key_issued_set[OF c(2) r]] c(1) by blast
    next
      case ne: False
      then show ?thesis using Cons.IH[OF c(3) refs] Cons.prems(3-5) by simp
    qed
  qed
qed

text \<open>The same chef server and provider, with the calls of \<open>CreateVMs\<close> recorded: parameters and chef parameters at that time.\<close>

definition traced :: "'w orchestrator \<Rightarrow> ('w \<times> (vm_group_orch \<times> chef_heap) list) orchestrator" where
  "traced oc =
     \<lparr>oc_chef_client = oc_chef_client oc,
      oc_chef_create = (\<lambda>p tags (w, calls). let (res, w') = oc_chef_create oc p tags w in (res, w', calls)),
      oc_chef_delete = (\<lambda>n (w, calls). let (e, w') = oc_chef_delete oc n w in (e, w', calls)),
      oc_create_vms = (\<lambda>gp h (w, calls). let (e, gp', h', w') = oc_create_vms oc gp h w in (e, gp', h', w', calls @ [(gp, h)])),
      oc_update_vms = (\<lambda>gp h (w, calls). let (e, gp', h', w') = oc_update_vms oc gp h w in (e, gp', h', w', calls))\<rparr>"

lemma chef_create_traced:
  "chef_create_clients (traced oc) want vs h (w, calls) =
     (case chef_create_clients oc want vs h w of (e, h', w') \<Rightarrow> (e, h', w', calls))"
proof (induction vs arbitrary: h w)
  case (Cons v vs)
  then show ?case
    by (cases "vr_chef v")
      (auto simp: traced_def Let_def split: prod.splits sum.splits)
qed simp

lemma create_traced:
  "orchestrate_vms (traced oc) pv vp n vms Action_Create ops h (w, []) =
     (if \<not> oc_chef_client oc then ((Some ''Chef client is not initialzied'', None), h, w, [])
      else case group_params_from_vm_spec pv vp n vms ops of
          Inl e \<Rightarrow> ((Some e, None), h, w, [])
        | Inr gp \<Rightarrow>
            (case chef_create_clients oc (\<lambda>_. True) vms h w of
               (Some e, h', w') \<Rightarrow> ((Some e, Some gp), h', w', [])
             | (None, h', w') \<Rightarrow>
                 (case oc_create_vms oc gp h' w' of (err, gp', h'', w'') \<Rightarrow> ((err, Some gp'), h'', w'', [(gp, h')]))))"
  by (auto simp: orchestrate_vms_def chef_create_traced split: sum.splits prod.splits option.splits)
    (auto simp: traced_def Let_def split: prod.splits)

text \<open>
  C35 (created\_vms\_have\_keys): whatever the provider and the chef server do, and however the creation of a group ends,
  the provider is asked at most once to create VMs, with the parameters of the request, and when it is asked every VM of the request
  that needs one (all but application VMs and those that are there for their ports only) has a key that the chef server
  issued for it; the key is seen through the pointer that the parameters of the VM hold.  A creation that succeeds has asked, and
  returns what the provider answered.
\<close>

lemma created_vms_have_keys:
  assumes "orchestrate_vms (traced oc) pv vp n vms Action_Create ops h (w, []) = ((e, res), h2, w2, calls)" and "chef_refs_ok h vms"
  shows "length calls \<le> 1 \<and>
    (\<forall>(gp, h1)\<in>set calls. group_params_from_vm_spec pv vp n vms ops = Inr gp \<and>
       (\<forall>v\<in>set vms. needs_chef v \<longrightarrow> (\<exists>r. vr_chef v = Some r \<and> key_issued oc h1 r))) \<and>
    (e = None \<longrightarrow> (\<exists>gp h1 w1 gp'. calls = [(gp, h1)] \<and> oc_create_vms oc gp h1 w1 = (None, gp', h2, w2) \<and> res = Some gp'))"
proof (cases "\<exists>gp h1 w1. oc_chef_client oc \<and> group_params_from_vm_spec pv vp n vms ops = Inr gp \<and>
    chef_create_clients oc (\<lambda>_. True) vms h w = (None, h1, w1)")
  case True
  then obtain gp h1 w1 where ok: "oc_chef_client oc" "group_params_from_vm_spec pv vp n vms ops = Inr gp"
    "chef_create_clients oc (\<lambda>_. True) vms h w = (None, h1, w1)" by blast
  obtain err gp' h3 w3 where run: "oc_create_vms oc gp h1 w1 = (err, gp', h3, w3)" by (rule prod_cases4)
  have "e = err" "res = Some gp'" "h2 = h3" "w2 = w3" "calls = [(gp, h1)]"
    using assms(1) ok run by (simp_all add: create_traced)
  then show ?thesis using ok run chef_create_issues[OF ok(3) assms(2)] by auto
next
  case False
  then have "e \<noteq> None" "calls = []"
    using assms(1) by (auto simp: create_traced split: if_splits sum.splits prod.splits option.splits)
  then show ?thesis by simp
qed

subsection \<open>A group on which the theorems are used\<close>

text \<open>A dedicated load balancer, a master and two workers on a new subnet.\<close>

definition lab_values :: "string \<Rightarrow> string" where
  "lab_values k =
     (if k = ''MEX_NETWORK_SCHEME'' then ''cidr=10.101.X.0/24'' else if k = ''MEX_ROUTER'' then ''NONE''
      else if k = ''MEX_EXT_NETWORK'' then ''external'' else if k = ''MEX_NETWORK'' then ''mex-k8s-net-1''
      else if k = ''MEX_DNS'' then ''1.1.1.1'' else '''')"

definition lab_properties :: vm_properties where
  "lab_properties = plain_properties lab_values"

definition lab_provider :: vm_provider where
  "lab_provider =
     \<lparr>pv_name_sanitize = (\<lambda>s. s), pv_id_sanitize = (\<lambda>s. s), pv_secgrp_id = Inr, pv_internal_port_policy = attach_port_after_create,
      pv_validate_networks = (\<lambda>_. None), pv_ssh_public_key = Inl ''no key'', pv_hostname_sanitize = (\<lambda>s. s),
      pv_parse_ports = (\<lambda>_. Inr []), pv_base64 = (\<lambda>s. s), pv_range = (\<lambda>_ m. m)\<rparr>"

definition lab_vm :: "string \<Rightarrow> node_type \<Rightarrow> bool \<Rightarrow> nat \<Rightarrow> vm_request_spec" where
  "lab_vm n t ext r = empty_vm_request
     \<lparr>vr_name := n, vr_type := t, vr_flavor_name := ''m4.large'', vr_image_name := ''base'', vr_connect_external := ext,
      vr_connect_subnet := ''subnet-c1'', vr_chef := Some r\<rparr>"

definition lab_vms :: "vm_request_spec list" where
  "lab_vms = [lab_vm ''lb'' NT_Dedicated_Root_LB True 0, lab_vm ''master'' NT_K8s_Master False 1,
     lab_vm ''node1'' NT_K8s_Node False 2, lab_vm ''node2'' NT_K8s_Node False 3]"

definition lab_group :: vm_group_request where
  "lab_group = empty_group_request
     \<lparr>gr_name := ''c1'', gr_vms := lab_vms, gr_new_subnet := ''subnet-c1'', gr_new_secgrp := ''lb-sg''\<rparr>"

lemma lab_netspec: "\<exists>ni. parse_net_spec ''cidr=10.101.X.0/24'' = Inr ni \<and> ni_floating_ip_net ni = ''''"
proof -
  have parts: "strings_split ''cidr=10.101.X.0/24'' '','' = [''cidr=10.101.X.0/24'']"
    "strings_split ''cidr=10.101.X.0/24'' ''='' = [''cidr'', ''10.101.X.0/24'']"
    "strings_split ''10.101.X.0/24'' ''/'' = [''10.101.X.0'', ''24'']"
    "strings_split ''10.201.0.0/16'' ''/'' = [''10.201.0.0'', ''16'']"
    "strings_split ''10.101.X.0'' ''.'' = [''10'', ''101'', ''X'', ''0'']"
    "strings_to_lower ''cidr'' = ''cidr''" "strconv_atoi ''16'' = Some 16"
    by code_simp+
  show ?thesis
    by (simp add: parse_net_spec_def net_spec_item_def parts supported_schemes_def empty_net_spec_def
        common_internal_cidr_default_def delimiter_octet_def Let_def)
qed

text \<open>The values of the lab's settings.\<close>

lemma lab_settings:
  "get_cloudlet_network_scheme lab_properties = ''cidr=10.101.X.0/24''"
  "get_cloudlet_external_router lab_properties = no_external_router"
  "get_cloudlet_dns lab_properties = ''1.1.1.1''"
  "get_cloudlet_external_network lab_properties = ''external''"
  "vp_test_mode lab_properties" "vp_cloudlet_secgrp lab_properties = ''site-cloudlet-sg''"
  by (simp_all add: lab_properties_def plain_properties_def lab_values_def get_cloudlet_network_scheme_def
      get_cloudlet_external_router_def get_cloudlet_dns_def get_cloudlet_external_network_def no_external_router_def)

lemma lab_types:
  "vr_type (lab_vm n t e r) = t" "vr_connect_subnet (lab_vm n t e r) = ''subnet-c1''" "vr_name (lab_vm n t e r) = n"
  "vr_connect_external (lab_vm n t e r) = e" "vr_additional_networks (lab_vm n t e r) = []"
  "\<not> vr_create_ports_only (lab_vm n t e r)" "vr_chef (lab_vm n t e r) = Some r"
  by (simp_all add: lab_vm_def empty_vm_request_def)

lemma lab_group_fields:
  "gr_vms lab_group = lab_vms" "gr_new_subnet lab_group = ''subnet-c1''" "gr_new_secgrp lab_group = ''lb-sg''"
  "gr_access_ports lab_group = ''''" "gr_trust_policy lab_group = None" "\<not> gr_skip_default_secgrp lab_group"
  "\<not> gr_anti_affinity lab_group"
  by (simp_all add: lab_group_def empty_group_request_def)

lemma lab_group_works: "\<exists>vg. group_params_from_spec lab_provider lab_properties lab_group = Inr vg"
proof -
  obtain ni where ni: "parse_net_spec ''cidr=10.101.X.0/24'' = Inr ni" "ni_floating_ip_net ni = ''''"
    using lab_netspec by blast
  have dns: "strings_split ''1.1.1.1'' '','' = [''1.1.1.1'']" by code_simp
  have sg: "group_secgrps lab_provider lab_group =
      Inr [\<lparr>sg_name = ''lb-sg'', sg_access_ports = [], sg_remote_cidr = '''', sg_egress = [any_protocol_rule remote_cidr_none]\<rparr>]"
    by (simp add: group_secgrps_def get_secgrp_params_def secgrp_with_access_ports_def secgrp_with_egress_rules_def
        lab_group_fields)
  have id: "cloudlet_secgrp_id lab_provider lab_properties lab_group = Inr ''site-cloudlet-sg''"
    by (simp add: cloudlet_secgrp_id_def lab_provider_def lab_group_fields lab_settings)
  have one: "\<exists>pt n'. define_vm lab_provider lab_properties lab_group gc i n (lab_vm m t e r) = Inr (pt, n')"
    if "t \<in> {NT_Dedicated_Root_LB, NT_K8s_Master, NT_K8s_Node}" for gc i n m t e r
    using that
    by (auto simp: define_vm_def vm_role_and_ports_def external_networks_def external_port_def lab_types lab_group_fields
        lab_provider_def nt_external_primary_def Let_def)
  have all: "\<exists>parts. define_vms lab_provider lab_properties lab_group gc i n lab_vms = Inr parts" for gc i n
  proof -
    have "\<exists>parts. define_vms lab_provider lab_properties lab_group gc i n vs = Inr parts"
      if "\<forall>v\<in>set vs. \<exists>m t e r. v = lab_vm m t e r \<and> t \<in> {NT_Dedicated_Root_LB, NT_K8s_Master, NT_K8s_Node}" for vs
      using that
    proof (induction vs arbitrary: i n)
      case Nil
      then show ?case by simp
    next
      case (Cons v vs)
      then obtain pt n' where "define_vm lab_provider lab_properties lab_group gc i n v = Inr (pt, n')"
        using one by (metis list.set_intros(1))
      moreover obtain parts where "define_vms lab_provider lab_properties lab_group gc (Suc i) n' vs = Inr parts"
        using Cons by (metis list.set_intros(2))
      ultimately show ?case by simp
    qed
    moreover have "\<forall>v\<in>set lab_vms. \<exists>m t e r. v = lab_vm m t e r \<and> t \<in> {NT_Dedicated_Root_LB, NT_K8s_Master, NT_K8s_Node}"
      by (auto simp: lab_vms_def)
    ultimately show ?thesis by blast
  qed
  have cert: "vault_ssh_cert lab_provider lab_properties = Inr ''ssh-rsa DUMMYTESTCACERT''"
    by (simp add: vault_ssh_cert_def lab_settings)
  obtain parts where "define_vms lab_provider lab_properties lab_group
      (group_context lab_properties lab_group ''site-cloudlet-sg'' ni [''1.1.1.1''] ''ssh-rsa DUMMYTESTCACERT'')
      0 first_internal_octet lab_vms = Inr parts"
    using all by blast
  then show ?thesis
    by (simp add: group_params_from_spec_def lab_settings lab_group_fields dns sg id cert ni)
qed

lemma lab_counts:
  "connected_lbs lab_vms = 1 \<and> connected_masters lab_vms = 1 \<and> workers lab_vms = 2 \<and>
   filter (\<lambda>v. \<not> vr_create_ports_only v) lab_vms = lab_vms"
  by (simp add: connected_lbs_def connected_masters_def workers_def is_worker_def lab_vms_def connected_def lab_types
      is_lb_type_def is_master_type_def is_node_type_def)

definition lab_params :: vm_group_orch where
  "lab_params = projr (group_params_from_spec lab_provider lab_properties lab_group)"

lemma lab_params: "group_params_from_spec lab_provider lab_properties lab_group = Inr lab_params"
  using lab_group_works by (auto simp: lab_params_def)

lemma group_references_are_closed_witness: "group_refs_ok lab_params"
  by (rule group_references_are_closed[OF lab_params])

lemma group_has_the_requested_vms_witness:
  "map defined_vm (vg_vms lab_params) = map (requested lab_provider) lab_vms"
  using group_has_the_requested_vms[OF lab_params] lab_counts by (simp add: lab_group_fields)

lemma external_ports_are_secured_witness:
  "filter (\<lambda>p. po_net_type p = nt_external_primary \<and> po_secgrps p = []) (vg_ports lab_params) = [] \<and>
   filter (\<lambda>sg. sg_egress sg \<noteq> [any_protocol_rule remote_cidr_none]) (vg_secgrps lab_params) = []"
  using external_ports_are_secured[OF lab_params]
  by (auto simp: filter_empty_conv network_type_defs lab_group_fields)

text \<open>A chef server that issues the name of the node as its key, and a provider that always succeeds.\<close>

definition lab_orchestrator :: "unit orchestrator" where
  "lab_orchestrator =
     \<lparr>oc_chef_client = True, oc_chef_create = (\<lambda>p _ w. (Inr (''key-'' @ sc_node_name p), w)), oc_chef_delete = (\<lambda>_ w. (None, w)),
      oc_create_vms = (\<lambda>gp h w. (None, gp, h, w)), oc_update_vms = (\<lambda>gp h w. (None, gp, h, w))\<rparr>"

definition lab_chef :: "string \<Rightarrow> server_chef" where
  "lab_chef n = \<lparr>sc_node_name = n, sc_server_path = '''', sc_client_key = '''', sc_attributes = 0, sc_policy_name = ''base'',
     sc_policy_group = ''main''\<rparr>"

definition lab_heap :: chef_heap where
  "lab_heap = \<lparr>ch_params = map lab_chef [''lb'', ''master'', ''node1'', ''node2''], ch_attrs = [[]]\<rparr>"

definition lab_ops :: "vm_group_op list" where
  "lab_ops = [with_new_subnet ''subnet-c1'', with_new_security_group ''lb-sg'']"

lemma lab_request: "get_vm_group_request_spec ''c1'' lab_vms lab_ops = Inr lab_group"
  by (simp add: get_vm_group_request_spec_def lab_ops_def with_new_subnet_def with_new_security_group_def lab_group_def
      empty_group_request_def)

lemma lab_chef_create_goes:
  "\<forall>v\<in>set vs. vr_chef v \<noteq> None \<Longrightarrow> \<exists>h'. chef_create_clients lab_orchestrator want vs h () = (None, h', ())"
  by (induction vs arbitrary: h) (auto simp: lab_orchestrator_def)

text \<open>The same lab with a provider that fails: it was called with all keys in place.\<close>

definition failing_orchestrator :: "unit orchestrator" where
  "failing_orchestrator = lab_orchestrator\<lparr>oc_create_vms := (\<lambda>gp h w. (Some ''no capacity'', gp, h, w))\<rparr>"

lemma created_vms_have_keys_witness:
  "\<exists>h1 e res h2 w2. orchestrate_vms (traced failing_orchestrator) lab_provider lab_properties ''c1'' lab_vms Action_Create lab_ops lab_heap
      ((), []) = ((Some e, res), h2, w2, [(lab_params, h1)]) \<and>
     key_issued failing_orchestrator h1 0 \<and> key_issued failing_orchestrator h1 1 \<and> key_issued failing_orchestrator h1 2 \<and>
     key_issued failing_orchestrator h1 3"
proof -
  have "\<forall>v\<in>set lab_vms. vr_chef v \<noteq> None" by (simp add: lab_vms_def lab_types)
  then obtain h1 where h1: "chef_create_clients lab_orchestrator (\<lambda>_. True) lab_vms lab_heap () = (None, h1, ())"
    using lab_chef_create_goes by blast
  have same: "chef_create_clients failing_orchestrator want vs h w = chef_create_clients lab_orchestrator want vs h w" for want vs h w
    by (induction vs arbitrary: h w) (auto simp: failing_orchestrator_def lab_orchestrator_def split: option.splits)
  have "group_params_from_vm_spec lab_provider lab_properties ''c1'' lab_vms lab_ops = Inr lab_params"
    by (simp add: group_params_from_vm_spec_def lab_request lab_params)
  then have run: "orchestrate_vms (traced failing_orchestrator) lab_provider lab_properties ''c1'' lab_vms Action_Create lab_ops lab_heap
      ((), []) = ((Some ''no capacity'', Some lab_params), h1, (), [(lab_params, h1)])"
    using h1 by (simp add: create_traced same) (simp add: failing_orchestrator_def lab_orchestrator_def)
  have refs: "chef_refs_ok lab_heap lab_vms"
    by (simp add: chef_refs_ok_def lab_vms_def lab_types lab_heap_def)
  have needs: "\<forall>v\<in>set lab_vms. needs_chef v"
    by (simp add: lab_vms_def needs_chef_def lab_types)
  have keys: "\<forall>v\<in>set lab_vms. \<exists>r. vr_chef v = Some r \<and> key_issued failing_orchestrator h1 r"
    using created_vms_have_keys[OF run refs] needs by simp
  have one: "key_issued failing_orchestrator h1 r" if "lab_vm n t e r \<in> set lab_vms" for n t e r
    using bspec[OF keys that] by (simp add: lab_types)
  have "key_issued failing_orchestrator h1 0 \<and> key_issued failing_orchestrator h1 1 \<and> key_issued failing_orchestrator h1 2 \<and>
     key_issued failing_orchestrator h1 3"
    by (intro conjI; rule one, simp add: lab_vms_def, blast?)
  then show ?thesis using run by blast
qed

end
