(* ===== verification/VMLayer_Cluster.thy ===== *)
theory VMLayer_Cluster
  imports VMLayer_Group
begin

text \<open>
  Clusters on VMs, \<open>src/vmlayer/cluster.go\<close>, and the requests for load balancers they need, \<open>src/vmlayer/lb.go\<close>: the names of a cluster's
  VMs, the requests for a Docker or Kubernetes cluster, the change of the number of nodes, the creation with its clean-up, and
  the deletion.  What runs over ssh on a load balancer or on a master (kubectl, taints, the set-up of a new cluster) is
  the record \<open>cluster_ops\<close> on a world \<open>'w\<close>; functions of the edge-cloud library are in \<open>cluster_env\<close>.
\<close>

subsection \<open>Cluster instances\<close>

datatype ip_access = Access_Dedicated | Access_Shared | Access_Unknown
datatype deployment = Dep_Kubernetes | Dep_Docker | Dep_Helm | Dep_Other

record cluster_key =
  ck_cluster :: string
  ck_organization :: string
  ck_cloudlet :: string
  ck_cloudlet_org :: string

record vm_cluster_inst =
  ci_key :: cluster_key
  ci_deployment :: deployment
  ci_ip_access :: ip_access
  ci_fqdn :: string
  ci_num_masters :: nat
  ci_num_nodes :: nat
  ci_node_flavor :: string
  ci_master_flavor :: string
  ci_external_volume :: nat
  ci_shared_volume :: nat
  ci_opt_res :: string
  ci_az :: string
  ci_skip_cleanup :: bool

datatype net_connection = Connect_LB | Connect_Nodes | Connect_All | Connect_Other

record net_def =
  nd_name :: string
  nd_connection :: net_connection
  nd_routes :: "route list"

text \<open>What \<open>vmspec.GetVMSpec\<close> gives for the flavor of a load balancer.\<close>

record vm_creation_spec =
  cs_flavor_name :: string
  cs_availability_zone :: string
  cs_external_volume :: nat

record lb_flavor =
  lf_name :: string
  lf_ram :: nat
  lf_vcpus :: nat
  lf_disk :: nat

record cluster_env =
  ce_cluster_name :: "cluster_key \<Rightarrow> string"     \<comment> \<open>\<open>k8smgmt.GetCloudletClusterName\<close>\<close>
  ce_node_prefix :: string                       \<comment> \<open>\<open>cloudcommon.MexNodePrefix\<close>\<close>
  ce_networks :: "vm_cluster_inst \<Rightarrow> string + net_def list"
  ce_image :: "string + string"                  \<comment> \<open>\<open>GetCloudletImageToUse\<close>\<close>
  ce_no_flavors :: bool                          \<comment> \<open>\<open>v.FlavorList\<close> is empty\<close>
  ce_get_vm_spec :: "lb_flavor \<Rightarrow> string + vm_creation_spec"
  ce_type_name :: "node_type \<Rightarrow> string"

subsection \<open>Names\<close>

definition mex_subnet_prefix :: string where "mex_subnet_prefix = ''mex-k8s-subnet-''"

definition get_cluster_subnet_name :: "cluster_env \<Rightarrow> vm_cluster_inst \<Rightarrow> string" where
  "get_cluster_subnet_name ce ci = mex_subnet_prefix @ ce_cluster_name ce (ci_key ci)"

definition get_cluster_master_name :: "cluster_env \<Rightarrow> vm_cluster_inst \<Rightarrow> string" where
  "get_cluster_master_name ce ci =
     (if ci_deployment ci = Dep_Docker then ''mex-docker-vm'' else ''mex-k8s-master'') @ ''-'' @ ce_cluster_name ce (ci_key ci)"

definition get_docker_node_name :: "cluster_env \<Rightarrow> vm_cluster_inst \<Rightarrow> string" where
  "get_docker_node_name ce ci = ''mex-docker-vm'' @ ''-'' @ ce_cluster_name ce (ci_key ci)"

definition cluster_node_prefix :: "cluster_env \<Rightarrow> nat \<Rightarrow> string" where
  "cluster_node_prefix ce n = ce_node_prefix ce @ nat_digits n"

definition get_cluster_node_name :: "cluster_env \<Rightarrow> vm_cluster_inst \<Rightarrow> nat \<Rightarrow> string" where
  "get_cluster_node_name ce ci n = cluster_node_prefix ce n @ ''-'' @ ce_cluster_name ce (ci_key ci)"

text \<open>
  \<open>ParseClusterNodePrefix\<close>: the digits after the prefix, as an unsigned 32-bit number.  An error of \<open>Atoi\<close>, which can only be a number
  out of range, is ignored: \<open>Atoi\<close> then gives the largest \<open>int\<close>, of which the low 32 bits are all ones.
\<close>

definition parse_cluster_node_prefix :: "cluster_env \<Rightarrow> string \<Rightarrow> nat option" where
  "parse_cluster_node_prefix ce s =
     (if strings_has_prefix s (ce_node_prefix ce)
      then let ds = takeWhile (\<lambda>c. char_digit c \<noteq> None) (drop (length (ce_node_prefix ce)) s) in
        if ds = [] then None
        else Some (case strconv_atoi ds of Some i \<Rightarrow> nat (i mod 2 ^ 32) | None \<Rightarrow> 2 ^ 32 - 1)
      else None)"

definition get_root_lb_name_for_cluster :: "vm_properties \<Rightarrow> vm_cluster_inst \<Rightarrow> string" where
  "get_root_lb_name_for_cluster vp ci =
     (if ci_ip_access ci = Access_Dedicated then ci_fqdn ci else vp_shared_root_lb vp)"

definition get_server_security_group_name :: "string \<Rightarrow> string" where
  "get_server_security_group_name n = n @ ''-sg''"

definition get_chef_cluster_tags :: "cluster_env \<Rightarrow> vm_properties \<Rightarrow> cluster_key \<Rightarrow> node_type \<Rightarrow> string list" where
  "get_chef_cluster_tags ce vp k t =
     [''deploytag/'' @ vp_deployment_tag vp, ''cluster/'' @ ck_cluster k, ''clusterorg/'' @ ck_organization k,
      ''cloudlet/'' @ ck_cloudlet k, ''cloudletorg/'' @ ck_cloudlet_org k, ''region/'' @ vp_region vp,
      ''nodetype/'' @ ce_type_name ce t]"

subsection \<open>Load balancers\<close>

definition mex_root_lb_flavor_name :: string where "mex_root_lb_flavor_name = ''mex-rootlb-flavor''"

definition uint_property :: "string \<Rightarrow> nat \<Rightarrow> nat option" where
  "uint_property v dflt = (if v \<noteq> '''' then strconv_parse_uint 64 v else Some dflt)"

definition get_cloudlet_shared_root_lb_flavor :: "vm_properties \<Rightarrow> string + lb_flavor" where
  "get_cloudlet_shared_root_lb_flavor vp =
     (case uint_property (vp_value vp ''MEX_SHARED_ROOTLB_RAM'') 4096 of
        None \<Rightarrow> Inl ''invalid RAM''
      | Some ram \<Rightarrow>
          (case uint_property (vp_value vp ''MEX_SHARED_ROOTLB_VCPUS'') 2 of
             None \<Rightarrow> Inl ''invalid VCPUs''
           | Some vcpus \<Rightarrow>
               (case uint_property (vp_value vp ''MEX_SHARED_ROOTLB_DISK'') 40 of
                  None \<Rightarrow> Inl ''invalid disk''
                | Some disk \<Rightarrow>
                    Inr \<lparr>lf_name = mex_root_lb_flavor_name, lf_ram = ram, lf_vcpus = vcpus, lf_disk = disk\<rparr>)))"

text \<open>A request with fresh chef parameters for the node, with the attribute map \<open>attrs\<close>.\<close>

definition chef_policy_base :: string where "chef_policy_base = ''base''"

definition node_chef_params :: "vm_properties \<Rightarrow> string \<Rightarrow> nat \<Rightarrow> chef_heap \<Rightarrow> nat \<times> chef_heap" where
  "node_chef_params vp node attrs h = get_server_chef_params vp (get_chef_client_name vp node) '''' chef_policy_base attrs h"

text \<open>
  \<open>GetVMSpecForRootLB\<close>.  The source also works out an availability zone, that of the spec or else the Cloudlet's, and does not use it.
\<close>

definition get_vm_spec_for_root_lb ::
    "cluster_env \<Rightarrow> vm_properties \<Rightarrow> string \<Rightarrow> string \<Rightarrow> string list \<Rightarrow> (string, network_type) gmap \<Rightarrow> (string, route list) gmap
       \<Rightarrow> chef_heap \<Rightarrow> (string + vm_request_spec) \<times> chef_heap" where
  "get_vm_spec_for_root_lb ce vp lb subnet tags nets routes h =
     (case get_cloudlet_shared_root_lb_flavor vp of
        Inl e \<Rightarrow> (Inl (''unable to get Shared RootLB Flavor: '' @ e), h)
      | Inr flavor \<Rightarrow>
          (case (if ce_no_flavors ce
                 then Inr \<lparr>cs_flavor_name = lf_name flavor, cs_availability_zone = '''', cs_external_volume = 0\<rparr>
                 else ce_get_vm_spec ce flavor) of
             Inl e \<Rightarrow> (Inl (''unable to find VM spec for RootLB: '' @ e), h)
           | Inr spec \<Rightarrow>
               (case ce_image ce of
                  Inl e \<Rightarrow> (Inl e, h)
                | Inr img \<Rightarrow>
                    let (attrs, h1) = new_attributes tags h;
                        (chef, h2) = node_chef_params vp lb attrs h1;
                        all_nets = fold (\<lambda>(c, n). gput c n) (get_networks_by_type vp [nt_additional_root_lb]) nets;
                        nt = (if lb = vp_shared_root_lb vp then NT_Shared_Root_LB else NT_Dedicated_Root_LB) in
                    (get_vm_request_spec nt lb (cs_flavor_name spec) img True
                       [with_external_volume (cs_external_volume spec), with_subnet_connection subnet, with_chef_params chef,
                        with_additional_networks all_nets, with_routes routes], h2))))"

definition get_vm_spec_for_shared_root_lb_ports :: "string \<Rightarrow> string \<Rightarrow> string + vm_request_spec" where
  "get_vm_spec_for_shared_root_lb_ports lb subnet =
     get_vm_request_spec NT_Shared_Root_LB lb ''dummyflavor'' ''dummyimage'' False
       [with_create_ports_only True, with_subnet_connection subnet]"

subsection \<open>Requests for the VMs of a cluster\<close>

record cluster_nets =
  cn_lb_nets :: "(string, network_type) gmap"
  cn_node_nets :: "(string, network_type) gmap"
  cn_lb_routes :: "(string, route list) gmap"
  cn_node_routes :: "(string, route list) gmap"

definition add_routes :: "string \<Rightarrow> route list \<Rightarrow> (string, route list) gmap \<Rightarrow> (string, route list) gmap" where
  "add_routes n rs m = gput n ((case map_of m n of None \<Rightarrow> [] | Some old \<Rightarrow> old) @ rs) m"

definition add_lb_net :: "net_def \<Rightarrow> cluster_nets \<Rightarrow> cluster_nets" where
  "add_lb_net n cn = cn\<lparr>cn_lb_nets := gput (nd_name n) nt_additional_root_lb (cn_lb_nets cn),
                        cn_lb_routes := add_routes (nd_name n) (nd_routes n) (cn_lb_routes cn)\<rparr>"

definition add_node_net :: "net_def \<Rightarrow> cluster_nets \<Rightarrow> cluster_nets" where
  "add_node_net n cn = cn\<lparr>cn_node_nets := gput (nd_name n) nt_additional_cluster_node (cn_node_nets cn),
                          cn_node_routes := add_routes (nd_name n) (nd_routes n) (cn_node_routes cn)\<rparr>"

definition add_cluster_net :: "net_def \<Rightarrow> cluster_nets \<Rightarrow> cluster_nets" where
  "add_cluster_net n cn =
     (case nd_connection n of
        Connect_LB \<Rightarrow> add_lb_net n cn
      | Connect_Nodes \<Rightarrow> add_node_net n cn
      | Connect_All \<Rightarrow> add_node_net n (add_lb_net n cn)
      | Connect_Other \<Rightarrow> cn)"

definition sort_networks :: "net_def list \<Rightarrow> cluster_nets" where
  "sort_networks ns = fold add_cluster_net ns \<lparr>cn_lb_nets = [], cn_node_nets = [], cn_lb_routes = [], cn_node_routes = []\<rparr>"

text \<open>
  The load balancer of a cluster: a dedicated one is created with the cluster and has a security group; of a shared one only
  ports are made, and only when there is no router at all.
\<close>

definition cluster_lb_request ::
    "cluster_env \<Rightarrow> vm_properties \<Rightarrow> vm_cluster_inst \<Rightarrow> cluster_nets \<Rightarrow> chef_heap
       \<Rightarrow> (string + vm_request_spec list \<times> string) \<times> chef_heap" where
  "cluster_lb_request ce vp ci cn h =
     (let subnet = get_cluster_subnet_name ce ci in
      if ci_ip_access ci = Access_Dedicated then
        (case get_vm_spec_for_root_lb ce vp (get_root_lb_name_for_cluster vp ci) subnet
                (get_chef_cluster_tags ce vp (ci_key ci) NT_Dedicated_Root_LB) (cn_lb_nets cn) (cn_lb_routes cn) h of
           (Inl e, h') \<Rightarrow> (Inl e, h')
         | (Inr lb, h') \<Rightarrow> (Inr ([lb], get_server_security_group_name (vr_name lb)), h'))
      else if get_cloudlet_external_router vp = no_external_router then
        (case get_vm_spec_for_shared_root_lb_ports (vp_shared_root_lb vp) subnet of
           Inl e \<Rightarrow> (Inl e, h)
         | Inr lb \<Rightarrow> (Inr ([lb], ''''), h))
      else (Inr ([], ''''), h))"

definition docker_node_request ::
    "cluster_env \<Rightarrow> vm_properties \<Rightarrow> string \<Rightarrow> vm_cluster_inst \<Rightarrow> cluster_nets \<Rightarrow> chef_heap
       \<Rightarrow> (string + vm_request_spec) \<times> chef_heap" where
  "docker_node_request ce vp img ci cn h =
     (let (attrs, h1) = new_attributes (get_chef_cluster_tags ce vp (ci_key ci) NT_Docker_Node) h;
          (chef, h2) = node_chef_params vp (get_docker_node_name ce ci) attrs h1 in
      (get_vm_request_spec NT_Docker_Node (get_docker_node_name ce ci) (ci_node_flavor ci) img False
         [with_external_volume (ci_external_volume ci), with_subnet_connection (get_cluster_subnet_name ce ci),
          with_chef_params chef, with_optional_resource (ci_opt_res ci), with_compute_az (ci_az ci),
          with_additional_networks (cn_node_nets cn), with_routes (cn_node_routes cn)], h2))"

definition master_request ::
    "cluster_env \<Rightarrow> vm_properties \<Rightarrow> string \<Rightarrow> vm_cluster_inst \<Rightarrow> chef_heap \<Rightarrow> (string + vm_request_spec) \<times> chef_heap" where
  "master_request ce vp img ci h =
     (let (attrs, h1) = new_attributes (get_chef_cluster_tags ce vp (ci_key ci) NT_K8s_Master) h;
          (chef, h2) = node_chef_params vp (get_cluster_master_name ce ci) attrs h1;
          flavor = (if ci_master_flavor ci = '''' then ci_node_flavor ci else ci_master_flavor ci);
          az = (if ci_num_nodes ci = 0 then ci_az ci else '''') in
      (get_vm_request_spec NT_K8s_Master (get_cluster_master_name ce ci) flavor img False
         [with_shared_volume (ci_shared_volume ci), with_external_volume (ci_external_volume ci),
          with_subnet_connection (get_cluster_subnet_name ce ci), with_chef_params chef, with_compute_az az], h2))"

definition k8s_node_request ::
    "cluster_env \<Rightarrow> vm_properties \<Rightarrow> string \<Rightarrow> vm_cluster_inst \<Rightarrow> cluster_nets \<Rightarrow> nat \<Rightarrow> nat \<Rightarrow> chef_heap
       \<Rightarrow> (string + vm_request_spec) \<times> chef_heap" where
  "k8s_node_request ce vp img ci cn attrs n h =
     (let (chef, h1) = node_chef_params vp (get_cluster_node_name ce ci n) attrs h in
      (get_vm_request_spec NT_K8s_Node (get_cluster_node_name ce ci n) (ci_node_flavor ci) img False
         [with_external_volume (ci_external_volume ci), with_subnet_connection (get_cluster_subnet_name ce ci),
          with_chef_params chef, with_compute_az (ci_az ci),
          with_additional_networks (cn_node_nets cn), with_routes (cn_node_routes cn)], h1))"

fun k8s_node_requests ::
    "cluster_env \<Rightarrow> vm_properties \<Rightarrow> string \<Rightarrow> vm_cluster_inst \<Rightarrow> cluster_nets \<Rightarrow> nat \<Rightarrow> nat list \<Rightarrow> chef_heap
       \<Rightarrow> (string + vm_request_spec list) \<times> chef_heap" where
  "k8s_node_requests ce vp img ci cn attrs [] h = (Inr [], h)"
| "k8s_node_requests ce vp img ci cn attrs (n # ns) h =
     (case k8s_node_request ce vp img ci cn attrs n h of
        (Inl e, h') \<Rightarrow> (Inl e, h')
      | (Inr v, h') \<Rightarrow>
          (case k8s_node_requests ce vp img ci cn attrs ns h' of
             (Inl e, h'') \<Rightarrow> (Inl e, h'')
           | (Inr vs, h'') \<Rightarrow> (Inr (v # vs), h'')))"

text \<open>\<open>getVMRequestSpecForDockerCluster\<close>, and the Kubernetes branch of \<open>PerformOrchestrationForCluster\<close>: the VMs and the security group.\<close>

definition docker_cluster_requests ::
    "cluster_env \<Rightarrow> vm_properties \<Rightarrow> string \<Rightarrow> vm_cluster_inst \<Rightarrow> cluster_nets \<Rightarrow> chef_heap
       \<Rightarrow> (string + vm_request_spec list \<times> string) \<times> chef_heap" where
  "docker_cluster_requests ce vp img ci cn h =
     (case cluster_lb_request ce vp ci cn h of
        (Inl e, h1) \<Rightarrow> (Inl e, h1)
      | (Inr (lbs, sg), h1) \<Rightarrow>
          (case docker_node_request ce vp img ci cn h1 of
             (Inl e, h2) \<Rightarrow> (Inl e, h2)
           | (Inr v, h2) \<Rightarrow> (Inr (lbs @ [v], sg), h2)))"

definition k8s_cluster_requests ::
    "cluster_env \<Rightarrow> vm_properties \<Rightarrow> vm_cluster_inst \<Rightarrow> cluster_nets \<Rightarrow> chef_heap
       \<Rightarrow> (string + vm_request_spec list \<times> string) \<times> chef_heap" where
  "k8s_cluster_requests ce vp ci cn h =
     (case ce_image ce of
        Inl e \<Rightarrow> (Inl e, h)
      | Inr img \<Rightarrow>
          (case cluster_lb_request ce vp ci cn h of
             (Inl e, h1) \<Rightarrow> (Inl e, h1)
           | (Inr (lbs, sg), h1) \<Rightarrow>
               (case master_request ce vp img ci h1 of
                  (Inl e, h2) \<Rightarrow> (Inl e, h2)
                | (Inr m, h2) \<Rightarrow>
                    let (attrs, h3) = new_attributes (get_chef_cluster_tags ce vp (ci_key ci) NT_K8s_Node) h2 in
                    (case k8s_node_requests ce vp img ci cn attrs [1..<Suc (ci_num_nodes ci)] h3 of
                       (Inl e, h4) \<Rightarrow> (Inl e, h4)
                     | (Inr ns, h4) \<Rightarrow> (Inr (lbs @ m # ns, sg), h4)))))"

definition cluster_requests ::
    "cluster_env \<Rightarrow> vm_properties \<Rightarrow> string \<Rightarrow> vm_cluster_inst \<Rightarrow> chef_heap
       \<Rightarrow> (string + vm_request_spec list \<times> string) \<times> chef_heap" where
  "cluster_requests ce vp img ci h =
     (case ce_networks ce ci of
        Inl e \<Rightarrow> (Inl e, h)
      | Inr ns \<Rightarrow>
          if ci_deployment ci = Dep_Docker then docker_cluster_requests ce vp img ci (sort_networks ns) h
          else k8s_cluster_requests ce vp ci (sort_networks ns) h)"

definition cluster_group_ops ::
    "cluster_env \<Rightarrow> vm_cluster_inst \<Rightarrow> string \<Rightarrow> (string, string) gmap option \<Rightarrow> vm_group_op list" where
  "cluster_group_ops ce ci sg info =
     [with_new_subnet (get_cluster_subnet_name ce ci), with_new_security_group sg, with_chef_update_info info,
      with_skip_cleanup_on_failure (ci_skip_cleanup ci)]"

definition perform_orchestration_for_cluster ::
    "'w orchestrator \<Rightarrow> vm_provider \<Rightarrow> vm_properties \<Rightarrow> cluster_env \<Rightarrow> string \<Rightarrow> vm_cluster_inst \<Rightarrow> vm_action_type
       \<Rightarrow> (string, string) gmap option \<Rightarrow> chef_heap \<Rightarrow> 'w \<Rightarrow> (string option \<times> vm_group_orch option) \<times> chef_heap \<times> 'w" where
  "perform_orchestration_for_cluster oc pv vp ce img ci act info h w =
     (case cluster_requests ce vp img ci h of
        (Inl e, h') \<Rightarrow> ((Some e, None), h', w)
      | (Inr (vms, sg), h') \<Rightarrow>
          orchestrate_vms oc pv vp (ce_cluster_name ce (ci_key ci)) vms act (cluster_group_ops ce ci sg info) h' w)"

subsection \<open>Changing the number of nodes\<close>

definition is_space :: "char \<Rightarrow> bool" where
  "is_space c \<longleftrightarrow> c \<in> {CHR '' '', CHR 0x09, CHR 0x0A, CHR 0x0B, CHR 0x0C, CHR 0x0D}"

text \<open>\<open>strings.TrimSpace\<close> on the ASCII range.\<close>

definition strings_trim_space :: "string \<Rightarrow> string" where
  "strings_trim_space s = rev (dropWhile is_space (rev (dropWhile is_space s)))"

definition action_add :: string where "action_add = ''add''"
definition action_remove :: string where "action_remove = ''remove''"
definition action_none :: string where "action_none = ''none''"

lemmas action_defs = action_add_def action_remove_def action_none_def

record node_scan =
  ns_remove :: "string list"
  ns_masters :: nat
  ns_nodes :: nat
  ns_info :: "(string, string) gmap"

text \<open>The loop over the names of \<open>kubectl get nodes\<close>.\<close>

definition scan_node :: "cluster_env \<Rightarrow> vm_cluster_inst \<Rightarrow> string \<Rightarrow> node_scan \<Rightarrow> node_scan" where
  "scan_node ce ci n ns =
     (if \<not> strings_has_prefix n (ce_node_prefix ce) then ns\<lparr>ns_masters := Suc (ns_masters ns)\<rparr>
      else case parse_cluster_node_prefix ce n of
          None \<Rightarrow> ns
        | Some num \<Rightarrow>
            let name = get_cluster_node_name ce ci num; ns' = ns\<lparr>ns_nodes := Suc (ns_nodes ns)\<rparr> in
            if num > ci_num_nodes ci
            then ns'\<lparr>ns_remove := ns_remove ns @ [n], ns_info := gput name action_remove (ns_info ns)\<rparr>
            else ns'\<lparr>ns_info := gput name action_none (ns_info ns)\<rparr>)"

definition scan_nodes :: "cluster_env \<Rightarrow> vm_cluster_inst \<Rightarrow> string list \<Rightarrow> node_scan" where
  "scan_nodes ce ci all =
     fold (scan_node ce ci) all \<lparr>ns_remove = [], ns_masters = 0, ns_nodes = 0, ns_info = []\<rparr>"

text \<open>The nodes that are wanted and were not seen.\<close>

definition add_missing :: "cluster_env \<Rightarrow> vm_cluster_inst \<Rightarrow> (string, string) gmap \<Rightarrow> (string, string) gmap" where
  "add_missing ce ci info =
     fold (\<lambda>n m. let name = get_cluster_node_name ce ci n in
             if map_of m name = None then gput name action_add m else m) [1..<Suc (ci_num_nodes ci)] info"

text \<open>
  What runs on the load balancer and the master of a cluster.  \<open>co_taint\<close> sets (\<open>True\<close>) or removes the taint of the master;
  \<open>co_setup\<close> is \<open>setupClusterRootLBAndNodes\<close>; \<open>co_client\<close> says whether a client of the load balancer can be had;
  \<open>co_detach\<close>, \<open>co_delete_dns\<close>, \<open>co_clean_config\<close> and \<open>co_clean_gpu\<close> are calls whose errors are only logged; the last is told whether there is
  a client, as it is called with a nil one too.  \<open>co_gpu_stage\<close>: the provider sets up GPUs with the ClusterInst.
\<close>

record 'w cluster_ops =
  co_master_name :: "'w \<Rightarrow> (string + string) \<times> 'w"
  co_get_nodes :: "'w \<Rightarrow> (string + string) \<times> 'w"
  co_taint :: "string \<Rightarrow> bool \<Rightarrow> 'w \<Rightarrow> string option \<times> 'w"
  co_delete_nodes :: "string list \<Rightarrow> 'w \<Rightarrow> string option \<times> 'w"
  co_setup :: "vm_group_orch option \<Rightarrow> vm_action_type \<Rightarrow> 'w \<Rightarrow> string option \<times> 'w"
  co_client :: "'w \<Rightarrow> string option \<times> 'w"
  co_detach :: "string \<Rightarrow> string \<Rightarrow> 'w \<Rightarrow> 'w"
  co_delete_vms :: "string \<Rightarrow> 'w \<Rightarrow> string option \<times> 'w"
  co_delete_dns :: "string \<Rightarrow> 'w \<Rightarrow> 'w"
  co_clean_config :: "'w \<Rightarrow> 'w"
  co_gpu_stage :: bool
  co_clean_gpu :: "bool \<Rightarrow> 'w \<Rightarrow> 'w"

text \<open>Everything from the orchestration on; \<open>taint\<close> says whether the master gets its taint back at the end.\<close>

definition finish_update ::
    "'w cluster_ops \<Rightarrow> 'w orchestrator \<Rightarrow> vm_provider \<Rightarrow> vm_properties \<Rightarrow> cluster_env \<Rightarrow> string \<Rightarrow> vm_cluster_inst \<Rightarrow> string
       \<Rightarrow> bool \<Rightarrow> (string, string) gmap \<Rightarrow> chef_heap \<Rightarrow> 'w \<Rightarrow> string option \<times> chef_heap \<times> 'w" where
  "finish_update co oc pv vp ce img ci master taint info h w =
     (case perform_orchestration_for_cluster oc pv vp ce img ci Action_Update (Some info) h w of
        ((Some e, _), h', w') \<Rightarrow> (Some e, h', w')
      | ((None, vg), h', w') \<Rightarrow>
          (case co_setup co vg Action_Update w' of
             (Some e, w2) \<Rightarrow> (Some e, h', w2)
           | (None, w2) \<Rightarrow>
               if taint then (case co_taint co master True w2 of (e, w3) \<Rightarrow> (e, h', w3)) else (None, h', w2)))"

definition update_cluster_internal ::
    "'w cluster_ops \<Rightarrow> 'w orchestrator \<Rightarrow> vm_provider \<Rightarrow> vm_properties \<Rightarrow> cluster_env \<Rightarrow> string \<Rightarrow> vm_cluster_inst
       \<Rightarrow> chef_heap \<Rightarrow> 'w \<Rightarrow> string option \<times> chef_heap \<times> 'w" where
  "update_cluster_internal co oc pv vp ce img ci h w =
     (case co_master_name co w of
        (Inl e, w1) \<Rightarrow> (Some e, h, w1)
      | (Inr master, w1) \<Rightarrow>
          if ci_deployment ci \<noteq> Dep_Kubernetes
          then finish_update co oc pv vp ce img ci master False [] h w1
          else case co_get_nodes co w1 of
              (Inl e, w2) \<Rightarrow> (Some e, h, w2)
            | (Inr out, w2) \<Rightarrow>
                let ns = scan_nodes ce ci (strings_split (strings_trim_space out) [CHR 0x0A]) in
                (case (if ns_remove ns \<noteq> []
                       then (case (if ci_num_nodes ci = 0 then co_taint co master False w2 else (None, w2)) of
                               (Some e, w3) \<Rightarrow> (Some e, w3)
                             | (None, w3) \<Rightarrow> co_delete_nodes co (ns_remove ns) w3)
                       else (None, w2)) of
                   (Some e, w4) \<Rightarrow> (Some e, h, w4)
                 | (None, w4) \<Rightarrow>
                     if ns_masters ns = ci_num_masters ci \<and> ns_nodes ns = ci_num_nodes ci then (None, h, w4)
                     else finish_update co oc pv vp ce img ci master (ci_num_nodes ci > 0 \<and> ns_nodes ns = 0)
                            (add_missing ce ci (ns_info ns)) h w4))"

subsection \<open>Deletion and creation\<close>

definition server_does_not_exist :: string where "server_does_not_exist = ''Server does not exist''"
definition server_ip_not_found :: string where "server_ip_not_found = ''unable to find IP''"

text \<open>The names of the nodes whose chef clients are deleted with the cluster, in order.\<close>

definition deleted_chef_nodes :: "vm_properties \<Rightarrow> cluster_env \<Rightarrow> vm_cluster_inst \<Rightarrow> string list" where
  "deleted_chef_nodes vp ce ci =
     (if ci_ip_access ci = Access_Dedicated then [get_root_lb_name_for_cluster vp ci] else []) @
     (if ci_deployment ci = Dep_Docker then [get_docker_node_name ce ci]
      else get_cluster_master_name ce ci # map (get_cluster_node_name ce ci) [1..<Suc (ci_num_nodes ci)])"

definition delete_chef_clients :: "'w orchestrator \<Rightarrow> vm_properties \<Rightarrow> string list \<Rightarrow> 'w \<Rightarrow> 'w" where
  "delete_chef_clients oc vp ns w = fold (\<lambda>n w. snd (oc_chef_delete oc (get_chef_client_name vp n) w)) ns w"

definition delete_cluster ::
    "'w cluster_ops \<Rightarrow> 'w orchestrator \<Rightarrow> vm_properties \<Rightarrow> cluster_env \<Rightarrow> string \<Rightarrow> vm_cluster_inst \<Rightarrow> 'w \<Rightarrow> string option \<times> 'w" where
  "delete_cluster co oc vp ce lb ci w =
     (if \<not> oc_chef_client oc then (Some ''Chef client is not initialzied'', w)
      else case co_client co w of
          (cerr, w1) \<Rightarrow>
            if (case cerr of None \<Rightarrow> False
                | Some e \<Rightarrow> \<not> strings_contains e server_does_not_exist \<and> \<not> strings_contains e server_ip_not_found)
            then (cerr, w1)
            else
              let dedicated = (ci_ip_access ci = Access_Dedicated);
                  w2 = (if \<not> dedicated \<and> cerr = None then co_detach co lb (get_cluster_subnet_name ce ci) w1 else w1) in
              (case co_delete_vms co (ce_cluster_name ce (ci_key ci)) w2 of
                 (verr, w3) \<Rightarrow>
                   if verr \<noteq> None \<and> verr \<noteq> Some server_does_not_exist then (verr, w3)
                   else
                     let w4 = (if dedicated then co_delete_dns co lb w3
                               else if ci_deployment ci \<in> {Dep_Kubernetes, Dep_Helm} then
                                 (let w3' = (if cerr = None then co_clean_config co w3 else w3)
                                  in if ci_opt_res ci = ''gpu'' \<and> co_gpu_stage co then co_clean_gpu co (cerr = None) w3' else w3')
                               else w3)
                     in (None, delete_chef_clients oc vp (deleted_chef_nodes vp ce ci) w4)))"

text \<open>At least one attempt, plus the retries that the provider asks for; sleeps are left out.\<close>

fun cleanup_attempts :: "nat \<Rightarrow> ('w \<Rightarrow> string option \<times> 'w) \<Rightarrow> 'w \<Rightarrow> string option \<times> 'w" where
  "cleanup_attempts 0 del w = del w"
| "cleanup_attempts (Suc n) del w =
     (case del w of (None, w') \<Rightarrow> (None, w') | (Some e, w') \<Rightarrow> cleanup_attempts n del w')"

definition cleanup_cluster_inst ::
    "'w cluster_ops \<Rightarrow> 'w orchestrator \<Rightarrow> vm_properties \<Rightarrow> cluster_env \<Rightarrow> vm_cluster_inst \<Rightarrow> 'w \<Rightarrow> string option \<times> 'w" where
  "cleanup_cluster_inst co oc vp ce ci w =
     (if vp_cleanup_retries vp < 0 then (Some ''Failed to cleanup cluster - <nil>'', w)
      else case cleanup_attempts (nat (vp_cleanup_retries vp))
                  (delete_cluster co oc vp ce (get_root_lb_name_for_cluster vp ci) ci) w of
          (None, w') \<Rightarrow> (None, w')
        | (Some e, w') \<Rightarrow> (Some (''Failed to cleanup cluster - '' @ e), w'))"

definition create_cluster_internal ::
    "'w cluster_ops \<Rightarrow> 'w orchestrator \<Rightarrow> vm_provider \<Rightarrow> vm_properties \<Rightarrow> cluster_env \<Rightarrow> string \<Rightarrow> vm_cluster_inst
       \<Rightarrow> chef_heap \<Rightarrow> 'w \<Rightarrow> string option \<times> chef_heap \<times> 'w" where
  "create_cluster_internal co oc pv vp ce img ci h w =
     (case (case perform_orchestration_for_cluster oc pv vp ce img ci Action_Create None h w of
              ((Some e, _), h', w') \<Rightarrow> (Some (''Cluster VM create Failed: '' @ e), h', w')
            | ((None, vg), h', w') \<Rightarrow> (case co_setup co vg Action_Create w' of (e, w'') \<Rightarrow> (e, h', w''))) of
        (None, h', w') \<Rightarrow> (None, h', w')
      | (Some e, h', w') \<Rightarrow>
          (Some e, h', if ci_skip_cleanup ci then w' else snd (cleanup_cluster_inst co oc vp ce ci w')))"

text \<open>\<open>CreateClusterInst\<close>: the check of the disk.  The image lookup is the caller's \<open>img\<close>.\<close>

definition minimum_disk_size :: nat where "minimum_disk_size = 20"

definition create_cluster_inst ::
    "'w cluster_ops \<Rightarrow> 'w orchestrator \<Rightarrow> vm_provider \<Rightarrow> vm_properties \<Rightarrow> cluster_env \<Rightarrow> (string \<times> nat) list \<Rightarrow> vm_cluster_inst
       \<Rightarrow> chef_heap \<Rightarrow> 'w \<Rightarrow> string option \<times> chef_heap \<times> 'w" where
  "create_cluster_inst co oc pv vp ce flavors ci h w =
     (if \<exists>(n, disk)\<in>set flavors. n = ci_node_flavor ci \<and> disk < minimum_disk_size \<and> ci_external_volume ci < minimum_disk_size
      then (Some ''Insufficient disk size, please specify a flavor with at least 20gb'', h, w)
      else case ce_image ce of
          Inl e \<Rightarrow> (Some e, h, w)
        | Inr img \<Rightarrow> create_cluster_internal co oc pv vp ce img ci h w)"

end
