(* ===== verification/Openstack_Heat.thy ===== *)
theory Openstack_Heat
  imports VMLayer_Cluster
begin

text \<open>
  How the Openstack provider fills in the parameters of a group: \<open>populateParams\<close> of \<open>src/crm-platforms/openstack/openstack-heat.go\<close>
  with the reservations of \<open>openstack-resource-reservations.go\<close>, and the user data of \<open>src/vmlayer/vmconfig.go\<close>.  It runs under a
  lock, so it is one step; the stack is made afterwards, without the lock, while the chosen subnet and floating IPs stay reserved.
  What Openstack answers is the record \<open>os_answers\<close>; templates are executed by the argument \<open>oa_exec_template\<close>.
\<close>

subsection \<open>Reservations\<close>

record os_reservations =
  rs_fips :: "string \<rightharpoonup> string"
  rs_subnets :: "string \<rightharpoonup> string"

record reserved_resources =
  rv_fips :: "string list"
  rv_subnets :: "string list"

definition init_resource_reservations :: os_reservations where
  "init_resource_reservations = \<lparr>rs_fips = Map.empty, rs_subnets = Map.empty\<rparr>"

definition reserve_fip :: "string \<Rightarrow> string \<Rightarrow> os_reservations \<Rightarrow> string option \<times> os_reservations" where
  "reserve_fip f by rs =
     (case rs_fips rs f of
        Some u \<Rightarrow> (Some (''Floating IP already reserved, fip: '' @ f @ '' reservedBy: '' @ u), rs)
      | None \<Rightarrow> (None, rs\<lparr>rs_fips := (rs_fips rs)(f \<mapsto> by)\<rparr>))"

definition reserve_subnet :: "string \<Rightarrow> string \<Rightarrow> os_reservations \<Rightarrow> string option \<times> os_reservations" where
  "reserve_subnet c by rs =
     (case rs_subnets rs c of
        Some u \<Rightarrow> (Some (''Subnet CIDR already reserved, cidr: '' @ c @ '' reservedBy: '' @ u), rs)
      | None \<Rightarrow> (None, rs\<lparr>rs_subnets := (rs_subnets rs)(c \<mapsto> by)\<rparr>))"

definition release_fip :: "string \<Rightarrow> os_reservations \<Rightarrow> string option \<times> os_reservations" where
  "release_fip f rs =
     (if rs_fips rs f = None then (Some (''Floating IP not reserved, cannot be released: '' @ f), rs)
      else (None, rs\<lparr>rs_fips := (rs_fips rs)(f := None)\<rparr>))"

definition release_subnet :: "string \<Rightarrow> os_reservations \<Rightarrow> string option \<times> os_reservations" where
  "release_subnet c rs =
     (if rs_subnets rs c = None then (Some (''Subnet not reserved, cannot be released: '' @ c), rs)
      else (None, rs\<lparr>rs_subnets := (rs_subnets rs)(c := None)\<rparr>))"

text \<open>Reserve one after the other until one fails: the error, what was reserved, and the state.\<close>

fun reserve_each ::
    "(string \<Rightarrow> os_reservations \<Rightarrow> string option \<times> os_reservations) \<Rightarrow> string list \<Rightarrow> string list \<Rightarrow> os_reservations
       \<Rightarrow> string option \<times> string list \<times> os_reservations" where
  "reserve_each rsv [] done rs = (None, done, rs)"
| "reserve_each rsv (x # xs) done rs =
     (case rsv x rs of
        (Some e, rs') \<Rightarrow> (Some e, done, rs')
      | (None, rs') \<Rightarrow> reserve_each rsv xs (done @ [x]) rs')"

text \<open>
  \<open>ReserveResourcesLocked\<close>.  The error of the second loop is a new variable of its body (\<open>err := ...\<close>), so the code after the loop
  never sees it: a subnet that cannot be reserved ends the loop, and the call succeeds.
\<close>

definition reserve_resources_locked :: "reserved_resources \<Rightarrow> string \<Rightarrow> os_reservations \<Rightarrow> string option \<times> os_reservations" where
  "reserve_resources_locked res by rs =
     (case reserve_each (\<lambda>f. reserve_fip f by) (rv_fips res) [] rs of
        (Some e, done, rs') \<Rightarrow> (Some e, fold (\<lambda>f s. snd (release_fip f s)) done rs')
      | (None, _, rs') \<Rightarrow>
          (case reserve_each (\<lambda>c. reserve_subnet c by) (rv_subnets res) [] rs' of (_, _, rs'') \<Rightarrow> (None, rs'')))"

definition errors_of :: "string option list \<Rightarrow> string list" where
  "errors_of es = List.map_filter id es"

fun release_each ::
    "(string \<Rightarrow> os_reservations \<Rightarrow> string option \<times> os_reservations) \<Rightarrow> string list \<Rightarrow> os_reservations
       \<Rightarrow> string list \<times> os_reservations" where
  "release_each rel [] rs = ([], rs)"
| "release_each rel (x # xs) rs =
     (case rel x rs of (e, rs') \<Rightarrow> (case release_each rel xs rs' of (es, rs'') \<Rightarrow> (errors_of [e] @ es, rs'')))"

definition release_reservations :: "reserved_resources \<Rightarrow> os_reservations \<Rightarrow> string option \<times> os_reservations" where
  "release_reservations res rs =
     (case release_each release_fip (rv_fips res) rs of
        (es1, rs1) \<Rightarrow>
          (case release_each release_subnet (rv_subnets res) rs1 of
             (es2, rs2) \<Rightarrow>
               (if es1 @ es2 = [] then None else Some (''Errors: '' @ strings_join (es1 @ es2) '',''), rs2)))"

subsection \<open>Waiting for a stack\<close>

text \<open>
  One round of \<open>waitForStack\<close>: \<open>getHeatStackDetail\<close> fails (then, and only then, its result is nil), or gives the status, its reason
  and the seconds since the start.
\<close>

datatype stack_poll = Poll_Error string | Poll_Status string string nat

definition heat_delete :: string where "heat_delete = ''DELETE''"
definition heat_create :: string where "heat_create = ''CREATE''"

text \<open>\<open>None\<close>: still waiting after these rounds.  Otherwise what is returned, an error or nil.\<close>

fun wait_for_stack :: "string \<Rightarrow> stack_poll list \<Rightarrow> string option option" where
  "wait_for_stack act [] = None"
| "wait_for_stack act (Poll_Error e # ps) = (if act = heat_delete then Some None else Some (Some e))"
| "wait_for_stack act (Poll_Status status reason secs # ps) =
     (if status = act @ ''_COMPLETE'' then Some None
      else if status = act @ ''_IN_PROGRESS'' then
        (if 20 * 60 \<le> secs then Some (Some ''Heat stack taking too long'') else wait_for_stack act ps)
      else if status = act @ ''_FAILED'' then Some (Some (''Heat Stack failed: '' @ reason))
      else Some (Some (''Stack create unexpected status: '' @ status)))"

text \<open>The wait ends at the latest with the first round after twenty minutes.\<close>

lemma wait_for_stack_ends:
  "\<exists>p\<in>set ps. \<forall>status reason secs. p = Poll_Status status reason secs \<longrightarrow> 20 * 60 \<le> secs \<Longrightarrow> wait_for_stack act ps \<noteq> None"
  by (induction act ps rule: wait_for_stack.induct) auto

text \<open>Success means that the stack was seen complete, or, for a deletion, that it could not be seen.\<close>

lemma wait_for_stack_success:
  "wait_for_stack act ps = Some None \<Longrightarrow>
     (\<exists>reason secs. Poll_Status (act @ ''_COMPLETE'') reason secs \<in> set ps) \<or> act = heat_delete \<and> (\<exists>e. Poll_Error e \<in> set ps)"
  by (induction act ps rule: wait_for_stack.induct) (auto split: if_splits)

text \<open>
  Note (wait\_gives\_up\_on\_one\_failed\_call): one failed \<open>stack show\<close> ends the wait for a stack that is still being made.
\<close>

lemma wait_gives_up_on_one_failed_call:
  "wait_for_stack heat_create [Poll_Status ''CREATE_IN_PROGRESS'' '''' 10, Poll_Error ''timeout''] = Some (Some ''timeout'')"
  by (simp add: heat_create_def heat_delete_def)

text \<open>
  Note (failed\_call\_means\_deleted): while a stack is being deleted, any failed \<open>stack show\<close> is taken to mean that the stack is gone.
\<close>

lemma failed_call_means_deleted:
  "wait_for_stack heat_delete [Poll_Status ''DELETE_IN_PROGRESS'' '''' 10, Poll_Error ''timeout''] = Some None"
  by (simp add: heat_delete_def)

subsection \<open>User data\<close>

definition newline :: string where "newline = [CHR 0x0A]"

definition reindent :: "string \<Rightarrow> nat \<Rightarrow> string" where
  "reindent s n = strings_join (map (\<lambda>l. replicate n (CHR '' '') @ l) (strings_split s newline)) newline"

definition get_vm_meta_data :: "vmrole \<Rightarrow> string \<Rightarrow> (string \<Rightarrow> string) \<Rightarrow> string" where
  "get_vm_meta_data r master_ip fmt =
     (if r = role_vm_application then ''''
      else fmt (''skipk8s: '' @ (if r = role_master \<or> r = role_k8s_node then ''no'' else ''yes'') @ newline @ ''role: '' @ r @
                (if master_ip \<noteq> '''' then newline @ ''k8smaster: '' @ master_ip else '''')))"

text \<open>\<open>exec\<close> executes the cloud-config template, \<open>share\<close> is \<open>VmCloudConfigShareMount\<close>.\<close>

definition get_vm_user_data ::
    "string + string \<Rightarrow> string \<Rightarrow> bool \<Rightarrow> string \<Rightarrow> string \<Rightarrow> (string \<Rightarrow> string) \<Rightarrow> string + string" where
  "get_vm_user_data exec share shared manifest cmd fmt =
     (if manifest \<noteq> '''' then Inr (fmt manifest)
      else if cmd \<noteq> '''' then Inr (fmt (newline @ ''#cloud-config'' @ newline @ ''runcmd:'' @ newline @ ''- '' @ cmd))
      else case exec of
          Inl e \<Rightarrow> Inl (''failed to generate template from cloud config params, err '' @ e)
        | Inr rc \<Rightarrow> Inr (fmt (if shared then rc @ share else rc)))"

definition is_user_data_same :: "string \<Rightarrow> string \<Rightarrow> bool" where
  "is_user_data_same a b \<longleftrightarrow>
     map strings_trim_space (strings_split a newline) = map strings_trim_space (strings_split b newline)"

subsection \<open>populateParams\<close>

datatype heat_action = Heat_Create | Heat_Update | Heat_Test

record os_fip =
  of_id :: string
  of_port :: string
  of_address :: string

record os_answers =
  oa_subnets :: "string + (string \<times> string) list"                   \<comment> \<open>\<open>ListSubnets\<close>: CIDR and name\<close>
  oa_subnet_network :: "string \<Rightarrow> string option"                       \<comment> \<open>\<open>GetSubnetDetail\<close>: the network, if the subnet exists\<close>
  oa_fips :: "string \<Rightarrow> string + os_fip list"                         \<comment> \<open>\<open>ListFloatingIPs\<close>\<close>
  oa_template :: "string \<Rightarrow> string + (string \<rightharpoonup> string) \<times> (string \<rightharpoonup> string)"
    \<comment> \<open>the template of a stack: chef keys by node, user data by VM\<close>
  oa_exec_template :: "cloud_config \<Rightarrow> server_chef option \<Rightarrow> string + string"
  oa_share_mount :: string

definition get_free_floating_ip_id :: "os_answers \<Rightarrow> string \<Rightarrow> string + string" where
  "get_free_floating_ip_id oa extnet =
     (case oa_fips oa extnet of
        Inl e \<Rightarrow> Inl (''Unable to list floating IPs '' @ e)
      | Inr fips \<Rightarrow>
          (case find (\<lambda>f. of_port f = '''' \<and> of_address f \<noteq> '''') fips of
             None \<Rightarrow> Inl ''Unable to allocate a floating IP''
           | Some f \<Rightarrow> if of_id f = '''' then Inl ''Unable to allocate a floating IP'' else Inr (of_id f)))"

text \<open>The subnets in use, as Go's map has them: the last entry of a CIDR counts, and a missing one reads as the empty name.\<close>

definition used_name :: "(string \<times> string) list \<Rightarrow> string \<Rightarrow> string" where
  "used_name sns c = (case map_of (rev sns) c of None \<Rightarrow> '''' | Some n \<Rightarrow> n)"

definition ip_prefix :: "net_spec_info \<Rightarrow> nat \<Rightarrow> string" where
  "ip_prefix ni o' = strings_join [ni_octets ni ! 0, ni_octets ni ! 1, nat_digits o'] ''.''"

definition subnet_cidr :: "net_spec_info \<Rightarrow> nat \<Rightarrow> string" where
  "subnet_cidr ni o' = ip_prefix ni o' @ ''.0/'' @ ni_netmask_bits ni"

text \<open>The first third octet whose subnet is unused (or, for an update, belongs to the group) and not reserved.\<close>

definition choose_octet :: "os_reservations \<Rightarrow> net_spec_info \<Rightarrow> heat_action \<Rightarrow> string \<Rightarrow> (string \<times> string) list \<Rightarrow> nat option" where
  "choose_octet rs ni act current sns =
     find (\<lambda>o'. used_name sns (subnet_cidr ni o') = (if act = Heat_Update then current else '''') \<and>
                rs_subnets rs (subnet_cidr ni o') = None) [0..<256]"

text \<open>The subnets with their CIDRs, the CIDRs to reserve, and the address of the master (of the last subnet).\<close>

fun populate_subnets ::
    "os_reservations \<Rightarrow> net_spec_info \<Rightarrow> heat_action \<Rightarrow> string \<Rightarrow> (string \<times> string) list \<Rightarrow> subnet_orch list \<Rightarrow> string
       \<Rightarrow> string + subnet_orch list \<times> string list \<times> string" where
  "populate_subnets rs ni act current sns [] mip = Inr ([], [], mip)"
| "populate_subnets rs ni act current sns (s # ss) mip =
     (if so_cidr s \<noteq> next_available
      then map_sum id (\<lambda>(ss', cs, m). (s # ss', cs, m)) (populate_subnets rs ni act current sns ss mip)
      else case choose_octet rs ni act current sns of
          None \<Rightarrow> Inl ''cannot find subnet cidr''
        | Some o' \<Rightarrow>
            let s' = s\<lparr>so_cidr := subnet_cidr ni o', so_node_ip_prefix := ip_prefix ni o',
                       so_gateway_ip := (if so_skip_gateway s then so_gateway_ip s else ip_prefix ni o' @ ''.1'')\<rparr>
            in map_sum id (\<lambda>(ss', cs, m). (s' # ss', subnet_cidr ni o' # cs, m))
                 (populate_subnets rs ni act current sns ss (ip_prefix ni o' @ ''.10'')))"

definition populate_fixed_ip :: "subnet_orch list \<Rightarrow> string \<Rightarrow> fixed_ip \<Rightarrow> string + fixed_ip" where
  "populate_fixed_ip subnets pname f =
     (if fi_address f = next_available \<and> fi_last_octet f \<noteq> 0
      then case find (\<lambda>s. so_name s = rr_name (fi_subnet f)) subnets of
             None \<Rightarrow> Inl (''cannot find matching subnet for port: '' @ pname)
           | Some s \<Rightarrow> Inr (f\<lparr>fi_address := so_node_ip_prefix s @ ''.'' @ nat_digits (fi_last_octet f)\<rparr>)
      else Inr f)"

text \<open>Apply a function that may fail to all elements, stopping at the first error.\<close>

fun map_or_fail :: "('a \<Rightarrow> 'e + 'b) \<Rightarrow> 'a list \<Rightarrow> 'e + 'b list" where
  "map_or_fail f [] = Inr []"
| "map_or_fail f (x # xs) =
     (case f x of Inl e \<Rightarrow> Inl e | Inr y \<Rightarrow> (case map_or_fail f xs of Inl e \<Rightarrow> Inl e | Inr ys \<Rightarrow> Inr (y # ys)))"

definition populate_port :: "os_answers \<Rightarrow> subnet_orch list \<Rightarrow> port_orch \<Rightarrow> string + port_orch" where
  "populate_port oa subnets p =
     (if po_additional_external p
      then Inr (case oa_subnet_network oa (po_network_name p) of
             None \<Rightarrow> p
           | Some net \<Rightarrow>
               p\<lparr>po_network_name := net,
                 po_fixed_ips := po_fixed_ips p @
                   [\<lparr>fi_last_octet = 0, fi_address = '''',
                     fi_subnet = new_resource_ref (po_network_name p) (po_network_name p) True\<rparr>]\<rparr>)
      else case map_or_fail (populate_fixed_ip subnets (po_name p)) (po_fixed_ips p) of
          Inl e \<Rightarrow> Inl e
        | Inr fs \<Rightarrow> Inr (p\<lparr>po_fixed_ips := fs\<rparr>))"

text \<open>Networks: only done when the group has subnets.\<close>

definition populate_networks ::
    "os_answers \<Rightarrow> string \<Rightarrow> os_reservations \<Rightarrow> net_spec_info \<Rightarrow> heat_action \<Rightarrow> vm_group_orch
       \<Rightarrow> string + vm_group_orch \<times> string list \<times> string" where
  "populate_networks oa mexnet rs ni act vg =
     (if vg_subnets vg = [] then Inr (vg, [], '''')
      else case (if act \<noteq> Heat_Test \<and> \<not> vg_skip_infra_check vg then oa_subnets oa else Inr []) of
          Inl e \<Rightarrow> Inl (''can't get list of subnets for '' @ mexnet @ '', '' @ e)
        | Inr sns \<Rightarrow>
            (case populate_subnets rs ni act (if act = Heat_Create then '''' else mex_subnet_prefix @ vg_name vg) sns (vg_subnets vg) '''' of
               Inl e \<Rightarrow> Inl e
             | Inr (ss, cs, mip) \<Rightarrow>
                 (case map_or_fail (populate_port oa ss) (vg_ports vg) of
                    Inl e \<Rightarrow> Inl e
                  | Inr ps \<Rightarrow> Inr (vg\<lparr>vg_subnets := ss, vg_ports := ps\<rparr>, cs, mip))))"

text \<open>One VM: on an update a missing chef key is taken from the existing stack.\<close>

definition populate_vm ::
    "os_answers \<Rightarrow> heat_action \<Rightarrow> string \<Rightarrow> (string \<rightharpoonup> string) \<Rightarrow> (string \<rightharpoonup> string) \<Rightarrow> vm_orch \<Rightarrow> chef_heap
       \<Rightarrow> (string + vm_orch) \<times> chef_heap" where
  "populate_vm oa act mip keys udata v h =
     (case (case cc_chef (vx_config v) of
              None \<Rightarrow> (None, h)
            | Some r \<Rightarrow>
                if act = Heat_Update \<and> sc_client_key (ch_params h ! r) = '''' then
                  (case keys (sc_node_name (ch_params h ! r)) of
                     None \<Rightarrow> (Some (''missing chef client key for '' @ sc_node_name (ch_params h ! r)), h)
                   | Some k \<Rightarrow>
                       if k = '''' then (Some (''missing chef client key for '' @ sc_node_name (ch_params h ! r)), h)
                       else (None, set_client_key r k h))
                else (None, h)) of
        (Some e, h') \<Rightarrow> (Inl e, h')
      | (None, h') \<Rightarrow>
          (case get_vm_user_data (oa_exec_template oa (vx_config v) (map_option (\<lambda>r. ch_params h' ! r) (cc_chef (vx_config v))))
                  (oa_share_mount oa) (vx_shared_volume v) (vx_deployment_manifest v) (vx_command v) (\<lambda>s. reindent s 16) of
             Inl e \<Rightarrow> (Inl e, h')
           | Inr ud \<Rightarrow>
               if vx_role v = role_master \<and> act = Heat_Update \<and>
                  (case udata (vx_name v) of None \<Rightarrow> False | Some old \<Rightarrow> \<not> is_user_data_same old ud)
               then (Inl ''Unable to update cluster instance as it will redeploy master node'', h')
               else (Inr (v\<lparr>vx_meta_data := get_vm_meta_data (vx_role v) mip (\<lambda>s. reindent s 16), vx_user_data := ud\<rparr>), h')))"

fun populate_vms ::
    "os_answers \<Rightarrow> heat_action \<Rightarrow> string \<Rightarrow> (string \<rightharpoonup> string) \<Rightarrow> (string \<rightharpoonup> string) \<Rightarrow> vm_orch list \<Rightarrow> chef_heap
       \<Rightarrow> (string + vm_orch list) \<times> chef_heap" where
  "populate_vms oa act mip keys udata [] h = (Inr [], h)"
| "populate_vms oa act mip keys udata (v # vs) h =
     (case populate_vm oa act mip keys udata v h of
        (Inl e, h') \<Rightarrow> (Inl e, h')
      | (Inr v', h') \<Rightarrow>
          (case populate_vms oa act mip keys udata vs h' of
             (Inl e, h'') \<Rightarrow> (Inl e, h'')
           | (Inr vs', h'') \<Rightarrow> (Inr (v' # vs'), h'')))"

text \<open>
  The floating IPs, and those to reserve.  Each looks for the first one that is free in Openstack; if another group has reserved it, the floating IP is
  left as it was.
\<close>

fun populate_fips ::
    "os_answers \<Rightarrow> os_reservations \<Rightarrow> net_spec_info \<Rightarrow> heat_action \<Rightarrow> fip_orch list \<Rightarrow> string + fip_orch list \<times> string list" where
  "populate_fips oa rs ni act [] = Inr ([], [])"
| "populate_fips oa rs ni act (f # fs) =
     (if fo_floating_ip_id f \<noteq> next_available
      then map_sum id (\<lambda>(fs', ids). (f # fs', ids)) (populate_fips oa rs ni act fs)
      else if act = Heat_Test
      then map_sum id (\<lambda>(fs', ids). (f\<lparr>fo_floating_ip_id := ''test-fip-id''\<rparr> # fs', ids)) (populate_fips oa rs ni act fs)
      else case get_free_floating_ip_id oa (ni_floating_ip_external_net ni) of
          Inl e \<Rightarrow> Inl e
        | Inr i \<Rightarrow>
            if rs_fips rs i \<noteq> None
            then map_sum id (\<lambda>(fs', ids). (f # fs', ids)) (populate_fips oa rs ni act fs)
            else map_sum id (\<lambda>(fs', ids). (f\<lparr>fo_floating_ip_id := i\<rparr> # fs', i # ids)) (populate_fips oa rs ni act fs))"

definition populate_params ::
    "os_answers \<Rightarrow> string \<Rightarrow> heat_action \<Rightarrow> vm_group_orch \<Rightarrow> chef_heap \<Rightarrow> os_reservations
       \<Rightarrow> (string + vm_group_orch \<times> reserved_resources) \<times> chef_heap \<times> os_reservations" where
  "populate_params oa mexnet act vg h rs =
     (case vg_netspec vg of
        None \<Rightarrow> (Inl ''Netspec is nil'', h, rs)
      | Some ni \<Rightarrow>
          (case populate_networks oa mexnet rs ni act vg of
             Inl e \<Rightarrow> (Inl e, h, rs)
           | Inr (vg1, cidrs, mip) \<Rightarrow>
               (case (if act = Heat_Update then oa_template oa (vg_name vg) else Inr (Map.empty, Map.empty)) of
                  Inl e \<Rightarrow> (Inl (''failed to fetch heat stack template for '' @ vg_name vg @ '': '' @ e), h, rs)
                | Inr (keys, udata) \<Rightarrow>
                    (case populate_vms oa act mip keys udata (vg_vms vg1) h of
                       (Inl e, h1) \<Rightarrow> (Inl e, h1, rs)
                     | (Inr vms, h1) \<Rightarrow>
                         (case (if vg_skip_infra_check vg then Inr (vg_fips vg1, [])
                                else populate_fips oa rs ni act (vg_fips vg1)) of
                            Inl e \<Rightarrow> (Inl e, h1, rs)
                          | Inr (fips, ids) \<Rightarrow>
                              let res = \<lparr>rv_fips = ids, rv_subnets = cidrs\<rparr> in
                              (case reserve_resources_locked res (vg_name vg) rs of
                                 (Some e, rs') \<Rightarrow> (Inl e, h1, rs')
                               | (None, rs') \<Rightarrow> (Inr (vg1\<lparr>vg_vms := vms, vg_fips := fips\<rparr>, res), h1, rs')))))))"

end
