(* ===== verification/VMLayer_Safety.thy ===== *)
theory VMLayer_Safety
  imports VMLayer_Cluster
begin

text \<open>
  What holds of the VMs of a cluster: the shape of its requests, the addresses of its ports, the chef clients that are registered for it
  and deleted with it, and the plan of an update of the number of its nodes.
\<close>

subsection \<open>The requests of a cluster\<close>

text \<open>The parts of a request the lemmas speak of.\<close>

definition request_view :: "vm_request_spec \<Rightarrow> string \<times> node_type \<times> string \<times> bool \<times> nat option" where
  "request_view v = (vr_name v, vr_type v, vr_connect_subnet v, vr_create_ports_only v, vr_chef v)"

text \<open>The heap only grows, and chef parameters that exist stay as they are.\<close>

definition heap_grows :: "chef_heap \<Rightarrow> chef_heap \<Rightarrow> bool" where
  "heap_grows h h' \<longleftrightarrow> (\<exists>ps. ch_params h' = ch_params h @ ps)"

lemma heap_grows_refl: "heap_grows h h"
  by (simp add: heap_grows_def)

lemma heap_grows_trans: "heap_grows h h' \<Longrightarrow> heap_grows h' h'' \<Longrightarrow> heap_grows h h''"
  by (auto simp: heap_grows_def)

text \<open>\<open>r\<close> points to chef parameters of the node \<open>n\<close>.\<close>

definition chef_for :: "vm_properties \<Rightarrow> chef_heap \<Rightarrow> nat \<Rightarrow> string \<Rightarrow> bool" where
  "chef_for vp h r n \<longleftrightarrow> r < length (ch_params h) \<and> sc_node_name (ch_params h ! r) = get_chef_client_name vp n"

lemma chef_for_grows: "chef_for vp h r n \<Longrightarrow> heap_grows h h' \<Longrightarrow> chef_for vp h' r n"
  by (auto simp: chef_for_def heap_grows_def nth_append)

lemma node_chef_params:
  "node_chef_params vp n attrs h = (r, h') \<Longrightarrow> chef_for vp h' r n \<and> heap_grows h h'"
  by (auto simp: node_chef_params_def get_server_chef_params_def chef_for_def heap_grows_def)

lemma new_attributes_grows: "new_attributes tags h = (a, h') \<Longrightarrow> heap_grows h h'"
  by (auto simp: new_attributes_def heap_grows_def)

lemmas request_ops = get_vm_request_spec_def with_external_volume_def with_shared_volume_def with_subnet_connection_def
  with_chef_params_def with_optional_resource_def with_compute_az_def with_additional_networks_def with_routes_def
  with_create_ports_only_def request_view_def empty_vm_request_def

text \<open>A request of a VM of the cluster that is registered with the chef server.\<close>

definition node_request_ok :: "vm_properties \<Rightarrow> string \<Rightarrow> chef_heap \<Rightarrow> string \<Rightarrow> node_type \<Rightarrow> vm_request_spec \<Rightarrow> bool" where
  "node_request_ok vp subnet h n t v \<longleftrightarrow> (\<exists>r. request_view v = (n, t, subnet, False, Some r) \<and> chef_for vp h r n)"

lemma node_request_ok_grows: "node_request_ok vp s h n t v \<Longrightarrow> heap_grows h h' \<Longrightarrow> node_request_ok vp s h' n t v"
  by (auto simp: node_request_ok_def intro: chef_for_grows)

lemma docker_node_request_ok:
  assumes "docker_node_request ce vp img ci cn h = (res, h')"
  shows "heap_grows h h' \<and> (\<exists>v. res = Inr v \<and>
     node_request_ok vp (get_cluster_subnet_name ce ci) h' (get_docker_node_name ce ci) NT_Docker_Node v)"
proof -
  obtain a h1 where a: "new_attributes (get_chef_cluster_tags ce vp (ci_key ci) NT_Docker_Node) h = (a, h1)" by force
  obtain r h2 where r: "node_chef_params vp (get_docker_node_name ce ci) a h1 = (r, h2)" by force
  have "res = Inr (projr res)" "h' = h2" "request_view (projr res) =
      (get_docker_node_name ce ci, NT_Docker_Node, get_cluster_subnet_name ce ci, False, Some r)"
    using assms by (auto simp: docker_node_request_def a r request_ops)
  moreover have "heap_grows h h2 \<and> chef_for vp h2 r (get_docker_node_name ce ci)"
    using node_chef_params[OF r] heap_grows_trans[OF new_attributes_grows[OF a]] by simp
  ultimately show ?thesis unfolding node_request_ok_def by (metis (no_types))
qed

lemma master_request_ok:
  assumes "master_request ce vp img ci h = (res, h')"
  shows "heap_grows h h' \<and> (\<exists>v. res = Inr v \<and>
     node_request_ok vp (get_cluster_subnet_name ce ci) h' (get_cluster_master_name ce ci) NT_K8s_Master v)"
proof -
  obtain a h1 where a: "new_attributes (get_chef_cluster_tags ce vp (ci_key ci) NT_K8s_Master) h = (a, h1)" by force
  obtain r h2 where r: "node_chef_params vp (get_cluster_master_name ce ci) a h1 = (r, h2)" by force
  have "res = Inr (projr res)" "h' = h2" "request_view (projr res) =
      (get_cluster_master_name ce ci, NT_K8s_Master, get_cluster_subnet_name ce ci, False, Some r)"
    using assms by (auto simp: master_request_def a r request_ops Let_def)
  moreover have "heap_grows h h2 \<and> chef_for vp h2 r (get_cluster_master_name ce ci)"
    using node_chef_params[OF r] heap_grows_trans[OF new_attributes_grows[OF a]] by simp
  ultimately show ?thesis unfolding node_request_ok_def by (metis (no_types))
qed

lemma k8s_node_request_ok:
  assumes "k8s_node_request ce vp img ci cn a n h = (res, h')"
  shows "heap_grows h h' \<and> (\<exists>v. res = Inr v \<and>
     node_request_ok vp (get_cluster_subnet_name ce ci) h' (get_cluster_node_name ce ci n) NT_K8s_Node v)"
proof -
  obtain r h2 where r: "node_chef_params vp (get_cluster_node_name ce ci n) a h = (r, h2)" by force
  have "res = Inr (projr res)" "h' = h2" "request_view (projr res) =
      (get_cluster_node_name ce ci n, NT_K8s_Node, get_cluster_subnet_name ce ci, False, Some r)"
    using assms by (auto simp: k8s_node_request_def r request_ops)
  then show ?thesis
    using node_chef_params[OF r] unfolding node_request_ok_def by metis
qed

lemma k8s_node_requests_ok:
  "k8s_node_requests ce vp img ci cn a ns h = (res, h') \<Longrightarrow>
     heap_grows h h' \<and> (\<exists>vs. res = Inr vs \<and>
       list_all2 (\<lambda>n v. node_request_ok vp (get_cluster_subnet_name ce ci) h' (get_cluster_node_name ce ci n) NT_K8s_Node v) ns vs)"
proof (induction ns arbitrary: h h' res)
  case Nil
  then show ?case by (simp add: heap_grows_refl)
next
  case (Cons n ns)
  obtain r1 h1 where one: "k8s_node_request ce vp img ci cn a n h = (r1, h1)" by force
  then obtain v where v: "r1 = Inr v" "heap_grows h h1"
      "node_request_ok vp (get_cluster_subnet_name ce ci) h1 (get_cluster_node_name ce ci n) NT_K8s_Node v"
    using k8s_node_request_ok[OF one] by blast
  obtain r2 h2 where rest: "k8s_node_requests ce vp img ci cn a ns h1 = (r2, h2)" by force
  then obtain vs where vs: "r2 = Inr vs" "heap_grows h1 h2"
      "list_all2 (\<lambda>n v. node_request_ok vp (get_cluster_subnet_name ce ci) h2 (get_cluster_node_name ce ci n) NT_K8s_Node v) ns vs"
    using Cons.IH[OF rest] by blast
  have "res = Inr (v # vs)" "h' = h2" using Cons.prems by (simp_all add: one v rest vs)
  moreover have "heap_grows h h2" by (rule heap_grows_trans[OF v(2) vs(2)])
  moreover have "node_request_ok vp (get_cluster_subnet_name ce ci) h2 (get_cluster_node_name ce ci n) NT_K8s_Node v"
    by (rule node_request_ok_grows[OF v(3) vs(2)])
  ultimately show ?case using vs(3) by simp
qed

text \<open>The load balancer's request: of a dedicated one, or only ports of the shared one.\<close>

definition lb_request_ok :: "vm_properties \<Rightarrow> vm_cluster_inst \<Rightarrow> string \<Rightarrow> chef_heap \<Rightarrow> vm_request_spec list \<Rightarrow> bool" where
  "lb_request_ok vp ci subnet h lbs \<longleftrightarrow>
     (if ci_ip_access ci = Access_Dedicated
      then \<exists>v t. lbs = [v] \<and> is_lb_type t \<and> node_request_ok vp subnet h (get_root_lb_name_for_cluster vp ci) t v
      else lbs = [] \<or> (\<exists>v. lbs = [v] \<and> request_view v = (vp_shared_root_lb vp, NT_Shared_Root_LB, subnet, True, None)))"

lemma root_lb_request_ok:
  assumes "get_vm_spec_for_root_lb ce vp lb subnet tags nets routes h = (Inr v, h')"
  shows "heap_grows h h' \<and> (\<exists>t. is_lb_type t \<and> node_request_ok vp subnet h' lb t v) \<and> vr_compute_az v = '''' \<and> vr_name v = lb"
proof -
  obtain a h1 where a: "new_attributes tags h = (a, h1)" by force
  obtain r h2 where r: "node_chef_params vp lb a h1 = (r, h2)" by force
  obtain flavor spec img where ok: "get_cloudlet_shared_root_lb_flavor vp = Inr flavor" "ce_image ce = Inr img"
    "(if ce_no_flavors ce then Inr \<lparr>cs_flavor_name = lf_name flavor, cs_availability_zone = '''', cs_external_volume = 0\<rparr>
      else ce_get_vm_spec ce flavor) = Inr spec"
    using assms by (auto simp: get_vm_spec_for_root_lb_def split: sum.splits)
  have "h' = h2 \<and> vr_compute_az v = '''' \<and> request_view v =
      (lb, if lb = vp_shared_root_lb vp then NT_Shared_Root_LB else NT_Dedicated_Root_LB, subnet, False, Some r)"
    using assms unfolding get_vm_spec_for_root_lb_def ok a Let_def prod.case sum.case r by (auto simp: request_ops)
  moreover have "heap_grows h h2 \<and> chef_for vp h2 r lb"
    using node_chef_params[OF r] heap_grows_trans[OF new_attributes_grows[OF a]] by simp
  ultimately show ?thesis
    by (auto simp: node_request_ok_def is_lb_type_def request_view_def)
qed

lemma cluster_lb_request_ok:
  assumes "cluster_lb_request ce vp ci cn h = (Inr (lbs, sg), h')"
  shows "heap_grows h h' \<and> lb_request_ok vp ci (get_cluster_subnet_name ce ci) h' lbs \<and>
     sg = (if ci_ip_access ci = Access_Dedicated then get_server_security_group_name (ci_fqdn ci) else '''')"
proof (cases "ci_ip_access ci = Access_Dedicated")
  case True
  then obtain v where "get_vm_spec_for_root_lb ce vp (get_root_lb_name_for_cluster vp ci) (get_cluster_subnet_name ce ci)
      (get_chef_cluster_tags ce vp (ci_key ci) NT_Dedicated_Root_LB) (cn_lb_nets cn) (cn_lb_routes cn) h = (Inr v, h')"
      "lbs = [v]" "sg = get_server_security_group_name (vr_name v)"
    using assms by (auto simp: cluster_lb_request_def split: sum.splits prod.splits)
  moreover from this(1) have "heap_grows h h' \<and> vr_name v = get_root_lb_name_for_cluster vp ci \<and>
      (\<exists>t. is_lb_type t \<and> node_request_ok vp (get_cluster_subnet_name ce ci) h' (get_root_lb_name_for_cluster vp ci) t v)"
    using root_lb_request_ok by blast
  ultimately show ?thesis
    using True by (auto simp: lb_request_ok_def get_root_lb_name_for_cluster_def)
next
  case False
  obtain v where v: "get_vm_spec_for_shared_root_lb_ports (vp_shared_root_lb vp) (get_cluster_subnet_name ce ci) = Inr v"
    "request_view v = (vp_shared_root_lb vp, NT_Shared_Root_LB, get_cluster_subnet_name ce ci, True, None)"
    by (simp add: get_vm_spec_for_shared_root_lb_ports_def request_ops)
  have "h' = h \<and> sg = '''' \<and> (lbs = [] \<or> lbs = [v])"
    using assms False by (simp add: cluster_lb_request_def v split: if_split_asm)
  then show ?thesis
    using False v(2) heap_grows_refl by (auto simp: lb_request_ok_def)
qed

text \<open>All requests of a cluster: a load balancer, and a Docker VM or a master with its workers.\<close>

definition cluster_requests_ok ::
    "cluster_env \<Rightarrow> vm_properties \<Rightarrow> vm_cluster_inst \<Rightarrow> chef_heap \<Rightarrow> vm_request_spec list \<Rightarrow> bool" where
  "cluster_requests_ok ce vp ci h vms \<longleftrightarrow>
     (let s = get_cluster_subnet_name ce ci in
      \<exists>lbs. lb_request_ok vp ci s h lbs \<and>
        (if ci_deployment ci = Dep_Docker
         then \<exists>v. vms = lbs @ [v] \<and> node_request_ok vp s h (get_docker_node_name ce ci) NT_Docker_Node v
         else \<exists>m ns. vms = lbs @ m # ns \<and> node_request_ok vp s h (get_cluster_master_name ce ci) NT_K8s_Master m \<and>
                list_all2 (\<lambda>n v. node_request_ok vp s h (get_cluster_node_name ce ci n) NT_K8s_Node v)
                  [1..<Suc (ci_num_nodes ci)] ns))"

lemma lb_request_ok_grows: "lb_request_ok vp ci s h lbs \<Longrightarrow> heap_grows h h' \<Longrightarrow> lb_request_ok vp ci s h' lbs"
  unfolding lb_request_ok_def by (auto intro: node_request_ok_grows split: if_splits)

lemma docker_cluster_requests_shape:
  assumes "docker_cluster_requests ce vp img ci cn h = (Inr (vms, sg), h')" "ci_deployment ci = Dep_Docker"
  shows "cluster_requests_ok ce vp ci h' vms"
proof -
  obtain lbs h1 where lb: "cluster_lb_request ce vp ci cn h = (Inr (lbs, sg), h1)"
    and v: "\<exists>v. docker_node_request ce vp img ci cn h1 = (Inr v, h') \<and> vms = lbs @ [v]"
    using assms(1) by (auto simp: docker_cluster_requests_def split: sum.splits prod.splits)
  then show ?thesis
    using cluster_lb_request_ok[OF lb] docker_node_request_ok lb_request_ok_grows assms(2)
    unfolding cluster_requests_ok_def Let_def by fastforce
qed

lemma k8s_cluster_requests_shape:
  assumes "k8s_cluster_requests ce vp ci cn h = (Inr (vms, sg), h')" "ci_deployment ci \<noteq> Dep_Docker"
  shows "cluster_requests_ok ce vp ci h' vms"
proof -
  obtain img lbs h1 m h2 a h3 ns where
    lb: "cluster_lb_request ce vp ci cn h = (Inr (lbs, sg), h1)" and
    m: "master_request ce vp img ci h1 = (Inr m, h2)" and
    a: "new_attributes (get_chef_cluster_tags ce vp (ci_key ci) NT_K8s_Node) h2 = (a, h3)" and
    ns: "k8s_node_requests ce vp img ci cn a [1..<Suc (ci_num_nodes ci)] h3 = (Inr ns, h')" and
    vms: "vms = lbs @ m # ns"
    using assms(1) unfolding k8s_cluster_requests_def by (auto split: sum.splits prod.splits simp del: upt_Suc)
  have g: "heap_grows h1 h2" "heap_grows h2 h3" "heap_grows h3 h'"
    using master_request_ok[OF m] new_attributes_grows[OF a] k8s_node_requests_ok[OF ns] by simp_all
  have "lb_request_ok vp ci (get_cluster_subnet_name ce ci) h' lbs"
    using cluster_lb_request_ok[OF lb] g lb_request_ok_grows heap_grows_trans by blast
  moreover have "node_request_ok vp (get_cluster_subnet_name ce ci) h' (get_cluster_master_name ce ci) NT_K8s_Master m"
    using master_request_ok[OF m] g node_request_ok_grows heap_grows_trans by blast
  ultimately show ?thesis
    using k8s_node_requests_ok[OF ns] assms(2) vms unfolding cluster_requests_ok_def Let_def by auto
qed

lemma cluster_requests_shape:
  assumes "cluster_requests ce vp img ci h = (Inr (vms, sg), h')"
  shows "cluster_requests_ok ce vp ci h' vms"
  using assms docker_cluster_requests_shape k8s_cluster_requests_shape
  by (auto simp: cluster_requests_def split: sum.splits if_splits)

subsection \<open>What the shape gives\<close>

lemma node_request_fields:
  "node_request_ok vp s h n t v \<Longrightarrow> vr_name v = n \<and> vr_type v = t \<and> vr_connect_subnet v = s \<and>
     \<not> vr_create_ports_only v \<and> (\<exists>r. vr_chef v = Some r \<and> chef_for vp h r n)"
  by (auto simp: node_request_ok_def request_view_def)

text \<open>The nodes that \<open>OrchestrateVMsFromVMSpec\<close> registers with the chef server when it creates these VMs, in order.\<close>

definition registered_nodes :: "chef_heap \<Rightarrow> vm_request_spec list \<Rightarrow> string list" where
  "registered_nodes h vms = map (\<lambda>v. sc_node_name (ch_params h ! the (vr_chef v))) (filter needs_chef vms)"

lemma registered_append [simp]: "registered_nodes h (xs @ ys) = registered_nodes h xs @ registered_nodes h ys"
  by (simp add: registered_nodes_def)

lemma registered_one:
  "node_request_ok vp s h n t v \<Longrightarrow> t \<noteq> NT_App_VM \<Longrightarrow> registered_nodes h [v] = [get_chef_client_name vp n]"
  by (auto simp: registered_nodes_def needs_chef_def chef_for_def dest: node_request_fields)

text \<open>How many connected load balancers, masters and workers a list of requests has.\<close>

definition head_count :: "vm_request_spec list \<Rightarrow> nat \<times> nat \<times> nat" where
  "head_count vs = (connected_lbs vs, connected_masters vs, workers vs)"

lemma head_count_append: "head_count (xs @ ys) =
    (connected_lbs xs + connected_lbs ys, connected_masters xs + connected_masters ys, workers xs + workers ys)"
  by (simp add: head_count_def connected_lbs_def connected_masters_def workers_def)

lemmas count_defs = head_count_def connected_lbs_def connected_masters_def workers_def is_worker_def connected_def
  is_lb_type_def is_master_type_def is_node_type_def

lemma head_count_one:
  assumes "node_request_ok vp s h n t v" "s \<noteq> ''''"
  shows "is_lb_type t \<Longrightarrow> head_count [v] = (1, 0, 0)" "is_master_type t \<Longrightarrow> head_count [v] = (0, 1, 0)"
    "is_node_type t \<Longrightarrow> head_count [v] = (0, 0, 1)"
  using node_request_fields[OF assms(1)] assms(2) by (auto simp: count_defs)

lemma k8s_nodes_shape:
  "list_all2 (\<lambda>n v. node_request_ok vp s h (f n) NT_K8s_Node v) ns vs \<Longrightarrow> s \<noteq> '''' \<Longrightarrow>
     head_count vs = (0, 0, length ns) \<and> registered_nodes h vs = map (\<lambda>n. get_chef_client_name vp (f n)) ns \<and>
     filter (\<lambda>v. \<not> vr_create_ports_only v) vs = vs \<and> map vr_name vs = map f ns"
proof (induction ns vs rule: list_all2_induct)
  case Nil
  then show ?case by (simp add: count_defs registered_nodes_def)
next
  case (Cons n ns v vs)
  have "head_count [v] = (0, 0, 1)" "registered_nodes h [v] = [get_chef_client_name vp (f n)]"
    using head_count_one(3)[OF Cons.hyps(1) Cons.prems] registered_one[OF Cons.hyps(1)] by (simp_all add: is_node_type_def)
  then show ?case
    using Cons.IH[OF Cons.prems] head_count_append[of "[v]" vs] registered_append[of h "[v]" vs] node_request_fields[OF Cons.hyps(1)]
    by (simp add: head_count_def)
qed

lemma lb_shape:
  assumes "lb_request_ok vp ci s h lbs" "s \<noteq> ''''"
  shows "connected_lbs lbs \<le> 1 \<and> connected_masters lbs = 0 \<and> workers lbs = 0 \<and>
     registered_nodes h lbs =
       (if ci_ip_access ci = Access_Dedicated then [get_chef_client_name vp (get_root_lb_name_for_cluster vp ci)] else [])"
proof (cases "ci_ip_access ci = Access_Dedicated")
  case True
  then obtain v t where v: "lbs = [v]" "is_lb_type t" "node_request_ok vp s h (get_root_lb_name_for_cluster vp ci) t v"
    using assms(1) by (auto simp: lb_request_ok_def)
  have "head_count [v] = (1, 0, 0)" using head_count_one(1)[OF v(3) assms(2)] v(2) by simp
  moreover have "registered_nodes h [v] = [get_chef_client_name vp (get_root_lb_name_for_cluster vp ci)]"
    using registered_one[OF v(3)] v(2) by (auto simp: is_lb_type_def)
  ultimately show ?thesis using v True by (simp add: head_count_def)
next
  case False
  then have "lbs = [] \<or> (\<exists>v. lbs = [v] \<and> request_view v = (vp_shared_root_lb vp, NT_Shared_Root_LB, s, True, None))"
    using assms(1) by (simp add: lb_request_ok_def)
  then show ?thesis
    using False by (auto simp: count_defs registered_nodes_def needs_chef_def request_view_def)
qed

lemma cluster_subnet_name_ne [simp]: "get_cluster_subnet_name ce ci \<noteq> []"
  by (simp add: get_cluster_subnet_name_def mex_subnet_prefix_def)

text \<open>The number of VMs of a cluster that take addresses from 101 on.\<close>

definition cluster_workers :: "vm_cluster_inst \<Rightarrow> nat" where
  "cluster_workers ci = (if ci_deployment ci = Dep_Docker then 1 else ci_num_nodes ci)"

lemma cluster_shape:
  assumes "cluster_requests_ok ce vp ci h vms"
  shows "connected_lbs vms \<le> 1 \<and> connected_masters vms \<le> 1 \<and> workers vms = cluster_workers ci \<and>
     registered_nodes h vms = map (get_chef_client_name vp) (deleted_chef_nodes vp ce ci)"
proof -
  let ?s = "get_cluster_subnet_name ce ci"
  obtain lbs where lb: "lb_request_ok vp ci ?s h lbs" and
    rest: "if ci_deployment ci = Dep_Docker
         then \<exists>v. vms = lbs @ [v] \<and> node_request_ok vp ?s h (get_docker_node_name ce ci) NT_Docker_Node v
         else \<exists>m ns. vms = lbs @ m # ns \<and> node_request_ok vp ?s h (get_cluster_master_name ce ci) NT_K8s_Master m \<and>
                list_all2 (\<lambda>n v. node_request_ok vp ?s h (get_cluster_node_name ce ci n) NT_K8s_Node v)
                  [1..<Suc (ci_num_nodes ci)] ns"
    using assms by (auto simp: cluster_requests_ok_def Let_def)
  note lbf = lb_shape[OF lb cluster_subnet_name_ne]
  show ?thesis
  proof (cases "ci_deployment ci = Dep_Docker")
    case True
    then obtain v where v: "vms = lbs @ [v]" "node_request_ok vp ?s h (get_docker_node_name ce ci) NT_Docker_Node v"
      using rest by auto
    have "head_count [v] = (0, 0, 1)" "registered_nodes h [v] = [get_chef_client_name vp (get_docker_node_name ce ci)]"
      using head_count_one(3)[OF v(2) cluster_subnet_name_ne] registered_one[OF v(2)] by (simp_all add: is_node_type_def)
    then show ?thesis
      using lbf True head_count_append[of lbs "[v]"]
      by (simp add: v(1) head_count_def cluster_workers_def deleted_chef_nodes_def)
  next
    case False
    then obtain m ns where m: "vms = lbs @ [m] @ ns" "node_request_ok vp ?s h (get_cluster_master_name ce ci) NT_K8s_Master m"
      and ns: "list_all2 (\<lambda>n v. node_request_ok vp ?s h (get_cluster_node_name ce ci n) NT_K8s_Node v)
                  [1..<Suc (ci_num_nodes ci)] ns"
      using rest by auto
    have "head_count [m] = (0, 1, 0)" "registered_nodes h [m] = [get_chef_client_name vp (get_cluster_master_name ce ci)]"
      using head_count_one(2)[OF m(2) cluster_subnet_name_ne] registered_one[OF m(2)] by (simp_all add: is_master_type_def)
    then show ?thesis
      using lbf False k8s_nodes_shape[OF ns cluster_subnet_name_ne] head_count_append[of lbs "[m] @ ns"] head_count_append[of "[m]" ns]
        registered_append[of h "[m]" ns]
      by (simp add: m(1) head_count_def cluster_workers_def deleted_chef_nodes_def comp_def del: upt_Suc)
  qed
qed

subsection \<open>Addresses of a cluster\<close>

lemma cluster_group_request:
  assumes "group_params_from_vm_spec pv vp n vms (cluster_group_ops ce ci sg info) = Inr vg"
  obtains g where "group_params_from_spec pv vp g = Inr vg" "gr_vms g = vms"
  using assms
  by (auto simp: group_params_from_vm_spec_def get_vm_group_request_spec_def cluster_group_ops_def with_new_subnet_def
      with_new_security_group_def with_chef_update_info_def with_skip_cleanup_on_failure_def)

text \<open>
  C33 (cluster\_addresses): whatever a cluster looks like (Docker or Kubernetes, with a dedicated or a shared load balancer, with or without a
  router), no two of its internal ports get the same last octet; the workers have the octets from 101 on, and all octets are
  proper host numbers when there are at most 154 workers.
\<close>

lemma cluster_addresses:
  assumes "cluster_requests ce vp img ci h = (Inr (vms, sg), h')"
    and "group_params_from_vm_spec pv vp n vms (cluster_group_ops ce ci sg info) = Inr vg"
  shows "distinct (internal_octets vg) \<and>
         {101..<101 + cluster_workers ci} \<subseteq> set (internal_octets vg) \<and>
         set (internal_octets vg) \<subseteq> {1, 10} \<union> {101..<101 + cluster_workers ci} \<and>
         (cluster_workers ci \<le> 154 \<longrightarrow> (\<forall>o'\<in>set (internal_octets vg). 1 \<le> o' \<and> o' \<le> 254))"
proof -
  obtain g where g: "group_params_from_spec pv vp g = Inr vg" "gr_vms g = vms"
    using cluster_group_request[OF assms(2)] .
  note shape = cluster_shape[OF cluster_requests_shape[OF assms(1)]]
  show ?thesis
    using internal_octets_shape[OF g(1)] shape unfolding g(2) by simp
qed

text \<open>
  Note (metal\_lb\_range\_meets\_workers): the default range of MetalLB, \<open>200-250\<close>, meets the addresses of the workers in a cluster of 100 or more.
\<close>

lemma metal_lb_range_meets_workers:
  assumes "cluster_requests ce vp img ci h = (Inr (vms, sg), h')"
    and "group_params_from_vm_spec pv vp n vms (cluster_group_ops ce ci sg info) = Inr vg"
    and "100 \<le> cluster_workers ci"
  shows "200 \<in> set (internal_octets vg)"
proof -
  obtain g where g: "group_params_from_spec pv vp g = Inr vg" "gr_vms g = vms"
    using cluster_group_request[OF assms(2)] .
  have "workers vms = cluster_workers ci" using cluster_shape[OF cluster_requests_shape[OF assms(1)]] by simp
  then show ?thesis using assms(3) by (simp add: internal_octets_eq[OF g(1)] g(2) group_octets_set)
qed

subsection \<open>Chef clients\<close>

lemma delete_cluster_goes:
  assumes "delete_cluster co oc vp ce lb ci w = (None, w')"
  shows "\<exists>w1. w' = delete_chef_clients oc vp (deleted_chef_nodes vp ce ci) w1"
  using assms by (auto simp: delete_cluster_def Let_def split: if_splits prod.splits option.splits)

text \<open>
  C21 (chef\_clients\_roundtrip): the deletion of a cluster deletes exactly the chef clients that its creation registers, in the same order: the
  dedicated load balancer, the Docker VM or the master, and the nodes 1 to n.
\<close>

lemma chef_clients_roundtrip:
  assumes "cluster_requests ce vp img ci h = (Inr (vms, sg), h')"
    and "delete_cluster co oc vp ce lb ci w = (None, w')"
  shows "registered_nodes h' vms = map (get_chef_client_name vp) (deleted_chef_nodes vp ce ci) \<and>
         (\<exists>w1. w' = delete_chef_clients oc vp (deleted_chef_nodes vp ce ci) w1)"
  using cluster_shape[OF cluster_requests_shape[OF assms(1)]] delete_cluster_goes[OF assms(2)] by simp

text \<open>Note (root\_lb\_zone\_is\_dropped): the zone that the spec of a load balancer names is not used: the request has none.\<close>

lemma root_lb_zone_is_dropped:
  "get_vm_spec_for_root_lb ce vp lb subnet tags nets routes h = (Inr v, h') \<Longrightarrow> vr_compute_az v = ''''"
  using root_lb_request_ok by blast

subsection \<open>Names of nodes\<close>

lemma nat_digits_are_digits: "c \<in> set (nat_digits n) \<Longrightarrow> char_digit c \<noteq> None"
proof (induction n rule: nat_digits.induct)
  case (1 n)
  have "char_digit (char_of (48 + n mod 10)) \<noteq> None" by simp
  then show ?case
    using 1 by (cases "n < 10") (auto simp: nat_digits.simps[of n] simp del: char_digit_char_of)
qed

lemma nat_digits_not_Nil: "nat_digits n \<noteq> []"
  using nat_digits_head[of n] by auto

lemma nat_digits_inj: "nat_digits m = nat_digits n \<Longrightarrow> m = n"
  using parse_nat_digits by (metis option.inject)

lemma takeWhile_digits: "takeWhile (\<lambda>c. char_digit c \<noteq> None) (nat_digits n @ CHR ''-'' # s) = nat_digits n"
proof -
  have "char_digit (CHR ''-'') = None" by (simp add: char_digit_def)
  then show ?thesis using nat_digits_are_digits[of _ n] by (subst takeWhile_append2) auto
qed

lemma atoi_nat_digits: "n < 2 ^ 63 \<Longrightarrow> strconv_atoi (nat_digits n) = Some (int n)"
  using atoi_itoa[of "int n"] by (simp add: strconv_itoa_def)

lemma has_prefix_append: "strings_has_prefix (p @ s) p"
  by (simp add: strings_has_prefix_def)

text \<open>The number of a node can be read back from its name.\<close>

lemma parse_node_name:
  assumes "n < 2 ^ 32"
  shows "parse_cluster_node_prefix ce (get_cluster_node_name ce ci n) = Some n"
proof -
  have "n < 2 ^ 63" using assms by (rule less_trans) simp
  then have "strconv_atoi (nat_digits n) = Some (int n)" by (rule atoi_nat_digits)
  moreover have "int n mod 2 ^ 32 = int n" using assms by simp
  ultimately show ?thesis
    using takeWhile_digits[of n "ce_cluster_name ce (ci_key ci)"]
    by (simp add: parse_cluster_node_prefix_def get_cluster_node_name_def cluster_node_prefix_def has_prefix_append
        nat_digits_not_Nil Let_def)
qed

lemma node_name_inj: "get_cluster_node_name ce ci m = get_cluster_node_name ce ci n \<Longrightarrow> m = n"
proof -
  assume "get_cluster_node_name ce ci m = get_cluster_node_name ce ci n"
  then have "nat_digits m @ CHR ''-'' # ce_cluster_name ce (ci_key ci) = nat_digits n @ CHR ''-'' # ce_cluster_name ce (ci_key ci)"
    by (simp add: get_cluster_node_name_def cluster_node_prefix_def)
  then show "m = n" by (metis append_same_eq nat_digits_inj)
qed

subsection \<open>The plan of an update\<close>

text \<open>The numbers of the nodes that kubectl lists.\<close>

definition listed :: "cluster_env \<Rightarrow> string list \<Rightarrow> nat set" where
  "listed ce all = {n. \<exists>x\<in>set all. parse_cluster_node_prefix ce x = Some n}"

lemma parse_has_prefix: "parse_cluster_node_prefix ce x = Some n \<Longrightarrow> strings_has_prefix x (ce_node_prefix ce)"
  by (auto simp: parse_cluster_node_prefix_def split: if_splits)

lemma scan_node_info:
  "map_of (ns_info (scan_node ce ci x ns)) (get_cluster_node_name ce ci n) =
     (if parse_cluster_node_prefix ce x = Some n then Some (if n > ci_num_nodes ci then action_remove else action_none)
      else map_of (ns_info ns) (get_cluster_node_name ce ci n))"
  using parse_has_prefix[of ce x]
  by (auto simp: scan_node_def Let_def split: option.splits dest: node_name_inj)

lemma scan_fold_info:
  "map_of (ns_info (fold (scan_node ce ci) all ns)) (get_cluster_node_name ce ci n) =
     (if n \<in> listed ce all then Some (if n > ci_num_nodes ci then action_remove else action_none)
      else map_of (ns_info ns) (get_cluster_node_name ce ci n))"
  by (induction all arbitrary: ns) (auto simp: listed_def scan_node_info)

lemma scan_fold_remove:
  "ns_remove (fold (scan_node ce ci) all ns) =
     ns_remove ns @ filter (\<lambda>x. \<exists>n>ci_num_nodes ci. parse_cluster_node_prefix ce x = Some n) all"
proof (induction all arbitrary: ns)
  case Nil
  then show ?case by simp
next
  case (Cons x all)
  have "ns_remove (scan_node ce ci x ns) =
      ns_remove ns @ (if \<exists>n>ci_num_nodes ci. parse_cluster_node_prefix ce x = Some n then [x] else [])"
    using parse_has_prefix[of ce x] by (auto simp: scan_node_def Let_def split: option.splits)
  then show ?case using Cons.IH by simp
qed

lemma add_missing_fold:
  "map_of (fold (\<lambda>n m. let name = get_cluster_node_name ce ci n in
             if map_of m name = None then gput name action_add m else m) ns info) (get_cluster_node_name ce ci k) =
     (if map_of info (get_cluster_node_name ce ci k) = None \<and> k \<in> set ns then Some action_add
      else map_of info (get_cluster_node_name ce ci k))"
proof (induction ns arbitrary: info)
  case Nil
  then show ?case by simp
next
  case (Cons n ns)
  show ?case
    using Cons.IH by (auto simp: Let_def dest: node_name_inj)
qed

text \<open>
  C22 (update\_plan\_is\_right): the plan of an update, for a cluster that is to have n nodes: every listed node stays up to number n and is
  removed above it, every node from 1 to n that is not listed is added, and there is nothing else; the names that are
  handed to kubectl for deletion are those of the listed nodes above n.
\<close>

lemma update_plan_is_right:
  "map_of (add_missing ce ci (ns_info (scan_nodes ce ci all))) (get_cluster_node_name ce ci k) =
     (if k \<in> listed ce all then Some (if k > ci_num_nodes ci then action_remove else action_none)
      else if 1 \<le> k \<and> k \<le> ci_num_nodes ci then Some action_add else None) \<and>
   ns_remove (scan_nodes ce ci all) =
     filter (\<lambda>x. \<exists>n>ci_num_nodes ci. parse_cluster_node_prefix ce x = Some n) all"
  unfolding add_missing_def add_missing_fold scan_nodes_def scan_fold_info scan_fold_remove
  by (auto simp del: upt_Suc)

text \<open>What kubectl lists for the nodes of the cluster itself is the set of their numbers.\<close>

lemma listed_own_nodes:
  assumes "\<forall>n\<in>set ns. n < 2 ^ 32" "\<forall>x\<in>set masters. \<not> strings_has_prefix x (ce_node_prefix ce)"
  shows "listed ce (masters @ map (get_cluster_node_name ce ci) ns) = set ns"
proof -
  have "parse_cluster_node_prefix ce x = None" if "x \<in> set masters" for x
    using assms(2) that by (simp add: parse_cluster_node_prefix_def)
  then show ?thesis using assms(1) by (force simp: listed_def parse_node_name)
qed

text \<open>
  Note (update\_deletes\_and\_reports\_no\_change): whether anything changes is decided by the number of nodes.  A cluster with the nodes 1 and 3 that is to have 2 nodes has node 3
  deleted from Kubernetes, and the update then ends as if nothing had to change: node 3's VM is not removed, and node 2 is not made.
\<close>

definition lab_cluster_env :: cluster_env where
  "lab_cluster_env =
     \<lparr>ce_cluster_name = ck_cluster, ce_node_prefix = ''mex-k8s-node-'', ce_networks = (\<lambda>_. Inr []), ce_image = Inr ''base'',
      ce_no_flavors = True, ce_get_vm_spec = (\<lambda>_. Inl ''no flavors''), ce_type_name = (\<lambda>_. ''node'')\<rparr>"

definition lab_cluster :: "nat \<Rightarrow> vm_cluster_inst" where
  "lab_cluster n =
     \<lparr>ci_key = \<lparr>ck_cluster = ''c1'', ck_organization = ''dev'', ck_cloudlet = ''site'', ck_cloudlet_org = ''oper''\<rparr>,
      ci_deployment = Dep_Kubernetes, ci_ip_access = Access_Dedicated, ci_fqdn = ''c1.example.net'', ci_num_masters = 1,
      ci_num_nodes = n, ci_node_flavor = ''m4.large'', ci_master_flavor = '''', ci_external_volume = 0, ci_shared_volume = 0,
      ci_opt_res = '''', ci_az = '''', ci_skip_cleanup = False\<rparr>"

text \<open>The world is the list of what was deleted; anything after that would fail.\<close>

definition lab_cluster_ops :: "string \<Rightarrow> string list cluster_ops" where
  "lab_cluster_ops out =
     \<lparr>co_master_name = (\<lambda>w. (Inr ''mex-k8s-master-c1'', w)), co_get_nodes = (\<lambda>w. (Inr out, w)), co_taint = (\<lambda>_ _ w. (None, w)),
      co_delete_nodes = (\<lambda>ns w. (None, w @ ns)), co_setup = (\<lambda>_ _ w. (Some ''set up'', w)), co_client = (\<lambda>w. (None, w)),
      co_detach = (\<lambda>_ _ w. w), co_delete_vms = (\<lambda>_ w. (None, w)), co_delete_dns = (\<lambda>_ w. w), co_clean_config = (\<lambda>w. w),
      co_gpu_stage = False, co_clean_gpu = (\<lambda>_ w. w)\<rparr>"

definition lab_node_list :: string where
  "lab_node_list = ''mex-k8s-master-c1'' @ [CHR 0x0A] @ ''mex-k8s-node-1-c1'' @ [CHR 0x0A] @ ''mex-k8s-node-3-c1'' @ [CHR 0x0A]"

lemma update_deletes_and_reports_no_change:
  "update_cluster_internal (lab_cluster_ops lab_node_list) oc pv vp lab_cluster_env img (lab_cluster 2) h [] =
     (None, h, [''mex-k8s-node-3-c1''])"
proof -
  have lines: "strings_split (strings_trim_space lab_node_list) [CHR 0x0A] =
      [''mex-k8s-master-c1'', ''mex-k8s-node-1-c1'', ''mex-k8s-node-3-c1'']"
    by code_simp
  have p: "strings_has_prefix ''mex-k8s-master-c1'' ''mex-k8s-node-'' = False" "strings_has_prefix ''mex-k8s-node-1-c1'' ''mex-k8s-node-''"
    "strings_has_prefix ''mex-k8s-node-3-c1'' ''mex-k8s-node-''"
    by code_simp+
  have digit: "nat_digits 1 = ''1''" "nat_digits 3 = ''3''" by code_simp+
  have d: "get_cluster_node_name lab_cluster_env (lab_cluster 2) 1 = ''mex-k8s-node-1-c1''"
    "get_cluster_node_name lab_cluster_env (lab_cluster 2) 3 = ''mex-k8s-node-3-c1''"
    unfolding get_cluster_node_name_def cluster_node_prefix_def digit by (simp_all add: lab_cluster_env_def lab_cluster_def)
  have n: "parse_cluster_node_prefix lab_cluster_env ''mex-k8s-node-1-c1'' = Some 1"
    "parse_cluster_node_prefix lab_cluster_env ''mex-k8s-node-3-c1'' = Some 3"
    using parse_node_name[of 1 lab_cluster_env "lab_cluster 2"] parse_node_name[of 3 lab_cluster_env "lab_cluster 2"]
    unfolding d by simp_all
  have scan: "scan_nodes lab_cluster_env (lab_cluster 2) [''mex-k8s-master-c1'', ''mex-k8s-node-1-c1'', ''mex-k8s-node-3-c1''] =
     \<lparr>ns_remove = [''mex-k8s-node-3-c1''], ns_masters = 1, ns_nodes = 2,
      ns_info = gput ''mex-k8s-node-3-c1'' action_remove (gput ''mex-k8s-node-1-c1'' action_none [])\<rparr>"
  proof -
    have f: "ce_node_prefix lab_cluster_env = ''mex-k8s-node-''" "ci_num_nodes (lab_cluster 2) = 2"
      by (simp_all add: lab_cluster_env_def lab_cluster_def)
    have "scan_node lab_cluster_env (lab_cluster 2) ''mex-k8s-master-c1'' ns = ns\<lparr>ns_masters := Suc (ns_masters ns)\<rparr>"
      "scan_node lab_cluster_env (lab_cluster 2) ''mex-k8s-node-1-c1'' ns = ns\<lparr>ns_nodes := Suc (ns_nodes ns),
         ns_info := gput ''mex-k8s-node-1-c1'' action_none (ns_info ns)\<rparr>"
      "scan_node lab_cluster_env (lab_cluster 2) ''mex-k8s-node-3-c1'' ns = ns\<lparr>ns_nodes := Suc (ns_nodes ns),
         ns_remove := ns_remove ns @ [''mex-k8s-node-3-c1''], ns_info := gput ''mex-k8s-node-3-c1'' action_remove (ns_info ns)\<rparr>" for ns
      unfolding scan_node_def f n option.case Let_def d by (simp_all add: p)
    then show ?thesis by (simp add: scan_nodes_def)
  qed
  show ?thesis
    unfolding update_cluster_internal_def lab_cluster_ops_def
    by (simp add: lines scan Let_def) (simp add: lab_cluster_def)
qed

subsection \<open>A cluster on which the theorems are used\<close>

lemma root_lb_request_goes:
  assumes "get_cloudlet_shared_root_lb_flavor vp = Inr f" "ce_no_flavors ce" "ce_image ce = Inr img"
  shows "\<exists>v h'. get_vm_spec_for_root_lb ce vp lb subnet tags nets routes h = (Inr v, h')"
proof -
  obtain a h1 where a: "new_attributes tags h = (a, h1)" by force
  obtain r h2 where r: "node_chef_params vp lb a h1 = (r, h2)" by force
  show ?thesis
    unfolding get_vm_spec_for_root_lb_def assms a Let_def prod.case sum.case r
    using assms(2) by (simp add: request_ops)
qed

lemma lab_cluster_requests:
  "\<exists>vms h'. cluster_requests lab_cluster_env lab_properties ''base'' (lab_cluster 2) \<lparr>ch_params = [], ch_attrs = []\<rparr> =
       (Inr (vms, ''c1.example.net-sg''), h')"
proof -
  let ?ce = lab_cluster_env and ?vp = lab_properties and ?ci = "lab_cluster 2"
  let ?h = "\<lparr>ch_params = [], ch_attrs = []\<rparr>" and ?cn = "sort_networks []"
  have f: "\<exists>f. get_cloudlet_shared_root_lb_flavor ?vp = Inr f"
    by (simp add: get_cloudlet_shared_root_lb_flavor_def uint_property_def lab_properties_def plain_properties_def lab_values_def)
  have e: "ce_no_flavors ?ce" "ce_image ?ce = Inr ''base''" "ce_networks ?ce ?ci = Inr []" "ci_ip_access ?ci = Access_Dedicated"
    "ci_deployment ?ci = Dep_Kubernetes" "ci_fqdn ?ci = ''c1.example.net''"
    by (simp_all add: lab_cluster_env_def lab_cluster_def)
  obtain lb h1 where lb: "get_vm_spec_for_root_lb ?ce ?vp (get_root_lb_name_for_cluster ?vp ?ci) (get_cluster_subnet_name ?ce ?ci)
      (get_chef_cluster_tags ?ce ?vp (ci_key ?ci) NT_Dedicated_Root_LB) (cn_lb_nets ?cn) (cn_lb_routes ?cn) ?h = (Inr lb, h1)"
    using f root_lb_request_goes[OF _ e(1,2)] by blast
  have "vr_name lb = ''c1.example.net''"
    using root_lb_request_ok[OF lb] e by (simp add: get_root_lb_name_for_cluster_def)
  then have lbs: "cluster_lb_request ?ce ?vp ?ci ?cn ?h = (Inr ([lb], ''c1.example.net-sg''), h1)"
    by (simp add: cluster_lb_request_def e lb get_server_security_group_name_def)
  obtain m h2 where m: "master_request ?ce ?vp ''base'' ?ci h1 = (Inr m, h2)"
    using master_request_ok by (metis surj_pair)
  obtain a h3 where a: "new_attributes (get_chef_cluster_tags ?ce ?vp (ci_key ?ci) NT_K8s_Node) h2 = (a, h3)" by force
  obtain ns h4 where ns: "k8s_node_requests ?ce ?vp ''base'' ?ci ?cn a [1..<Suc (ci_num_nodes ?ci)] h3 = (Inr ns, h4)"
    using k8s_node_requests_ok by (metis surj_pair)
  show ?thesis
    unfolding cluster_requests_def k8s_cluster_requests_def e sum.case deployment.distinct if_False lbs prod.case m Let_def a ns
    by simp
qed

text \<open>Groups whose requests are of that kind can always be defined with the lab's settings.\<close>

lemma external_ports_go: "gr_new_secgrp g \<noteq> '''' \<Longrightarrow> \<exists>ps fs. external_ports pv g gc i v nets = Inr (ps, fs)"
proof (induction nets)
  case Nil
  then show ?case by simp
next
  case (Cons n nets)
  moreover obtain p fs where "external_port pv g gc i v n = Inr (p, fs)"
    using Cons.prems by (cases n) (simp add: external_port_def Let_def)
  ultimately show ?case by auto
qed

lemma lab_define_vms:
  assumes "gr_new_secgrp g \<noteq> ''''"
    and "\<forall>v\<in>set vs. connected v \<and> (is_lb_type (vr_type v) \<or> is_master_type (vr_type v) \<or> is_node_type (vr_type v))"
  shows "\<exists>parts. define_vms lab_provider vp g gc i n vs = Inr parts"
  using assms(2)
proof (induction vs arbitrary: i n)
  case Nil
  then show ?case by simp
next
  case (Cons v vs)
  obtain role internal n1 where r: "vm_role_and_ports lab_provider vp g gc n v = Inr (role, internal, n1)"
    using Cons.prems
    by (auto simp: vm_role_and_ports_def connected_def is_lb_type_def is_master_type_def is_node_type_def Let_def)
  have "\<exists>nets. external_networks lab_provider vp v = Inr nets"
    by (simp add: external_networks_def lab_provider_def)
  then obtain nets where e: "external_networks lab_provider vp v = Inr nets" by blast
  obtain ps fs where "external_ports lab_provider g gc i v (pv_range lab_provider i nets) = Inr (ps, fs)"
    using external_ports_go[OF assms(1)] by blast
  then have "\<exists>pt n'. define_vm lab_provider vp g gc i n v = Inr (pt, n')"
    by (simp add: define_vm_def r e Let_def)
  then obtain pt n' where d: "define_vm lab_provider vp g gc i n v = Inr (pt, n')" by blast
  obtain parts where "define_vms lab_provider vp g gc (Suc i) n' vs = Inr parts"
    using Cons.IH Cons.prems by (meson list.set_intros(2))
  then show ?case by (simp add: d)
qed

lemma cluster_requests_subnet:
  assumes "cluster_requests_ok ce vp ci h vms" "v \<in> set vms"
  shows "vr_connect_subnet v = get_cluster_subnet_name ce ci \<and>
     (is_lb_type (vr_type v) \<or> is_master_type (vr_type v) \<or> is_node_type (vr_type v))"
proof -
  let ?s = "get_cluster_subnet_name ce ci"
  have node: "vr_connect_subnet v = ?s \<and> vr_type v = t" if "node_request_ok vp ?s h n t v" for n t v
    using node_request_fields[OF that] by simp
  have lbs: "vr_connect_subnet v = ?s \<and> is_lb_type (vr_type v)"
    if "lb_request_ok vp ci ?s h lbs" "v \<in> set lbs" for lbs v
    using that node by (auto simp: lb_request_ok_def request_view_def is_lb_type_def split: if_splits)
  have nodes: "vr_connect_subnet v = ?s \<and> vr_type v = NT_K8s_Node"
    if "list_all2 (\<lambda>n v. node_request_ok vp ?s h (f n) NT_K8s_Node v) xs vs" "v \<in> set vs" for f xs vs v
    using that node by (auto simp: list_all2_conv_all_nth in_set_conv_nth)
  have t: "is_node_type NT_K8s_Node" "is_node_type NT_Docker_Node" "is_master_type NT_K8s_Master"
    by (simp_all add: is_node_type_def is_master_type_def)
  show ?thesis
    using assms unfolding cluster_requests_ok_def Let_def
    by (auto split: if_splits simp del: upt_Suc dest!: node lbs nodes simp: t)
qed

lemma cluster_requests_types:
  assumes "cluster_requests_ok ce vp ci h vms" "v \<in> set vms"
  shows "connected v \<and> (is_lb_type (vr_type v) \<or> is_master_type (vr_type v) \<or> is_node_type (vr_type v))"
  using cluster_requests_subnet[OF assms] by (simp add: connected_def)

lemma lab_cluster_params:
  "\<exists>vms h' vg. cluster_requests lab_cluster_env lab_properties ''base'' (lab_cluster 2) \<lparr>ch_params = [], ch_attrs = []\<rparr> =
       (Inr (vms, ''c1.example.net-sg''), h') \<and>
     group_params_from_vm_spec lab_provider lab_properties ''c1'' vms
       (cluster_group_ops lab_cluster_env (lab_cluster 2) ''c1.example.net-sg'' None) = Inr vg"
proof -
  obtain vms h' where vms: "cluster_requests lab_cluster_env lab_properties ''base'' (lab_cluster 2) \<lparr>ch_params = [], ch_attrs = []\<rparr> =
       (Inr (vms, ''c1.example.net-sg''), h')"
    using lab_cluster_requests by blast
  note types = cluster_requests_types[OF cluster_requests_shape[OF vms]]
  define g where "g = empty_group_request\<lparr>gr_name := ''c1'', gr_vms := vms,
    gr_new_subnet := get_cluster_subnet_name lab_cluster_env (lab_cluster 2), gr_new_secgrp := ''c1.example.net-sg'',
    gr_skip_cleanup := False\<rparr>"
  have fields: "gr_new_secgrp g = ''c1.example.net-sg''" "gr_vms g = vms" "\<not> gr_skip_default_secgrp g" "\<not> gr_anti_affinity g"
    "gr_access_ports g = ''''" "gr_trust_policy g = None"
    by (simp_all add: g_def empty_group_request_def)
  have req: "get_vm_group_request_spec ''c1'' vms (cluster_group_ops lab_cluster_env (lab_cluster 2) ''c1.example.net-sg'' None) = Inr g"
    by (simp add: get_vm_group_request_spec_def cluster_group_ops_def with_new_subnet_def with_new_security_group_def
        with_chef_update_info_def with_skip_cleanup_on_failure_def g_def empty_group_request_def lab_cluster_def)
  obtain ni where ni: "parse_net_spec ''cidr=10.101.X.0/24'' = Inr ni" using lab_netspec by blast
  have dns: "strings_split ''1.1.1.1'' '','' = [''1.1.1.1'']" by code_simp
  have id: "cloudlet_secgrp_id lab_provider lab_properties g = Inr ''site-cloudlet-sg''"
    by (simp add: cloudlet_secgrp_id_def lab_provider_def fields lab_settings)
  have sg: "\<exists>sgs. group_secgrps lab_provider g = Inr sgs"
    by (simp add: group_secgrps_def get_secgrp_params_def secgrp_with_access_ports_def secgrp_with_egress_rules_def fields)
  then obtain sgs where sgs: "group_secgrps lab_provider g = Inr sgs" by blast
  have cert: "vault_ssh_cert lab_provider lab_properties = Inr ''ssh-rsa DUMMYTESTCACERT''"
    by (simp add: vault_ssh_cert_def lab_settings)
  have "gr_new_secgrp g \<noteq> ''''" by (simp add: fields)
  then obtain parts where "define_vms lab_provider lab_properties g
      (group_context lab_properties g ''site-cloudlet-sg'' ni [''1.1.1.1''] ''ssh-rsa DUMMYTESTCACERT'') 0 first_internal_octet vms = Inr parts"
    using lab_define_vms types by blast
  then have "\<exists>vg. group_params_from_spec lab_provider lab_properties g = Inr vg"
    by (simp add: group_params_from_spec_def lab_settings fields dns id cert ni sgs)
  then show ?thesis using vms by (auto simp: group_params_from_vm_spec_def req)
qed

lemma cluster_addresses_witness:
  "\<exists>vms h' vg. cluster_requests lab_cluster_env lab_properties ''base'' (lab_cluster 2) \<lparr>ch_params = [], ch_attrs = []\<rparr> =
       (Inr (vms, ''c1.example.net-sg''), h') \<and>
     group_params_from_vm_spec lab_provider lab_properties ''c1'' vms
       (cluster_group_ops lab_cluster_env (lab_cluster 2) ''c1.example.net-sg'' None) = Inr vg \<and> distinct (internal_octets vg)"
  using lab_cluster_params cluster_addresses by metis

lemma chef_clients_roundtrip_witness:
  "\<exists>vms sg h'. cluster_requests lab_cluster_env lab_properties ''base'' (lab_cluster 2) \<lparr>ch_params = [], ch_attrs = []\<rparr> =
       (Inr (vms, sg), h') \<and>
     registered_nodes h' vms =
       map (get_chef_client_name lab_properties)
         [''c1.example.net'', ''mex-k8s-master-c1'', ''mex-k8s-node-1-c1'', ''mex-k8s-node-2-c1'']"
proof -
  obtain vms sg h' where r: "cluster_requests lab_cluster_env lab_properties ''base'' (lab_cluster 2) \<lparr>ch_params = [], ch_attrs = []\<rparr> =
       (Inr (vms, sg), h')"
    using lab_cluster_requests by blast
  have d: "delete_cluster (lab_cluster_ops []) \<lparr>oc_chef_client = True, oc_chef_create = (\<lambda>p _ w. (Inr [], w)),
      oc_chef_delete = (\<lambda>_ w. (None, w)), oc_create_vms = (\<lambda>gp h w. (None, gp, h, w)), oc_update_vms = (\<lambda>gp h w. (None, gp, h, w))\<rparr>
      lab_properties lab_cluster_env lb (lab_cluster 2) [] = (None, snd (delete_cluster (lab_cluster_ops [])
      \<lparr>oc_chef_client = True, oc_chef_create = (\<lambda>p _ w. (Inr [], w)),
      oc_chef_delete = (\<lambda>_ w. (None, w)), oc_create_vms = (\<lambda>gp h w. (None, gp, h, w)), oc_update_vms = (\<lambda>gp h w. (None, gp, h, w))\<rparr>
      lab_properties lab_cluster_env lb (lab_cluster 2) []))" for lb
    by (simp add: delete_cluster_def lab_cluster_ops_def Let_def)
  have digit: "nat_digits (Suc 0) = ''1''" "nat_digits (Suc (Suc 0)) = ''2''" by code_simp+
  have "deleted_chef_nodes lab_properties lab_cluster_env (lab_cluster 2) =
      [''c1.example.net'', ''mex-k8s-master-c1'', ''mex-k8s-node-1-c1'', ''mex-k8s-node-2-c1'']"
    using digit
    by (simp add: deleted_chef_nodes_def lab_cluster_def get_root_lb_name_for_cluster_def get_cluster_master_name_def
        lab_cluster_env_def get_cluster_node_name_def cluster_node_prefix_def upt_rec)
  then show ?thesis using chef_clients_roundtrip[OF r d] r by metis
qed

end
