(* ===== verification/Openstack_Safety.thy ===== *)
theory Openstack_Safety
  imports Openstack_Heat VMLayer_Safety
begin

text \<open>
  Operations on stacks run side by side: each fills in its parameters under a lock, has Openstack make or update its stack
  without the lock, and then releases what it had reserved.  The step relation \<open>heat_step\<close> has all interleavings of them.  In every
  reachable state no two stacks have the same subnet, no two operations hold the same subnet or floating IP, and
  nothing is reserved that no operation holds; the exceptions are resources whose reservation was lost while they were still needed, because
  an operation gave up on a stack that Openstack goes on making, or the reservations were initialized again.
\<close>

subsection \<open>Reserving and releasing\<close>

text \<open>Reservations as sets, and what taking and giving them back does.\<close>

definition reserved_with :: "os_reservations \<Rightarrow> string \<Rightarrow> string list \<Rightarrow> string list \<Rightarrow> os_reservations" where
  "reserved_with rs by fips cidrs =
     rs\<lparr>rs_fips := (\<lambda>f. if f \<in> set fips then Some by else rs_fips rs f),
        rs_subnets := (\<lambda>c. if c \<in> set cidrs then Some by else rs_subnets rs c)\<rparr>"

lemma reserve_each_fips:
  "reserve_each (\<lambda>f. reserve_fip f by) xs acc rs = (e, acc', rs') \<Longrightarrow>
     \<exists>ys zs. xs = ys @ zs \<and> acc' = acc @ ys \<and> rs' = reserved_with rs by ys [] \<and> distinct ys \<and>
       (\<forall>y\<in>set ys. rs_fips rs y = None) \<and> (e = None \<longleftrightarrow> zs = [])"
proof (induction xs arbitrary: acc rs)
  case Nil
  then show ?case by (intro exI[of _ "[]"]) (simp add: reserved_with_def)
next
  case (Cons x xs)
  show ?case
  proof (cases "rs_fips rs x")
    case None
    let ?rs1 = "rs\<lparr>rs_fips := (rs_fips rs)(x \<mapsto> by)\<rparr>"
    have "reserve_each (\<lambda>f. reserve_fip f by) xs (acc @ [x]) ?rs1 = (e, acc', rs')"
    proof -
      have "reserve_fip x by rs = (None, ?rs1)" using None by (simp add: reserve_fip_def)
      then show ?thesis using Cons.prems by simp
    qed
    from Cons.IH[OF this] obtain ys zs where i: "xs = ys @ zs" "acc' = (acc @ [x]) @ ys" "rs' = reserved_with ?rs1 by ys []"
      "distinct ys" "\<forall>y\<in>set ys. rs_fips ?rs1 y = None" "e = None \<longleftrightarrow> zs = []"
      by auto
    have "x \<notin> set ys" using i(5) by auto
    moreover have "rs_fips rs y = None" if "y \<in> set ys" for y
      using i(5) that by (auto split: if_splits)
    moreover have "reserved_with ?rs1 by ys [] = reserved_with rs by (x # ys) []"
      by (auto simp: reserved_with_def fun_eq_iff)
    ultimately show ?thesis
      using i None by (intro exI[of _ "x # ys"] exI[of _ zs]) auto
  next
    case (Some u)
    then have "e \<noteq> None \<and> acc' = acc \<and> rs' = rs"
      using Cons.prems by (auto simp: reserve_fip_def)
    then show ?thesis
      by (intro exI[of _ "[]"] exI[of _ "x # xs"]) (auto simp: reserved_with_def)
  qed
qed

lemma release_fips_restores:
  "\<forall>y\<in>set ys. rs_fips rs y = None \<Longrightarrow> fold (\<lambda>f s. snd (release_fip f s)) ys (reserved_with rs by ys []) = rs"
proof -
  have rel: "rs_fips (fold (\<lambda>f s. snd (release_fip f s)) ys s) = (\<lambda>f. if f \<in> set ys then None else rs_fips s f) \<and>
      rs_subnets (fold (\<lambda>f s. snd (release_fip f s)) ys s) = rs_subnets s" for s
    by (induction ys arbitrary: s) (auto simp: release_fip_def fun_eq_iff)
  assume "\<forall>y\<in>set ys. rs_fips rs y = None"
  then have "rs_fips (fold (\<lambda>f s. snd (release_fip f s)) ys (reserved_with rs by ys [])) = rs_fips rs"
    using rel[of "reserved_with rs by ys []"] by (auto simp: reserved_with_def fun_eq_iff)
  moreover have "rs_subnets (fold (\<lambda>f s. snd (release_fip f s)) ys (reserved_with rs by ys [])) = rs_subnets rs"
    using rel[of "reserved_with rs by ys []"] by (simp add: reserved_with_def)
  ultimately show ?thesis by (simp add: os_reservations.equality)
qed

text \<open>A failed reservation of floating IPs leaves everything as it was.\<close>

lemma reserve_failure_restores:
  assumes "reserve_resources_locked res by rs = (Some e, rs')"
  shows "rs' = rs"
proof -
  obtain e1 ys rs1 where r: "reserve_each (\<lambda>f. reserve_fip f by) (rv_fips res) [] rs = (Some e1, ys, rs1)"
    "rs' = fold (\<lambda>f s. snd (release_fip f s)) ys rs1"
    using assms by (auto simp: reserve_resources_locked_def split: option.splits prod.splits)
  from reserve_each_fips[OF r(1)] have "rs1 = reserved_with rs by ys []" "\<forall>y\<in>set ys. rs_fips rs y = None"
    by auto
  then show ?thesis using r(2) release_fips_restores by simp
qed

text \<open>At most one subnet that is not reserved: then the reservation succeeds and holds everything.\<close>

lemma reserve_success:
  assumes "reserve_resources_locked res by rs = (None, rs')" "length (rv_subnets res) \<le> 1"
    "\<forall>c\<in>set (rv_subnets res). rs_subnets rs c = None"
  shows "rs' = reserved_with rs by (rv_fips res) (rv_subnets res) \<and> distinct (rv_fips res) \<and>
     (\<forall>f\<in>set (rv_fips res). rs_fips rs f = None)"
proof -
  obtain ys rs1 where r: "reserve_each (\<lambda>f. reserve_fip f by) (rv_fips res) [] rs = (None, ys, rs1)"
    and s: "rs' = snd (snd (reserve_each (\<lambda>c. reserve_subnet c by) (rv_subnets res) [] rs1))"
    using assms(1) by (auto simp: reserve_resources_locked_def split: option.splits prod.splits)
  from reserve_each_fips[OF r] have f: "ys = rv_fips res" "rs1 = reserved_with rs by (rv_fips res) []" "distinct (rv_fips res)"
      "\<forall>y\<in>set (rv_fips res). rs_fips rs y = None"
    by auto
  have "rs' = reserved_with rs by (rv_fips res) (rv_subnets res)"
  proof (cases "rv_subnets res")
    case Nil
    then show ?thesis by (simp add: s f(2))
  next
    case (Cons c cs)
    then have "cs = []" "rs_subnets rs1 c = None" using assms(2,3) by (simp_all add: f(2) reserved_with_def)
    then show ?thesis using Cons by (auto simp: s f(2) reserve_subnet_def reserved_with_def fun_eq_iff)
  qed
  then show ?thesis using f by simp
qed

lemma release_each_fips: "snd (release_each release_fip ys s) = fold (\<lambda>f s. snd (release_fip f s)) ys s"
  by (induction ys arbitrary: s) (simp_all add: case_prod_beta)

lemma release_each_subnets: "snd (release_each release_subnet ys s) = fold (\<lambda>f s. snd (release_subnet f s)) ys s"
  by (induction ys arbitrary: s) (simp_all add: case_prod_beta)

lemma release_fold_fips:
  "fold (\<lambda>f s. snd (release_fip f s)) ys s = s\<lparr>rs_fips := (\<lambda>f. if f \<in> set ys then None else rs_fips s f)\<rparr>"
  by (induction ys arbitrary: s) (auto simp: release_fip_def fun_eq_iff intro!: os_reservations.equality)

lemma release_fold_subnets:
  "fold (\<lambda>f s. snd (release_subnet f s)) ys s = s\<lparr>rs_subnets := (\<lambda>f. if f \<in> set ys then None else rs_subnets s f)\<rparr>"
  by (induction ys arbitrary: s) (auto simp: release_subnet_def fun_eq_iff intro!: os_reservations.equality)

lemma release_effect:
  "snd (release_reservations res rs) =
     rs\<lparr>rs_fips := (\<lambda>f. if f \<in> set (rv_fips res) then None else rs_fips rs f),
        rs_subnets := (\<lambda>c. if c \<in> set (rv_subnets res) then None else rs_subnets rs c)\<rparr>"
  using release_each_fips[of "rv_fips res" rs] release_each_subnets[of "rv_subnets res"]
  by (simp add: release_reservations_def release_fold_fips release_fold_subnets case_prod_beta cong: if_cong)

subsection \<open>What populateParams chooses\<close>

text \<open>A group as \<open>vmlayer\<close> makes it: at most one subnet, with a name, whose CIDR is to be chosen.\<close>

definition fresh_group :: "vm_group_orch \<Rightarrow> bool" where
  "fresh_group vg \<longleftrightarrow> length (vg_subnets vg) \<le> 1 \<and>
     (\<forall>s\<in>set (vg_subnets vg). so_cidr s = next_available \<and> so_name s \<noteq> '''')"

lemma group_params_fresh:
  assumes "group_params_from_spec pv vp g = Inr vg"
  shows "fresh_group vg"
  using assms
proof (rule group_params_parts)
  fix sgid ni sgs cert parts
  assume "vg = group_orch pv vp g (group_context vp g sgid ni (strings_split (get_cloudlet_dns vp) '','') cert) sgs parts"
  then show ?thesis by (simp add: fresh_group_def group_orch_def new_subnet_def)
qed

lemma choose_octet_free:
  assumes "choose_octet rs ni act current sns = Some o'"
  shows "o' < 256 \<and> rs_subnets rs (subnet_cidr ni o') = None \<and>
     used_name sns (subnet_cidr ni o') = (if act = Heat_Update then current else '''')"
  using assms by (auto simp: choose_octet_def find_Some_iff)

lemma populate_one_subnet:
  assumes "populate_subnets rs ni act current sns [s] mip = Inr (ss, cs, m)" "so_cidr s = next_available"
  shows "\<exists>o'. choose_octet rs ni act current sns = Some o' \<and> cs = [subnet_cidr ni o'] \<and>
     map so_cidr ss = cs \<and> map so_name ss = [so_name s] \<and> map so_node_ip_prefix ss = [ip_prefix ni o']"
  using assms by (auto simp: Let_def split: option.splits)

text \<open>The networks of a fresh group: at most one CIDR, not reserved, and for a new stack not in use.\<close>

lemma populate_networks_fresh:
  assumes "populate_networks oa net rs ni act vg = Inr (vg', cs, m)" "fresh_group vg" "act \<noteq> Heat_Test" "oa_subnets oa = Inr sns"
  shows "length cs \<le> 1 \<and> map so_cidr (vg_subnets vg') = cs \<and> map so_name (vg_subnets vg') = map so_name (vg_subnets vg) \<and>
     (\<forall>c\<in>set cs. rs_subnets rs c = None \<and> (act = Heat_Create \<and> \<not> vg_skip_infra_check vg \<longrightarrow> used_name sns c = '''')) \<and>
     vg_vms vg' = vg_vms vg \<and> vg_fips vg' = vg_fips vg"
proof (cases "vg_subnets vg")
  case Nil
  then show ?thesis using assms(1) by (simp add: populate_networks_def)
next
  case (Cons s ss)
  then have one: "vg_subnets vg = [s]" "so_cidr s = next_available"
    using assms(2) by (auto simp: fresh_group_def)
  let ?cur = "if act = Heat_Create then '''' else mex_subnet_prefix @ vg_name vg"
  let ?sns = "if vg_skip_infra_check vg then [] else sns"
  have eq: "populate_networks oa net rs ni act vg =
      (case populate_subnets rs ni act ?cur ?sns [s] '''' of
         Inl e \<Rightarrow> Inl e
       | Inr (ss, cs, mip) \<Rightarrow>
           (case map_or_fail (populate_port oa ss) (vg_ports vg) of
              Inl e \<Rightarrow> Inl e | Inr ps \<Rightarrow> Inr (vg\<lparr>vg_subnets := ss, vg_ports := ps\<rparr>, cs, mip)))"
    using assms(2-4) unfolding populate_networks_def one(1) by (simp del: populate_subnets.simps)
  obtain ss' ps where p: "populate_subnets rs ni act ?cur ?sns [s] '''' = Inr (ss', cs, m)" "vg' = vg\<lparr>vg_subnets := ss', vg_ports := ps\<rparr>"
    using assms(1) unfolding eq by (auto simp del: populate_subnets.simps split: sum.split_asm prod.split_asm)
  obtain o' where o': "choose_octet rs ni act ?cur ?sns = Some o'"
    "cs = [subnet_cidr ni o']" "map so_cidr ss' = cs" "map so_name ss' = [so_name s]"
    using populate_one_subnet[OF p(1) one(2)] by (elim exE conjE) (rule that; assumption)
  then show ?thesis
    using choose_octet_free[OF o'(1)] by (auto simp: p(2) one)
qed

lemma populate_params_cases:
  assumes "populate_params oa net act vg h rs = (Inr (vg', res), h', rs')"
  obtains ni vg1 mip fips vms where
    "vg_netspec vg = Some ni" "populate_networks oa net rs ni act vg = Inr (vg1, rv_subnets res, mip)"
    "vg' = vg1\<lparr>vg_vms := vms, vg_fips := fips\<rparr>" "reserve_resources_locked res (vg_name vg) rs = (None, rs')"
  using assms
  by (auto simp: populate_params_def Let_def split: option.splits sum.splits prod.splits)

lemma populate_params_fresh:
  assumes "populate_params oa net act vg h rs = (Inr (vg', res), h', rs')" "fresh_group vg" "act \<noteq> Heat_Test"
    "oa_subnets oa = Inr sns"
  shows "length (rv_subnets res) \<le> 1 \<and> map so_cidr (vg_subnets vg') = rv_subnets res \<and>
     map so_name (vg_subnets vg') = map so_name (vg_subnets vg) \<and>
     (\<forall>c\<in>set (rv_subnets res). rs_subnets rs c = None \<and> (act = Heat_Create \<and> \<not> vg_skip_infra_check vg \<longrightarrow> used_name sns c = '''')) \<and>
     rs' = reserved_with rs (vg_name vg) (rv_fips res) (rv_subnets res) \<and> (\<forall>f\<in>set (rv_fips res). rs_fips rs f = None)"
  using assms(1)
proof (rule populate_params_cases)
  fix ni vg1 mip fips vms
  assume p: "populate_networks oa net rs ni act vg = Inr (vg1, rv_subnets res, mip)"
    and v: "vg' = vg1\<lparr>vg_vms := vms, vg_fips := fips\<rparr>" and r: "reserve_resources_locked res (vg_name vg) rs = (None, rs')"
  note n = populate_networks_fresh[OF p assms(2-4)]
  then have "length (rv_subnets res) \<le> 1" "\<forall>c\<in>set (rv_subnets res). rs_subnets rs c = None" by simp_all
  from reserve_success[OF r this] n show ?thesis by (simp add: v)
qed

text \<open>When it fails nothing stays reserved.\<close>

lemma populate_params_fails:
  assumes "populate_params oa net act vg h rs = (Inl e, h', rs')"
  shows "rs' = rs"
proof -
  have "rs' = rs \<or> (\<exists>res e'. reserve_resources_locked res (vg_name vg) rs = (Some e', rs'))"
    using assms by (auto simp: populate_params_def Let_def split: option.splits sum.splits prod.splits)
  then show ?thesis using reserve_failure_restores by blast
qed

subsection \<open>All interleavings\<close>

record heat_op =
  ho_group :: vm_group_orch
  ho_reserved :: reserved_resources
  ho_action :: heat_action
  ho_made :: bool

text \<open>
  The state: the reservations, the subnets of the network in Openstack (CIDR and name), the operations in flight, and the subnets of the stacks that
  Openstack may still make after their operation has ended.  The last two fields record what happened and no step depends on them: the
  CIDRs and floating IPs that were exposed, that is, in use or to be used while nothing reserved them or checked them.
\<close>

record heat_state =
  hs_reservations :: os_reservations
  hs_subnets :: "(string \<times> string) list"
  hs_ops :: "nat \<rightharpoonup> heat_op"
  hs_late :: "(string \<times> string) list list"
  hs_exposed :: "string set"
  hs_exposed_fips :: "string set"

definition stack_subnets :: "vm_group_orch \<Rightarrow> (string \<times> string) list" where
  "stack_subnets vg = map (\<lambda>s. (so_cidr s, so_name s)) (vg_subnets vg)"

definition held_subnets :: "heat_state \<Rightarrow> string set" where
  "held_subnets s = (\<Union>op\<in>ran (hs_ops s). set (rv_subnets (ho_reserved op)))"

definition held_fips :: "heat_state \<Rightarrow> string set" where
  "held_fips s = (\<Union>op\<in>ran (hs_ops s). set (rv_fips (ho_reserved op)))"

text \<open>What the flag \<open>SkipInfraSpecificCheck\<close> leaves unchecked: whether the CIDR is in use.\<close>

definition unchecked_subnets :: "vm_group_orch \<Rightarrow> reserved_resources \<Rightarrow> string set" where
  "unchecked_subnets vg res = (if vg_skip_infra_check vg then set (rv_subnets res) else {})"

text \<open>
  Begin: \<open>populateParams\<close> under the lock, with the subnets Openstack has at that moment.  Make: Openstack makes the stack, or fails
  before it makes the subnet.  Finish: the reservations are released.  Give up: they are released before the stack is made, because
  \<open>waitForStack\<close> has returned early (a \<open>stack show\<close> failed, or twenty minutes have passed), or because \<open>GetCloudletManifest\<close> only
  writes a template that somebody uses later.  Late: such a stack is made after all, or never.  Reset: \<open>InitResourceReservations\<close>,
  which \<open>InitProvider\<close> and \<open>GetCloudletManifest\<close> call whatever is in flight.  Remove: subnets disappear with their stacks.
\<close>

inductive heat_step :: "heat_state \<Rightarrow> heat_state \<Rightarrow> bool" where
  heat_begin:
    "hs_ops s i = None \<Longrightarrow> fresh_group vg \<Longrightarrow> act \<noteq> Heat_Test \<Longrightarrow> oa_subnets oa = Inr (hs_subnets s) \<Longrightarrow>
     populate_params oa net act vg h (hs_reservations s) = (Inr (vg', res), h', rs') \<Longrightarrow>
     heat_step s (s\<lparr>hs_reservations := rs',
       hs_ops := (hs_ops s)(i \<mapsto> \<lparr>ho_group = vg', ho_reserved = res, ho_action = act, ho_made = False\<rparr>),
       hs_exposed := hs_exposed s \<union> unchecked_subnets vg res\<rparr>)"
| heat_begin_fails:
    "populate_params oa net act vg h (hs_reservations s) = (Inl e, h', rs') \<Longrightarrow>
     heat_step s (s\<lparr>hs_reservations := rs'\<rparr>)"
| heat_make:
    "hs_ops s i = Some op \<Longrightarrow> \<not> ho_made op \<Longrightarrow> ho_action op = Heat_Create \<Longrightarrow>
     news \<in> {[], stack_subnets (ho_group op)} \<Longrightarrow>
     heat_step s (s\<lparr>hs_subnets := hs_subnets s @ news, hs_ops := (hs_ops s)(i \<mapsto> op\<lparr>ho_made := True\<rparr>)\<rparr>)"
| heat_finish:
    "hs_ops s i = Some op \<Longrightarrow> ho_action op = Heat_Create \<longrightarrow> ho_made op \<Longrightarrow>
     heat_step s (s\<lparr>hs_reservations := snd (release_reservations (ho_reserved op) (hs_reservations s)),
       hs_ops := (hs_ops s)(i := None)\<rparr>)"
| heat_give_up:
    "hs_ops s i = Some op \<Longrightarrow> ho_action op = Heat_Create \<Longrightarrow> \<not> ho_made op \<Longrightarrow>
     heat_step s (s\<lparr>hs_reservations := snd (release_reservations (ho_reserved op) (hs_reservations s)),
       hs_ops := (hs_ops s)(i := None),
       hs_late := stack_subnets (ho_group op) # hs_late s,
       hs_exposed := hs_exposed s \<union> set (rv_subnets (ho_reserved op))\<rparr>)"
| heat_late:
    "l \<in> set (hs_late s) \<Longrightarrow> news \<in> {[], l} \<Longrightarrow>
     heat_step s (s\<lparr>hs_subnets := hs_subnets s @ news, hs_late := remove1 l (hs_late s)\<rparr>)"
| heat_reset:
    "heat_step s (s\<lparr>hs_reservations := init_resource_reservations,
       hs_exposed := hs_exposed s \<union> held_subnets s, hs_exposed_fips := hs_exposed_fips s \<union> held_fips s\<rparr>)"
| heat_remove:
    "heat_step s (s\<lparr>hs_subnets := filter P (hs_subnets s)\<rparr>)"

inductive_cases heat_stepE: "heat_step s s'"

text \<open>What an operation in flight holds, and what it knows about its subnets.\<close>

definition op_ok :: "heat_state \<Rightarrow> heat_op \<Rightarrow> bool" where
  "op_ok s op \<longleftrightarrow>
     set (rv_subnets (ho_reserved op)) \<subseteq> dom (rs_subnets (hs_reservations s)) \<union> hs_exposed s \<and>
     set (rv_fips (ho_reserved op)) \<subseteq> dom (rs_fips (hs_reservations s)) \<union> hs_exposed_fips s \<and>
     length (rv_subnets (ho_reserved op)) \<le> 1 \<and>
     map so_cidr (vg_subnets (ho_group op)) = rv_subnets (ho_reserved op) \<and>
     (\<forall>sn\<in>set (vg_subnets (ho_group op)). so_name sn \<noteq> '''') \<and>
     (ho_action op = Heat_Create \<and> \<not> ho_made op \<longrightarrow>
        set (rv_subnets (ho_reserved op)) \<inter> fst ` set (hs_subnets s) \<subseteq> hs_exposed s)"

text \<open>Two operations share nothing but what was exposed.\<close>

definition ops_disjoint :: "heat_state \<Rightarrow> heat_op \<Rightarrow> heat_op \<Rightarrow> bool" where
  "ops_disjoint s a b \<longleftrightarrow>
     set (rv_subnets (ho_reserved a)) \<inter> set (rv_subnets (ho_reserved b)) \<subseteq> hs_exposed s \<and>
     set (rv_fips (ho_reserved a)) \<inter> set (rv_fips (ho_reserved b)) \<subseteq> hs_exposed_fips s"

text \<open>The CIDRs in Openstack that were never exposed.\<close>

definition safe_cidrs :: "heat_state \<Rightarrow> string list" where
  "safe_cidrs s = filter (\<lambda>c. c \<notin> hs_exposed s) (map fst (hs_subnets s))"

definition heat_ok :: "heat_state \<Rightarrow> bool" where
  "heat_ok s \<longleftrightarrow>
     distinct (safe_cidrs s) \<and> (\<forall>e\<in>set (hs_subnets s). snd e \<noteq> '''') \<and>
     (\<forall>l\<in>set (hs_late s). fst ` set l \<subseteq> hs_exposed s \<and> (\<forall>e\<in>set l. snd e \<noteq> '''')) \<and>
     (\<forall>i op. hs_ops s i = Some op \<longrightarrow> op_ok s op) \<and>
     (\<forall>i j a b. i \<noteq> j \<longrightarrow> hs_ops s i = Some a \<longrightarrow> hs_ops s j = Some b \<longrightarrow> ops_disjoint s a b) \<and>
     dom (rs_subnets (hs_reservations s)) \<subseteq> held_subnets s \<and> dom (rs_fips (hs_reservations s)) \<subseteq> held_fips s"

lemma heat_ok_op: "heat_ok s \<Longrightarrow> hs_ops s i = Some op \<Longrightarrow> op_ok s op"
  unfolding heat_ok_def by blast

lemma heat_ok_apart: "heat_ok s \<Longrightarrow> i \<noteq> j \<Longrightarrow> hs_ops s i = Some a \<Longrightarrow> hs_ops s j = Some b \<Longrightarrow> ops_disjoint s a b"
  unfolding heat_ok_def by blast

lemma heat_ok_held:
  assumes "heat_ok s"
  shows "dom (rs_subnets (hs_reservations s)) \<subseteq> held_subnets s" "dom (rs_fips (hs_reservations s)) \<subseteq> held_fips s"
  using assms unfolding heat_ok_def by blast+

lemma heat_ok_names:
  assumes "heat_ok s"
  shows "\<forall>e\<in>set (hs_subnets s). snd e \<noteq> ''''"
    "\<forall>l\<in>set (hs_late s). fst ` set l \<subseteq> hs_exposed s \<and> (\<forall>e\<in>set l. snd e \<noteq> '''')"
  using assms unfolding heat_ok_def by blast+

text \<open>More exposure only makes the CIDRs of interest fewer.\<close>

lemma safe_cidrs_mono:
  assumes "distinct (safe_cidrs s)" "hs_subnets s' = hs_subnets s" "hs_exposed s \<subseteq> hs_exposed s'"
  shows "distinct (safe_cidrs s')"
proof -
  have "safe_cidrs s' = filter (\<lambda>c. c \<notin> hs_exposed s') (safe_cidrs s)"
    using assms(3) by (auto simp: safe_cidrs_def assms(2) intro: filter_cong)
  then show ?thesis using assms(1) by simp
qed

lemma safe_cidrs_append:
  assumes "distinct (safe_cidrs s)" "hs_exposed s' = hs_exposed s" "hs_subnets s' = hs_subnets s @ news"
    "distinct (map fst news)" "fst ` set news \<inter> fst ` set (hs_subnets s) \<subseteq> hs_exposed s"
  shows "distinct (safe_cidrs s')"
  using assms by (auto simp: safe_cidrs_def)

lemma ops_disjoint_mono:
  "ops_disjoint s a b \<Longrightarrow> hs_exposed s \<subseteq> hs_exposed s' \<Longrightarrow> hs_exposed_fips s \<subseteq> hs_exposed_fips s' \<Longrightarrow> ops_disjoint s' a b"
  unfolding ops_disjoint_def by blast

lemma held_mono:
  assumes "\<And>y. y \<in> ran (hs_ops s) \<Longrightarrow> \<exists>x\<in>ran (hs_ops s'). ho_reserved x = ho_reserved y"
  shows "held_subnets s \<subseteq> held_subnets s'" "held_fips s \<subseteq> held_fips s'"
  using assms unfolding held_subnets_def held_fips_def by fastforce+

lemma held_but_one:
  assumes "\<And>x. x \<in> ran (hs_ops s) \<Longrightarrow> x = op \<or> x \<in> ran (hs_ops s')"
  shows "held_subnets s \<subseteq> held_subnets s' \<union> set (rv_subnets (ho_reserved op))"
    "held_fips s \<subseteq> held_fips s' \<union> set (rv_fips (ho_reserved op))"
  using assms unfolding held_subnets_def held_fips_def by fastforce+

lemma held_by_op:
  assumes "hs_ops s i = Some op"
  shows "set (rv_subnets (ho_reserved op)) \<subseteq> held_subnets s" "set (rv_fips (ho_reserved op)) \<subseteq> held_fips s"
  using ranI[of "hs_ops s" i op] assms unfolding held_subnets_def held_fips_def by blast+

lemma used_name_free:
  assumes "used_name sns c = ''''" "\<forall>e\<in>set sns. snd e \<noteq> ''''"
  shows "c \<notin> fst ` set sns"
proof
  assume "c \<in> fst ` set sns"
  then have "map_of (rev sns) c \<noteq> None" by (simp add: map_of_eq_None_iff)
  then obtain n where n: "map_of (rev sns) c = Some n" by blast
  then have "(c, n) \<in> set sns" using map_of_SomeD by fastforce
  then show False using assms n by (auto simp: used_name_def)
qed

lemma heat_begin_ok:
  assumes ok: "heat_ok s" and i: "hs_ops s i = None" and g: "fresh_group vg" "act \<noteq> Heat_Test" "oa_subnets oa = Inr (hs_subnets s)"
    and p: "populate_params oa net act vg h (hs_reservations s) = (Inr (vg', res), h', rs')"
  shows "heat_ok (s\<lparr>hs_reservations := rs',
       hs_ops := (hs_ops s)(i \<mapsto> \<lparr>ho_group = vg', ho_reserved = res, ho_action = act, ho_made = False\<rparr>),
       hs_exposed := hs_exposed s \<union> unchecked_subnets vg res\<rparr>)"
    (is "heat_ok ?s'")
proof -
  let ?op = "\<lparr>ho_group = vg', ho_reserved = res, ho_action = act, ho_made = False\<rparr>"
  note f = populate_params_fresh[OF p g]
  have res: "dom (rs_subnets rs') = dom (rs_subnets (hs_reservations s)) \<union> set (rv_subnets res)"
    "dom (rs_fips rs') = dom (rs_fips (hs_reservations s)) \<union> set (rv_fips res)"
    using f by (auto simp: reserved_with_def split: if_splits)
  have names: "\<forall>sn\<in>set (vg_subnets vg'). so_name sn \<noteq> ''''"
  proof -
    have "so_name ` set (vg_subnets vg') = so_name ` set (vg_subnets vg)" using f by (metis set_map)
    then show ?thesis using g(1) unfolding fresh_group_def by (metis imageE imageI)
  qed
  have unused: "act = Heat_Create \<Longrightarrow> set (rv_subnets res) \<inter> fst ` set (hs_subnets s) \<subseteq> unchecked_subnets vg res"
    using f used_name_free[OF _ heat_ok_names(1)[OF ok]] unfolding unchecked_subnets_def by (cases "vg_skip_infra_check vg") auto
  have new: "op_ok ?s' ?op"
    using f names unused res by (auto simp: op_ok_def)
  have old: "op_ok ?s' op" if "op_ok s op" for op
    using that res by (auto simp: op_ok_def)
  have apart: "ops_disjoint ?s' ?op b \<and> ops_disjoint ?s' b ?op" if "op_ok s b" for b
    using that f unfolding op_ok_def ops_disjoint_def by auto
  have ran: "ran (hs_ops ?s') = insert ?op (ran (hs_ops s))"
    using i by (simp add: ran_map_upd)
  show ?thesis
    unfolding heat_ok_def
  proof (intro conjI allI impI)
    have "distinct (safe_cidrs s)" using ok unfolding heat_ok_def by blast
    then show "distinct (safe_cidrs ?s')" by (rule safe_cidrs_mono) auto
    show "\<forall>e\<in>set (hs_subnets ?s'). snd e \<noteq> ''''"
      "\<forall>l\<in>set (hs_late ?s'). fst ` set l \<subseteq> hs_exposed ?s' \<and> (\<forall>e\<in>set l. snd e \<noteq> '''')"
      using heat_ok_names[OF ok] by auto
    show "op_ok ?s' op" if "hs_ops ?s' j = Some op" for j op
      using that new old heat_ok_op[OF ok] by (auto split: if_splits)
    show "ops_disjoint ?s' a b" if jk: "j \<noteq> k" "hs_ops ?s' j = Some a" "hs_ops ?s' k = Some b" for j k a b
    proof -
      have rest: "hs_ops s l = Some c" if "hs_ops ?s' l = Some c" "l \<noteq> i" for l c using that by simp
      consider "j = i" "k \<noteq> i" | "j \<noteq> i" "k = i" | "j \<noteq> i" "k \<noteq> i" using jk(1) by blast
      then show ?thesis
      proof cases
        case 1
        then have "a = ?op" using jk(2) by simp
        then show ?thesis using apart[OF heat_ok_op[OF ok rest[OF jk(3) 1(2)]]] by blast
      next
        case 2
        then have "b = ?op" using jk(3) by simp
        then show ?thesis using apart[OF heat_ok_op[OF ok rest[OF jk(2) 2(1)]]] by blast
      next
        case 3
        show ?thesis
          by (rule ops_disjoint_mono[OF heat_ok_apart[OF ok jk(1) rest[OF jk(2) 3(1)] rest[OF jk(3) 3(2)]]]) auto
      qed
    qed
    show "dom (rs_subnets (hs_reservations ?s')) \<subseteq> held_subnets ?s'"
      using heat_ok_held(1)[OF ok] res(1) unfolding held_subnets_def ran by auto
    show "dom (rs_fips (hs_reservations ?s')) \<subseteq> held_fips ?s'"
      using heat_ok_held(2)[OF ok] res(2) unfolding held_fips_def ran by auto
  qed
qed

lemma heat_make_ok:
  assumes ok: "heat_ok s" and i: "hs_ops s i = Some op" "\<not> ho_made op" "ho_action op = Heat_Create"
    and n: "news \<in> {[], stack_subnets (ho_group op)}"
  shows "heat_ok (s\<lparr>hs_subnets := hs_subnets s @ news, hs_ops := (hs_ops s)(i \<mapsto> op\<lparr>ho_made := True\<rparr>)\<rparr>)"
    (is "heat_ok ?s'")
proof -
  have o1: "op_ok s op" using ok i unfolding heat_ok_def by blast
  have st: "map fst (stack_subnets (ho_group op)) = rv_subnets (ho_reserved op)"
    using o1 by (simp add: op_ok_def stack_subnets_def comp_def)
  have nm: "\<forall>e\<in>set (stack_subnets (ho_group op)). snd e \<noteq> ''''"
  proof
    fix e assume "e \<in> set (stack_subnets (ho_group op))"
    then obtain sn where "sn \<in> set (vg_subnets (ho_group op))" "snd e = so_name sn" by (auto simp: stack_subnets_def)
    then show "snd e \<noteq> ''''" using o1 unfolding op_ok_def by metis
  qed
  have cidrs: "map fst news \<in> {[], rv_subnets (ho_reserved op)}" "\<forall>e\<in>set news. snd e \<noteq> ''''"
    using n st nm by auto
  then have sub: "fst ` set news \<subseteq> set (rv_subnets (ho_reserved op))"
    by (metis empty_iff insert_iff list.set(1) list.set_map empty_subsetI subset_refl)
  have free: "set (rv_subnets (ho_reserved op)) \<inter> fst ` set (hs_subnets s) \<subseteq> hs_exposed s"
    using o1 i by (simp add: op_ok_def)
  have "distinct (rv_subnets (ho_reserved op))"
    using o1 by (cases "rv_subnets (ho_reserved op)") (auto simp: op_ok_def)
  then have d: "distinct (map fst news)" using cidrs by auto
  have ran: "held_subnets s \<subseteq> held_subnets ?s'" "held_fips s \<subseteq> held_fips ?s'"
  proof -
    have "\<exists>x\<in>ran (hs_ops ?s'). ho_reserved x = ho_reserved y" if y: "y \<in> ran (hs_ops s)" for y
    proof -
      obtain j where j: "hs_ops s j = Some y" using y by (auto simp: ran_def)
      show ?thesis
      proof (cases "j = i")
        case True
        then have "hs_ops ?s' i = Some (op\<lparr>ho_made := True\<rparr>)" "ho_reserved (op\<lparr>ho_made := True\<rparr>) = ho_reserved y"
          using j i(1) by simp_all
        then show ?thesis by (metis ranI)
      next
        case False
        then have "hs_ops ?s' j = Some y" using j by simp
        then show ?thesis by (metis ranI)
      qed
    qed
    note same = this
    show "held_subnets s \<subseteq> held_subnets ?s'" by (rule held_mono(1)) (rule same)
    show "held_fips s \<subseteq> held_fips ?s'" by (rule held_mono(2)) (rule same)
  qed
  show ?thesis
    unfolding heat_ok_def
  proof (intro conjI allI impI)
    have "distinct (safe_cidrs s)" using ok unfolding heat_ok_def by blast
    then show "distinct (safe_cidrs ?s')"
      by (rule safe_cidrs_append[where news = news]) (use d sub free in auto)
    show "\<forall>e\<in>set (hs_subnets ?s'). snd e \<noteq> ''''"
      "\<forall>l\<in>set (hs_late ?s'). fst ` set l \<subseteq> hs_exposed ?s' \<and> (\<forall>e\<in>set l. snd e \<noteq> '''')"
      using heat_ok_names[OF ok] cidrs(2) by auto
    show "op_ok ?s' a" if j: "hs_ops ?s' j = Some a" for j a
    proof (cases "j = i")
      case True
      then show ?thesis using j o1 by (auto simp: op_ok_def)
    next
      case False
      then have a: "hs_ops s j = Some a" using j by simp
      then have "op_ok s a" "ops_disjoint s a op" using heat_ok_op[OF ok] heat_ok_apart[OF ok] i(1) False by blast+
      then have "set (rv_subnets (ho_reserved a)) \<inter> fst ` set news \<subseteq> hs_exposed s"
        using sub unfolding ops_disjoint_def by blast
      then show ?thesis using \<open>op_ok s a\<close> by (auto simp: op_ok_def)
    qed
    show "ops_disjoint ?s' a b" if jk: "j \<noteq> k" "hs_ops ?s' j = Some a" "hs_ops ?s' k = Some b" for j k a b
    proof -
      have old: "\<exists>x0. hs_ops s k = Some x0 \<and> ho_reserved x0 = ho_reserved x" if "hs_ops ?s' k = Some x" for k x
        using that i(1) by (cases "k = i") auto
      obtain a0 b0 where ab: "hs_ops s j = Some a0" "ho_reserved a0 = ho_reserved a" "hs_ops s k = Some b0" "ho_reserved b0 = ho_reserved b"
        using old[OF jk(2)] old[OF jk(3)] by blast
      have "ops_disjoint s a0 b0" using heat_ok_apart[OF ok jk(1) ab(1) ab(3)] .
      then show ?thesis using ab(2,4) by (simp add: ops_disjoint_def)
    qed
    show "dom (rs_subnets (hs_reservations ?s')) \<subseteq> held_subnets ?s'"
      using subset_trans[OF heat_ok_held(1)[OF ok] ran(1)] by simp
    show "dom (rs_fips (hs_reservations ?s')) \<subseteq> held_fips ?s'"
      using subset_trans[OF heat_ok_held(2)[OF ok] ran(2)] by simp
  qed
qed

text \<open>
  The end of an operation, as both \<open>heat_finish\<close> and \<open>heat_give_up\<close> have it: its reservations go, and perhaps its subnets are exposed
  and a late stack is noted.
\<close>

lemma heat_end_ok:
  assumes ok: "heat_ok s" and i: "hs_ops s i = Some op"
    and l: "\<forall>l\<in>set late. fst ` set l \<subseteq> E \<and> (\<forall>e\<in>set l. snd e \<noteq> '''')"
  shows "heat_ok (s\<lparr>hs_reservations := snd (release_reservations (ho_reserved op) (hs_reservations s)),
       hs_ops := (hs_ops s)(i := None), hs_late := late @ hs_late s, hs_exposed := hs_exposed s \<union> E\<rparr>)" (is "heat_ok ?s'")
proof -
  have dom: "dom (rs_subnets (hs_reservations ?s')) = dom (rs_subnets (hs_reservations s)) - set (rv_subnets (ho_reserved op))"
    "dom (rs_fips (hs_reservations ?s')) = dom (rs_fips (hs_reservations s)) - set (rv_fips (ho_reserved op))"
    by (auto simp: release_effect split: if_splits)
  have rest: "x = op \<or> x \<in> ran (hs_ops ?s')" if "x \<in> ran (hs_ops s)" for x
  proof -
    obtain j where j: "hs_ops s j = Some x" using \<open>x \<in> ran (hs_ops s)\<close> by (auto simp: ran_def)
    show ?thesis
    proof (cases "j = i")
      case True
      then show ?thesis using i j by simp
    next
      case False
      then have "hs_ops ?s' j = Some x" using j by simp
      then show ?thesis by (intro disjI2 ranI)
    qed
  qed
  have held: "held_subnets s \<subseteq> held_subnets ?s' \<union> set (rv_subnets (ho_reserved op))"
    "held_fips s \<subseteq> held_fips ?s' \<union> set (rv_fips (ho_reserved op))"
    using held_but_one[of s op ?s'] rest by blast+
  have old: "j \<noteq> i \<and> hs_ops s j = Some a" if "hs_ops ?s' j = Some a" for j a
    using that by (auto split: if_splits)
  show ?thesis
    unfolding heat_ok_def
  proof (intro conjI allI impI)
    have "distinct (safe_cidrs s)" using ok unfolding heat_ok_def by blast
    then show "distinct (safe_cidrs ?s')" by (rule safe_cidrs_mono) auto
    show "\<forall>e\<in>set (hs_subnets ?s'). snd e \<noteq> ''''" using heat_ok_names(1)[OF ok] by simp
    show "\<forall>l\<in>set (hs_late ?s'). fst ` set l \<subseteq> hs_exposed ?s' \<and> (\<forall>e\<in>set l. snd e \<noteq> '''')"
      using heat_ok_names(2)[OF ok] l by auto
    show "op_ok ?s' a" if j: "hs_ops ?s' j = Some a" for j a
    proof -
      have a: "op_ok s a" "ops_disjoint s a op"
        using heat_ok_op[OF ok] heat_ok_apart[OF ok] old[OF j] i by blast+
      have "set (rv_subnets (ho_reserved a)) \<subseteq> dom (rs_subnets (hs_reservations ?s')) \<union> hs_exposed ?s'"
        "set (rv_fips (ho_reserved a)) \<subseteq> dom (rs_fips (hs_reservations ?s')) \<union> hs_exposed_fips ?s'"
        using a unfolding dom op_ok_def ops_disjoint_def by auto
      then show ?thesis using a(1) unfolding op_ok_def by auto
    qed
    show "ops_disjoint ?s' a b" if jk: "j \<noteq> k" "hs_ops ?s' j = Some a" "hs_ops ?s' k = Some b" for j k a b
      by (rule ops_disjoint_mono[OF heat_ok_apart[OF ok jk(1) conjunct2[OF old[OF jk(2)]] conjunct2[OF old[OF jk(3)]]]]) auto
    show "dom (rs_subnets (hs_reservations ?s')) \<subseteq> held_subnets ?s'"
      using heat_ok_held(1)[OF ok] held(1) unfolding dom by blast
    show "dom (rs_fips (hs_reservations ?s')) \<subseteq> held_fips ?s'"
      using heat_ok_held(2)[OF ok] held(2) unfolding dom by blast
  qed
qed

lemma heat_finish_ok:
  assumes "heat_ok s" "hs_ops s i = Some op"
  shows "heat_ok (s\<lparr>hs_reservations := snd (release_reservations (ho_reserved op) (hs_reservations s)),
       hs_ops := (hs_ops s)(i := None)\<rparr>)"
  using heat_end_ok[OF assms, of "[]" "{}"] by simp

lemma heat_give_up_ok:
  assumes ok: "heat_ok s" and i: "hs_ops s i = Some op"
  shows "heat_ok (s\<lparr>hs_reservations := snd (release_reservations (ho_reserved op) (hs_reservations s)),
       hs_ops := (hs_ops s)(i := None),
       hs_late := stack_subnets (ho_group op) # hs_late s,
       hs_exposed := hs_exposed s \<union> set (rv_subnets (ho_reserved op))\<rparr>)"
proof -
  have o1: "op_ok s op" using heat_ok_op[OF ok i] .
  then have "map fst (stack_subnets (ho_group op)) = rv_subnets (ho_reserved op)"
    by (simp add: op_ok_def stack_subnets_def comp_def)
  then have "fst ` set (stack_subnets (ho_group op)) \<subseteq> set (rv_subnets (ho_reserved op))" by (metis order_refl list.set_map)
  moreover have "\<forall>e\<in>set (stack_subnets (ho_group op)). snd e \<noteq> ''''"
    using o1 by (auto simp: op_ok_def stack_subnets_def)
  ultimately show ?thesis
    using heat_end_ok[OF ok i, of "[stack_subnets (ho_group op)]" "set (rv_subnets (ho_reserved op))"] by simp
qed

lemma heat_late_ok:
  assumes ok: "heat_ok s" and l: "l \<in> set (hs_late s)" "news \<in> {[], l}"
  shows "heat_ok (s\<lparr>hs_subnets := hs_subnets s @ news, hs_late := remove1 l (hs_late s)\<rparr>)" (is "heat_ok ?s'")
proof -
  have n: "fst ` set news \<subseteq> hs_exposed s" "\<forall>e\<in>set news. snd e \<noteq> ''''"
    using heat_ok_names(2)[OF ok] l by auto
  have "filter (\<lambda>c. c \<notin> hs_exposed s) (map fst news) = []"
    using n(1) by (auto simp: filter_empty_conv)
  then have safe: "safe_cidrs ?s' = safe_cidrs s" by (simp add: safe_cidrs_def)
  have "op_ok ?s' op" if "op_ok s op" for op
    using that n(1) unfolding op_ok_def by auto
  moreover have "ops_disjoint ?s' a b" if "ops_disjoint s a b" for a b
    using that by (rule ops_disjoint_mono) simp_all
  moreover have "\<forall>l'\<in>set (remove1 l (hs_late s)). fst ` set l' \<subseteq> hs_exposed s \<and> (\<forall>e\<in>set l'. snd e \<noteq> '''')"
    by (rule ballI, drule set_remove1_subset[THEN subsetD], rule bspec[OF heat_ok_names(2)[OF ok]])
  moreover have "distinct (safe_cidrs ?s')" using ok unfolding safe heat_ok_def by blast
  moreover have "\<forall>e\<in>set (hs_subnets ?s'). snd e \<noteq> ''''" using heat_ok_names(1)[OF ok] n(2) by auto
  moreover have "held_subnets ?s' = held_subnets s" "held_fips ?s' = held_fips s" by (simp_all add: held_subnets_def held_fips_def)
  ultimately show ?thesis
    using heat_ok_op[OF ok] heat_ok_apart[OF ok] heat_ok_held[OF ok] unfolding heat_ok_def by simp
qed

lemma heat_reset_ok:
  assumes ok: "heat_ok s"
  shows "heat_ok (s\<lparr>hs_reservations := init_resource_reservations,
       hs_exposed := hs_exposed s \<union> held_subnets s, hs_exposed_fips := hs_exposed_fips s \<union> held_fips s\<rparr>)" (is "heat_ok ?s'")
proof -
  have "distinct (safe_cidrs s)" using ok unfolding heat_ok_def by blast
  then have "distinct (safe_cidrs ?s')" by (rule safe_cidrs_mono) auto
  moreover have "op_ok ?s' op" if j: "hs_ops s j = Some op" for j op
    using heat_ok_op[OF ok j] held_by_op[of s j op] j unfolding op_ok_def by auto
  moreover have "ops_disjoint ?s' a b" if "ops_disjoint s a b" for a b
    using that by (rule ops_disjoint_mono) auto
  moreover have "\<forall>l\<in>set (hs_late s). fst ` set l \<subseteq> hs_exposed s \<union> held_subnets s \<and> (\<forall>e\<in>set l. snd e \<noteq> '''')"
    using heat_ok_names(2)[OF ok] by blast
  ultimately show ?thesis
    using heat_ok_names(1)[OF ok] heat_ok_apart[OF ok]
    unfolding heat_ok_def by (simp add: init_resource_reservations_def)
qed

lemma heat_remove_ok:
  assumes ok: "heat_ok s"
  shows "heat_ok (s\<lparr>hs_subnets := filter P (hs_subnets s)\<rparr>)" (is "heat_ok ?s'")
proof -
  have "op_ok ?s' op" if "op_ok s op" for op
    using that unfolding op_ok_def by auto
  moreover have "ops_disjoint ?s' a b" if "ops_disjoint s a b" for a b
    using that by (rule ops_disjoint_mono) simp_all
  moreover have "distinct (safe_cidrs ?s')"
  proof -
    have "distinct (map fst (filter (\<lambda>e. fst e \<notin> hs_exposed s) (hs_subnets s)))"
      using ok by (simp add: heat_ok_def safe_cidrs_def filter_map comp_def)
    then have "distinct (map fst (filter P (filter (\<lambda>e. fst e \<notin> hs_exposed s) (hs_subnets s))))"
      by (rule distinct_map_filter)
    then show ?thesis by (simp add: safe_cidrs_def filter_map comp_def conj_commute)
  qed
  ultimately show ?thesis
    using ok unfolding heat_ok_def held_subnets_def held_fips_def by simp
qed

lemma heat_step_ok: "heat_step s s' \<Longrightarrow> heat_ok s \<Longrightarrow> heat_ok s'"
proof (induction rule: heat_step.induct)
  case (heat_begin s i vg act oa net h vg' res h' rs')
  then show ?case using heat_begin_ok by blast
next
  case (heat_begin_fails oa net act vg h s e h' rs')
  then show ?case using populate_params_fails[of oa net act vg h "hs_reservations s" e h' rs'] by simp
next
  case (heat_make s i op news)
  then show ?case using heat_make_ok by blast
next
  case (heat_finish s i op)
  then show ?case using heat_finish_ok by blast
next
  case (heat_give_up s i op)
  then show ?case using heat_give_up_ok by blast
next
  case (heat_late l s news)
  then show ?case using heat_late_ok by blast
next
  case (heat_reset s)
  then show ?case by (rule heat_reset_ok)
next
  case (heat_remove s P)
  then show ?case by (rule heat_remove_ok)
qed

lemma heat_run_ok: "heat_step\<^sup>*\<^sup>* s s' \<Longrightarrow> heat_ok s \<Longrightarrow> heat_ok s'"
  by (induction rule: rtranclp_induct) (auto intro: heat_step_ok)

definition heat_start :: "(string \<times> string) list \<Rightarrow> heat_state" where
  "heat_start sns =
     \<lparr>hs_reservations = init_resource_reservations, hs_subnets = sns, hs_ops = Map.empty, hs_late = [],
      hs_exposed = {}, hs_exposed_fips = {}\<rparr>"

lemma heat_start_ok: "distinct (map fst sns) \<Longrightarrow> \<forall>e\<in>set sns. snd e \<noteq> '''' \<Longrightarrow> heat_ok (heat_start sns)"
  by (simp add: heat_start_def heat_ok_def safe_cidrs_def init_resource_reservations_def)

text \<open>
  C13 (stacks\_never\_share\_subnets): however operations on stacks interleave, give up or are interrupted by an initialization, a CIDR that two subnets
  of the network share was exposed: it belonged to an operation that gave up on its stack before the stack was made, or that was
  in flight when the reservations were initialized, or that skips the check of what is in use.  Likewise two operations in flight hold a common subnet or floating
  IP only if it was exposed.  When no operation is in flight nothing is reserved.  The subnets the network starts with must be named and
  different, as an unnamed one is taken to be unused.
\<close>

lemma stacks_never_share_subnets:
  assumes "heat_step\<^sup>*\<^sup>* (heat_start sns) s" "distinct (map fst sns)" "\<forall>e\<in>set sns. snd e \<noteq> ''''"
  shows "distinct (filter (\<lambda>c. c \<notin> hs_exposed s) (map fst (hs_subnets s))) \<and>
     (\<forall>i j a b. i \<noteq> j \<and> hs_ops s i = Some a \<and> hs_ops s j = Some b \<longrightarrow>
        set (rv_subnets (ho_reserved a)) \<inter> set (rv_subnets (ho_reserved b)) \<subseteq> hs_exposed s \<and>
        set (rv_fips (ho_reserved a)) \<inter> set (rv_fips (ho_reserved b)) \<subseteq> hs_exposed_fips s) \<and>
     (hs_ops s = Map.empty \<longrightarrow> hs_reservations s = init_resource_reservations)"
proof -
  have ok: "heat_ok s" using heat_run_ok[OF assms(1)] heat_start_ok[OF assms(2,3)] by blast
  have "hs_reservations s = init_resource_reservations" if "hs_ops s = Map.empty"
  proof -
    have "rs_subnets (hs_reservations s) = Map.empty" "rs_fips (hs_reservations s) = Map.empty"
      using ok that by (simp_all add: heat_ok_def held_subnets_def held_fips_def)
    then show ?thesis by (simp add: init_resource_reservations_def os_reservations.equality)
  qed
  moreover have "distinct (filter (\<lambda>c. c \<notin> hs_exposed s) (map fst (hs_subnets s)))"
    using ok unfolding heat_ok_def safe_cidrs_def by blast
  ultimately show ?thesis using heat_ok_apart[OF ok] unfolding ops_disjoint_def by blast
qed


subsection \<open>Addresses\<close>

text \<open>The addresses of the internal ports of a filled-in group (an additional external port has a fixed IP without an octet).\<close>

definition nonzero_ips :: "port_orch list \<Rightarrow> fixed_ip list" where
  "nonzero_ips ps = filter (\<lambda>f. fi_last_octet f \<noteq> 0) (concat (map po_fixed_ips ps))"

definition internal_addresses :: "vm_group_orch \<Rightarrow> string list" where
  "internal_addresses vg = map fi_address (nonzero_ips (vg_ports vg))"

text \<open>The fixed IPs \<open>vmlayer\<close> asks for.\<close>

definition ports_wanted :: "string set \<Rightarrow> port_orch list \<Rightarrow> bool" where
  "ports_wanted subnets ps \<longleftrightarrow>
     (\<forall>p\<in>set ps. (po_additional_external p \<longrightarrow> po_fixed_ips p = []) \<and>
        (\<forall>f\<in>set (po_fixed_ips p). fi_address f = next_available \<and> rr_name (fi_subnet f) \<in> subnets))"

lemma ports_wanted_append [simp]: "ports_wanted N (xs @ ys) \<longleftrightarrow> ports_wanted N xs \<and> ports_wanted N ys"
  by (auto simp: ports_wanted_def)

lemma role_ports_wanted:
  assumes "vm_role_and_ports pv vp g gc n v = Inr (role, ps, n')"
  shows "ports_wanted {vr_connect_subnet v} (map (add_internal_secgrp gc) ps)"
  using assms
  by (cases "vr_type v")
     (auto simp: ports_wanted_def vm_role_and_ports_def internal_port_def new_resource_ref_def add_internal_secgrp_def Let_def
        split: if_splits)

lemma define_vm_wanted:
  assumes "define_vm pv vp g gc i next v = Inr (pt, next')"
  shows "ports_wanted {vr_connect_subnet v} (part_ports pt)"
  using assms
proof (rule define_vm_cases)
  fix role internal nets ext fips
  assume r: "vm_role_and_ports pv vp g gc next v = Inr (role, internal, next')"
    and e: "external_ports pv g gc i v (pv_range pv i nets) = Inr (ext, fips)"
    and p: "part_ports pt = map (add_internal_secgrp gc) internal @ ext"
  have "ports_wanted {vr_connect_subnet v} ext"
    using external_ports_refs[OF e] by (auto simp: ports_wanted_def)
  then show ?thesis using role_ports_wanted[OF r] by (simp add: p)
qed

lemma ports_wanted_mono: "ports_wanted N ps \<Longrightarrow> N \<subseteq> M \<Longrightarrow> ports_wanted M ps"
  unfolding ports_wanted_def by blast

lemma define_vms_wanted:
  "define_vms pv vp g gc i next vs = Inr parts \<Longrightarrow>
     ports_wanted (vr_connect_subnet ` set vs) (concat (map part_ports parts))"
proof (induction vs arbitrary: i "next" parts)
  case Nil
  then show ?case by (simp add: ports_wanted_def)
next
  case (Cons v vs)
  obtain pt n' parts' where d: "define_vm pv vp g gc i next v = Inr (pt, n')"
    "define_vms pv vp g gc (Suc i) n' vs = Inr parts'" "parts = pt # parts'"
    using Cons.prems by (auto split: sum.splits prod.splits)
  show ?case
    using ports_wanted_mono[OF define_vm_wanted[OF d(1)]] ports_wanted_mono[OF Cons.IH[OF d(2)]]
    by (simp add: d(3) subset_insertI)
qed

lemma group_ports_wanted:
  assumes "group_params_from_spec pv vp g = Inr vg"
  shows "ports_wanted (insert (gr_new_subnet g) (vr_connect_subnet ` set (gr_vms g))) (vg_ports vg)"
  using assms
proof (rule group_params_cases)
  fix gc parts
  assume d: "define_vms pv vp g gc 0 first_internal_octet (gr_vms g) = Inr parts"
    and ports: "vg_ports vg = (if router_in_use vp g then [router_port pv vp g (gc_secgrp_id gc)] else []) @ concat (map part_ports parts)"
  have "ports_wanted {gr_new_subnet g} [router_port pv vp g (gc_secgrp_id gc)]"
    by (simp add: ports_wanted_def router_port_def new_resource_ref_def)
  moreover have "ports_wanted N []" for N by (simp add: ports_wanted_def)
  ultimately show ?thesis
    using define_vms_wanted[OF d] by (auto simp: ports intro: ports_wanted_mono)
qed

lemma map_or_fail_all: "map_or_fail f xs = Inr ys \<Longrightarrow> list_all2 (\<lambda>x y. f x = Inr y) xs ys"
  by (induction xs arbitrary: ys) (auto split: sum.splits)

text \<open>The fixed IPs of one port, when the group has one subnet.\<close>

lemma populate_fixed_ips_one:
  assumes "map_or_fail (populate_fixed_ip [s] pn) fs = Inr fs'" "\<forall>f\<in>set fs. fi_address f = next_available \<and> fi_last_octet f \<noteq> 0"
  shows "map fi_last_octet fs' = map fi_last_octet fs \<and>
     map fi_address fs' = map (\<lambda>f. so_node_ip_prefix s @ ''.'' @ nat_digits (fi_last_octet f)) fs"
  using map_or_fail_all[OF assms(1)] assms(2)
  by (induction fs fs' rule: list_all2_induct) (auto simp: populate_fixed_ip_def split: if_splits)

lemma populate_ports_one:
  assumes "map_or_fail (populate_port oa [s]) ps = Inr ps'" "ports_wanted N ps"
    and "\<forall>p\<in>set ps. \<forall>f\<in>set (po_fixed_ips p). fi_last_octet f \<noteq> 0"
  shows "map fi_address (nonzero_ips ps') =
     map (\<lambda>o'. so_node_ip_prefix s @ ''.'' @ nat_digits o') (map fi_last_octet (concat (map po_fixed_ips ps)))"
  using map_or_fail_all[OF assms(1)] assms(2,3)
proof (induction ps ps' rule: list_all2_induct)
  case Nil
  then show ?case by (simp add: nonzero_ips_def)
next
  case (Cons p ps p' ps')
  have "map fi_address (filter (\<lambda>f. fi_last_octet f \<noteq> 0) (po_fixed_ips p')) =
      map (\<lambda>f. so_node_ip_prefix s @ ''.'' @ nat_digits (fi_last_octet f)) (po_fixed_ips p)"
  proof (cases "po_additional_external p")
    case True
    then have "po_fixed_ips p = []" using Cons.prems(1) by (simp add: ports_wanted_def)
    then show ?thesis using Cons.hyps(1) True by (auto simp: populate_port_def split: option.splits)
  next
    case False
    then obtain fs where fs: "map_or_fail (populate_fixed_ip [s] (po_name p)) (po_fixed_ips p) = Inr fs" "po_fixed_ips p' = fs"
      using Cons.hyps(1) by (auto simp: populate_port_def split: sum.splits)
    note one = populate_fixed_ips_one[OF fs(1)]
    have all: "\<forall>f\<in>set (po_fixed_ips p). fi_address f = next_available \<and> fi_last_octet f \<noteq> 0"
      using Cons.prems by (simp add: ports_wanted_def)
    have "fi_last_octet ` set fs = fi_last_octet ` set (po_fixed_ips p)"
      using one[OF all] by (metis list.set_map)
    then have "\<forall>f\<in>set fs. fi_last_octet f \<noteq> 0" using all by (metis imageE imageI)
    then show ?thesis using one[OF all] by (simp add: fs(2))
  qed
  moreover have "ports_wanted N ps" "\<forall>q\<in>set ps. \<forall>f\<in>set (po_fixed_ips q). fi_last_octet f \<noteq> 0"
    using Cons.prems by (auto simp: ports_wanted_def)
  ultimately show ?case using Cons.IH by (simp add: nonzero_ips_def)
qed


text \<open>\<open>populateParams\<close> of a group with one subnet to choose.\<close>

lemma populate_networks_one:
  assumes "populate_networks oa net rs ni act vg = Inr (vg', cs, m)" "vg_subnets vg = [s]" "so_cidr s = next_available"
  obtains o' s' ps where "cs = [subnet_cidr ni o']" "o' < 256" "so_node_ip_prefix s' = ip_prefix ni o'" "so_name s' = so_name s"
    "map_or_fail (populate_port oa [s']) (vg_ports vg) = Inr ps" "vg' = vg\<lparr>vg_subnets := [s'], vg_ports := ps\<rparr>"
proof -
  obtain sns ss ps where p:
    "populate_subnets rs ni act (if act = Heat_Create then '''' else mex_subnet_prefix @ vg_name vg) sns [s] '''' = Inr (ss, cs, m)"
    "map_or_fail (populate_port oa ss) (vg_ports vg) = Inr ps" "vg' = vg\<lparr>vg_subnets := ss, vg_ports := ps\<rparr>"
    using assms(1) unfolding populate_networks_def assms(2)
    by (simp del: populate_subnets.simps split: sum.split_asm prod.split_asm)
  obtain o' where o': "choose_octet rs ni act (if act = Heat_Create then '''' else mex_subnet_prefix @ vg_name vg) sns = Some o'"
    "cs = [subnet_cidr ni o']" "map so_name ss = [so_name s]" "map so_node_ip_prefix ss = [ip_prefix ni o']"
    using populate_one_subnet[OF p(1) assms(3)] by (elim exE conjE) (rule that; assumption)
  then obtain s' where s': "ss = [s']" by (cases ss) auto
  show thesis
    using that[OF o'(2), of s' ps] choose_octet_free[OF o'(1)] o'(3,4) p(2,3) by (simp add: s')
qed

lemma dotted_inj: "distinct xs \<Longrightarrow> distinct (map (\<lambda>n. p @ ''.'' @ nat_digits n) xs)"
  by (simp add: distinct_map inj_on_def nat_digits_inj)

lemma group_one_subnet:
  assumes "group_params_from_spec pv vp g = Inr vg" "gr_new_subnet g \<noteq> ''''"
  obtains s where "vg_subnets vg = [s]" "so_cidr s = next_available" "so_name s = gr_new_subnet g"
  using assms(1)
proof (rule group_params_parts)
  fix sgid ni sgs cert parts
  assume vg: "vg = group_orch pv vp g (group_context vp g sgid ni (strings_split (get_cloudlet_dns vp) '','') cert) sgs parts"
  have "vg_subnets vg = [new_subnet pv vp g (if get_subnet_dns vp \<noteq> no_subnet_dns then strings_split (get_cloudlet_dns vp) '','' else [])]"
    by (simp add: vg group_orch_def group_context_def assms(2))
  then show thesis by (rule that) (simp_all add: new_subnet_def)
qed

lemma group_addresses:
  assumes "group_params_from_spec pv vp g = Inr vg" "gr_new_subnet g \<noteq> ''''"
    and "0 \<notin> set (internal_octets vg)"
    and "populate_params oa net act vg h rs = (Inr (vg', res), h', rs')"
  shows "\<exists>ni o'. vg_netspec vg = Some ni \<and> o' < 256 \<and> rv_subnets res = [subnet_cidr ni o'] \<and>
     internal_addresses vg' = map (\<lambda>n. ip_prefix ni o' @ ''.'' @ nat_digits n) (internal_octets vg)"
  using assms(4)
proof (rule populate_params_cases)
  fix ni vg1 mip fips vms
  assume ni: "vg_netspec vg = Some ni" and n: "populate_networks oa net rs ni act vg = Inr (vg1, rv_subnets res, mip)"
    and v: "vg' = vg1\<lparr>vg_vms := vms, vg_fips := fips\<rparr>"
  obtain s where s: "vg_subnets vg = [s]" "so_cidr s = next_available" using group_one_subnet[OF assms(1,2)] .
  obtain o' s' ps where o': "rv_subnets res = [subnet_cidr ni o']" "o' < 256" "so_node_ip_prefix s' = ip_prefix ni o'"
    "map_or_fail (populate_port oa [s']) (vg_ports vg) = Inr ps" "vg1 = vg\<lparr>vg_subnets := [s'], vg_ports := ps\<rparr>"
    using populate_networks_one[OF n s] .
  have "\<forall>p\<in>set (vg_ports vg). \<forall>f\<in>set (po_fixed_ips p). fi_last_octet f \<noteq> 0"
    using assms(3) by (force simp: internal_octets_def)
  note addr = populate_ports_one[OF o'(4) group_ports_wanted[OF assms(1)] this]
  have "internal_addresses vg' = map (\<lambda>n. ip_prefix ni o' @ ''.'' @ nat_digits n) (internal_octets vg)"
    unfolding internal_addresses_def v o'(5) using addr by (simp add: o'(3) internal_octets_def)
  then show ?thesis using ni o'(1,2) by blast
qed

lemma cluster_group_fields:
  assumes "group_params_from_vm_spec pv vp n vms (cluster_group_ops ce ci sg info) = Inr vg"
  obtains g where "group_params_from_spec pv vp g = Inr vg" "gr_vms g = vms" "gr_new_subnet g = get_cluster_subnet_name ce ci"
    "\<not> gr_skip_infra_check g" "gr_name g = n"
  using assms
  by (auto simp: group_params_from_vm_spec_def get_vm_group_request_spec_def cluster_group_ops_def with_new_subnet_def
      with_new_security_group_def with_chef_update_info_def with_skip_cleanup_on_failure_def empty_group_request_def)

text \<open>
  C14 (cluster\_ports\_have\_addresses): from the request for a cluster to the stack: when Openstack's parameters are filled in for the group of a cluster, one
  subnet is reserved, and each internal port gets the address of that subnet with the port's last octet; no two ports get the same address.
\<close>

lemma cluster_ports_have_addresses:
  assumes "cluster_requests ce vp img ci h = (Inr (vms, sg), h1)"
    and "group_params_from_vm_spec pv vp n vms (cluster_group_ops ce ci sg info) = Inr vg"
    and "populate_params oa net act vg h1 rs = (Inr (vg', res), h2, rs')"
  shows "\<exists>ni o'. vg_netspec vg = Some ni \<and> o' < 256 \<and> rv_subnets res = [subnet_cidr ni o'] \<and>
     internal_addresses vg' = map (\<lambda>n. ip_prefix ni o' @ ''.'' @ nat_digits n) (internal_octets vg) \<and>
     distinct (internal_addresses vg')"
proof -
  obtain g where g: "group_params_from_spec pv vp g = Inr vg" "gr_vms g = vms" "gr_new_subnet g = get_cluster_subnet_name ce ci"
    using cluster_group_fields[OF assms(2)] .
  note shape = cluster_shape[OF cluster_requests_shape[OF assms(1)]]
  have oct: "distinct (internal_octets vg)" "set (internal_octets vg) \<subseteq> {1, 10} \<union> {101..<101 + workers vms}"
    using internal_octets_shape[OF g(1)] shape unfolding g(2) by simp_all
  then have "0 \<notin> set (internal_octets vg)" by auto
  from group_addresses[OF g(1) _ this assms(3)] show ?thesis
    using dotted_inj[OF oct(1)] by (fastforce simp: g(3))
qed


subsection \<open>Where reservations fall short\<close>

text \<open>
  Note (reserved\_subnet\_is\_no\_error): a subnet that is already reserved is not an error: the error of the loop over the subnets is shadowed.  A group with two
  subnets to choose would be given the same CIDR twice; the theorem above rests on groups having at most one.
\<close>

lemma reserved_subnet_is_no_error:
  assumes "rs_subnets rs c = Some u"
  shows "reserve_resources_locked \<lparr>rv_fips = [], rv_subnets = [c]\<rparr> by rs = (None, rs)"
  using assms by (simp add: reserve_resources_locked_def reserve_subnet_def)

text \<open>
  Note (two\_floating\_ips\_fail): a group with two floating IPs cannot be made: both are given the first free one, and the second reservation fails.
\<close>

lemma two_floating_ips_fail:
  assumes "get_free_floating_ip_id oa (ni_floating_ip_external_net ni) = Inr i" "rs_fips rs i = None" "act \<noteq> Heat_Test"
    and "fo_floating_ip_id f1 = next_available" "fo_floating_ip_id f2 = next_available"
  shows "\<exists>fs. populate_fips oa rs ni act [f1, f2] = Inr (fs, [i, i]) \<and>
     fst (reserve_resources_locked \<lparr>rv_fips = [i, i], rv_subnets = cs\<rparr> by rs) \<noteq> None"
proof -
  have "fst (reserve_resources_locked \<lparr>rv_fips = [i, i], rv_subnets = cs\<rparr> by rs) \<noteq> None"
    using assms(2) by (simp add: reserve_resources_locked_def reserve_fip_def release_fip_def)
  then show ?thesis using assms by simp
qed

subsection \<open>A site on which the theorems are used\<close>

text \<open>An empty network, and no floating IPs.\<close>

definition lab_openstack :: "(string \<times> string) list \<Rightarrow> os_answers" where
  "lab_openstack sns =
     \<lparr>oa_subnets = Inr sns, oa_subnet_network = (\<lambda>_. None), oa_fips = (\<lambda>_. Inr []), oa_template = (\<lambda>_. Inr (Map.empty, Map.empty)),
      oa_exec_template = (\<lambda>_ _. Inr ''#cloud-config''), oa_share_mount = ''''\<rparr>"

lemma first_octet: "choose_octet init_resource_reservations ni Heat_Create c [] = Some 0"
proof -
  have "[0..<256] = 0 # [Suc 0..<256]" by (simp add: upt_rec)
  then show ?thesis by (simp add: choose_octet_def used_name_def init_resource_reservations_def)
qed

lemma map_or_fail_goes: "\<forall>x\<in>set xs. \<exists>y. f x = Inr y \<Longrightarrow> \<exists>ys. map_or_fail f xs = Inr ys"
  by (induction xs) fastforce+

lemma lab_populate_vms: "\<exists>vs' h'. populate_vms (lab_openstack sns) Heat_Create mip keys ud vs h = (Inr vs', h')"
proof (induction vs arbitrary: h)
  case Nil
  then show ?case by simp
next
  case (Cons v vs)
  have "\<exists>v' h'. populate_vm (lab_openstack sns) Heat_Create mip keys ud v h = (Inr v', h')"
    by (auto simp: populate_vm_def lab_openstack_def get_vm_user_data_def split: option.split)
  then obtain v' h1 where v: "populate_vm (lab_openstack sns) Heat_Create mip keys ud v h = (Inr v', h1)" by blast
  obtain vs' h2 where "populate_vms (lab_openstack sns) Heat_Create mip keys ud vs h1 = (Inr vs', h2)" using Cons by blast
  then show ?case by (simp add: v)
qed

lemma lab_populate_goes:
  assumes vg: "vg_netspec vg = Some ni" "vg_subnets vg = [s]" "so_cidr s = next_available" "\<not> vg_skip_infra_check vg" "vg_fips vg = []"
    and ports: "\<forall>p\<in>set (vg_ports vg). \<forall>f\<in>set (po_fixed_ips p). rr_name (fi_subnet f) = so_name s"
  shows "\<exists>vg' h' rs'. populate_params (lab_openstack []) net Heat_Create vg h init_resource_reservations =
       (Inr (vg', \<lparr>rv_fips = [], rv_subnets = [subnet_cidr ni 0]\<rparr>), h', rs')"
proof -
  define s' where "s' = s\<lparr>so_cidr := subnet_cidr ni 0, so_node_ip_prefix := ip_prefix ni 0,
                       so_gateway_ip := (if so_skip_gateway s then so_gateway_ip s else ip_prefix ni 0 @ ''.1'')\<rparr>"
  have n: "so_name s' = so_name s" by (simp add: s'_def)
  have fixed: "\<exists>y. populate_fixed_ip [s'] pn f = Inr y" if "rr_name (fi_subnet f) = so_name s" for pn f
    using that by (simp add: populate_fixed_ip_def n)
  have "\<exists>y. populate_port (lab_openstack []) [s'] p = Inr y" if "p \<in> set (vg_ports vg)" for p
  proof (cases "po_additional_external p")
    case True
    then show ?thesis by (simp add: populate_port_def)
  next
    case False
    have "\<forall>f\<in>set (po_fixed_ips p). \<exists>y. populate_fixed_ip [s'] (po_name p) f = Inr y"
    proof
      fix f assume "f \<in> set (po_fixed_ips p)"
      then have "rr_name (fi_subnet f) = so_name s" using ports that by blast
      then show "\<exists>y. populate_fixed_ip [s'] (po_name p) f = Inr y" by (rule fixed)
    qed
    from map_or_fail_goes[OF this]
    obtain fs where "map_or_fail (populate_fixed_ip [s'] (po_name p)) (po_fixed_ips p) = Inr fs" ..
    then show ?thesis using False by (simp add: populate_port_def)
  qed
  then have "\<forall>p\<in>set (vg_ports vg). \<exists>y. populate_port (lab_openstack []) [s'] p = Inr y" ..
  from map_or_fail_goes[OF this]
  obtain ps where ps: "map_or_fail (populate_port (lab_openstack []) [s']) (vg_ports vg) = Inr ps" ..
  have sub: "populate_subnets init_resource_reservations ni Heat_Create '''' [] [s] '''' =
      Inr ([s'], [subnet_cidr ni 0], ip_prefix ni 0 @ ''.10'')"
    using vg(3) by (simp add: first_octet s'_def)
  have oa: "oa_subnets (lab_openstack []) = Inr []" by (simp add: lab_openstack_def)
  have net: "populate_networks (lab_openstack []) net init_resource_reservations ni Heat_Create vg =
      Inr (vg\<lparr>vg_subnets := [s'], vg_ports := ps\<rparr>, [subnet_cidr ni 0], ip_prefix ni 0 @ ''.10'')"
    by (simp add: populate_networks_def vg(2,4) oa sub ps del: populate_subnets.simps)
  obtain vs h1 where vms: "populate_vms (lab_openstack []) Heat_Create (ip_prefix ni 0 @ ''.10'') Map.empty Map.empty (vg_vms vg) h = (Inr vs, h1)"
    using lab_populate_vms by blast
  have rsv: "\<exists>rs'. reserve_resources_locked \<lparr>rv_fips = [], rv_subnets = [c]\<rparr> by init_resource_reservations = (None, rs')" for c "by"
    by (simp add: reserve_resources_locked_def reserve_subnet_def init_resource_reservations_def)
  then obtain rs' where "reserve_resources_locked \<lparr>rv_fips = [], rv_subnets = [subnet_cidr ni 0]\<rparr> (vg_name vg) init_resource_reservations =
      (None, rs')" by blast
  then show ?thesis
    by (simp add: populate_params_def vg net vms Let_def)
qed

definition lab_netinfo :: net_spec_info where
  "lab_netinfo = empty_net_spec\<lparr>ni_octets := [''10'', ''101'', ''X'', ''0''], ni_netmask_bits := ''24''\<rparr>"

definition lab_stack :: vm_group_orch where
  "lab_stack = empty_group_orch
     \<lparr>vg_name := ''c1'', vg_netspec := Some lab_netinfo,
      vg_subnets := [\<lparr>so_id = ''mex-k8s-subnet-c1'', so_name = ''mex-k8s-subnet-c1'', so_network_name = ''mex-k8s-net-1'',
        so_cidr = next_available, so_node_ip_prefix = '''', so_gateway_ip = '''', so_dns_servers = [], so_dhcp_enabled = ''no'',
        so_skip_gateway = False, so_secgrp_name = ''''\<rparr>]\<rparr>"

lemma lab_cidr: "subnet_cidr lab_netinfo 0 = ''10.101.0.0/24''"
  by (simp add: subnet_cidr_def ip_prefix_def lab_netinfo_def) code_simp

text \<open>What \<open>populateParams\<close> makes of it.\<close>

lemma lab_stack_populated:
  obtains vg' h' rs' where
    "populate_params (lab_openstack []) ''net'' Heat_Create lab_stack \<lparr>ch_params = [], ch_attrs = []\<rparr> init_resource_reservations =
       (Inr (vg', \<lparr>rv_fips = [], rv_subnets = [''10.101.0.0/24'']\<rparr>), h', rs')"
    "stack_subnets vg' = [(''10.101.0.0/24'', ''mex-k8s-subnet-c1'')]"
    "rs' = init_resource_reservations\<lparr>rs_subnets := [''10.101.0.0/24'' \<mapsto> ''c1'']\<rparr>"
proof -
  have f: "fresh_group lab_stack" "vg_netspec lab_stack = Some lab_netinfo" "vg_ports lab_stack = []" "vg_fips lab_stack = []"
    "\<exists>s. vg_subnets lab_stack = [s] \<and> so_cidr s = next_available" "\<not> vg_skip_infra_check lab_stack" "map so_name (vg_subnets lab_stack) = [''mex-k8s-subnet-c1'']"
    "vg_name lab_stack = ''c1''"
    by (simp_all add: lab_stack_def empty_group_orch_def fresh_group_def)
  let ?h = "\<lparr>ch_params = [], ch_attrs = []\<rparr>"
  obtain vg' h' rs' where p: "populate_params (lab_openstack []) ''net'' Heat_Create lab_stack ?h init_resource_reservations =
      (Inr (vg', \<lparr>rv_fips = [], rv_subnets = [''10.101.0.0/24'']\<rparr>), h', rs')"
    using f lab_populate_goes[of lab_stack lab_netinfo _ "''net''" ?h] by (auto simp: lab_cidr)
  have oa: "oa_subnets (lab_openstack []) = Inr []" by (simp add: lab_openstack_def)
  note pf = populate_params_fresh[OF p f(1) _ oa]
  have "stack_subnets vg' = [(''10.101.0.0/24'', ''mex-k8s-subnet-c1'')]"
    using pf f(7) by (auto simp: stack_subnets_def)
  moreover have "rs' = init_resource_reservations\<lparr>rs_subnets := [''10.101.0.0/24'' \<mapsto> ''c1'']\<rparr>"
    using pf f(8) by (simp add: reserved_with_def init_resource_reservations_def fun_eq_iff)
  ultimately show thesis using that p by blast
qed

text \<open>The first steps of a run in which it is made.\<close>

definition lab_op :: "vm_group_orch \<Rightarrow> bool \<Rightarrow> heat_op" where
  "lab_op vg m = \<lparr>ho_group = vg, ho_reserved = \<lparr>rv_fips = [], rv_subnets = [''10.101.0.0/24'']\<rparr>, ho_action = Heat_Create, ho_made = m\<rparr>"

lemma lab_begin:
  assumes "populate_params (lab_openstack []) ''net'' Heat_Create lab_stack \<lparr>ch_params = [], ch_attrs = []\<rparr> init_resource_reservations =
       (Inr (vg', \<lparr>rv_fips = [], rv_subnets = [''10.101.0.0/24'']\<rparr>), h', rs')"
    and "hs_ops s i = None" "hs_subnets s = []" "hs_reservations s = init_resource_reservations"
  shows "heat_step s (s\<lparr>hs_reservations := rs', hs_ops := (hs_ops s)(i \<mapsto> lab_op vg' False)\<rparr>)"
proof -
  have "fresh_group lab_stack" "\<not> vg_skip_infra_check lab_stack"
    by (simp_all add: lab_stack_def empty_group_orch_def fresh_group_def)
  then show ?thesis
    using heat_begin[of s i lab_stack Heat_Create "lab_openstack []" "''net''" "\<lparr>ch_params = [], ch_attrs = []\<rparr>"] assms
    by (simp add: lab_op_def unchecked_subnets_def lab_openstack_def)
qed

lemma lab_make:
  assumes "hs_ops s i = Some (lab_op vg' False)"
  shows "heat_step s (s\<lparr>hs_subnets := hs_subnets s @ stack_subnets vg', hs_ops := (hs_ops s)(i \<mapsto> lab_op vg' True)\<rparr>)"
  using heat_make[of s i "lab_op vg' False" "stack_subnets vg'"] assms by (simp add: lab_op_def)

text \<open>A stack is made on the empty network: its subnet is there, and its CIDR is reserved.\<close>

lemma stacks_never_share_subnets_witness:
  "\<exists>s. heat_step\<^sup>*\<^sup>* (heat_start []) s \<and> hs_subnets s = [(''10.101.0.0/24'', ''mex-k8s-subnet-c1'')] \<and>
     hs_exposed s = {} \<and> hs_reservations s \<noteq> init_resource_reservations \<and> distinct (map fst (hs_subnets s))"
proof -
  obtain vg' h' rs' where p: "populate_params (lab_openstack []) ''net'' Heat_Create lab_stack \<lparr>ch_params = [], ch_attrs = []\<rparr> init_resource_reservations =
       (Inr (vg', \<lparr>rv_fips = [], rv_subnets = [''10.101.0.0/24'']\<rparr>), h', rs')"
    and st: "stack_subnets vg' = [(''10.101.0.0/24'', ''mex-k8s-subnet-c1'')]"
    and rs: "rs' = init_resource_reservations\<lparr>rs_subnets := [''10.101.0.0/24'' \<mapsto> ''c1'']\<rparr>"
    by (rule lab_stack_populated)
  let ?s1 = "(heat_start [])\<lparr>hs_reservations := rs', hs_ops := (hs_ops (heat_start []))(0 \<mapsto> lab_op vg' False)\<rparr>"
  let ?s2 = "?s1\<lparr>hs_subnets := hs_subnets ?s1 @ stack_subnets vg', hs_ops := (hs_ops ?s1)(0 \<mapsto> lab_op vg' True)\<rparr>"
  have "heat_step (heat_start []) ?s1" by (rule lab_begin[OF p]) (simp_all add: heat_start_def)
  moreover have "heat_step ?s1 ?s2" by (rule lab_make) simp
  ultimately have run: "heat_step\<^sup>*\<^sup>* (heat_start []) ?s2" by (meson converse_rtranclp_into_rtranclp rtranclp.rtrancl_refl)
  have e: "hs_exposed ?s2 = {}" by (simp add: heat_start_def)
  have "distinct (map fst (hs_subnets ?s2))"
    using stacks_never_share_subnets[OF run] unfolding e by simp
  moreover have "hs_reservations ?s2 \<noteq> init_resource_reservations"
    by (simp add: rs init_resource_reservations_def)
  moreover have "hs_subnets ?s2 = [(''10.101.0.0/24'', ''mex-k8s-subnet-c1'')]" by (simp add: heat_start_def st)
  ultimately show ?thesis using run e by blast
qed

text \<open>
  Note (given\_up\_stack\_shares\_a\_subnet): when \<open>waitForStack\<close> returns early the CIDR is released while Openstack has yet to make the subnet;
  the next operation is given the same CIDR, and both stacks ask for it.
\<close>

lemma given_up_stack_shares_a_subnet:
  "\<exists>s. heat_step\<^sup>*\<^sup>* (heat_start []) s \<and> \<not> distinct (map fst (hs_subnets s)) \<and> hs_exposed s = {''10.101.0.0/24''}"
proof -
  obtain vg' h' rs' where p: "populate_params (lab_openstack []) ''net'' Heat_Create lab_stack \<lparr>ch_params = [], ch_attrs = []\<rparr> init_resource_reservations =
       (Inr (vg', \<lparr>rv_fips = [], rv_subnets = [''10.101.0.0/24'']\<rparr>), h', rs')"
    and st: "stack_subnets vg' = [(''10.101.0.0/24'', ''mex-k8s-subnet-c1'')]"
    and rs: "rs' = init_resource_reservations\<lparr>rs_subnets := [''10.101.0.0/24'' \<mapsto> ''c1'']\<rparr>"
    by (rule lab_stack_populated)
  have rel: "snd (release_reservations \<lparr>rv_fips = [], rv_subnets = [''10.101.0.0/24'']\<rparr> rs') = init_resource_reservations"
    by (auto simp: release_effect rs init_resource_reservations_def fun_eq_iff intro!: os_reservations.equality)
  let ?s1 = "(heat_start [])\<lparr>hs_reservations := rs', hs_ops := [0 \<mapsto> lab_op vg' False]\<rparr>"
  let ?s2 = "(heat_start [])\<lparr>hs_late := [stack_subnets vg'], hs_exposed := {''10.101.0.0/24''}\<rparr>"
  let ?s3 = "?s2\<lparr>hs_reservations := rs', hs_ops := [1 \<mapsto> lab_op vg' False]\<rparr>"
  let ?s4 = "?s3\<lparr>hs_subnets := stack_subnets vg', hs_ops := [1 \<mapsto> lab_op vg' True]\<rparr>"
  let ?s5 = "?s4\<lparr>hs_subnets := stack_subnets vg' @ stack_subnets vg', hs_late := []\<rparr>"
  have "heat_step (heat_start []) ?s1" using lab_begin[OF p, of "heat_start []" 0] by (simp add: heat_start_def)
  moreover have "heat_step ?s1 ?s2"
    using heat_give_up[of ?s1 0 "lab_op vg' False"] by (simp add: lab_op_def rel) (simp add: heat_start_def)
  moreover have "heat_step ?s2 ?s3" using lab_begin[OF p, of ?s2 1] by (simp add: heat_start_def)
  moreover have "heat_step ?s3 ?s4" using lab_make[of ?s3 1 vg'] by (simp add: heat_start_def)
  moreover have "heat_step ?s4 ?s5" using heat_late[of "stack_subnets vg'" ?s4 "stack_subnets vg'"] by simp
  ultimately have "heat_step\<^sup>*\<^sup>* (heat_start []) ?s5"
    by (meson converse_rtranclp_into_rtranclp rtranclp.rtrancl_refl)
  then show ?thesis by (rule_tac x = ?s5 in exI) (simp add: st)
qed

text \<open>
  Note (reset\_loses\_reservations): \<open>GetCloudletManifest\<close> initializes the reservations whatever is in flight, and the next operation is given a CIDR that
  another one still holds.
\<close>

lemma reset_loses_reservations:
  "\<exists>s a b. heat_step\<^sup>*\<^sup>* (heat_start []) s \<and> hs_ops s 0 = Some a \<and> hs_ops s 1 = Some b \<and>
     rv_subnets (ho_reserved a) = [''10.101.0.0/24''] \<and> rv_subnets (ho_reserved b) = [''10.101.0.0/24'']"
proof -
  obtain vg' h' rs' where p: "populate_params (lab_openstack []) ''net'' Heat_Create lab_stack \<lparr>ch_params = [], ch_attrs = []\<rparr> init_resource_reservations =
       (Inr (vg', \<lparr>rv_fips = [], rv_subnets = [''10.101.0.0/24'']\<rparr>), h', rs')"
    by (rule lab_stack_populated)
  let ?s1 = "(heat_start [])\<lparr>hs_reservations := rs', hs_ops := (hs_ops (heat_start []))(0 \<mapsto> lab_op vg' False)\<rparr>"
  let ?s2 = "?s1\<lparr>hs_reservations := init_resource_reservations,
      hs_exposed := hs_exposed ?s1 \<union> held_subnets ?s1, hs_exposed_fips := hs_exposed_fips ?s1 \<union> held_fips ?s1\<rparr>"
  let ?s3 = "?s2\<lparr>hs_reservations := rs', hs_ops := (hs_ops ?s2)(1 \<mapsto> lab_op vg' False)\<rparr>"
  have "heat_step (heat_start []) ?s1" by (rule lab_begin[OF p]) (simp_all add: heat_start_def)
  moreover have "heat_step ?s1 ?s2" by (rule heat_reset)
  moreover have "heat_step ?s2 ?s3" by (rule lab_begin[OF p]) (simp_all add: heat_start_def)
  ultimately have "heat_step\<^sup>*\<^sup>* (heat_start []) ?s3"
    by (meson converse_rtranclp_into_rtranclp rtranclp.rtrancl_refl)
  moreover have "rv_subnets (ho_reserved (lab_op vg' False)) = [''10.101.0.0/24'']" by (simp add: lab_op_def)
  moreover have "hs_ops ?s3 0 = Some (lab_op vg' False)" "hs_ops ?s3 1 = Some (lab_op vg' False)" by simp_all
  ultimately show ?thesis by blast
qed


text \<open>A cluster on that site: a dedicated load balancer, a master and two workers.\<close>

lemma external_ports_no_fips:
  "external_ports pv g gc i v nets = Inr (ps, fs) \<Longrightarrow> ni_floating_ip_net (gc_netspec gc) = '''' \<Longrightarrow> fs = []"
  by (induction nets arbitrary: ps fs)
     (auto simp: external_port_def Let_def split: sum.splits prod.splits if_splits)

lemma define_vms_no_fips:
  "define_vms pv vp g gc i next vs = Inr parts \<Longrightarrow> ni_floating_ip_net (gc_netspec gc) = '''' \<Longrightarrow> concat (map part_fips parts) = []"
proof (induction vs arbitrary: i "next" parts)
  case Nil
  then show ?case by simp
next
  case (Cons v vs)
  obtain pt n' parts' where d: "define_vm pv vp g gc i next v = Inr (pt, n')"
    "define_vms pv vp g gc (Suc i) n' vs = Inr parts'" "parts = pt # parts'"
    using Cons.prems by (auto split: sum.splits prod.splits)
  have "part_fips pt = []"
    using d(1) by (rule define_vm_cases) (simp add: external_ports_no_fips[OF _ Cons.prems(2)])
  then show ?case using Cons.IH[OF d(2) Cons.prems(2)] d(3) by simp
qed

lemma group_no_fips:
  assumes "group_params_from_spec pv vp g = Inr vg" "parse_net_spec (get_cloudlet_network_scheme vp) = Inr ni"
    "ni_floating_ip_net ni = ''''"
  shows "vg_fips vg = [] \<and> vg_netspec vg = Some ni \<and> vg_skip_infra_check vg = gr_skip_infra_check g"
  using assms(1)
proof (rule group_params_parts)
  fix sgid ni' sgs cert parts
  let ?gc = "group_context vp g sgid ni' (strings_split (get_cloudlet_dns vp) '','') cert"
  assume n: "parse_net_spec (get_cloudlet_network_scheme vp) = Inr ni'"
    and d: "define_vms pv vp g ?gc 0 first_internal_octet (gr_vms g) = Inr parts" and vg: "vg = group_orch pv vp g ?gc sgs parts"
  have ni: "gc_netspec ?gc = ni" using n assms(2) by (simp add: group_context_def)
  then show ?thesis
    using define_vms_no_fips[OF d] assms(3) by (simp add: vg group_orch_def)
qed

lemma cluster_ports_have_addresses_witness:
  "\<exists>vms h1 vg vg' h2 rs'.
     cluster_requests lab_cluster_env lab_properties ''base'' (lab_cluster 2) \<lparr>ch_params = [], ch_attrs = []\<rparr> =
       (Inr (vms, ''c1.example.net-sg''), h1) \<and>
     group_params_from_vm_spec lab_provider lab_properties ''c1'' vms
       (cluster_group_ops lab_cluster_env (lab_cluster 2) ''c1.example.net-sg'' None) = Inr vg \<and>
     populate_params (lab_openstack []) ''mex-k8s-net-1'' Heat_Create vg h1 init_resource_reservations = (Inr vg', h2, rs') \<and>
     distinct (internal_addresses (fst vg')) \<and> length (rv_subnets (snd vg')) = 1"
proof -
  let ?s = "get_cluster_subnet_name lab_cluster_env (lab_cluster 2)"
  obtain vms h1 vg where r: "cluster_requests lab_cluster_env lab_properties ''base'' (lab_cluster 2) \<lparr>ch_params = [], ch_attrs = []\<rparr> =
       (Inr (vms, ''c1.example.net-sg''), h1)"
    and vg: "group_params_from_vm_spec lab_provider lab_properties ''c1'' vms
       (cluster_group_ops lab_cluster_env (lab_cluster 2) ''c1.example.net-sg'' None) = Inr vg"
    using lab_cluster_params by blast
  obtain g where g: "group_params_from_spec lab_provider lab_properties g = Inr vg" "gr_vms g = vms" "gr_new_subnet g = ?s"
    "\<not> gr_skip_infra_check g"
    using cluster_group_fields[OF vg] .
  obtain ni where ni: "parse_net_spec (get_cloudlet_network_scheme lab_properties) = Inr ni" "ni_floating_ip_net ni = ''''"
    using lab_netspec unfolding lab_settings by blast
  have sub: "vr_connect_subnet ` set vms \<subseteq> {?s}"
    using cluster_requests_subnet[OF cluster_requests_shape[OF r]] by blast
  have "gr_new_subnet g \<noteq> ''''" by (simp add: g(3))
  then obtain s where s: "vg_subnets vg = [s]" "so_cidr s = next_available" "so_name s = ?s"
    using group_one_subnet[OF g(1)] g(3) by metis
  have "ports_wanted {?s} (vg_ports vg)"
    using ports_wanted_mono[OF group_ports_wanted[OF g(1)]] sub g(2,3) by simp
  then have "\<forall>p\<in>set (vg_ports vg). \<forall>f\<in>set (po_fixed_ips p). rr_name (fi_subnet f) = so_name s"
    by (simp add: ports_wanted_def s(3))
  with group_no_fips[OF g(1) ni] s g(4)
  obtain vg' h2 rs' where p: "populate_params (lab_openstack []) ''mex-k8s-net-1'' Heat_Create vg h1 init_resource_reservations =
      (Inr (vg', \<lparr>rv_fips = [], rv_subnets = [subnet_cidr ni 0]\<rparr>), h2, rs')"
    using lab_populate_goes[of vg ni s "''mex-k8s-net-1''" h1] by auto
  have "distinct (internal_addresses vg')"
    using cluster_ports_have_addresses[OF r vg p] by blast
  then show ?thesis
    using r vg p
    by (intro exI[of _ vms] exI[of _ h1] exI[of _ vg] exI[of _ "(vg', \<lparr>rv_fips = [], rv_subnets = [subnet_cidr ni 0]\<rparr>)"]
        exI[of _ h2] exI[of _ rs']) simp
qed

end
