(* ===== verification/Openstack_Routes.thy ===== *)
theory Openstack_Routes
  imports Openstack_Heat
begin

text \<open>
  The route to the internal networks (\<open>GetInternalNetworkRoute\<close> of \<open>src/vmlayer/ip.go\<close>) against the subnets that
  \<open>populateParams\<close> of \<open>src/crm-platforms/openstack/openstack-heat.go\<close> can give to clusters: what is parsed as a network scheme in one place is used for the addresses in the other.
\<close>

subsection \<open>IPv4 addresses and networks\<close>

definition ipv4_octet :: "string \<Rightarrow> nat option" where
  "ipv4_octet s =
     (if s = [] then None
      else case parse_digits 0 s of None \<Rightarrow> None | Some n \<Rightarrow> if n < 256 then Some n else None)"

definition ipv4_value :: "string \<Rightarrow> nat option" where
  "ipv4_value s =
     (case map ipv4_octet (strings_split s ''.'') of
        [Some a, Some b, Some c, Some d] \<Rightarrow> Some (((a * 256 + b) * 256 + c) * 256 + d)
      | _ \<Rightarrow> None)"

text \<open>The address is in the network: both agree on the bits of the mask.\<close>

definition in_network :: "string \<Rightarrow> string \<Rightarrow> bool" where
  "in_network cidr addr =
     (case strings_split cidr ''/'' of
        [net, bits] \<Rightarrow>
          (case (ipv4_value net, parse_digits 0 bits, ipv4_value addr) of
             (Some n, Some m, Some v) \<Rightarrow> m \<le> 32 \<and> v div 2 ^ (32 - m) = n div 2 ^ (32 - m)
           | _ \<Rightarrow> False)
      | _ \<Rightarrow> False)"

lemma parse_digits_all: "parse_digits acc s = Some n \<Longrightarrow> all_digits s"
  by (induction acc s rule: parse_digits.induct) (auto simp: all_digits_def split: option.splits)

lemma ipv4_octet_some:
  assumes "ipv4_octet s = Some n"
  shows "n < 256" and "all_digits s" and "CHR ''.'' \<notin> set s" and "CHR ''/'' \<notin> set s"
proof -
  show "n < 256" using assms by (auto simp: ipv4_octet_def split: if_splits option.splits)
  show all: "all_digits s"
    using assms parse_digits_all by (auto simp: ipv4_octet_def split: if_splits option.splits)
  have "char_digit (CHR ''.'') = None" "char_digit (CHR ''/'') = None" by code_simp+
  then show "CHR ''.'' \<notin> set s" "CHR ''/'' \<notin> set s" using all unfolding all_digits_def by metis+
qed

lemma ipv4_octet_digits: "n < 256 \<Longrightarrow> ipv4_octet (nat_digits n) = Some n"
  using nat_digits_head[of n] by (auto simp: ipv4_octet_def parse_nat_digits)

lemma split_four:
  assumes "CHR ''.'' \<notin> set a" "CHR ''.'' \<notin> set b" "CHR ''.'' \<notin> set c" "CHR ''.'' \<notin> set d"
  shows "strings_split (strings_join [a, b, c, d] ''.'') ''.'' = [a, b, c, d]"
  unfolding join_four
  using assms strings_split_hit[of "''.''" a] strings_split_hit[of "''.''" b] strings_split_hit[of "''.''" c]
    strings_split_clean[of "''.''" d] by simp

lemma ipv4_value_join:
  assumes "ipv4_octet a = Some na" "ipv4_octet b = Some nb" "ipv4_octet c = Some nc" "ipv4_octet d = Some nd"
  shows "ipv4_value (strings_join [a, b, c, d] ''.'') = Some (((na * 256 + nb) * 256 + nc) * 256 + nd)"
  unfolding ipv4_value_def split_four[OF assms[THEN ipv4_octet_some(3)]] using assms by simp

lemma in_network_16:
  assumes "ipv4_octet a = Some na" "ipv4_octet b = Some nb" "ipv4_octet c = Some nc" "ipv4_octet d = Some nd"
    and "ipv4_value addr = Some v"
  shows "in_network (strings_join [a, b, c, d] ''.'' @ ''/16'') addr \<longleftrightarrow> v div 2 ^ 16 = na * 256 + nb"
proof -
  let ?net = "strings_join [a, b, c, d] ''.''"
  have "CHR ''/'' \<notin> set ?net" unfolding join_four using assms(1-4)[THEN ipv4_octet_some(4)] by simp
  then have split: "strings_split (?net @ ''/16'') ''/'' = [?net, ''16'']"
    using strings_split_hit[of "''/''" ?net "''16''"] strings_split_clean[of "''/''" "''16''"] by simp
  have bits: "parse_digits 0 ''16'' = Some 16" by code_simp
  have "(((na * 256 + nb) * 256 + nc) * 256 + nd) div 2 ^ 16 = na * 256 + nb"
    using assms(3,4)[THEN ipv4_octet_some(1)] by simp
  then show ?thesis
    unfolding in_network_def split using ipv4_value_join[OF assms(1-4)] bits assms(5) by simp
qed

subsection \<open>The route covers the subnets\<close>

text \<open>
  C40 (subnets\_are\_routed): with an accepted network scheme \<open>a.b.X.d\<close> whose other octets are decimal numbers below 256, the
  route to the internal networks has exactly the addresses that begin with \<open>a.b\<close>, and so every address of every subnet
  that a cluster can get: \<open>a.b.n\<close>, with any \<open>n\<close> below 256, and any last octet.  (With a letter X in another octet too, which is
  accepted, the route is wrong: Note net\_spec\_letters.)
\<close>

theorem subnets_are_routed:
  assumes "parse_net_spec (get_cloudlet_network_scheme vp) = Inr ni" and "ni_octets ni = [a, b, x, d]"
    and "ipv4_octet a = Some na" "ipv4_octet b = Some nb" "ipv4_octet d = Some nd"
  shows "\<exists>route. get_internal_network_route vp False = Inr route \<and>
    (\<forall>addr v. ipv4_value addr = Some v \<longrightarrow> (in_network route addr \<longleftrightarrow> v div 2 ^ 16 = na * 256 + nb)) \<and>
    (\<forall>n<256. \<forall>h<256. in_network route (ip_prefix ni n @ ''.'' @ nat_digits h))"
proof (intro exI conjI allI impI)
  let ?route = "strings_join [a, b, ''0'', d] ''.'' @ ''/16''"
  have zero: "ipv4_octet ''0'' = Some 0" by code_simp
  note member = in_network_16[OF assms(3,4) zero assms(5)]
  have "ni_network_address ni = strings_join [a, b, ''X'', d] ''.''"
    using parse_net_spec_accepts[OF assms(1)] assms(2) by (auto simp: net_spec_ok_def)
  then show "get_internal_network_route vp False = Inr ?route"
    using assms(1) route_of_octets[OF assms(3-5)[THEN ipv4_octet_some(2)]] by (simp add: get_internal_network_route_def)
  show "in_network ?route addr \<longleftrightarrow> v div 2 ^ 16 = na * 256 + nb" if "ipv4_value addr = Some v" for addr v
    using member[OF that] .
  fix n h :: nat
  assume n: "n < 256" and h: "h < 256"
  have "ip_prefix ni n @ ''.'' @ nat_digits h = strings_join [a, b, nat_digits n, nat_digits h] ''.''"
    unfolding join_four by (simp add: ip_prefix_def assms(2))
  then have "ipv4_value (ip_prefix ni n @ ''.'' @ nat_digits h) = Some (((na * 256 + nb) * 256 + n) * 256 + h)"
    using ipv4_value_join[OF assms(3,4) n[THEN ipv4_octet_digits] h[THEN ipv4_octet_digits]] by simp
  moreover have "(((na * 256 + nb) * 256 + n) * 256 + h) div 2 ^ 16 = na * 256 + nb"
    using n h by simp
  ultimately show "in_network ?route (ip_prefix ni n @ ''.'' @ nat_digits h)" using member by blast
qed

theorem subnets_are_routed_witness:
  "\<exists>route ni. get_internal_network_route (plain_properties (\<lambda>_. ''cidr=10.101.X.0/24'')) False = Inr route \<and>
     parse_net_spec ''cidr=10.101.X.0/24'' = Inr ni \<and> in_network route (ip_prefix ni 200 @ ''.101'')"
proof -
  let ?vp = "plain_properties (\<lambda>_. ''cidr=10.101.X.0/24'')"
  have scheme: "get_cloudlet_network_scheme ?vp = ''cidr=10.101.X.0/24''"
    by (simp add: plain_properties_def get_cloudlet_network_scheme_def)
  have "map_sum id ni_octets (parse_net_spec ''cidr=10.101.X.0/24'') = Inr [''10'', ''101'', ''X'', ''0'']" by code_simp
  then obtain ni where ni: "parse_net_spec ''cidr=10.101.X.0/24'' = Inr ni" "ni_octets ni = [''10'', ''101'', ''X'', ''0'']"
    by (cases "parse_net_spec ''cidr=10.101.X.0/24''") auto
  have octets: "ipv4_octet ''10'' = Some 10" "ipv4_octet ''101'' = Some 101" "ipv4_octet ''0'' = Some 0" by code_simp+
  have digits: "nat_digits 101 = ''101''" by code_simp
  from subnets_are_routed[OF _ ni(2) octets, of ?vp] ni(1) scheme
  obtain route where "get_internal_network_route ?vp False = Inr route"
    and "\<forall>n<256. \<forall>h<256. in_network route (ip_prefix ni n @ ''.'' @ nat_digits h)" by auto
  moreover from this(2) have "in_network route (ip_prefix ni 200 @ ''.'' @ nat_digits 101)" by simp
  ultimately show ?thesis using ni(1) digits by auto
qed

end
