(* ===== verification/Spec2Isabelle.thy ===== *)
theory Spec2Isabelle
  imports AutoProv_Failover AutoProv_Alerts VMPool_Provider MC_Names MC_Visibility MC_ApiKeys Edge_Events Fed_Scenarios Openstack_Safety Openstack_Routes
begin

text \<open>
  A verification library of the control plane of \<open>edge-cloud-infra\<close>: the services around the controllers of an edge
  cloud.  A regional controller (in another repository) knows Cloudlets (sites), Apps and AppInsts; the
  services here decide where Apps run (\<open>autoprov\<close>), who may do what (\<open>mc\<close>, the master controller), how sites of
  operators are shared between master controllers (\<open>mc/federation\<close>), of which VMs, ports and subnets a cluster
  consists (\<open>vmlayer\<close>, \<open>crm-platforms/openstack\<close>), which machines of a pool it
  gets (\<open>crm-platforms/vmpool\<close>), and what the clients of AppInsts are told (\<open>edge-events\<close>).

  \<^bold>\<open>Conventions.\<close>  A Go function is a definition of the same name in snake case.  State is passed explicitly: a struct that is
  changed is a record that is returned.  A call that fails returns \<open>Inl\<close> of the error, \<open>Some\<close> of it, or a
  pair of it and the state at that point, so partial effects stay visible.  Go maps are association lists
  (\<open>gmap\<close> in \<open>Prelude\<close>) where the code ranges over them: theorems hold for every order that such a list
  can have.  Integers that the code keeps at 64 bits and that may wrap are words or are reduced (\<open>int64\<close>).  Every call of a
  database, a controller, a repository, a vault, a mail server or of cryptography is an argument: a function
  or a field of an environment record (\<open>mc_env\<close>, \<open>user_env\<close>, \<open>login_env\<close>, \<open>fed_env\<close>, \<open>ext\<close>,
  \<open>platform\<close>, \<open>dme\<close>, \<open>vm_provider\<close>, \<open>orchestrator\<close>, \<open>cluster_env\<close>, \<open>cluster_ops\<close>, \<open>os_answers\<close>); \<open>db_err\<close> says which call of the database fails, and \<open>no_err\<close> that none does.

  \<^bold>\<open>Automatic provisioning\<close> (\<open>src/autoprov\<close>).  \<open>AutoProv_Types\<close>: the caches.  \<open>AutoProv_Retry\<close>
  (\<open>autoprov_retry.go\<close>, \<open>autoprov_deploy.go\<close>): failed deployments and their retry.  \<open>AutoProv_Aggr\<close> (\<open>autoprov_aggr.go\<close>):
  deployment by demand; an App is deployed exactly at the end of a streak of intervals with enough
  clients.  \<open>AutoProv_MinMax\<close> (\<open>checkPolicy\<close>, \<open>Check\<close>): the minimum and maximum of instances of a policy;
  \<open>AutoProv_Workers\<close>: the goroutines that create instances, as a step relation over all interleavings; they share the cursor of
  \<open>getNext\<close> without a lock, so its check, index, load and store are steps of their own, and a panic is a state;
  \<open>AutoProv_Failover\<close>: the requests of Cloudlets under maintenance, answered exactly once.
  \<open>AutoProv_Alerts\<close> (\<open>alerthandler.go\<close>, \<open>autoscale.go\<close>, \<open>autorules\<close>): scaling by alerts, where the
  loop of retries is a partial function and its end a theorem.

  \<^bold>\<open>Pools of machines\<close> (\<open>src/crm-platforms/vmpool\<close>).  \<open>VMPool_Spec\<close> (\<open>vmpool-vmspec.go\<close>): the choice of machines.
  \<open>VMPool_Provider\<close> (\<open>vmpool-provider.go\<close>): create, update, delete and verify groups, the invariant of
  the pool, and that create and delete either work or leave the pool as it was.

  \<^bold>\<open>VM layer\<close> (\<open>src/vmlayer\<close>).  \<open>VMLayer_Props\<close> (\<open>props.go\<close>, \<open>ip.go\<close>): settings of a Cloudlet, network schemes and the
  routes and ranges that follow from them.  \<open>VMLayer_Params\<close> (\<open>vmparams.go\<close>): requests, built by options, and the parameters that
  are made from them for the orchestrator of a provider; Chef parameters are shared pointers, hence a heap.  \<open>VMLayer_Group\<close>: the parameters of
  a group are closed under reference, its ports are secured, its VMs have keys when they are made, and the octets given
  out.  \<open>VMLayer_Cluster\<close> (\<open>cluster.go\<close>, \<open>lb.go\<close>): clusters, their creation with its clean-up, change and deletion.
  \<open>VMLayer_Safety\<close>: the shape of a cluster's requests, from which its addresses, its Chef clients and the plan of a change follow.

  \<^bold>\<open>Openstack\<close> (\<open>src/crm-platforms/openstack\<close>).  \<open>Openstack_Heat\<close> (\<open>openstack-resource-reservations.go\<close>, \<open>populateParams\<close> of
  \<open>openstack-heat.go\<close>, \<open>vmlayer/vmconfig.go\<close>): subnets, addresses, user data and floating IPs are filled in and reserved.
  \<open>Openstack_Safety\<close>: operations on stacks as a step relation, with those that give up on a stack in the making and with the reservations being
  initialized in between; two stacks share a subnet only if its reservation was lost in one of these ways; and the way from the
  request for a cluster to the addresses of its ports.  \<open>Openstack_Routes\<close>: the internal route covers the subnets chosen.

  \<^bold>\<open>Master controller\<close> (\<open>src/mc\<close>).  \<open>MC_Rbac\<close> (\<open>mc/rbac\<close>): the table of rules and the enforcer, which refines
  the Casbin matcher.  \<open>MC_Auth\<close>: users, organizations, settings, \<open>authorized\<close> with its options, the permissions of roles.
  \<open>MC_Roles\<close> (\<open>role.go\<close>), \<open>MC_Orgs\<close> (\<open>org.go\<close>, \<open>validate.go\<close>): their calls; \<open>MC_Access\<close>, \<open>MC_Safety\<close>, \<open>MC_Names\<close>:
  roles stay scoped, managers stay, names fit.  \<open>MC_Pools\<close>, \<open>MC_Pool_Access\<close>
  (\<open>orgcloudletpools.go\<close>): access to private Cloudlets by invitation and response.  \<open>MC_Authz\<close>, \<open>MC_Show\<close>, \<open>MC_Visibility\<close>
  (\<open>authz_*.go\<close>): which objects a caller may use and see.  \<open>MC_Users\<close>, \<open>MC_User_Safety\<close> (\<open>user.go\<close>,
  \<open>config.go\<close>): accounts.  \<open>MC_Login\<close>, \<open>MC_Login_Safety\<close>: login, lockout, one-time passwords and tokens, and the rate at which passwords
  can be guessed.  \<open>MC_ApiKeys\<close>: keys, their rules, and what is put back when one cannot be made.

  \<^bold>\<open>Federation\<close> (\<open>src/mc/federation\<close>, \<open>src/mc/orm/federation_mc.go\<close>).  \<open>Fed_Types\<close>, \<open>Fed_Tables\<close>: tables with their keys and
  foreign keys, messages, the client.  \<open>Fed_Partner\<close> and \<open>Fed_Apps\<close> (\<open>federation_op.go\<close>): what partners may call.
  \<open>Fed_Mc\<close>: what operators may call.  \<open>Fed_Safety\<close>: the invariant \<open>fed_ok\<close> of the tables in every reachable state, under
  any failures and answers, and the frame of a partner's calls.  \<open>Fed_Protocol\<close>: the locale
  \<open>fed_peer\<close> is what a consumer relies on; the model of the provider interprets it.  \<open>Fed_Scenarios\<close>: both master controllers
  together refine \<open>fed_spec\<close> and their tables agree, and runs in which something is lost.

  \<^bold>\<open>Edge events\<close> (\<open>src/edge-events\<close>).  \<open>Edge_Events\<close>: the nested maps of Cloudlets, AppInsts and clients refine
  a flat registry (a locale of operations, interpreted on the handler), and who is sent what.

  \<^bold>\<open>How they interact.\<close>  All of \<open>mc\<close> works on one record \<open>mc\<close>; a master controller that federates is a \<open>fed_db\<close>, which holds it, and
  the table of federators is also what the deletion of an organization looks at.  A call over the network is a function on the state of
  the partner, so two models are composed by giving the handlers of one as the network of the other.  The
  theorems of single components carry over: \<open>fed_authorized\<close> is \<open>authorized\<close>, API keys are rules of the enforcer,
  the user calls keep the invariants of roles.  A cluster is requested in \<open>VMLayer_Cluster\<close>, laid out in
  \<open>VMLayer_Params\<close> and placed in \<open>Openstack_Heat\<close>; the theorem on its addresses spans the three.  The services of \<open>autoprov\<close> share the caches.

  \<^bold>\<open>Bounds.\<close>  No definition takes fuel.  Recursions are over lists; the retry loop of the auto-scaler is a
  \<open>partial_function\<close> whose result is proved to exist when the call succeeds in the end; the termination
  of the create workers is a theorem about all their runs.

  \<^bold>\<open>Hypotheses.\<close>  Theorems with a hypothesis have a witness.  Hypotheses are invariants that are proved to be kept
  (\<open>access_ok\<close>, \<open>users_ok\<close>, \<open>fed_ok\<close>, \<open>handler_ok\<close>), documented facts of libraries (decoding undoes encoding, a fresh
  UUID is not in use), and, where it is said, that certain calls of the database work.

  \<^bold>\<open>Notes.\<close>  A theorem whose text begins with Note is about behaviour that looks unintended, shown on a concrete run or in general.

  \<^bold>\<open>Not modelled.\<close>  Text of remote commands and heat templates; of \<open>vmlayer\<close> what runs over ssh, AppInsts, Cloudlets and metrics; the
  drivers of \<open>crm-platforms\<close> other than the pool and the reservations of Openstack; queries
  of metrics; PDF and mail output; generated code (\<open>*.mc2.go\<close>, \<open>mcctl\<close>, clients); the encoding of JWT and cookies;
  HTTP routing; logging; the wait after a wrong password; message texts that print lists; repositories (gitlab, artifactory), of which only the
  answers to user and organization calls count; locks of Go, except in the create workers and the operations on stacks: elsewhere a handler runs as one step.
\<close>

end
